(* ===== verification/EM_Prelude.thy ===== *)
theory EM_Prelude
  imports Main "HOL-Library.Word"
begin

section \<open>Shared vocabulary of the firmware model\<close>

text \<open>
  The types, the error values and the generic lemmas that every component uses.

  \<^item> Machine integers are words of their width. A signed C integer is the word with the same
    bits, read with \<open>sint\<close>. Lengths, sizes and offsets (\<open>size_t\<close>, \<open>uint32_t len\<close>) that the
    code only compares and adds far below their bound are \<open>nat\<close>.
  \<^item> An execution that does not return normally is a value of type \<open>fault\<close>: a failed
    \<open>assert\<close> (the firmware is built with assertions enabled, so it restarts), an access outside
    the object a pointer points into, or another undefined operation of C.
  \<^item> \<open>esp_err_t\<close> and the plain \<open>int\<close> results are \<open>int\<close>, with the values of the ESP-IDF error
    code reference.
\<close>

unbundle bit_operations_syntax

type_synonym u8 = "8 word"
type_synonym u16 = "16 word"
type_synonym u32 = "32 word"
type_synonym u64 = "64 word"
type_synonym i8 = "8 word"
type_synonym i16 = "16 word"
type_synonym i32 = "32 word"
type_synonym i64 = "64 word"
type_synonym bytes = "8 word list"

named_theorems byte_laws "evaluation of little-endian readers and writers"

subsection \<open>Faults and error codes\<close>

datatype fault =
    Abort            \<comment> \<open>a failed \<open>assert\<close> or \<open>ESP_ERROR_CHECK\<close>\<close>
  | OutOfBounds      \<comment> \<open>an access outside the object\<close>
  | Undefined        \<comment> \<open>signed overflow, a shift or a division outside its domain\<close>
  | OutOfFuel        \<comment> \<open>the fuel of a modelled loop ran out; shown not to happen\<close>

type_synonym 'a outcome = "fault + 'a"

definition obind :: "'a outcome \<Rightarrow> ('a \<Rightarrow> 'b outcome) \<Rightarrow> 'b outcome" where
  "obind r f = (case r of Inl e \<Rightarrow> Inl e | Inr a \<Rightarrow> f a)"

definition c_assert :: "bool \<Rightarrow> 'a outcome \<Rightarrow> 'a outcome" where
  "c_assert b k = (if b then k else Inl Abort)"

lemma obind_simps [simp]:
  "obind (Inl e) f = Inl e"
  "obind (Inr a) f = f a"
  by (simp_all add: obind_def)

lemma obind_Inr_iff: "obind r f = Inr b \<longleftrightarrow> (\<exists>a. r = Inr a \<and> f a = Inr b)"
  by (cases r) simp_all

lemma obind_Inl_iff: "obind r f = Inl e \<longleftrightarrow> r = Inl e \<or> (\<exists>a. r = Inr a \<and> f a = Inl e)"
  by (cases r) simp_all

lemma obind_assoc: "obind (obind r f) g = obind r (\<lambda>a. obind (f a) g)"
  by (cases r) simp_all

lemma obind_cong [fundef_cong]:
  "r = r' \<Longrightarrow> (\<And>a. r' = Inr a \<Longrightarrow> f a = g a) \<Longrightarrow> obind r f = obind r' g"
  by (cases r') simp_all

lemma c_assert_simps [simp]:
  "c_assert True k = k"
  "c_assert False k = Inl Abort"
  by (simp_all add: c_assert_def)

lemma c_assert_Inr_iff [simp]: "c_assert b k = Inr a \<longleftrightarrow> b \<and> k = Inr a"
  by (simp add: c_assert_def)

lemma c_assert_OutOfBounds_iff [simp]:
  "c_assert b k = Inl OutOfBounds \<longleftrightarrow> b \<and> k = Inl OutOfBounds"
  by (simp add: c_assert_def)

abbreviation ESP_OK :: int where "ESP_OK \<equiv> 0"
abbreviation ESP_FAIL :: int where "ESP_FAIL \<equiv> - 1"
abbreviation ESP_ERR_NO_MEM :: int where "ESP_ERR_NO_MEM \<equiv> 0x101"
abbreviation ESP_ERR_INVALID_ARG :: int where "ESP_ERR_INVALID_ARG \<equiv> 0x102"
abbreviation ESP_ERR_INVALID_STATE :: int where "ESP_ERR_INVALID_STATE \<equiv> 0x103"
abbreviation ESP_ERR_INVALID_SIZE :: int where "ESP_ERR_INVALID_SIZE \<equiv> 0x104"
abbreviation ESP_ERR_NOT_FOUND :: int where "ESP_ERR_NOT_FOUND \<equiv> 0x105"
abbreviation ESP_ERR_NOT_SUPPORTED :: int where "ESP_ERR_NOT_SUPPORTED \<equiv> 0x106"
abbreviation ESP_ERR_TIMEOUT :: int where "ESP_ERR_TIMEOUT \<equiv> 0x107"
abbreviation ESP_ERR_INVALID_RESPONSE :: int where "ESP_ERR_INVALID_RESPONSE \<equiv> 0x108"

subsection \<open>Sizes of C types and structures\<close>

text \<open>
  The target is the ESP32-C3 (RISC-V, 32 bit): a scalar is aligned to its size, \<open>time_t\<close> has
  64 bits, a member is placed at the next multiple of its alignment, and a structure is padded
  to its largest alignment. A packed structure has no padding.
\<close>

datatype c_type = C8 | C16 | C32 | C64 | CArr c_type nat

fun c_size :: "c_type \<Rightarrow> nat" where
  "c_size C8 = 1"
| "c_size C16 = 2"
| "c_size C32 = 4"
| "c_size C64 = 8"
| "c_size (CArr t n) = n * c_size t"

fun c_align :: "c_type \<Rightarrow> nat" where
  "c_align (CArr t n) = c_align t"
| "c_align t = c_size t"

definition align_up :: "nat \<Rightarrow> nat \<Rightarrow> nat" where
  "align_up n a = (if a = 0 then n else ((n + a - 1) div a) * a)"

definition struct_end :: "c_type list \<Rightarrow> nat" where
  "struct_end ts = fold (\<lambda>t off. align_up off (c_align t) + c_size t) ts 0"

definition struct_sizeof :: "c_type list \<Rightarrow> nat" where
  "struct_sizeof ts = align_up (struct_end ts) (fold (\<lambda>t a. max a (c_align t)) ts 1)"

definition packed_sizeof :: "c_type list \<Rightarrow> nat" where
  "packed_sizeof ts = sum_list (map c_size ts)"

lemma align_up_ge: "n \<le> align_up n a"
proof (cases "a = 0")
  case False
  have "(n + a - 1) mod a < a" using False by simp
  moreover have "(n + a - 1) div a * a + (n + a - 1) mod a = n + a - 1"
    by (rule div_mult_mod_eq)
  ultimately have "n \<le> (n + a - 1) div a * a" by linarith
  then show ?thesis by (simp add: align_up_def)
qed (simp add: align_up_def)

lemma fold_layout_ge:
  "off + sum_list (map c_size ts) \<le> fold (\<lambda>t off. align_up off (c_align t) + c_size t) ts off"
proof (induction ts arbitrary: off)
  case (Cons t ts)
  have "off + c_size t \<le> align_up off (c_align t) + c_size t"
    by (simp add: align_up_ge)
  with Cons [of "align_up off (c_align t) + c_size t"] show ?case by simp
qed simp

lemma packed_le_struct: "packed_sizeof ts \<le> struct_sizeof ts"
proof -
  have "packed_sizeof ts \<le> struct_end ts"
    using fold_layout_ge [of 0 ts] by (simp add: packed_sizeof_def struct_end_def)
  also have "\<dots> \<le> struct_sizeof ts"
    by (simp add: struct_sizeof_def align_up_ge)
  finally show ?thesis .
qed

subsection \<open>Words\<close>

lemma unat_add_1_less:
  fixes a b :: "'a::len word"
  assumes "unat a < unat b"
  shows "unat (a + 1) = Suc (unat a)"
proof -
  have "Suc (unat a) < 2 ^ LENGTH('a)"
    using assms unsigned_less [of b] by (meson Suc_leI le_less_trans)
  then show ?thesis by (simp add: unat_word_ariths)
qed

lemma unat_ucast_up:
  "LENGTH('a) \<le> LENGTH('b) \<Longrightarrow> unat (ucast (x :: 'a :: len word) :: 'b :: len word) = unat x"
proof -
  assume "LENGTH('a) \<le> LENGTH('b)"
  then have "(2::nat) ^ LENGTH('a) \<le> 2 ^ LENGTH('b)" by (intro power_increasing) simp_all
  moreover have "unat x < 2 ^ LENGTH('a)" by (rule unsigned_less)
  ultimately have "unat x < 2 ^ LENGTH('b)" by linarith
  then show "unat (ucast x :: 'b word) = unat x" by (simp add: unsigned_ucast_eq take_bit_nat_eq_self)
qed

lemma unat_word_of_nat:
  "n < 2 ^ LENGTH('a::len) \<Longrightarrow> unat (word_of_nat n :: 'a word) = n"
  by (simp add: unat_of_nat take_bit_nat_eq_self)

lemma word_of_nat_div:
  assumes "a < 2 ^ LENGTH('a::len)" "b < 2 ^ LENGTH('a)"
  shows "(word_of_nat a div word_of_nat b :: 'a word) = word_of_nat (a div b)"
proof -
  have "a div b < 2 ^ LENGTH('a)" using assms(1) by (rule le_less_trans [OF div_le_dividend])
  then show ?thesis
    using assms by (simp only: word_unat_eq_iff unat_div_distrib unat_word_of_nat)
qed

lemma unat_minus_1: "unat (- 1 :: 'a::len word) = 2 ^ LENGTH('a) - 1"
  by (simp add: unsigned_minus_1_eq_mask mask_eq_exp_minus_1)

subsection \<open>Ticks\<close>

text \<open>
  \<open>pdMS_TO_TICKS\<close> of FreeRTOS, with the tick type of 32 bits and \<open>CONFIG_FREERTOS_HZ=100\<close> (src/sdkconfig): the
  product is taken in the tick type, so it wraps for more than 42949672 ms. src/errors.md shows the wrap on the device:
  callbacks scheduled 15 to 16 hours ahead fired 42949673 ms early. A timer asserts that its period is not 0.
\<close>

definition pdMS_TO_TICKS :: "u32 \<Rightarrow> u32" where
  "pdMS_TO_TICKS ms = ms * 100 div 1000"

lemma unat_ticks: "unat (pdMS_TO_TICKS ms) = unat ms * 100 mod 2 ^ 32 div 1000"
  by (simp add: pdMS_TO_TICKS_def unat_div unat_word_ariths)

lemma unat_ticks_small: "unat ms \<le> 42949672 \<Longrightarrow> unat (pdMS_TO_TICKS ms) = unat ms div 10"
  by (simp add: unat_ticks)

lemma unat_ticks_bound: "unat (pdMS_TO_TICKS ms) \<le> 4294967"
proof -
  have "unat ms * 100 mod 2 ^ 32 div 1000 \<le> (2 ^ 32 - 1) div 1000"
    by (rule div_le_mono) (use mod_less_divisor [of "2 ^ 32" "unat ms * 100"] in simp)
  then show ?thesis by (simp add: unat_ticks)
qed

subsection \<open>Lists and arrays\<close>

lemma mod_window:
  fixes r i n :: nat
  shows "r < n \<Longrightarrow> i < n \<Longrightarrow> (r + i) mod n = (if r + i < n then r + i else r + i - n)"
  by (simp add: le_mod_geq)

lemma mod_succ:
  fixes r n :: nat
  shows "r < n \<Longrightarrow> Suc r mod n = (if Suc r < n then Suc r else 0)"
  by (auto simp: mod_Suc)

lemma nth_prefix_eq: "take n xs = take n ys \<Longrightarrow> i < n \<Longrightarrow> i < length xs \<Longrightarrow> i < length ys \<Longrightarrow> xs ! i = ys ! i"
  by (metis nth_take)

lemma list_update_append_at: "n = length xs \<Longrightarrow> (xs @ y # ys)[n := z] = xs @ z # ys"
  by (simp add: list_update_append)

lemma take_Suc_update: "n < length xs \<Longrightarrow> take (Suc n) (xs[n := x]) = take n xs @ [x]"
  by (simp add: take_Suc_conv_app_nth)

lemma drop_update_before: "i < n \<Longrightarrow> drop n (xs[i := x]) = drop n xs"
  by simp

text \<open>
  \<open>overwrite\<close> is the effect of a \<open>memcpy\<close> of \<open>bs\<close> to offset \<open>p\<close> of an object.
\<close>

definition overwrite :: "'a list \<Rightarrow> nat \<Rightarrow> 'a list \<Rightarrow> 'a list" where
  "overwrite mem p bs = take p mem @ bs @ drop (p + length bs) mem"

lemma length_overwrite [simp]:
  "p + length bs \<le> length mem \<Longrightarrow> length (overwrite mem p bs) = length mem"
  by (simp add: overwrite_def)

lemma overwrite_Nil [simp]: "overwrite mem p [] = mem"
  by (simp add: overwrite_def)

lemma overwrite_append:
  "p + length as + length bs \<le> length mem \<Longrightarrow>
   overwrite (overwrite mem p as) (p + length as) bs = overwrite mem p (as @ bs)"
  by (cases as) (auto simp: overwrite_def min_def algebra_simps)

lemma take_overwrite_0: "n = length bs \<Longrightarrow> take n (overwrite mem 0 bs) = bs"
  by (simp add: overwrite_def)

lemma overwrite_single: "p < length mem \<Longrightarrow> overwrite mem p [b] = mem[p := b]"
  by (simp add: overwrite_def upd_conv_take_nth_drop)

subsection \<open>Little-endian numbers\<close>

text \<open>\<open>le_nat bs\<close> is the value of the bytes \<open>bs\<close> on the little-endian target, \<open>nat_le n v\<close> the \<open>n\<close>
  bytes of \<open>v\<close>; \<open>nat_be\<close> and \<open>be_nat\<close> are the same in network order.\<close>

fun le_nat :: "bytes \<Rightarrow> nat" where
  "le_nat [] = 0"
| "le_nat (b # bs) = unat b + 256 * le_nat bs"

fun nat_le :: "nat \<Rightarrow> nat \<Rightarrow> bytes" where
  "nat_le 0 v = []"
| "nat_le (Suc n) v = word_of_nat v # nat_le n (v div 256)"

lemma length_nat_le [simp]: "length (nat_le n v) = n"
  by (induction n arbitrary: v) simp_all

lemma nat_le_numeral [simp]:
  "nat_le (numeral k) v = word_of_nat v # nat_le (pred_numeral k) (v div 256)"
  by (simp only: numeral_eq_Suc [of k] nat_le.simps)

lemma le_nat_bound: "le_nat bs < 256 ^ length bs"
proof (induction bs)
  case (Cons b bs)
  have "unat b < 256" using unsigned_less [of b] by simp
  with Cons show ?case by simp
qed simp

lemma le_nat_nat_le [byte_laws]: "le_nat (nat_le n v) = v mod 256 ^ n"
proof (induction n arbitrary: v)
  case (Suc n)
  have "unat (word_of_nat v :: u8) = v mod 256" by (simp add: unat_of_nat)
  then show ?case using Suc by (simp add: mod_mult2_eq)
qed simp

lemma nat_le_le_nat [byte_laws]: "n = length bs \<Longrightarrow> nat_le n (le_nat bs) = bs"
proof (induction bs arbitrary: n)
  case (Cons b bs)
  have "unat b < 256" using unsigned_less [of b] by simp
  moreover from this have "(unat b + 256 * le_nat bs) div 256 = le_nat bs" by simp
  moreover have "(word_of_nat (unat b + 256 * le_nat bs) :: u8) = b"
  proof -
    have "(word_of_nat (unat b + 256 * le_nat bs) :: u8) = b + word_of_nat 256 * word_of_nat (le_nat bs)"
      by simp
    also have "(word_of_nat 256 :: u8) = 0" by (simp add: word_unat_eq_iff unat_of_nat)
    finally show ?thesis by simp
  qed
  ultimately show ?case using Cons by simp
qed simp

lemma le_nat_append: "le_nat (xs @ ys) = le_nat xs + 256 ^ length xs * le_nat ys"
  by (induction xs) (simp_all add: algebra_simps)

text \<open>\<open>slice p n mem\<close>: the \<open>n\<close> bytes at offset \<open>p\<close>.\<close>

definition slice :: "nat \<Rightarrow> nat \<Rightarrow> 'a list \<Rightarrow> 'a list" where
  "slice p n mem = take n (drop p mem)"

lemma length_slice [simp]: "p + n \<le> length mem \<Longrightarrow> length (slice p n mem) = n"
  by (simp add: slice_def)

lemma slice_overwrite_same [simp]:
  "p + length bs \<le> length mem \<Longrightarrow> n = length bs \<Longrightarrow> slice p n (overwrite mem p bs) = bs"
  by (simp add: slice_def overwrite_def)

lemma slice_overwrite_before:
  assumes "q + n \<le> p" "p \<le> length mem"
  shows "slice q n (overwrite mem p bs) = slice q n mem"
proof -
  have "take n (drop q (overwrite mem p bs)) = take n (drop q (take p mem))"
    using assms by (simp add: overwrite_def)
  also have "\<dots> = take n (drop q mem)" using assms by (simp add: drop_take)
  finally show ?thesis by (simp add: slice_def)
qed

subsection \<open>Arrays and strings of C\<close>

text \<open>The string at the start of an array, as \<open>strlen\<close> and the formatted output read it: it needs its terminator.\<close>

definition c_string :: "bytes \<Rightarrow> bytes outcome" where
  "c_string mem = (if 0 \<in> set mem then Inr (takeWhile (\<lambda>b. b \<noteq> 0) mem) else Inl OutOfBounds)"

text \<open>\<open>strnlen\<close> and \<open>memcpy\<close> to the start of an array.\<close>

definition c_strnlen :: "bytes \<Rightarrow> nat \<Rightarrow> nat outcome" where
  "c_strnlen s n =
     (let k = length (takeWhile (\<lambda>c. c \<noteq> 0) (take n s)) in
      if k < length s \<or> k = n then Inr k else Inl OutOfBounds)"

definition c_memcpy :: "'a list \<Rightarrow> 'a list \<Rightarrow> nat \<Rightarrow> 'a list outcome" where
  "c_memcpy dst src n =
     (if n \<le> length dst \<and> n \<le> length src then Inr (overwrite dst 0 (take n src)) else Inl OutOfBounds)"

end
