(* ===== verification/EM_Buffer.thy ===== *)
theory EM_Buffer
  imports EM_Prelude
begin

section \<open>The byte buffer (em_buffer/buffer.c)\<close>

text \<open>
  \<open>buffer_t\<close> is a pointer to an object with a capacity, a fill level and a flag that says whether
  the object came from \<open>malloc\<close>. The pointer is modelled by the object it points to
  (\<open>None\<close> for \<open>NULL\<close>), so that a write outside the object is visible. \<open>malloc\<close> is a
  parameter: a function from the requested size to the new object, with any contents, or \<open>None\<close>.
\<close>

record buffer_t =
  b_data :: "bytes option"
  b_cap :: u16
  b_len :: u16
  b_dynamic :: bool

definition malloc_ok :: "(nat \<Rightarrow> bytes option) \<Rightarrow> bool" where
  "malloc_ok malloc \<longleftrightarrow> (\<forall>n bs. malloc n = Some bs \<longrightarrow> length bs = n)"

text \<open>
  \<open>memcpy_asc mem dst src n\<close> copies byte by byte in ascending order, which is what the C library
  of the target does; C leaves an overlapping \<open>memcpy\<close> undefined, and \<open>buffer_pop_front\<close> makes one
  whenever it removes less than half of the buffer.
\<close>

fun memcpy_asc :: "bytes \<Rightarrow> nat \<Rightarrow> nat \<Rightarrow> nat \<Rightarrow> bytes outcome" where
  "memcpy_asc mem dst src 0 = Inr mem"
| "memcpy_asc mem dst src (Suc n) =
     (if src < length mem \<and> dst < length mem
      then memcpy_asc (mem[dst := mem ! src]) (Suc dst) (Suc src) n
      else Inl OutOfBounds)"

definition buffer_clean :: "buffer_t \<Rightarrow> buffer_t" where
  "buffer_clean ptr = ptr\<lparr>b_len := 0\<rparr>"

definition buffer_pop_front :: "buffer_t \<Rightarrow> u16 \<Rightarrow> buffer_t outcome" where
  "buffer_pop_front ptr num =
     (if b_len ptr \<le> num then Inr (ptr\<lparr>b_len := 0\<rparr>)
      else (case b_data ptr of
          None \<Rightarrow> Inl OutOfBounds
        | Some d \<Rightarrow>
            obind (memcpy_asc d 0 (unat num) (unat (b_len ptr - num)))
              (\<lambda>d'. Inr (ptr\<lparr>b_data := Some d', b_len := b_len ptr - num\<rparr>))))"

definition buffer_push :: "buffer_t \<Rightarrow> u8 \<Rightarrow> buffer_t outcome" where
  "buffer_push ptr byte =
     (case b_data ptr of
        None \<Rightarrow> Inl OutOfBounds
      | Some d \<Rightarrow>
          (if unat (b_len ptr) < length d
           then Inr (ptr\<lparr>b_data := Some (d[unat (b_len ptr) := byte]), b_len := b_len ptr + 1\<rparr>)
           else Inl OutOfBounds))"

definition buffer_dynamic_alloc ::
  "(nat \<Rightarrow> bytes option) \<Rightarrow> buffer_t \<Rightarrow> u16 \<Rightarrow> buffer_t outcome" where
  "buffer_dynamic_alloc malloc ptr cap =
     c_assert (cap < 1200)
       (case malloc (unat cap) of
          None \<Rightarrow> Inl Abort
        | Some d \<Rightarrow> Inr \<lparr>b_data = Some d, b_cap = cap, b_len = 0, b_dynamic = True\<rparr>)"

definition em_buffer_free :: "buffer_t \<Rightarrow> buffer_t" where
  "em_buffer_free ptr = ptr\<lparr>b_data := None, b_cap := 0, b_len := 0\<rparr>"

definition buffer_zero :: buffer_t where
  "buffer_zero = \<lparr>b_data = None, b_cap = 0, b_len = 0, b_dynamic = False\<rparr>"

subsection \<open>Invariant and contents\<close>

definition buffer_wf :: "buffer_t \<Rightarrow> bool" where
  "buffer_wf b \<longleftrightarrow>
     (case b_data b of
        None \<Rightarrow> b_cap b = 0 \<and> b_len b = 0
      | Some d \<Rightarrow> length d = unat (b_cap b) \<and> b_len b \<le> b_cap b)"

definition buffer_bytes :: "buffer_t \<Rightarrow> bytes" where
  "buffer_bytes b = (case b_data b of None \<Rightarrow> [] | Some d \<Rightarrow> take (unat (b_len b)) d)"

lemma length_buffer_bytes [simp]:
  "buffer_wf b \<Longrightarrow> length (buffer_bytes b) = unat (b_len b)"
  by (auto simp: buffer_wf_def buffer_bytes_def word_le_nat_alt split: option.splits)

lemma buffer_len_le_cap: "buffer_wf b \<Longrightarrow> unat (b_len b) \<le> unat (b_cap b)"
  by (auto simp: buffer_wf_def word_le_nat_alt split: option.splits)

lemma memcpy_asc_eq:
  "dst \<le> src \<Longrightarrow> src + n \<le> length mem \<Longrightarrow>
   memcpy_asc mem dst src n = Inr (overwrite mem dst (take n (drop src mem)))"
proof (induction n arbitrary: mem dst src)
  case (Suc n)
  let ?m = "mem[dst := mem ! src]"
  have "memcpy_asc mem dst src (Suc n) = memcpy_asc ?m (Suc dst) (Suc src) n"
    using Suc.prems by simp
  also have "\<dots> = Inr (overwrite ?m (Suc dst) (take n (drop (Suc src) ?m)))"
    using Suc.prems by (intro Suc.IH) auto
  also have "drop (Suc src) ?m = drop (Suc src) mem" using Suc.prems by simp
  also have "?m = overwrite mem dst [mem ! src]"
    using Suc.prems by (simp add: overwrite_single)
  also have "overwrite (overwrite mem dst [mem ! src]) (Suc dst) (take n (drop (Suc src) mem))
      = overwrite mem dst (mem ! src # take n (drop (Suc src) mem))"
    using Suc.prems
      overwrite_append [of dst "[mem ! src]" "take n (drop (Suc src) mem)" mem] by simp
  also have "mem ! src # take n (drop (Suc src) mem) = take (Suc n) (drop src mem)"
    using Suc.prems by (simp add: Cons_nth_drop_Suc [symmetric])
  finally show ?case .
qed simp

lemma buffer_pop_front_ok:
  assumes "buffer_wf b"
  shows "\<exists>b'. buffer_pop_front b num = Inr b' \<and> buffer_wf b' \<and>
           buffer_bytes b' = drop (unat num) (buffer_bytes b) \<and> b_cap b' = b_cap b"
proof (cases "b_len b \<le> num")
  case True
  then have "unat (b_len b) \<le> unat num" by (simp add: word_le_nat_alt)
  with True assms show ?thesis
    by (auto simp: buffer_pop_front_def buffer_wf_def buffer_bytes_def split: option.splits)
next
  case False
  then have lt: "unat num < unat (b_len b)" by (simp add: word_le_nat_alt)
  then obtain d where d: "b_data b = Some d"
    using assms by (auto simp: buffer_wf_def split: option.splits)
  have len: "length d = unat (b_cap b)" "unat (b_len b) \<le> length d"
    using assms d by (auto simp: buffer_wf_def word_le_nat_alt)
  have diff: "unat (b_len b - num) = unat (b_len b) - unat num"
    using lt by (simp add: unat_sub word_le_nat_alt)
  have cpy: "memcpy_asc d 0 (unat num) (unat (b_len b - num)) =
      Inr (overwrite d 0 (take (unat (b_len b) - unat num) (drop (unat num) d)))"
    using len lt by (subst memcpy_asc_eq) (simp_all add: diff)
  show ?thesis
    using False d len lt
    by (simp add: buffer_pop_front_def cpy [unfolded diff] buffer_wf_def buffer_bytes_def diff
        word_le_nat_alt take_overwrite_0 drop_take)
qed

lemma buffer_push_ok:
  assumes "buffer_wf b" "b_len b < b_cap b"
  shows "\<exists>b'. buffer_push b x = Inr b' \<and> buffer_wf b' \<and>
           buffer_bytes b' = buffer_bytes b @ [x] \<and> b_cap b' = b_cap b \<and> b_len b' = b_len b + 1"
proof -
  obtain d where d: "b_data b = Some d" "length d = unat (b_cap b)"
    using assms by (auto simp: buffer_wf_def split: option.splits)
  have lt: "unat (b_len b) < unat (b_cap b)" using assms(2) by (simp add: word_less_nat_alt)
  then have suc: "unat (b_len b + 1) = Suc (unat (b_len b))"
    by (rule unat_add_1_less)
  show ?thesis
    using d lt
    by (simp add: buffer_push_def buffer_wf_def buffer_bytes_def suc word_le_nat_alt take_Suc_update)
qed

lemma buffer_clean_ok:
  "buffer_wf b \<Longrightarrow> buffer_wf (buffer_clean b) \<and> buffer_bytes (buffer_clean b) = []"
  by (auto simp: buffer_clean_def buffer_wf_def buffer_bytes_def split: option.splits)

lemma buffer_clean_cap [simp]: "b_cap (buffer_clean b) = b_cap b"
  by (simp add: buffer_clean_def)

lemma buffer_dynamic_alloc_Inr:
  assumes "malloc_ok malloc" "buffer_dynamic_alloc malloc b cap = Inr b'"
  shows "buffer_wf b' \<and> b_cap b' = cap \<and> b_len b' = 0 \<and> b_dynamic b' \<and>
    (\<exists>d. b_data b' = Some d \<and> length d = unat cap)"
  using assms
  by (auto simp: buffer_dynamic_alloc_def malloc_ok_def buffer_wf_def split: option.splits)

subsection \<open>The interface: a sink of bytes with a capacity\<close>

text \<open>
  What the SLIP decoder needs of its output buffer: as long as there is room a byte can be
  appended, nothing else changes, and the buffer can be emptied.
\<close>

locale byte_sink =
  fixes push :: "'b \<Rightarrow> u8 \<Rightarrow> 'b outcome"
    and clean :: "'b \<Rightarrow> 'b"
    and content :: "'b \<Rightarrow> bytes"
    and room :: "'b \<Rightarrow> nat"
    and inv :: "'b \<Rightarrow> bool"
  assumes push_law: "inv b \<Longrightarrow> length (content b) < room b \<Longrightarrow>
      \<exists>b'. push b x = Inr b' \<and> inv b' \<and> content b' = content b @ [x] \<and> room b' = room b"
    and clean_law: "inv b \<Longrightarrow> inv (clean b) \<and> content (clean b) = [] \<and> room (clean b) = room b"
begin

lemma push_ok:
  assumes "inv b" "length (content b) < room b" "push b x = Inr b'"
  shows "inv b'" "content b' = content b @ [x]" "room b' = room b"
  using push_law [OF assms(1,2), of x] assms(3) by auto

lemma push_no_fault:
  "inv b \<Longrightarrow> length (content b) < room b \<Longrightarrow> push b x \<noteq> Inl e"
  using push_law [of b x] by auto

end

interpretation buf: byte_sink buffer_push buffer_clean buffer_bytes "\<lambda>b. unat (b_cap b)" buffer_wf
proof (unfold_locales, goal_cases)
  case (1 b x)
  then have "b_len b < b_cap b" by (simp add: word_less_nat_alt)
  with 1 buffer_push_ok [of b x] show ?case by auto
next
  case (2 b)
  then show ?case using buffer_clean_ok [of b] by simp
qed

end
