(* ===== verification/EM_Ringbuf.thy ===== *)
theory EM_Ringbuf
  imports EM_Prelude
begin

section \<open>The ring buffer (em_ringbuf/ringbuf.c)\<close>

text \<open>
  A ring of \<open>size\<close> bytes with a read index, a write index and a flag that tells a full ring from
  an empty one. A write to a full ring drops the oldest byte. The contents are the bytes from the
  read index on; every operation is shown to act on them as the corresponding list operation.
\<close>

record em_ringbuf_t =
  rb_buffer :: bytes
  rb_size :: nat
  rb_read :: nat
  rb_write :: nat
  rb_is_full :: bool

definition em_ringbuf_init :: "em_ringbuf_t \<Rightarrow> em_ringbuf_t outcome" where
  "em_ringbuf_init buf =
     c_assert (rb_size buf > 0) (Inr (buf\<lparr>rb_read := 0, rb_write := 0, rb_is_full := False\<rparr>))"

definition ringbuf_put :: "em_ringbuf_t \<Rightarrow> u8 \<Rightarrow> em_ringbuf_t outcome" where
  "ringbuf_put buf d =
     (if rb_size buf = 0 then Inl Undefined
      else if \<not> rb_write buf < length (rb_buffer buf) then Inl OutOfBounds
      else
        (let rd = (if rb_is_full buf then (rb_read buf + 1) mod rb_size buf else rb_read buf);
             wr = (rb_write buf + 1) mod rb_size buf
         in Inr (buf\<lparr>rb_read := rd, rb_buffer := (rb_buffer buf)[rb_write buf := d],
                     rb_write := wr, rb_is_full := (rd = wr)\<rparr>)))"

fun ringbuf_write_loop :: "em_ringbuf_t \<Rightarrow> bytes \<Rightarrow> em_ringbuf_t outcome" where
  "ringbuf_write_loop buf [] = Inr buf"
| "ringbuf_write_loop buf (d # ds) = obind (ringbuf_put buf d) (\<lambda>buf'. ringbuf_write_loop buf' ds)"

definition em_ringbuf_write :: "em_ringbuf_t \<Rightarrow> bytes \<Rightarrow> nat \<Rightarrow> (em_ringbuf_t \<times> nat) outcome" where
  "em_ringbuf_write buf data len =
     c_assert (len > 0)
       (if length data < len then Inl OutOfBounds
        else obind (ringbuf_write_loop buf (take len data)) (\<lambda>buf'. Inr (buf', len)))"

text \<open>\<open>ringbuf_read_loop buf i n\<close>: the loop from index \<open>i\<close> with \<open>n\<close> rounds left; the result is the
  bytes stored to \<open>data[i]\<close> and up.\<close>

fun ringbuf_read_loop :: "em_ringbuf_t \<Rightarrow> nat \<Rightarrow> nat \<Rightarrow> bytes outcome" where
  "ringbuf_read_loop buf i 0 = Inr []"
| "ringbuf_read_loop buf i (Suc n) =
     (let read_tmp = (rb_read buf + i) mod rb_size buf in
      if i > 0 \<and> read_tmp = rb_write buf then Inr []
      else if \<not> read_tmp < length (rb_buffer buf) then Inl OutOfBounds
      else obind (ringbuf_read_loop buf (Suc i) n) (\<lambda>ds. Inr (rb_buffer buf ! read_tmp # ds)))"

definition em_ringbuf_read :: "em_ringbuf_t \<Rightarrow> nat \<Rightarrow> bytes outcome" where
  "em_ringbuf_read buf len =
     c_assert (len > 0)
       (if rb_read buf = rb_write buf \<and> \<not> rb_is_full buf then Inr []
        else if rb_size buf = 0 then Inl Undefined
        else ringbuf_read_loop buf 0 len)"

definition em_ringbuf_is_empty :: "em_ringbuf_t \<Rightarrow> bool" where
  "em_ringbuf_is_empty buf \<longleftrightarrow> rb_read buf = rb_write buf \<and> \<not> rb_is_full buf"

definition em_ringbuf_is_full :: "em_ringbuf_t \<Rightarrow> bool" where
  "em_ringbuf_is_full buf = rb_is_full buf"

definition em_ringbuf_flush :: "em_ringbuf_t \<Rightarrow> em_ringbuf_t" where
  "em_ringbuf_flush buf = buf\<lparr>rb_read := 0, rb_write := 0, rb_is_full := False\<rparr>"

definition em_ringbuf_len :: "em_ringbuf_t \<Rightarrow> nat" where
  "em_ringbuf_len buf =
     (if rb_is_full buf then rb_size buf
      else if rb_write buf \<ge> rb_read buf then rb_write buf - rb_read buf
      else rb_size buf - (rb_read buf - rb_write buf))"

definition em_ringbuf_free_len :: "em_ringbuf_t \<Rightarrow> nat" where
  "em_ringbuf_free_len buf = rb_size buf - em_ringbuf_len buf"

definition em_ringbuf_clear :: "em_ringbuf_t \<Rightarrow> nat \<Rightarrow> (em_ringbuf_t \<times> nat) outcome" where
  "em_ringbuf_clear buf bytes_to_clear =
     c_assert (bytes_to_clear > 0)
       (let buf_len = em_ringbuf_len buf in
        if buf_len = 0 then Inr (buf, 0)
        else if bytes_to_clear \<ge> buf_len then Inr (em_ringbuf_flush buf, bytes_to_clear)
        else Inr (buf\<lparr>rb_read := (rb_read buf + bytes_to_clear) mod rb_size buf,
                      rb_is_full := False\<rparr>, bytes_to_clear))"

subsection \<open>Invariant and contents\<close>

definition ringbuf_inv :: "em_ringbuf_t \<Rightarrow> bool" where
  "ringbuf_inv b \<longleftrightarrow> 0 < rb_size b \<and> length (rb_buffer b) = rb_size b \<and>
     rb_read b < rb_size b \<and> rb_write b < rb_size b \<and>
     (rb_is_full b \<longrightarrow> rb_read b = rb_write b)"

definition ringbuf_bytes :: "em_ringbuf_t \<Rightarrow> bytes" where
  "ringbuf_bytes b =
     map (\<lambda>i. rb_buffer b ! ((rb_read b + i) mod rb_size b)) [0..<em_ringbuf_len b]"

lemma length_ringbuf_bytes [simp]: "length (ringbuf_bytes b) = em_ringbuf_len b"
  by (simp add: ringbuf_bytes_def)

lemma ringbuf_len_le: "ringbuf_inv b \<Longrightarrow> em_ringbuf_len b \<le> rb_size b"
  by (auto simp: ringbuf_inv_def em_ringbuf_len_def)

lemma ringbuf_len_full: "ringbuf_inv b \<Longrightarrow> em_ringbuf_len b = rb_size b \<longleftrightarrow> rb_is_full b"
  by (auto simp: ringbuf_inv_def em_ringbuf_len_def)

lemma ringbuf_len_empty: "ringbuf_inv b \<Longrightarrow> em_ringbuf_len b = 0 \<longleftrightarrow> em_ringbuf_is_empty b"
  by (auto simp: ringbuf_inv_def em_ringbuf_len_def em_ringbuf_is_empty_def)

lemma ringbuf_write_eq:
  assumes "ringbuf_inv b"
  shows "rb_write b = (rb_read b + em_ringbuf_len b) mod rb_size b"
  using assms by (auto simp: ringbuf_inv_def em_ringbuf_len_def mod_window)

lemma ringbuf_bytes_nth:
  "i < em_ringbuf_len b \<Longrightarrow> ringbuf_bytes b ! i = rb_buffer b ! ((rb_read b + i) mod rb_size b)"
  by (simp add: ringbuf_bytes_def)

lemma mod_window_inj:
  fixes r i j n :: nat
  assumes "r < n" "i < n" "j < n" "(r + i) mod n = (r + j) mod n"
  shows "i = j"
  using assms by (simp add: mod_window split: if_splits)

lemma ring_len_arith:
  fixes r w k n :: nat
  assumes "r < n" "k < n" "(r + k) mod n = w" "w' = Suc w mod n"
  shows "(if r = w' then n else if w' \<ge> r then w' - r else n - (r - w')) = Suc k"
proof -
  have w: "w = (if r + k < n then r + k else r + k - n)" using assms mod_window [of r n k] by simp
  then have "w < n" using assms by (simp split: if_splits)
  then have w': "w' = (if Suc w < n then Suc w else 0)" using assms by (simp only: mod_succ)
  show ?thesis using w w' assms(1,2) by (cases "r + k < n"; cases "Suc w < n") auto
qed

subsection \<open>Writing\<close>

text \<open>One byte: appended, the oldest byte dropped first when the ring is full.\<close>

lemma ringbuf_put_ok:
  assumes inv: "ringbuf_inv b"
  shows "\<exists>b'. ringbuf_put b d = Inr b' \<and> ringbuf_inv b' \<and> rb_size b' = rb_size b \<and>
    ringbuf_bytes b' =
       (if rb_is_full b then tl (ringbuf_bytes b) else ringbuf_bytes b) @ [d]"
proof -
  define n where "n = rb_size b"
  define rd where "rd = (if rb_is_full b then Suc (rb_read b) mod n else rb_read b)"
  define wr where "wr = Suc (rb_write b) mod n"
  define b' where "b' = b\<lparr>rb_read := rd, rb_buffer := (rb_buffer b)[rb_write b := d],
               rb_write := wr, rb_is_full := (rd = wr)\<rparr>"
  define k where "k = (if rb_is_full b then n - 1 else em_ringbuf_len b)"
  have n: "0 < n" "length (rb_buffer b) = n" "rb_read b < n" "rb_write b < n"
    and full: "rb_is_full b \<Longrightarrow> rb_read b = rb_write b"
    using inv by (auto simp: ringbuf_inv_def n_def)
  have put: "ringbuf_put b d = Inr b'"
    using n by (simp add: ringbuf_put_def Let_def b'_def rd_def wr_def n_def)
  have inv': "ringbuf_inv b'"
    using n by (auto simp: ringbuf_inv_def b'_def rd_def wr_def n_def [symmetric])
  have k: "k < n"
    using n ringbuf_len_le [OF inv] ringbuf_len_full [OF inv]
    by (auto simp: le_less k_def n_def)
  have rd_n: "rd < n" using n by (simp add: rd_def)
  have wr_k: "(rd + k) mod n = rb_write b"
  proof (cases "rb_is_full b")
    case True
    have "(rd + k) mod n = (Suc (rb_read b) + (n - 1)) mod n"
      using True by (simp add: rd_def k_def mod_simps del: add_Suc)
    also have "\<dots> = rb_write b" using n full [OF True] by simp
    finally show ?thesis .
  next
    case False
    then show ?thesis
      using ringbuf_write_eq [OF inv] by (simp add: rd_def k_def n_def)
  qed
  have len': "em_ringbuf_len b' = Suc k"
  proof -
    have "em_ringbuf_len b' = (if rd = wr then n else if wr \<ge> rd then wr - rd else n - (rd - wr))"
      by (simp add: em_ringbuf_len_def b'_def n_def)
    also have "\<dots> = Suc k" by (rule ring_len_arith [OF rd_n k wr_k wr_def])
    finally show ?thesis .
  qed
  have "ringbuf_bytes b' =
      (if rb_is_full b then tl (ringbuf_bytes b) else ringbuf_bytes b) @ [d]" (is "_ = ?old @ _")
  proof (rule nth_equalityI)
    have old: "length ?old = k"
      using ringbuf_len_full [OF inv] by (auto simp: k_def n_def)
    then show "length (ringbuf_bytes b') = length (?old @ [d])" using len' by simp
    fix i assume "i < length (ringbuf_bytes b')"
    then have i: "i < Suc k" using len' by simp
    have at: "ringbuf_bytes b' ! i = (rb_buffer b)[rb_write b := d] ! ((rd + i) mod n)"
      using i len' by (simp add: ringbuf_bytes_nth) (simp add: b'_def n_def)
    show "ringbuf_bytes b' ! i = (?old @ [d]) ! i"
    proof (cases "i = k")
      case True
      then show ?thesis using at wr_k n old by (simp add: nth_append)
    next
      case False
      with i have ik: "i < k" by simp
      then have "(rd + i) mod n \<noteq> rb_write b"
        using mod_window_inj [OF rd_n _ k, of i] k wr_k by auto
      then have "ringbuf_bytes b' ! i = rb_buffer b ! ((rd + i) mod n)" using at by simp
      also have "\<dots> = ?old ! i"
      proof (cases "rb_is_full b")
        case True
        then have "Suc i < em_ringbuf_len b"
          using ik k ringbuf_len_full [OF inv] by (simp add: k_def n_def)
        then show ?thesis
          using True by (simp add: nth_tl ringbuf_bytes_nth rd_def n_def mod_simps)
      next
        case False
        then show ?thesis using ik by (simp add: ringbuf_bytes_nth rd_def k_def n_def)
      qed
      finally show ?thesis using ik old by (simp add: nth_append)
    qed
  qed
  then show ?thesis using put inv' by (auto simp: b'_def)
qed

text \<open>\<open>newest n xs\<close>: what a ring of \<open>n\<close> bytes keeps of the stream \<open>xs\<close>.\<close>

definition newest :: "nat \<Rightarrow> 'a list \<Rightarrow> 'a list" where
  "newest n xs = drop (length xs - n) xs"

lemma newest_short [simp]: "length xs \<le> n \<Longrightarrow> newest n xs = xs"
  by (simp add: newest_def)

lemma length_newest [simp]: "length (newest n xs) = min n (length xs)"
  by (simp add: newest_def)

lemma newest_newest_append: "newest n (newest n xs @ ys) = newest n (xs @ ys)"
proof (cases "length xs \<le> n")
  case False
  then have "length xs + length ys - n = (length xs - n) + length ys" by simp
  then show ?thesis using False by (simp add: newest_def drop_append add.commute)
qed simp

lemma newest_tl: "length xs = n \<Longrightarrow> 0 < n \<Longrightarrow> newest n (xs @ [d]) = tl xs @ [d]"
  by (cases xs) (simp_all add: newest_def)

lemma ringbuf_put_newest:
  assumes inv: "ringbuf_inv b"
  shows "\<exists>b'. ringbuf_put b d = Inr b' \<and> ringbuf_inv b' \<and> rb_size b' = rb_size b \<and>
    ringbuf_bytes b' = newest (rb_size b) (ringbuf_bytes b @ [d])"
proof (cases "rb_is_full b")
  case True
  then have "length (ringbuf_bytes b) = rb_size b" "0 < rb_size b"
    using inv ringbuf_len_full [OF inv] by (auto simp: ringbuf_inv_def)
  with True ringbuf_put_ok [OF inv, of d] show ?thesis by (simp add: newest_tl)
next
  case False
  then have "length (ringbuf_bytes b) < rb_size b"
    using ringbuf_len_full [OF inv] ringbuf_len_le [OF inv] by (simp add: le_less)
  with False ringbuf_put_ok [OF inv, of d] show ?thesis by simp
qed

lemma ringbuf_write_loop_ok:
  "ringbuf_inv b \<Longrightarrow>
   \<exists>b'. ringbuf_write_loop b ds = Inr b' \<and> ringbuf_inv b' \<and> rb_size b' = rb_size b \<and>
     ringbuf_bytes b' = newest (rb_size b) (ringbuf_bytes b @ ds)"
proof (induction ds arbitrary: b)
  case Nil
  then show ?case using ringbuf_len_le [of b] by simp
next
  case (Cons d ds)
  obtain b1 where b1: "ringbuf_put b d = Inr b1" "ringbuf_inv b1" "rb_size b1 = rb_size b"
    "ringbuf_bytes b1 = newest (rb_size b) (ringbuf_bytes b @ [d])"
    using ringbuf_put_newest [OF Cons.prems, of d] by blast
  from Cons.IH [OF b1(2)] b1 show ?case by (simp add: newest_newest_append)
qed

subsection \<open>Reading and clearing\<close>

lemma ringbuf_read_loop_ok:
  assumes inv: "ringbuf_inv b"
  shows "i \<le> em_ringbuf_len b \<Longrightarrow> 0 < em_ringbuf_len b \<Longrightarrow>
    ringbuf_read_loop b i m = Inr (take m (drop i (ringbuf_bytes b)))"
proof (induction m arbitrary: i)
  case (Suc m)
  let ?t = "(rb_read b + i) mod rb_size b"
  have n: "0 < rb_size b" "length (rb_buffer b) = rb_size b" "rb_read b < rb_size b"
    using inv by (auto simp: ringbuf_inv_def)
  have t: "?t < length (rb_buffer b)" using n by simp
  show ?case
  proof (cases "i = em_ringbuf_len b")
    case True
    then have "?t = rb_write b" using ringbuf_write_eq [OF inv] by simp
    with True Suc.prems show ?thesis by (simp add: Let_def)
  next
    case False
    with Suc.prems have i: "i < em_ringbuf_len b" by simp
    have stop: "\<not> (0 < i \<and> ?t = rb_write b)"
    proof
      assume a: "0 < i \<and> ?t = rb_write b"
      have "i < rb_size b" using i ringbuf_len_le [OF inv] by simp
      show False
      proof (cases "rb_is_full b")
        case True
        then have "(rb_read b + i) mod rb_size b = (rb_read b + 0) mod rb_size b"
          using a inv n by (auto simp: ringbuf_inv_def)
        then show False using mod_window_inj [OF n(3) \<open>i < rb_size b\<close> n(1)] a by blast
      next
        case False
        then have "em_ringbuf_len b < rb_size b"
          using ringbuf_len_full [OF inv] ringbuf_len_le [OF inv] by (simp add: le_less)
        then show False
          using mod_window_inj [OF n(3) \<open>i < rb_size b\<close>, of "em_ringbuf_len b"] a i
            ringbuf_write_eq [OF inv] by auto
      qed
    qed
    have "ringbuf_read_loop b i (Suc m) =
        Inr (rb_buffer b ! ?t # take m (drop (Suc i) (ringbuf_bytes b)))"
      using stop t i Suc.IH [of "Suc i"] Suc.prems
      by (simp add: Let_def split del: if_split) auto
    also have "rb_buffer b ! ?t = ringbuf_bytes b ! i" using i by (simp add: ringbuf_bytes_nth)
    finally show ?thesis using i by (simp add: Cons_nth_drop_Suc [symmetric])
  qed
qed simp

lemma ringbuf_flush_ok:
  "ringbuf_inv b \<Longrightarrow> ringbuf_inv (em_ringbuf_flush b) \<and> ringbuf_bytes (em_ringbuf_flush b) = [] \<and>
     rb_size (em_ringbuf_flush b) = rb_size b"
  by (simp add: ringbuf_inv_def em_ringbuf_flush_def ringbuf_bytes_def em_ringbuf_len_def)

lemma ringbuf_clear_part:
  assumes inv: "ringbuf_inv b" and n: "n < em_ringbuf_len b" "0 < n"
  defines "b' \<equiv> b\<lparr>rb_read := (rb_read b + n) mod rb_size b, rb_is_full := False\<rparr>"
  shows "ringbuf_inv b'" "ringbuf_bytes b' = drop n (ringbuf_bytes b)"
proof -
  have s: "0 < rb_size b" "rb_read b < rb_size b" "rb_write b < rb_size b"
    using inv by (auto simp: ringbuf_inv_def)
  show "ringbuf_inv b'" using inv by (simp add: ringbuf_inv_def b'_def)
  have len: "em_ringbuf_len b \<le> rb_size b" by (rule ringbuf_len_le [OF inv])
  have wr: "rb_write b = (rb_read b + em_ringbuf_len b) mod rb_size b"
    by (rule ringbuf_write_eq [OF inv])
  define r where "r = (rb_read b + n) mod rb_size b"
  define k where "k = em_ringbuf_len b - n"
  have r: "r < rb_size b" using s by (simp add: r_def)
  have k: "0 < k" "k < rb_size b" using n len by (auto simp: k_def)
  have "n + k = em_ringbuf_len b" using n by (simp add: k_def)
  then have w: "(r + k) mod rb_size b = rb_write b"
    unfolding wr r_def by (metis add.assoc mod_add_left_eq)
  have len': "em_ringbuf_len b' = k"
  proof -
    have "rb_write b = (if r + k < rb_size b then r + k else r + k - rb_size b)"
      using mod_window [OF r k(2)] w by simp
    then show ?thesis
      using r k s by (cases "r + k < rb_size b") (auto simp: em_ringbuf_len_def b'_def r_def [symmetric])
  qed
  show "ringbuf_bytes b' = drop n (ringbuf_bytes b)"
  proof (rule nth_equalityI)
    show "length (ringbuf_bytes b') = length (drop n (ringbuf_bytes b))"
      by (simp add: len' k_def)
    fix i assume "i < length (ringbuf_bytes b')"
    then have i: "i < k" by (simp add: len')
    then have "ringbuf_bytes b' ! i = rb_buffer b ! ((r + i) mod rb_size b)"
      by (simp add: ringbuf_bytes_nth len') (simp add: b'_def r_def)
    also have "\<dots> = ringbuf_bytes b ! (n + i)"
      using i by (simp add: ringbuf_bytes_nth k_def r_def mod_simps add.assoc)
    finally show "ringbuf_bytes b' ! i = drop n (ringbuf_bytes b) ! i"
      using n by simp
  qed
qed

subsection \<open>The interface: a bounded stream of bytes\<close>

text \<open>
  The contract a user of the ring relies on: a write keeps the newest \<open>capacity\<close> bytes of the
  stream, a read returns a prefix and removes nothing, a clear removes a prefix.
\<close>

locale byte_fifo =
  fixes inv :: "'q \<Rightarrow> bool"
    and content :: "'q \<Rightarrow> bytes"
    and capacity :: "'q \<Rightarrow> nat"
    and wr :: "'q \<Rightarrow> bytes \<Rightarrow> nat \<Rightarrow> ('q \<times> nat) outcome"
    and rd :: "'q \<Rightarrow> nat \<Rightarrow> bytes outcome"
    and cl :: "'q \<Rightarrow> nat \<Rightarrow> ('q \<times> nat) outcome"
  assumes write_law: "inv q \<Longrightarrow> 0 < n \<Longrightarrow> n \<le> length ds \<Longrightarrow>
      \<exists>q'. wr q ds n = Inr (q', n) \<and> inv q' \<and> capacity q' = capacity q \<and>
        content q' = newest (capacity q) (content q @ take n ds)"
    and read_law: "inv q \<Longrightarrow> 0 < n \<Longrightarrow> rd q n = Inr (take n (content q))"
    and clear_law: "inv q \<Longrightarrow> 0 < n \<Longrightarrow>
      \<exists>q' m. cl q n = Inr (q', m) \<and> inv q' \<and> capacity q' = capacity q \<and>
        content q' = drop n (content q)"
begin

text \<open>Reading and then clearing as many bytes splits the contents: nothing is lost, duplicated or
  reordered by the consumer.\<close>

lemma read_clear_split:
  assumes "inv q" "0 < n"
  shows "\<exists>ds q' m. rd q n = Inr ds \<and> cl q n = Inr (q', m) \<and> inv q' \<and>
    ds @ content q' = content q"
  using read_law [OF assms] clear_law [OF assms] by auto

lemma write_read:
  assumes "inv q" "0 < length ds" "length (content q) + length ds \<le> capacity q"
  shows "\<exists>q'. wr q ds (length ds) = Inr (q', length ds) \<and> inv q' \<and>
    rd q' (length (content q) + length ds) = Inr (content q @ ds)"
proof -
  obtain q' where "wr q ds (length ds) = Inr (q', length ds)" "inv q'"
    "content q' = newest (capacity q) (content q @ ds)"
    using write_law [OF assms(1), of "length ds" ds] assms(2) by auto
  with assms read_law [of q' "length (content q) + length ds"] show ?thesis by simp
qed

lemma write_write:
  assumes "inv q" "0 < length ds" "0 < length es"
  shows "\<exists>q1 q2. wr q ds (length ds) = Inr (q1, length ds) \<and>
    wr q1 es (length es) = Inr (q2, length es) \<and> inv q2 \<and>
    content q2 = newest (capacity q) (content q @ ds @ es)"
proof -
  obtain q1 where q1: "wr q ds (length ds) = Inr (q1, length ds)" "inv q1"
    "capacity q1 = capacity q" "content q1 = newest (capacity q) (content q @ ds)"
    using write_law [OF assms(1), of "length ds" ds] assms(2) by auto
  from write_law [OF q1(2), of "length es" es] assms(3) q1 show ?thesis
    by (auto simp: newest_newest_append)
qed

end

interpretation ring: byte_fifo ringbuf_inv ringbuf_bytes rb_size em_ringbuf_write em_ringbuf_read
  em_ringbuf_clear
proof (unfold_locales, goal_cases)
  case (1 q n ds)
  then show ?case
    using ringbuf_write_loop_ok [of q "take n ds"] by (auto simp: em_ringbuf_write_def)
next
  case (2 q n)
  show ?case
  proof (cases "em_ringbuf_is_empty q")
    case True
    then have "ringbuf_bytes q = []"
      using ringbuf_len_empty [OF 2(1)] by (simp flip: length_0_conv)
    with True 2 show ?thesis by (simp add: em_ringbuf_read_def em_ringbuf_is_empty_def)
  next
    case False
    then have "0 < em_ringbuf_len q" using ringbuf_len_empty [OF 2(1)] by simp
    with 2 False show ?thesis
      using ringbuf_read_loop_ok [OF 2(1), of 0 n]
      by (auto simp: em_ringbuf_read_def em_ringbuf_is_empty_def ringbuf_inv_def)
  qed
next
  case (3 q n)
  then show ?case
    using ringbuf_flush_ok [of q] ringbuf_clear_part [of q n]
      length_0_conv [of "ringbuf_bytes q"]
    by (auto simp: em_ringbuf_clear_def Let_def simp del: length_0_conv)
qed

subsection \<open>Refinement: any sequence of operations\<close>

text \<open>The calls of the interface, their effect on the ring, and their effect on a plain list with
  a capacity.\<close>

datatype ring_op = RWrite bytes | RRead nat | RClear nat | RFlush | RLen | RFree

datatype ring_out = OCount nat | OBytes bytes | OUnit

fun ring_step :: "em_ringbuf_t \<Rightarrow> ring_op \<Rightarrow> (em_ringbuf_t \<times> ring_out) outcome" where
  "ring_step b (RWrite ds) =
     obind (em_ringbuf_write b ds (length ds)) (\<lambda>(b', n). Inr (b', OCount n))"
| "ring_step b (RRead n) = obind (em_ringbuf_read b n) (\<lambda>ds. Inr (b, OBytes ds))"
| "ring_step b (RClear n) = obind (em_ringbuf_clear b n) (\<lambda>(b', m). Inr (b', OCount m))"
| "ring_step b RFlush = Inr (em_ringbuf_flush b, OUnit)"
| "ring_step b RLen = Inr (b, OCount (em_ringbuf_len b))"
| "ring_step b RFree = Inr (b, OCount (em_ringbuf_free_len b))"

fun ring_run :: "em_ringbuf_t \<Rightarrow> ring_op list \<Rightarrow> (em_ringbuf_t \<times> ring_out list) outcome" where
  "ring_run b [] = Inr (b, [])"
| "ring_run b (p # ps) =
     obind (ring_step b p) (\<lambda>(b', out). obind (ring_run b' ps) (\<lambda>(b'', outs). Inr (b'', out # outs)))"

fun stream_step :: "nat \<Rightarrow> bytes \<Rightarrow> ring_op \<Rightarrow> bytes \<times> ring_out" where
  "stream_step cap xs (RWrite ds) = (newest cap (xs @ ds), OCount (length ds))"
| "stream_step cap xs (RRead n) = (xs, OBytes (take n xs))"
| "stream_step cap xs (RClear n) = (drop n xs, OCount (if xs = [] then 0 else n))"
| "stream_step cap xs RFlush = ([], OUnit)"
| "stream_step cap xs RLen = (xs, OCount (length xs))"
| "stream_step cap xs RFree = (xs, OCount (cap - length xs))"

fun stream_run :: "nat \<Rightarrow> bytes \<Rightarrow> ring_op list \<Rightarrow> bytes \<times> ring_out list" where
  "stream_run cap xs [] = (xs, [])"
| "stream_run cap xs (p # ps) =
     (let (xs', out) = stream_step cap xs p; (xs'', outs) = stream_run cap xs' ps in (xs'', out # outs))"

text \<open>The calls that the code's assertions allow.\<close>

fun ring_op_ok :: "ring_op \<Rightarrow> bool" where
  "ring_op_ok (RWrite ds) \<longleftrightarrow> ds \<noteq> []"
| "ring_op_ok (RRead n) \<longleftrightarrow> 0 < n"
| "ring_op_ok (RClear n) \<longleftrightarrow> 0 < n"
| "ring_op_ok _ \<longleftrightarrow> True"

lemma ring_clear_count:
  "ringbuf_inv b \<Longrightarrow> em_ringbuf_clear b n = Inr (b', m) \<Longrightarrow> m = (if ringbuf_bytes b = [] then 0 else n)"
  by (auto simp: em_ringbuf_clear_def Let_def simp flip: length_0_conv split: if_splits)

lemma ring_step_ok:
  assumes inv: "ringbuf_inv b" and ok: "ring_op_ok p"
  shows "\<exists>b' out. ring_step b p = Inr (b', out) \<and> ringbuf_inv b' \<and> rb_size b' = rb_size b \<and>
    stream_step (rb_size b) (ringbuf_bytes b) p = (ringbuf_bytes b', out)"
proof (cases p)
  case (RWrite ds)
  with ok ring.write_law [OF inv, of "length ds" ds] show ?thesis by auto
next
  case (RRead n)
  with ok ring.read_law [OF inv, of n] inv show ?thesis by auto
next
  case (RClear n)
  with ok obtain b' m where "em_ringbuf_clear b n = Inr (b', m)" "ringbuf_inv b'"
    "rb_size b' = rb_size b" "ringbuf_bytes b' = drop n (ringbuf_bytes b)"
    using ring.clear_law [OF inv, of n] by auto
  with RClear ring_clear_count [OF inv, of n b' m] show ?thesis by simp
qed (use inv ringbuf_flush_ok [OF inv] in \<open>auto simp: em_ringbuf_free_len_def\<close>)

lemma ring_run_ok:
  "ringbuf_inv b \<Longrightarrow> list_all ring_op_ok ps \<Longrightarrow>
   \<exists>b' outs. ring_run b ps = Inr (b', outs) \<and> ringbuf_inv b' \<and> rb_size b' = rb_size b \<and>
     stream_run (rb_size b) (ringbuf_bytes b) ps = (ringbuf_bytes b', outs)"
proof (induction ps arbitrary: b)
  case (Cons p ps)
  then obtain b1 out where b1: "ring_step b p = Inr (b1, out)" "ringbuf_inv b1"
    "rb_size b1 = rb_size b" "stream_step (rb_size b) (ringbuf_bytes b) p = (ringbuf_bytes b1, out)"
    using ring_step_ok [of b p] by auto
  obtain b2 outs where "ring_run b1 ps = Inr (b2, outs)" "ringbuf_inv b2"
    "rb_size b2 = rb_size b1" "stream_run (rb_size b1) (ringbuf_bytes b1) ps = (ringbuf_bytes b2, outs)"
    using Cons.IH [OF b1(2)] Cons.prems by auto
  with b1 show ?case by simp
qed simp

lemma em_ringbuf_init_inv:
  assumes "0 < rb_size b" "length (rb_buffer b) = rb_size b"
  shows "\<exists>b'. em_ringbuf_init b = Inr b' \<and> ringbuf_inv b' \<and> ringbuf_bytes b' = [] \<and>
    rb_size b' = rb_size b"
  using assms by (simp add: em_ringbuf_init_def ringbuf_inv_def ringbuf_bytes_def em_ringbuf_len_def)

text \<open>C5. From initialisation on, any sequence of writes, reads, clears, flushes and length
  queries with positive sizes runs without a failed assertion or an access outside the buffer, and
  returns exactly what a plain list bounded to the newest \<open>size\<close> bytes returns; the final contents
  agree too.\<close>

theorem ringbuf_refines_stream:
  assumes "0 < rb_size b" "length (rb_buffer b) = rb_size b" "list_all ring_op_ok ps"
  shows "\<exists>b0 b' outs. em_ringbuf_init b = Inr b0 \<and> ring_run b0 ps = Inr (b', outs) \<and>
    stream_run (rb_size b) [] ps = (ringbuf_bytes b', outs) \<and> em_ringbuf_len b' \<le> rb_size b"
proof -
  obtain b0 where b0: "em_ringbuf_init b = Inr b0" "ringbuf_inv b0" "ringbuf_bytes b0 = []"
    "rb_size b0 = rb_size b"
    using em_ringbuf_init_inv [OF assms(1,2)] by blast
  obtain b' outs where "ring_run b0 ps = Inr (b', outs)" "ringbuf_inv b'" "rb_size b' = rb_size b"
    "stream_run (rb_size b) [] ps = (ringbuf_bytes b', outs)"
    using ring_run_ok [OF b0(2) assms(3)] b0 by auto
  with b0 ringbuf_len_le [of b'] show ?thesis by auto
qed

theorem ringbuf_refines_stream_witness:
  "\<exists>b0 b' outs. em_ringbuf_init \<lparr>rb_buffer = [0, 0, 0], rb_size = 3, rb_read = 1, rb_write = 2,
       rb_is_full = True\<rparr> = Inr b0 \<and>
     ring_run b0 [RWrite [1, 2], RWrite [3, 4], RRead 5, RClear 1, RLen] = Inr (b', outs) \<and>
     stream_run 3 [] [RWrite [1, 2], RWrite [3, 4], RRead 5, RClear 1, RLen] =
       (ringbuf_bytes b', outs) \<and> em_ringbuf_len b' \<le> 3"
  using ringbuf_refines_stream [of "\<lparr>rb_buffer = [0, 0, 0], rb_size = 3, rb_read = 1, rb_write = 2,
       rb_is_full = True\<rparr>" "[RWrite [1, 2], RWrite [3, 4], RRead 5, RClear 1, RLen]"]
  by simp

end
