(* ===== verification/EM_Dataset.thy ===== *)
theory EM_Dataset
  imports EM_Prelude
begin

section \<open>Data sets of samples (em_dataset/dataset.c)\<close>

text \<open>
  A data set is an array of unsigned items of 1, 2, 4 or 8 bytes in a buffer of the caller, with the
  mean of the items without their extremes. The buffer is the object the caller passed; an item that
  would lie outside it is a fault. The accumulators are 64-bit words, as in the code.
\<close>

record dataset_t =
  item_size :: nat
  items_cap :: nat
  items_now :: nat
  ds_buffer :: bytes

definition em_dataset_init ::
  "dataset_t \<Rightarrow> bytes \<Rightarrow> nat \<Rightarrow> nat \<Rightarrow> (dataset_t \<times> int) outcome" where
  "em_dataset_init ds buf isz cap =
     c_assert (isz > 0) (c_assert (cap > 0)
       (if isz \<noteq> 1 \<and> isz \<noteq> 2 \<and> isz \<noteq> 4 \<and> isz \<noteq> 8 then Inr (ds, - 1)
        else if length buf < isz * cap then Inl OutOfBounds
        else Inr (\<lparr>item_size = isz, items_cap = cap, items_now = 0,
                   ds_buffer = overwrite buf 0 (replicate (isz * cap) 0)\<rparr>, 0)))"

definition em_dataset_add :: "dataset_t \<Rightarrow> bytes \<Rightarrow> (dataset_t \<times> int) outcome" where
  "em_dataset_add ds item =
     (if items_now ds \<ge> items_cap ds then Inr (ds, - 1)
      else
        (let write_offset = items_now ds * item_size ds in
         if length item < item_size ds \<or> length (ds_buffer ds) < write_offset + item_size ds
         then Inl OutOfBounds
         else Inr (ds\<lparr>ds_buffer := overwrite (ds_buffer ds) write_offset (take (item_size ds) item),
                      items_now := items_now ds + 1\<rparr>, 0)))"

text \<open>The \<open>switch\<close> on the item size: \<open>None\<close> is its \<open>default\<close> branch.\<close>

definition dataset_item :: "dataset_t \<Rightarrow> nat \<Rightarrow> u64 option outcome" where
  "dataset_item ds i =
     (if item_size ds \<in> {1, 2, 4, 8}
      then (if length (ds_buffer ds) < i * item_size ds + item_size ds then Inl OutOfBounds
            else Inr (Some (word_of_nat (le_nat (slice (i * item_size ds) (item_size ds) (ds_buffer ds))))))
      else Inr None)"

record avg_acc =
  min_item :: u64
  max_item :: u64
  avg_sum :: u64

definition avg_step :: "u64 \<Rightarrow> avg_acc \<Rightarrow> avg_acc" where
  "avg_step val acc =
     \<lparr>min_item = (if val < min_item acc then val else min_item acc),
      max_item = (if val > max_item acc then val else max_item acc),
      avg_sum = avg_sum acc + val\<rparr>"

fun avg_loop :: "dataset_t \<Rightarrow> nat list \<Rightarrow> avg_acc \<Rightarrow> avg_acc option outcome" where
  "avg_loop ds [] acc = Inr (Some acc)"
| "avg_loop ds (i # is) acc =
     obind (dataset_item ds i)
       (\<lambda>v. case v of None \<Rightarrow> Inr None | Some val \<Rightarrow> avg_loop ds is (avg_step val acc))"

definition em_dataset_avg_without_extreme :: "dataset_t option \<Rightarrow> u64 outcome" where
  "em_dataset_avg_without_extreme dso =
     (case dso of
        None \<Rightarrow> Inr (- 1)
      | Some ds \<Rightarrow>
          (if items_now ds < 3 then Inr (- 2)
           else obind (avg_loop ds [0..<items_now ds] \<lparr>min_item = - 1, max_item = 0, avg_sum = 0\<rparr>)
             (\<lambda>r. case r of
                  None \<Rightarrow> Inr (- 3)
                | Some acc \<Rightarrow>
                    Inr ((avg_sum acc - min_item acc - max_item acc) div word_of_nat (items_now ds - 2)))))"

fun sum_loop :: "dataset_t \<Rightarrow> nat list \<Rightarrow> u64 \<Rightarrow> u64 outcome" where
  "sum_loop ds [] s = Inr s"
| "sum_loop ds (i # is) s =
     obind (dataset_item ds i)
       (\<lambda>v. case v of None \<Rightarrow> Inr 0 | Some val \<Rightarrow> sum_loop ds is (s + val))"

definition em_dataset_sum :: "dataset_t \<Rightarrow> u64 outcome" where
  "em_dataset_sum ds = sum_loop ds [0..<items_now ds] 0"

definition em_dataset_items_cnt :: "dataset_t \<Rightarrow> nat" where
  "em_dataset_items_cnt ds = items_now ds"

definition em_dataset_clear :: "dataset_t \<Rightarrow> dataset_t" where
  "em_dataset_clear ds = ds\<lparr>items_now := 0\<rparr>"

subsection \<open>Invariant and contents\<close>

definition dataset_inv :: "dataset_t \<Rightarrow> bool" where
  "dataset_inv ds \<longleftrightarrow> item_size ds \<in> {1, 2, 4, 8} \<and> items_now ds \<le> items_cap ds \<and>
     item_size ds * items_cap ds \<le> length (ds_buffer ds)"

definition dataset_val :: "dataset_t \<Rightarrow> nat \<Rightarrow> nat" where
  "dataset_val ds i = le_nat (slice (i * item_size ds) (item_size ds) (ds_buffer ds))"

definition dataset_vals :: "dataset_t \<Rightarrow> nat list" where
  "dataset_vals ds = map (dataset_val ds) [0..<items_now ds]"

lemma dataset_vals_len: "length (dataset_vals ds) = items_now ds"
  by (simp add: dataset_vals_def)

lemma dataset_slot:
  fixes i :: nat
  assumes "dataset_inv ds" "i < items_cap ds"
  shows "i * item_size ds + item_size ds \<le> length (ds_buffer ds)"
proof -
  have "i * item_size ds + item_size ds = item_size ds * Suc i" by simp
  also have "\<dots> \<le> item_size ds * items_cap ds" using assms by (intro mult_le_mono) auto
  finally show ?thesis using assms by (simp add: dataset_inv_def)
qed

lemma dataset_item_eq:
  assumes "dataset_inv ds" "i < items_now ds"
  shows "dataset_item ds i = Inr (Some (word_of_nat (dataset_val ds i)))"
  using assms dataset_slot [of ds i] by (auto simp: dataset_item_def dataset_val_def dataset_inv_def)

lemma dataset_val_less:
  assumes "dataset_inv ds" "i < items_now ds"
  shows "dataset_val ds i < 2 ^ 64"
proof -
  have "dataset_val ds i < 256 ^ item_size ds"
    using le_nat_bound [of "slice (i * item_size ds) (item_size ds) (ds_buffer ds)"]
      dataset_slot [of ds i] assms by (simp add: dataset_val_def dataset_inv_def)
  also have "(256 :: nat) ^ item_size ds \<le> 256 ^ 8"
    using assms by (intro power_increasing) (auto simp: dataset_inv_def)
  finally show ?thesis by simp
qed

lemma dataset_vals_less:
  "dataset_inv ds \<Longrightarrow> v \<in> set (dataset_vals ds) \<Longrightarrow> v < 2 ^ 64"
  using dataset_val_less [of ds] by (auto simp: dataset_vals_def)

subsection \<open>Adding items\<close>

lemma em_dataset_add_ok:
  assumes inv: "dataset_inv ds" and room: "items_now ds < items_cap ds"
    and item: "length item = item_size ds"
  shows "\<exists>ds'. em_dataset_add ds item = Inr (ds', 0) \<and> dataset_inv ds' \<and>
    dataset_vals ds' = dataset_vals ds @ [le_nat item] \<and>
    item_size ds' = item_size ds \<and> items_cap ds' = items_cap ds"
proof -
  let ?off = "items_now ds * item_size ds"
  let ?ds' = "ds\<lparr>ds_buffer := overwrite (ds_buffer ds) ?off item, items_now := Suc (items_now ds)\<rparr>"
  have slot: "?off + item_size ds \<le> length (ds_buffer ds)"
    using dataset_slot [OF inv room] .
  have add: "em_dataset_add ds item = Inr (?ds', 0)"
    using room item slot by (simp add: em_dataset_add_def Let_def)
  have inv': "dataset_inv ?ds'"
    using inv room slot item by (simp add: dataset_inv_def)
  have old: "dataset_val ?ds' i = dataset_val ds i" if "i < items_now ds" for i
  proof -
    have "i * item_size ds + item_size ds = Suc i * item_size ds" by simp
    also have "\<dots> \<le> ?off" using that by (intro mult_le_mono1) simp
    finally show ?thesis using slot by (simp add: dataset_val_def slice_overwrite_before)
  qed
  have new: "dataset_val ?ds' (items_now ds) = le_nat item"
    using slot item by (simp add: dataset_val_def)
  have "dataset_vals ?ds' = dataset_vals ds @ [le_nat item]"
    using old new by (simp add: dataset_vals_def)
  with add inv' show ?thesis by (intro exI [of _ ?ds']) simp
qed

fun dataset_fill :: "dataset_t \<Rightarrow> bytes list \<Rightarrow> dataset_t outcome" where
  "dataset_fill ds [] = Inr ds"
| "dataset_fill ds (x # xs) = obind (em_dataset_add ds x) (\<lambda>(ds', r). dataset_fill ds' xs)"

lemma dataset_fill_ok:
  "dataset_inv ds \<Longrightarrow> items_now ds + length xs \<le> items_cap ds \<Longrightarrow>
   (\<forall>x\<in>set xs. length x = item_size ds) \<Longrightarrow>
   \<exists>ds'. dataset_fill ds xs = Inr ds' \<and> dataset_inv ds' \<and>
     dataset_vals ds' = dataset_vals ds @ map le_nat xs \<and> items_now ds' = items_now ds + length xs"
proof (induction xs arbitrary: ds)
  case (Cons x xs)
  then obtain ds1 where ds1: "em_dataset_add ds x = Inr (ds1, 0)" "dataset_inv ds1"
    "dataset_vals ds1 = dataset_vals ds @ [le_nat x]" "item_size ds1 = item_size ds"
    "items_cap ds1 = items_cap ds"
    using em_dataset_add_ok [of ds x] by auto
  then have now: "items_now ds1 = Suc (items_now ds)"
    by (metis dataset_vals_len length_append_singleton)
  from Cons.IH [of ds1] Cons.prems ds1 now show ?case by auto
qed simp

lemma em_dataset_init_inv:
  assumes "isz \<in> {1, 2, 4, 8}" "0 < cap" "isz * cap \<le> length buf"
  shows "\<exists>ds'. em_dataset_init ds buf isz cap = Inr (ds', 0) \<and> dataset_inv ds' \<and>
    dataset_vals ds' = [] \<and> item_size ds' = isz \<and> items_cap ds' = cap \<and> items_now ds' = 0"
proof -
  have "0 < isz" "isz = 1 \<or> isz = 2 \<or> isz = 4 \<or> isz = 8" using assms(1) by auto
  then show ?thesis
    using assms by (simp add: em_dataset_init_def dataset_inv_def dataset_vals_def not_less)
qed

lemma em_dataset_full: "items_cap ds \<le> items_now ds \<Longrightarrow> em_dataset_add ds item = Inr (ds, - 1)"
  by (simp add: em_dataset_add_def)

subsection \<open>Sum and mean\<close>

lemma sum_loop_eq:
  assumes "dataset_inv ds"
  shows "(\<forall>i\<in>set is. i < items_now ds) \<Longrightarrow>
    sum_loop ds is s = Inr (s + word_of_nat (sum_list (map (dataset_val ds) is)))"
  by (induction "is" arbitrary: s) (auto simp: dataset_item_eq [OF assms] add.assoc)

lemma em_dataset_sum_eq:
  "dataset_inv ds \<Longrightarrow> em_dataset_sum ds = Inr (word_of_nat (sum_list (dataset_vals ds)))"
  by (simp add: em_dataset_sum_def sum_loop_eq dataset_vals_def)

lemma avg_loop_eq:
  assumes "dataset_inv ds"
  shows "(\<forall>i\<in>set is. i < items_now ds) \<Longrightarrow>
    avg_loop ds is acc = Inr (Some (fold avg_step (map (word_of_nat \<circ> dataset_val ds) is) acc))"
  by (induction "is" arbitrary: acc) (auto simp: dataset_item_eq [OF assms])

text \<open>The three accumulators as natural numbers.\<close>

lemma avg_fold:
  "(\<forall>v\<in>set vs. v < 2 ^ 64) \<Longrightarrow>
   fold avg_step (map word_of_nat vs) \<lparr>min_item = mn, max_item = mx, avg_sum = s\<rparr> =
     \<lparr>min_item = word_of_nat (fold min vs (unat mn)), max_item = word_of_nat (fold max vs (unat mx)),
      avg_sum = s + word_of_nat (sum_list vs)\<rparr>"
proof (induction vs arbitrary: mn mx s)
  case (Cons v vs)
  have v: "unat (word_of_nat v :: u64) = v"
    using Cons.prems by (intro unat_word_of_nat) simp
  moreover have "unat (if word_of_nat v < mn then word_of_nat v else mn) = min v (unat mn)"
    "unat (if word_of_nat v > mx then word_of_nat v else mx) = max v (unat mx)"
    by (auto simp: word_less_nat_alt v min_def max_def)
  moreover have "avg_step (word_of_nat v) \<lparr>min_item = mn, max_item = mx, avg_sum = s\<rparr> =
      \<lparr>min_item = (if word_of_nat v < mn then word_of_nat v else mn),
       max_item = (if word_of_nat v > mx then word_of_nat v else mx), avg_sum = s + word_of_nat v\<rparr>"
    by (simp add: avg_step_def)
  ultimately show ?case
    using Cons by (simp add: add.assoc split del: if_split)
qed simp

lemma fold_min_Min: "fold min vs (m::nat) = Min (insert m (set vs))"
  using Min.set_eq_fold [of m vs] by simp

lemma fold_max_Max: "fold max vs (m::nat) = Max (insert m (set vs))"
  using Max.set_eq_fold [of m vs] by simp

lemma mean_arith:
  fixes vs :: "nat list"
  assumes "3 \<le> length vs"
  shows "Min (set vs) + Max (set vs) \<le> sum_list vs"
proof -
  have ne: "vs \<noteq> []" using assms by auto
  let ?a = "Min (set vs)" and ?b = "Max (set vs)"
  have "?b \<in> set vs" using ne by simp
  then have s: "sum_list vs = ?b + sum_list (remove1 ?b vs)"
    by (rule sum_list_map_remove1 [of _ _ id, simplified])
  have "length vs - 1 \<le> length (remove1 ?b vs)" by (simp add: length_remove1)
  then have "remove1 ?b vs \<noteq> []" using assms by auto
  then obtain c cs where r: "remove1 ?b vs = c # cs" by (cases "remove1 ?b vs") auto
  then have "c \<in> set vs" using set_remove1_subset [of ?b vs] by auto
  then have "?a \<le> c" by simp
  then show ?thesis using s r by simp
qed

lemma em_dataset_avg_eq:
  assumes inv: "dataset_inv ds" and n: "3 \<le> items_now ds" "items_now ds < 2 ^ 32"
    and small: "sum_list (dataset_vals ds) < 2 ^ 64"
  shows "em_dataset_avg_without_extreme (Some ds) =
    Inr (word_of_nat ((sum_list (dataset_vals ds) - Min (set (dataset_vals ds))
      - Max (set (dataset_vals ds))) div (items_now ds - 2)))"
proof -
  let ?vs = "dataset_vals ds"
  let ?mn = "Min (set ?vs)" and ?mx = "Max (set ?vs)" and ?s = "sum_list ?vs"
  have len: "length ?vs = items_now ds" by (rule dataset_vals_len)
  then have ne: "set ?vs \<noteq> {}" using n by auto
  have le: "\<forall>v\<in>set ?vs. v < 2 ^ 64" using dataset_vals_less [OF inv] by blast
  have mn: "fold min ?vs (unat (- 1 :: u64)) = ?mn"
  proof -
    have "?mn < 2 ^ 64" using le ne by (meson Min_in List.finite_set)
    then have "min (unat (- 1 :: u64)) ?mn = ?mn"
      by (simp add: unat_minus_1)
    then show ?thesis using ne by (simp add: fold_min_Min Min_insert)
  qed
  have mx: "fold max ?vs (unat (0 :: u64)) = ?mx"
    using ne by (simp add: fold_max_Max Max_insert)
  have "avg_loop ds [0..<items_now ds] \<lparr>min_item = - 1, max_item = 0, avg_sum = 0\<rparr> =
      Inr (Some (fold avg_step (map word_of_nat ?vs) \<lparr>min_item = - 1, max_item = 0, avg_sum = 0\<rparr>))"
    by (simp add: avg_loop_eq [OF inv] dataset_vals_def comp_def)
  also have "\<dots> = Inr (Some \<lparr>min_item = word_of_nat ?mn, max_item = word_of_nat ?mx,
      avg_sum = word_of_nat ?s\<rparr>)"
    using avg_fold [OF le, of "- 1" 0 0] mn mx by simp
  finally have loop: "avg_loop ds [0..<items_now ds] \<lparr>min_item = - 1, max_item = 0, avg_sum = 0\<rparr> =
      Inr (Some \<lparr>min_item = word_of_nat ?mn, max_item = word_of_nat ?mx, avg_sum = word_of_nat ?s\<rparr>)" .
  have mean: "?mn + ?mx \<le> ?s" using mean_arith [of ?vs] n len by simp
  have diff: "(word_of_nat ?s - word_of_nat ?mn - word_of_nat ?mx :: u64) = word_of_nat (?s - ?mn - ?mx)"
    using mean by simp
  have quot: "(word_of_nat (?s - ?mn - ?mx) div word_of_nat (items_now ds - 2) :: u64) =
      word_of_nat ((?s - ?mn - ?mx) div (items_now ds - 2))"
    using small n by (intro word_of_nat_div) simp_all
  show ?thesis
    using n loop diff quot by (simp add: em_dataset_avg_without_extreme_def)
qed

text \<open>Filling an initialised data set with \<open>n\<close> items of its size and taking the mean without the
  extremes gives the sum of the items less one minimum and one maximum, divided by \<open>n - 2\<close>, and no
  access leaves the caller's buffer; the sum is the sum of the items. The bound on the sum always
  holds for items of up to four bytes.\<close>

lemma dataset_mean_correct:
  assumes "isz \<in> {1, 2, 4, 8}" "isz * cap \<le> length buf" "cap < 2 ^ 32"
    and "\<forall>x\<in>set xs. length x = isz" "3 \<le> length xs" "length xs \<le> cap"
    and "sum_list (map le_nat xs) < 2 ^ 64"
  shows "\<exists>ds0 ds. em_dataset_init ds1 buf isz cap = Inr (ds0, 0) \<and> dataset_fill ds0 xs = Inr ds \<and>
    em_dataset_sum ds = Inr (word_of_nat (sum_list (map le_nat xs))) \<and>
    em_dataset_avg_without_extreme (Some ds) =
      Inr (word_of_nat ((sum_list (map le_nat xs) - Min (set (map le_nat xs))
        - Max (set (map le_nat xs))) div (length xs - 2)))"
proof -
  have "0 < cap" using assms by auto
  then obtain ds0 where ds0: "em_dataset_init ds1 buf isz cap = Inr (ds0, 0)" "dataset_inv ds0"
    "dataset_vals ds0 = []" "item_size ds0 = isz" "items_cap ds0 = cap" "items_now ds0 = 0"
    using em_dataset_init_inv [OF assms(1) _ assms(2), of ds1] by blast
  obtain ds where ds: "dataset_fill ds0 xs = Inr ds" "dataset_inv ds"
    "dataset_vals ds = map le_nat xs" "items_now ds = length xs"
    using dataset_fill_ok [OF ds0(2), of xs] ds0 assms by auto
  have "length xs < 2 ^ 32" using assms by linarith
  then show ?thesis
    using ds0 ds em_dataset_avg_eq [OF ds(2)] em_dataset_sum_eq [OF ds(2)] assms by simp
qed

end
