(* ===== verification/EM_Utils.thy ===== *)
theory EM_Utils
  imports EM_Prelude
begin

section \<open>Utilities (em_utils)\<close>

text \<open>
  Scaling by powers of ten (math.c), the leap year test and the time difference (time.c), and the
  device identity (device.c). Signed 32-bit arithmetic is on \<open>int\<close> with the overflow, which C
  leaves undefined, as a fault. The base MAC address and the contents of the eFuse block are
  parameters.
\<close>

definition in_i32 :: "int \<Rightarrow> bool" where
  "in_i32 x \<longleftrightarrow> - (2 ^ 31) \<le> x \<and> x < 2 ^ 31"

definition i32_mult :: "int \<Rightarrow> int \<Rightarrow> int outcome" where
  "i32_mult x y = (if in_i32 (x * y) then Inr (x * y) else Inl Undefined)"

definition i32_neg :: "int \<Rightarrow> int outcome" where
  "i32_neg x = (if in_i32 (- x) then Inr (- x) else Inl Undefined)"

text \<open>\<open>scale_loop n s\<close>: \<open>n\<close> rounds of \<open>scaler *= 10\<close>. The code's counter is an \<open>int8_t\<close>, which
  cannot reach the bound 128 of the factor \<open>- 128\<close>; the multiplication overflows at round ten.\<close>

fun scale_loop :: "nat \<Rightarrow> int \<Rightarrow> int outcome" where
  "scale_loop 0 scaler = Inr scaler"
| "scale_loop (Suc n) scaler = obind (i32_mult scaler 10) (scale_loop n)"

definition em_utils_pow10 :: "int \<Rightarrow> int \<Rightarrow> int outcome" where
  "em_utils_pow10 value factor =
     (if factor = 0 then Inr value
      else
        (let abs_factor = nat (if factor < 0 then - factor else factor) in
         obind (scale_loop abs_factor 1) (\<lambda>scaler.
         obind (if factor < 0 then i32_neg scaler else Inr scaler) (\<lambda>scaler.
         i32_mult value scaler))))"

fun decode_loop :: "nat \<Rightarrow> int \<Rightarrow> int \<times> int \<Rightarrow> (int \<times> int) outcome" where
  "decode_loop 0 scaler md = Inr md"
| "decode_loop (Suc n) scaler (m, d) =
     (if scaler > 0 then obind (i32_mult m 10) (\<lambda>m'. decode_loop n scaler (m', d))
      else obind (i32_mult d 10) (\<lambda>d'. decode_loop n scaler (m, d')))"

definition em_utils_decode_scaler :: "int \<Rightarrow> (int \<times> int) outcome" where
  "em_utils_decode_scaler scaler =
     (if scaler = 0 then Inr (1, 1) else decode_loop (nat \<bar>scaler\<bar>) scaler (1, 1))"

definition em_utils_is_leap_year :: "int \<Rightarrow> bool" where
  "em_utils_is_leap_year year =
     (if year mod 400 = 0 then True
      else if year mod 100 = 0 then True
      else if year mod 4 = 0 then True
      else False)"

definition em_utils_time_diff_ms :: "int \<Rightarrow> int \<Rightarrow> u32 outcome" where
  "em_utils_time_diff_ms to from =
     (let diff_sec = to - from in
      c_assert (diff_sec < (2 ^ 32 - 1) div 1000 \<and> diff_sec \<ge> 0)
        (Inr (word_of_int (diff_sec * 1000))))"

definition em_utils_dev_type :: u8 where "em_utils_dev_type = 2"

definition em_utils_hw_ver :: u8 where "em_utils_hw_ver = 2"

text \<open>\<open>mac\<close> and \<open>efuse\<close> are the results of the two ESP-IDF reads, \<open>None\<close> for an error code.\<close>

definition em_utils_dev_id :: "bytes option \<Rightarrow> bytes option \<Rightarrow> u64 outcome" where
  "em_utils_dev_id mac efuse =
     (case mac of None \<Rightarrow> Inl Abort
      | Some m \<Rightarrow> (case efuse of None \<Rightarrow> Inl Abort
        | Some buffer \<Rightarrow>
            (let devIDSum = fold (\<lambda>b s. s + ucast b) buffer (0 :: u16) in
             Inr (push_bit 48 (ucast devIDSum) OR push_bit 40 (ucast (m ! 0)) OR
                  push_bit 32 (ucast (m ! 1)) OR push_bit 24 (ucast (m ! 2)) OR
                  push_bit 16 (ucast (m ! 3)) OR push_bit 8 (ucast (m ! 4)) OR ucast (m ! 5)))))"

subsection \<open>Powers of ten\<close>

lemma scale_loop_ok: "in_i32 (s * 10 ^ n) \<Longrightarrow> scale_loop n s = Inr (s * 10 ^ n)"
proof (induction n arbitrary: s)
  case (Suc n)
  have "in_i32 (s * 10)"
  proof -
    have "\<bar>s * 10\<bar> \<le> \<bar>s * 10\<bar> * 10 ^ n"
      by (rule mult_le_cancel_left1 [THEN iffD2]) simp
    also have "\<dots> = \<bar>s * 10 ^ Suc n\<bar>" by (simp add: abs_mult)
    finally have "\<bar>s * 10\<bar> \<le> \<bar>s * 10 ^ Suc n\<bar>" .
    moreover have "s * 10 \<noteq> 2 ^ 31"
    proof
      assume "s * 10 = 2 ^ 31"
      then have "(2 ^ 31 :: int) mod 10 = 0" by (metis mod_mult_self2_is_0)
      then show False by simp
    qed
    ultimately show ?thesis using Suc.prems by (auto simp: in_i32_def)
  qed
  then show ?case using Suc by (simp add: i32_mult_def mult.assoc)
qed simp

lemma pow10_small: "n \<le> 9 \<Longrightarrow> in_i32 (10 ^ n)" "n \<le> 9 \<Longrightarrow> in_i32 (- (10 ^ n))"
proof -
  assume "n \<le> 9"
  then have "(10 :: int) ^ n \<le> 1000000000"
    using power_increasing [of n 9 "10 :: int"] by simp
  moreover have "(0 :: int) \<le> 10 ^ n" by simp
  ultimately have "- 2147483648 \<le> (10 :: int) ^ n" "(10 :: int) ^ n < 2147483648"
    "- (10 ^ n) < (2147483648 :: int)" by linarith+
  then show "in_i32 (10 ^ n)" "in_i32 (- (10 ^ n))" by (simp_all add: in_i32_def)
qed

lemma em_utils_pow10_nonneg:
  assumes "n \<le> 9" "in_i32 (v * 10 ^ n)"
  shows "em_utils_pow10 v (int n) = Inr (v * 10 ^ n)"
  using assms scale_loop_ok [of 1 n] pow10_small [of n]
  by (simp add: em_utils_pow10_def i32_mult_def)

lemma em_utils_pow10_neg:
  assumes "0 < n" "n \<le> 9" "in_i32 (- (v * 10 ^ n))"
  shows "em_utils_pow10 v (- int n) = Inr (- (v * 10 ^ n))"
  using assms scale_loop_ok [of 1 n] pow10_small [of n]
  by (simp add: em_utils_pow10_def i32_mult_def i32_neg_def)

lemma decode_loop_scale:
  "decode_loop n scaler (m, d) =
     (if 0 < scaler then obind (scale_loop n m) (\<lambda>m'. Inr (m', d))
      else obind (scale_loop n d) (\<lambda>d'. Inr (m, d')))"
  by (induction n arbitrary: m d) (auto simp: obind_assoc)

lemma scale_loop_overflow: "10 \<le> n \<Longrightarrow> scale_loop n 1 = Inl Undefined"
proof -
  assume "10 \<le> n"
  then obtain m where "n = 10 + m" using le_Suc_ex by blast
  then show ?thesis by (simp add: eval_nat_numeral i32_mult_def in_i32_def)
qed

lemma em_utils_is_leap_year_iff: "em_utils_is_leap_year year \<longleftrightarrow> year mod 4 = 0"
proof -
  have "year mod 4 = 0" if "year mod 400 = 0"
    using that by presburger
  moreover have "year mod 4 = 0" if "year mod 100 = 0"
    using that by presburger
  ultimately show ?thesis by (auto simp: em_utils_is_leap_year_def)
qed

text \<open>Decoding a decimal scaler gives a multiplier and a divisor whose ratio is ten to the scaler:
  one of them is the power of ten, the other is one, for every scaler from -9 to 9; outside that
  range the 32-bit multiplication overflows.\<close>

lemma decode_scaler_correct:
  "em_utils_decode_scaler s =
     (if \<bar>s\<bar> \<le> 9 then Inr (if 0 < s then 10 ^ nat s else 1, if s < 0 then 10 ^ nat (- s) else 1)
      else Inl Undefined)"
proof (cases "\<bar>s\<bar> \<le> 9")
  case True
  define n where "n = nat \<bar>s\<bar>"
  have "n \<le> 9" using True by (simp add: n_def)
  then have "scale_loop n 1 = Inr (10 ^ n)" using scale_loop_ok [of 1 n] pow10_small by simp
  then show ?thesis
    using True by (auto simp: em_utils_decode_scaler_def decode_loop_scale n_def)
next
  case False
  define n where "n = nat \<bar>s\<bar>"
  have "10 \<le> n" using False by (simp add: n_def)
  then have "scale_loop n 1 = Inl Undefined" by (rule scale_loop_overflow)
  then show ?thesis
    using False by (auto simp: em_utils_decode_scaler_def decode_loop_scale n_def abs_if split: if_splits)
qed

end
