(* ===== verification/EM_Slip.thy ===== *)
theory EM_Slip
  imports EM_Buffer
begin

section \<open>SLIP framing (em_slip/slip.c)\<close>

text \<open>
  The byte-stream framing of the TCP link. \<open>slip_codec_t\<close> is the static decoder: its two buffers and
  the two flags that survive from call to call. \<open>decode_byte\<close> is one round of the loop of
  \<open>decode\<close>; \<open>decode_loop n\<close> runs it on the \<open>n\<close> bytes that are left. The decoder's buffers have the
  configured sizes (2048 bytes decoded, 1536 encoded).
\<close>

abbreviation SLIP_BEGIN :: u8 where "SLIP_BEGIN \<equiv> 0xCF"
abbreviation SLIP_END :: u8 where "SLIP_END \<equiv> 0xC0"
abbreviation SLIP_ESC :: u8 where "SLIP_ESC \<equiv> 0xDB"
abbreviation SLIP_ESC_BEGIN :: u8 where "SLIP_ESC_BEGIN \<equiv> 0xDE"
abbreviation SLIP_ESC_END :: u8 where "SLIP_ESC_END \<equiv> 0xDC"
abbreviation SLIP_ESC_ESC :: u8 where "SLIP_ESC_ESC \<equiv> 0xDD"

datatype slip_err =
    ERR_NONE
  | ERR_INCOMPLETE_PACKET
  | ERR_INCOMPLETE_ESC_SEQUENCE
  | ERR_INVALID_ESC_SEQUENCE
  | ERR_PACKET_START_NOT_FOUND
  | ERR_PACKET_CUT
  | ERR_INVALID_ARG
  | ERR_NO_MEMORY
  | ERR_UNKNOWN

record slip_codec_t =
  decoded :: buffer_t
  encoded :: buffer_t
  insideOfPacket :: bool
  escActive :: bool

abbreviation ENCODED_DATA_BUF_SIZE :: nat where "ENCODED_DATA_BUF_SIZE \<equiv> 1536"
abbreviation DECODED_DATA_BUF_SIZE :: nat where "DECODED_DATA_BUF_SIZE \<equiv> 2048"

subsection \<open>Decoder\<close>

definition slip_push :: "slip_codec_t \<Rightarrow> u8 \<Rightarrow> (slip_codec_t \<times> slip_err option) outcome" where
  "slip_push s b = obind (buffer_push (decoded s) b) (\<lambda>d. Inr (s\<lparr>decoded := d\<rparr>, None))"

text \<open>The second component is the error the loop returns with, \<open>None\<close> when it goes on.\<close>

definition decode_byte :: "slip_codec_t \<Rightarrow> u8 \<Rightarrow> (slip_codec_t \<times> slip_err option) outcome" where
  "decode_byte s b =
     (if \<not> insideOfPacket s \<and> b \<noteq> SLIP_BEGIN then Inr (s, None)
      else if b = SLIP_BEGIN then
        (if \<not> insideOfPacket s then Inr (s\<lparr>insideOfPacket := True\<rparr>, None)
         else Inr (s\<lparr>insideOfPacket := False\<rparr>, Some ERR_PACKET_CUT))
      else if b = SLIP_ESC then Inr (if insideOfPacket s then s\<lparr>escActive := True\<rparr> else s, None)
      else if b = SLIP_ESC_BEGIN then
        (if escActive s then slip_push (s\<lparr>escActive := False\<rparr>) SLIP_BEGIN else slip_push s b)
      else if b = SLIP_ESC_END then
        (if escActive s then slip_push (s\<lparr>escActive := False\<rparr>) SLIP_END else slip_push s b)
      else if b = SLIP_ESC_ESC then
        (if escActive s then slip_push (s\<lparr>escActive := False\<rparr>) SLIP_ESC else slip_push s b)
      else if b = SLIP_END then
        (if \<not> insideOfPacket s then Inr (s, None)
         else if escActive s
         then Inr (s\<lparr>insideOfPacket := False, escActive := False\<rparr>, Some ERR_INCOMPLETE_ESC_SEQUENCE)
         else Inr (s\<lparr>insideOfPacket := False\<rparr>, Some ERR_NONE))
      else if escActive s
      then Inr (s\<lparr>escActive := False, insideOfPacket := False\<rparr>, Some ERR_INVALID_ESC_SEQUENCE)
      else slip_push s b)"

definition encoded_byte :: "slip_codec_t \<Rightarrow> nat \<Rightarrow> u8 outcome" where
  "encoded_byte s i =
     (case b_data (encoded s) of
        None \<Rightarrow> Inl OutOfBounds
      | Some d \<Rightarrow> (if i < length d then Inr (d ! i) else Inl OutOfBounds))"

text \<open>The result: the error, the final \<open>*processedNum\<close> and the codec. A put-back of the BEGIN of
  the next packet is not there: \<open>--processedNum\<close> moves the pointer, not the number.\<close>

fun decode_loop :: "nat \<Rightarrow> nat \<Rightarrow> slip_codec_t \<Rightarrow> (slip_err \<times> nat \<times> slip_codec_t) outcome" where
  "decode_loop 0 processedNum s =
     Inr (if insideOfPacket s then ERR_INCOMPLETE_PACKET else ERR_PACKET_START_NOT_FOUND,
          processedNum, s)"
| "decode_loop (Suc n) processedNum s =
     (if processedNum \<ge> unat (b_cap (decoded s)) then Inr (ERR_NO_MEMORY, processedNum, s)
      else obind (encoded_byte s processedNum) (\<lambda>b.
           obind (decode_byte s b) (\<lambda>(s', r).
             case r of
               Some e \<Rightarrow> Inr (e, Suc processedNum, s')
             | None \<Rightarrow> decode_loop n (Suc processedNum) s')))"

definition decode :: "slip_codec_t \<Rightarrow> (slip_err \<times> nat \<times> slip_codec_t) outcome" where
  "decode s =
     (if b_len (encoded s) = 0 then Inr (ERR_PACKET_START_NOT_FOUND, 0, s)
      else decode_loop (unat (b_len (encoded s))) 0 s)"

definition slip_clear :: "slip_codec_t \<Rightarrow> slip_codec_t" where
  "slip_clear s = s\<lparr>decoded := (decoded s)\<lparr>b_len := 0\<rparr>, encoded := (encoded s)\<lparr>b_len := 0\<rparr>\<rparr>"

definition slip_add_data :: "slip_codec_t \<Rightarrow> bytes \<Rightarrow> nat \<Rightarrow> (slip_codec_t \<times> int) outcome" where
  "slip_add_data s newEncodedData newEncodedDataLen =
     (if newEncodedDataLen = 0 then Inr (s, ESP_ERR_INVALID_ARG)
      else
        (let neededBufLen = unat (b_len (encoded s)) + newEncodedDataLen in
         if unat (b_cap (encoded s)) < neededBufLen then Inr (s, ESP_ERR_NO_MEM)
         else
           (case b_data (encoded s) of
              None \<Rightarrow> Inl OutOfBounds
            | Some d \<Rightarrow>
                if length newEncodedData < newEncodedDataLen \<or> length d < neededBufLen
                then Inl OutOfBounds
                else Inr (s\<lparr>encoded := (encoded s)
                       \<lparr>b_data := Some (overwrite d (unat (b_len (encoded s)))
                                   (take newEncodedDataLen newEncodedData)),
                        b_len := b_len (encoded s) + word_of_nat newEncodedDataLen\<rparr>\<rparr>, ESP_OK))))"

text \<open>\<open>slip_decode_loop x\<close>: the rounds that are left of the 16.\<close>

fun slip_decode_loop :: "nat \<Rightarrow> slip_codec_t \<Rightarrow> (slip_err \<times> slip_codec_t) outcome" where
  "slip_decode_loop 0 s = Inr (ERR_UNKNOWN, s)"
| "slip_decode_loop (Suc x) s =
     obind (decode s) (\<lambda>(err, processedNum, s1).
     obind (buffer_pop_front (encoded s1) (word_of_nat processedNum)) (\<lambda>enc.
       let s2 = s1\<lparr>encoded := enc\<rparr> in
       case err of
         ERR_PACKET_CUT \<Rightarrow> slip_decode_loop x s2
       | ERR_INCOMPLETE_PACKET \<Rightarrow> Inr (err, s2)
       | ERR_NONE \<Rightarrow> Inr (err, s2)
       | ERR_INCOMPLETE_ESC_SEQUENCE \<Rightarrow> Inr (err, s2\<lparr>decoded := buffer_clean (decoded s2)\<rparr>)
       | ERR_INVALID_ESC_SEQUENCE \<Rightarrow> Inr (err, s2\<lparr>decoded := buffer_clean (decoded s2)\<rparr>)
       | ERR_PACKET_START_NOT_FOUND \<Rightarrow> Inr (err, s2\<lparr>decoded := buffer_clean (decoded s2)\<rparr>)
       | ERR_NO_MEMORY \<Rightarrow> Inr (err, s2\<lparr>decoded := buffer_clean (decoded s2)\<rparr>)
       | _ \<Rightarrow> Inr (ERR_UNKNOWN, s2\<lparr>decoded := buffer_clean (decoded s2)\<rparr>)))"

definition slip_decode :: "slip_codec_t \<Rightarrow> (slip_err \<times> slip_codec_t) outcome" where
  "slip_decode s = slip_decode_loop 16 s"

text \<open>The loop of the static decoder. \<open>len_out\<close> is \<open>None\<close> as long as the caller's variables are
  untouched; the bytes handed out are the first \<open>len_out\<close> of the static decoded buffer.\<close>

fun decoder_loop ::
  "nat \<Rightarrow> slip_codec_t \<Rightarrow> nat option \<Rightarrow> (slip_err \<times> nat option \<times> slip_codec_t) outcome" where
  "decoder_loop 0 s len_out = Inl OutOfFuel"
| "decoder_loop (Suc n) s len_out =
     obind (slip_decode s) (\<lambda>(ret_decode, s').
       if ret_decode = ERR_NONE then decoder_loop n s' (Some (unat (b_len (decoded s'))))
       else Inr (ret_decode, len_out, s'))"

definition slip_memset :: "buffer_t \<Rightarrow> buffer_t" where
  "slip_memset b = b\<lparr>b_data := map_option (\<lambda>d. replicate (length d) 0) (b_data b)\<rparr>"

definition slip_static_data_decoder ::
  "slip_codec_t \<Rightarrow> bytes \<Rightarrow> nat \<Rightarrow> (int \<times> nat option \<times> slip_codec_t) outcome" where
  "slip_static_data_decoder decoder data_in len_in =
     c_assert (len_in \<le> DECODED_DATA_BUF_SIZE)
      (obind (buffer_pop_front (decoded decoder) (b_len (decoded decoder))) (\<lambda>dec.
       let s0 = decoder\<lparr>decoded := slip_memset dec, encoded := slip_memset (encoded decoder)\<rparr> in
       obind (slip_add_data s0 data_in len_in) (\<lambda>(s1, ret).
       if ret \<noteq> 0 then Inr (ret, None, s1)
       else obind (decoder_loop (Suc ENCODED_DATA_BUF_SIZE) s1 None) (\<lambda>(ret_decode, len_out, s2).
         Inr (if ret_decode = ERR_PACKET_START_NOT_FOUND then ESP_OK else ESP_FAIL,
              len_out, slip_clear s2)))))"

subsection \<open>Encoder\<close>

definition store_byte :: "bytes \<Rightarrow> nat \<Rightarrow> u8 \<Rightarrow> (bytes \<times> nat) outcome" where
  "store_byte mem n b = (if n < length mem then Inr (mem[n := b], Suc n) else Inl OutOfBounds)"

text \<open>\<open>slip_escaped b\<close>: the bytes the \<open>switch\<close> of \<open>slip_encode\<close> stores for \<open>b\<close>.\<close>

definition slip_escaped :: "u8 \<Rightarrow> bytes" where
  "slip_escaped b =
     (if b = SLIP_BEGIN then [SLIP_ESC, SLIP_ESC_BEGIN]
      else if b = SLIP_END then [SLIP_ESC, SLIP_ESC_END]
      else if b = SLIP_ESC then [SLIP_ESC, SLIP_ESC_ESC]
      else [b])"

fun store_bytes :: "bytes \<Rightarrow> nat \<Rightarrow> bytes \<Rightarrow> (bytes \<times> nat) outcome" where
  "store_bytes mem n [] = Inr (mem, n)"
| "store_bytes mem n (b # bs) = obind (store_byte mem n b) (\<lambda>(mem', n'). store_bytes mem' n' bs)"

fun slip_encode_loop :: "nat \<Rightarrow> bytes \<Rightarrow> nat \<Rightarrow> bytes \<Rightarrow> (int \<times> bytes \<times> nat) outcome" where
  "slip_encode_loop maxLen mem len [] = Inr (ESP_OK, mem, len)"
| "slip_encode_loop maxLen mem len (b # bs) =
     (if len + length (slip_escaped b) > maxLen then Inr (ESP_ERR_NO_MEM, mem, len)
      else obind (store_bytes mem len (slip_escaped b)) (\<lambda>(mem', len').
           slip_encode_loop maxLen mem' len' bs))"

definition slip_encode :: "bytes \<Rightarrow> nat \<Rightarrow> bytes option \<Rightarrow> nat \<Rightarrow> (int \<times> bytes \<times> nat) outcome" where
  "slip_encode encodedData encodedDataLen dat dataLen =
     (case dat of
        None \<Rightarrow> Inr (ESP_ERR_INVALID_ARG, encodedData, encodedDataLen)
      | Some d \<Rightarrow>
          if dataLen = 0 then Inr (ESP_ERR_INVALID_ARG, encodedData, encodedDataLen)
          else if length d < dataLen then Inl OutOfBounds
          else obind (store_byte encodedData 0 SLIP_BEGIN) (\<lambda>(mem, len).
               obind (slip_encode_loop encodedDataLen mem len (take dataLen d)) (\<lambda>(ret, mem, len).
               if ret \<noteq> ESP_OK then Inr (ret, mem, len)
               else if len + 1 > encodedDataLen then Inr (ESP_ERR_NO_MEM, mem, len)
               else obind (store_byte mem len SLIP_END) (\<lambda>(mem, len). Inr (ESP_OK, mem, len)))))"

text \<open>The result: the return value and, when it is \<open>ESP_OK\<close>, the static buffer and the length.\<close>

definition slip_static_data_encoder ::
  "bytes option \<Rightarrow> nat \<Rightarrow> (int \<times> (bytes \<times> nat) option) outcome" where
  "slip_static_data_encoder data_in len_in =
     c_assert (len_in \<le> ENCODED_DATA_BUF_SIZE)
      (obind (slip_encode (replicate ENCODED_DATA_BUF_SIZE 0) ENCODED_DATA_BUF_SIZE data_in len_in)
        (\<lambda>(ret, mem, len). if ret \<noteq> 0 then Inr (ret, None) else Inr (ESP_OK, Some (mem, len))))"

subsection \<open>The frame automaton\<close>

text \<open>
  What one byte does to the two flags, the byte it appends to the packet, and the error it ends the
  scan with. \<open>frame_scan\<close> runs it over the bytes that wait in the encoded buffer: the error, the
  number of bytes consumed, the bytes appended, the flags.
\<close>

type_synonym frame_flags = "bool \<times> bool"

definition frame_step :: "frame_flags \<Rightarrow> u8 \<Rightarrow> frame_flags \<times> bytes \<times> slip_err option" where
  "frame_step f b = (case f of (ins, esc) \<Rightarrow>
     if \<not> ins \<and> b \<noteq> SLIP_BEGIN then (f, [], None)
     else if b = SLIP_BEGIN then
       (if ins then ((False, esc), [], Some ERR_PACKET_CUT) else ((True, esc), [], None))
     else if b = SLIP_ESC then ((ins, True), [], None)
     else if b = SLIP_ESC_BEGIN then ((ins, False), [if esc then SLIP_BEGIN else b], None)
     else if b = SLIP_ESC_END then ((ins, False), [if esc then SLIP_END else b], None)
     else if b = SLIP_ESC_ESC then ((ins, False), [if esc then SLIP_ESC else b], None)
     else if b = SLIP_END then
       ((False, False), [], Some (if esc then ERR_INCOMPLETE_ESC_SEQUENCE else ERR_NONE))
     else if esc then ((False, False), [], Some ERR_INVALID_ESC_SEQUENCE)
     else (f, [b], None))"

fun frame_scan :: "frame_flags \<Rightarrow> bytes \<Rightarrow> slip_err \<times> nat \<times> bytes \<times> frame_flags" where
  "frame_scan f [] = (if fst f then ERR_INCOMPLETE_PACKET else ERR_PACKET_START_NOT_FOUND, 0, [], f)"
| "frame_scan f (b # bs) =
     (let (f', o1, r) = frame_step f b in
      case r of
        Some e \<Rightarrow> (e, 1, o1, f')
      | None \<Rightarrow> (let (e, n, o2, f'') = frame_scan f' bs in (e, Suc n, o1 @ o2, f'')))"

definition codec_flags :: "slip_codec_t \<Rightarrow> frame_flags" where
  "codec_flags s = (insideOfPacket s, escActive s)"

lemma frame_step_out_le: "frame_step f b = (f', out, r) \<Longrightarrow> length out \<le> 1"
  by (auto simp: frame_step_def split: if_splits prod.splits)

text \<open>\<open>slip_rel s s' f out\<close>: from \<open>s\<close> to \<open>s'\<close> the packet grew by \<open>out\<close>, the flags became \<open>f\<close>,
  and nothing else changed.\<close>

definition slip_rel :: "slip_codec_t \<Rightarrow> slip_codec_t \<Rightarrow> frame_flags \<Rightarrow> bytes \<Rightarrow> bool" where
  "slip_rel s s' f out \<longleftrightarrow> buffer_wf (decoded s') \<and> encoded s' = encoded s \<and>
     b_cap (decoded s') = b_cap (decoded s) \<and> codec_flags s' = f \<and>
     buffer_bytes (decoded s') = buffer_bytes (decoded s) @ out"

lemma slip_rel_trans:
  "slip_rel s s1 f1 o1 \<Longrightarrow> slip_rel s1 s2 f2 o2 \<Longrightarrow> slip_rel s s2 f2 (o1 @ o2)"
  by (simp add: slip_rel_def)

lemma slip_push_rel:
  assumes "buffer_wf (decoded s)" "length (buffer_bytes (decoded s)) < unat (b_cap (decoded s))"
  shows "\<exists>s'. slip_push s x = Inr (s', None) \<and> slip_rel s s' (codec_flags s) [x]"
proof -
  obtain d where "buffer_push (decoded s) x = Inr d" "buffer_wf d"
    "buffer_bytes d = buffer_bytes (decoded s) @ [x]" "unat (b_cap d) = unat (b_cap (decoded s))"
    using buf.push_law [OF assms, of x] by blast
  then show ?thesis
    by (simp add: slip_push_def slip_rel_def codec_flags_def word_unat_eq_iff)
qed

lemma decode_byte_frame:
  assumes wf: "buffer_wf (decoded s)" "length (buffer_bytes (decoded s)) < unat (b_cap (decoded s))"
    and step: "frame_step (codec_flags s) b = (f, out, r)"
  shows "\<exists>s'. decode_byte s b = Inr (s', r) \<and> slip_rel s s' f out"
proof -
  have same: "slip_rel s s' f []"
    if "decoded s' = decoded s" "encoded s' = encoded s" "codec_flags s' = f" for s' f
    using wf that by (simp add: slip_rel_def)
  have push: "\<exists>s'. slip_push (s\<lparr>escActive := e\<rparr>) x = Inr (s', None) \<and>
      slip_rel s s' (insideOfPacket s, e) [x]" for e x
    using slip_push_rel [of "s\<lparr>escActive := e\<rparr>" x] wf
    by (simp add: slip_rel_def codec_flags_def)
  show ?thesis
    using step push [of False] push [of "escActive s"]
    by (auto simp: frame_step_def codec_flags_def decode_byte_def intro!: same split: if_splits)
qed

lemma frame_scan_bounds:
  "frame_scan f bs = (e, m, out, f') \<Longrightarrow> m \<le> length bs \<and> length out \<le> m \<and>
     (e = ERR_NONE \<or> e = ERR_PACKET_CUT \<longrightarrow> 0 < m)"
proof (induction bs arbitrary: f e m out f')
  case (Cons b bs)
  obtain f1 o1 r where st: "frame_step f b = (f1, o1, r)" by (metis prod_cases3)
  obtain e2 m2 o2 f2 where sc: "frame_scan f1 bs = (e2, m2, o2, f2)" by (metis prod_cases4)
  from Cons.prems Cons.IH [OF sc] frame_step_out_le [OF st] show ?case
    by (auto simp: st sc split: option.splits)
qed (auto split: if_splits)

lemma frame_step_errors:
  "frame_step f b = (f', out, Some e) \<Longrightarrow>
     e \<in> {ERR_NONE, ERR_PACKET_CUT, ERR_INCOMPLETE_ESC_SEQUENCE, ERR_INVALID_ESC_SEQUENCE}"
  by (auto simp: frame_step_def split: if_splits prod.splits)

lemma decode_loop_frame:
  assumes "buffer_wf (decoded s)" "b_data (encoded s) = Some d" "p + n \<le> length d"
    "p + n \<le> unat (b_cap (decoded s))"
    "length (buffer_bytes (decoded s)) + n \<le> unat (b_cap (decoded s))"
    "frame_scan (codec_flags s) (slice p n d) = (e, m, out, f)"
  shows "\<exists>s'. decode_loop n p s = Inr (e, p + m, s') \<and> slip_rel s s' f out"
  using assms
proof (induction n arbitrary: s p m out)
  case 0
  then show ?case by (auto simp: slice_def slip_rel_def codec_flags_def)
next
  case (Suc n)
  have p: "p < length d" using Suc.prems by simp
  have sl: "slice p (Suc n) d = d ! p # slice (Suc p) n d"
    using p by (simp add: slice_def Cons_nth_drop_Suc [symmetric])
  obtain f1 o1 r where st: "frame_step (codec_flags s) (d ! p) = (f1, o1, r)" by (metis prod_cases3)
  obtain s1 where s1: "decode_byte s (d ! p) = Inr (s1, r)" "slip_rel s s1 f1 o1"
    using decode_byte_frame [OF Suc.prems(1) _ st] Suc.prems(5) by auto
  have run: "decode_loop (Suc n) p s =
      (case r of Some e \<Rightarrow> Inr (e, Suc p, s1) | None \<Rightarrow> decode_loop n (Suc p) s1)"
    using Suc.prems p s1 by (simp add: encoded_byte_def)
  show ?case
  proof (cases r)
    case (Some e1)
    then show ?thesis using Suc.prems(6) s1 run by (auto simp: sl st)
  next
    case None
    obtain e2 m2 o2 f2 where sc: "frame_scan f1 (slice (Suc p) n d) = (e2, m2, o2, f2)"
      by (metis prod_cases4)
    have eq: "e = e2" "m = Suc m2" "out = o1 @ o2" "f = f2"
      using Suc.prems(6) None by (auto simp: sl st sc)
    have "\<exists>s'. decode_loop n (Suc p) s1 = Inr (e, Suc p + m2, s') \<and> slip_rel s1 s' f o2"
    proof (rule Suc.IH)
      show "length (buffer_bytes (decoded s1)) + n \<le> unat (b_cap (decoded s1))"
        using s1(2) Suc.prems(5) frame_step_out_le [OF st] by (simp add: slip_rel_def)
      show "frame_scan (codec_flags s1) (slice (Suc p) n d) = (e, m2, o2, f)"
        using s1(2) sc eq by (simp add: slip_rel_def)
    qed (use Suc.prems s1(2) in \<open>auto simp: slip_rel_def\<close>)
    then obtain s' where s': "decode_loop n (Suc p) s1 = Inr (e, Suc p + m2, s')" "slip_rel s1 s' f o2"
      by blast
    have "decode_loop (Suc n) p s = Inr (e, p + m, s')" using run None eq s' by simp
    with slip_rel_trans [OF s1(2) s'(2)] eq show ?thesis by blast
  qed
qed

lemma decode_frame:
  assumes "buffer_wf (decoded s)" "buffer_wf (encoded s)"
    "length (buffer_bytes (decoded s)) + length (buffer_bytes (encoded s)) \<le> unat (b_cap (decoded s))"
    "frame_scan (codec_flags s) (buffer_bytes (encoded s)) = (e, m, out, f)"
    "b_len (encoded s) \<noteq> 0"
  shows "\<exists>s'. decode s = Inr (e, m, s') \<and> slip_rel s s' f out"
proof -
  let ?n = "unat (b_len (encoded s))"
  obtain d where d: "b_data (encoded s) = Some d" "?n \<le> length d"
    using assms(2,5) buffer_len_le_cap [OF assms(2)]
    by (auto simp: buffer_wf_def split: option.splits)
  have len: "length (buffer_bytes (encoded s)) = ?n" using assms(2) by simp
  have "buffer_bytes (encoded s) = slice 0 ?n d" by (simp add: buffer_bytes_def d slice_def)
  then show ?thesis
    using decode_loop_frame [OF assms(1) d(1), of 0 ?n e m out f] assms d len
    by (simp add: decode_def)
qed

lemma decode_empty:
  assumes "b_len (encoded s) = 0"
  shows "decode s = Inr (ERR_PACKET_START_NOT_FOUND, 0, s)"
  using assms by (simp add: decode_def)

subsection \<open>The rounds of the decoder\<close>

definition slip_raw :: "slip_codec_t \<Rightarrow> bytes" where
  "slip_raw s = (case b_data (decoded s) of None \<Rightarrow> [] | Some d \<Rightarrow> d)"

definition slip_out :: "slip_codec_t \<Rightarrow> bytes" where
  "slip_out s = buffer_bytes (decoded s)"

definition slip_in :: "slip_codec_t \<Rightarrow> bytes" where
  "slip_in s = buffer_bytes (encoded s)"

definition slip_inv :: "slip_codec_t \<Rightarrow> bool" where
  "slip_inv s \<longleftrightarrow> buffer_wf (decoded s) \<and> buffer_wf (encoded s) \<and>
     b_cap (decoded s) = word_of_nat DECODED_DATA_BUF_SIZE \<and>
     b_cap (encoded s) = word_of_nat ENCODED_DATA_BUF_SIZE \<and>
     length (slip_out s) + length (slip_in s) \<le> ENCODED_DATA_BUF_SIZE"

lemma slip_raw_out: "slip_inv s \<Longrightarrow> take (length (slip_out s)) (slip_raw s) = slip_out s"
  by (auto simp: slip_inv_def slip_out_def slip_raw_def buffer_bytes_def buffer_wf_def
      word_le_nat_alt split: option.splits)

text \<open>One call of \<open>decode\<close> followed by the removal of what it processed.\<close>

definition decode_pop :: "slip_codec_t \<Rightarrow> (slip_err \<times> slip_codec_t) outcome" where
  "decode_pop s =
     obind (decode s) (\<lambda>(err, processedNum, s1).
     obind (buffer_pop_front (encoded s1) (word_of_nat processedNum)) (\<lambda>enc.
       Inr (err, s1\<lparr>encoded := enc\<rparr>)))"

lemma slip_decode_loop_pop:
  "slip_decode_loop (Suc x) s =
     obind (decode_pop s) (\<lambda>(err, s2).
       case err of
         ERR_PACKET_CUT \<Rightarrow> slip_decode_loop x s2
       | ERR_INCOMPLETE_PACKET \<Rightarrow> Inr (err, s2)
       | ERR_NONE \<Rightarrow> Inr (err, s2)
       | ERR_INCOMPLETE_ESC_SEQUENCE \<Rightarrow> Inr (err, s2\<lparr>decoded := buffer_clean (decoded s2)\<rparr>)
       | ERR_INVALID_ESC_SEQUENCE \<Rightarrow> Inr (err, s2\<lparr>decoded := buffer_clean (decoded s2)\<rparr>)
       | ERR_PACKET_START_NOT_FOUND \<Rightarrow> Inr (err, s2\<lparr>decoded := buffer_clean (decoded s2)\<rparr>)
       | ERR_NO_MEMORY \<Rightarrow> Inr (err, s2\<lparr>decoded := buffer_clean (decoded s2)\<rparr>)
       | _ \<Rightarrow> Inr (ERR_UNKNOWN, s2\<lparr>decoded := buffer_clean (decoded s2)\<rparr>))"
proof (cases "decode s")
  case (Inr r)
  obtain e n s1 where r: "r = (e, n, s1)" by (metis prod_cases3)
  show ?thesis
    using Inr r
    by (cases "buffer_pop_front (encoded s1) (word_of_nat n)") (simp_all add: decode_pop_def Let_def)
qed (simp add: decode_pop_def)

definition slip_scan :: "frame_flags \<Rightarrow> bytes \<Rightarrow> slip_err \<times> nat \<times> bytes \<times> frame_flags" where
  "slip_scan f bs = (if bs = [] then (ERR_PACKET_START_NOT_FOUND, 0, [], f) else frame_scan f bs)"

lemma decode_pop_frame:
  assumes inv: "slip_inv s" and sc: "slip_scan (codec_flags s) (slip_in s) = (e, m, out, f)"
  shows "\<exists>s'. decode_pop s = Inr (e, s') \<and> slip_inv s' \<and> codec_flags s' = f \<and>
    slip_out s' = slip_out s @ out \<and> slip_in s' = drop m (slip_in s)"
proof (cases "slip_in s = []")
  case True
  then have "b_len (encoded s) = 0"
    using inv length_buffer_bytes [of "encoded s"]
    by (simp add: slip_inv_def slip_in_def unat_eq_0 del: length_buffer_bytes)
  moreover from this have "buffer_pop_front (encoded s) 0 = Inr (encoded s)"
    by (simp add: buffer_pop_front_def)
  ultimately show ?thesis
    using True sc inv by (auto simp: slip_scan_def decode_pop_def decode_empty)
next
  case False
  then have sc': "frame_scan (codec_flags s) (buffer_bytes (encoded s)) = (e, m, out, f)"
    using sc by (simp add: slip_scan_def slip_in_def)
  have m: "m \<le> length (slip_in s)" "length out \<le> m"
    using frame_scan_bounds [OF sc'] by (auto simp: slip_in_def)
  have caps: "unat (b_cap (decoded s)) = 2048" "length (slip_in s) \<le> 1536"
    using inv by (auto simp: slip_inv_def unat_word_of_nat)
  have "b_len (encoded s) \<noteq> 0"
    using False inv by (auto simp: slip_inv_def slip_in_def buffer_bytes_def split: option.splits)
  then obtain s1 where s1: "decode s = Inr (e, m, s1)" "slip_rel s s1 f out"
    using decode_frame [of s e m out f] inv sc' caps by (auto simp: slip_inv_def slip_out_def slip_in_def)
  have um: "unat (word_of_nat m :: u16) = m"
    using m caps by (intro unat_word_of_nat) simp
  obtain enc where enc: "buffer_pop_front (encoded s1) (word_of_nat m) = Inr enc" "buffer_wf enc"
    "buffer_bytes enc = drop m (buffer_bytes (encoded s1))" "b_cap enc = b_cap (encoded s1)"
    using buffer_pop_front_ok [of "encoded s1" "word_of_nat m"] s1 inv um
    by (auto simp: slip_rel_def slip_inv_def)
  have "decode_pop s = Inr (e, s1\<lparr>encoded := enc\<rparr>)" using s1 enc by (simp add: decode_pop_def)
  moreover have "slip_inv (s1\<lparr>encoded := enc\<rparr>)"
    using s1 enc inv m by (auto simp: slip_inv_def slip_rel_def slip_out_def slip_in_def)
  ultimately show ?thesis
    using s1 enc by (auto simp: slip_rel_def slip_out_def slip_in_def codec_flags_def)
qed

text \<open>The 16 rounds over the abstract state: flags, packet so far, bytes waiting.\<close>

fun frame_rounds ::
  "nat \<Rightarrow> frame_flags \<Rightarrow> bytes \<Rightarrow> bytes \<Rightarrow> slip_err \<times> frame_flags \<times> bytes \<times> bytes" where
  "frame_rounds 0 f out inp = (ERR_UNKNOWN, f, out, inp)"
| "frame_rounds (Suc x) f out inp =
     (let (e, m, o1, f') = slip_scan f inp in
      if e = ERR_PACKET_CUT then frame_rounds x f' (out @ o1) (drop m inp)
      else if e = ERR_NONE \<or> e = ERR_INCOMPLETE_PACKET then (e, f', out @ o1, drop m inp)
      else (e, f', [], drop m inp))"

lemma slip_scan_errors:
  "slip_scan f bs = (e, m, out, f') \<Longrightarrow> e \<in> {ERR_NONE, ERR_PACKET_CUT, ERR_INCOMPLETE_ESC_SEQUENCE,
     ERR_INVALID_ESC_SEQUENCE, ERR_INCOMPLETE_PACKET, ERR_PACKET_START_NOT_FOUND}"
proof -
  have "frame_scan f bs = (e, m, out, f') \<Longrightarrow> e \<in> {ERR_NONE, ERR_PACKET_CUT,
     ERR_INCOMPLETE_ESC_SEQUENCE, ERR_INVALID_ESC_SEQUENCE, ERR_INCOMPLETE_PACKET,
     ERR_PACKET_START_NOT_FOUND}"
  proof (induction bs arbitrary: f m out f')
    case (Cons b bs)
    then show ?case
      by (auto split: prod.splits option.splits dest!: frame_step_errors)
  qed (auto split: if_splits)
  then show "slip_scan f bs = (e, m, out, f') \<Longrightarrow> ?thesis"
    by (auto simp: slip_scan_def split: if_splits)
qed

lemma slip_clean_inv:
  assumes "slip_inv s"
  shows "slip_inv (s\<lparr>decoded := buffer_clean (decoded s)\<rparr>)"
    "slip_out (s\<lparr>decoded := buffer_clean (decoded s)\<rparr>) = []"
    "slip_raw (s\<lparr>decoded := buffer_clean (decoded s)\<rparr>) = slip_raw s"
proof -
  have c: "buffer_wf (buffer_clean (decoded s))" "buffer_bytes (buffer_clean (decoded s)) = []"
    using assms buf.clean_law [of "decoded s"] by (auto simp: slip_inv_def)
  show "slip_inv (s\<lparr>decoded := buffer_clean (decoded s)\<rparr>)"
    using assms c by (auto simp: slip_inv_def slip_out_def slip_in_def)
  show "slip_out (s\<lparr>decoded := buffer_clean (decoded s)\<rparr>) = []" using c by (simp add: slip_out_def)
  show "slip_raw (s\<lparr>decoded := buffer_clean (decoded s)\<rparr>) = slip_raw s"
    by (simp add: slip_raw_def buffer_clean_def)
qed

lemma slip_decode_loop_rounds:
  assumes "slip_inv s" "frame_rounds x (codec_flags s) (slip_out s) (slip_in s) = (e, f, out, inp)"
  shows "\<exists>s'. slip_decode_loop x s = Inr (e, s') \<and> slip_inv s' \<and> codec_flags s' = f \<and>
    slip_out s' = out \<and> slip_in s' = inp \<and> take (length (slip_out s)) (slip_raw s') = slip_out s"
  using assms
proof (induction x arbitrary: s)
  case 0
  then show ?case by (auto simp: slip_raw_out)
next
  case (Suc x)
  obtain e1 m o1 f1 where sc: "slip_scan (codec_flags s) (slip_in s) = (e1, m, o1, f1)"
    by (metis prod_cases4)
  obtain s1 where s1: "decode_pop s = Inr (e1, s1)" "slip_inv s1" "codec_flags s1 = f1"
    "slip_out s1 = slip_out s @ o1" "slip_in s1 = drop m (slip_in s)"
    using decode_pop_frame [OF Suc.prems(1) sc] by blast
  have keep: "take (length (slip_out s)) xs = slip_out s"
    if "take (length (slip_out s1)) xs = slip_out s1" for xs
    using arg_cong [OF that, of "take (length (slip_out s))"] s1(4) by (simp add: min_def)
  note raw = keep [OF slip_raw_out [OF s1(2)]]
  note errs = slip_scan_errors [OF sc]
  show ?case
  proof (cases "e1 = ERR_PACKET_CUT")
    case True
    then have "frame_rounds x (codec_flags s1) (slip_out s1) (slip_in s1) = (e, f, out, inp)"
      using Suc.prems(2) s1 by (simp add: sc)
    from Suc.IH [OF s1(2) this] show ?thesis
      using True s1(1) keep by (auto simp: slip_decode_loop_pop simp del: slip_decode_loop.simps)
  next
    case False
    let ?s' = "if e1 = ERR_NONE \<or> e1 = ERR_INCOMPLETE_PACKET then s1
      else s1\<lparr>decoded := buffer_clean (decoded s1)\<rparr>"
    have run: "slip_decode_loop (Suc x) s = Inr (e1, ?s')"
      using False errs by (auto simp: slip_decode_loop_pop s1(1) simp del: slip_decode_loop.simps)
    have out: "e = e1" "f = f1" "inp = slip_in s1"
      "out = (if e1 = ERR_NONE \<or> e1 = ERR_INCOMPLETE_PACKET then slip_out s1 else [])"
      using Suc.prems(2) False s1 by (auto simp: sc split: if_splits)
    have "codec_flags ?s' = f1" "slip_in ?s' = slip_in s1"
      using s1(3) by (auto simp: codec_flags_def slip_in_def)
    with run out raw s1(2) slip_clean_inv [OF s1(2)] show ?thesis by auto
  qed
qed

lemma slip_scan_bounds:
  "slip_scan f bs = (e, m, out, f') \<Longrightarrow> m \<le> length bs \<and> length out \<le> m \<and>
     (e = ERR_NONE \<or> e = ERR_PACKET_CUT \<longrightarrow> 0 < m)"
  using frame_scan_bounds [of f bs e m out f'] by (auto simp: slip_scan_def split: if_splits)

lemma frame_rounds_shrink:
  "frame_rounds x f out inp = (e, f', out', inp') \<Longrightarrow>
     length inp' \<le> length inp \<and> (e = ERR_NONE \<longrightarrow> length inp' < length inp)"
proof (induction x arbitrary: f out inp)
  case (Suc x)
  obtain e1 m o1 f1 where sc: "slip_scan f inp = (e1, m, o1, f1)" by (metis prod_cases4)
  show ?case
    using Suc.prems Suc.IH [of f1 "out @ o1" "drop m inp"] slip_scan_bounds [OF sc]
    by (auto simp: sc split: if_splits)
qed simp

lemma decoder_loop_total:
  "slip_inv s \<Longrightarrow> length (slip_in s) < n \<Longrightarrow> (\<And>k. l = Some k \<Longrightarrow> k \<le> ENCODED_DATA_BUF_SIZE) \<Longrightarrow>
   \<exists>e l' s'. decoder_loop n s l = Inr (e, l', s') \<and> slip_inv s' \<and>
     (\<forall>k. l' = Some k \<longrightarrow> k \<le> ENCODED_DATA_BUF_SIZE)"
proof (induction n arbitrary: s l)
  case (Suc n)
  obtain e f out inp where fr: "frame_rounds 16 (codec_flags s) (slip_out s) (slip_in s) = (e, f, out, inp)"
    by (metis prod_cases4)
  obtain s1 where s1: "slip_decode s = Inr (e, s1)" "slip_inv s1" "slip_in s1 = inp"
    using slip_decode_loop_rounds [OF Suc.prems(1) fr] by (auto simp: slip_decode_def)
  have len: "unat (b_len (decoded s1)) \<le> ENCODED_DATA_BUF_SIZE"
    using s1(2) by (auto simp: slip_inv_def slip_out_def)
  show ?case
    using Suc.IH [OF s1(2), of "Some (unat (b_len (decoded s1)))"] Suc.prems s1 len
      frame_rounds_shrink [OF fr] by auto
qed simp

subsection \<open>The static decoder on any input\<close>

text \<open>The state between two calls.\<close>

definition slip_ready :: "slip_codec_t \<Rightarrow> bool" where
  "slip_ready s \<longleftrightarrow> buffer_wf (decoded s) \<and> buffer_wf (encoded s) \<and>
     b_cap (decoded s) = word_of_nat DECODED_DATA_BUF_SIZE \<and>
     b_cap (encoded s) = word_of_nat ENCODED_DATA_BUF_SIZE \<and> b_len (encoded s) = 0"

definition slip_init :: slip_codec_t where
  "slip_init = \<lparr>decoded = \<lparr>b_data = Some (replicate DECODED_DATA_BUF_SIZE 0),
       b_cap = word_of_nat DECODED_DATA_BUF_SIZE, b_len = 0, b_dynamic = False\<rparr>,
     encoded = \<lparr>b_data = Some (replicate ENCODED_DATA_BUF_SIZE 0),
       b_cap = word_of_nat ENCODED_DATA_BUF_SIZE, b_len = 0, b_dynamic = False\<rparr>,
     insideOfPacket = False, escActive = False\<rparr>"

lemma slip_ready_init: "slip_ready slip_init"
  by (simp add: slip_ready_def slip_init_def buffer_wf_def)

lemma slip_clear_ready: "slip_inv s \<Longrightarrow> slip_ready (slip_clear s)"
  using buffer_clean_ok [of "decoded s"] buffer_clean_ok [of "encoded s"]
  by (simp add: slip_inv_def slip_ready_def slip_clear_def buffer_clean_def)

text \<open>The state in which the decoding loop starts.\<close>

definition slip_loaded :: "slip_codec_t \<Rightarrow> bytes \<Rightarrow> slip_codec_t \<Rightarrow> bool" where
  "slip_loaded s bs s1 \<longleftrightarrow> slip_inv s1 \<and> codec_flags s1 = codec_flags s \<and> slip_out s1 = [] \<and>
     slip_in s1 = bs"

lemma slip_memset_ok:
  "buffer_wf b \<Longrightarrow> buffer_wf (slip_memset b) \<and> b_cap (slip_memset b) = b_cap b \<and>
     b_len (slip_memset b) = b_len b"
  by (auto simp: slip_memset_def buffer_wf_def split: option.splits)

lemma buffer_bytes_empty: "b_len b = 0 \<Longrightarrow> buffer_bytes b = []"
  by (auto simp: buffer_bytes_def split: option.splits)

lemma slip_add_data_ok:
  assumes "buffer_wf (decoded s)" "buffer_wf (encoded s)" "b_len (decoded s) = 0"
    "b_len (encoded s) = 0" "b_cap (decoded s) = word_of_nat DECODED_DATA_BUF_SIZE"
    "b_cap (encoded s) = word_of_nat ENCODED_DATA_BUF_SIZE"
    "0 < n" "n \<le> length bs" "n \<le> ENCODED_DATA_BUF_SIZE"
  shows "\<exists>s1. slip_add_data s bs n = Inr (s1, ESP_OK) \<and> slip_loaded s (take n bs) s1"
proof -
  obtain d where d: "b_data (encoded s) = Some d" "length d = 1536"
    using assms(2,6) by (auto simp: buffer_wf_def split: option.splits)
  have n: "unat (word_of_nat n :: u16) = n" using assms by (intro unat_word_of_nat) simp
  define s1 where "s1 = s\<lparr>encoded := (encoded s)\<lparr>b_data := Some (overwrite d 0 (take n bs)),
      b_len := word_of_nat n\<rparr>\<rparr>"
  have add: "slip_add_data s bs n = Inr (s1, ESP_OK)"
    using assms d by (simp add: slip_add_data_def s1_def not_less Let_def)
  have wf: "buffer_wf (encoded s1)"
    using d assms by (simp add: s1_def buffer_wf_def word_le_nat_alt n)
  have inp: "slip_in s1 = take n bs"
    using assms by (simp add: slip_in_def s1_def buffer_bytes_def n take_overwrite_0)
  have out: "slip_out s1 = []"
    using assms by (simp add: slip_out_def s1_def buffer_bytes_empty)
  have "slip_inv s1"
    using assms wf inp out by (simp add: slip_inv_def) (simp add: s1_def)
  then have "slip_loaded s (take n bs) s1"
    using inp out by (simp add: slip_loaded_def) (simp add: s1_def codec_flags_def)
  with add show ?thesis by blast
qed

text \<open>The call up to the loop.\<close>

lemma slip_static_data_decoder_start:
  assumes "slip_ready s" "0 < n" "n \<le> length bs" "n \<le> ENCODED_DATA_BUF_SIZE"
  shows "\<exists>s1. slip_loaded s (take n bs) s1 \<and>
    slip_static_data_decoder s bs n =
      obind (decoder_loop (Suc ENCODED_DATA_BUF_SIZE) s1 None) (\<lambda>(ret_decode, len_out, s2).
         Inr (if ret_decode = ERR_PACKET_START_NOT_FOUND then ESP_OK else ESP_FAIL,
              len_out, slip_clear s2))"
proof -
  have pop: "buffer_pop_front (decoded s) (b_len (decoded s)) = Inr (buffer_clean (decoded s))"
    by (simp add: buffer_pop_front_def buffer_clean_def)
  define s0 where "s0 = s\<lparr>decoded := slip_memset (buffer_clean (decoded s)),
    encoded := slip_memset (encoded s)\<rparr>"
  have ready: "buffer_wf (decoded s)" "buffer_wf (encoded s)"
    "b_cap (decoded s) = word_of_nat DECODED_DATA_BUF_SIZE"
    "b_cap (encoded s) = word_of_nat ENCODED_DATA_BUF_SIZE" "b_len (encoded s) = 0"
    using assms(1) by (auto simp: slip_ready_def)
  have c: "buffer_wf (buffer_clean (decoded s))" "b_len (buffer_clean (decoded s)) = 0"
    using buf.clean_law [OF ready(1)] by (auto simp: buffer_clean_def)
  have "\<exists>s1. slip_add_data s0 bs n = Inr (s1, ESP_OK) \<and> slip_loaded s0 (take n bs) s1"
    using assms ready c slip_memset_ok [OF c(1)] slip_memset_ok [OF ready(2)]
    by (intro slip_add_data_ok) (simp_all add: s0_def)
  then obtain s1 where s1: "slip_add_data s0 bs n = Inr (s1, ESP_OK)" "slip_loaded s0 (take n bs) s1"
    by blast
  have "slip_loaded s (take n bs) s1"
    using s1(2) by (simp add: slip_loaded_def s0_def codec_flags_def)
  moreover have "n \<le> DECODED_DATA_BUF_SIZE" using assms by simp
  ultimately show ?thesis
    using s1(1) by (intro exI [of _ s1]) (simp add: slip_static_data_decoder_def pop Let_def s0_def)
qed

lemma slip_decoder_total:
  assumes "slip_ready s" "n \<le> DECODED_DATA_BUF_SIZE" "n \<le> length bs"
  shows "\<exists>r l s'. slip_static_data_decoder s bs n = Inr (r, l, s') \<and> slip_ready s' \<and>
    (\<forall>k. l = Some k \<longrightarrow> k \<le> ENCODED_DATA_BUF_SIZE \<and> k \<le> length (slip_raw s'))"
proof (cases "0 < n \<and> n \<le> ENCODED_DATA_BUF_SIZE")
  case True
  then obtain s1 where s1: "slip_loaded s (take n bs) s1"
    and run: "slip_static_data_decoder s bs n =
      obind (decoder_loop (Suc ENCODED_DATA_BUF_SIZE) s1 None) (\<lambda>(ret_decode, len_out, s2).
         Inr (if ret_decode = ERR_PACKET_START_NOT_FOUND then ESP_OK else ESP_FAIL,
              len_out, slip_clear s2))"
    using slip_static_data_decoder_start [OF assms(1) _ assms(3)] by blast
  have "slip_inv s1" "length (slip_in s1) < Suc ENCODED_DATA_BUF_SIZE"
    using s1 True assms(3) by (auto simp: slip_loaded_def)
  then obtain e l s2 where "decoder_loop (Suc ENCODED_DATA_BUF_SIZE) s1 None = Inr (e, l, s2)"
    and s2: "slip_inv s2" "\<forall>k. l = Some k \<longrightarrow> k \<le> ENCODED_DATA_BUF_SIZE"
    using decoder_loop_total [of s1 "Suc ENCODED_DATA_BUF_SIZE" None] by auto
  moreover have "length (slip_raw (slip_clear s2)) = 2048"
    using s2(1) by (auto simp: slip_inv_def slip_raw_def slip_clear_def buffer_wf_def
        split: option.splits)
  ultimately show ?thesis
    using run slip_clear_ready [OF s2(1)] by fastforce
next
  case False
  have ready: "slip_ready (s\<lparr>decoded := slip_memset (buffer_clean (decoded s)),
      encoded := slip_memset (encoded s)\<rparr>)"
    using assms(1) buf.clean_law [of "decoded s"] slip_memset_ok [of "buffer_clean (decoded s)"]
      slip_memset_ok [of "encoded s"] by (auto simp: slip_ready_def)
  have "buffer_pop_front (decoded s) (b_len (decoded s)) = Inr (buffer_clean (decoded s))"
    by (simp add: buffer_pop_front_def buffer_clean_def)
  moreover have "unat (b_cap (encoded s)) = 1536" "b_len (encoded s) = 0"
    using assms(1) by (auto simp: slip_ready_def)
  ultimately show ?thesis
    using False assms ready
    by (auto simp: slip_static_data_decoder_def slip_add_data_def Let_def slip_memset_def)
qed

text \<open>C10. The static decoder, called in any reachable state with any input of up to 2048 bytes,
  returns: its loops end within the fuel, no byte is stored outside the decoded buffer, no assertion
  fails, the state it leaves is one it can be called in again, and a length it reports fits the
  buffer.\<close>

theorem slip_decoder_safe:
  assumes "slip_ready s" "n \<le> DECODED_DATA_BUF_SIZE" "n \<le> length bs"
  shows "\<exists>r l s'. slip_static_data_decoder s bs n = Inr (r, l, s') \<and> slip_ready s' \<and>
    (\<forall>k. l = Some k \<longrightarrow> k \<le> ENCODED_DATA_BUF_SIZE \<and> k \<le> length (slip_raw s'))"
  using slip_decoder_total [OF assms] .

theorem slip_decoder_safe_witness:
  "\<exists>r l s'. slip_static_data_decoder slip_init [0xCF, 0xDB, 0x01, 0xCF, 0xCF] 5 = Inr (r, l, s') \<and>
    slip_ready s' \<and> (\<forall>k. l = Some k \<longrightarrow> k \<le> ENCODED_DATA_BUF_SIZE \<and> k \<le> length (slip_raw s'))"
  using slip_decoder_safe [OF slip_ready_init, of 5 "[0xCF, 0xDB, 0x01, 0xCF, 0xCF]"] by simp

subsection \<open>Frames\<close>

definition slip_frame :: "bytes \<Rightarrow> bytes" where
  "slip_frame bs = SLIP_BEGIN # concat (map slip_escaped bs) @ [SLIP_END]"

text \<open>Packets with bytes that are not BEGIN before each, and some after the last.\<close>

definition slip_stream :: "(bytes \<times> bytes) list \<Rightarrow> bytes \<Rightarrow> bytes" where
  "slip_stream ps rest = concat (map (\<lambda>(n, p). n @ slip_frame p) ps) @ rest"

lemma frame_scan_noise:
  "SLIP_BEGIN \<notin> set ns \<Longrightarrow>
   frame_scan (False, e) (ns @ bs) =
     (let (r, m, out, f) = frame_scan (False, e) bs in (r, length ns + m, out, f))"
proof (induction ns)
  case (Cons b ns)
  then have "frame_step (False, e) b = ((False, e), [], None)" by (auto simp: frame_step_def)
  then show ?case using Cons by (simp split: prod.splits)
qed (simp split: prod.splits)

lemma frame_scan_escaped:
  "frame_scan (True, False) (slip_escaped b @ bs) =
     (let (r, m, out, f) = frame_scan (True, False) bs in (r, length (slip_escaped b) + m, b # out, f))"
  by (simp add: slip_escaped_def frame_step_def split: prod.splits)

lemma frame_scan_body:
  "frame_scan (True, False) (concat (map slip_escaped p) @ SLIP_END # bs) =
     (ERR_NONE, Suc (length (concat (map slip_escaped p))), p, (False, False))"
proof (induction p)
  case Nil
  then show ?case by (simp add: frame_step_def)
next
  case (Cons b p)
  have "frame_scan (True, False) (concat (map slip_escaped (b # p)) @ SLIP_END # bs) =
      frame_scan (True, False) (slip_escaped b @ (concat (map slip_escaped p) @ SLIP_END # bs))"
    by simp
  also have "\<dots> = (ERR_NONE, length (slip_escaped b) + Suc (length (concat (map slip_escaped p))),
      b # p, (False, False))"
    unfolding frame_scan_escaped Cons.IH by simp
  finally show ?case by simp
qed

lemma frame_scan_frame:
  assumes "SLIP_BEGIN \<notin> set ns"
  shows "frame_scan (False, False) (ns @ slip_frame p @ bs) =
    (ERR_NONE, length ns + length (slip_frame p), p, (False, False))"
proof -
  have "frame_scan (False, False) (slip_frame p @ bs) =
      (ERR_NONE, length (slip_frame p), p, (False, False))"
    using frame_scan_body [of p bs] by (simp add: slip_frame_def frame_step_def)
  then show ?thesis by (simp add: frame_scan_noise [OF assms])
qed

lemma decoder_loop_stream:
  assumes "slip_inv s" "codec_flags s = (False, False)" "slip_in s = slip_stream ps rest"
    "\<forall>(n, p)\<in>set ps. SLIP_BEGIN \<notin> set n" "SLIP_BEGIN \<notin> set rest" "length ps < k"
  shows "\<exists>s'. decoder_loop k s l =
      Inr (ERR_PACKET_START_NOT_FOUND,
        if ps = [] then l else Some (length (slip_out s @ concat (map snd ps))), s') \<and>
    slip_inv s' \<and> codec_flags s' = (False, False) \<and>
    take (length (slip_out s @ concat (map snd ps))) (slip_raw s') = slip_out s @ concat (map snd ps)"
  using assms
proof (induction ps arbitrary: s l k)
  case Nil
  have "frame_scan (False, False) (rest @ []) = (ERR_PACKET_START_NOT_FOUND, length rest, [], (False, False))"
    using Nil.prems(5) frame_scan_noise [of rest False "[]"] by simp
  then have "slip_scan (False, False) rest = (ERR_PACKET_START_NOT_FOUND, length rest, [], (False, False))"
    by (simp add: slip_scan_def)
  then have "frame_rounds 16 (codec_flags s) (slip_out s) (slip_in s) =
      (ERR_PACKET_START_NOT_FOUND, (False, False), [], [])"
    using Nil.prems by (simp add: slip_stream_def eval_nat_numeral)
  from slip_decode_loop_rounds [OF Nil.prems(1) this]
  obtain s' where s': "slip_decode s = Inr (ERR_PACKET_START_NOT_FOUND, s')" "slip_inv s'"
    "codec_flags s' = (False, False)" "take (length (slip_out s)) (slip_raw s') = slip_out s"
    by (auto simp: slip_decode_def)
  obtain k' where "k = Suc k'" using Nil.prems(6) by (cases k) auto
  then show ?case using s' by simp
next
  case (Cons np ps)
  obtain n p where np: "np = (n, p)" by (cases np)
  let ?rest = "slip_stream ps rest"
  have inp: "slip_in s = n @ slip_frame p @ ?rest"
    using Cons.prems(3) np by (simp add: slip_stream_def)
  have "slip_scan (False, False) (slip_in s) =
      (ERR_NONE, length n + length (slip_frame p), p, (False, False))"
    using frame_scan_frame [of n p ?rest] Cons.prems(4) np inp
    by (simp add: slip_scan_def) (simp add: slip_frame_def)
  then have "frame_rounds 16 (codec_flags s) (slip_out s) (slip_in s) =
      (ERR_NONE, (False, False), slip_out s @ p, ?rest)"
    using Cons.prems(2) inp by (simp add: eval_nat_numeral)
  from slip_decode_loop_rounds [OF Cons.prems(1) this]
  obtain s1 where s1: "slip_decode s = Inr (ERR_NONE, s1)" "slip_inv s1"
    "codec_flags s1 = (False, False)" "slip_out s1 = slip_out s @ p" "slip_in s1 = ?rest"
    by (auto simp: slip_decode_def)
  have l1: "unat (b_len (decoded s1)) = length (slip_out s1)"
    using s1(2) by (auto simp: slip_inv_def slip_out_def)
  obtain k' where k': "k = Suc k'" "length ps < k'" using Cons.prems(6) by (cases k) auto
  obtain s' where s': "decoder_loop k' s1 (Some (length (slip_out s1))) =
      Inr (ERR_PACKET_START_NOT_FOUND,
        if ps = [] then Some (length (slip_out s1))
        else Some (length (slip_out s1 @ concat (map snd ps))), s')"
    "slip_inv s'" "codec_flags s' = (False, False)"
    "take (length (slip_out s1 @ concat (map snd ps))) (slip_raw s') = slip_out s1 @ concat (map snd ps)"
    using Cons.IH [OF s1(2,3,5) _ Cons.prems(5) k'(2), of "Some (length (slip_out s1))"] Cons.prems(4)
    by auto
  have "decoder_loop k s l = decoder_loop k' s1 (Some (length (slip_out s1)))"
    using k'(1) s1(1) l1 by simp
  then show ?case using s' np s1(4) by auto
qed

lemma slip_stream_length: "2 * length ps \<le> length (slip_stream ps rest)"
  by (induction ps) (auto simp: slip_stream_def slip_frame_def)

lemma slip_decoder_stream_run:
  assumes "slip_ready s" "codec_flags s = (False, False)"
    and "\<forall>(n, p)\<in>set ps. SLIP_BEGIN \<notin> set n" "SLIP_BEGIN \<notin> set rest"
    and "0 < length (slip_stream ps rest)" "length (slip_stream ps rest) \<le> ENCODED_DATA_BUF_SIZE"
  shows "\<exists>l s'. slip_static_data_decoder s (slip_stream ps rest) (length (slip_stream ps rest)) =
      Inr (ESP_OK, l, s') \<and> slip_ready s' \<and> codec_flags s' = (False, False) \<and>
    l = (if ps = [] then None else Some (length (concat (map snd ps)))) \<and>
    take (length (concat (map snd ps))) (slip_raw s') = concat (map snd ps)"
proof -
  let ?bs = "slip_stream ps rest"
  obtain s1 where s1: "slip_loaded s ?bs s1"
    and run: "slip_static_data_decoder s ?bs (length ?bs) =
      obind (decoder_loop (Suc ENCODED_DATA_BUF_SIZE) s1 None) (\<lambda>(ret_decode, len_out, s2).
         Inr (if ret_decode = ERR_PACKET_START_NOT_FOUND then ESP_OK else ESP_FAIL,
              len_out, slip_clear s2))"
    using slip_static_data_decoder_start [OF assms(1,5) order_refl assms(6)] by auto
  have fuel: "length ps < Suc ENCODED_DATA_BUF_SIZE"
    using slip_stream_length [of ps rest] assms(6) by simp
  obtain s2 where s2: "decoder_loop (Suc ENCODED_DATA_BUF_SIZE) s1 None =
      Inr (ERR_PACKET_START_NOT_FOUND, if ps = [] then None else Some (length (concat (map snd ps))), s2)"
    "slip_inv s2" "codec_flags s2 = (False, False)"
    "take (length (concat (map snd ps))) (slip_raw s2) = concat (map snd ps)"
    using decoder_loop_stream [OF _ _ _ assms(3,4) fuel, of s1 None] s1 assms(2)
    by (auto simp: slip_loaded_def)
  have "slip_raw (slip_clear s2) = slip_raw s2" "codec_flags (slip_clear s2) = codec_flags s2"
    by (simp_all add: slip_raw_def slip_clear_def codec_flags_def)
  then show ?thesis using run s2 slip_clear_ready [OF s2(2)] by simp
qed

text \<open>C36. Called between packets with any sequence of frames, each after bytes that are not BEGIN, and
  such bytes at the end, the static decoder returns \<open>ESP_OK\<close> and hands out the packets one after the
  other as one block (no packet is lost, but the boundaries are); without a frame it
  returns \<open>ESP_OK\<close> and leaves the caller's variables alone.\<close>

theorem slip_decoder_stream:
  assumes "slip_ready s" "codec_flags s = (False, False)"
    and "\<forall>(n, p)\<in>set ps. SLIP_BEGIN \<notin> set n" "SLIP_BEGIN \<notin> set rest"
    and "0 < length (slip_stream ps rest)" "length (slip_stream ps rest) \<le> ENCODED_DATA_BUF_SIZE"
  shows "\<exists>l s'. slip_static_data_decoder s (slip_stream ps rest) (length (slip_stream ps rest)) =
      Inr (ESP_OK, l, s') \<and> slip_ready s' \<and> codec_flags s' = (False, False) \<and>
    l = (if ps = [] then None else Some (length (concat (map snd ps)))) \<and>
    take (length (concat (map snd ps))) (slip_raw s') = concat (map snd ps)"
  by (rule slip_decoder_stream_run [OF assms])

theorem slip_decoder_stream_witness:
  "\<exists>l s'. slip_static_data_decoder slip_init
       (slip_stream [([7], [1, 0xC0]), ([], [2])] [9]) (length (slip_stream [([7], [1, 0xC0]), ([], [2])] [9])) =
      Inr (ESP_OK, l, s') \<and> slip_ready s' \<and> codec_flags s' = (False, False) \<and>
    l = (if [([7 :: u8], [1 :: u8, 0xC0]), ([], [2])] = [] then None
         else Some (length (concat (map snd [([7 :: u8], [1 :: u8, 0xC0]), ([], [2])])))) \<and>
    take (length (concat (map snd [([7 :: u8], [1 :: u8, 0xC0]), ([], [2])]))) (slip_raw s') =
      concat (map snd [([7 :: u8], [1 :: u8, 0xC0]), ([], [2])])"
  by (rule slip_decoder_stream [OF slip_ready_init])
    (simp_all add: slip_stream_def slip_frame_def slip_escaped_def slip_init_def codec_flags_def)

text \<open>A frame that arrives while the flag of an earlier, incomplete packet is still set.\<close>

lemma slip_escaped_no_begin: "SLIP_BEGIN \<notin> set (concat (map slip_escaped p))"
  by (auto simp: slip_escaped_def)

lemma frame_scan_no_begin:
  "SLIP_BEGIN \<notin> set bs \<Longrightarrow>
   frame_scan (False, e) bs = (ERR_PACKET_START_NOT_FOUND, length bs, [], (False, e))"
  using frame_scan_noise [of bs e "[]"] by simp

text \<open>A decoder that was left inside a packet (its input ended before the END byte) drops the
  next well-formed frame: the call returns \<open>ESP_OK\<close> and hands out nothing. The BEGIN byte of the
  frame ends the old packet and is consumed, although the comment says that it is put back.\<close>

lemma slip_decoder_drops_next_frame:
  assumes "slip_ready s" "insideOfPacket s" "length (slip_frame p) \<le> ENCODED_DATA_BUF_SIZE"
  shows "\<exists>s'. slip_static_data_decoder s (slip_frame p) (length (slip_frame p)) =
      Inr (ESP_OK, None, s') \<and> slip_ready s' \<and> \<not> insideOfPacket s'"
proof -
  let ?bs = "slip_frame p"
  have "0 < length ?bs" by (simp add: slip_frame_def)
  then obtain s1 where s1: "slip_loaded s ?bs s1"
    and run: "slip_static_data_decoder s ?bs (length ?bs) =
      obind (decoder_loop (Suc ENCODED_DATA_BUF_SIZE) s1 None) (\<lambda>(ret_decode, len_out, s2).
         Inr (if ret_decode = ERR_PACKET_START_NOT_FOUND then ESP_OK else ESP_FAIL,
              len_out, slip_clear s2))"
    using slip_static_data_decoder_start [OF assms(1) _ order_refl assms(3)] by auto
  define bs where "bs = concat (map slip_escaped p) @ [SLIP_END]"
  define e where "e = escActive s"
  have bs: "?bs = SLIP_BEGIN # bs" by (simp add: slip_frame_def bs_def)
  have nb: "SLIP_BEGIN \<notin> set bs" using slip_escaped_no_begin [of p] by (simp add: bs_def)
  have scan1: "slip_scan (True, e) ?bs = (ERR_PACKET_CUT, 1, [], (False, e))"
    by (simp add: slip_scan_def bs frame_step_def)
  have scan2: "slip_scan (False, e) bs = (ERR_PACKET_START_NOT_FOUND, length bs, [], (False, e))"
    using frame_scan_no_begin [OF nb] by (simp add: slip_scan_def)
  have "frame_rounds 16 (codec_flags s1) (slip_out s1) (slip_in s1) =
      (ERR_PACKET_START_NOT_FOUND, (False, e), [], [])"
    using s1 assms(2) scan1 scan2
    by (simp add: slip_loaded_def codec_flags_def e_def eval_nat_numeral bs)
  from slip_decode_loop_rounds [OF _ this] obtain s2 where
    s2: "slip_decode s1 = Inr (ERR_PACKET_START_NOT_FOUND, s2)" "slip_inv s2" "codec_flags s2 = (False, e)"
    using s1 by (auto simp: slip_decode_def slip_loaded_def)
  have loop: "decoder_loop (Suc k) s1 None = Inr (ERR_PACKET_START_NOT_FOUND, None, s2)" for k
    using s2(1) by simp
  show ?thesis
    using run [unfolded loop] s2 slip_clear_ready [of s2] by (simp add: codec_flags_def slip_clear_def)
qed

subsection \<open>The encoder\<close>

lemma store_bytes_ok:
  "n + length bs \<le> length mem \<Longrightarrow> store_bytes mem n bs = Inr (overwrite mem n bs, n + length bs)"
proof (induction bs arbitrary: mem n)
  case (Cons b bs)
  then have "store_bytes (mem[n := b]) (Suc n) bs =
      Inr (overwrite (mem[n := b]) (Suc n) bs, Suc n + length bs)"
    by (intro Cons.IH) simp
  also have "overwrite (mem[n := b]) (Suc n) bs = overwrite mem n (b # bs)"
    using overwrite_append [of n "[b]" bs mem] Cons.prems by (simp add: overwrite_single)
  finally show ?case using Cons.prems by (simp add: store_byte_def)
qed simp

lemma slip_encode_loop_ok:
  "len \<le> maxLen \<Longrightarrow> maxLen \<le> length mem \<Longrightarrow>
   \<exists>mem' len'. slip_encode_loop maxLen mem len p =
     Inr (if len + length (concat (map slip_escaped p)) \<le> maxLen
          then (ESP_OK, overwrite mem len (concat (map slip_escaped p)),
                len + length (concat (map slip_escaped p)))
          else (ESP_ERR_NO_MEM, mem', len'))"
proof (induction p arbitrary: mem len)
  case (Cons b p)
  show ?case
  proof (cases "len + length (slip_escaped b) \<le> maxLen")
    case True
    have st: "store_bytes mem len (slip_escaped b) =
        Inr (overwrite mem len (slip_escaped b), len + length (slip_escaped b))"
      using True Cons.prems by (intro store_bytes_ok) simp
    show ?thesis
      using Cons.IH [of "len + length (slip_escaped b)" "overwrite mem len (slip_escaped b)"]
        True Cons.prems st
      by (auto simp: overwrite_append add.assoc)
  qed auto
qed simp

lemma slip_static_data_encoder_eq:
  assumes "0 < length p" "length p \<le> ENCODED_DATA_BUF_SIZE"
  shows "\<exists>mem. slip_static_data_encoder (Some p) (length p) =
    Inr (if length (slip_frame p) \<le> ENCODED_DATA_BUF_SIZE
         then (ESP_OK, Some (mem, length (slip_frame p))) else (ESP_ERR_NO_MEM, None)) \<and>
    (length (slip_frame p) \<le> ENCODED_DATA_BUF_SIZE \<longrightarrow>
       take (length (slip_frame p)) mem = slip_frame p \<and> length mem = ENCODED_DATA_BUF_SIZE)"
proof -
  let ?m0 = "replicate 1536 (0 :: u8)"
  let ?body = "concat (map slip_escaped p)"
  have m1: "?m0[0 := SLIP_BEGIN] = overwrite ?m0 0 [SLIP_BEGIN]"
    by (rule overwrite_single [symmetric]) simp
  have st: "store_byte ?m0 0 SLIP_BEGIN = Inr (overwrite ?m0 0 [SLIP_BEGIN], Suc 0)"
    by (simp add: store_byte_def m1 del: list_update.simps)
  obtain mem' len' where loop: "slip_encode_loop 1536 (overwrite ?m0 0 [SLIP_BEGIN]) (Suc 0) p =
     Inr (if Suc 0 + length ?body \<le> 1536
          then (ESP_OK, overwrite (overwrite ?m0 0 [SLIP_BEGIN]) (Suc 0) ?body, Suc 0 + length ?body)
          else (ESP_ERR_NO_MEM, mem', len'))"
    using slip_encode_loop_ok [of "Suc 0" 1536 "overwrite ?m0 0 [SLIP_BEGIN]" p] by auto
  show ?thesis
  proof (cases "length (slip_frame p) \<le> 1536")
    case True
    then have b: "Suc (Suc (length ?body)) \<le> 1536" by (simp add: slip_frame_def)
    have two: "overwrite (overwrite ?m0 0 [SLIP_BEGIN]) (Suc 0) ?body = overwrite ?m0 0 (SLIP_BEGIN # ?body)"
      using overwrite_append [of 0 "[SLIP_BEGIN]" ?body ?m0] b by simp
    have three: "store_byte (overwrite ?m0 0 (SLIP_BEGIN # ?body)) (Suc (length ?body)) SLIP_END =
        Inr (overwrite ?m0 0 (slip_frame p), Suc (Suc (length ?body)))"
      using overwrite_append [of 0 "SLIP_BEGIN # ?body" "[SLIP_END]" ?m0] b
      by (simp add: store_byte_def slip_frame_def overwrite_single)
    have "slip_static_data_encoder (Some p) (length p) =
        Inr (ESP_OK, Some (overwrite ?m0 0 (slip_frame p), length (slip_frame p)))"
      using assms b st loop two three
      by (auto simp: slip_static_data_encoder_def slip_encode_def slip_frame_def)
    then show ?thesis
      using True by (intro exI [of _ "overwrite ?m0 0 (slip_frame p)"]) (simp add: take_overwrite_0)
  next
    case False
    then have "\<not> Suc (Suc (length ?body)) \<le> 1536" by (simp add: slip_frame_def)
    then show ?thesis
      using False assms st loop
      by (auto simp: slip_static_data_encoder_def slip_encode_def slip_frame_def)
  qed
qed

text \<open>C1. Encoding a packet of 1 to 1536 bytes fails with \<open>ESP_ERR_NO_MEM\<close> exactly when its frame does
  not fit the encoded buffer; otherwise the first bytes of the buffer, given to the decoder between
  packets, come back as the packet.\<close>

theorem slip_encode_decode:
  assumes "0 < length p" "length p \<le> ENCODED_DATA_BUF_SIZE"
    and "slip_ready s" "codec_flags s = (False, False)"
  shows "(length (slip_frame p) > ENCODED_DATA_BUF_SIZE \<and>
      slip_static_data_encoder (Some p) (length p) = Inr (ESP_ERR_NO_MEM, None)) \<or>
    (\<exists>mem n s'. slip_static_data_encoder (Some p) (length p) = Inr (ESP_OK, Some (mem, n)) \<and>
      n = length (slip_frame p) \<and>
      slip_static_data_decoder s mem n = Inr (ESP_OK, Some (length p), s') \<and>
      take (length p) (slip_raw s') = p \<and> slip_ready s' \<and> codec_flags s' = (False, False))"
proof (cases "length (slip_frame p) \<le> ENCODED_DATA_BUF_SIZE")
  case True
  let ?n = "length (slip_frame p)"
  obtain mem where mem: "slip_static_data_encoder (Some p) (length p) = Inr (ESP_OK, Some (mem, ?n))"
    "take ?n mem = slip_frame p" "length mem = ENCODED_DATA_BUF_SIZE"
    using slip_static_data_encoder_eq [OF assms(1,2)] True by auto
  have "0 < ?n" by (simp add: slip_frame_def)
  then obtain s1 where s1: "slip_loaded s (slip_frame p) s1"
    and run: "slip_static_data_decoder s mem ?n =
      obind (decoder_loop (Suc ENCODED_DATA_BUF_SIZE) s1 None) (\<lambda>(ret_decode, len_out, s2).
         Inr (if ret_decode = ERR_PACKET_START_NOT_FOUND then ESP_OK else ESP_FAIL,
              len_out, slip_clear s2))"
    using slip_static_data_decoder_start [OF assms(3), of ?n mem] True mem by auto
  have "slip_stream [([], p)] [] = slip_frame p" by (simp add: slip_stream_def)
  then obtain s2 where s2: "decoder_loop (Suc ENCODED_DATA_BUF_SIZE) s1 None =
      Inr (ERR_PACKET_START_NOT_FOUND, Some (length p), s2)"
    "slip_inv s2" "codec_flags s2 = (False, False)" "take (length p) (slip_raw s2) = p"
    using decoder_loop_stream [of s1 "[([], p)]" "[]" "Suc ENCODED_DATA_BUF_SIZE" None] s1 assms(4)
    by (auto simp: slip_loaded_def)
  have "slip_raw (slip_clear s2) = slip_raw s2" "codec_flags (slip_clear s2) = codec_flags s2"
    by (simp_all add: slip_raw_def slip_clear_def codec_flags_def)
  then show ?thesis using mem run s2 slip_clear_ready [OF s2(2)] by auto
next
  case False
  then show ?thesis using slip_static_data_encoder_eq [OF assms(1,2)] by auto
qed

theorem slip_encode_decode_witness:
  "(length (slip_frame [1, 0xDB, 0xCF]) > ENCODED_DATA_BUF_SIZE \<and>
      slip_static_data_encoder (Some [1, 0xDB, 0xCF]) (length [1, 0xDB, 0xCF :: u8]) = Inr (ESP_ERR_NO_MEM, None)) \<or>
    (\<exists>mem n s'. slip_static_data_encoder (Some [1, 0xDB, 0xCF]) (length [1, 0xDB, 0xCF :: u8]) =
        Inr (ESP_OK, Some (mem, n)) \<and>
      n = length (slip_frame [1, 0xDB, 0xCF]) \<and>
      slip_static_data_decoder slip_init mem n = Inr (ESP_OK, Some (length [1, 0xDB, 0xCF :: u8]), s') \<and>
      take (length [1, 0xDB, 0xCF :: u8]) (slip_raw s') = [1, 0xDB, 0xCF] \<and> slip_ready s' \<and>
      codec_flags s' = (False, False))"
  by (rule slip_encode_decode [OF _ _ slip_ready_init]) (simp_all add: slip_init_def codec_flags_def)

end
