(* ===== verification/EM_Messages.thy ===== *)
theory EM_Messages
  imports EM_Prelude
begin

section \<open>The messages of the TCP protocol (em_tcp_protocol/messages.h)\<close>

text \<open>
  One record per structure, with the members in the order of the source; a member is named after
  its structure. A signed member is the word with the same bits. An array is the list of its
  elements, and a \<open>time_t\<close> has 64 bits. \<open>X_msg_zero\<close> is the value \<open>{0}\<close>, \<open>X_msg_sizeof\<close> the
  \<open>sizeof\<close> of the structure on the target.
\<close>

subsection \<open>Message types\<close>

abbreviation MSGTYPE_INVALID :: u16 where "MSGTYPE_INVALID \<equiv> 0"
abbreviation MSGTYPE_CLIENT_INFO :: u16 where "MSGTYPE_CLIENT_INFO \<equiv> 1"
abbreviation MSGTYPE_CONNECTION_STATUS :: u16 where "MSGTYPE_CONNECTION_STATUS \<equiv> 0x02"
abbreviation MSGTYPE_REBOOT :: u16 where "MSGTYPE_REBOOT \<equiv> 0x10"
abbreviation MSGTYPE_FACTORY_RESET :: u16 where "MSGTYPE_FACTORY_RESET \<equiv> 0x11"
abbreviation MSGTYPE_IDENTIFY :: u16 where "MSGTYPE_IDENTIFY \<equiv> 0x13"
abbreviation MSGTYPE_UPDATE_INSTALLEDFW :: u16 where "MSGTYPE_UPDATE_INSTALLEDFW \<equiv> 0x20"
abbreviation MSGTYPE_UPDATE_START :: u16 where "MSGTYPE_UPDATE_START \<equiv> 0x21"
abbreviation MSGTYPE_UPDATE_INSTALL :: u16 where "MSGTYPE_UPDATE_INSTALL \<equiv> 0x22"
abbreviation MSGTYPE_UPDATE_STATUS :: u16 where "MSGTYPE_UPDATE_STATUS \<equiv> 0x23"
abbreviation MSGTYPE_UPDATE_STOP :: u16 where "MSGTYPE_UPDATE_STOP \<equiv> 0x24"
abbreviation MSGTYPE_WIRELESS_ENABLE :: u16 where "MSGTYPE_WIRELESS_ENABLE \<equiv> 0x30"
abbreviation MSGTYPE_WIRELESS_STATUS :: u16 where "MSGTYPE_WIRELESS_STATUS \<equiv> 0x31"
abbreviation MSGTYPE_WIRELESS_SET_CREDENTIALS :: u16 where "MSGTYPE_WIRELESS_SET_CREDENTIALS \<equiv> 0x32"
abbreviation MSGTYPE_WIRELESS_CREDENTIALS :: u16 where "MSGTYPE_WIRELESS_CREDENTIALS \<equiv> 0x33"
abbreviation MSGTYPE_WIRELESS_SET_TX_POWER :: u16 where "MSGTYPE_WIRELESS_SET_TX_POWER \<equiv> 0x34"
abbreviation MSGTYPE_WIRELESS_TX_POWER :: u16 where "MSGTYPE_WIRELESS_TX_POWER \<equiv> 0x35"
abbreviation MSGTYPE_WIRELESS_SET_CHANNEL :: u16 where "MSGTYPE_WIRELESS_SET_CHANNEL \<equiv> 0x36"
abbreviation MSGTYPE_WIRELESS_CHANNEL :: u16 where "MSGTYPE_WIRELESS_CHANNEL \<equiv> 0x37"
abbreviation MSGTYPE_ENERGYPRICE_DAY_GET :: u16 where "MSGTYPE_ENERGYPRICE_DAY_GET \<equiv> 0x42"
abbreviation MSGTYPE_ENERGYPRICE_DAY :: u16 where "MSGTYPE_ENERGYPRICE_DAY \<equiv> 0x43"
abbreviation MSGTYPE_ENERGYPRICE_SET_PRICE_THRESHOLD :: u16 where "MSGTYPE_ENERGYPRICE_SET_PRICE_THRESHOLD \<equiv> 0x46"
abbreviation MSGTYPE_ENERGYPRICE_PRICE_THRESHOLD :: u16 where "MSGTYPE_ENERGYPRICE_PRICE_THRESHOLD \<equiv> 0x47"
abbreviation MSGTYPE_ENERGYPRICE_SET_CHEAP_PERIOD :: u16 where "MSGTYPE_ENERGYPRICE_SET_CHEAP_PERIOD \<equiv> 0x48"
abbreviation MSGTYPE_ENERGYPRICE_CHEAP_PERIOD :: u16 where "MSGTYPE_ENERGYPRICE_CHEAP_PERIOD \<equiv> 0x49"
abbreviation MSGTYPE_ENERGYPRICE_ACTIVE_PRICE_LIMIT :: u16 where "MSGTYPE_ENERGYPRICE_ACTIVE_PRICE_LIMIT \<equiv> 0x4b"
abbreviation MSGTYPE_ENERGYPRICE_SET_TARIFF :: u16 where "MSGTYPE_ENERGYPRICE_SET_TARIFF \<equiv> 0x4c"
abbreviation MSGTYPE_ENERGYPRICE_TARIFF :: u16 where "MSGTYPE_ENERGYPRICE_TARIFF \<equiv> 0x4d"
abbreviation MSGTYPE_RELAY_SET_MODE :: u16 where "MSGTYPE_RELAY_SET_MODE \<equiv> 0x50"
abbreviation MSGTYPE_RELAY_MODE :: u16 where "MSGTYPE_RELAY_MODE \<equiv> 0x51"
abbreviation MSGTYPE_RELAY_SET_STATE :: u16 where "MSGTYPE_RELAY_SET_STATE \<equiv> 0x52"
abbreviation MSGTYPE_RELAY_STATE :: u16 where "MSGTYPE_RELAY_STATE \<equiv> 0x53"
abbreviation MSGTYPE_RELAY_SET_DEFAULT_STATE :: u16 where "MSGTYPE_RELAY_SET_DEFAULT_STATE \<equiv> 0x54"
abbreviation MSGTYPE_RELAY_DEFAULT_STATE :: u16 where "MSGTYPE_RELAY_DEFAULT_STATE \<equiv> 0x55"
abbreviation MSGTYPE_RELAY_SET_PWM :: u16 where "MSGTYPE_RELAY_SET_PWM \<equiv> 0x56"
abbreviation MSGTYPE_RELAY_PWM :: u16 where "MSGTYPE_RELAY_PWM \<equiv> 0x57"
abbreviation MSGTYPE_RELAY_SET_INVERTED_OUTPUT :: u16 where "MSGTYPE_RELAY_SET_INVERTED_OUTPUT \<equiv> 0x58"
abbreviation MSGTYPE_RELAY_INVERTED_OUTPUT :: u16 where "MSGTYPE_RELAY_INVERTED_OUTPUT \<equiv> 0x59"
abbreviation MSGTYPE_RELAY_SET_BUTTON_CONFIG :: u16 where "MSGTYPE_RELAY_SET_BUTTON_CONFIG \<equiv> 0x5a"
abbreviation MSGTYPE_RELAY_BUTTON_CONFIG :: u16 where "MSGTYPE_RELAY_BUTTON_CONFIG \<equiv> 0x5b"
abbreviation MSGTYPE_RELAY_SET_SCHEDULE :: u16 where "MSGTYPE_RELAY_SET_SCHEDULE \<equiv> 0x5c"
abbreviation MSGTYPE_RELAY_SCHEDULE :: u16 where "MSGTYPE_RELAY_SCHEDULE \<equiv> 0x5d"
abbreviation MSGTYPE_RELAY_SET_ONE_SHOT :: u16 where "MSGTYPE_RELAY_SET_ONE_SHOT \<equiv> 0x5e"
abbreviation MSGTYPE_RELAY_ONE_SHOT :: u16 where "MSGTYPE_RELAY_ONE_SHOT \<equiv> 0x5f"
abbreviation MSGTYPE_RELAY_SNAPSHOTS :: u16 where "MSGTYPE_RELAY_SNAPSHOTS \<equiv> 0x61"
abbreviation MSGTYPE_ENVIRONMENT_SET_SUNNY_TIME :: u16 where "MSGTYPE_ENVIRONMENT_SET_SUNNY_TIME \<equiv> 0x70"
abbreviation MSGTYPE_ENVIRONMENT_SUNNY_TIME :: u16 where "MSGTYPE_ENVIRONMENT_SUNNY_TIME \<equiv> 0x71"
abbreviation MSGTYPE_ENVIRONMENT_SET_CLOUD_COVER :: u16 where "MSGTYPE_ENVIRONMENT_SET_CLOUD_COVER \<equiv> 0x72"
abbreviation MSGTYPE_ENVIRONMENT_CLOUD_COVER :: u16 where "MSGTYPE_ENVIRONMENT_CLOUD_COVER \<equiv> 0x73"
abbreviation MSGTYPE_ENVIRONMENT_SET_POSITION :: u16 where "MSGTYPE_ENVIRONMENT_SET_POSITION \<equiv> 0x74"
abbreviation MSGTYPE_ENVIRONMENT_POSITION :: u16 where "MSGTYPE_ENVIRONMENT_POSITION \<equiv> 0x75"
abbreviation MSGTYPE_BMS_SOC :: u16 where "MSGTYPE_BMS_SOC \<equiv> 0xA5"
abbreviation MSGTYPE_BMS_CYCLES :: u16 where "MSGTYPE_BMS_CYCLES \<equiv> 0xAB"
abbreviation MSGTYPE_METER_MEASUREMENT :: u16 where "MSGTYPE_METER_MEASUREMENT \<equiv> 0xB0"
abbreviation MSGTYPE_METER_MEASUREMENT_HISTORY :: u16 where "MSGTYPE_METER_MEASUREMENT_HISTORY \<equiv> 0xB1"
abbreviation MSGTYPE_METER_SET_CURRENT_LIMIT :: u16 where "MSGTYPE_METER_SET_CURRENT_LIMIT \<equiv> 0xB2"
abbreviation MSGTYPE_METER_CURRENT_LIMIT :: u16 where "MSGTYPE_METER_CURRENT_LIMIT \<equiv> 0xB3"
abbreviation MSGTYPE_METER_CLEAR_ALARMS :: u16 where "MSGTYPE_METER_CLEAR_ALARMS \<equiv> 0xB4"
abbreviation MSGTYPE_METER_ALARMS :: u16 where "MSGTYPE_METER_ALARMS \<equiv> 0xB5"
abbreviation MSGTYPE_ENERGY_ACCUMULATED :: u16 where "MSGTYPE_ENERGY_ACCUMULATED \<equiv> 0xC0"
abbreviation MSGTYPE_ENERGY_HISTORY :: u16 where "MSGTYPE_ENERGY_HISTORY \<equiv> 0xC1"
abbreviation MSGTYPE_DIAG_COREDUMP_START :: u16 where "MSGTYPE_DIAG_COREDUMP_START \<equiv> 0xD0"
abbreviation MSGTYPE_DIAG_COREDUMP_BODY :: u16 where "MSGTYPE_DIAG_COREDUMP_BODY \<equiv> 0xD1"
abbreviation MSGTYPE_DIAG_COREDUMP_END :: u16 where "MSGTYPE_DIAG_COREDUMP_END \<equiv> 0xD2"
abbreviation MSGTYPE_DIAG_COREDUMP_CONFIRMED :: u16 where "MSGTYPE_DIAG_COREDUMP_CONFIRMED \<equiv> 0xD3"
abbreviation MSGTYPE_DIAG_DEBUG_INFO :: u16 where "MSGTYPE_DIAG_DEBUG_INFO \<equiv> 0xD4"
abbreviation MSGTYPE_DIAG_SET_LOGS_SETTINGS :: u16 where "MSGTYPE_DIAG_SET_LOGS_SETTINGS \<equiv> 0xD6"
abbreviation MSGTYPE_DIAG_LOGS_SETTINGS :: u16 where "MSGTYPE_DIAG_LOGS_SETTINGS \<equiv> 0xD7"
abbreviation MSGTYPE_STATUS :: u16 where "MSGTYPE_STATUS \<equiv> 0xF0"
abbreviation MSGTYPE_GET :: u16 where "MSGTYPE_GET \<equiv> 0xF1"

subsection \<open>Structures\<close>

record client_info_msg_t =
  client_info_type :: u16
  client_info_dev_type :: u16
  client_info_dev_id :: u64
  client_info_unique_id :: u32
  client_info_ip_addr :: u32
  client_info_hw_ver :: u8
  client_info_app_ver :: u32
  client_info_reconn_reason :: u8
  client_info_reset_reason :: u8
  client_info_reserved :: u8
  client_info_session_id :: u16
  client_info_CRC :: u32

definition client_info_msg_zero :: client_info_msg_t where
  "client_info_msg_zero =
    \<lparr>client_info_type = 0, client_info_dev_type = 0, client_info_dev_id = 0,
     client_info_unique_id = 0, client_info_ip_addr = 0, client_info_hw_ver = 0,
     client_info_app_ver = 0, client_info_reconn_reason = 0, client_info_reset_reason = 0,
     client_info_reserved = 0, client_info_session_id = 0, client_info_CRC = 0\<rparr>"

definition client_info_msg_sizeof :: nat where
  "client_info_msg_sizeof = packed_sizeof [C16, C16, C64, C32, C32, C8, C32, C8, C8, C8, C16, C32]"

record connection_status_msg_t =
  connection_status_type :: u16
  connection_status_dev_id :: u64
  connection_status_unique_id :: u32
  connection_status_reserved :: u16
  connection_status_session_id :: u16
  connection_status_CRC :: u32

definition connection_status_msg_zero :: connection_status_msg_t where
  "connection_status_msg_zero =
    \<lparr>connection_status_type = 0, connection_status_dev_id = 0, connection_status_unique_id
     = 0, connection_status_reserved = 0, connection_status_session_id = 0,
     connection_status_CRC = 0\<rparr>"

definition connection_status_msg_sizeof :: nat where
  "connection_status_msg_sizeof = struct_sizeof [C16, C64, C32, C16, C16, C32]"

record identify_msg_t =
  identify_type :: u16
  identify_mode :: u8
  identify_count :: u8

definition identify_msg_zero :: identify_msg_t where
  "identify_msg_zero =
    \<lparr>identify_type = 0, identify_mode = 0, identify_count = 0\<rparr>"

definition identify_msg_sizeof :: nat where
  "identify_msg_sizeof = struct_sizeof [C16, C8, C8]"

record installed_fw_msg_t =
  installed_fw_type :: u16
  installed_fw_inst_fw_ver :: u32
  installed_fw_downloaded_fw_ver :: u32
  installed_fw_hw_ver :: u8
  installed_fw_build_time :: u64

definition installed_fw_msg_zero :: installed_fw_msg_t where
  "installed_fw_msg_zero =
    \<lparr>installed_fw_type = 0, installed_fw_inst_fw_ver = 0, installed_fw_downloaded_fw_ver =
     0, installed_fw_hw_ver = 0, installed_fw_build_time = 0\<rparr>"

definition installed_fw_msg_sizeof :: nat where
  "installed_fw_msg_sizeof = struct_sizeof [C16, C32, C32, C8, C64]"

record update_start_msg_t =
  update_start_type :: u16
  update_start_dev_type :: u16
  update_start_hw_ver :: u8
  update_start_fw_ver :: u32
  update_start_img_size :: u32
  update_start_CRC :: u32
  update_start_update_policy :: u8
  update_start_img_url_len :: u16
  update_start_img_url :: bytes

definition update_start_msg_zero :: update_start_msg_t where
  "update_start_msg_zero =
    \<lparr>update_start_type = 0, update_start_dev_type = 0, update_start_hw_ver = 0,
     update_start_fw_ver = 0, update_start_img_size = 0, update_start_CRC = 0,
     update_start_update_policy = 0, update_start_img_url_len = 0, update_start_img_url =
     replicate 129 0\<rparr>"

definition update_start_msg_sizeof :: nat where
  "update_start_msg_sizeof = struct_sizeof [C16, C16, C8, C32, C32, C32, C8, C16, CArr C8 129]"

record update_status_msg_t =
  update_status_type :: u16
  update_status_fw_ver :: u32
  update_status_progress :: u8
  update_status_phase :: u8
  update_status_error :: u8

definition update_status_msg_zero :: update_status_msg_t where
  "update_status_msg_zero =
    \<lparr>update_status_type = 0, update_status_fw_ver = 0, update_status_progress = 0,
     update_status_phase = 0, update_status_error = 0\<rparr>"

definition update_status_msg_sizeof :: nat where
  "update_status_msg_sizeof = struct_sizeof [C16, C32, C8, C8, C8]"

record update_install_msg_t =
  update_install_type :: u16
  update_install_fw_ver :: u32
  update_install_delay :: u32

definition update_install_msg_zero :: update_install_msg_t where
  "update_install_msg_zero =
    \<lparr>update_install_type = 0, update_install_fw_ver = 0, update_install_delay = 0\<rparr>"

definition update_install_msg_sizeof :: nat where
  "update_install_msg_sizeof = struct_sizeof [C16, C32, C32]"

record update_stop_msg_t =
  update_stop_type :: u16

definition update_stop_msg_zero :: update_stop_msg_t where
  "update_stop_msg_zero =
    \<lparr>update_stop_type = 0\<rparr>"

definition update_stop_msg_sizeof :: nat where
  "update_stop_msg_sizeof = struct_sizeof [C16]"

record meter_current_limit_msg_t =
  meter_current_limit_type :: u16
  meter_current_limit_limit :: i32

definition meter_current_limit_msg_zero :: meter_current_limit_msg_t where
  "meter_current_limit_msg_zero =
    \<lparr>meter_current_limit_type = 0, meter_current_limit_limit = 0\<rparr>"

definition meter_current_limit_msg_sizeof :: nat where
  "meter_current_limit_msg_sizeof = struct_sizeof [C16, C32]"

record meter_alarms_msg_t =
  meter_alarms_type :: u16
  meter_alarms_mask :: u64

definition meter_alarms_msg_zero :: meter_alarms_msg_t where
  "meter_alarms_msg_zero =
    \<lparr>meter_alarms_type = 0, meter_alarms_mask = 0\<rparr>"

definition meter_alarms_msg_sizeof :: nat where
  "meter_alarms_msg_sizeof = struct_sizeof [C16, C64]"

record energy_price_day_msg_t =
  energy_price_day_type :: u16
  energy_price_day_tariff :: u16
  energy_price_day_day_time :: i64
  energy_price_day_price_factor :: i8
  energy_price_day_prices_len :: u16
  energy_price_day_prices :: "i16 list"

definition energy_price_day_msg_zero :: energy_price_day_msg_t where
  "energy_price_day_msg_zero =
    \<lparr>energy_price_day_type = 0, energy_price_day_tariff = 0, energy_price_day_day_time = 0,
     energy_price_day_price_factor = 0, energy_price_day_prices_len = 0,
     energy_price_day_prices = replicate 96 0\<rparr>"

definition energy_price_day_msg_sizeof :: nat where
  "energy_price_day_msg_sizeof = struct_sizeof [C16, C16, C64, C8, C16, CArr C16 96]"

record energy_price_day_get_msg_t =
  energy_price_day_get_type :: u16
  energy_price_day_get_tariff :: u16
  energy_price_day_get_day_time :: i64

definition energy_price_day_get_msg_zero :: energy_price_day_get_msg_t where
  "energy_price_day_get_msg_zero =
    \<lparr>energy_price_day_get_type = 0, energy_price_day_get_tariff = 0,
     energy_price_day_get_day_time = 0\<rparr>"

definition energy_price_day_get_msg_sizeof :: nat where
  "energy_price_day_get_msg_sizeof = struct_sizeof [C16, C16, C64]"

record energy_price_now_msg_t =
  energy_price_now_type :: u16
  energy_price_now_price :: i32
  energy_price_now_next :: u16

definition energy_price_now_msg_zero :: energy_price_now_msg_t where
  "energy_price_now_msg_zero =
    \<lparr>energy_price_now_type = 0, energy_price_now_price = 0, energy_price_now_next = 0\<rparr>"

definition energy_price_now_msg_sizeof :: nat where
  "energy_price_now_msg_sizeof = struct_sizeof [C16, C32, C16]"

record energy_price_threshold_msg_t =
  energy_price_threshold_type :: u16
  energy_price_threshold_price :: i32

definition energy_price_threshold_msg_zero :: energy_price_threshold_msg_t where
  "energy_price_threshold_msg_zero =
    \<lparr>energy_price_threshold_type = 0, energy_price_threshold_price = 0\<rparr>"

definition energy_price_threshold_msg_sizeof :: nat where
  "energy_price_threshold_msg_sizeof = struct_sizeof [C16, C32]"

record energy_price_cheap_period_msg_t =
  energy_price_cheap_period_type :: u16
  energy_price_cheap_period_quarters :: u8

definition energy_price_cheap_period_msg_zero :: energy_price_cheap_period_msg_t where
  "energy_price_cheap_period_msg_zero =
    \<lparr>energy_price_cheap_period_type = 0, energy_price_cheap_period_quarters = 0\<rparr>"

definition energy_price_cheap_period_msg_sizeof :: nat where
  "energy_price_cheap_period_msg_sizeof = struct_sizeof [C16, C8]"

record energy_price_active_price_limit_msg_t =
  energy_price_active_price_limit_type :: u16
  energy_price_active_price_limit_price :: i32

definition energy_price_active_price_limit_msg_zero :: energy_price_active_price_limit_msg_t where
  "energy_price_active_price_limit_msg_zero =
    \<lparr>energy_price_active_price_limit_type = 0, energy_price_active_price_limit_price = 0\<rparr>"

definition energy_price_active_price_limit_msg_sizeof :: nat where
  "energy_price_active_price_limit_msg_sizeof = struct_sizeof [C16, C32]"

record energy_price_tariff_msg_t =
  energy_price_tariff_type :: u16
  energy_price_tariff_tariff :: u16

definition energy_price_tariff_msg_zero :: energy_price_tariff_msg_t where
  "energy_price_tariff_msg_zero =
    \<lparr>energy_price_tariff_type = 0, energy_price_tariff_tariff = 0\<rparr>"

definition energy_price_tariff_msg_sizeof :: nat where
  "energy_price_tariff_msg_sizeof = struct_sizeof [C16, C16]"

record wireless_enable_msg_t =
  wireless_enable_type :: u16
  wireless_enable_protocol :: u8
  wireless_enable_enabled :: u8

definition wireless_enable_msg_zero :: wireless_enable_msg_t where
  "wireless_enable_msg_zero =
    \<lparr>wireless_enable_type = 0, wireless_enable_protocol = 0, wireless_enable_enabled = 0\<rparr>"

definition wireless_enable_msg_sizeof :: nat where
  "wireless_enable_msg_sizeof = struct_sizeof [C16, C8, C8]"

record wireless_status_msg_t =
  wireless_status_type :: u16
  wireless_status_protocol :: u8
  wireless_status_enabled :: u8
  wireless_status_ip_addr :: u32
  wireless_status_rssi :: i8
  wireless_status_lqi :: u8

definition wireless_status_msg_zero :: wireless_status_msg_t where
  "wireless_status_msg_zero =
    \<lparr>wireless_status_type = 0, wireless_status_protocol = 0, wireless_status_enabled = 0,
     wireless_status_ip_addr = 0, wireless_status_rssi = 0, wireless_status_lqi = 0\<rparr>"

definition wireless_status_msg_sizeof :: nat where
  "wireless_status_msg_sizeof = struct_sizeof [C16, C8, C8, C32, C8, C8]"

record wireless_credentials_msg_t =
  wireless_credentials_type :: u16
  wireless_credentials_protocol :: u8
  wireless_credentials_network_len :: u16
  wireless_credentials_network :: bytes
  wireless_credentials_password_len :: u16
  wireless_credentials_password :: bytes

definition wireless_credentials_msg_zero :: wireless_credentials_msg_t where
  "wireless_credentials_msg_zero =
    \<lparr>wireless_credentials_type = 0, wireless_credentials_protocol = 0,
     wireless_credentials_network_len = 0, wireless_credentials_network = replicate 32 0,
     wireless_credentials_password_len = 0, wireless_credentials_password = replicate 64 0\<rparr>"

definition wireless_credentials_msg_sizeof :: nat where
  "wireless_credentials_msg_sizeof = struct_sizeof [C16, C8, C16, CArr C8 32, C16, CArr C8 64]"

record wireless_tx_power_msg_t =
  wireless_tx_power_type :: u16
  wireless_tx_power_protocol :: u8
  wireless_tx_power_tx_power :: i16

definition wireless_tx_power_msg_zero :: wireless_tx_power_msg_t where
  "wireless_tx_power_msg_zero =
    \<lparr>wireless_tx_power_type = 0, wireless_tx_power_protocol = 0, wireless_tx_power_tx_power
     = 0\<rparr>"

definition wireless_tx_power_msg_sizeof :: nat where
  "wireless_tx_power_msg_sizeof = struct_sizeof [C16, C8, C16]"

record wireless_channel_msg_t =
  wireless_channel_type :: u16
  wireless_channel_protocol :: u8
  wireless_channel_channel :: u8

definition wireless_channel_msg_zero :: wireless_channel_msg_t where
  "wireless_channel_msg_zero =
    \<lparr>wireless_channel_type = 0, wireless_channel_protocol = 0, wireless_channel_channel = 0\<rparr>"

definition wireless_channel_msg_sizeof :: nat where
  "wireless_channel_msg_sizeof = struct_sizeof [C16, C8, C8]"

record relay_mode_msg_t =
  relay_mode_type :: u16
  relay_mode_mode :: u8

definition relay_mode_msg_zero :: relay_mode_msg_t where
  "relay_mode_msg_zero =
    \<lparr>relay_mode_type = 0, relay_mode_mode = 0\<rparr>"

definition relay_mode_msg_sizeof :: nat where
  "relay_mode_msg_sizeof = struct_sizeof [C16, C8]"

record relay_state_msg_t =
  relay_state_type :: u16
  relay_state_state :: u8

definition relay_state_msg_zero :: relay_state_msg_t where
  "relay_state_msg_zero =
    \<lparr>relay_state_type = 0, relay_state_state = 0\<rparr>"

definition relay_state_msg_sizeof :: nat where
  "relay_state_msg_sizeof = struct_sizeof [C16, C8]"

record relay_default_state_msg_t =
  relay_default_state_type :: u16
  relay_default_state_state :: u8

definition relay_default_state_msg_zero :: relay_default_state_msg_t where
  "relay_default_state_msg_zero =
    \<lparr>relay_default_state_type = 0, relay_default_state_state = 0\<rparr>"

definition relay_default_state_msg_sizeof :: nat where
  "relay_default_state_msg_sizeof = struct_sizeof [C16, C8]"

record relay_pwm_msg_t =
  relay_pwm_type :: u16
  relay_pwm_enabled :: u8
  relay_pwm_period :: u16
  relay_pwm_duty_cycle :: u8

definition relay_pwm_msg_zero :: relay_pwm_msg_t where
  "relay_pwm_msg_zero =
    \<lparr>relay_pwm_type = 0, relay_pwm_enabled = 0, relay_pwm_period = 0, relay_pwm_duty_cycle
     = 0\<rparr>"

definition relay_pwm_msg_sizeof :: nat where
  "relay_pwm_msg_sizeof = struct_sizeof [C16, C8, C16, C8]"

record relay_inverted_output_msg_t =
  relay_inverted_output_type :: u16
  relay_inverted_output_inverted :: u8

definition relay_inverted_output_msg_zero :: relay_inverted_output_msg_t where
  "relay_inverted_output_msg_zero =
    \<lparr>relay_inverted_output_type = 0, relay_inverted_output_inverted = 0\<rparr>"

definition relay_inverted_output_msg_sizeof :: nat where
  "relay_inverted_output_msg_sizeof = struct_sizeof [C16, C8]"

record relay_one_shot_msg_t =
  relay_one_shot_type :: u16
  relay_one_shot_enabled :: u8
  relay_one_shot_start :: i64
  relay_one_shot_end :: i64
  relay_one_shot_state :: u8

definition relay_one_shot_msg_zero :: relay_one_shot_msg_t where
  "relay_one_shot_msg_zero =
    \<lparr>relay_one_shot_type = 0, relay_one_shot_enabled = 0, relay_one_shot_start = 0,
     relay_one_shot_end = 0, relay_one_shot_state = 0\<rparr>"

definition relay_one_shot_msg_sizeof :: nat where
  "relay_one_shot_msg_sizeof = struct_sizeof [C16, C8, C64, C64, C8]"

record relay_button_config_msg_t =
  relay_button_config_type :: u16
  relay_button_config_mode_len :: u16
  relay_button_config_modes :: bytes

definition relay_button_config_msg_zero :: relay_button_config_msg_t where
  "relay_button_config_msg_zero =
    \<lparr>relay_button_config_type = 0, relay_button_config_mode_len = 0,
     relay_button_config_modes = replicate 6 0\<rparr>"

definition relay_button_config_msg_sizeof :: nat where
  "relay_button_config_msg_sizeof = struct_sizeof [C16, C16, CArr C8 6]"

record relay_schedule_msg_t =
  relay_schedule_type :: u16
  relay_schedule_schedule_len :: u16
  relay_schedule_schedule :: bytes

definition relay_schedule_msg_zero :: relay_schedule_msg_t where
  "relay_schedule_msg_zero =
    \<lparr>relay_schedule_type = 0, relay_schedule_schedule_len = 0, relay_schedule_schedule =
     replicate 84 0\<rparr>"

definition relay_schedule_msg_sizeof :: nat where
  "relay_schedule_msg_sizeof = struct_sizeof [C16, C16, CArr C8 84]"

record environment_sunny_time_msg_t =
  environment_sunny_time_type :: u16
  environment_sunny_time_percentage :: u8

definition environment_sunny_time_msg_zero :: environment_sunny_time_msg_t where
  "environment_sunny_time_msg_zero =
    \<lparr>environment_sunny_time_type = 0, environment_sunny_time_percentage = 0\<rparr>"

definition environment_sunny_time_msg_sizeof :: nat where
  "environment_sunny_time_msg_sizeof = struct_sizeof [C16, C8]"

record environment_cloud_cover_msg_t =
  environment_cloud_cover_type :: u16
  environment_cloud_cover_ref_timestamp :: i64
  environment_cloud_cover_period :: u16
  environment_cloud_cover_percentage_len :: u16
  environment_cloud_cover_percentage :: "u16 list"

definition environment_cloud_cover_msg_zero :: environment_cloud_cover_msg_t where
  "environment_cloud_cover_msg_zero =
    \<lparr>environment_cloud_cover_type = 0, environment_cloud_cover_ref_timestamp = 0,
     environment_cloud_cover_period = 0, environment_cloud_cover_percentage_len = 0,
     environment_cloud_cover_percentage = replicate 96 0\<rparr>"

definition environment_cloud_cover_msg_sizeof :: nat where
  "environment_cloud_cover_msg_sizeof = struct_sizeof [C16, C64, C16, C16, CArr C16 96]"

record environment_position_msg_t =
  environment_position_type :: u16
  environment_position_latitude :: i64
  environment_position_longitude :: i64

definition environment_position_msg_zero :: environment_position_msg_t where
  "environment_position_msg_zero =
    \<lparr>environment_position_type = 0, environment_position_latitude = 0,
     environment_position_longitude = 0\<rparr>"

definition environment_position_msg_sizeof :: nat where
  "environment_position_msg_sizeof = struct_sizeof [C16, C64, C64]"

record diag_coredump_start_msg_t =
  diag_coredump_start_type :: u16
  diag_coredump_start_coredump_version :: u32
  diag_coredump_start_numeric_app_version :: u32

definition diag_coredump_start_msg_zero :: diag_coredump_start_msg_t where
  "diag_coredump_start_msg_zero =
    \<lparr>diag_coredump_start_type = 0, diag_coredump_start_coredump_version = 0,
     diag_coredump_start_numeric_app_version = 0\<rparr>"

definition diag_coredump_start_msg_sizeof :: nat where
  "diag_coredump_start_msg_sizeof = struct_sizeof [C16, C32, C32]"

record diag_coredump_body_msg_t =
  diag_coredump_body_type :: u16
  diag_coredump_body_coredump_version :: u32
  diag_coredump_body_block_len :: u16
  diag_coredump_body_block_data :: bytes

definition diag_coredump_body_msg_zero :: diag_coredump_body_msg_t where
  "diag_coredump_body_msg_zero =
    \<lparr>diag_coredump_body_type = 0, diag_coredump_body_coredump_version = 0,
     diag_coredump_body_block_len = 0, diag_coredump_body_block_data = replicate 1024 0\<rparr>"

definition diag_coredump_body_msg_sizeof :: nat where
  "diag_coredump_body_msg_sizeof = struct_sizeof [C16, C32, C16, CArr C8 1024]"

record diag_coredump_end_msg_t =
  diag_coredump_end_type :: u16
  diag_coredump_end_coredump_version :: u32

definition diag_coredump_end_msg_zero :: diag_coredump_end_msg_t where
  "diag_coredump_end_msg_zero =
    \<lparr>diag_coredump_end_type = 0, diag_coredump_end_coredump_version = 0\<rparr>"

definition diag_coredump_end_msg_sizeof :: nat where
  "diag_coredump_end_msg_sizeof = struct_sizeof [C16, C32]"

record diag_debug_info_msg_t =
  diag_debug_info_type :: u16
  diag_debug_info_len :: u16
  diag_debug_info_data :: bytes

definition diag_debug_info_msg_zero :: diag_debug_info_msg_t where
  "diag_debug_info_msg_zero =
    \<lparr>diag_debug_info_type = 0, diag_debug_info_len = 0, diag_debug_info_data = replicate
     1024 0\<rparr>"

definition diag_debug_info_msg_sizeof :: nat where
  "diag_debug_info_msg_sizeof = struct_sizeof [C16, C16, CArr C8 1024]"

record diag_logs_settings_msg_t =
  diag_logs_settings_type :: u16
  diag_logs_settings_medium :: u8
  diag_logs_settings_level_modules :: "u64 list"

definition diag_logs_settings_msg_zero :: diag_logs_settings_msg_t where
  "diag_logs_settings_msg_zero =
    \<lparr>diag_logs_settings_type = 0, diag_logs_settings_medium = 0,
     diag_logs_settings_level_modules = replicate 6 0\<rparr>"

definition diag_logs_settings_msg_sizeof :: nat where
  "diag_logs_settings_msg_sizeof = struct_sizeof [C16, C8, CArr C64 6]"

record diag_set_logs_settings_msg_t =
  diag_set_logs_settings_type :: u16
  diag_set_logs_settings_medium :: u8
  diag_set_logs_settings_level :: u8
  diag_set_logs_settings_modules :: u64

definition diag_set_logs_settings_msg_zero :: diag_set_logs_settings_msg_t where
  "diag_set_logs_settings_msg_zero =
    \<lparr>diag_set_logs_settings_type = 0, diag_set_logs_settings_medium = 0,
     diag_set_logs_settings_level = 0, diag_set_logs_settings_modules = 0\<rparr>"

definition diag_set_logs_settings_msg_sizeof :: nat where
  "diag_set_logs_settings_msg_sizeof = struct_sizeof [C16, C8, C8, C64]"

record status_msg_t =
  status_type :: u16
  status_error :: u8
  status_rq_type :: u16

definition status_msg_zero :: status_msg_t where
  "status_msg_zero =
    \<lparr>status_type = 0, status_error = 0, status_rq_type = 0\<rparr>"

definition status_msg_sizeof :: nat where
  "status_msg_sizeof = struct_sizeof [C16, C8, C16]"

record get_msg_t =
  get_type :: u16
  get_rq_type :: u16
  get_param :: u32

definition get_msg_zero :: get_msg_t where
  "get_msg_zero =
    \<lparr>get_type = 0, get_rq_type = 0, get_param = 0\<rparr>"

definition get_msg_sizeof :: nat where
  "get_msg_sizeof = struct_sizeof [C16, C16, C32]"

lemmas msg_zero_defs =
  client_info_msg_zero_def connection_status_msg_zero_def identify_msg_zero_def
  installed_fw_msg_zero_def update_start_msg_zero_def update_status_msg_zero_def
  update_install_msg_zero_def update_stop_msg_zero_def meter_current_limit_msg_zero_def
  meter_alarms_msg_zero_def energy_price_day_msg_zero_def energy_price_day_get_msg_zero_def
  energy_price_now_msg_zero_def energy_price_threshold_msg_zero_def
  energy_price_cheap_period_msg_zero_def energy_price_active_price_limit_msg_zero_def
  energy_price_tariff_msg_zero_def wireless_enable_msg_zero_def wireless_status_msg_zero_def
  wireless_credentials_msg_zero_def wireless_tx_power_msg_zero_def
  wireless_channel_msg_zero_def relay_mode_msg_zero_def relay_state_msg_zero_def
  relay_default_state_msg_zero_def relay_pwm_msg_zero_def relay_inverted_output_msg_zero_def
  relay_one_shot_msg_zero_def relay_button_config_msg_zero_def relay_schedule_msg_zero_def
  environment_sunny_time_msg_zero_def environment_cloud_cover_msg_zero_def
  environment_position_msg_zero_def diag_coredump_start_msg_zero_def
  diag_coredump_body_msg_zero_def diag_coredump_end_msg_zero_def
  diag_debug_info_msg_zero_def diag_logs_settings_msg_zero_def
  diag_set_logs_settings_msg_zero_def status_msg_zero_def get_msg_zero_def

lemmas sizeof_defs =
  struct_sizeof_def struct_end_def packed_sizeof_def align_up_def
  client_info_msg_sizeof_def connection_status_msg_sizeof_def identify_msg_sizeof_def
  installed_fw_msg_sizeof_def update_start_msg_sizeof_def update_status_msg_sizeof_def
  update_install_msg_sizeof_def update_stop_msg_sizeof_def
  meter_current_limit_msg_sizeof_def meter_alarms_msg_sizeof_def
  energy_price_day_msg_sizeof_def energy_price_day_get_msg_sizeof_def
  energy_price_now_msg_sizeof_def energy_price_threshold_msg_sizeof_def
  energy_price_cheap_period_msg_sizeof_def energy_price_active_price_limit_msg_sizeof_def
  energy_price_tariff_msg_sizeof_def wireless_enable_msg_sizeof_def
  wireless_status_msg_sizeof_def wireless_credentials_msg_sizeof_def
  wireless_tx_power_msg_sizeof_def wireless_channel_msg_sizeof_def relay_mode_msg_sizeof_def
  relay_state_msg_sizeof_def relay_default_state_msg_sizeof_def relay_pwm_msg_sizeof_def
  relay_inverted_output_msg_sizeof_def relay_one_shot_msg_sizeof_def
  relay_button_config_msg_sizeof_def relay_schedule_msg_sizeof_def
  environment_sunny_time_msg_sizeof_def environment_cloud_cover_msg_sizeof_def
  environment_position_msg_sizeof_def diag_coredump_start_msg_sizeof_def
  diag_coredump_body_msg_sizeof_def diag_coredump_end_msg_sizeof_def
  diag_debug_info_msg_sizeof_def diag_logs_settings_msg_sizeof_def
  diag_set_logs_settings_msg_sizeof_def status_msg_sizeof_def get_msg_sizeof_def

lemma msg_sizeofs [simp]:
  "client_info_msg_sizeof = 34"
  "connection_status_msg_sizeof = 32"
  "identify_msg_sizeof = 4"
  "installed_fw_msg_sizeof = 24"
  "update_start_msg_sizeof = 156"
  "update_status_msg_sizeof = 12"
  "update_install_msg_sizeof = 12"
  "update_stop_msg_sizeof = 2"
  "meter_current_limit_msg_sizeof = 8"
  "meter_alarms_msg_sizeof = 16"
  "energy_price_day_msg_sizeof = 216"
  "energy_price_day_get_msg_sizeof = 16"
  "energy_price_now_msg_sizeof = 12"
  "energy_price_threshold_msg_sizeof = 8"
  "energy_price_cheap_period_msg_sizeof = 4"
  "energy_price_active_price_limit_msg_sizeof = 8"
  "energy_price_tariff_msg_sizeof = 4"
  "wireless_enable_msg_sizeof = 4"
  "wireless_status_msg_sizeof = 12"
  "wireless_credentials_msg_sizeof = 104"
  "wireless_tx_power_msg_sizeof = 6"
  "wireless_channel_msg_sizeof = 4"
  "relay_mode_msg_sizeof = 4"
  "relay_state_msg_sizeof = 4"
  "relay_default_state_msg_sizeof = 4"
  "relay_pwm_msg_sizeof = 8"
  "relay_inverted_output_msg_sizeof = 4"
  "relay_one_shot_msg_sizeof = 32"
  "relay_button_config_msg_sizeof = 10"
  "relay_schedule_msg_sizeof = 88"
  "environment_sunny_time_msg_sizeof = 4"
  "environment_cloud_cover_msg_sizeof = 216"
  "environment_position_msg_sizeof = 24"
  "diag_coredump_start_msg_sizeof = 12"
  "diag_coredump_body_msg_sizeof = 1036"
  "diag_coredump_end_msg_sizeof = 8"
  "diag_debug_info_msg_sizeof = 1028"
  "diag_logs_settings_msg_sizeof = 56"
  "diag_set_logs_settings_msg_sizeof = 16"
  "status_msg_sizeof = 6"
  "get_msg_sizeof = 8"
  by code_simp+

end
