(* ===== verification/EM_Parser.thy ===== *)
theory EM_Parser
  imports EM_Messages
begin

section \<open>Parsing messages (em_tcp_protocol/parser.c)\<close>

text \<open>
  A reader takes the bytes at and after the read pointer and returns a value and the bytes after the
  moved pointer; a read of a byte that is not there is a fault. A parser gets the bytes of the
  message and the length its caller passed. \<open>msg = {0}\<close> with the type \<open>MSGTYPE_INVALID\<close> is the
  zero of the record. \<open>sizeof\<close> and \<open>ARRAY_LENGTH\<close> expressions are written with their values in the
  order of the source.
\<close>

subsection \<open>Readers\<close>

type_synonym 'a reader = "bytes \<Rightarrow> ('a \<times> bytes) outcome"

definition rd_return :: "'a \<Rightarrow> 'a reader" where
  "rd_return x = (\<lambda>bs. Inr (x, bs))"

definition rd_bind :: "'a reader \<Rightarrow> ('a \<Rightarrow> 'b reader) \<Rightarrow> 'b reader" where
  "rd_bind r f = (\<lambda>bs. obind (r bs) (\<lambda>(x, bs'). f x bs'))"

definition rd_assert :: "bool \<Rightarrow> 'a reader \<Rightarrow> 'a reader" where
  "rd_assert b r = (\<lambda>bs. c_assert b (r bs))"

fun rd_repeat :: "nat \<Rightarrow> 'a reader \<Rightarrow> 'a list reader" where
  "rd_repeat 0 r = rd_return []"
| "rd_repeat (Suc n) r = rd_bind r (\<lambda>x. rd_bind (rd_repeat n r) (\<lambda>xs. rd_return (x # xs)))"

definition rd_run :: "bytes \<Rightarrow> 'a reader \<Rightarrow> 'a outcome" where
  "rd_run buf r = obind (r buf) (\<lambda>(x, bs). Inr x)"

definition parse_uint8 :: "u8 reader" where
  "parse_uint8 buf = (if length buf < 1 then Inl OutOfBounds else Inr (buf ! 0, drop 1 buf))"

definition parse_int8 :: "i8 reader" where
  "parse_int8 buf = (if length buf < 1 then Inl OutOfBounds else Inr (buf ! 0, drop 1 buf))"

definition parse_uint16 :: "u16 reader" where
  "parse_uint16 buf =
     (if length buf < 2 then Inl OutOfBounds
      else Inr (ucast (buf ! 0) OR push_bit 8 (ucast (buf ! 1)), drop 2 buf))"

definition parse_int16 :: "i16 reader" where
  "parse_int16 buf =
     (if length buf < 2 then Inl OutOfBounds
      else Inr (ucast (buf ! 0) OR push_bit 8 (ucast (buf ! 1)), drop 2 buf))"

definition parse_uint32 :: "u32 reader" where
  "parse_uint32 buf =
     (if length buf < 4 then Inl OutOfBounds
      else Inr (ucast (buf ! 0) OR push_bit 8 (ucast (buf ! 1)) OR push_bit 16 (ucast (buf ! 2))
                OR push_bit 24 (ucast (buf ! 3)), drop 4 buf))"

definition parse_int32 :: "i32 reader" where
  "parse_int32 buf =
     (if length buf < 4 then Inl OutOfBounds
      else Inr (ucast (buf ! 0) OR push_bit 8 (ucast (buf ! 1)) OR push_bit 16 (ucast (buf ! 2))
                OR push_bit 24 (ucast (buf ! 3)), drop 4 buf))"

definition parse_uint64 :: "u64 reader" where
  "parse_uint64 buf =
     (if length buf < 8 then Inl OutOfBounds
      else Inr (ucast (buf ! 0) OR push_bit 8 (ucast (buf ! 1)) OR push_bit 16 (ucast (buf ! 2))
                OR push_bit 24 (ucast (buf ! 3)) OR push_bit 32 (ucast (buf ! 4))
                OR push_bit 40 (ucast (buf ! 5)) OR push_bit 48 (ucast (buf ! 6))
                OR push_bit 56 (ucast (buf ! 7)), drop 8 buf))"

definition parse_int64 :: "i64 reader" where
  "parse_int64 buf =
     (if length buf < 8 then Inl OutOfBounds
      else Inr (ucast (buf ! 0) OR push_bit 8 (ucast (buf ! 1)) OR push_bit 16 (ucast (buf ! 2))
                OR push_bit 24 (ucast (buf ! 3)) OR push_bit 32 (ucast (buf ! 4))
                OR push_bit 40 (ucast (buf ! 5)) OR push_bit 48 (ucast (buf ! 6))
                OR push_bit 56 (ucast (buf ! 7)), drop 8 buf))"

text \<open>The bytes the \<open>memcpy\<close> of \<open>parse_string\<close> copies.\<close>

definition parse_string :: "nat \<Rightarrow> bytes reader" where
  "parse_string n buf = (if length buf < n then Inl OutOfBounds else Inr (take n buf, drop n buf))"

definition parse_msg_type :: "bytes \<Rightarrow> nat \<Rightarrow> u16 outcome" where
  "parse_msg_type buf buf_len =
     (if buf_len < 2 then Inr MSGTYPE_INVALID else rd_run buf parse_uint16)"

subsection \<open>Message parsers\<close>

definition parse_connection_status_msg :: "bytes \<Rightarrow> nat \<Rightarrow> connection_status_msg_t outcome" where
  "parse_connection_status_msg buf buf_len =
     (if buf_len \<noteq> 2 + 8 + 3 * 4 then Inr connection_status_msg_zero
      else rd_run buf
        (rd_bind parse_uint16 (\<lambda>type. rd_bind parse_uint64 (\<lambda>dev_id.
         rd_bind parse_uint32 (\<lambda>unique_id. rd_bind parse_uint16 (\<lambda>reserved.
         rd_bind parse_uint16 (\<lambda>session_id. rd_bind parse_uint32 (\<lambda>CRC.
         rd_return \<lparr>connection_status_type = type, connection_status_dev_id = dev_id,
         connection_status_unique_id = unique_id, connection_status_reserved = reserved,
         connection_status_session_id = session_id, connection_status_CRC = CRC\<rparr>))))))))"

definition parse_identify_msg :: "bytes \<Rightarrow> nat \<Rightarrow> identify_msg_t outcome" where
  "parse_identify_msg buf buf_len =
     (if buf_len \<noteq> 2 + 2 * 1 then Inr identify_msg_zero
      else rd_run buf
        (rd_bind parse_uint16 (\<lambda>type. rd_bind parse_uint8 (\<lambda>mode. rd_bind parse_uint8 (\<lambda>count.
         rd_return \<lparr>identify_type = type, identify_mode = mode, identify_count = count\<rparr>)))))"

definition parse_update_start_msg :: "bytes \<Rightarrow> nat \<Rightarrow> update_start_msg_t outcome" where
  "parse_update_start_msg buf buf_len =
     (let fixed_size = 3 * 4 + 3 * 2 + 2 * 1 in
      if buf_len < fixed_size then Inr update_start_msg_zero
      else rd_run buf
        (rd_bind parse_uint16 (\<lambda>type. rd_bind parse_uint16 (\<lambda>dev_type.
         rd_bind parse_uint8 (\<lambda>hw_ver. rd_bind parse_uint32 (\<lambda>fw_ver.
         rd_bind parse_uint32 (\<lambda>img_size. rd_bind parse_uint32 (\<lambda>CRC.
         rd_bind parse_uint8 (\<lambda>update_policy. rd_bind parse_uint16 (\<lambda>img_url_len.
           let msg = update_start_msg_zero
             \<lparr>update_start_type := type, update_start_dev_type := dev_type,
              update_start_hw_ver := hw_ver, update_start_fw_ver := fw_ver,
              update_start_img_size := img_size, update_start_CRC := CRC,
              update_start_update_policy := update_policy, update_start_img_url_len := img_url_len\<rparr>
           in if buf_len \<noteq> fixed_size + unat img_url_len
              then rd_return (msg\<lparr>update_start_type := MSGTYPE_INVALID\<rparr>)
              else rd_assert (unat img_url_len < 129 - 1)
                (rd_bind (parse_string (unat img_url_len)) (\<lambda>url.
                 rd_return (msg\<lparr>update_start_img_url :=
                   (overwrite (update_start_img_url msg) 0 url)[unat img_url_len := 0]\<rparr>)))))))))))))"

definition parse_update_install_msg :: "bytes \<Rightarrow> nat \<Rightarrow> update_install_msg_t outcome" where
  "parse_update_install_msg buf buf_len =
     (if buf_len \<noteq> 2 * 4 + 2 then Inr update_install_msg_zero
      else rd_run buf
        (rd_bind parse_uint16 (\<lambda>type. rd_bind parse_uint32 (\<lambda>fw_ver.
         rd_bind parse_uint32 (\<lambda>delay.
         rd_return \<lparr>update_install_type = type, update_install_fw_ver = fw_ver,
         update_install_delay = delay\<rparr>)))))"

definition parse_update_stop_msg :: "bytes \<Rightarrow> nat \<Rightarrow> update_stop_msg_t outcome" where
  "parse_update_stop_msg buf buf_len =
     (if buf_len \<noteq> 2 then Inr update_stop_msg_zero
      else rd_run buf
        (rd_bind parse_uint16 (\<lambda>type.
         rd_return \<lparr>update_stop_type = type\<rparr>)))"

definition parse_meter_current_limit_msg ::
  "bytes \<Rightarrow> nat \<Rightarrow> meter_current_limit_msg_t outcome" where
  "parse_meter_current_limit_msg buf buf_len =
     (if buf_len \<noteq> 2 + 4 then Inr meter_current_limit_msg_zero
      else rd_run buf
        (rd_bind parse_uint16 (\<lambda>type. rd_bind parse_int32 (\<lambda>limit.
         rd_return \<lparr>meter_current_limit_type = type, meter_current_limit_limit = limit\<rparr>))))"

definition parse_meter_clear_alarms_msg :: "bytes \<Rightarrow> nat \<Rightarrow> meter_alarms_msg_t outcome" where
  "parse_meter_clear_alarms_msg buf buf_len =
     (if buf_len \<noteq> 2 + 8 then Inr meter_alarms_msg_zero
      else rd_run buf
        (rd_bind parse_uint16 (\<lambda>type. rd_bind parse_uint64 (\<lambda>mask.
         rd_return \<lparr>meter_alarms_type = type, meter_alarms_mask = mask\<rparr>))))"

definition parse_energy_price_day_msg :: "bytes \<Rightarrow> nat \<Rightarrow> energy_price_day_msg_t outcome" where
  "parse_energy_price_day_msg buf buf_len =
     (if buf_len < 8 + 1 + 2 + 2 + 2 + 96 * 2 then Inr energy_price_day_msg_zero
      else rd_run buf
        (rd_bind parse_uint16 (\<lambda>type. rd_bind parse_uint16 (\<lambda>tariff.
         rd_bind parse_uint64 (\<lambda>day_time. rd_bind parse_int8 (\<lambda>price_factor.
         rd_bind parse_uint16 (\<lambda>prices_len. rd_bind (rd_repeat 96 parse_int16) (\<lambda>prices.
         rd_return \<lparr>energy_price_day_type = type, energy_price_day_tariff = tariff,
         energy_price_day_day_time = day_time, energy_price_day_price_factor = price_factor,
         energy_price_day_prices_len = prices_len, energy_price_day_prices = prices\<rparr>))))))))"

definition parse_energy_price_threshold_msg ::
  "bytes \<Rightarrow> nat \<Rightarrow> energy_price_threshold_msg_t outcome" where
  "parse_energy_price_threshold_msg buf buf_len =
     (if buf_len \<noteq> 2 + 4 then Inr energy_price_threshold_msg_zero
      else rd_run buf
        (rd_bind parse_uint16 (\<lambda>type. rd_bind parse_int32 (\<lambda>price.
         rd_return \<lparr>energy_price_threshold_type = type, energy_price_threshold_price = price\<rparr>))))"

definition parse_energy_price_cheap_period_msg ::
  "bytes \<Rightarrow> nat \<Rightarrow> energy_price_cheap_period_msg_t outcome" where
  "parse_energy_price_cheap_period_msg buf buf_len =
     (if buf_len \<noteq> 2 + 1 then Inr energy_price_cheap_period_msg_zero
      else rd_run buf
        (rd_bind parse_uint16 (\<lambda>type. rd_bind parse_uint8 (\<lambda>quarters.
         rd_return \<lparr>energy_price_cheap_period_type = type,
         energy_price_cheap_period_quarters = quarters\<rparr>))))"

definition parse_energy_price_tariff_msg ::
  "bytes \<Rightarrow> nat \<Rightarrow> energy_price_tariff_msg_t outcome" where
  "parse_energy_price_tariff_msg buf buf_len =
     (if buf_len \<noteq> 2 + 2 then Inr energy_price_tariff_msg_zero
      else rd_run buf
        (rd_bind parse_uint16 (\<lambda>type. rd_bind parse_uint16 (\<lambda>tariff.
         rd_return \<lparr>energy_price_tariff_type = type, energy_price_tariff_tariff = tariff\<rparr>))))"

definition parse_wireless_enable_msg :: "bytes \<Rightarrow> nat \<Rightarrow> wireless_enable_msg_t outcome" where
  "parse_wireless_enable_msg buf buf_len =
     (if buf_len \<noteq> 2 * 1 then Inr wireless_enable_msg_zero
      else rd_run buf
        (rd_bind parse_uint16 (\<lambda>type. rd_bind parse_uint8 (\<lambda>protocol.
         rd_bind parse_uint8 (\<lambda>enabled.
         rd_return \<lparr>wireless_enable_type = type, wireless_enable_protocol = protocol,
         wireless_enable_enabled = enabled\<rparr>)))))"

definition parse_wireless_credentials_msg ::
  "bytes \<Rightarrow> nat \<Rightarrow> wireless_credentials_msg_t outcome" where
  "parse_wireless_credentials_msg buf buf_len =
     (let fixed_size = 2 + 1 + 2 * 2 in
      if buf_len < fixed_size then Inr wireless_credentials_msg_zero
      else rd_run buf
        (rd_bind parse_uint16 (\<lambda>type. rd_bind parse_uint8 (\<lambda>protocol.
         rd_assert ((32 :: nat) < 2 - 1) (rd_assert ((64 :: nat) < 2 - 1)
         (rd_bind (parse_string 2) (\<lambda>network. rd_bind (parse_string 2) (\<lambda>password.
           let msg = wireless_credentials_msg_zero
             \<lparr>wireless_credentials_type := type, wireless_credentials_protocol := protocol\<rparr> in
           rd_return (msg
             \<lparr>wireless_credentials_network :=
                (overwrite (wireless_credentials_network msg) 0 network)
                  [unat (wireless_credentials_network_len msg) := 0],
              wireless_credentials_password :=
                (overwrite (wireless_credentials_password msg) 0 password)
                  [unat (wireless_credentials_password_len msg) := 0]\<rparr>)))))))))"

definition parse_wireless_tx_power_msg :: "bytes \<Rightarrow> nat \<Rightarrow> wireless_tx_power_msg_t outcome" where
  "parse_wireless_tx_power_msg buf buf_len =
     (if buf_len \<noteq> 2 + 1 + 1 then Inr wireless_tx_power_msg_zero
      else rd_run buf
        (rd_bind parse_uint16 (\<lambda>type. rd_bind parse_uint8 (\<lambda>protocol.
         rd_bind parse_int16 (\<lambda>tx_power.
         rd_return \<lparr>wireless_tx_power_type = type, wireless_tx_power_protocol = protocol,
         wireless_tx_power_tx_power = tx_power\<rparr>)))))"

definition parse_wireless_channel_msg :: "bytes \<Rightarrow> nat \<Rightarrow> wireless_channel_msg_t outcome" where
  "parse_wireless_channel_msg buf buf_len =
     (if buf_len \<noteq> 2 + 1 + 1 then Inr wireless_channel_msg_zero
      else rd_run buf
        (rd_bind parse_uint16 (\<lambda>type. rd_bind parse_uint8 (\<lambda>protocol.
         rd_bind parse_uint8 (\<lambda>channel.
         rd_return \<lparr>wireless_channel_type = type, wireless_channel_protocol = protocol,
         wireless_channel_channel = channel\<rparr>)))))"

definition parse_relay_mode_msg :: "bytes \<Rightarrow> nat \<Rightarrow> relay_mode_msg_t outcome" where
  "parse_relay_mode_msg buf buf_len =
     (if buf_len \<noteq> 2 + 1 then Inr relay_mode_msg_zero
      else rd_run buf
        (rd_bind parse_uint16 (\<lambda>type. rd_bind parse_uint8 (\<lambda>mode.
         rd_return \<lparr>relay_mode_type = type, relay_mode_mode = mode\<rparr>))))"

definition parse_relay_state_msg :: "bytes \<Rightarrow> nat \<Rightarrow> relay_state_msg_t outcome" where
  "parse_relay_state_msg buf buf_len =
     (if buf_len \<noteq> 2 + 1 then Inr relay_state_msg_zero
      else rd_run buf
        (rd_bind parse_uint16 (\<lambda>type. rd_bind parse_uint8 (\<lambda>state.
         rd_return \<lparr>relay_state_type = type, relay_state_state = state\<rparr>))))"

definition parse_relay_default_state_msg ::
  "bytes \<Rightarrow> nat \<Rightarrow> relay_default_state_msg_t outcome" where
  "parse_relay_default_state_msg buf buf_len =
     (if buf_len \<noteq> 2 + 1 then Inr relay_default_state_msg_zero
      else rd_run buf
        (rd_bind parse_uint16 (\<lambda>type. rd_bind parse_uint8 (\<lambda>state.
         rd_return \<lparr>relay_default_state_type = type, relay_default_state_state = state\<rparr>))))"

definition parse_relay_pwm_msg :: "bytes \<Rightarrow> nat \<Rightarrow> relay_pwm_msg_t outcome" where
  "parse_relay_pwm_msg buf buf_len =
     (if buf_len \<noteq> 2 * 2 + 2 * 1 then Inr relay_pwm_msg_zero
      else rd_run buf
        (rd_bind parse_uint16 (\<lambda>type. rd_bind parse_uint8 (\<lambda>enabled.
         rd_bind parse_uint16 (\<lambda>period. rd_bind parse_uint8 (\<lambda>duty_cycle.
         rd_return \<lparr>relay_pwm_type = type, relay_pwm_enabled = enabled, relay_pwm_period = period,
         relay_pwm_duty_cycle = duty_cycle\<rparr>))))))"

definition parse_relay_set_inverted_output_msg ::
  "bytes \<Rightarrow> nat \<Rightarrow> relay_inverted_output_msg_t outcome" where
  "parse_relay_set_inverted_output_msg buf buf_len =
     (if buf_len \<noteq> 2 + 1 then Inr relay_inverted_output_msg_zero
      else rd_run buf
        (rd_bind parse_uint16 (\<lambda>type. rd_bind parse_uint8 (\<lambda>inverted.
         rd_return \<lparr>relay_inverted_output_type = type,
         relay_inverted_output_inverted = inverted\<rparr>))))"

definition parse_relay_one_shot_msg :: "bytes \<Rightarrow> nat \<Rightarrow> relay_one_shot_msg_t outcome" where
  "parse_relay_one_shot_msg buf buf_len =
     (if buf_len \<noteq> 2 + 1 + 8 + 8 + 1 then Inr relay_one_shot_msg_zero
      else rd_run buf
        (rd_bind parse_uint16 (\<lambda>type. rd_bind parse_uint8 (\<lambda>enabled.
         rd_bind parse_uint64 (\<lambda>start. rd_bind parse_uint64 (\<lambda>end. rd_bind parse_uint8 (\<lambda>state.
         rd_return \<lparr>relay_one_shot_type = type, relay_one_shot_enabled = enabled,
         relay_one_shot_start = start, relay_one_shot_end = end,
         relay_one_shot_state = state\<rparr>)))))))"

definition parse_relay_button_config_msg ::
  "bytes \<Rightarrow> nat \<Rightarrow> relay_button_config_msg_t outcome" where
  "parse_relay_button_config_msg buf buf_len =
     (let fixed_size = 2 + 2 in
      if buf_len < fixed_size then Inr relay_button_config_msg_zero
      else rd_run buf
        (rd_bind parse_uint16 (\<lambda>type. rd_bind parse_uint16 (\<lambda>mode_len.
           if buf_len \<noteq> fixed_size + unat mode_len * 1
           then rd_return (relay_button_config_msg_zero\<lparr>relay_button_config_mode_len := mode_len\<rparr>)
           else rd_bind (rd_repeat 6 parse_uint8) (\<lambda>modes.
             rd_return \<lparr>relay_button_config_type = type, relay_button_config_mode_len = mode_len,
               relay_button_config_modes = modes\<rparr>)))))"

definition parse_relay_schedule_msg :: "bytes \<Rightarrow> nat \<Rightarrow> relay_schedule_msg_t outcome" where
  "parse_relay_schedule_msg buf buf_len =
     (let fixed_size = 2 + 2 + 84 in
      if buf_len < fixed_size then Inr relay_schedule_msg_zero
      else rd_run buf
        (rd_bind parse_uint16 (\<lambda>type. rd_bind parse_uint16 (\<lambda>schedule_len.
           rd_assert (schedule_len = 84) (rd_bind (rd_repeat 84 parse_uint8) (\<lambda>schedule.
             rd_return \<lparr>relay_schedule_type = type, relay_schedule_schedule_len = schedule_len,
               relay_schedule_schedule = schedule\<rparr>))))))"

definition parse_environment_sunny_time_msg ::
  "bytes \<Rightarrow> nat \<Rightarrow> environment_sunny_time_msg_t outcome" where
  "parse_environment_sunny_time_msg buf buf_len =
     (if buf_len \<noteq> 2 + 1 then Inr environment_sunny_time_msg_zero
      else rd_run buf
        (rd_bind parse_uint16 (\<lambda>type. rd_bind parse_uint8 (\<lambda>percentage.
         rd_return \<lparr>environment_sunny_time_type = type,
         environment_sunny_time_percentage = percentage\<rparr>))))"

definition parse_environment_cloud_cover_msg ::
  "bytes \<Rightarrow> nat \<Rightarrow> environment_cloud_cover_msg_t outcome" where
  "parse_environment_cloud_cover_msg buf buf_len =
     (let fixed_size = 2 + 8 + 2 + 2 in
      if buf_len < fixed_size then Inr environment_cloud_cover_msg_zero
      else rd_run buf
        (rd_bind parse_uint16 (\<lambda>type. rd_bind parse_uint64 (\<lambda>ref_timestamp.
         rd_bind parse_uint16 (\<lambda>period. rd_bind parse_uint16 (\<lambda>percentage_len.
           rd_assert (percentage_len = 96) (rd_bind (rd_repeat 96 parse_uint16) (\<lambda>percentage.
             rd_return \<lparr>environment_cloud_cover_type = type,
               environment_cloud_cover_ref_timestamp = ref_timestamp,
               environment_cloud_cover_period = period,
               environment_cloud_cover_percentage_len = percentage_len,
               environment_cloud_cover_percentage = percentage\<rparr>))))))))"

definition parse_environment_position_msg ::
  "bytes \<Rightarrow> nat \<Rightarrow> environment_position_msg_t outcome" where
  "parse_environment_position_msg buf buf_len =
     (if buf_len < 2 + 2 * 4 then Inr environment_position_msg_zero
      else rd_run buf
        (rd_bind parse_uint16 (\<lambda>type. rd_bind parse_int64 (\<lambda>latitude.
         rd_bind parse_int64 (\<lambda>longitude.
         rd_return \<lparr>environment_position_type = type, environment_position_latitude = latitude,
         environment_position_longitude = longitude\<rparr>)))))"

definition parse_diag_set_logs_settings ::
  "bytes \<Rightarrow> nat \<Rightarrow> diag_set_logs_settings_msg_t outcome" where
  "parse_diag_set_logs_settings buf buf_len =
     (if buf_len \<noteq> 2 + 1 + 1 + 6 * 8 then Inr diag_set_logs_settings_msg_zero
      else rd_run buf
        (rd_bind parse_uint16 (\<lambda>type. rd_bind parse_uint8 (\<lambda>medium. rd_bind parse_uint8 (\<lambda>level.
         rd_bind parse_uint64 (\<lambda>modules.
         rd_return \<lparr>diag_set_logs_settings_type = type, diag_set_logs_settings_medium = medium,
         diag_set_logs_settings_level = level, diag_set_logs_settings_modules = modules\<rparr>))))))"

definition parse_status_msg :: "bytes \<Rightarrow> nat \<Rightarrow> status_msg_t outcome" where
  "parse_status_msg buf buf_len =
     (if buf_len \<noteq> 2 * 2 + 1 then Inr status_msg_zero
      else rd_run buf
        (rd_bind parse_uint16 (\<lambda>type. rd_bind parse_uint8 (\<lambda>error.
         rd_bind parse_uint16 (\<lambda>rq_type.
         rd_return \<lparr>status_type = type, status_error = error, status_rq_type = rq_type\<rparr>)))))"

definition parse_get_msg :: "bytes \<Rightarrow> nat \<Rightarrow> get_msg_t outcome" where
  "parse_get_msg buf buf_len =
     (if buf_len \<noteq> 2 * 2 + 4 then Inr get_msg_zero
      else rd_run buf
        (rd_bind parse_uint16 (\<lambda>type. rd_bind parse_uint16 (\<lambda>rq_type.
         rd_bind parse_uint32 (\<lambda>param.
         rd_return \<lparr>get_type = type, get_rq_type = rq_type, get_param = param\<rparr>)))))"

subsection \<open>What a reader consumes\<close>

text \<open>\<open>rd_takes r n P\<close>: on at least \<open>n\<close> bytes the reader \<open>r\<close> takes exactly \<open>n\<close> of them and its value
  satisfies \<open>P\<close>; on fewer it faults.\<close>

definition rd_takes :: "'a reader \<Rightarrow> nat \<Rightarrow> ('a \<Rightarrow> bool) \<Rightarrow> bool" where
  "rd_takes r n P \<longleftrightarrow>
     (\<forall>bs. (length bs < n \<longrightarrow> r bs = Inl OutOfBounds) \<and>
       (n \<le> length bs \<longrightarrow> (\<exists>x. r bs = Inr (x, drop n bs) \<and> P x)))"

lemma rd_takes_prims:
  "rd_takes parse_uint8 1 (\<lambda>_. True)" "rd_takes parse_int8 1 (\<lambda>_. True)"
  "rd_takes parse_uint16 2 (\<lambda>_. True)" "rd_takes parse_int16 2 (\<lambda>_. True)"
  "rd_takes parse_uint32 4 (\<lambda>_. True)" "rd_takes parse_int32 4 (\<lambda>_. True)"
  "rd_takes parse_uint64 8 (\<lambda>_. True)" "rd_takes parse_int64 8 (\<lambda>_. True)"
  "rd_takes (parse_string n) n (\<lambda>bs. length bs = n)"
  by (simp_all add: rd_takes_def parse_uint8_def parse_int8_def parse_uint16_def parse_int16_def
      parse_uint32_def parse_int32_def parse_uint64_def parse_int64_def parse_string_def)

lemma rd_takes_return: "P x \<Longrightarrow> rd_takes (rd_return x) 0 P"
  by (simp add: rd_takes_def rd_return_def)

lemma rd_takes_weaken: "rd_takes r n P \<Longrightarrow> rd_takes r n (\<lambda>_. True)"
  by (auto simp: rd_takes_def)

lemma rd_takes_bind:
  assumes r: "rd_takes r n P" and f: "\<And>x. rd_takes (f x) m Q"
  shows "rd_takes (rd_bind r f) (n + m) Q"
  unfolding rd_takes_def
proof (intro allI conjI impI)
  fix bs :: bytes assume short: "length bs < n + m"
  show "rd_bind r f bs = Inl OutOfBounds"
  proof (cases "length bs < n")
    case True
    then show ?thesis using r by (simp add: rd_takes_def rd_bind_def)
  next
    case False
    then obtain x where "r bs = Inr (x, drop n bs)"
      using r unfolding rd_takes_def by (meson leI)
    moreover have "f x (drop n bs) = Inl OutOfBounds"
      using f [of x] short False by (simp add: rd_takes_def)
    ultimately show ?thesis by (simp add: rd_bind_def)
  qed
next
  fix bs :: bytes assume long: "n + m \<le> length bs"
  then obtain x where x: "r bs = Inr (x, drop n bs)"
    using r unfolding rd_takes_def by (meson add_leD1)
  have "m \<le> length (drop n bs)" using long by simp
  then obtain y where "f x (drop n bs) = Inr (y, drop m (drop n bs))" "Q y"
    using f [of x] unfolding rd_takes_def by meson
  with x show "\<exists>y. rd_bind r f bs = Inr (y, drop (n + m) bs) \<and> Q y"
    by (simp add: rd_bind_def add.commute)
qed

lemma rd_takes_repeat:
  assumes "rd_takes r k (\<lambda>_. True)"
  shows "rd_takes (rd_repeat n r) (n * k) (\<lambda>xs. length xs = n)"
proof (induction n)
  case (Suc n)
  have "rd_takes (rd_bind r (\<lambda>x. rd_bind (rd_repeat n r) (\<lambda>xs. rd_return (x # xs))))
      (k + n * k) (\<lambda>xs. length xs = Suc n)"
  proof (rule rd_takes_bind [OF assms])
    fix x
    show "rd_takes (rd_bind (rd_repeat n r) (\<lambda>xs. rd_return (x # xs))) (n * k) (\<lambda>xs. length xs = Suc n)"
      unfolding rd_takes_def
    proof (intro allI conjI impI)
      fix bs :: bytes
      assume "length bs < n * k"
      then show "rd_bind (rd_repeat n r) (\<lambda>xs. rd_return (x # xs)) bs = Inl OutOfBounds"
        using Suc by (simp add: rd_takes_def rd_bind_def)
    next
      fix bs :: bytes
      assume "n * k \<le> length bs"
      then obtain xs where "rd_repeat n r bs = Inr (xs, drop (n * k) bs)" "length xs = n"
        using Suc unfolding rd_takes_def by meson
      then show "\<exists>y. rd_bind (rd_repeat n r) (\<lambda>xs. rd_return (x # xs)) bs = Inr (y, drop (n * k) bs) \<and>
          length y = Suc n"
        by (simp add: rd_bind_def rd_return_def)
    qed
  qed
  then show ?case by simp
qed (simp add: rd_takes_return)

lemmas rd_takes_intros = rd_takes_prims rd_takes_repeat rd_takes_bind rd_takes_return

text \<open>The type of a message: its first two bytes.\<close>

definition wire_type :: "bytes \<Rightarrow> u16" where
  "wire_type buf = ucast (buf ! 0) OR push_bit 8 (ucast (buf ! 1))"

lemma parse_msg_type_eq: "2 \<le> length buf \<Longrightarrow> 2 \<le> n \<Longrightarrow> parse_msg_type buf n = Inr (wire_type buf)"
  by (simp add: parse_msg_type_def rd_run_def parse_uint16_def wire_type_def)

lemma rd_run_typed:
  assumes "\<And>ty. rd_takes (f ty) m (\<lambda>x. mtype x = ty)" "2 + m \<le> length buf"
  shows "\<exists>x. rd_run buf (rd_bind parse_uint16 f) = Inr x \<and> mtype x = wire_type buf"
proof -
  have "m \<le> length (drop 2 buf)" using assms(2) by simp
  then obtain x where "f (wire_type buf) (drop 2 buf) = Inr (x, drop m (drop 2 buf))"
    "mtype x = wire_type buf"
    using assms(1) [of "wire_type buf"] unfolding rd_takes_def by meson
  then show ?thesis
    using assms(2) by (simp add: rd_run_def rd_bind_def parse_uint16_def wire_type_def)
qed

lemma rd_run_short:
  assumes "\<And>ty. rd_takes (f ty) m (\<lambda>x. mtype x = ty)" "length buf < 2 + m"
  shows "rd_run buf (rd_bind parse_uint16 f) = Inl OutOfBounds"
proof -
  have "rd_takes (rd_bind parse_uint16 f) (2 + m) (\<lambda>_. True)"
    using assms(1) by (intro rd_takes_bind [OF rd_takes_prims(3)]) (rule rd_takes_weaken)
  then show ?thesis using assms(2) by (simp add: rd_takes_def rd_run_def)
qed

subsection \<open>The interface: a parser of a message with a length condition\<close>

text \<open>
  What the receiver relies on: a message whose length the parser accepts is parsed without a read
  outside it and keeps its type; any other gives the type \<open>MSGTYPE_INVALID\<close>.
\<close>

locale message_parser =
  fixes parse :: "bytes \<Rightarrow> nat \<Rightarrow> 'm outcome"
    and accepts :: "nat \<Rightarrow> bool"
    and mtype :: "'m \<Rightarrow> u16"
  assumes accept_law: "accepts n \<Longrightarrow> n \<le> length buf \<Longrightarrow> \<exists>m. parse buf n = Inr m \<and> mtype m = wire_type buf"
    and reject_law: "\<not> accepts n \<Longrightarrow> \<exists>m. parse buf n = Inr m \<and> mtype m = MSGTYPE_INVALID"
begin

lemma parse_total: "n \<le> length buf \<Longrightarrow> \<exists>m. parse buf n = Inr m"
  using accept_law [of n buf] reject_law [of n buf] by blast

lemma parse_accepted_iff:
  "n \<le> length buf \<Longrightarrow> wire_type buf \<noteq> MSGTYPE_INVALID \<Longrightarrow> parse buf n = Inr m \<Longrightarrow>
     mtype m \<noteq> MSGTYPE_INVALID \<longleftrightarrow> accepts n"
  using accept_law [of n buf] reject_law [of n buf] by auto

end

text \<open>The pattern of a parser that accepts one length.\<close>

lemma exact_parser:
  assumes "\<And>buf n. parse buf n = (if n \<noteq> k then Inr zero else rd_run buf (rd_bind parse_uint16 f))"
    "mtype zero = MSGTYPE_INVALID" "\<And>ty. rd_takes (f ty) m (\<lambda>x. mtype x = ty)" "k = 2 + m"
  shows "message_parser parse (\<lambda>n. n = k) mtype"
  by unfold_locales (use assms rd_run_typed [OF assms(3)] in auto)

subsection \<open>The parsers that accept exactly the length of their message\<close>

interpretation connection_status_parser:
  message_parser parse_connection_status_msg "\<lambda>n. n = 2 + 8 + 3 * 4" connection_status_type
  by (rule exact_parser, rule parse_connection_status_msg_def, simp add: msg_zero_defs, (rule rd_takes_intros)+)
    simp_all

interpretation identify_parser:
  message_parser parse_identify_msg "\<lambda>n. n = 2 + 2 * 1" identify_type
  by (rule exact_parser, rule parse_identify_msg_def, simp add: msg_zero_defs, (rule rd_takes_intros)+)
    simp_all

interpretation update_install_parser:
  message_parser parse_update_install_msg "\<lambda>n. n = 2 * 4 + 2" update_install_type
  by (rule exact_parser, rule parse_update_install_msg_def, simp add: msg_zero_defs, (rule rd_takes_intros)+)
    simp_all

interpretation update_stop_parser:
  message_parser parse_update_stop_msg "\<lambda>n. n = 2" update_stop_type
  by (rule exact_parser, rule parse_update_stop_msg_def, simp add: msg_zero_defs, (rule rd_takes_intros)+)
    simp_all

interpretation meter_current_limit_parser:
  message_parser parse_meter_current_limit_msg "\<lambda>n. n = 2 + 4" meter_current_limit_type
  by (rule exact_parser, rule parse_meter_current_limit_msg_def, simp add: msg_zero_defs, (rule rd_takes_intros)+)
    simp_all

interpretation meter_clear_alarms_parser:
  message_parser parse_meter_clear_alarms_msg "\<lambda>n. n = 2 + 8" meter_alarms_type
  by (rule exact_parser, rule parse_meter_clear_alarms_msg_def, simp add: msg_zero_defs, (rule rd_takes_intros)+)
    simp_all

interpretation energy_price_threshold_parser:
  message_parser parse_energy_price_threshold_msg "\<lambda>n. n = 2 + 4" energy_price_threshold_type
  by (rule exact_parser, rule parse_energy_price_threshold_msg_def, simp add: msg_zero_defs, (rule rd_takes_intros)+)
    simp_all

interpretation energy_price_cheap_period_parser:
  message_parser parse_energy_price_cheap_period_msg "\<lambda>n. n = 2 + 1" energy_price_cheap_period_type
  by (rule exact_parser, rule parse_energy_price_cheap_period_msg_def, simp add: msg_zero_defs, (rule rd_takes_intros)+)
    simp_all

interpretation energy_price_tariff_parser:
  message_parser parse_energy_price_tariff_msg "\<lambda>n. n = 2 + 2" energy_price_tariff_type
  by (rule exact_parser, rule parse_energy_price_tariff_msg_def, simp add: msg_zero_defs, (rule rd_takes_intros)+)
    simp_all

interpretation wireless_channel_parser:
  message_parser parse_wireless_channel_msg "\<lambda>n. n = 2 + 1 + 1" wireless_channel_type
  by (rule exact_parser, rule parse_wireless_channel_msg_def, simp add: msg_zero_defs, (rule rd_takes_intros)+)
    simp_all

interpretation relay_mode_parser:
  message_parser parse_relay_mode_msg "\<lambda>n. n = 2 + 1" relay_mode_type
  by (rule exact_parser, rule parse_relay_mode_msg_def, simp add: msg_zero_defs, (rule rd_takes_intros)+)
    simp_all

interpretation relay_state_parser:
  message_parser parse_relay_state_msg "\<lambda>n. n = 2 + 1" relay_state_type
  by (rule exact_parser, rule parse_relay_state_msg_def, simp add: msg_zero_defs, (rule rd_takes_intros)+)
    simp_all

interpretation relay_default_state_parser:
  message_parser parse_relay_default_state_msg "\<lambda>n. n = 2 + 1" relay_default_state_type
  by (rule exact_parser, rule parse_relay_default_state_msg_def, simp add: msg_zero_defs, (rule rd_takes_intros)+)
    simp_all

interpretation relay_pwm_parser:
  message_parser parse_relay_pwm_msg "\<lambda>n. n = 2 * 2 + 2 * 1" relay_pwm_type
  by (rule exact_parser, rule parse_relay_pwm_msg_def, simp add: msg_zero_defs, (rule rd_takes_intros)+)
    simp_all

interpretation relay_set_inverted_output_parser:
  message_parser parse_relay_set_inverted_output_msg "\<lambda>n. n = 2 + 1" relay_inverted_output_type
  by (rule exact_parser, rule parse_relay_set_inverted_output_msg_def, simp add: msg_zero_defs, (rule rd_takes_intros)+)
    simp_all

interpretation relay_one_shot_parser:
  message_parser parse_relay_one_shot_msg "\<lambda>n. n = 2 + 1 + 8 + 8 + 1" relay_one_shot_type
  by (rule exact_parser, rule parse_relay_one_shot_msg_def, simp add: msg_zero_defs, (rule rd_takes_intros)+)
    simp_all

interpretation environment_sunny_time_parser:
  message_parser parse_environment_sunny_time_msg "\<lambda>n. n = 2 + 1" environment_sunny_time_type
  by (rule exact_parser, rule parse_environment_sunny_time_msg_def, simp add: msg_zero_defs, (rule rd_takes_intros)+)
    simp_all

interpretation status_parser:
  message_parser parse_status_msg "\<lambda>n. n = 2 * 2 + 1" status_type
  by (rule exact_parser, rule parse_status_msg_def, simp add: msg_zero_defs, (rule rd_takes_intros)+)
    simp_all

interpretation get_parser:
  message_parser parse_get_msg "\<lambda>n. n = 2 * 2 + 4" get_type
  by (rule exact_parser, rule parse_get_msg_def, simp add: msg_zero_defs, (rule rd_takes_intros)+)
    simp_all

text \<open>Two parsers with another condition: the price table may be followed by more bytes, and the log
  settings must have the length of the reply while only one level is read.\<close>

interpretation energy_price_day_parser:
  message_parser parse_energy_price_day_msg "\<lambda>n. \<not> n < 8 + 1 + 2 + 2 + 2 + 96 * 2" energy_price_day_type
proof (unfold_locales, goal_cases)
  case (1 n buf)
  have "\<exists>x. rd_run buf
        (rd_bind parse_uint16 (\<lambda>type. rd_bind parse_uint16 (\<lambda>tariff.
         rd_bind parse_uint64 (\<lambda>day_time. rd_bind parse_int8 (\<lambda>price_factor.
         rd_bind parse_uint16 (\<lambda>prices_len. rd_bind (rd_repeat 96 parse_int16) (\<lambda>prices.
         rd_return \<lparr>energy_price_day_type = type, energy_price_day_tariff = tariff,
         energy_price_day_day_time = day_time, energy_price_day_price_factor = price_factor,
         energy_price_day_prices_len = prices_len, energy_price_day_prices = prices\<rparr>)))))))
      = Inr x \<and> energy_price_day_type x = wire_type buf"
    using 1 by - (rule rd_run_typed, (rule rd_takes_intros)+, simp_all)
  then show ?case using 1 by (simp add: parse_energy_price_day_msg_def)
next
  case (2 n buf)
  then show ?case by (simp add: parse_energy_price_day_msg_def energy_price_day_msg_zero_def)
qed

interpretation diag_set_logs_parser:
  message_parser parse_diag_set_logs_settings "\<lambda>n. n = 2 + 1 + 1 + 6 * 8" diag_set_logs_settings_type
proof (unfold_locales, goal_cases)
  case (1 n buf)
  have "\<exists>x. rd_run buf
        (rd_bind parse_uint16 (\<lambda>type. rd_bind parse_uint8 (\<lambda>medium.
         rd_bind parse_uint8 (\<lambda>level. rd_bind parse_uint64 (\<lambda>modules.
         rd_return \<lparr>diag_set_logs_settings_type = type, diag_set_logs_settings_medium = medium,
         diag_set_logs_settings_level = level, diag_set_logs_settings_modules = modules\<rparr>)))))
      = Inr x \<and> diag_set_logs_settings_type x = wire_type buf"
    using 1 by - (rule rd_run_typed, (rule rd_takes_intros)+, simp_all)
  then show ?case using 1 by (simp add: parse_diag_set_logs_settings_def)
next
  case (2 n buf)
  then show ?case by (simp add: parse_diag_set_logs_settings_def diag_set_logs_settings_msg_zero_def)
qed

subsection \<open>The parsers with a length field or an assertion\<close>

text \<open>One step of a reader on bytes that are there.\<close>

definition wire32 :: "bytes \<Rightarrow> u32" where
  "wire32 buf = ucast (buf ! 0) OR push_bit 8 (ucast (buf ! 1)) OR push_bit 16 (ucast (buf ! 2))
     OR push_bit 24 (ucast (buf ! 3))"

definition wire64 :: "bytes \<Rightarrow> u64" where
  "wire64 buf = ucast (buf ! 0) OR push_bit 8 (ucast (buf ! 1)) OR push_bit 16 (ucast (buf ! 2))
     OR push_bit 24 (ucast (buf ! 3)) OR push_bit 32 (ucast (buf ! 4)) OR push_bit 40 (ucast (buf ! 5))
     OR push_bit 48 (ucast (buf ! 6)) OR push_bit 56 (ucast (buf ! 7))"

lemma rd_step:
  "1 \<le> length bs \<Longrightarrow> rd_bind parse_uint8 f bs = f (bs ! 0) (drop 1 bs)"
  "2 \<le> length bs \<Longrightarrow> rd_bind parse_uint16 g bs = g (wire_type bs) (drop 2 bs)"
  "2 \<le> length bs \<Longrightarrow> rd_bind parse_int16 g bs = g (wire_type bs) (drop 2 bs)"
  "4 \<le> length bs \<Longrightarrow> rd_bind parse_uint32 h bs = h (wire32 bs) (drop 4 bs)"
  "8 \<le> length bs \<Longrightarrow> rd_bind parse_uint64 k bs = k (wire64 bs) (drop 8 bs)"
  "8 \<le> length bs \<Longrightarrow> rd_bind parse_int64 k bs = k (wire64 bs) (drop 8 bs)"
  "n \<le> length bs \<Longrightarrow> rd_bind (parse_string n) l bs = l (take n bs) (drop n bs)"
  "m \<le> length bs \<Longrightarrow> rd_bind (rd_repeat m parse_uint8) i bs = i (take m bs) (drop m bs)"
proof -
  have "m \<le> length bs \<Longrightarrow> rd_repeat m parse_uint8 bs = Inr (take m bs, drop m bs)" for bs
  proof (induction m arbitrary: bs)
    case (Suc m)
    then have "rd_repeat m parse_uint8 (drop 1 bs) = Inr (take m (drop 1 bs), drop m (drop 1 bs))"
      by simp
    moreover have "take (Suc m) bs = bs ! 0 # take m (drop 1 bs)" using Suc.prems by (cases bs) auto
    moreover have "parse_uint8 bs = Inr (bs ! 0, drop 1 bs)" using Suc.prems by (auto simp: parse_uint8_def)
    ultimately show ?case by (simp add: rd_bind_def rd_return_def)
  qed (simp add: rd_return_def)
  then show "m \<le> length bs \<Longrightarrow> rd_bind (rd_repeat m parse_uint8) i bs = i (take m bs) (drop m bs)"
    by (simp add: rd_bind_def)
qed (auto simp: rd_bind_def parse_uint8_def parse_uint16_def parse_int16_def parse_uint32_def
    parse_uint64_def parse_int64_def parse_string_def wire_type_def wire32_def wire64_def)

lemmas rd_eval = rd_run_def rd_step rd_assert_def rd_return_def Let_def

lemma rd_takes_Inr:
  "rd_takes r n P \<Longrightarrow> n \<le> length bs \<Longrightarrow> \<exists>x. r bs = Inr (x, drop n bs) \<and> P x"
  by (auto simp: rd_takes_def)

lemma rd_takes_Inl: "rd_takes r n P \<Longrightarrow> length bs < n \<Longrightarrow> r bs = Inl OutOfBounds"
  by (auto simp: rd_takes_def)

text \<open>The URL length of an update message is at offset 18.\<close>

lemma parse_update_start_msg_eq:
  assumes "length buf = n"
  defines "l \<equiv> unat (wire_type (drop 18 buf))"
  shows "n < 20 \<Longrightarrow> parse_update_start_msg buf n = Inr update_start_msg_zero"
    and "20 \<le> n \<Longrightarrow> n \<noteq> 20 + l \<Longrightarrow>
      \<exists>m. parse_update_start_msg buf n = Inr m \<and> update_start_type m = MSGTYPE_INVALID"
    and "n = 20 + l \<Longrightarrow> 128 \<le> l \<Longrightarrow> parse_update_start_msg buf n = Inl Abort"
    and "n = 20 + l \<Longrightarrow> l < 128 \<Longrightarrow>
      \<exists>m. parse_update_start_msg buf n = Inr m \<and> update_start_type m = wire_type buf \<and>
        length (update_start_img_url m) = 129 \<and> unat (update_start_img_url_len m) < 128"
proof -
  have "parse_update_start_msg buf n =
      (let msg = update_start_msg_zero
         \<lparr>update_start_type := wire_type buf, update_start_dev_type := wire_type (drop 2 buf),
          update_start_hw_ver := buf ! 4, update_start_fw_ver := wire32 (drop 5 buf),
          update_start_img_size := wire32 (drop 9 buf), update_start_CRC := wire32 (drop 13 buf),
          update_start_update_policy := buf ! 17, update_start_img_url_len := wire_type (drop 18 buf)\<rparr>
       in if n \<noteq> 20 + l then Inr (msg\<lparr>update_start_type := MSGTYPE_INVALID\<rparr>)
          else c_assert (l < 128) (Inr (msg\<lparr>update_start_img_url :=
            (overwrite (update_start_img_url msg) 0 (take l (drop 20 buf)))[l := 0]\<rparr>)))"
    if "20 \<le> n"
  proof (cases "n = 20 + l")
    case True
    then have "l \<le> length (drop 20 buf)" using assms(1) by simp
    from rd_step(7) [OF this] show ?thesis
      using that True assms(1)
      by (cases "l < 128") (simp_all add: parse_update_start_msg_def rd_eval l_def [symmetric])
  next
    case False
    then show ?thesis
      using that assms(1) by (simp add: parse_update_start_msg_def rd_eval l_def [symmetric])
  qed
  note eq = this
  show "20 \<le> n \<Longrightarrow> n \<noteq> 20 + l \<Longrightarrow>
      \<exists>m. parse_update_start_msg buf n = Inr m \<and> update_start_type m = MSGTYPE_INVALID"
    "n = 20 + l \<Longrightarrow> 128 \<le> l \<Longrightarrow> parse_update_start_msg buf n = Inl Abort"
    using eq by (simp_all add: Let_def)
  assume n: "n = 20 + l" "l < 128"
  have len: "length (update_start_img_url update_start_msg_zero) = 129" by (simp add: update_start_msg_zero_def)
  have "unat (wire_type (drop 18 buf)) < 128" using n(2) by (simp only: l_def)
  moreover have "length ((overwrite (update_start_img_url update_start_msg_zero) 0 (take l (drop 20 buf)))[l := 0]) = 129"
    using n len assms(1) by simp
  ultimately show "\<exists>m. parse_update_start_msg buf n = Inr m \<and> update_start_type m = wire_type buf \<and>
        length (update_start_img_url m) = 129 \<and> unat (update_start_img_url_len m) < 128"
    using eq n by (simp add: Let_def)
qed (simp add: parse_update_start_msg_def)

lemma parse_relay_button_config_msg_eq:
  assumes "length buf = n"
  defines "l \<equiv> unat (wire_type (drop 2 buf))"
  shows "n < 4 \<Longrightarrow> parse_relay_button_config_msg buf n = Inr relay_button_config_msg_zero"
    and "4 \<le> n \<Longrightarrow> n \<noteq> 4 + l \<Longrightarrow>
      \<exists>m. parse_relay_button_config_msg buf n = Inr m \<and> relay_button_config_type m = MSGTYPE_INVALID"
    and "n = 4 + l \<Longrightarrow> l < 6 \<Longrightarrow> parse_relay_button_config_msg buf n = Inl OutOfBounds"
    and "n = 4 + l \<Longrightarrow> 6 \<le> l \<Longrightarrow>
      \<exists>m. parse_relay_button_config_msg buf n = Inr m \<and> relay_button_config_type m = wire_type buf"
proof -
  have six: "rd_bind (rd_repeat 6 parse_uint8) f bs = Inl OutOfBounds" if "length bs < 6"
    for bs and f :: "bytes \<Rightarrow> relay_button_config_msg_t reader"
    using rd_takes_Inl [OF rd_takes_repeat [OF rd_takes_prims(1), of 6]] that by (simp add: rd_bind_def)
  have "parse_relay_button_config_msg buf n =
      (if n \<noteq> 4 + l then Inr (relay_button_config_msg_zero\<lparr>relay_button_config_mode_len := wire_type (drop 2 buf)\<rparr>)
       else if l < 6 then Inl OutOfBounds
       else Inr \<lparr>relay_button_config_type = wire_type buf,
          relay_button_config_mode_len = wire_type (drop 2 buf),
          relay_button_config_modes = take 6 (drop 4 buf)\<rparr>)"
    if "4 \<le> n"
  proof (cases "n = 4 + l")
    case True
    then have "length (drop 4 buf) = l" using assms(1) by simp
    then show ?thesis
      using that True assms(1) six [of "drop 4 buf"] rd_step(8) [of 6 "drop 4 buf"]
      by (cases "l < 6") (simp_all add: parse_relay_button_config_msg_def rd_eval l_def [symmetric])
  next
    case False
    then show ?thesis
      using that assms(1) by (simp add: parse_relay_button_config_msg_def rd_eval l_def [symmetric])
  qed
  then show "4 \<le> n \<Longrightarrow> n \<noteq> 4 + l \<Longrightarrow>
      \<exists>m. parse_relay_button_config_msg buf n = Inr m \<and> relay_button_config_type m = MSGTYPE_INVALID"
    "n = 4 + l \<Longrightarrow> l < 6 \<Longrightarrow> parse_relay_button_config_msg buf n = Inl OutOfBounds"
    "n = 4 + l \<Longrightarrow> 6 \<le> l \<Longrightarrow>
      \<exists>m. parse_relay_button_config_msg buf n = Inr m \<and> relay_button_config_type m = wire_type buf"
    by (simp_all add: relay_button_config_msg_zero_def)
qed (simp add: parse_relay_button_config_msg_def)

lemma parse_relay_schedule_msg_eq:
  assumes "length buf = n"
  shows "n < 88 \<Longrightarrow> parse_relay_schedule_msg buf n = Inr relay_schedule_msg_zero"
    and "88 \<le> n \<Longrightarrow> wire_type (drop 2 buf) \<noteq> 84 \<Longrightarrow> parse_relay_schedule_msg buf n = Inl Abort"
    and "88 \<le> n \<Longrightarrow> wire_type (drop 2 buf) = 84 \<Longrightarrow>
      \<exists>m. parse_relay_schedule_msg buf n = Inr m \<and> relay_schedule_type m = wire_type buf"
  using assms(1) by (simp_all add: parse_relay_schedule_msg_def rd_eval)

lemma parse_environment_cloud_cover_msg_eq:
  assumes "length buf = n"
  shows "n < 14 \<Longrightarrow> parse_environment_cloud_cover_msg buf n = Inr environment_cloud_cover_msg_zero"
    and "14 \<le> n \<Longrightarrow> wire_type (drop 12 buf) \<noteq> 96 \<Longrightarrow>
      parse_environment_cloud_cover_msg buf n = Inl Abort"
    and "14 \<le> n \<Longrightarrow> n < 206 \<Longrightarrow> wire_type (drop 12 buf) = 96 \<Longrightarrow>
      parse_environment_cloud_cover_msg buf n = Inl OutOfBounds"
    and "206 \<le> n \<Longrightarrow> wire_type (drop 12 buf) = 96 \<Longrightarrow>
      \<exists>m. parse_environment_cloud_cover_msg buf n = Inr m \<and>
        environment_cloud_cover_type m = wire_type buf"
proof -
  note rep = rd_takes_repeat [OF rd_takes_prims(3), of 96]
  show "14 \<le> n \<Longrightarrow> n < 206 \<Longrightarrow> wire_type (drop 12 buf) = 96 \<Longrightarrow>
      parse_environment_cloud_cover_msg buf n = Inl OutOfBounds"
    using assms(1) rd_takes_Inl [OF rep, of "drop 14 buf"]
    by (simp add: parse_environment_cloud_cover_msg_def rd_eval) (simp add: rd_bind_def)
  show "206 \<le> n \<Longrightarrow> wire_type (drop 12 buf) = 96 \<Longrightarrow>
      \<exists>m. parse_environment_cloud_cover_msg buf n = Inr m \<and>
        environment_cloud_cover_type m = wire_type buf"
  proof -
    assume n: "206 \<le> n" "wire_type (drop 12 buf) = 96"
    then have "96 * 2 \<le> length (drop 14 buf)" using assms(1) by simp
    from rd_takes_Inr [OF rep this] obtain ps where
      "rd_repeat 96 parse_uint16 (drop 14 buf) = Inr (ps, drop 206 buf)" by auto
    then have "rd_bind (rd_repeat 96 parse_uint16) f (drop 14 buf) = f ps (drop 206 buf)"
      for f :: "u16 list \<Rightarrow> environment_cloud_cover_msg_t reader" by (simp add: rd_bind_def)
    moreover have "drop 2 (drop 12 buf) = drop 14 buf" by simp
    ultimately show ?thesis
      using n assms(1) by (simp add: parse_environment_cloud_cover_msg_def rd_eval del: drop_drop) simp
  qed
qed (use assms(1) in \<open>simp_all add: parse_environment_cloud_cover_msg_def rd_eval\<close>)

lemma parse_wireless_credentials_msg_eq:
  assumes "length buf = n"
  shows "n < 7 \<Longrightarrow> parse_wireless_credentials_msg buf n = Inr wireless_credentials_msg_zero"
    and "7 \<le> n \<Longrightarrow> parse_wireless_credentials_msg buf n = Inl Abort"
  using assms(1) by (simp_all add: parse_wireless_credentials_msg_def rd_eval)

lemma parse_wireless_tx_power_msg_eq:
  assumes "length buf = n"
  shows "n \<noteq> 4 \<Longrightarrow> parse_wireless_tx_power_msg buf n = Inr wireless_tx_power_msg_zero"
    and "n = 4 \<Longrightarrow> parse_wireless_tx_power_msg buf n = Inl OutOfBounds"
  using assms(1)
  by (simp_all add: parse_wireless_tx_power_msg_def rd_eval rd_bind_def parse_int16_def parse_uint8_def
      parse_uint16_def)

lemma parse_wireless_enable_msg_eq:
  assumes "length buf = n"
  shows "n \<noteq> 2 \<Longrightarrow> parse_wireless_enable_msg buf n = Inr wireless_enable_msg_zero"
    and "n = 2 \<Longrightarrow> parse_wireless_enable_msg buf n = Inl OutOfBounds"
  using assms(1)
  by (simp_all add: parse_wireless_enable_msg_def rd_eval rd_bind_def parse_uint8_def parse_uint16_def)

lemma parse_environment_position_msg_eq:
  assumes "length buf = n"
  shows "n < 10 \<Longrightarrow> parse_environment_position_msg buf n = Inr environment_position_msg_zero"
    and "10 \<le> n \<Longrightarrow> n < 18 \<Longrightarrow> parse_environment_position_msg buf n = Inl OutOfBounds"
    and "18 \<le> n \<Longrightarrow>
      \<exists>m. parse_environment_position_msg buf n = Inr m \<and> environment_position_type m = wire_type buf"
  using assms(1)
  by (simp_all add: parse_environment_position_msg_def rd_eval)
    (simp add: rd_bind_def parse_int64_def)

subsection \<open>Summary\<close>

text \<open>Every parser of a message of fixed size, except the four of the next theorem, accepts exactly
  the messages of its length: it then reads no byte outside the message and keeps the type; any other
  length gives the type \<open>MSGTYPE_INVALID\<close>.\<close>

lemma fixed_parsers_exact:
  "message_parser parse_connection_status_msg (\<lambda>n. n = 2 + 8 + 3 * 4) connection_status_type \<and>
   message_parser parse_identify_msg (\<lambda>n. n = 2 + 2 * 1) identify_type \<and>
   message_parser parse_update_install_msg (\<lambda>n. n = 2 * 4 + 2) update_install_type \<and>
   message_parser parse_update_stop_msg (\<lambda>n. n = 2) update_stop_type \<and>
   message_parser parse_meter_current_limit_msg (\<lambda>n. n = 2 + 4) meter_current_limit_type \<and>
   message_parser parse_meter_clear_alarms_msg (\<lambda>n. n = 2 + 8) meter_alarms_type \<and>
   message_parser parse_energy_price_threshold_msg (\<lambda>n. n = 2 + 4) energy_price_threshold_type \<and>
   message_parser parse_energy_price_cheap_period_msg (\<lambda>n. n = 2 + 1) energy_price_cheap_period_type \<and>
   message_parser parse_energy_price_tariff_msg (\<lambda>n. n = 2 + 2) energy_price_tariff_type \<and>
   message_parser parse_wireless_channel_msg (\<lambda>n. n = 2 + 1 + 1) wireless_channel_type \<and>
   message_parser parse_relay_mode_msg (\<lambda>n. n = 2 + 1) relay_mode_type \<and>
   message_parser parse_relay_state_msg (\<lambda>n. n = 2 + 1) relay_state_type \<and>
   message_parser parse_relay_default_state_msg (\<lambda>n. n = 2 + 1) relay_default_state_type \<and>
   message_parser parse_relay_pwm_msg (\<lambda>n. n = 2 * 2 + 2 * 1) relay_pwm_type \<and>
   message_parser parse_relay_set_inverted_output_msg (\<lambda>n. n = 2 + 1) relay_inverted_output_type \<and>
   message_parser parse_relay_one_shot_msg (\<lambda>n. n = 2 + 1 + 8 + 8 + 1) relay_one_shot_type \<and>
   message_parser parse_environment_sunny_time_msg (\<lambda>n. n = 2 + 1) environment_sunny_time_type \<and>
   message_parser parse_status_msg (\<lambda>n. n = 2 * 2 + 1) status_type \<and>
   message_parser parse_get_msg (\<lambda>n. n = 2 * 2 + 4) get_type"
  by (intro conjI) (rule connection_status_parser.message_parser_axioms
      identify_parser.message_parser_axioms
      update_install_parser.message_parser_axioms
      update_stop_parser.message_parser_axioms
      meter_current_limit_parser.message_parser_axioms
      meter_clear_alarms_parser.message_parser_axioms
      energy_price_threshold_parser.message_parser_axioms
      energy_price_cheap_period_parser.message_parser_axioms
      energy_price_tariff_parser.message_parser_axioms
      wireless_channel_parser.message_parser_axioms
      relay_mode_parser.message_parser_axioms
      relay_state_parser.message_parser_axioms
      relay_default_state_parser.message_parser_axioms
      relay_pwm_parser.message_parser_axioms
      relay_set_inverted_output_parser.message_parser_axioms
      relay_one_shot_parser.message_parser_axioms
      environment_sunny_time_parser.message_parser_axioms
      status_parser.message_parser_axioms
      get_parser.message_parser_axioms)+

text \<open>The parsers whose length check disagrees with what they read: no message of any length is
  accepted by the parser of the wireless enable message (a correct one has four bytes) or of the
  transmission power (a correct one has five) without a read past the end of the message; every
  credentials message of at least seven bytes fails an assertion; a position message of the length the parser
  checks for (ten bytes) is read past its end.\<close>

lemma wireless_and_position_parsers_faulty:
  "parse_wireless_enable_msg [a, b, c, d] 4 = Inr wireless_enable_msg_zero \<and>
   parse_wireless_enable_msg [a, b] 2 = Inl OutOfBounds \<and>
   parse_wireless_tx_power_msg [a, b, c, d, e] 5 = Inr wireless_tx_power_msg_zero \<and>
   parse_wireless_tx_power_msg [a, b, c, d] 4 = Inl OutOfBounds \<and>
   parse_wireless_credentials_msg (a # b # c # d # e # f # g # rest) (7 + length rest) = Inl Abort \<and>
   parse_environment_position_msg [a, b, c, d, e, f, g, h, i, j] 10 = Inl OutOfBounds"
  by (simp add: parse_wireless_enable_msg_eq parse_wireless_tx_power_msg_eq
      parse_wireless_credentials_msg_eq parse_environment_position_msg_eq)

end
