(* ===== verification/EM_Serializer.thy ===== *)
theory EM_Serializer
  imports EM_Parser
begin

section \<open>Serializing messages (em_tcp_protocol/serializer.c)\<close>

text \<open>
  A writer takes the buffer and the position of the write pointer and returns both after it wrote;
  a write outside the object is a fault. A serializer runs its writers from the start of the buffer
  and returns the buffer and the distance the pointer moved.
\<close>

subsection \<open>Writers\<close>

type_synonym writer = "bytes \<times> nat \<Rightarrow> (bytes \<times> nat) outcome"

definition emit :: "bytes \<Rightarrow> writer" where
  "emit bs = (\<lambda>(mem, p). if p + length bs \<le> length mem
     then Inr (overwrite mem p bs, p + length bs) else Inl OutOfBounds)"

definition serialize_uint8 :: "u8 \<Rightarrow> writer" where
  "serialize_uint8 value = emit [value]"

definition serialize_int8 :: "i8 \<Rightarrow> writer" where
  "serialize_int8 value = emit [value]"

definition wire_u16 :: "u16 \<Rightarrow> bytes" where
  "wire_u16 value = [ucast (value AND 0xFF), ucast (drop_bit 8 value AND 0xFF)]"

definition serialize_uint16 :: "u16 \<Rightarrow> writer" where
  "serialize_uint16 value = emit (wire_u16 value)"

definition serialize_int16 :: "i16 \<Rightarrow> writer" where
  "serialize_int16 value = emit (wire_u16 value)"

definition wire_u32 :: "u32 \<Rightarrow> bytes" where
  "wire_u32 value = [ucast (value AND 0xFF), ucast (drop_bit 8 value AND 0xFF),
     ucast (drop_bit 16 value AND 0xFF), ucast (drop_bit 24 value AND 0xFF)]"

definition serialize_uint32 :: "u32 \<Rightarrow> writer" where
  "serialize_uint32 value = emit (wire_u32 value)"

definition serialize_int32 :: "i32 \<Rightarrow> writer" where
  "serialize_int32 value = emit (wire_u32 value)"

definition wire_u64 :: "u64 \<Rightarrow> bytes" where
  "wire_u64 value = [ucast (value AND 0xFF), ucast (drop_bit 8 value AND 0xFF),
     ucast (drop_bit 16 value AND 0xFF), ucast (drop_bit 24 value AND 0xFF),
     ucast (drop_bit 32 value AND 0xFF), ucast (drop_bit 40 value AND 0xFF),
     ucast (drop_bit 48 value AND 0xFF), ucast (drop_bit 56 value AND 0xFF)]"

definition serialize_uint64 :: "u64 \<Rightarrow> writer" where
  "serialize_uint64 value = emit (wire_u64 value)"

definition serialize_int64 :: "i64 \<Rightarrow> writer" where
  "serialize_int64 value = emit (wire_u64 value)"

fun ser_seq :: "writer list \<Rightarrow> writer" where
  "ser_seq [] st = Inr st"
| "ser_seq (w # ws) st = obind (w st) (ser_seq ws)"

text \<open>A loop over the first \<open>n\<close> elements of an array, and \<open>serialize_string\<close>, whose \<open>memcpy\<close>
  copies as many bytes.\<close>

definition serialize_array :: "('a \<Rightarrow> writer) \<Rightarrow> 'a list \<Rightarrow> nat \<Rightarrow> writer" where
  "serialize_array ser xs n st =
     (if n \<le> length xs then ser_seq (map ser (take n xs)) st else Inl OutOfBounds)"

definition serialize_string :: "bytes \<Rightarrow> nat \<Rightarrow> writer" where
  "serialize_string str n st =
     (if n \<le> length str then emit (take n str) st else Inl OutOfBounds)"

definition serialize_assert :: "bool \<Rightarrow> writer" where
  "serialize_assert b st = c_assert b (Inr st)"

definition ser_run :: "bytes \<Rightarrow> writer list \<Rightarrow> (bytes \<times> nat) outcome" where
  "ser_run buffer ws = ser_seq ws (buffer, 0)"

subsection \<open>Message serializers\<close>

definition serialize_client_info_msg :: "client_info_msg_t \<Rightarrow> bytes \<Rightarrow> (bytes \<times> nat) outcome" where
  "serialize_client_info_msg msg buffer =
     ser_run buffer
       [serialize_uint16 (client_info_type msg), serialize_uint16 (client_info_dev_type msg),
       serialize_uint64 (client_info_dev_id msg), serialize_uint32 (client_info_unique_id msg),
       serialize_uint32 (client_info_ip_addr msg), serialize_uint8 (client_info_hw_ver msg),
       serialize_uint32 (client_info_app_ver msg),
       serialize_uint8 (client_info_reconn_reason msg),
       serialize_uint8 (client_info_reset_reason msg), serialize_uint8 (client_info_reserved msg),
       serialize_uint16 (client_info_session_id msg), serialize_uint32 (client_info_CRC msg)]"

definition serialize_installed_fw_msg ::
  "installed_fw_msg_t \<Rightarrow> bytes \<Rightarrow> (bytes \<times> nat) outcome" where
  "serialize_installed_fw_msg msg buffer =
     ser_run buffer
       [serialize_uint16 (installed_fw_type msg), serialize_uint32 (installed_fw_inst_fw_ver msg),
       serialize_uint32 (installed_fw_downloaded_fw_ver msg),
       serialize_uint32 (ucast (installed_fw_hw_ver msg)),
       serialize_uint64 (installed_fw_build_time msg)]"

definition serialize_update_status_msg ::
  "update_status_msg_t \<Rightarrow> bytes \<Rightarrow> (bytes \<times> nat) outcome" where
  "serialize_update_status_msg msg buffer =
     ser_run buffer
       [serialize_uint16 (update_status_type msg), serialize_uint32 (update_status_fw_ver msg),
       serialize_uint8 (update_status_progress msg), serialize_uint8 (update_status_phase msg),
       serialize_uint8 (update_status_error msg)]"

definition serialize_energy_price_day_get_msg ::
  "energy_price_day_get_msg_t \<Rightarrow> bytes \<Rightarrow> (bytes \<times> nat) outcome" where
  "serialize_energy_price_day_get_msg msg buffer =
     ser_run buffer
       [serialize_uint16 (energy_price_day_get_type msg),
       serialize_uint16 (energy_price_day_get_tariff msg),
       serialize_uint64 (energy_price_day_get_day_time msg)]"

definition serialize_energy_active_price_limit_msg ::
  "energy_price_active_price_limit_msg_t \<Rightarrow> bytes \<Rightarrow> (bytes \<times> nat) outcome" where
  "serialize_energy_active_price_limit_msg msg buffer =
     ser_run buffer
       [serialize_uint16 (energy_price_active_price_limit_type msg),
       serialize_int32 (energy_price_active_price_limit_price msg)]"

definition serialize_energy_price_cheap_period_msg ::
  "energy_price_cheap_period_msg_t \<Rightarrow> bytes \<Rightarrow> (bytes \<times> nat) outcome" where
  "serialize_energy_price_cheap_period_msg msg buffer =
     ser_run buffer
       [serialize_uint16 (energy_price_cheap_period_type msg),
       serialize_uint8 (energy_price_cheap_period_quarters msg)]"

definition serialize_energy_price_active_price_limit_msg ::
  "energy_price_active_price_limit_msg_t \<Rightarrow> bytes \<Rightarrow> (bytes \<times> nat) outcome" where
  "serialize_energy_price_active_price_limit_msg msg buffer =
     ser_run buffer
       [serialize_uint16 (energy_price_active_price_limit_type msg),
       serialize_int32 (energy_price_active_price_limit_price msg)]"

definition serialize_energy_price_tariff_msg ::
  "energy_price_tariff_msg_t \<Rightarrow> bytes \<Rightarrow> (bytes \<times> nat) outcome" where
  "serialize_energy_price_tariff_msg msg buffer =
     ser_run buffer
       [serialize_uint16 (energy_price_tariff_type msg),
       serialize_uint16 (energy_price_tariff_tariff msg)]"

definition serialize_wireless_status_msg ::
  "u8 \<Rightarrow> u8 \<Rightarrow> u32 \<Rightarrow> i8 \<Rightarrow> u8 \<Rightarrow> bytes \<Rightarrow> (bytes \<times> nat) outcome" where
  "serialize_wireless_status_msg protocol enabled ip rssi lqi buffer =
     ser_run buffer
       [serialize_uint16 MSGTYPE_WIRELESS_STATUS, serialize_uint8 protocol,
       serialize_uint8 enabled, serialize_uint32 ip, serialize_int8 rssi, serialize_uint8 lqi]"

definition serialize_wireless_credentials_msg ::
  "wireless_credentials_msg_t \<Rightarrow> bytes \<Rightarrow> (bytes \<times> nat) outcome" where
  "serialize_wireless_credentials_msg msg buffer =
     ser_run buffer
       [serialize_uint16 MSGTYPE_WIRELESS_CREDENTIALS,
       serialize_uint8 (wireless_credentials_protocol msg),
       serialize_assert (unat (wireless_credentials_network_len msg) < 32),
       serialize_uint16 (wireless_credentials_network_len msg),
       serialize_string (wireless_credentials_network msg) (unat (wireless_credentials_network_len msg)),
       serialize_assert (unat (wireless_credentials_password_len msg) < 64),
       serialize_uint16 (wireless_credentials_password_len msg),
       serialize_string (wireless_credentials_password msg) (unat (wireless_credentials_password_len msg))]"

definition serialize_wireless_tx_power_msg :: "u8 \<Rightarrow> i16 \<Rightarrow> bytes \<Rightarrow> (bytes \<times> nat) outcome" where
  "serialize_wireless_tx_power_msg protocol tx_power buffer =
     ser_run buffer
       [serialize_uint16 MSGTYPE_WIRELESS_TX_POWER, serialize_uint8 protocol,
       serialize_int16 tx_power]"

definition serialize_wireless_channel_msg :: "u8 \<Rightarrow> u8 \<Rightarrow> bytes \<Rightarrow> (bytes \<times> nat) outcome" where
  "serialize_wireless_channel_msg protocol channel buffer =
     ser_run buffer
       [serialize_uint16 MSGTYPE_WIRELESS_CHANNEL, serialize_uint8 protocol,
       serialize_uint8 channel]"

definition serialize_relay_mode_msg :: "relay_mode_msg_t \<Rightarrow> bytes \<Rightarrow> (bytes \<times> nat) outcome" where
  "serialize_relay_mode_msg msg buffer =
     ser_run buffer
       [serialize_uint16 (relay_mode_type msg), serialize_uint8 (relay_mode_mode msg)]"

definition serialize_relay_default_state_msg ::
  "relay_default_state_msg_t \<Rightarrow> bytes \<Rightarrow> (bytes \<times> nat) outcome" where
  "serialize_relay_default_state_msg msg buffer =
     ser_run buffer
       [serialize_uint16 (relay_default_state_type msg),
       serialize_uint8 (relay_default_state_state msg)]"

definition serialize_relay_state_msg :: "relay_state_msg_t \<Rightarrow> bytes \<Rightarrow> (bytes \<times> nat) outcome" where
  "serialize_relay_state_msg msg buffer =
     ser_run buffer
       [serialize_uint16 (relay_state_type msg), serialize_uint8 (relay_state_state msg)]"

definition serialize_relay_pwm_msg :: "relay_pwm_msg_t \<Rightarrow> bytes \<Rightarrow> (bytes \<times> nat) outcome" where
  "serialize_relay_pwm_msg msg buffer =
     ser_run buffer
       [serialize_uint16 (relay_pwm_type msg), serialize_uint8 (relay_pwm_enabled msg),
       serialize_uint16 (relay_pwm_period msg), serialize_uint8 (relay_pwm_duty_cycle msg)]"

definition serialize_relay_output_inverted_msg :: "u8 \<Rightarrow> bytes \<Rightarrow> (bytes \<times> nat) outcome" where
  "serialize_relay_output_inverted_msg inverted buffer =
     ser_run buffer
       [serialize_uint16 MSGTYPE_RELAY_INVERTED_OUTPUT, serialize_uint8 inverted]"

definition serialize_relay_one_shot_msg ::
  "relay_one_shot_msg_t \<Rightarrow> bytes \<Rightarrow> (bytes \<times> nat) outcome" where
  "serialize_relay_one_shot_msg msg buffer =
     ser_run buffer
       [serialize_uint16 (relay_one_shot_type msg), serialize_uint8 (relay_one_shot_enabled msg),
       serialize_uint64 (relay_one_shot_start msg), serialize_uint64 (relay_one_shot_end msg),
       serialize_uint8 (relay_one_shot_state msg)]"

definition serialize_relay_defined_modes_msg ::
  "relay_button_config_msg_t \<Rightarrow> bytes \<Rightarrow> (bytes \<times> nat) outcome" where
  "serialize_relay_defined_modes_msg msg buffer =
     ser_run buffer
       [serialize_uint16 (relay_button_config_type msg),
       serialize_uint16 (relay_button_config_mode_len msg),
       serialize_array serialize_uint8 (relay_button_config_modes msg) (unat (relay_button_config_mode_len msg))]"

definition serialize_relay_schedule_msg ::
  "relay_schedule_msg_t \<Rightarrow> bytes \<Rightarrow> (bytes \<times> nat) outcome" where
  "serialize_relay_schedule_msg msg buffer =
     ser_run buffer
       [serialize_uint16 (relay_schedule_type msg),
       serialize_uint16 (relay_schedule_schedule_len msg),
       serialize_assert (unat (relay_schedule_schedule_len msg) = 84),
       serialize_array serialize_uint8 (relay_schedule_schedule msg) 84]"

definition serialize_relay_snapshots_msg ::
  "i64 \<Rightarrow> i8 \<Rightarrow> u32 list \<Rightarrow> bytes \<Rightarrow> i16 list \<Rightarrow> u16 \<Rightarrow> bytes \<Rightarrow> (bytes \<times> nat) outcome" where
  "serialize_relay_snapshots_msg ref_timestamp price_factor t_offset snapshots thresholds entries_num buffer =
     ser_run buffer
       [serialize_uint16 MSGTYPE_RELAY_SNAPSHOTS, serialize_uint64 ref_timestamp,
       serialize_int8 price_factor, serialize_uint16 entries_num,
       serialize_array serialize_uint32 t_offset (unat entries_num), serialize_uint16 entries_num,
       serialize_array serialize_uint8 snapshots (unat entries_num), serialize_uint16 entries_num,
       serialize_array serialize_int16 thresholds (unat entries_num)]"

definition serialize_energy_price_threshold_msg ::
  "energy_price_threshold_msg_t \<Rightarrow> bytes \<Rightarrow> (bytes \<times> nat) outcome" where
  "serialize_energy_price_threshold_msg msg buffer =
     ser_run buffer
       [serialize_uint16 (energy_price_threshold_type msg),
       serialize_int32 (energy_price_threshold_price msg)]"

definition serialize_environment_sunny_time_msg ::
  "environment_sunny_time_msg_t \<Rightarrow> bytes \<Rightarrow> (bytes \<times> nat) outcome" where
  "serialize_environment_sunny_time_msg msg buffer =
     ser_run buffer
       [serialize_uint16 (environment_sunny_time_type msg),
       serialize_uint8 (environment_sunny_time_percentage msg)]"

definition serialize_environment_cloud_cover_msg ::
  "environment_cloud_cover_msg_t \<Rightarrow> bytes \<Rightarrow> (bytes \<times> nat) outcome" where
  "serialize_environment_cloud_cover_msg msg buffer =
     ser_run buffer
       [serialize_uint16 (environment_cloud_cover_type msg),
       serialize_uint64 (environment_cloud_cover_ref_timestamp msg),
       serialize_uint16 (environment_cloud_cover_period msg),
       serialize_uint16 (environment_cloud_cover_percentage_len msg),
       serialize_array serialize_uint16 (environment_cloud_cover_percentage msg) (unat (environment_cloud_cover_percentage_len msg))]"

definition serialize_environment_position_msg ::
  "environment_position_msg_t \<Rightarrow> bytes \<Rightarrow> (bytes \<times> nat) outcome" where
  "serialize_environment_position_msg msg buffer =
     ser_run buffer
       [serialize_uint16 (environment_position_type msg),
       serialize_int64 (environment_position_latitude msg),
       serialize_int64 (environment_position_longitude msg)]"

definition serialize_meter_meas_msg ::
  "i64 \<Rightarrow> bytes \<Rightarrow> i32 list \<Rightarrow> u16 \<Rightarrow> bytes \<Rightarrow> (bytes \<times> nat) outcome" where
  "serialize_meter_meas_msg timestamp meas_type values entries_num buffer =
     ser_run buffer
       [serialize_uint16 MSGTYPE_METER_MEASUREMENT, serialize_uint64 timestamp,
       serialize_uint16 entries_num, serialize_array serialize_uint8 meas_type (unat entries_num),
       serialize_uint16 entries_num, serialize_array serialize_int32 values (unat entries_num)]"

definition serialize_meter_meas_history_msg ::
  "i64 \<Rightarrow> u8 \<Rightarrow> u32 list \<Rightarrow> i32 list \<Rightarrow> u16 \<Rightarrow> bytes \<Rightarrow> (bytes \<times> nat) outcome" where
  "serialize_meter_meas_history_msg ref_timestamp meas_type t_offset values entries_num buffer =
     ser_run buffer
       [serialize_uint16 MSGTYPE_METER_MEASUREMENT_HISTORY, serialize_uint64 ref_timestamp,
       serialize_uint8 meas_type, serialize_uint16 entries_num,
       serialize_array serialize_uint32 t_offset (unat entries_num), serialize_uint16 entries_num,
       serialize_array serialize_int32 values (unat entries_num)]"

definition serialize_meter_current_limit_msg :: "i32 \<Rightarrow> bytes \<Rightarrow> (bytes \<times> nat) outcome" where
  "serialize_meter_current_limit_msg current_limit buffer =
     ser_run buffer
       [serialize_uint16 MSGTYPE_METER_CURRENT_LIMIT, serialize_int32 current_limit]"

definition serialize_meter_alarms_msg :: "u64 \<Rightarrow> bytes \<Rightarrow> (bytes \<times> nat) outcome" where
  "serialize_meter_alarms_msg alarm_mask buffer =
     ser_run buffer
       [serialize_uint16 MSGTYPE_METER_ALARMS, serialize_uint64 alarm_mask]"

definition serialize_energy_accumulated_msg ::
  "i64 \<Rightarrow> u8 \<Rightarrow> u64 \<Rightarrow> bytes \<Rightarrow> (bytes \<times> nat) outcome" where
  "serialize_energy_accumulated_msg timestamp meas_type energy buffer =
     ser_run buffer
       [serialize_uint16 MSGTYPE_ENERGY_ACCUMULATED, serialize_uint64 timestamp,
       serialize_uint8 meas_type, serialize_uint64 energy]"

definition serialize_energy_history_msg ::
  "i64 \<Rightarrow> u8 \<Rightarrow> u32 \<Rightarrow> u32 list \<Rightarrow> u16 \<Rightarrow> bytes \<Rightarrow> (bytes \<times> nat) outcome" where
  "serialize_energy_history_msg ref_timestamp meas_type interval energy entries_num buffer =
     ser_run buffer
       [serialize_uint16 MSGTYPE_ENERGY_HISTORY, serialize_uint64 ref_timestamp,
       serialize_uint8 meas_type, serialize_uint32 interval, serialize_uint16 entries_num,
       serialize_array serialize_uint32 energy (unat entries_num)]"

definition serialize_diag_coredump_start_msg ::
  "diag_coredump_start_msg_t \<Rightarrow> bytes \<Rightarrow> (bytes \<times> nat) outcome" where
  "serialize_diag_coredump_start_msg msg buffer =
     ser_run buffer
       [serialize_uint16 (diag_coredump_start_type msg),
       serialize_uint32 (diag_coredump_start_coredump_version msg),
       serialize_uint32 (diag_coredump_start_numeric_app_version msg)]"

definition serialize_diag_coredump_body_msg ::
  "diag_coredump_body_msg_t \<Rightarrow> bytes \<Rightarrow> (bytes \<times> nat) outcome" where
  "serialize_diag_coredump_body_msg msg buffer =
     ser_run buffer
       [serialize_uint16 (diag_coredump_body_type msg),
       serialize_uint32 (diag_coredump_body_coredump_version msg),
       serialize_uint16 (diag_coredump_body_block_len msg),
       serialize_array serialize_uint8 (diag_coredump_body_block_data msg) (unat (diag_coredump_body_block_len msg))]"

definition serialize_diag_coredump_end_msg ::
  "diag_coredump_end_msg_t \<Rightarrow> bytes \<Rightarrow> (bytes \<times> nat) outcome" where
  "serialize_diag_coredump_end_msg msg buffer =
     ser_run buffer
       [serialize_uint16 (diag_coredump_end_type msg),
       serialize_uint32 (diag_coredump_end_coredump_version msg)]"

definition serialize_diag_debug_info_msg ::
  "diag_debug_info_msg_t \<Rightarrow> bytes \<Rightarrow> (bytes \<times> nat) outcome" where
  "serialize_diag_debug_info_msg msg buffer =
     ser_run buffer
       [serialize_uint16 (diag_debug_info_type msg), serialize_uint16 (diag_debug_info_len msg),
       serialize_array serialize_uint8 (diag_debug_info_data msg) (unat (diag_debug_info_len msg))]"

definition serialize_diag_logs_settings_msg ::
  "diag_logs_settings_msg_t \<Rightarrow> bytes \<Rightarrow> (bytes \<times> nat) outcome" where
  "serialize_diag_logs_settings_msg msg buffer =
     ser_run buffer
       [serialize_uint16 (diag_logs_settings_type msg),
       serialize_uint8 (diag_logs_settings_medium msg),
       serialize_array serialize_uint64 (diag_logs_settings_level_modules msg) 6]"

definition serialize_status_msg :: "status_msg_t \<Rightarrow> bytes \<Rightarrow> (bytes \<times> nat) outcome" where
  "serialize_status_msg msg buffer =
     ser_run buffer
       [serialize_uint16 (status_type msg), serialize_uint8 (status_error msg),
       serialize_uint16 (status_rq_type msg)]"

subsection \<open>What a writer stores\<close>

definition writes :: "writer \<Rightarrow> bytes \<Rightarrow> bool" where
  "writes w bs \<longleftrightarrow> (\<forall>mem p. p \<le> length mem \<longrightarrow> w (mem, p) = emit bs (mem, p))"

lemma writes_prims:
  "writes (serialize_uint8 a) [a]" "writes (serialize_int8 a) [a]"
  "writes (serialize_uint16 b) (wire_u16 b)" "writes (serialize_int16 b) (wire_u16 b)"
  "writes (serialize_uint32 c) (wire_u32 c)" "writes (serialize_int32 c) (wire_u32 c)"
  "writes (serialize_uint64 d) (wire_u64 d)" "writes (serialize_int64 d) (wire_u64 d)"
  by (simp_all add: writes_def serialize_uint8_def serialize_int8_def serialize_uint16_def
      serialize_int16_def serialize_uint32_def serialize_int32_def serialize_uint64_def
      serialize_int64_def)

lemma writes_Nil: "writes (ser_seq []) []"
  by (simp add: writes_def emit_def)

lemma writes_Cons:
  assumes "writes w a" "writes (ser_seq ws) b"
  shows "writes (ser_seq (w # ws)) (a @ b)"
  unfolding writes_def
proof (intro allI impI)
  fix mem :: bytes and p :: nat
  assume p: "p \<le> length mem"
  show "ser_seq (w # ws) (mem, p) = emit (a @ b) (mem, p)"
  proof (cases "p + length a \<le> length mem")
    case True
    then have "w (mem, p) = Inr (overwrite mem p a, p + length a)"
      using assms(1) p by (simp add: writes_def emit_def)
    moreover have "ser_seq ws (overwrite mem p a, p + length a) =
        emit b (overwrite mem p a, p + length a)"
      using assms(2) True by (simp add: writes_def)
    ultimately show ?thesis using True by (simp add: emit_def overwrite_append)
  next
    case False
    then show ?thesis using assms(1) p by (simp add: writes_def emit_def)
  qed
qed

lemma writes_array:
  assumes "n \<le> length xs" "\<And>x. writes (ser x) (f x)"
  shows "writes (serialize_array ser xs n) (concat (map f (take n xs)))"
proof -
  have "writes (ser_seq (map ser ys)) (concat (map f ys))" for ys
  proof (induction ys)
    case Nil
    show ?case using writes_Nil by (simp only: list.map concat.simps)
  next
    case (Cons y ys)
    show ?case using writes_Cons [OF assms(2) [of y] Cons] by (simp only: list.map concat.simps)
  qed
  then show ?thesis using assms(1) by (simp add: writes_def serialize_array_def)
qed

lemma writes_arrays:
  "n \<le> length xs \<Longrightarrow> writes (serialize_array serialize_uint8 xs n) (take n xs)"
  "n \<le> length ys \<Longrightarrow> writes (serialize_array serialize_uint16 ys n) (concat (map wire_u16 (take n ys)))"
  "n \<le> length ys \<Longrightarrow> writes (serialize_array serialize_int16 ys n) (concat (map wire_u16 (take n ys)))"
  "n \<le> length zs \<Longrightarrow> writes (serialize_array serialize_uint32 zs n) (concat (map wire_u32 (take n zs)))"
  "n \<le> length zs \<Longrightarrow> writes (serialize_array serialize_int32 zs n) (concat (map wire_u32 (take n zs)))"
  "n \<le> length us \<Longrightarrow> writes (serialize_array serialize_uint64 us n) (concat (map wire_u64 (take n us)))"
  using writes_array [of n xs serialize_uint8 "\<lambda>x. [x]"]
  by (auto intro: writes_array writes_prims)

lemma writes_string: "n \<le> length str \<Longrightarrow> writes (serialize_string str n) (take n str)"
  by (simp add: writes_def serialize_string_def)

lemma writes_assert: "b \<Longrightarrow> writes (serialize_assert b) []"
  by (simp add: writes_def serialize_assert_def emit_def)

lemmas writes_intros = writes_prims writes_Nil writes_Cons writes_arrays writes_string writes_assert

lemma ser_run_writes:
  "writes (ser_seq ws) bs \<Longrightarrow> ser_run mem ws =
     (if length bs \<le> length mem then Inr (overwrite mem 0 bs, length bs) else Inl OutOfBounds)"
  by (simp add: ser_run_def writes_def emit_def)

lemma length_wire [simp]:
  "length (wire_u16 a) = 2" "length (wire_u32 b) = 4" "length (wire_u64 c) = 8"
  by (simp_all add: wire_u16_def wire_u32_def wire_u64_def)

lemma length_concat_wire [simp]:
  "length (concat (map wire_u16 xs)) = 2 * length xs" "length (concat (map wire_u32 ys)) = 4 * length ys"
  "length (concat (map wire_u64 zs)) = 8 * length zs"
  by (induction xs, simp_all) (induction ys, simp_all, induction zs, simp_all)

subsection \<open>Reading back what was written\<close>

lemma bit_byte:
  fixes v :: "'a::len word"
  shows "bit (ucast (ucast (drop_bit k v AND 0xFF) :: u8) :: 'a word) n \<longleftrightarrow>
      n < 8 \<and> n < LENGTH('a) \<and> bit v (k + n)"
    and "bit (ucast (ucast (v AND 0xFF) :: u8) :: 'a word) n \<longleftrightarrow>
      n < 8 \<and> n < LENGTH('a) \<and> bit v n"
proof -
  have m: "(0xFF :: 'a word) = mask 8" by (simp add: mask_numeral)
  show "bit (ucast (ucast (drop_bit k v AND 0xFF) :: u8) :: 'a word) n \<longleftrightarrow>
      n < 8 \<and> n < LENGTH('a) \<and> bit v (k + n)"
    "bit (ucast (ucast (v AND 0xFF) :: u8) :: 'a word) n \<longleftrightarrow> n < 8 \<and> n < LENGTH('a) \<and> bit v n"
    by (auto simp: m bit_simps)
qed

text \<open>The low bytes of a word, put together one by one.\<close>

lemma byte_first: "ucast (ucast (v AND 0xFF) :: u8) = (v AND mask 8 :: 'a::len word)"
  by (rule bit_word_eqI) (simp only: bit_byte bit_and_iff bit_mask_iff, auto)

lemma byte_step:
  "(v AND mask k) OR push_bit k (ucast (ucast (drop_bit k v AND 0xFF) :: u8)) =
     (v AND mask (k + 8) :: 'a::len word)"
proof (rule bit_word_eqI)
  fix n assume n: "n < LENGTH('a)"
  have "bit v (k + (n - k)) = bit v n" if "k \<le> n" using that by simp
  with n show "bit ((v AND mask k) OR push_bit k (ucast (ucast (drop_bit k v AND 0xFF) :: u8))) n =
      bit (v AND mask (k + 8)) n"
    by (cases "k \<le> n")
      (auto simp only: bit_byte bit_or_iff bit_push_bit_iff bit_and_iff bit_mask_iff bit_drop_bit_eq comp_def)
qed

lemma full_mask:
  "(b :: u16) AND mask 16 = b" "(c :: u32) AND mask 32 = c" "(d :: u64) AND mask 64 = d"
  by (rule bit_word_eqI, simp add: bit_simps)+

lemma byte_sums:
  "(8 :: nat) + 8 = 16" "(16 :: nat) + 8 = 24" "(24 :: nat) + 8 = 32" "(32 :: nat) + 8 = 40"
  "(40 :: nat) + 8 = 48" "(48 :: nat) + 8 = 56" "(56 :: nat) + 8 = 64"
  by simp_all

lemma parse_bytes:
  "parse_uint16 (a # b # bs) = Inr (ucast a OR push_bit 8 (ucast b), bs)"
  "parse_int16 (a # b # bs) = Inr (ucast a OR push_bit 8 (ucast b), bs)"
  "parse_uint32 (a # b # c # d # bs) = Inr (ucast a OR push_bit 8 (ucast b) OR push_bit 16 (ucast c)
     OR push_bit 24 (ucast d), bs)"
  "parse_int32 (a # b # c # d # bs) = Inr (ucast a OR push_bit 8 (ucast b) OR push_bit 16 (ucast c)
     OR push_bit 24 (ucast d), bs)"
  "parse_uint64 (a # b # c # d # e # f # g # h # bs) = Inr (ucast a OR push_bit 8 (ucast b)
     OR push_bit 16 (ucast c) OR push_bit 24 (ucast d) OR push_bit 32 (ucast e) OR push_bit 40 (ucast f)
     OR push_bit 48 (ucast g) OR push_bit 56 (ucast h), bs)"
  "parse_int64 (a # b # c # d # e # f # g # h # bs) = Inr (ucast a OR push_bit 8 (ucast b)
     OR push_bit 16 (ucast c) OR push_bit 24 (ucast d) OR push_bit 32 (ucast e) OR push_bit 40 (ucast f)
     OR push_bit 48 (ucast g) OR push_bit 56 (ucast h), bs)"
  by (simp_all add: parse_uint16_def parse_int16_def parse_uint32_def parse_int32_def
      parse_uint64_def parse_int64_def eval_nat_numeral)

lemma parse_wire [byte_laws]:
  "parse_uint8 (a # bs) = Inr (a, bs)"
  "parse_int8 (a # bs) = Inr (a, bs)"
  "parse_uint16 (wire_u16 b @ bs) = Inr (b, bs)"
  "parse_int16 (wire_u16 b @ bs) = Inr (b, bs)"
  "parse_uint32 (wire_u32 c @ bs) = Inr (c, bs)"
  "parse_int32 (wire_u32 c @ bs) = Inr (c, bs)"
  "parse_uint64 (wire_u64 d @ bs) = Inr (d, bs)"
  "parse_int64 (wire_u64 d @ bs) = Inr (d, bs)"
proof -
  have 16: "ucast (ucast (b AND 0xFF) :: u8) OR push_bit 8 (ucast (ucast (drop_bit 8 b AND 0xFF) :: u8)) = b"
    by (simp only: byte_first [of b] byte_step byte_sums or.assoc [symmetric] full_mask)
  have 32: "ucast (ucast (c AND 0xFF) :: u8) OR push_bit 8 (ucast (ucast (drop_bit 8 c AND 0xFF) :: u8)) OR
      push_bit 16 (ucast (ucast (drop_bit 16 c AND 0xFF) :: u8)) OR
      push_bit 24 (ucast (ucast (drop_bit 24 c AND 0xFF) :: u8)) = c"
    by (simp only: byte_first [of c] byte_step byte_sums or.assoc [symmetric] full_mask)
  have 64: "ucast (ucast (d AND 0xFF) :: u8) OR push_bit 8 (ucast (ucast (drop_bit 8 d AND 0xFF) :: u8)) OR
      push_bit 16 (ucast (ucast (drop_bit 16 d AND 0xFF) :: u8)) OR
      push_bit 24 (ucast (ucast (drop_bit 24 d AND 0xFF) :: u8)) OR
      push_bit 32 (ucast (ucast (drop_bit 32 d AND 0xFF) :: u8)) OR
      push_bit 40 (ucast (ucast (drop_bit 40 d AND 0xFF) :: u8)) OR
      push_bit 48 (ucast (ucast (drop_bit 48 d AND 0xFF) :: u8)) OR
      push_bit 56 (ucast (ucast (drop_bit 56 d AND 0xFF) :: u8)) = d"
    by (simp only: byte_first [of d] byte_step byte_sums or.assoc [symmetric] full_mask)
  show "parse_uint16 (wire_u16 b @ bs) = Inr (b, bs)" "parse_int16 (wire_u16 b @ bs) = Inr (b, bs)"
    by (simp_all only: wire_u16_def append.simps parse_bytes 16)
  show "parse_uint32 (wire_u32 c @ bs) = Inr (c, bs)" "parse_int32 (wire_u32 c @ bs) = Inr (c, bs)"
    by (simp_all only: wire_u32_def append.simps parse_bytes 32)
  show "parse_uint64 (wire_u64 d @ bs) = Inr (d, bs)" "parse_int64 (wire_u64 d @ bs) = Inr (d, bs)"
    by (simp_all only: wire_u64_def append.simps parse_bytes 64)
qed (simp_all add: parse_uint8_def parse_int8_def)

lemma rd_bind_parse:
  "r bs = Inr (x, bs') \<Longrightarrow> rd_bind r f bs = f x bs'"
  by (simp add: rd_bind_def)

lemma rd_wire:
  "rd_bind parse_uint8 f8 (a # bs) = f8 a bs" "rd_bind parse_int8 f8 (a # bs) = f8 a bs"
  "rd_bind parse_uint16 f16 (wire_u16 b @ bs) = f16 b bs" "rd_bind parse_uint16 f16 (wire_u16 b) = f16 b []"
  "rd_bind parse_int16 f16 (wire_u16 b @ bs) = f16 b bs" "rd_bind parse_int16 f16 (wire_u16 b) = f16 b []"
  "rd_bind parse_uint32 f32 (wire_u32 c @ bs) = f32 c bs" "rd_bind parse_uint32 f32 (wire_u32 c) = f32 c []"
  "rd_bind parse_int32 f32 (wire_u32 c @ bs) = f32 c bs" "rd_bind parse_int32 f32 (wire_u32 c) = f32 c []"
  "rd_bind parse_uint64 f64 (wire_u64 d @ bs) = f64 d bs" "rd_bind parse_uint64 f64 (wire_u64 d) = f64 d []"
  "rd_bind parse_int64 f64 (wire_u64 d @ bs) = f64 d bs" "rd_bind parse_int64 f64 (wire_u64 d) = f64 d []"
  using parse_wire(3-) [where bs = "[]"]
  by (simp_all add: rd_bind_parse parse_wire)

lemma rd_repeat_wire:
  assumes "\<And>x bs. r (w x @ bs) = Inr (x, bs)" "length xs = n"
  shows "rd_bind (rd_repeat n r) f (concat (map w xs)) = f xs []"
proof -
  have "rd_repeat (length ys) r (concat (map w ys)) = Inr (ys, [])" for ys
  proof (induction ys)
    case (Cons y ys)
    have "rd_bind r g (w y @ concat (map w ys)) = g y (concat (map w ys))"
      for g :: "'a \<Rightarrow> 'a list reader"
      by (simp add: rd_bind_def assms(1))
    then show ?case using Cons by (simp add: rd_bind_parse) (simp add: rd_return_def)
  qed (simp add: rd_return_def)
  from this [of xs] show ?thesis using assms(2) by (simp add: rd_bind_def)
qed

lemma rd_repeat_bytes: "length bs = n \<Longrightarrow> rd_bind (rd_repeat n parse_uint8) f bs = f bs []"
  using rd_repeat_wire [of parse_uint8 "\<lambda>x. [x]" bs n f] by (simp add: parse_wire)

lemma rd_repeat_u16: "length xs = n \<Longrightarrow> rd_bind (rd_repeat n parse_uint16) f (concat (map wire_u16 xs)) = f xs []"
  by (rule rd_repeat_wire) (simp_all add: parse_wire)

subsection \<open>The interface: a message with a wire format\<close>

text \<open>
  \<open>ser\<close> and \<open>parse\<close> agree on a wire format of \<open>wsize\<close> bytes for the messages that satisfy \<open>ok\<close>: the
  serializer stores the format or faults when it does not fit, and the parser reads it back.
\<close>

locale message_codec =
  fixes ser :: "'m \<Rightarrow> bytes \<Rightarrow> (bytes \<times> nat) outcome"
    and parse :: "bytes \<Rightarrow> nat \<Rightarrow> 'm outcome"
    and wsize :: nat
    and ok :: "'m \<Rightarrow> bool"
  assumes codec_law: "ok m \<Longrightarrow> \<exists>bs. length bs = wsize \<and> parse bs wsize = Inr m \<and>
      (\<forall>mem. ser m mem = (if wsize \<le> length mem then Inr (overwrite mem 0 bs, wsize) else Inl OutOfBounds))"
begin

lemma roundtrip:
  assumes "ok m" "wsize \<le> length mem"
  shows "\<exists>mem'. ser m mem = Inr (mem', wsize) \<and> length mem' = length mem \<and>
    parse (take wsize mem') wsize = Inr m"
proof -
  obtain bs where bs: "length bs = wsize" "parse bs wsize = Inr m" "ser m mem = Inr (overwrite mem 0 bs, wsize)"
    using codec_law [OF assms(1)] assms(2) by auto
  then show ?thesis using assms(2) by (auto simp: take_overwrite_0)
qed

lemma too_small: "ok m \<Longrightarrow> length mem < wsize \<Longrightarrow> ser m mem = Inl OutOfBounds"
  using codec_law [of m] by auto

lemma injective:
  assumes "ok m" "ok m'" "wsize \<le> length mem" "ser m mem = ser m' mem"
  shows "m = m'"
  using roundtrip [OF assms(1,3)] roundtrip [OF assms(2,3)] assms(4) by auto

end

lemma codec_writes:
  assumes "\<And>m mem. ser m mem = ser_run mem (ws m)"
    "\<And>m. ok m \<Longrightarrow> \<exists>bs. writes (ser_seq (ws m)) bs \<and> length bs = wsize \<and> parse bs wsize = Inr m"
  shows "message_codec ser parse wsize ok"
proof
  fix m assume "ok m"
  then obtain bs where "writes (ser_seq (ws m)) bs" "length bs = wsize" "parse bs wsize = Inr m"
    using assms(2) by blast
  then show "\<exists>bs. length bs = wsize \<and> parse bs wsize = Inr m \<and>
      (\<forall>mem. ser m mem = (if wsize \<le> length mem then Inr (overwrite mem 0 bs, wsize) else Inl OutOfBounds))"
    by (auto simp: assms(1) ser_run_writes)
qed

lemmas rd_roundtrip = rd_run_def rd_wire rd_return_def rd_assert_def rd_repeat_bytes rd_repeat_u16

subsection \<open>Messages with a parser and a serializer\<close>

interpretation status_codec: message_codec serialize_status_msg parse_status_msg 5 "\<lambda>_. True"
  by (rule codec_writes, rule serialize_status_msg_def, (rule exI conjI writes_intros | (simp; fail))+)
    (simp_all add: parse_status_msg_def rd_roundtrip)

interpretation energy_price_threshold_codec: message_codec serialize_energy_price_threshold_msg parse_energy_price_threshold_msg 6 "\<lambda>_. True"
  by (rule codec_writes, rule serialize_energy_price_threshold_msg_def, (rule exI conjI writes_intros | (simp; fail))+)
    (simp_all add: parse_energy_price_threshold_msg_def rd_roundtrip)

interpretation energy_price_cheap_period_codec: message_codec serialize_energy_price_cheap_period_msg parse_energy_price_cheap_period_msg 3 "\<lambda>_. True"
  by (rule codec_writes, rule serialize_energy_price_cheap_period_msg_def, (rule exI conjI writes_intros | (simp; fail))+)
    (simp_all add: parse_energy_price_cheap_period_msg_def rd_roundtrip)

interpretation energy_price_tariff_codec: message_codec serialize_energy_price_tariff_msg parse_energy_price_tariff_msg 4 "\<lambda>_. True"
  by (rule codec_writes, rule serialize_energy_price_tariff_msg_def, (rule exI conjI writes_intros | (simp; fail))+)
    (simp_all add: parse_energy_price_tariff_msg_def rd_roundtrip)

interpretation relay_mode_codec: message_codec serialize_relay_mode_msg parse_relay_mode_msg 3 "\<lambda>_. True"
  by (rule codec_writes, rule serialize_relay_mode_msg_def, (rule exI conjI writes_intros | (simp; fail))+)
    (simp_all add: parse_relay_mode_msg_def rd_roundtrip)

interpretation relay_state_codec: message_codec serialize_relay_state_msg parse_relay_state_msg 3 "\<lambda>_. True"
  by (rule codec_writes, rule serialize_relay_state_msg_def, (rule exI conjI writes_intros | (simp; fail))+)
    (simp_all add: parse_relay_state_msg_def rd_roundtrip)

interpretation relay_default_state_codec: message_codec serialize_relay_default_state_msg parse_relay_default_state_msg 3 "\<lambda>_. True"
  by (rule codec_writes, rule serialize_relay_default_state_msg_def, (rule exI conjI writes_intros | (simp; fail))+)
    (simp_all add: parse_relay_default_state_msg_def rd_roundtrip)

interpretation relay_pwm_codec: message_codec serialize_relay_pwm_msg parse_relay_pwm_msg 6 "\<lambda>_. True"
  by (rule codec_writes, rule serialize_relay_pwm_msg_def, (rule exI conjI writes_intros | (simp; fail))+)
    (simp_all add: parse_relay_pwm_msg_def rd_roundtrip)

interpretation relay_one_shot_codec: message_codec serialize_relay_one_shot_msg parse_relay_one_shot_msg 20 "\<lambda>_. True"
  by (rule codec_writes, rule serialize_relay_one_shot_msg_def, (rule exI conjI writes_intros | (simp; fail))+)
    (simp_all add: parse_relay_one_shot_msg_def rd_roundtrip)

interpretation sunny_time_codec: message_codec serialize_environment_sunny_time_msg parse_environment_sunny_time_msg 3 "\<lambda>_. True"
  by (rule codec_writes, rule serialize_environment_sunny_time_msg_def, (rule exI conjI writes_intros | (simp; fail))+)
    (simp_all add: parse_environment_sunny_time_msg_def rd_roundtrip)

interpretation position_codec: message_codec serialize_environment_position_msg parse_environment_position_msg 18 "\<lambda>_. True"
  by (rule codec_writes, rule serialize_environment_position_msg_def, (rule exI conjI writes_intros | (simp; fail))+)
    (simp_all add: parse_environment_position_msg_def rd_roundtrip)

interpretation relay_inverted_codec: message_codec
  "\<lambda>m. serialize_relay_output_inverted_msg (relay_inverted_output_inverted m)" parse_relay_set_inverted_output_msg 3
  "\<lambda>m. relay_inverted_output_type m = MSGTYPE_RELAY_INVERTED_OUTPUT"
  by (rule codec_writes, rule serialize_relay_output_inverted_msg_def, (rule exI conjI writes_intros | (simp; fail))+)
    (simp_all add: parse_relay_set_inverted_output_msg_def rd_roundtrip)

interpretation current_limit_codec: message_codec
  "\<lambda>m. serialize_meter_current_limit_msg (meter_current_limit_limit m)" parse_meter_current_limit_msg 6
  "\<lambda>m. meter_current_limit_type m = MSGTYPE_METER_CURRENT_LIMIT"
  by (rule codec_writes, rule serialize_meter_current_limit_msg_def, (rule exI conjI writes_intros | (simp; fail))+)
    (simp_all add: parse_meter_current_limit_msg_def rd_roundtrip)

interpretation alarms_codec: message_codec
  "\<lambda>m. serialize_meter_alarms_msg (meter_alarms_mask m)" parse_meter_clear_alarms_msg 10
  "\<lambda>m. meter_alarms_type m = MSGTYPE_METER_ALARMS"
  by (rule codec_writes, rule serialize_meter_alarms_msg_def, (rule exI conjI writes_intros | (simp; fail))+)
    (simp_all add: parse_meter_clear_alarms_msg_def rd_roundtrip)

interpretation wireless_channel_codec: message_codec
  "\<lambda>m. serialize_wireless_channel_msg (wireless_channel_protocol m) (wireless_channel_channel m)" parse_wireless_channel_msg 4
  "\<lambda>m. wireless_channel_type m = MSGTYPE_WIRELESS_CHANNEL"
  by (rule codec_writes, rule serialize_wireless_channel_msg_def, (rule exI conjI writes_intros | (simp; fail))+)
    (simp_all add: parse_wireless_channel_msg_def rd_roundtrip)

interpretation button_config_codec: message_codec
  "serialize_relay_defined_modes_msg" parse_relay_button_config_msg 10
  "\<lambda>m. relay_button_config_mode_len m = 6 \<and> length (relay_button_config_modes m) = 6"
  by (rule codec_writes, rule serialize_relay_defined_modes_msg_def, (rule exI conjI writes_intros | (simp; fail))+)
    (simp_all add: parse_relay_button_config_msg_def rd_roundtrip)

interpretation schedule_codec: message_codec
  "serialize_relay_schedule_msg" parse_relay_schedule_msg 88
  "\<lambda>m. relay_schedule_schedule_len m = 84 \<and> length (relay_schedule_schedule m) = 84"
  by (rule codec_writes, rule serialize_relay_schedule_msg_def, (rule exI conjI writes_intros | (simp; fail))+)
    (simp_all add: parse_relay_schedule_msg_def rd_roundtrip)

interpretation cloud_cover_codec: message_codec
  "serialize_environment_cloud_cover_msg" parse_environment_cloud_cover_msg 206
  "\<lambda>m. environment_cloud_cover_percentage_len m = 96 \<and> length (environment_cloud_cover_percentage m) = 96"
  by (rule codec_writes, rule serialize_environment_cloud_cover_msg_def, (rule exI conjI writes_intros | (simp; fail))+)
    (simp_all add: parse_environment_cloud_cover_msg_def rd_roundtrip)

subsection \<open>Round trips\<close>

lemma tx_power_written:
  "5 \<le> length mem \<Longrightarrow> \<exists>mem'. serialize_wireless_tx_power_msg protocol tx_power mem = Inr (mem', 5)"
proof -
  assume "5 \<le> length mem"
  moreover have "\<exists>bs. writes (ser_seq [serialize_uint16 MSGTYPE_WIRELESS_TX_POWER, serialize_uint8 protocol,
       serialize_int16 tx_power]) bs \<and> length bs = 5"
    by (rule exI conjI writes_intros | (simp; fail))+
  ultimately show ?thesis by (auto simp: serialize_wireless_tx_power_msg_def ser_run_writes)
qed

text \<open>C14. The messages without an array or a string that have both a serializer and a parser are the sixteen below.
  Fifteen of them (status, price threshold, cheap period, tariff, the relay settings and the inverted output, the one-shot
  timer, sunny time, position, current limit, alarms and wireless channel) are written to any buffer that has room
  for them and read back as the same message. The transmission power is written in 5 bytes, which its parser rejects.\<close>

theorem fixed_messages_roundtrip:
  assumes "20 \<le> length mem"
  shows "(\<exists>mem'. serialize_status_msg m1 mem = Inr (mem', 5) \<and>
      parse_status_msg (take 5 mem') 5 = Inr m1) \<and>
    (\<exists>mem'. serialize_energy_price_threshold_msg m2 mem = Inr (mem', 6) \<and>
      parse_energy_price_threshold_msg (take 6 mem') 6 = Inr m2) \<and>
    (\<exists>mem'. serialize_energy_price_cheap_period_msg m3 mem = Inr (mem', 3) \<and>
      parse_energy_price_cheap_period_msg (take 3 mem') 3 = Inr m3) \<and>
    (\<exists>mem'. serialize_energy_price_tariff_msg m4 mem = Inr (mem', 4) \<and>
      parse_energy_price_tariff_msg (take 4 mem') 4 = Inr m4) \<and>
    (\<exists>mem'. serialize_relay_mode_msg m5 mem = Inr (mem', 3) \<and>
      parse_relay_mode_msg (take 3 mem') 3 = Inr m5) \<and>
    (\<exists>mem'. serialize_relay_state_msg m6 mem = Inr (mem', 3) \<and>
      parse_relay_state_msg (take 3 mem') 3 = Inr m6) \<and>
    (\<exists>mem'. serialize_relay_default_state_msg m7 mem = Inr (mem', 3) \<and>
      parse_relay_default_state_msg (take 3 mem') 3 = Inr m7) \<and>
    (\<exists>mem'. serialize_relay_pwm_msg m8 mem = Inr (mem', 6) \<and>
      parse_relay_pwm_msg (take 6 mem') 6 = Inr m8) \<and>
    (\<exists>mem'. serialize_relay_one_shot_msg m9 mem = Inr (mem', 20) \<and>
      parse_relay_one_shot_msg (take 20 mem') 20 = Inr m9) \<and>
    (\<exists>mem'. serialize_environment_sunny_time_msg m10 mem = Inr (mem', 3) \<and>
      parse_environment_sunny_time_msg (take 3 mem') 3 = Inr m10) \<and>
    (\<exists>mem'. serialize_environment_position_msg m11 mem = Inr (mem', 18) \<and>
      parse_environment_position_msg (take 18 mem') 18 = Inr m11) \<and>
    (\<exists>mem'. serialize_relay_output_inverted_msg v1 mem = Inr (mem', 3) \<and>
      parse_relay_set_inverted_output_msg (take 3 mem') 3 =
        Inr \<lparr>relay_inverted_output_type = MSGTYPE_RELAY_INVERTED_OUTPUT, relay_inverted_output_inverted = v1\<rparr>) \<and>
    (\<exists>mem'. serialize_meter_current_limit_msg v2 mem = Inr (mem', 6) \<and>
      parse_meter_current_limit_msg (take 6 mem') 6 =
        Inr \<lparr>meter_current_limit_type = MSGTYPE_METER_CURRENT_LIMIT, meter_current_limit_limit = v2\<rparr>) \<and>
    (\<exists>mem'. serialize_meter_alarms_msg v3 mem = Inr (mem', 10) \<and>
      parse_meter_clear_alarms_msg (take 10 mem') 10 =
        Inr \<lparr>meter_alarms_type = MSGTYPE_METER_ALARMS, meter_alarms_mask = v3\<rparr>) \<and>
    (\<exists>mem'. serialize_wireless_channel_msg v4 v5 mem = Inr (mem', 4) \<and>
      parse_wireless_channel_msg (take 4 mem') 4 =
        Inr \<lparr>wireless_channel_type = MSGTYPE_WIRELESS_CHANNEL, wireless_channel_protocol = v4, wireless_channel_channel = v5\<rparr>) \<and>
    (\<exists>mem'. serialize_wireless_tx_power_msg v6 v7 mem = Inr (mem', 5) \<and>
      parse_wireless_tx_power_msg (take 5 mem') 5 = Inr wireless_tx_power_msg_zero)"
proof (intro conjI)
  show "\<exists>mem'. serialize_status_msg m1 mem = Inr (mem', 5) \<and>
      parse_status_msg (take 5 mem') 5 = Inr m1"
    using status_codec.roundtrip [where m = m1 and mem = mem] assms by auto
  show "\<exists>mem'. serialize_energy_price_threshold_msg m2 mem = Inr (mem', 6) \<and>
      parse_energy_price_threshold_msg (take 6 mem') 6 = Inr m2"
    using energy_price_threshold_codec.roundtrip [where m = m2 and mem = mem] assms by auto
  show "\<exists>mem'. serialize_energy_price_cheap_period_msg m3 mem = Inr (mem', 3) \<and>
      parse_energy_price_cheap_period_msg (take 3 mem') 3 = Inr m3"
    using energy_price_cheap_period_codec.roundtrip [where m = m3 and mem = mem] assms by auto
  show "\<exists>mem'. serialize_energy_price_tariff_msg m4 mem = Inr (mem', 4) \<and>
      parse_energy_price_tariff_msg (take 4 mem') 4 = Inr m4"
    using energy_price_tariff_codec.roundtrip [where m = m4 and mem = mem] assms by auto
  show "\<exists>mem'. serialize_relay_mode_msg m5 mem = Inr (mem', 3) \<and>
      parse_relay_mode_msg (take 3 mem') 3 = Inr m5"
    using relay_mode_codec.roundtrip [where m = m5 and mem = mem] assms by auto
  show "\<exists>mem'. serialize_relay_state_msg m6 mem = Inr (mem', 3) \<and>
      parse_relay_state_msg (take 3 mem') 3 = Inr m6"
    using relay_state_codec.roundtrip [where m = m6 and mem = mem] assms by auto
  show "\<exists>mem'. serialize_relay_default_state_msg m7 mem = Inr (mem', 3) \<and>
      parse_relay_default_state_msg (take 3 mem') 3 = Inr m7"
    using relay_default_state_codec.roundtrip [where m = m7 and mem = mem] assms by auto
  show "\<exists>mem'. serialize_relay_pwm_msg m8 mem = Inr (mem', 6) \<and>
      parse_relay_pwm_msg (take 6 mem') 6 = Inr m8"
    using relay_pwm_codec.roundtrip [where m = m8 and mem = mem] assms by auto
  show "\<exists>mem'. serialize_relay_one_shot_msg m9 mem = Inr (mem', 20) \<and>
      parse_relay_one_shot_msg (take 20 mem') 20 = Inr m9"
    using relay_one_shot_codec.roundtrip [where m = m9 and mem = mem] assms by auto
  show "\<exists>mem'. serialize_environment_sunny_time_msg m10 mem = Inr (mem', 3) \<and>
      parse_environment_sunny_time_msg (take 3 mem') 3 = Inr m10"
    using sunny_time_codec.roundtrip [where m = m10 and mem = mem] assms by auto
  show "\<exists>mem'. serialize_environment_position_msg m11 mem = Inr (mem', 18) \<and>
      parse_environment_position_msg (take 18 mem') 18 = Inr m11"
    using position_codec.roundtrip [where m = m11 and mem = mem] assms by auto
  show "\<exists>mem'. serialize_relay_output_inverted_msg v1 mem = Inr (mem', 3) \<and>
      parse_relay_set_inverted_output_msg (take 3 mem') 3 =
        Inr \<lparr>relay_inverted_output_type = MSGTYPE_RELAY_INVERTED_OUTPUT, relay_inverted_output_inverted = v1\<rparr>"
    using relay_inverted_codec.roundtrip [where m = "\<lparr>relay_inverted_output_type = MSGTYPE_RELAY_INVERTED_OUTPUT, relay_inverted_output_inverted = v1\<rparr>" and mem = mem] assms by auto
  show "\<exists>mem'. serialize_meter_current_limit_msg v2 mem = Inr (mem', 6) \<and>
      parse_meter_current_limit_msg (take 6 mem') 6 =
        Inr \<lparr>meter_current_limit_type = MSGTYPE_METER_CURRENT_LIMIT, meter_current_limit_limit = v2\<rparr>"
    using current_limit_codec.roundtrip [where m = "\<lparr>meter_current_limit_type = MSGTYPE_METER_CURRENT_LIMIT, meter_current_limit_limit = v2\<rparr>" and mem = mem] assms by auto
  show "\<exists>mem'. serialize_meter_alarms_msg v3 mem = Inr (mem', 10) \<and>
      parse_meter_clear_alarms_msg (take 10 mem') 10 =
        Inr \<lparr>meter_alarms_type = MSGTYPE_METER_ALARMS, meter_alarms_mask = v3\<rparr>"
    using alarms_codec.roundtrip [where m = "\<lparr>meter_alarms_type = MSGTYPE_METER_ALARMS, meter_alarms_mask = v3\<rparr>" and mem = mem] assms by auto
  show "\<exists>mem'. serialize_wireless_channel_msg v4 v5 mem = Inr (mem', 4) \<and>
      parse_wireless_channel_msg (take 4 mem') 4 =
        Inr \<lparr>wireless_channel_type = MSGTYPE_WIRELESS_CHANNEL, wireless_channel_protocol = v4, wireless_channel_channel = v5\<rparr>"
    using wireless_channel_codec.roundtrip [where m = "\<lparr>wireless_channel_type = MSGTYPE_WIRELESS_CHANNEL, wireless_channel_protocol = v4, wireless_channel_channel = v5\<rparr>" and mem = mem] assms by auto
  show "\<exists>mem'. serialize_wireless_tx_power_msg v6 v7 mem = Inr (mem', 5) \<and>
      parse_wireless_tx_power_msg (take 5 mem') 5 = Inr wireless_tx_power_msg_zero"
    using tx_power_written [of mem v6 v7] assms by (auto simp: parse_wireless_tx_power_msg_def)
qed

theorem fixed_messages_roundtrip_witness:
  "(\<exists>mem'. serialize_status_msg status_msg_zero (replicate 20 0) = Inr (mem', 5) \<and>
      parse_status_msg (take 5 mem') 5 = Inr status_msg_zero) \<and>
    (\<exists>mem'. serialize_energy_price_threshold_msg energy_price_threshold_msg_zero (replicate 20 0) = Inr (mem', 6) \<and>
      parse_energy_price_threshold_msg (take 6 mem') 6 = Inr energy_price_threshold_msg_zero) \<and>
    (\<exists>mem'. serialize_energy_price_cheap_period_msg energy_price_cheap_period_msg_zero (replicate 20 0) = Inr (mem', 3) \<and>
      parse_energy_price_cheap_period_msg (take 3 mem') 3 = Inr energy_price_cheap_period_msg_zero) \<and>
    (\<exists>mem'. serialize_energy_price_tariff_msg energy_price_tariff_msg_zero (replicate 20 0) = Inr (mem', 4) \<and>
      parse_energy_price_tariff_msg (take 4 mem') 4 = Inr energy_price_tariff_msg_zero) \<and>
    (\<exists>mem'. serialize_relay_mode_msg relay_mode_msg_zero (replicate 20 0) = Inr (mem', 3) \<and>
      parse_relay_mode_msg (take 3 mem') 3 = Inr relay_mode_msg_zero) \<and>
    (\<exists>mem'. serialize_relay_state_msg relay_state_msg_zero (replicate 20 0) = Inr (mem', 3) \<and>
      parse_relay_state_msg (take 3 mem') 3 = Inr relay_state_msg_zero) \<and>
    (\<exists>mem'. serialize_relay_default_state_msg relay_default_state_msg_zero (replicate 20 0) = Inr (mem', 3) \<and>
      parse_relay_default_state_msg (take 3 mem') 3 = Inr relay_default_state_msg_zero) \<and>
    (\<exists>mem'. serialize_relay_pwm_msg relay_pwm_msg_zero (replicate 20 0) = Inr (mem', 6) \<and>
      parse_relay_pwm_msg (take 6 mem') 6 = Inr relay_pwm_msg_zero) \<and>
    (\<exists>mem'. serialize_relay_one_shot_msg relay_one_shot_msg_zero (replicate 20 0) = Inr (mem', 20) \<and>
      parse_relay_one_shot_msg (take 20 mem') 20 = Inr relay_one_shot_msg_zero) \<and>
    (\<exists>mem'. serialize_environment_sunny_time_msg environment_sunny_time_msg_zero (replicate 20 0) = Inr (mem', 3) \<and>
      parse_environment_sunny_time_msg (take 3 mem') 3 = Inr environment_sunny_time_msg_zero) \<and>
    (\<exists>mem'. serialize_environment_position_msg environment_position_msg_zero (replicate 20 0) = Inr (mem', 18) \<and>
      parse_environment_position_msg (take 18 mem') 18 = Inr environment_position_msg_zero) \<and>
    (\<exists>mem'. serialize_relay_output_inverted_msg 1 (replicate 20 0) = Inr (mem', 3) \<and>
      parse_relay_set_inverted_output_msg (take 3 mem') 3 =
        Inr \<lparr>relay_inverted_output_type = MSGTYPE_RELAY_INVERTED_OUTPUT, relay_inverted_output_inverted = 1\<rparr>) \<and>
    (\<exists>mem'. serialize_meter_current_limit_msg 2 (replicate 20 0) = Inr (mem', 6) \<and>
      parse_meter_current_limit_msg (take 6 mem') 6 =
        Inr \<lparr>meter_current_limit_type = MSGTYPE_METER_CURRENT_LIMIT, meter_current_limit_limit = 2\<rparr>) \<and>
    (\<exists>mem'. serialize_meter_alarms_msg 3 (replicate 20 0) = Inr (mem', 10) \<and>
      parse_meter_clear_alarms_msg (take 10 mem') 10 =
        Inr \<lparr>meter_alarms_type = MSGTYPE_METER_ALARMS, meter_alarms_mask = 3\<rparr>) \<and>
    (\<exists>mem'. serialize_wireless_channel_msg 4 5 (replicate 20 0) = Inr (mem', 4) \<and>
      parse_wireless_channel_msg (take 4 mem') 4 =
        Inr \<lparr>wireless_channel_type = MSGTYPE_WIRELESS_CHANNEL, wireless_channel_protocol = 4, wireless_channel_channel = 5\<rparr>) \<and>
    (\<exists>mem'. serialize_wireless_tx_power_msg 6 7 (replicate 20 0) = Inr (mem', 5) \<and>
      parse_wireless_tx_power_msg (take 5 mem') 5 = Inr wireless_tx_power_msg_zero)"
  by (rule fixed_messages_roundtrip) simp

text \<open>C34. The same for the messages with an array: a button configuration of six modes, a weekly
  schedule of 84 bytes and a cloud cover of 96 quarters.\<close>

theorem array_messages_roundtrip:
  assumes "206 \<le> length mem"
    and "relay_button_config_mode_len b = 6" "length (relay_button_config_modes b) = 6"
    and "relay_schedule_schedule_len s = 84" "length (relay_schedule_schedule s) = 84"
    and "environment_cloud_cover_percentage_len c = 96"
    and "length (environment_cloud_cover_percentage c) = 96"
  shows "(\<exists>mem'. serialize_relay_defined_modes_msg b mem = Inr (mem', 10) \<and>
      parse_relay_button_config_msg (take 10 mem') 10 = Inr b) \<and>
    (\<exists>mem'. serialize_relay_schedule_msg s mem = Inr (mem', 88) \<and>
      parse_relay_schedule_msg (take 88 mem') 88 = Inr s) \<and>
    (\<exists>mem'. serialize_environment_cloud_cover_msg c mem = Inr (mem', 206) \<and>
      parse_environment_cloud_cover_msg (take 206 mem') 206 = Inr c)"
  using button_config_codec.roundtrip [where m = b and mem = mem] schedule_codec.roundtrip [where m = s and mem = mem]
    cloud_cover_codec.roundtrip [where m = c and mem = mem] assms by auto

theorem array_messages_roundtrip_witness:
  "let mem = replicate 206 (0 :: u8); b = relay_button_config_msg_zero\<lparr>relay_button_config_mode_len := 6\<rparr>;
     s = relay_schedule_msg_zero\<lparr>relay_schedule_schedule_len := 84\<rparr>;
     c = environment_cloud_cover_msg_zero\<lparr>environment_cloud_cover_percentage_len := 96\<rparr> in
   (\<exists>mem'. serialize_relay_defined_modes_msg b mem = Inr (mem', 10) \<and>
      parse_relay_button_config_msg (take 10 mem') 10 = Inr b) \<and>
    (\<exists>mem'. serialize_relay_schedule_msg s mem = Inr (mem', 88) \<and>
      parse_relay_schedule_msg (take 88 mem') 88 = Inr s) \<and>
    (\<exists>mem'. serialize_environment_cloud_cover_msg c mem = Inr (mem', 206) \<and>
      parse_environment_cloud_cover_msg (take 206 mem') 206 = Inr c)"
  unfolding Let_def
  by (rule array_messages_roundtrip)
    (simp_all add: relay_button_config_msg_zero_def relay_schedule_msg_zero_def
      environment_cloud_cover_msg_zero_def)

end
