(* ===== verification/EM_Sender.thy ===== *)
theory EM_Sender
  imports EM_Serializer EM_Buffer
begin

section \<open>Sending messages (em_tcp_protocol/sender.c)\<close>

text \<open>
  Every sender builds a message, allocates a buffer, serializes the message into it, sets the length
  and hands the buffer to the registered transmit handler. \<open>malloc\<close>, the CRC of the ROM and the
  handler are parameters (\<open>net_env\<close>). The result is the return value and what happened to the
  buffer: it was handed to the handler, and it was freed. A size that the code passes to
  \<open>buffer_dynamic_alloc\<close> is cut to 16 bits.
\<close>

record net_env =
  net_malloc :: "nat \<Rightarrow> bytes option"
  net_crc32 :: "bytes \<Rightarrow> u32"
  net_tx_handler :: "(buffer_t \<Rightarrow> int) option"

datatype tx_event = TxHanded buffer_t | TxFreed

type_synonym send_result = "(int \<times> tx_event list) outcome"

definition send_data :: "net_env \<Rightarrow> buffer_t \<Rightarrow> int \<times> tx_event list" where
  "send_data net data =
     (case net_tx_handler net of
        Some handler \<Rightarrow>
          (if handler data \<noteq> ESP_OK then (ESP_OK, [TxHanded data, TxFreed]) else (ESP_OK, [TxHanded data]))
      | None \<Rightarrow> (ESP_ERR_INVALID_STATE, [TxFreed]))"

definition protocol_register_tx_handler :: "net_env \<Rightarrow> (buffer_t \<Rightarrow> int) \<Rightarrow> net_env" where
  "protocol_register_tx_handler net handler = net\<lparr>net_tx_handler := Some handler\<rparr>"

text \<open>The common end of the senders: allocate, serialize, set the length, send.\<close>

definition fill_buffer :: "buffer_t \<Rightarrow> (bytes \<Rightarrow> (bytes \<times> nat) outcome) \<Rightarrow> buffer_t outcome" where
  "fill_buffer b ser =
     (case b_data b of
        None \<Rightarrow> Inl OutOfBounds
      | Some mem \<Rightarrow> obind (ser mem) (\<lambda>(mem', n). Inr (b\<lparr>b_data := Some mem', b_len := word_of_nat n\<rparr>)))"

definition send_serialized ::
  "net_env \<Rightarrow> nat \<Rightarrow> (bytes \<Rightarrow> (bytes \<times> nat) outcome) \<Rightarrow> send_result" where
  "send_serialized net cap ser =
     obind (buffer_dynamic_alloc (net_malloc net) buffer_zero (word_of_nat cap)) (\<lambda>serialized.
     obind (fill_buffer serialized ser) (\<lambda>serialized. Inr (send_data net serialized)))"

subsection \<open>Senders\<close>

definition protocol_send_client_info ::
  "net_env \<Rightarrow> u32 \<Rightarrow> u64 \<Rightarrow> u8 \<Rightarrow> u32 \<Rightarrow> u8 \<Rightarrow> u16 \<Rightarrow> u32 \<Rightarrow> u8 \<Rightarrow> u16 \<Rightarrow> send_result" where
  "protocol_send_client_info net unique_id dev_id hw_ver app_ver reconn_reason dev_type ip_addr
       reset_reason session_id =
     (let msg = client_info_msg_zero
        \<lparr>client_info_type := MSGTYPE_CLIENT_INFO, client_info_dev_type := dev_type,
         client_info_dev_id := dev_id, client_info_unique_id := unique_id,
         client_info_ip_addr := ip_addr, client_info_hw_ver := hw_ver,
         client_info_app_ver := app_ver, client_info_reconn_reason := reconn_reason,
         client_info_reset_reason := reset_reason, client_info_session_id := session_id,
         client_info_CRC := 0\<rparr> in
      obind (buffer_dynamic_alloc (net_malloc net) buffer_zero (word_of_nat client_info_msg_sizeof))
        (\<lambda>serialized.
      obind (fill_buffer serialized (serialize_client_info_msg msg)) (\<lambda>serialized.
        let crc = net_crc32 net (take (unat (b_len serialized) - 4) (the (b_data serialized)));
            msg = msg\<lparr>client_info_CRC := crc\<rparr> in
      obind (fill_buffer serialized (serialize_client_info_msg msg)) (\<lambda>serialized.
        Inr (send_data net serialized)))))"

definition protocol_send_installed_fw :: "net_env \<Rightarrow> u32 \<Rightarrow> u32 \<Rightarrow> u8 \<Rightarrow> i64 \<Rightarrow> send_result" where
  "protocol_send_installed_fw net fw_ver downloaded_fw_ver hw_ver build_time =
     (let msg =
        \<lparr>installed_fw_type = MSGTYPE_UPDATE_INSTALLEDFW, installed_fw_inst_fw_ver = fw_ver,
        installed_fw_downloaded_fw_ver = downloaded_fw_ver, installed_fw_hw_ver = hw_ver,
        installed_fw_build_time = build_time\<rparr> in
      send_serialized net installed_fw_msg_sizeof (serialize_installed_fw_msg msg))"

definition protocol_send_update_status :: "net_env \<Rightarrow> u32 \<Rightarrow> u8 \<Rightarrow> u8 \<Rightarrow> u8 \<Rightarrow> send_result" where
  "protocol_send_update_status net fw_ver progress phase error =
     (let msg =
        \<lparr>update_status_type = MSGTYPE_UPDATE_STATUS, update_status_fw_ver = fw_ver,
        update_status_progress = progress, update_status_phase = phase,
        update_status_error = error\<rparr> in
      send_serialized net update_status_msg_sizeof (serialize_update_status_msg msg))"

definition protocol_send_wireless_status ::
  "net_env \<Rightarrow> u8 \<Rightarrow> u8 \<Rightarrow> u32 \<Rightarrow> i8 \<Rightarrow> u8 \<Rightarrow> send_result" where
  "protocol_send_wireless_status net protocol enabled ip rssi lqi =
     send_serialized net (2 + 1 + 1 + 4 + 1 + 1) (serialize_wireless_status_msg protocol enabled
     ip rssi lqi)"

definition protocol_send_wireless_credentials :: "net_env \<Rightarrow> u8 \<Rightarrow> bytes \<Rightarrow> bytes \<Rightarrow> send_result" where
  "protocol_send_wireless_credentials net protocol network password =
     obind (c_strnlen network 32) (\<lambda>network_len.
     obind (c_strnlen password 64) (\<lambda>password_len.
     obind (c_memcpy (wireless_credentials_network wireless_credentials_msg_zero) network network_len)
       (\<lambda>nw.
     obind (c_memcpy (wireless_credentials_password wireless_credentials_msg_zero) password password_len)
       (\<lambda>pw.
       let msg = wireless_credentials_msg_zero
             \<lparr>wireless_credentials_type := MSGTYPE_WIRELESS_SET_CREDENTIALS,
              wireless_credentials_protocol := protocol,
              wireless_credentials_network_len := word_of_nat network_len,
              wireless_credentials_password_len := word_of_nat password_len,
              wireless_credentials_network := nw, wireless_credentials_password := pw\<rparr> in
       send_serialized net (2 + 1 + 2 + network_len + 2 + password_len)
         (serialize_wireless_credentials_msg msg)))))"

definition protocol_send_wireless_tx_power :: "net_env \<Rightarrow> u8 \<Rightarrow> i16 \<Rightarrow> send_result" where
  "protocol_send_wireless_tx_power net protocol tx_power =
     send_serialized net (2 + 1 + 2) (serialize_wireless_tx_power_msg protocol tx_power)"

text \<open>The channel sender calls the serializer of the transmission power.\<close>

definition protocol_send_wireless_channel :: "net_env \<Rightarrow> u8 \<Rightarrow> u8 \<Rightarrow> send_result" where
  "protocol_send_wireless_channel net protocol channel =
     send_serialized net (2 + 2 * 1) (serialize_wireless_tx_power_msg protocol (ucast channel))"

definition protocol_send_energy_price_day_get :: "net_env \<Rightarrow> u32 \<Rightarrow> i64 \<Rightarrow> send_result" where
  "protocol_send_energy_price_day_get net req_tariff req_day_time =
     (let msg =
        \<lparr>energy_price_day_get_type = MSGTYPE_ENERGYPRICE_DAY_GET,
        energy_price_day_get_tariff = ucast req_tariff,
        energy_price_day_get_day_time = req_day_time\<rparr> in
      send_serialized net energy_price_day_get_msg_sizeof (serialize_energy_price_day_get_msg msg))"

definition protocol_send_energy_threshold :: "net_env \<Rightarrow> i32 \<Rightarrow> send_result" where
  "protocol_send_energy_threshold net price =
     (let msg =
        \<lparr>energy_price_threshold_type = MSGTYPE_ENERGYPRICE_PRICE_THRESHOLD,
        energy_price_threshold_price = price\<rparr> in
      send_serialized net energy_price_threshold_msg_sizeof (serialize_energy_price_threshold_msg msg))"

definition protocol_send_energy_cheap_period :: "net_env \<Rightarrow> u8 \<Rightarrow> send_result" where
  "protocol_send_energy_cheap_period net quarters =
     (let msg =
        \<lparr>energy_price_cheap_period_type = MSGTYPE_ENERGYPRICE_CHEAP_PERIOD,
        energy_price_cheap_period_quarters = quarters\<rparr> in
      send_serialized net energy_price_cheap_period_msg_sizeof (serialize_energy_price_cheap_period_msg msg))"

definition protocol_send_energy_active_price_limit :: "net_env \<Rightarrow> i32 \<Rightarrow> send_result" where
  "protocol_send_energy_active_price_limit net price =
     (let msg =
        \<lparr>energy_price_active_price_limit_type = MSGTYPE_ENERGYPRICE_ACTIVE_PRICE_LIMIT,
        energy_price_active_price_limit_price = price\<rparr> in
      send_serialized net energy_price_active_price_limit_msg_sizeof (serialize_energy_price_active_price_limit_msg msg))"

definition protocol_send_energy_sunnyhours :: "net_env \<Rightarrow> u8 \<Rightarrow> send_result" where
  "protocol_send_energy_sunnyhours net percentage =
     (let msg =
        \<lparr>environment_sunny_time_type = MSGTYPE_ENVIRONMENT_SUNNY_TIME,
        environment_sunny_time_percentage = percentage\<rparr> in
      send_serialized net environment_sunny_time_msg_sizeof (serialize_environment_sunny_time_msg msg))"

definition protocol_send_energy_tariff :: "net_env \<Rightarrow> u16 \<Rightarrow> send_result" where
  "protocol_send_energy_tariff net tariff =
     (let msg =
        \<lparr>energy_price_tariff_type = MSGTYPE_ENERGYPRICE_TARIFF,
        energy_price_tariff_tariff = tariff\<rparr> in
      send_serialized net energy_price_tariff_msg_sizeof (serialize_energy_price_tariff_msg msg))"

definition protocol_send_relay_mode :: "net_env \<Rightarrow> u8 \<Rightarrow> send_result" where
  "protocol_send_relay_mode net mode =
     (let msg =
        \<lparr>relay_mode_type = MSGTYPE_RELAY_MODE, relay_mode_mode = mode\<rparr> in
      send_serialized net relay_mode_msg_sizeof (serialize_relay_mode_msg msg))"

definition protocol_send_relay_state :: "net_env \<Rightarrow> u8 \<Rightarrow> send_result" where
  "protocol_send_relay_state net state =
     (let msg =
        \<lparr>relay_state_type = MSGTYPE_RELAY_STATE, relay_state_state = state\<rparr> in
      send_serialized net relay_state_msg_sizeof (serialize_relay_state_msg msg))"

definition protocol_send_relay_def_state :: "net_env \<Rightarrow> u8 \<Rightarrow> send_result" where
  "protocol_send_relay_def_state net enabled =
     (let msg =
        \<lparr>relay_default_state_type = MSGTYPE_RELAY_DEFAULT_STATE,
        relay_default_state_state = enabled\<rparr> in
      send_serialized net relay_default_state_msg_sizeof (serialize_relay_default_state_msg msg))"

definition protocol_send_relay_pwm :: "net_env \<Rightarrow> u8 \<Rightarrow> u16 \<Rightarrow> u8 \<Rightarrow> send_result" where
  "protocol_send_relay_pwm net enabled period_min duty_cycle =
     (let msg =
        \<lparr>relay_pwm_type = MSGTYPE_RELAY_PWM, relay_pwm_enabled = enabled,
        relay_pwm_period = period_min, relay_pwm_duty_cycle = duty_cycle\<rparr> in
      send_serialized net relay_pwm_msg_sizeof (serialize_relay_pwm_msg msg))"

definition protocol_send_relay_inverted_output :: "net_env \<Rightarrow> u8 \<Rightarrow> send_result" where
  "protocol_send_relay_inverted_output net inverted =
     send_serialized net (2 + 1) (serialize_relay_output_inverted_msg inverted)"

definition protocol_send_relay_button_config :: "net_env \<Rightarrow> bytes \<Rightarrow> u8 \<Rightarrow> send_result" where
  "protocol_send_relay_button_config net modes mode_len =
     obind (c_memcpy (relay_button_config_modes relay_button_config_msg_zero) modes (unat mode_len))
       (\<lambda>ms.
       let msg = \<lparr>relay_button_config_type = MSGTYPE_RELAY_BUTTON_CONFIG,
         relay_button_config_mode_len = ucast mode_len, relay_button_config_modes = ms\<rparr> in
       send_serialized net relay_button_config_msg_sizeof (serialize_relay_defined_modes_msg msg))"

definition protocol_send_relay_schedule :: "net_env \<Rightarrow> bytes \<Rightarrow> u8 \<Rightarrow> send_result" where
  "protocol_send_relay_schedule net schedule len =
     obind (c_memcpy (relay_schedule_schedule relay_schedule_msg_zero) schedule (unat len)) (\<lambda>sch.
       let msg = \<lparr>relay_schedule_type = MSGTYPE_RELAY_SCHEDULE,
         relay_schedule_schedule_len = ucast len, relay_schedule_schedule = sch\<rparr> in
       send_serialized net relay_schedule_msg_sizeof (serialize_relay_schedule_msg msg))"

definition protocol_send_relay_one_shot :: "net_env \<Rightarrow> u8 \<Rightarrow> i64 \<Rightarrow> i64 \<Rightarrow> u8 \<Rightarrow> send_result" where
  "protocol_send_relay_one_shot net enabled start end_time state =
     (let msg =
        \<lparr>relay_one_shot_type = MSGTYPE_RELAY_ONE_SHOT, relay_one_shot_enabled = enabled,
        relay_one_shot_start = start, relay_one_shot_end = end_time,
        relay_one_shot_state = state\<rparr> in
      send_serialized net relay_one_shot_msg_sizeof (serialize_relay_one_shot_msg msg))"

definition protocol_send_relay_snapshots ::
  "net_env \<Rightarrow> i64 \<Rightarrow> i8 \<Rightarrow> u32 list \<Rightarrow> bytes \<Rightarrow> i16 list \<Rightarrow> u16 \<Rightarrow> send_result" where
  "protocol_send_relay_snapshots net ref_timestamp factor t_offset snapshot thresholds entries_num =
     send_serialized net (2 + 8 + 1 + unat entries_num * (4 + 1 + 2) + 3 * 2)
     (serialize_relay_snapshots_msg ref_timestamp factor t_offset snapshot thresholds
     entries_num)"

definition protocol_send_environment_position :: "net_env \<Rightarrow> i32 \<Rightarrow> i32 \<Rightarrow> send_result" where
  "protocol_send_environment_position net latitude longitude =
     (let msg =
        \<lparr>environment_position_type = MSGTYPE_ENVIRONMENT_POSITION,
        environment_position_latitude = scast latitude,
        environment_position_longitude = scast longitude\<rparr> in
      send_serialized net environment_position_msg_sizeof (serialize_environment_position_msg msg))"

definition protocol_send_meter_measurements ::
  "net_env \<Rightarrow> i64 \<Rightarrow> bytes \<Rightarrow> i32 list \<Rightarrow> u16 \<Rightarrow> send_result" where
  "protocol_send_meter_measurements net ref_timestamp meas_types values entries_num =
     send_serialized net (2 + 8 + unat entries_num * (1 + 4) + 2 * 2) (serialize_meter_meas_msg
     ref_timestamp meas_types values entries_num)"

definition protocol_send_meter_measurements_history ::
  "net_env \<Rightarrow> i64 \<Rightarrow> u8 \<Rightarrow> u32 list \<Rightarrow> i32 list \<Rightarrow> u16 \<Rightarrow> send_result" where
  "protocol_send_meter_measurements_history net ref_timestamp meas_type t_offset values entries_num =
     send_serialized net (2 + 8 + 1 + unat entries_num * (4 + 4) + 2 * 2)
     (serialize_meter_meas_history_msg ref_timestamp meas_type t_offset values entries_num)"

definition protocol_send_meter_current_limit :: "net_env \<Rightarrow> i32 \<Rightarrow> send_result" where
  "protocol_send_meter_current_limit net limit =
     send_serialized net (2 + 4) (serialize_meter_current_limit_msg limit)"

definition protocol_send_meter_alarms :: "net_env \<Rightarrow> u64 \<Rightarrow> send_result" where
  "protocol_send_meter_alarms net alarm_mask =
     send_serialized net (2 + 8) (serialize_meter_alarms_msg alarm_mask)"

definition protocol_send_energy_accumulated :: "net_env \<Rightarrow> i64 \<Rightarrow> u8 \<Rightarrow> u64 \<Rightarrow> send_result" where
  "protocol_send_energy_accumulated net timestamp meas_type energy =
     send_serialized net (2 + 8 + 1 + 8) (serialize_energy_accumulated_msg timestamp meas_type
     energy)"

definition protocol_send_energy_history ::
  "net_env \<Rightarrow> u8 \<Rightarrow> i64 \<Rightarrow> u32 \<Rightarrow> u32 list \<Rightarrow> u16 \<Rightarrow> send_result" where
  "protocol_send_energy_history net meas_type ref_timestamp interval entries entries_num =
     send_serialized net (2 + 1 + 8 + 4 + unat entries_num * 4 + 2)
       (serialize_energy_history_msg ref_timestamp meas_type interval entries entries_num)"

definition protocol_send_diag_coredump_start :: "net_env \<Rightarrow> u32 \<Rightarrow> send_result" where
  "protocol_send_diag_coredump_start net coredump_version =
     (let msg =
        \<lparr>diag_coredump_start_type = MSGTYPE_DIAG_COREDUMP_START,
        diag_coredump_start_coredump_version = coredump_version,
        diag_coredump_start_numeric_app_version = 0\<rparr> in
      send_serialized net diag_coredump_start_msg_sizeof (serialize_diag_coredump_start_msg msg))"

definition protocol_send_diag_coredump_body :: "net_env \<Rightarrow> u32 \<Rightarrow> u16 \<Rightarrow> bytes \<Rightarrow> send_result" where
  "protocol_send_diag_coredump_body net coredump_version block_len data =
     c_assert (unat block_len \<le> 1024)
       (obind (c_memcpy (diag_coredump_body_block_data diag_coredump_body_msg_zero) data (unat block_len))
         (\<lambda>block.
         let msg = \<lparr>diag_coredump_body_type = MSGTYPE_DIAG_COREDUMP_BODY,
           diag_coredump_body_coredump_version = coredump_version,
           diag_coredump_body_block_len = block_len, diag_coredump_body_block_data = block\<rparr> in
         send_serialized net diag_coredump_body_msg_sizeof (serialize_diag_coredump_body_msg msg)))"

definition protocol_send_diag_coredump_end :: "net_env \<Rightarrow> u32 \<Rightarrow> send_result" where
  "protocol_send_diag_coredump_end net coredump_version =
     (let msg =
        \<lparr>diag_coredump_end_type = MSGTYPE_DIAG_COREDUMP_END,
        diag_coredump_end_coredump_version = coredump_version\<rparr> in
      send_serialized net diag_coredump_end_msg_sizeof (serialize_diag_coredump_end_msg msg))"

definition protocol_send_diag_debug_info :: "net_env \<Rightarrow> bytes \<Rightarrow> send_result" where
  "protocol_send_diag_debug_info net info =
     obind (c_strnlen info 1024) (\<lambda>len.
     obind (c_memcpy (diag_debug_info_data diag_debug_info_msg_zero) info len) (\<lambda>data.
       let msg = \<lparr>diag_debug_info_type = MSGTYPE_DIAG_DEBUG_INFO, diag_debug_info_len = word_of_nat len,
         diag_debug_info_data = data\<rparr> in
       send_serialized net (2 + 2 + len) (serialize_diag_debug_info_msg msg)))"

text \<open>The parameter \<open>medium\<close> is not used, and the array size is counted six times.\<close>

definition protocol_send_diag_logs_settings :: "net_env \<Rightarrow> u8 \<Rightarrow> u64 list \<Rightarrow> send_result" where
  "protocol_send_diag_logs_settings net medium moduls_levels =
     (if length moduls_levels < 6 then Inl OutOfBounds
      else
        (let msg = \<lparr>diag_logs_settings_type = MSGTYPE_DIAG_LOGS_SETTINGS, diag_logs_settings_medium = 0,
           diag_logs_settings_level_modules = take 6 moduls_levels\<rparr> in
         send_serialized net (2 + 1 + 6 * (6 * 8)) (serialize_diag_logs_settings_msg msg)))"

definition protocol_send_status :: "net_env \<Rightarrow> u16 \<Rightarrow> u8 \<Rightarrow> send_result" where
  "protocol_send_status net rq_type error =
     (let msg =
        \<lparr>status_type = MSGTYPE_STATUS, status_error = error, status_rq_type = rq_type\<rparr> in
      send_serialized net status_msg_sizeof (serialize_status_msg msg))"

subsection \<open>What is sent\<close>

text \<open>The allocator and what the senders rely on: it returns an object of the requested size, and it
  has room for a message.\<close>

definition net_ok :: "net_env \<Rightarrow> bool" where
  "net_ok net \<longleftrightarrow> malloc_ok (net_malloc net) \<and> (\<forall>n < 1200. net_malloc net n \<noteq> None)"

text \<open>\<open>sends net r bs\<close>: the sender with the result \<open>r\<close> gave \<open>send_data\<close> a well-formed buffer with
  the contents \<open>bs\<close>.\<close>

definition sends :: "net_env \<Rightarrow> send_result \<Rightarrow> bytes \<Rightarrow> bool" where
  "sends net r bs \<longleftrightarrow>
     (\<exists>b. r = Inr (send_data net b) \<and> buffer_wf b \<and> b_dynamic b \<and> buffer_bytes b = bs)"

lemma net_ok_alloc:
  assumes "net_ok net" "cap < 1200"
  shows "\<exists>d. buffer_dynamic_alloc (net_malloc net) buffer_zero (word_of_nat cap) =
      Inr \<lparr>b_data = Some d, b_cap = word_of_nat cap, b_len = 0, b_dynamic = True\<rparr> \<and> length d = cap"
proof -
  have cap: "unat (word_of_nat cap :: u16) = cap" using assms(2) by (intro unat_word_of_nat) simp
  then obtain d where "net_malloc net cap = Some d" "length d = cap"
    using assms by (auto simp: net_ok_def malloc_ok_def)
  then show ?thesis using cap assms(2) by (simp add: buffer_dynamic_alloc_def word_less_nat_alt)
qed

lemma fill_buffer_writes:
  assumes "b_data b = Some mem" "length mem = unat (b_cap b)" "writes (ser_seq ws) bs"
    "\<And>mem. ser mem = ser_run mem ws" "length bs \<le> length mem"
  shows "fill_buffer b ser = Inr (b\<lparr>b_data := Some (overwrite mem 0 bs), b_len := word_of_nat (length bs)\<rparr>)"
  using assms by (simp add: fill_buffer_def ser_run_writes)

lemma fill_buffer_contents:
  assumes "length mem = unat (b_cap b)" "length bs \<le> length mem"
  shows "buffer_wf (b\<lparr>b_data := Some (overwrite mem 0 bs), b_len := word_of_nat (length bs)\<rparr>)"
    "buffer_bytes (b\<lparr>b_data := Some (overwrite mem 0 bs), b_len := word_of_nat (length bs)\<rparr>) = bs"
proof -
  have "unat (b_cap b) < 2 ^ LENGTH(16)" by (rule unsigned_less)
  then have "length bs < 2 ^ LENGTH(16)" using assms by simp
  then have len: "unat (word_of_nat (length bs) :: u16) = length bs" by (rule unat_word_of_nat)
  show "buffer_wf (b\<lparr>b_data := Some (overwrite mem 0 bs), b_len := word_of_nat (length bs)\<rparr>)"
    using assms len by (simp add: buffer_wf_def word_le_nat_alt)
  show "buffer_bytes (b\<lparr>b_data := Some (overwrite mem 0 bs), b_len := word_of_nat (length bs)\<rparr>) = bs"
    using len by (simp add: buffer_bytes_def take_overwrite_0)
qed

lemma send_serialized_ok:
  assumes net: "net_ok net" and ser: "\<And>mem. ser mem = ser_run mem ws"
    and w: "writes (ser_seq ws) bs'" and eq: "bs' = bs" and len: "length bs \<le> cap" "cap < 1200"
  shows "sends net (send_serialized net cap ser) bs"
proof -
  obtain d where d: "buffer_dynamic_alloc (net_malloc net) buffer_zero (word_of_nat cap) =
      Inr \<lparr>b_data = Some d, b_cap = word_of_nat cap, b_len = 0, b_dynamic = True\<rparr>" "length d = cap"
    using net_ok_alloc [OF net len(2)] by blast
  let ?b = "\<lparr>b_data = Some d, b_cap = word_of_nat cap, b_len = 0, b_dynamic = True\<rparr>"
  have cap: "length d = unat (b_cap ?b)"
    using d(2) len(2) by (simp add: unat_word_of_nat)
  have "fill_buffer ?b ser =
      Inr (?b\<lparr>b_data := Some (overwrite d 0 bs), b_len := word_of_nat (length bs)\<rparr>)"
    using w eq len(1) d(2) cap by (intro fill_buffer_writes [where ws = ws]) (simp_all add: ser)
  then have "send_serialized net cap ser = Inr (send_data net
      (?b\<lparr>b_data := Some (overwrite d 0 bs), b_len := word_of_nat (length bs)\<rparr>))"
    by (simp add: send_serialized_def d(1))
  then show ?thesis
    using fill_buffer_contents [OF cap, of bs] len(1) d(2) unfolding sends_def
    by (intro exI conjI) auto
qed

text \<open>A serializer that does not fit the allocated buffer.\<close>

lemma send_serialized_overflow:
  assumes net: "net_ok net" and ser: "\<And>mem. ser mem = ser_run mem ws"
    and w: "writes (ser_seq ws) bs" and len: "cap < length bs" "cap < 1200"
  shows "send_serialized net cap ser = Inl OutOfBounds"
  using net_ok_alloc [OF net len(2)] len(1)
  by (auto simp: send_serialized_def fill_buffer_def ser ser_run_writes [OF w])

text \<open>A concrete environment.\<close>

definition net0 :: net_env where
  "net0 = \<lparr>net_malloc = (\<lambda>n. Some (replicate n 0)), net_crc32 = (\<lambda>bs. word_of_nat (length bs)),
     net_tx_handler = Some (\<lambda>b. 0)\<rparr>"

lemma net_ok_net0: "net_ok net0"
  by (simp add: net_ok_def malloc_ok_def net0_def)

lemmas sender_defs =
  protocol_send_installed_fw_def protocol_send_update_status_def
     protocol_send_wireless_status_def protocol_send_wireless_tx_power_def
     protocol_send_energy_price_day_get_def protocol_send_energy_threshold_def
     protocol_send_energy_cheap_period_def protocol_send_energy_active_price_limit_def
     protocol_send_energy_sunnyhours_def protocol_send_energy_tariff_def
     protocol_send_relay_mode_def protocol_send_relay_state_def
     protocol_send_relay_def_state_def protocol_send_relay_pwm_def
     protocol_send_relay_inverted_output_def protocol_send_relay_one_shot_def
     protocol_send_environment_position_def protocol_send_meter_current_limit_def
     protocol_send_meter_alarms_def protocol_send_energy_accumulated_def
     protocol_send_diag_coredump_start_def protocol_send_diag_coredump_end_def
     protocol_send_status_def

lemmas serializer_defs =
  serialize_installed_fw_msg_def serialize_update_status_msg_def
     serialize_wireless_status_msg_def serialize_wireless_tx_power_msg_def
     serialize_energy_price_day_get_msg_def serialize_energy_price_threshold_msg_def
     serialize_energy_price_cheap_period_msg_def
     serialize_energy_price_active_price_limit_msg_def serialize_environment_sunny_time_msg_def
     serialize_energy_price_tariff_msg_def serialize_relay_mode_msg_def
     serialize_relay_state_msg_def serialize_relay_default_state_msg_def
     serialize_relay_pwm_msg_def serialize_relay_output_inverted_msg_def
     serialize_relay_one_shot_msg_def serialize_environment_position_msg_def
     serialize_meter_current_limit_msg_def serialize_meter_alarms_msg_def
     serialize_energy_accumulated_msg_def serialize_diag_coredump_start_msg_def
     serialize_diag_coredump_end_msg_def serialize_status_msg_def

lemma send_status_payload:
  assumes "net_ok net"
  shows "sends net (protocol_send_status net rq_type error)
     (wire_u16 MSGTYPE_STATUS @ [error] @ wire_u16 rq_type)"
  unfolding protocol_send_status_def Let_def
  by (rule send_serialized_ok [OF assms], rule serialize_status_msg_def, (rule writes_intros)+)
    simp_all

lemma coredump_start_sends:
  assumes "net_ok net"
  shows "sends net (protocol_send_diag_coredump_start net ver)
     (wire_u16 MSGTYPE_DIAG_COREDUMP_START @ wire_u32 ver @ wire_u32 0)"
  unfolding protocol_send_diag_coredump_start_def Let_def
  by (rule send_serialized_ok [OF assms], rule serialize_diag_coredump_start_msg_def, (rule writes_intros)+) simp_all

lemma coredump_end_sends:
  assumes "net_ok net"
  shows "sends net (protocol_send_diag_coredump_end net ver) (wire_u16 MSGTYPE_DIAG_COREDUMP_END @ wire_u32 ver)"
  unfolding protocol_send_diag_coredump_end_def Let_def
  by (rule send_serialized_ok [OF assms], rule serialize_diag_coredump_end_msg_def, (rule writes_intros)+) simp_all

lemma protocol_status_sends:
  assumes "net_ok net"
  shows "\<exists>bs. sends net (protocol_send_status net rq_type error) bs"
  unfolding protocol_send_status_def Let_def
  by (intro exI, rule send_serialized_ok [OF assms], rule serialize_status_msg_def, (rule writes_intros)+, rule refl) simp_all

lemma update_status_sends:
  assumes "net_ok net"
  shows "sends net (protocol_send_update_status net fw_ver progress phase error)
     (wire_u16 MSGTYPE_UPDATE_STATUS @ wire_u32 fw_ver @ [progress, phase, error])"
  unfolding protocol_send_update_status_def Let_def
  by (rule send_serialized_ok [OF assms], rule serialize_update_status_msg_def, (rule writes_intros)+) simp_all

lemma installed_fw_sends:
  assumes "net_ok net"
  shows "sends net (protocol_send_installed_fw net fw_ver downloaded_fw_ver hw_ver build_time)
     (wire_u16 MSGTYPE_UPDATE_INSTALLEDFW @ wire_u32 fw_ver @ wire_u32 downloaded_fw_ver @ wire_u32 (ucast hw_ver) @ wire_u64 build_time)"
  unfolding protocol_send_installed_fw_def Let_def
  by (rule send_serialized_ok [OF assms], rule serialize_installed_fw_msg_def, (rule writes_intros)+) simp_all

lemma wireless_status_sends:
  assumes "net_ok net"
  shows "sends net (protocol_send_wireless_status net protocol enabled ip rssi lqi)
     (wire_u16 MSGTYPE_WIRELESS_STATUS @ [protocol, enabled] @ wire_u32 ip @ [rssi, lqi])"
  unfolding protocol_send_wireless_status_def Let_def
  by (rule send_serialized_ok [OF assms], rule serialize_wireless_status_msg_def, (rule writes_intros)+) simp_all

lemma tx_power_sends:
  assumes "net_ok net"
  shows "sends net (protocol_send_wireless_tx_power net protocol tx_power)
     (wire_u16 MSGTYPE_WIRELESS_TX_POWER @ [protocol] @ wire_u16 tx_power)"
  unfolding protocol_send_wireless_tx_power_def Let_def
  by (rule send_serialized_ok [OF assms], rule serialize_wireless_tx_power_msg_def, (rule writes_intros)+) simp_all

lemma position_sends:
  assumes "net_ok net"
  shows "sends net (protocol_send_environment_position net latitude longitude)
     (wire_u16 MSGTYPE_ENVIRONMENT_POSITION @ wire_u64 (scast latitude) @ wire_u64 (scast longitude))"
  unfolding protocol_send_environment_position_def Let_def
  by (rule send_serialized_ok [OF assms], rule serialize_environment_position_msg_def, (rule writes_intros)+) simp_all

subsection \<open>The client info message\<close>

text \<open>The fields of the client info message before its CRC.\<close>

definition client_info_body :: "u32 \<Rightarrow> u64 \<Rightarrow> u8 \<Rightarrow> u32 \<Rightarrow> u8 \<Rightarrow> u16 \<Rightarrow> u32 \<Rightarrow> u8 \<Rightarrow> u16 \<Rightarrow> bytes" where
  "client_info_body unique_id dev_id hw_ver app_ver reconn_reason dev_type ip_addr reset_reason session_id =
     wire_u16 MSGTYPE_CLIENT_INFO @ wire_u16 dev_type @ wire_u64 dev_id @ wire_u32 unique_id @ wire_u32 ip_addr @ [hw_ver] @
     wire_u32 app_ver @ [reconn_reason, reset_reason, 0] @ wire_u16 session_id"

lemma client_info_sends:
  assumes "net_ok net"
  shows "sends net (protocol_send_client_info net unique_id dev_id hw_ver app_ver reconn_reason dev_type ip_addr reset_reason session_id)
     (client_info_body unique_id dev_id hw_ver app_ver reconn_reason dev_type ip_addr reset_reason session_id @
      wire_u32 (net_crc32 net (client_info_body unique_id dev_id hw_ver app_ver reconn_reason dev_type ip_addr reset_reason session_id)))"
proof -
  let ?msg = "client_info_msg_zero
        \<lparr>client_info_type := MSGTYPE_CLIENT_INFO, client_info_dev_type := dev_type,
         client_info_dev_id := dev_id, client_info_unique_id := unique_id,
         client_info_ip_addr := ip_addr, client_info_hw_ver := hw_ver,
         client_info_app_ver := app_ver, client_info_reconn_reason := reconn_reason,
         client_info_reset_reason := reset_reason, client_info_session_id := session_id,
         client_info_CRC := 0\<rparr>"
  define body where "body = client_info_body unique_id dev_id hw_ver app_ver reconn_reason dev_type ip_addr reset_reason session_id"
  note body_def = body_def [unfolded client_info_body_def]
  have body: "length body = 30" "take 2 body = wire_u16 MSGTYPE_CLIENT_INFO"
    by (simp_all add: body_def)
  have ser: "serialize_client_info_msg (?msg\<lparr>client_info_CRC := crc\<rparr>) mem =
      Inr (overwrite mem 0 (body @ wire_u32 crc), 34)" if "length mem = 34" for mem crc
  proof -
    have "\<exists>ws. (\<forall>mem. serialize_client_info_msg (?msg\<lparr>client_info_CRC := crc\<rparr>) mem = ser_run mem ws) \<and>
        writes (ser_seq ws) (body @ wire_u32 crc)"
    proof (intro exI conjI allI)
      show "serialize_client_info_msg (?msg\<lparr>client_info_CRC := crc\<rparr>) mem = ser_run mem
         [serialize_uint16 MSGTYPE_CLIENT_INFO, serialize_uint16 dev_type, serialize_uint64 dev_id,
          serialize_uint32 unique_id, serialize_uint32 ip_addr, serialize_uint8 hw_ver,
          serialize_uint32 app_ver, serialize_uint8 reconn_reason, serialize_uint8 reset_reason,
          serialize_uint8 0, serialize_uint16 session_id, serialize_uint32 crc]" for mem
        by (simp add: serialize_client_info_msg_def client_info_msg_zero_def)
      have "writes (ser_seq
         [serialize_uint16 MSGTYPE_CLIENT_INFO, serialize_uint16 dev_type, serialize_uint64 dev_id,
          serialize_uint32 unique_id, serialize_uint32 ip_addr, serialize_uint8 hw_ver,
          serialize_uint32 app_ver, serialize_uint8 reconn_reason, serialize_uint8 reset_reason,
          serialize_uint8 0, serialize_uint16 session_id, serialize_uint32 crc])
         (wire_u16 MSGTYPE_CLIENT_INFO @ wire_u16 dev_type @ wire_u64 dev_id @ wire_u32 unique_id @
          wire_u32 ip_addr @ [hw_ver] @ wire_u32 app_ver @ [reconn_reason] @ [reset_reason] @ [0] @
          wire_u16 session_id @ wire_u32 crc @ [])"
        by (rule writes_intros)+
      then show "writes (ser_seq
         [serialize_uint16 MSGTYPE_CLIENT_INFO, serialize_uint16 dev_type, serialize_uint64 dev_id,
          serialize_uint32 unique_id, serialize_uint32 ip_addr, serialize_uint8 hw_ver,
          serialize_uint32 app_ver, serialize_uint8 reconn_reason, serialize_uint8 reset_reason,
          serialize_uint8 0, serialize_uint16 session_id, serialize_uint32 crc]) (body @ wire_u32 crc)"
        by (simp add: body_def)
    qed
    then obtain ws where "\<forall>mem. serialize_client_info_msg (?msg\<lparr>client_info_CRC := crc\<rparr>) mem = ser_run mem ws"
      "writes (ser_seq ws) (body @ wire_u32 crc)" by blast
    then show ?thesis using that body by (simp add: ser_run_writes)
  qed
  obtain d where d: "buffer_dynamic_alloc (net_malloc net) buffer_zero (word_of_nat 34) =
      Inr \<lparr>b_data = Some d, b_cap = word_of_nat 34, b_len = 0, b_dynamic = True\<rparr>" "length d = 34"
    using net_ok_alloc [OF assms, of 34] by auto
  let ?b = "\<lparr>b_data = Some d, b_cap = word_of_nat 34, b_len = 0, b_dynamic = True\<rparr>"
  let ?crc = "net_crc32 net body"
  let ?d1 = "overwrite d 0 (body @ wire_u32 0)"
  have crc0: "?msg\<lparr>client_info_CRC := 0\<rparr> = ?msg" by simp
  have one: "fill_buffer ?b (serialize_client_info_msg ?msg) =
      Inr (?b\<lparr>b_data := Some ?d1, b_len := word_of_nat 34\<rparr>)"
    using ser [of d 0] d(2) by (simp add: fill_buffer_def crc0)
  have d1: "length ?d1 = 34" "take 30 ?d1 = body"
    using d(2) body by (simp_all add: overwrite_def)
  have "protocol_send_client_info net unique_id dev_id hw_ver app_ver reconn_reason dev_type ip_addr
      reset_reason session_id =
      Inr (send_data net (?b\<lparr>b_data := Some (overwrite ?d1 0 (body @ wire_u32 ?crc)),
        b_len := word_of_nat (length (body @ wire_u32 ?crc))\<rparr>))"
    using d(1) one ser [of ?d1 ?crc] d1 body
    by (simp add: protocol_send_client_info_def Let_def) (simp add: fill_buffer_def)
  then have "sends net (protocol_send_client_info net unique_id dev_id hw_ver app_ver reconn_reason
      dev_type ip_addr reset_reason session_id) (body @ wire_u32 ?crc)"
    using fill_buffer_contents [of ?d1 ?b "body @ wire_u32 ?crc"] d1(1) body(1)
    unfolding sends_def by (intro exI conjI) auto
  then show ?thesis unfolding body_def client_info_body_def .
qed

subsection \<open>Senders without arrays\<close>

lemma serialize_tx_power_writes:
  "writes (ser_seq [serialize_uint16 MSGTYPE_WIRELESS_TX_POWER, serialize_uint8 p, serialize_int16 t])
     (wire_u16 MSGTYPE_WIRELESS_TX_POWER @ [p] @ wire_u16 t @ [])"
  by (rule writes_intros)+

lemma wireless_channel_overflow:
  assumes "net_ok net"
  shows "protocol_send_wireless_channel net protocol channel = Inl OutOfBounds"
  unfolding protocol_send_wireless_channel_def
  by (rule send_serialized_overflow [OF assms _ serialize_tx_power_writes],
      rule serialize_wireless_tx_power_msg_def) simp_all

lemma diag_logs_settings_sends:
  assumes "net_ok net"
  shows "sends net (protocol_send_diag_logs_settings net medium [a, b, c, d, e, f])
     (wire_u16 MSGTYPE_DIAG_LOGS_SETTINGS @ [0] @ concat (map wire_u64 [a, b, c, d, e, f]))"
proof -
  let ?msg = "\<lparr>diag_logs_settings_type = MSGTYPE_DIAG_LOGS_SETTINGS, diag_logs_settings_medium = 0,
           diag_logs_settings_level_modules = [a, b, c, d, e, f]\<rparr>"
  have arr: "6 \<le> length (diag_logs_settings_level_modules ?msg)" by simp
  have eq: "protocol_send_diag_logs_settings net medium [a, b, c, d, e, f] =
      send_serialized net (2 + 1 + 6 * (6 * 8)) (serialize_diag_logs_settings_msg ?msg)"
    by (simp add: protocol_send_diag_logs_settings_def)
  show ?thesis
    unfolding eq
    by (rule send_serialized_ok [OF assms], rule serialize_diag_logs_settings_msg_def, (rule writes_intros arr)+) simp_all
qed

text \<open>C35. The senders of the messages without a counted array or a string: all but one allocate enough, write nothing
  outside the buffer, and hand over a buffer that holds exactly the wire format of the message, the type and then the
  fields of the call in the order of the structure. The client info ends with the CRC of all that precedes it, and the
  log settings carry the medium 0 whatever medium is asked for. The exception is the sender of the
  wireless channel, which writes past its buffer on every call.\<close>

theorem senders_payload:
  assumes "net_ok net"
  shows "sends net (protocol_send_installed_fw net fw_ver downloaded_fw_ver hw_ver build_time)
     (wire_u16 MSGTYPE_UPDATE_INSTALLEDFW @ wire_u32 fw_ver @ wire_u32 downloaded_fw_ver @ wire_u32 (ucast hw_ver) @ wire_u64 build_time) \<and>
   sends net (protocol_send_update_status net fw_ver progress phase error)
     (wire_u16 MSGTYPE_UPDATE_STATUS @ wire_u32 fw_ver @ [progress, phase, error]) \<and>
   sends net (protocol_send_wireless_status net protocol enabled ip rssi lqi)
     (wire_u16 MSGTYPE_WIRELESS_STATUS @ [protocol, enabled] @ wire_u32 ip @ [rssi, lqi]) \<and>
   sends net (protocol_send_wireless_tx_power net protocol tx_power)
     (wire_u16 MSGTYPE_WIRELESS_TX_POWER @ [protocol] @ wire_u16 tx_power) \<and>
   sends net (protocol_send_energy_price_day_get net req_tariff req_day_time)
     (wire_u16 MSGTYPE_ENERGYPRICE_DAY_GET @ wire_u16 (ucast req_tariff) @ wire_u64 req_day_time) \<and>
   sends net (protocol_send_energy_threshold net price)
     (wire_u16 MSGTYPE_ENERGYPRICE_PRICE_THRESHOLD @ wire_u32 price) \<and>
   sends net (protocol_send_energy_cheap_period net quarters)
     (wire_u16 MSGTYPE_ENERGYPRICE_CHEAP_PERIOD @ [quarters]) \<and>
   sends net (protocol_send_energy_active_price_limit net price)
     (wire_u16 MSGTYPE_ENERGYPRICE_ACTIVE_PRICE_LIMIT @ wire_u32 price) \<and>
   sends net (protocol_send_energy_sunnyhours net percentage)
     (wire_u16 MSGTYPE_ENVIRONMENT_SUNNY_TIME @ [percentage]) \<and>
   sends net (protocol_send_energy_tariff net tariff)
     (wire_u16 MSGTYPE_ENERGYPRICE_TARIFF @ wire_u16 tariff) \<and>
   sends net (protocol_send_relay_mode net mode)
     (wire_u16 MSGTYPE_RELAY_MODE @ [mode]) \<and>
   sends net (protocol_send_relay_state net state)
     (wire_u16 MSGTYPE_RELAY_STATE @ [state]) \<and>
   sends net (protocol_send_relay_def_state net enabled)
     (wire_u16 MSGTYPE_RELAY_DEFAULT_STATE @ [enabled]) \<and>
   sends net (protocol_send_relay_pwm net enabled period_min duty_cycle)
     (wire_u16 MSGTYPE_RELAY_PWM @ [enabled] @ wire_u16 period_min @ [duty_cycle]) \<and>
   sends net (protocol_send_relay_inverted_output net inverted)
     (wire_u16 MSGTYPE_RELAY_INVERTED_OUTPUT @ [inverted]) \<and>
   sends net (protocol_send_relay_one_shot net enabled start end_time state)
     (wire_u16 MSGTYPE_RELAY_ONE_SHOT @ [enabled] @ wire_u64 start @ wire_u64 end_time @ [state]) \<and>
   sends net (protocol_send_environment_position net latitude longitude)
     (wire_u16 MSGTYPE_ENVIRONMENT_POSITION @ wire_u64 (scast latitude) @ wire_u64 (scast longitude)) \<and>
   sends net (protocol_send_meter_current_limit net limit)
     (wire_u16 MSGTYPE_METER_CURRENT_LIMIT @ wire_u32 limit) \<and>
   sends net (protocol_send_meter_alarms net alarm_mask)
     (wire_u16 MSGTYPE_METER_ALARMS @ wire_u64 alarm_mask) \<and>
   sends net (protocol_send_energy_accumulated net timestamp meas_type energy)
     (wire_u16 MSGTYPE_ENERGY_ACCUMULATED @ wire_u64 timestamp @ [meas_type] @ wire_u64 energy) \<and>
   sends net (protocol_send_diag_coredump_start net coredump_version)
     (wire_u16 MSGTYPE_DIAG_COREDUMP_START @ wire_u32 coredump_version @ wire_u32 0) \<and>
   sends net (protocol_send_diag_coredump_end net coredump_version)
     (wire_u16 MSGTYPE_DIAG_COREDUMP_END @ wire_u32 coredump_version) \<and>
   sends net (protocol_send_status net rq_type error)
     (wire_u16 MSGTYPE_STATUS @ [error] @ wire_u16 rq_type) \<and>
   sends net (protocol_send_client_info net unique_id dev_id client_hw_ver app_ver reconn_reason dev_type ip_addr reset_reason session_id)
     (client_info_body unique_id dev_id client_hw_ver app_ver reconn_reason dev_type ip_addr reset_reason session_id @
      wire_u32 (net_crc32 net (client_info_body unique_id dev_id client_hw_ver app_ver reconn_reason dev_type ip_addr reset_reason session_id))) \<and>
   sends net (protocol_send_diag_logs_settings net medium [l1, l2, l3, l4, l5, l6])
     (wire_u16 MSGTYPE_DIAG_LOGS_SETTINGS @ [0] @ concat (map wire_u64 [l1, l2, l3, l4, l5, l6])) \<and>
   protocol_send_wireless_channel net channel_protocol channel = Inl OutOfBounds"
  unfolding sender_defs Let_def
  by (intro conjI client_info_sends [OF assms] diag_logs_settings_sends [OF assms] wireless_channel_overflow [OF assms];
      rule send_serialized_ok [OF assms], rule serializer_defs, (rule writes_intros)+)
    simp_all

theorem senders_payload_witness:
  "sends net0 (protocol_send_installed_fw net0 0x1020304 0x1020304 1 6)
     (wire_u16 MSGTYPE_UPDATE_INSTALLEDFW @ wire_u32 0x1020304 @ wire_u32 0x1020304 @ wire_u32 (ucast (1 :: u8)) @ wire_u64 6) \<and>
   sends net0 (protocol_send_update_status net0 0x1020304 1 1 1)
     (wire_u16 MSGTYPE_UPDATE_STATUS @ wire_u32 0x1020304 @ [1, 1, 1]) \<and>
   sends net0 (protocol_send_wireless_status net0 1 1 0x1020304 2 1)
     (wire_u16 MSGTYPE_WIRELESS_STATUS @ [1, 1] @ wire_u32 0x1020304 @ [2, 1]) \<and>
   sends net0 (protocol_send_wireless_tx_power net0 1 3)
     (wire_u16 MSGTYPE_WIRELESS_TX_POWER @ [1] @ wire_u16 3) \<and>
   sends net0 (protocol_send_energy_price_day_get net0 0x1020304 6)
     (wire_u16 MSGTYPE_ENERGYPRICE_DAY_GET @ wire_u16 (ucast (0x1020304 :: u32)) @ wire_u64 6) \<and>
   sends net0 (protocol_send_energy_threshold net0 5)
     (wire_u16 MSGTYPE_ENERGYPRICE_PRICE_THRESHOLD @ wire_u32 5) \<and>
   sends net0 (protocol_send_energy_cheap_period net0 1)
     (wire_u16 MSGTYPE_ENERGYPRICE_CHEAP_PERIOD @ [1]) \<and>
   sends net0 (protocol_send_energy_active_price_limit net0 5)
     (wire_u16 MSGTYPE_ENERGYPRICE_ACTIVE_PRICE_LIMIT @ wire_u32 5) \<and>
   sends net0 (protocol_send_energy_sunnyhours net0 1)
     (wire_u16 MSGTYPE_ENVIRONMENT_SUNNY_TIME @ [1]) \<and>
   sends net0 (protocol_send_energy_tariff net0 0x102)
     (wire_u16 MSGTYPE_ENERGYPRICE_TARIFF @ wire_u16 0x102) \<and>
   sends net0 (protocol_send_relay_mode net0 1)
     (wire_u16 MSGTYPE_RELAY_MODE @ [1]) \<and>
   sends net0 (protocol_send_relay_state net0 1)
     (wire_u16 MSGTYPE_RELAY_STATE @ [1]) \<and>
   sends net0 (protocol_send_relay_def_state net0 1)
     (wire_u16 MSGTYPE_RELAY_DEFAULT_STATE @ [1]) \<and>
   sends net0 (protocol_send_relay_pwm net0 1 0x102 1)
     (wire_u16 MSGTYPE_RELAY_PWM @ [1] @ wire_u16 0x102 @ [1]) \<and>
   sends net0 (protocol_send_relay_inverted_output net0 1)
     (wire_u16 MSGTYPE_RELAY_INVERTED_OUTPUT @ [1]) \<and>
   sends net0 (protocol_send_relay_one_shot net0 1 6 6 1)
     (wire_u16 MSGTYPE_RELAY_ONE_SHOT @ [1] @ wire_u64 6 @ wire_u64 6 @ [1]) \<and>
   sends net0 (protocol_send_environment_position net0 5 5)
     (wire_u16 MSGTYPE_ENVIRONMENT_POSITION @ wire_u64 (scast (5 :: i32)) @ wire_u64 (scast (5 :: i32))) \<and>
   sends net0 (protocol_send_meter_current_limit net0 5)
     (wire_u16 MSGTYPE_METER_CURRENT_LIMIT @ wire_u32 5) \<and>
   sends net0 (protocol_send_meter_alarms net0 7)
     (wire_u16 MSGTYPE_METER_ALARMS @ wire_u64 7) \<and>
   sends net0 (protocol_send_energy_accumulated net0 6 1 7)
     (wire_u16 MSGTYPE_ENERGY_ACCUMULATED @ wire_u64 6 @ [1] @ wire_u64 7) \<and>
   sends net0 (protocol_send_diag_coredump_start net0 0x1020304)
     (wire_u16 MSGTYPE_DIAG_COREDUMP_START @ wire_u32 0x1020304 @ wire_u32 0) \<and>
   sends net0 (protocol_send_diag_coredump_end net0 0x1020304)
     (wire_u16 MSGTYPE_DIAG_COREDUMP_END @ wire_u32 0x1020304) \<and>
   sends net0 (protocol_send_status net0 0x102 1)
     (wire_u16 MSGTYPE_STATUS @ [1] @ wire_u16 0x102) \<and>
   sends net0 (protocol_send_client_info net0 1 2 3 4 5 6 7 8 9)
     (client_info_body 1 2 3 4 5 6 7 8 9 @
      wire_u32 (net_crc32 net0 (client_info_body 1 2 3 4 5 6 7 8 9))) \<and>
   sends net0 (protocol_send_diag_logs_settings net0 1 [1, 2, 3, 4, 5, 6])
     (wire_u16 MSGTYPE_DIAG_LOGS_SETTINGS @ [0] @ concat (map wire_u64 [1, 2, 3, 4, 5, 6])) \<and>
   protocol_send_wireless_channel net0 1 2 = Inl OutOfBounds"
  by (rule senders_payload) (rule net_ok_net0)

subsection \<open>Senders with arrays\<close>

lemma coredump_body_sends:
  assumes "net_ok net" "unat k \<le> 1024" "unat k \<le> length block"
  shows "sends net (protocol_send_diag_coredump_body net ver k block)
    (wire_u16 MSGTYPE_DIAG_COREDUMP_BODY @ wire_u32 ver @ wire_u16 k @ take (unat k) block)"
proof -
  let ?msg = "\<lparr>diag_coredump_body_type = MSGTYPE_DIAG_COREDUMP_BODY,
           diag_coredump_body_coredump_version = ver, diag_coredump_body_block_len = k,
           diag_coredump_body_block_data = overwrite (replicate 1024 0) 0 (take (unat k) block)\<rparr>"
  have arr: "unat k \<le> length (diag_coredump_body_block_data ?msg)" using assms(2,3) by simp
  have tk: "take (unat k) (overwrite (replicate 1024 0) 0 (take (unat k) block)) = take (unat k) block"
    using assms(3) by (intro take_overwrite_0) simp
  have "protocol_send_diag_coredump_body net ver k block =
      send_serialized net diag_coredump_body_msg_sizeof (serialize_diag_coredump_body_msg ?msg)"
    using assms(2,3) by (simp add: protocol_send_diag_coredump_body_def c_memcpy_def
        diag_coredump_body_msg_zero_def)
  moreover have "sends net (send_serialized net diag_coredump_body_msg_sizeof
      (serialize_diag_coredump_body_msg ?msg))
      (wire_u16 MSGTYPE_DIAG_COREDUMP_BODY @ wire_u32 ver @ wire_u16 k @ take (unat k) block)"
    by (rule send_serialized_ok [OF assms(1)], rule serialize_diag_coredump_body_msg_def,
        (rule writes_intros arr)+) (use assms(2) tk writes_Nil in simp_all)
  ultimately show ?thesis
    by simp
qed

text \<open>The senders of measurements, histories, snapshots and core dump blocks write nothing outside
  their buffer as long as the arrays have the announced number of entries and the message has fewer
  than 1200 bytes.\<close>

lemma array_senders_safe:
  assumes "net_ok net"
    and "unat n \<le> length types" "unat n \<le> length vals" "unat n \<le> length offs" "unat n \<le> length thrs"
    and "unat n * 8 + 19 < 1200"
    and "unat k \<le> 1024" "unat k \<le> length block"
  shows "(\<exists>bs. sends net (protocol_send_meter_measurements net ts types vals n) bs \<and>
      length bs = 14 + 5 * unat n) \<and>
    (\<exists>bs. sends net (protocol_send_meter_measurements_history net ts ty offs vals n) bs \<and>
      length bs = 15 + 8 * unat n) \<and>
    (\<exists>bs. sends net (protocol_send_relay_snapshots net ts fac offs types thrs n) bs \<and>
      length bs = 17 + 7 * unat n) \<and>
    (\<exists>bs. sends net (protocol_send_energy_history net ty ts intv offs n) bs \<and>
      length bs = 17 + 4 * unat n) \<and>
    sends net (protocol_send_diag_coredump_body net ver k block)
      (wire_u16 MSGTYPE_DIAG_COREDUMP_BODY @ wire_u32 ver @ wire_u16 k @ take (unat k) block)"
proof (intro conjI)
  note w = assms(2-6)
  show "\<exists>bs. sends net (protocol_send_meter_measurements net ts types vals n) bs \<and>
      length bs = 14 + 5 * unat n"
    unfolding protocol_send_meter_measurements_def
    by (intro exI conjI, rule send_serialized_ok [OF assms(1)], rule serialize_meter_meas_msg_def,
        (rule writes_intros w)+, rule refl) (use w in simp_all)
  show "\<exists>bs. sends net (protocol_send_meter_measurements_history net ts ty offs vals n) bs \<and>
      length bs = 15 + 8 * unat n"
    unfolding protocol_send_meter_measurements_history_def
    by (intro exI conjI, rule send_serialized_ok [OF assms(1)], rule serialize_meter_meas_history_msg_def,
        (rule writes_intros w)+, rule refl) (use w in simp_all)
  show "\<exists>bs. sends net (protocol_send_relay_snapshots net ts fac offs types thrs n) bs \<and>
      length bs = 17 + 7 * unat n"
    unfolding protocol_send_relay_snapshots_def
    by (intro exI conjI, rule send_serialized_ok [OF assms(1)], rule serialize_relay_snapshots_msg_def,
        (rule writes_intros w)+, rule refl) (use w in simp_all)
  show "\<exists>bs. sends net (protocol_send_energy_history net ty ts intv offs n) bs \<and>
      length bs = 17 + 4 * unat n"
    unfolding protocol_send_energy_history_def
    by (intro exI conjI, rule send_serialized_ok [OF assms(1)], rule serialize_energy_history_msg_def,
        (rule writes_intros w)+, rule refl) (use w in simp_all)
  show "sends net (protocol_send_diag_coredump_body net ver k block)
      (wire_u16 MSGTYPE_DIAG_COREDUMP_BODY @ wire_u32 ver @ wire_u16 k @ take (unat k) block)"
    by (rule coredump_body_sends [OF assms(1,7,8)])
qed

subsection \<open>Senders that cannot work\<close>

text \<open>Three senders fail for inputs their callers may pass: the channel sender writes five bytes (the
  message of the transmission power) to a buffer of four, whatever the channel; the credentials
  sender fails an assertion for a network name of 32 characters, which the standard allows;
  the button sender writes past its array for more than six modes.\<close>

lemma senders_faulty:
  assumes "net_ok net" "length ssid = 32" "0 \<notin> set ssid" "6 < unat len"
  shows "protocol_send_wireless_channel net protocol channel = Inl OutOfBounds \<and>
    protocol_send_wireless_credentials net protocol ssid [0] = Inl Abort \<and>
    protocol_send_relay_button_config net modes len = Inl OutOfBounds"
proof (intro conjI)
  show "protocol_send_wireless_channel net protocol channel = Inl OutOfBounds"
    by (rule wireless_channel_overflow [OF assms(1)])
  show "protocol_send_relay_button_config net modes len = Inl OutOfBounds"
    using assms(4) by (simp add: protocol_send_relay_button_config_def c_memcpy_def
        relay_button_config_msg_zero_def)
  have t: "takeWhile (\<lambda>c. c \<noteq> 0) ssid = ssid"
    using assms(3) by (auto simp: takeWhile_eq_all_conv)
  let ?nw = "overwrite (replicate 32 0) 0 ssid"
  obtain d where d: "buffer_dynamic_alloc (net_malloc net) buffer_zero (word_of_nat 39) =
      Inr \<lparr>b_data = Some d, b_cap = word_of_nat 39, b_len = 0, b_dynamic = True\<rparr>" "length d = 39"
    using net_ok_alloc [OF assms(1), of 39] by auto
  show "protocol_send_wireless_credentials net protocol ssid [0] = Inl Abort"
    using assms(2) d
    by (simp add: protocol_send_wireless_credentials_def c_strnlen_def c_memcpy_def t Let_def
        wireless_credentials_msg_zero_def send_serialized_def fill_buffer_def
        serialize_wireless_credentials_msg_def ser_run_def serialize_uint16_def serialize_uint8_def
        emit_def serialize_assert_def)
qed

end
