(* ===== verification/EM_Receiver.thy ===== *)
theory EM_Receiver
  imports EM_Sender
begin

section \<open>Receiving messages (em_tcp_protocol/receiver.c)\<close>

text \<open>
  \<open>parse_message\<close> picks the parser by the message type and copies the structure to the static message
  buffer, whose size is the structure of the price table; the dispatcher then calls the registered
  application handler and answers with a status. The buffer is modelled by the structure it holds
  (\<open>rx_msg\<close>), and a copy of a structure that does not fit is a fault. The 29 cases of the \<open>switch\<close>
  are split into groups; a group gives \<open>None\<close> for a type that is not its own.
\<close>

datatype rx_msg =
    RxType u16
  | RxConnectionStatus connection_status_msg_t
  | RxIdentify identify_msg_t
  | RxUpdateStart update_start_msg_t
  | RxUpdateInstall update_install_msg_t
  | RxWirelessEnable wireless_enable_msg_t
  | RxWirelessCredentials wireless_credentials_msg_t
  | RxWirelessTxPower wireless_tx_power_msg_t
  | RxWirelessChannel wireless_channel_msg_t
  | RxEnergyPriceDay energy_price_day_msg_t
  | RxEnergyPriceThreshold energy_price_threshold_msg_t
  | RxEnergyPriceCheapPeriod energy_price_cheap_period_msg_t
  | RxEnergyPriceTariff energy_price_tariff_msg_t
  | RxRelayMode relay_mode_msg_t
  | RxRelayState relay_state_msg_t
  | RxRelayDefaultState relay_default_state_msg_t
  | RxRelayPwm relay_pwm_msg_t
  | RxRelayInvertedOutput relay_inverted_output_msg_t
  | RxRelayButtonConfig relay_button_config_msg_t
  | RxRelaySchedule relay_schedule_msg_t
  | RxRelayOneShot relay_one_shot_msg_t
  | RxSunnyTime environment_sunny_time_msg_t
  | RxCloudCover environment_cloud_cover_msg_t
  | RxPosition environment_position_msg_t
  | RxMeterCurrentLimit meter_current_limit_msg_t
  | RxMeterAlarms meter_alarms_msg_t
  | RxStatus status_msg_t
  | RxGet get_msg_t

definition BIGGEST_RECV_MESSAGE_SIZE :: nat where
  "BIGGEST_RECV_MESSAGE_SIZE = energy_price_day_msg_sizeof"

type_synonym rx_result = "(int \<times> rx_msg option) outcome"

text \<open>One \<open>case\<close>: parse, check the type, copy; and a case without parser, which copies the type.\<close>

definition rx_case :: "'m outcome \<Rightarrow> ('m \<Rightarrow> u16) \<Rightarrow> nat \<Rightarrow> ('m \<Rightarrow> rx_msg) \<Rightarrow> rx_result" where
  "rx_case parsed mtype sz con =
     obind parsed (\<lambda>msg.
       if mtype msg = MSGTYPE_INVALID then Inr (ESP_ERR_INVALID_RESPONSE, None)
       else if sz \<le> BIGGEST_RECV_MESSAGE_SIZE then Inr (ESP_OK, Some (con msg))
       else Inl OutOfBounds)"

definition rx_type_case :: "u16 \<Rightarrow> rx_result" where
  "rx_type_case type = Inr (ESP_OK, Some (RxType type))"

definition receive_system :: "u16 \<Rightarrow> bytes \<Rightarrow> nat \<Rightarrow> rx_result option" where
  "receive_system type data len =
     (if type = MSGTYPE_CONNECTION_STATUS then
        Some (rx_case (parse_connection_status_msg data len) connection_status_type connection_status_msg_sizeof RxConnectionStatus)
      else if type = MSGTYPE_REBOOT then Some (rx_type_case type)
      else if type = MSGTYPE_FACTORY_RESET then Some (rx_type_case type)
      else if type = MSGTYPE_IDENTIFY then
        Some (rx_case (parse_identify_msg data len) identify_type identify_msg_sizeof RxIdentify)
      else None)"

definition receive_update :: "u16 \<Rightarrow> bytes \<Rightarrow> nat \<Rightarrow> rx_result option" where
  "receive_update type data len =
     (if type = MSGTYPE_UPDATE_START then
        Some (rx_case (parse_update_start_msg data len) update_start_type update_start_msg_sizeof RxUpdateStart)
      else if type = MSGTYPE_UPDATE_INSTALL then
        Some (rx_case (parse_update_install_msg data len) update_install_type update_install_msg_sizeof RxUpdateInstall)
      else None)"

definition receive_wireless :: "u16 \<Rightarrow> bytes \<Rightarrow> nat \<Rightarrow> rx_result option" where
  "receive_wireless type data len =
     (if type = MSGTYPE_WIRELESS_ENABLE then
        Some (rx_case (parse_wireless_enable_msg data len) wireless_enable_type wireless_enable_msg_sizeof RxWirelessEnable)
      else if type = MSGTYPE_WIRELESS_SET_CREDENTIALS then
        Some (rx_case (parse_wireless_credentials_msg data len) wireless_credentials_type wireless_credentials_msg_sizeof RxWirelessCredentials)
      else if type = MSGTYPE_WIRELESS_SET_TX_POWER then
        Some (rx_case (parse_wireless_tx_power_msg data len) wireless_tx_power_type wireless_tx_power_msg_sizeof RxWirelessTxPower)
      else if type = MSGTYPE_WIRELESS_SET_CHANNEL then
        Some (rx_case (parse_wireless_channel_msg data len) wireless_channel_type wireless_channel_msg_sizeof RxWirelessChannel)
      else None)"

definition receive_energy :: "u16 \<Rightarrow> bytes \<Rightarrow> nat \<Rightarrow> rx_result option" where
  "receive_energy type data len =
     (if type = MSGTYPE_ENERGYPRICE_DAY then
        Some (rx_case (parse_energy_price_day_msg data len) energy_price_day_type energy_price_day_msg_sizeof RxEnergyPriceDay)
      else if type = MSGTYPE_ENERGYPRICE_SET_PRICE_THRESHOLD then
        Some (rx_case (parse_energy_price_threshold_msg data len) energy_price_threshold_type energy_price_threshold_msg_sizeof RxEnergyPriceThreshold)
      else if type = MSGTYPE_ENERGYPRICE_SET_CHEAP_PERIOD then
        Some (rx_case (parse_energy_price_cheap_period_msg data len) energy_price_cheap_period_type energy_price_cheap_period_msg_sizeof RxEnergyPriceCheapPeriod)
      else if type = MSGTYPE_ENERGYPRICE_SET_TARIFF then
        Some (rx_case (parse_energy_price_tariff_msg data len) energy_price_tariff_type energy_price_tariff_msg_sizeof RxEnergyPriceTariff)
      else None)"

definition receive_relay :: "u16 \<Rightarrow> bytes \<Rightarrow> nat \<Rightarrow> rx_result option" where
  "receive_relay type data len =
     (if type = MSGTYPE_RELAY_SET_MODE then
        Some (rx_case (parse_relay_mode_msg data len) relay_mode_type relay_mode_msg_sizeof RxRelayMode)
      else if type = MSGTYPE_RELAY_SET_STATE then
        Some (rx_case (parse_relay_state_msg data len) relay_state_type relay_state_msg_sizeof RxRelayState)
      else if type = MSGTYPE_RELAY_SET_DEFAULT_STATE then
        Some (rx_case (parse_relay_default_state_msg data len) relay_default_state_type relay_default_state_msg_sizeof RxRelayDefaultState)
      else if type = MSGTYPE_RELAY_SET_PWM then
        Some (rx_case (parse_relay_pwm_msg data len) relay_pwm_type relay_pwm_msg_sizeof RxRelayPwm)
      else if type = MSGTYPE_RELAY_SET_INVERTED_OUTPUT then
        Some (rx_case (parse_relay_set_inverted_output_msg data len) relay_inverted_output_type relay_inverted_output_msg_sizeof RxRelayInvertedOutput)
      else if type = MSGTYPE_RELAY_SET_BUTTON_CONFIG then
        Some (rx_case (parse_relay_button_config_msg data len) relay_button_config_type relay_button_config_msg_sizeof RxRelayButtonConfig)
      else if type = MSGTYPE_RELAY_SET_SCHEDULE then
        Some (rx_case (parse_relay_schedule_msg data len) relay_schedule_type relay_schedule_msg_sizeof RxRelaySchedule)
      else if type = MSGTYPE_RELAY_SET_ONE_SHOT then
        Some (rx_case (parse_relay_one_shot_msg data len) relay_one_shot_type relay_one_shot_msg_sizeof RxRelayOneShot)
      else None)"

definition receive_environment :: "u16 \<Rightarrow> bytes \<Rightarrow> nat \<Rightarrow> rx_result option" where
  "receive_environment type data len =
     (if type = MSGTYPE_ENVIRONMENT_SET_SUNNY_TIME then
        Some (rx_case (parse_environment_sunny_time_msg data len) environment_sunny_time_type environment_sunny_time_msg_sizeof RxSunnyTime)
      else if type = MSGTYPE_ENVIRONMENT_CLOUD_COVER then
        Some (rx_case (parse_environment_cloud_cover_msg data len) environment_cloud_cover_type environment_cloud_cover_msg_sizeof RxCloudCover)
      else if type = MSGTYPE_ENVIRONMENT_SET_POSITION then
        Some (rx_case (parse_environment_position_msg data len) environment_position_type environment_position_msg_sizeof RxPosition)
      else None)"

definition receive_meter :: "u16 \<Rightarrow> bytes \<Rightarrow> nat \<Rightarrow> rx_result option" where
  "receive_meter type data len =
     (if type = MSGTYPE_METER_SET_CURRENT_LIMIT then
        Some (rx_case (parse_meter_current_limit_msg data len) meter_current_limit_type meter_current_limit_msg_sizeof RxMeterCurrentLimit)
      else if type = MSGTYPE_METER_CLEAR_ALARMS then
        Some (rx_case (parse_meter_clear_alarms_msg data len) meter_alarms_type meter_alarms_msg_sizeof RxMeterAlarms)
      else if type = MSGTYPE_DIAG_COREDUMP_CONFIRMED then Some (rx_type_case type)
      else if type = MSGTYPE_STATUS then
        Some (rx_case (parse_status_msg data len) status_type status_msg_sizeof RxStatus)
      else if type = MSGTYPE_GET then
        Some (rx_case (parse_get_msg data len) get_type get_msg_sizeof RxGet)
      else None)"

fun first_case :: "rx_result option list \<Rightarrow> rx_result" where
  "first_case [] = Inr (ESP_ERR_NOT_SUPPORTED, None)"
| "first_case (None # cs) = first_case cs"
| "first_case (Some r # cs) = r"

text \<open>The result: the return value, \<open>*out_type\<close>, and the structure copied to the buffer.\<close>

definition parse_message :: "bytes \<Rightarrow> nat \<Rightarrow> (int \<times> u16 \<times> rx_msg option) outcome" where
  "parse_message data len =
     c_assert (len \<le> BIGGEST_RECV_MESSAGE_SIZE)
      (obind (parse_msg_type data len) (\<lambda>type.
       if type = MSGTYPE_INVALID then Inr (ESP_ERR_INVALID_SIZE, type, None)
       else obind (first_case
           [receive_system type data len,
            receive_update type data len,
            receive_wireless type data len,
            receive_energy type data len,
            receive_relay type data len,
            receive_environment type data len,
            receive_meter type data len])
         (\<lambda>(ret, m). Inr (ret, type, m))))"

datatype rx_event = RxDispatched u16 rx_msg | RxReplied "tx_event list"

text \<open>\<open>cb\<close> is the registered application handler. A message buffer that no case has written is zero.\<close>

definition protocol_receiver_dispatcher ::
  "net_env \<Rightarrow> (u16 \<Rightarrow> rx_msg \<Rightarrow> int) option \<Rightarrow> bytes \<Rightarrow> nat \<Rightarrow> (int \<times> rx_event list) outcome" where
  "protocol_receiver_dispatcher net cb data len =
     c_assert (BIGGEST_RECV_MESSAGE_SIZE \<ge> len)
      (obind (parse_message data len) (\<lambda>(ret, msg_type, m).
       if ret \<noteq> 0 then Inr (ret, [])
       else
         (let buf = (case m of None \<Rightarrow> RxType 0 | Some msg \<Rightarrow> msg);
              ret = (case cb of None \<Rightarrow> ret | Some f \<Rightarrow> f msg_type buf);
              evs = (case cb of None \<Rightarrow> [] | Some f \<Rightarrow> [RxDispatched msg_type buf]) in
          if msg_type \<noteq> MSGTYPE_GET \<or> ret \<noteq> ESP_OK
          then obind (protocol_send_status net msg_type (word_of_int ret)) (\<lambda>(r, tx).
                 Inr (ESP_OK, evs @ [RxReplied tx]))
          else Inr (ESP_OK, evs))))"

definition protocol_register_rx_handler ::
  "(u16 \<Rightarrow> rx_msg \<Rightarrow> int) \<Rightarrow> (u16 \<Rightarrow> rx_msg \<Rightarrow> int) option" where
  "protocol_register_rx_handler handler = Some handler"

text \<open>\<open>rx_matches t m\<close>: \<open>m\<close> is the structure of the messages of type \<open>t\<close>, and holds that type. The address of an
  update is in its array. The parsers of three wireless settings accept no message, so their structures are
  never handed out.\<close>

fun rx_matches :: "u16 \<Rightarrow> rx_msg \<Rightarrow> bool" where
  "rx_matches t (RxType ty) \<longleftrightarrow> ty = t \<and>
     t \<in> {MSGTYPE_REBOOT, MSGTYPE_FACTORY_RESET, MSGTYPE_DIAG_COREDUMP_CONFIRMED}"
| "rx_matches t (RxConnectionStatus m) \<longleftrightarrow> t = MSGTYPE_CONNECTION_STATUS \<and> connection_status_type m = t"
| "rx_matches t (RxIdentify m) \<longleftrightarrow> t = MSGTYPE_IDENTIFY \<and> identify_type m = t"
| "rx_matches t (RxUpdateStart m) \<longleftrightarrow> t = MSGTYPE_UPDATE_START \<and> update_start_type m = t \<and>
     length (update_start_img_url m) = 129 \<and> unat (update_start_img_url_len m) < 128"
| "rx_matches t (RxUpdateInstall m) \<longleftrightarrow> t = MSGTYPE_UPDATE_INSTALL \<and> update_install_type m = t"
| "rx_matches t (RxWirelessEnable m) \<longleftrightarrow> False"
| "rx_matches t (RxWirelessCredentials m) \<longleftrightarrow> False"
| "rx_matches t (RxWirelessTxPower m) \<longleftrightarrow> False"
| "rx_matches t (RxWirelessChannel m) \<longleftrightarrow> t = MSGTYPE_WIRELESS_SET_CHANNEL \<and> wireless_channel_type m = t"
| "rx_matches t (RxEnergyPriceDay m) \<longleftrightarrow> t = MSGTYPE_ENERGYPRICE_DAY \<and> energy_price_day_type m = t"
| "rx_matches t (RxEnergyPriceThreshold m) \<longleftrightarrow> t = MSGTYPE_ENERGYPRICE_SET_PRICE_THRESHOLD \<and> energy_price_threshold_type m = t"
| "rx_matches t (RxEnergyPriceCheapPeriod m) \<longleftrightarrow> t = MSGTYPE_ENERGYPRICE_SET_CHEAP_PERIOD \<and> energy_price_cheap_period_type m = t"
| "rx_matches t (RxEnergyPriceTariff m) \<longleftrightarrow> t = MSGTYPE_ENERGYPRICE_SET_TARIFF \<and> energy_price_tariff_type m = t"
| "rx_matches t (RxRelayMode m) \<longleftrightarrow> t = MSGTYPE_RELAY_SET_MODE \<and> relay_mode_type m = t"
| "rx_matches t (RxRelayState m) \<longleftrightarrow> t = MSGTYPE_RELAY_SET_STATE \<and> relay_state_type m = t"
| "rx_matches t (RxRelayDefaultState m) \<longleftrightarrow> t = MSGTYPE_RELAY_SET_DEFAULT_STATE \<and> relay_default_state_type m = t"
| "rx_matches t (RxRelayPwm m) \<longleftrightarrow> t = MSGTYPE_RELAY_SET_PWM \<and> relay_pwm_type m = t"
| "rx_matches t (RxRelayInvertedOutput m) \<longleftrightarrow> t = MSGTYPE_RELAY_SET_INVERTED_OUTPUT \<and> relay_inverted_output_type m = t"
| "rx_matches t (RxRelayButtonConfig m) \<longleftrightarrow> t = MSGTYPE_RELAY_SET_BUTTON_CONFIG \<and> relay_button_config_type m = t"
| "rx_matches t (RxRelaySchedule m) \<longleftrightarrow> t = MSGTYPE_RELAY_SET_SCHEDULE \<and> relay_schedule_type m = t"
| "rx_matches t (RxRelayOneShot m) \<longleftrightarrow> t = MSGTYPE_RELAY_SET_ONE_SHOT \<and> relay_one_shot_type m = t"
| "rx_matches t (RxSunnyTime m) \<longleftrightarrow> t = MSGTYPE_ENVIRONMENT_SET_SUNNY_TIME \<and> environment_sunny_time_type m = t"
| "rx_matches t (RxCloudCover m) \<longleftrightarrow> t = MSGTYPE_ENVIRONMENT_CLOUD_COVER \<and> environment_cloud_cover_type m = t"
| "rx_matches t (RxPosition m) \<longleftrightarrow> t = MSGTYPE_ENVIRONMENT_SET_POSITION \<and> environment_position_type m = t"
| "rx_matches t (RxMeterCurrentLimit m) \<longleftrightarrow> t = MSGTYPE_METER_SET_CURRENT_LIMIT \<and> meter_current_limit_type m = t"
| "rx_matches t (RxMeterAlarms m) \<longleftrightarrow> t = MSGTYPE_METER_CLEAR_ALARMS \<and> meter_alarms_type m = t"
| "rx_matches t (RxStatus m) \<longleftrightarrow> t = MSGTYPE_STATUS \<and> status_type m = t"
| "rx_matches t (RxGet m) \<longleftrightarrow> t = MSGTYPE_GET \<and> get_type m = t"

definition rx_good :: "u16 \<Rightarrow> rx_result \<Rightarrow> bool" where
  "rx_good t r \<longleftrightarrow> (\<exists>ret m. r = Inr (ret, m) \<and> (ret = ESP_OK \<longleftrightarrow> m \<noteq> None) \<and>
     (\<forall>x. m = Some x \<longrightarrow> rx_matches t x))"

lemma rx_case_good:
  assumes "parsed = Inr msg" "sz \<le> 216" "mtype msg = MSGTYPE_INVALID \<or> rx_matches t (con msg)"
  shows "rx_good t (rx_case parsed mtype sz con)"
  using assms by (auto simp: rx_case_def rx_good_def BIGGEST_RECV_MESSAGE_SIZE_def)

subsection \<open>When receiving is safe\<close>

text \<open>The messages for which no parser fails an assertion or reads past the end.\<close>

definition update_start_ok :: "bytes \<Rightarrow> bool" where
  "update_start_ok data \<longleftrightarrow>
     (let l = unat (wire_type (drop 18 data)) in \<not> (length data = 20 + l \<and> 128 \<le> l))"

definition button_config_ok :: "bytes \<Rightarrow> bool" where
  "button_config_ok data \<longleftrightarrow>
     (let l = unat (wire_type (drop 2 data)) in \<not> (length data = 4 + l \<and> l < 6))"

definition rx_safe :: "bytes \<Rightarrow> bool" where
  "rx_safe data \<longleftrightarrow>
     (let n = length data; t = wire_type data; at = (\<lambda>i. unat (wire_type (drop i data))) in
      n \<le> 216 \<and>
      (2 \<le> n \<longrightarrow>
        (t = MSGTYPE_UPDATE_START \<longrightarrow> update_start_ok data) \<and>
        (t = MSGTYPE_WIRELESS_ENABLE \<longrightarrow> n \<noteq> 2) \<and>
        (t = MSGTYPE_WIRELESS_SET_CREDENTIALS \<longrightarrow> n < 7) \<and>
        (t = MSGTYPE_WIRELESS_SET_TX_POWER \<longrightarrow> n \<noteq> 4) \<and>
        (t = MSGTYPE_RELAY_SET_BUTTON_CONFIG \<longrightarrow> button_config_ok data) \<and>
        (t = MSGTYPE_RELAY_SET_SCHEDULE \<longrightarrow> n < 88 \<or> at 2 = 84) \<and>
        (t = MSGTYPE_ENVIRONMENT_CLOUD_COVER \<longrightarrow> n < 14 \<or> (at 12 = 96 \<and> 206 \<le> n)) \<and>
        (t = MSGTYPE_ENVIRONMENT_SET_POSITION \<longrightarrow> n < 10 \<or> 18 \<le> n)))"

text \<open>\<open>rx_verdict data r\<close>: the case for the message \<open>data\<close> keeps the contract exactly when it is safe.\<close>

definition rx_verdict :: "bytes \<Rightarrow> rx_result \<Rightarrow> bool" where
  "rx_verdict data r \<longleftrightarrow> (if rx_safe data then rx_good (wire_type data) r else \<exists>e. r = Inl e)"

definition rx_special :: "u16 set" where
  "rx_special = {MSGTYPE_UPDATE_START, MSGTYPE_WIRELESS_ENABLE, MSGTYPE_WIRELESS_SET_CREDENTIALS,
     MSGTYPE_WIRELESS_SET_TX_POWER, MSGTYPE_RELAY_SET_BUTTON_CONFIG, MSGTYPE_RELAY_SET_SCHEDULE,
     MSGTYPE_ENVIRONMENT_CLOUD_COVER, MSGTYPE_ENVIRONMENT_SET_POSITION}"

lemma rx_verdict_plain:
  assumes "length data \<le> 216" "wire_type data = t" "t \<notin> rx_special" "rx_good t r"
  shows "rx_verdict data r"
proof -
  have "rx_safe data" using assms(1-3) by (simp add: rx_safe_def rx_special_def Let_def)
  then show ?thesis using assms(2,4) by (simp add: rx_verdict_def)
qed

text \<open>The client of the parser interface: a case whose parser keeps the contract.\<close>

context message_parser
begin

lemma rx_case_ok:
  assumes "n \<le> length data" "wire_type data = t" "sz \<le> 216" "\<And>m. mtype m = t \<Longrightarrow> rx_matches t (con m)"
  shows "rx_good t (rx_case (parse data n) mtype sz con)"
proof (cases "accepts n")
  case True
  then obtain m where "parse data n = Inr m" "mtype m = t"
    using accept_law [OF _ assms(1)] assms(2) by blast
  with assms show ?thesis by (intro rx_case_good) auto
next
  case False
  then obtain m where "parse data n = Inr m" "mtype m = MSGTYPE_INVALID"
    using reject_law by blast
  with assms show ?thesis by (intro rx_case_good) auto
qed

lemma rx_case_verdict:
  assumes "length data = n" "n \<le> 216" "wire_type data = t" "t \<notin> rx_special" "sz \<le> 216"
    "\<And>m. mtype m = t \<Longrightarrow> rx_matches t (con m)"
  shows "rx_verdict data (rx_case (parse data n) mtype sz con)"
  using assms by (intro rx_verdict_plain rx_case_ok) simp_all

end

text \<open>A case with a faulty parser: it keeps the contract when \<open>P\<close> holds and faults otherwise.\<close>

lemma rx_case_split:
  assumes "P \<Longrightarrow> \<exists>m. parsed = Inr m \<and> (mtype m = MSGTYPE_INVALID \<or> rx_matches t (con m))"
    "\<not> P \<Longrightarrow> \<exists>e. parsed = Inl e" "sz \<le> 216"
  shows "if P then rx_good t (rx_case parsed mtype sz con) else \<exists>e. rx_case parsed mtype sz con = Inl e"
proof (cases P)
  case True
  then obtain m where m: "parsed = Inr m" "mtype m = MSGTYPE_INVALID \<or> rx_matches t (con m)"
    using assms(1) by blast
  show ?thesis using True rx_case_good [where con = con and mtype = mtype, OF m(1) assms(3) m(2)] by simp
next
  case False
  then show ?thesis using assms(2) by (auto simp: rx_case_def)
qed

lemma update_start_case:
  assumes "length data = n" "wire_type data = MSGTYPE_UPDATE_START"
  defines "l \<equiv> unat (wire_type (drop 18 data))"
  defines "r \<equiv> rx_case (parse_update_start_msg data n) update_start_type update_start_msg_sizeof RxUpdateStart"
  shows "if update_start_ok data then rx_good MSGTYPE_UPDATE_START r else \<exists>e. r = Inl e"
  unfolding r_def
proof (rule rx_case_split)
  have def: "update_start_ok data \<longleftrightarrow> \<not> (n = 20 + l \<and> 128 \<le> l)"
    by (simp only: update_start_ok_def Let_def l_def assms(1))
  note eq = parse_update_start_msg_eq [OF assms(1), folded l_def]
  show "\<exists>m. parse_update_start_msg data n = Inr m \<and>
      (update_start_type m = MSGTYPE_INVALID \<or> rx_matches MSGTYPE_UPDATE_START (RxUpdateStart m))"
    if "update_start_ok data"
  proof -
    consider "n < 20" | "20 \<le> n" "n \<noteq> 20 + l" | "n = 20 + l" "l < 128" using def \<open>update_start_ok data\<close> by linarith
    then show ?thesis
    proof cases
      case 1
      from eq(1) [OF this] show ?thesis by (simp add: update_start_msg_zero_def)
    next
      case 2
      from eq(2) [OF this] show ?thesis by blast
    next
      case 3
      from eq(4) [OF this] show ?thesis using assms(2) by auto
    qed
  qed
  show "\<exists>e. parse_update_start_msg data n = Inl e" if "\<not> update_start_ok data"
    using eq(3) that def by blast
qed simp

lemma button_config_case:
  assumes "length data = n" "wire_type data = MSGTYPE_RELAY_SET_BUTTON_CONFIG"
  defines "l \<equiv> unat (wire_type (drop 2 data))"
  defines "r \<equiv> rx_case (parse_relay_button_config_msg data n) relay_button_config_type
    relay_button_config_msg_sizeof RxRelayButtonConfig"
  shows "if button_config_ok data then rx_good MSGTYPE_RELAY_SET_BUTTON_CONFIG r else \<exists>e. r = Inl e"
  unfolding r_def
proof (rule rx_case_split)
  have def: "button_config_ok data \<longleftrightarrow> \<not> (n = 4 + l \<and> l < 6)"
    by (simp only: button_config_ok_def Let_def l_def assms(1))
  note eq = parse_relay_button_config_msg_eq [OF assms(1), folded l_def]
  show "\<exists>m. parse_relay_button_config_msg data n = Inr m \<and>
      (relay_button_config_type m = MSGTYPE_INVALID \<or>
       rx_matches MSGTYPE_RELAY_SET_BUTTON_CONFIG (RxRelayButtonConfig m))"
    if "button_config_ok data"
  proof -
    consider "n < 4" | "4 \<le> n" "n \<noteq> 4 + l" | "n = 4 + l" "6 \<le> l" using def \<open>button_config_ok data\<close> by linarith
    then show ?thesis
    proof cases
      case 1
      from eq(1) [OF this] show ?thesis by (simp add: relay_button_config_msg_zero_def)
    next
      case 2
      from eq(2) [OF this] show ?thesis by blast
    next
      case 3
      from eq(4) [OF this] show ?thesis using assms(2) by auto
    qed
  qed
  show "\<exists>e. parse_relay_button_config_msg data n = Inl e" if "\<not> button_config_ok data"
    using eq(3) that def by blast
qed simp

lemma schedule_case:
  assumes "length data = n" "wire_type data = MSGTYPE_RELAY_SET_SCHEDULE"
  shows "if n < 88 \<or> wire_type (drop 2 data) = 84
    then rx_good MSGTYPE_RELAY_SET_SCHEDULE (rx_case (parse_relay_schedule_msg data n) relay_schedule_type
      relay_schedule_msg_sizeof RxRelaySchedule)
    else \<exists>e. rx_case (parse_relay_schedule_msg data n) relay_schedule_type
      relay_schedule_msg_sizeof RxRelaySchedule = Inl e"
  using parse_relay_schedule_msg_eq [OF assms(1)] assms(2)
  by (intro rx_case_split) (cases "n < 88", auto simp: relay_schedule_msg_zero_def not_less)

lemma cloud_cover_case:
  assumes "length data = n" "wire_type data = MSGTYPE_ENVIRONMENT_CLOUD_COVER"
  shows "if n < 14 \<or> (wire_type (drop 12 data) = 96 \<and> 206 \<le> n)
    then rx_good MSGTYPE_ENVIRONMENT_CLOUD_COVER (rx_case (parse_environment_cloud_cover_msg data n)
      environment_cloud_cover_type environment_cloud_cover_msg_sizeof RxCloudCover)
    else \<exists>e. rx_case (parse_environment_cloud_cover_msg data n)
      environment_cloud_cover_type environment_cloud_cover_msg_sizeof RxCloudCover = Inl e"
  using parse_environment_cloud_cover_msg_eq [OF assms(1)] assms(2)
  by (intro rx_case_split)
    (cases "n < 14", auto simp: environment_cloud_cover_msg_zero_def not_less not_le)

lemma position_case:
  assumes "length data = n" "wire_type data = MSGTYPE_ENVIRONMENT_SET_POSITION"
  shows "if n < 10 \<or> 18 \<le> n
    then rx_good MSGTYPE_ENVIRONMENT_SET_POSITION (rx_case (parse_environment_position_msg data n)
      environment_position_type environment_position_msg_sizeof RxPosition)
    else \<exists>e. rx_case (parse_environment_position_msg data n)
      environment_position_type environment_position_msg_sizeof RxPosition = Inl e"
  using parse_environment_position_msg_eq [OF assms(1)] assms(2)
  by (intro rx_case_split)
    (cases "n < 10", auto simp: environment_position_msg_zero_def not_less not_le)

lemma wireless_cases:
  assumes "length data = n"
  shows "if n \<noteq> 2
    then rx_good t (rx_case (parse_wireless_enable_msg data n) wireless_enable_type
      wireless_enable_msg_sizeof RxWirelessEnable)
    else \<exists>e. rx_case (parse_wireless_enable_msg data n) wireless_enable_type
      wireless_enable_msg_sizeof RxWirelessEnable = Inl e"
    and "if n < 7
    then rx_good t (rx_case (parse_wireless_credentials_msg data n) wireless_credentials_type
      wireless_credentials_msg_sizeof RxWirelessCredentials)
    else \<exists>e. rx_case (parse_wireless_credentials_msg data n) wireless_credentials_type
      wireless_credentials_msg_sizeof RxWirelessCredentials = Inl e"
    and "if n \<noteq> 4
    then rx_good t (rx_case (parse_wireless_tx_power_msg data n) wireless_tx_power_type
      wireless_tx_power_msg_sizeof RxWirelessTxPower)
    else \<exists>e. rx_case (parse_wireless_tx_power_msg data n) wireless_tx_power_type
      wireless_tx_power_msg_sizeof RxWirelessTxPower = Inl e"
  using parse_wireless_enable_msg_eq [OF assms] parse_wireless_credentials_msg_eq [OF assms]
    parse_wireless_tx_power_msg_eq [OF assms]
  by - (rule rx_case_split; auto simp: wireless_enable_msg_zero_def wireless_credentials_msg_zero_def
      wireless_tx_power_msg_zero_def)+

text \<open>\<open>rx_verdict\<close> of each faulty case, and of the cases that copy only the type.\<close>

lemma rx_verdict_split:
  assumes "wire_type data = t" "rx_safe data \<longleftrightarrow> P" "if P then rx_good t r else \<exists>e. r = Inl e"
  shows "rx_verdict data r"
  using assms by (simp add: rx_verdict_def)

lemma rx_type_case_verdict:
  assumes "length data = n" "n \<le> 216"
    "wire_type data \<in> {MSGTYPE_REBOOT, MSGTYPE_FACTORY_RESET, MSGTYPE_DIAG_COREDUMP_CONFIRMED}"
  shows "rx_verdict data (rx_type_case (wire_type data))"
  using assms
  by (intro rx_verdict_plain) (auto simp: rx_type_case_def rx_good_def rx_special_def)

lemma unat_eq_84:
  "unat (w :: u16) = 84 \<longleftrightarrow> w = 84" "unat (w :: u16) = 96 \<longleftrightarrow> w = 96"
  by (simp_all add: word_unat_eq_iff)

lemma special_verdicts:
  assumes "length data = n" "n \<le> 216" "2 \<le> n"
  shows
    "wire_type data = MSGTYPE_UPDATE_START \<Longrightarrow>
      rx_verdict data (rx_case (parse_update_start_msg data n) update_start_type update_start_msg_sizeof RxUpdateStart)"
    "wire_type data = MSGTYPE_WIRELESS_ENABLE \<Longrightarrow>
      rx_verdict data (rx_case (parse_wireless_enable_msg data n) wireless_enable_type wireless_enable_msg_sizeof RxWirelessEnable)"
    "wire_type data = MSGTYPE_WIRELESS_SET_CREDENTIALS \<Longrightarrow>
      rx_verdict data (rx_case (parse_wireless_credentials_msg data n) wireless_credentials_type wireless_credentials_msg_sizeof RxWirelessCredentials)"
    "wire_type data = MSGTYPE_WIRELESS_SET_TX_POWER \<Longrightarrow>
      rx_verdict data (rx_case (parse_wireless_tx_power_msg data n) wireless_tx_power_type wireless_tx_power_msg_sizeof RxWirelessTxPower)"
    "wire_type data = MSGTYPE_RELAY_SET_BUTTON_CONFIG \<Longrightarrow>
      rx_verdict data (rx_case (parse_relay_button_config_msg data n) relay_button_config_type relay_button_config_msg_sizeof RxRelayButtonConfig)"
    "wire_type data = MSGTYPE_RELAY_SET_SCHEDULE \<Longrightarrow>
      rx_verdict data (rx_case (parse_relay_schedule_msg data n) relay_schedule_type relay_schedule_msg_sizeof RxRelaySchedule)"
    "wire_type data = MSGTYPE_ENVIRONMENT_CLOUD_COVER \<Longrightarrow>
      rx_verdict data (rx_case (parse_environment_cloud_cover_msg data n) environment_cloud_cover_type environment_cloud_cover_msg_sizeof RxCloudCover)"
    "wire_type data = MSGTYPE_ENVIRONMENT_SET_POSITION \<Longrightarrow>
      rx_verdict data (rx_case (parse_environment_position_msg data n) environment_position_type environment_position_msg_sizeof RxPosition)"
proof -
  show "rx_verdict data (rx_case (parse_update_start_msg data n) update_start_type update_start_msg_sizeof RxUpdateStart)"
    if "wire_type data = MSGTYPE_UPDATE_START"
    by (rule rx_verdict_split [OF that _ update_start_case [OF assms(1) that]])
      (use assms that in \<open>simp_all add: rx_safe_def Let_def\<close>)
  show "rx_verdict data (rx_case (parse_wireless_enable_msg data n) wireless_enable_type wireless_enable_msg_sizeof RxWirelessEnable)"
    if "wire_type data = MSGTYPE_WIRELESS_ENABLE"
    by (rule rx_verdict_split [OF that _ wireless_cases(1) [OF assms(1)]])
      (use assms that in \<open>simp_all add: rx_safe_def Let_def\<close>)
  show "rx_verdict data (rx_case (parse_wireless_credentials_msg data n) wireless_credentials_type wireless_credentials_msg_sizeof RxWirelessCredentials)"
    if "wire_type data = MSGTYPE_WIRELESS_SET_CREDENTIALS"
    by (rule rx_verdict_split [OF that _ wireless_cases(2) [OF assms(1)]])
      (use assms that in \<open>simp_all add: rx_safe_def Let_def\<close>)
  show "rx_verdict data (rx_case (parse_wireless_tx_power_msg data n) wireless_tx_power_type wireless_tx_power_msg_sizeof RxWirelessTxPower)"
    if "wire_type data = MSGTYPE_WIRELESS_SET_TX_POWER"
    by (rule rx_verdict_split [OF that _ wireless_cases(3) [OF assms(1)]])
      (use assms that in \<open>simp_all add: rx_safe_def Let_def\<close>)
  show "rx_verdict data (rx_case (parse_relay_button_config_msg data n) relay_button_config_type relay_button_config_msg_sizeof RxRelayButtonConfig)"
    if "wire_type data = MSGTYPE_RELAY_SET_BUTTON_CONFIG"
    by (rule rx_verdict_split [OF that _ button_config_case [OF assms(1) that]])
      (use assms that in \<open>simp_all add: rx_safe_def Let_def\<close>)
  show "rx_verdict data (rx_case (parse_relay_schedule_msg data n) relay_schedule_type relay_schedule_msg_sizeof RxRelaySchedule)"
    if "wire_type data = MSGTYPE_RELAY_SET_SCHEDULE"
    by (rule rx_verdict_split [OF that _ schedule_case [OF assms(1) that]])
      (use assms that in \<open>simp_all add: rx_safe_def Let_def unat_eq_84\<close>)
  show "rx_verdict data (rx_case (parse_environment_cloud_cover_msg data n) environment_cloud_cover_type environment_cloud_cover_msg_sizeof RxCloudCover)"
    if "wire_type data = MSGTYPE_ENVIRONMENT_CLOUD_COVER"
    by (rule rx_verdict_split [OF that _ cloud_cover_case [OF assms(1) that]])
      (use assms that in \<open>simp_all add: rx_safe_def Let_def unat_eq_84\<close>)
  show "rx_verdict data (rx_case (parse_environment_position_msg data n) environment_position_type environment_position_msg_sizeof RxPosition)"
    if "wire_type data = MSGTYPE_ENVIRONMENT_SET_POSITION"
    by (rule rx_verdict_split [OF that _ position_case [OF assms(1) that]])
      (use assms that in \<open>simp_all add: rx_safe_def Let_def\<close>)
qed

lemma case_step:
  "(if c then Some a else k) = Some r \<Longrightarrow> (c \<Longrightarrow> rx_verdict data a) \<Longrightarrow>
   (k = Some r \<Longrightarrow> rx_verdict data r) \<Longrightarrow> rx_verdict data r"
  by (simp split: if_splits)

lemma receive_system_verdict:
  assumes "length data = n" "n \<le> 216" "2 \<le> n" "receive_system (wire_type data) data n = Some r"
  shows "rx_verdict data r"
  using assms(4) unfolding receive_system_def
  by - (elim case_step;
      ((rule connection_status_parser.rx_case_verdict [OF assms(1,2)]
         identify_parser.rx_case_verdict [OF assms(1,2)],
         assumption, simp_all add: rx_special_def)
       | (rule rx_type_case_verdict [OF assms(1,2)], simp; fail)
       | (simp; fail)))

lemma receive_update_verdict:
  assumes "length data = n" "n \<le> 216" "2 \<le> n" "receive_update (wire_type data) data n = Some r"
  shows "rx_verdict data r"
  using assms(4) unfolding receive_update_def
  by - (elim case_step;
      ((rule update_install_parser.rx_case_verdict [OF assms(1,2)],
         assumption, simp_all add: rx_special_def)
       | (erule special_verdicts [OF assms(1-3)])
       | (simp; fail)))

lemma receive_wireless_verdict:
  assumes "length data = n" "n \<le> 216" "2 \<le> n" "receive_wireless (wire_type data) data n = Some r"
  shows "rx_verdict data r"
  using assms(4) unfolding receive_wireless_def
  by - (elim case_step;
      ((rule wireless_channel_parser.rx_case_verdict [OF assms(1,2)],
         assumption, simp_all add: rx_special_def)
       | (erule special_verdicts [OF assms(1-3)])
       | (simp; fail)))

lemma receive_energy_verdict:
  assumes "length data = n" "n \<le> 216" "2 \<le> n" "receive_energy (wire_type data) data n = Some r"
  shows "rx_verdict data r"
  using assms(4) unfolding receive_energy_def
  by - (elim case_step;
      ((rule energy_price_day_parser.rx_case_verdict [OF assms(1,2)]
         energy_price_threshold_parser.rx_case_verdict [OF assms(1,2)]
         energy_price_cheap_period_parser.rx_case_verdict [OF assms(1,2)]
         energy_price_tariff_parser.rx_case_verdict [OF assms(1,2)],
         assumption, simp_all add: rx_special_def)
       | (simp; fail)))

lemma receive_relay_verdict:
  assumes "length data = n" "n \<le> 216" "2 \<le> n" "receive_relay (wire_type data) data n = Some r"
  shows "rx_verdict data r"
  using assms(4) unfolding receive_relay_def
  by - (elim case_step;
      ((rule relay_mode_parser.rx_case_verdict [OF assms(1,2)]
         relay_state_parser.rx_case_verdict [OF assms(1,2)]
         relay_default_state_parser.rx_case_verdict [OF assms(1,2)]
         relay_pwm_parser.rx_case_verdict [OF assms(1,2)]
         relay_set_inverted_output_parser.rx_case_verdict [OF assms(1,2)]
         relay_one_shot_parser.rx_case_verdict [OF assms(1,2)],
         assumption, simp_all add: rx_special_def)
       | (erule special_verdicts [OF assms(1-3)])
       | (simp; fail)))

lemma receive_environment_verdict:
  assumes "length data = n" "n \<le> 216" "2 \<le> n" "receive_environment (wire_type data) data n = Some r"
  shows "rx_verdict data r"
  using assms(4) unfolding receive_environment_def
  by - (elim case_step;
      ((rule environment_sunny_time_parser.rx_case_verdict [OF assms(1,2)],
         assumption, simp_all add: rx_special_def)
       | (erule special_verdicts [OF assms(1-3)])
       | (simp; fail)))

lemma receive_meter_verdict:
  assumes "length data = n" "n \<le> 216" "2 \<le> n" "receive_meter (wire_type data) data n = Some r"
  shows "rx_verdict data r"
  using assms(4) unfolding receive_meter_def
  by - (elim case_step;
      ((rule meter_current_limit_parser.rx_case_verdict [OF assms(1,2)]
         meter_clear_alarms_parser.rx_case_verdict [OF assms(1,2)]
         status_parser.rx_case_verdict [OF assms(1,2)] get_parser.rx_case_verdict [OF assms(1,2)],
         assumption, simp_all add: rx_special_def)
       | (rule rx_type_case_verdict [OF assms(1,2)], simp; fail)
       | (simp; fail)))

lemma first_case_Cons: "first_case (x # xs) = (case x of None \<Rightarrow> first_case xs | Some r \<Rightarrow> r)"
  by (cases x) simp_all

lemma unknown_type_plain:
  "receive_update t data n = None \<Longrightarrow> receive_wireless t data n = None \<Longrightarrow>
   receive_relay t data n = None \<Longrightarrow> receive_environment t data n = None \<Longrightarrow> t \<notin> rx_special"
  by (auto simp: receive_update_def receive_wireless_def receive_relay_def receive_environment_def
      rx_special_def)

lemma first_case_verdict:
  assumes "length data = n" "n \<le> 216" "2 \<le> n"
  shows "rx_verdict data (first_case
     [receive_system (wire_type data) data n,
      receive_update (wire_type data) data n,
      receive_wireless (wire_type data) data n,
      receive_energy (wire_type data) data n,
      receive_relay (wire_type data) data n,
      receive_environment (wire_type data) data n,
      receive_meter (wire_type data) data n])"
proof -
  have unknown: "rx_verdict data (Inr (ESP_ERR_NOT_SUPPORTED, None))" if "wire_type data \<notin> rx_special"
    using assms that by (intro rx_verdict_plain) (auto simp: rx_good_def)
  show ?thesis
    using assms unknown unknown_type_plain [of "wire_type data" data n]
    by (auto simp: first_case_Cons split: option.split
        intro: receive_system_verdict receive_update_verdict receive_wireless_verdict receive_energy_verdict receive_relay_verdict receive_environment_verdict receive_meter_verdict)
qed

lemma parse_message_eq:
  assumes "length data = n" "2 \<le> n"
  shows "parse_message data n = c_assert (n \<le> 216)
     (if wire_type data = MSGTYPE_INVALID then Inr (ESP_ERR_INVALID_SIZE, wire_type data, None)
      else obind (first_case
     [receive_system (wire_type data) data n,
      receive_update (wire_type data) data n,
      receive_wireless (wire_type data) data n,
      receive_energy (wire_type data) data n,
      receive_relay (wire_type data) data n,
      receive_environment (wire_type data) data n,
      receive_meter (wire_type data) data n]) (\<lambda>(ret, m). Inr (ret, wire_type data, m)))"
  using assms
  by (simp add: parse_message_def BIGGEST_RECV_MESSAGE_SIZE_def parse_msg_type_eq)

lemma parse_message_short:
  "n < 2 \<Longrightarrow> parse_message data n = Inr (ESP_ERR_INVALID_SIZE, MSGTYPE_INVALID, None)"
  by (simp add: parse_message_def BIGGEST_RECV_MESSAGE_SIZE_def parse_msg_type_def)

lemma parse_message_good:
  assumes "length data = n" "rx_safe data"
  shows "\<exists>ret m. parse_message data n = Inr (ret, if n < 2 then MSGTYPE_INVALID else wire_type data, m) \<and>
    (ret = ESP_OK \<longleftrightarrow> m \<noteq> None) \<and> (\<forall>x. m = Some x \<longrightarrow> rx_matches (wire_type data) x)"
proof (cases "n < 2")
  case True
  then show ?thesis by (simp add: parse_message_short)
next
  case False
  then have n: "2 \<le> n" "n \<le> 216" using assms by (auto simp: rx_safe_def Let_def)
  from first_case_verdict [OF assms(1) n(2,1)] assms(2) show ?thesis
    using n by (auto simp: parse_message_eq [OF assms(1) n(1)] rx_verdict_def rx_good_def)
qed

lemma invalid_type_safe: "wire_type data = MSGTYPE_INVALID \<Longrightarrow> length data \<le> 216 \<Longrightarrow> rx_safe data"
  by (simp add: rx_safe_def Let_def)

lemma parse_message_faults:
  assumes "length data = n" "\<not> rx_safe data"
  shows "\<exists>e. parse_message data n = Inl e"
proof (cases "n \<le> 216")
  case True
  have n: "2 \<le> n" using assms True by (auto simp: rx_safe_def Let_def)
  have "wire_type data \<noteq> MSGTYPE_INVALID" using assms True invalid_type_safe by blast
  with first_case_verdict [OF assms(1) True n] assms(2) True show ?thesis
    by (auto simp: parse_message_eq [OF assms(1) n] rx_verdict_def)
next
  case False
  then show ?thesis by (auto simp: parse_message_def BIGGEST_RECV_MESSAGE_SIZE_def c_assert_def)
qed

lemma receive_parse_safe:
  "parse_message data (length data) = Inr r \<Longrightarrow> rx_safe data"
  using parse_message_faults [OF refl, of data] by auto

text \<open>C7. Receiving a message faults (fails an assertion, or reads past the end of the message) exactly
  for the messages that \<open>rx_safe\<close> excludes: more than 216 bytes, an update whose URL has 128
  characters or more, a wireless enable message of two bytes, credentials of seven bytes or more, a transmission
  power of four bytes, a button configuration with fewer than six modes, a schedule or cloud cover with
  another length field than the array, a cloud cover cut short, and a position of 10 to 17 bytes.
  Every other message is handled without a fault.\<close>

theorem receive_fault_iff:
  assumes "length data = n"
  shows "(\<exists>e. parse_message data n = Inl e) \<longleftrightarrow> \<not> rx_safe data"
  using parse_message_good [OF assms] parse_message_faults [OF assms] by (cases "rx_safe data") auto

theorem receive_fault_iff_witness:
  "(\<exists>e. parse_message (wire_u16 MSGTYPE_WIRELESS_SET_TX_POWER @ [2, 20]) 4 = Inl e) \<longleftrightarrow>
     \<not> rx_safe (wire_u16 MSGTYPE_WIRELESS_SET_TX_POWER @ [2, 20])"
  by (rule receive_fault_iff) simp

text \<open>C37. A message that parses without a fault gives the return value \<open>ESP_OK\<close> exactly when a
  structure was copied to the message buffer, and then the structure is the one of the message type and
  holds that type: the application handler, which casts the buffer by the type, reads the right
  structure. No message that enables the wireless interface, sets its credentials or its power is ever handed out.\<close>

theorem receive_matches_type:
  assumes "parse_message data (length data) = Inr (ret, ty, m)"
  shows "(ret = ESP_OK \<longleftrightarrow> m \<noteq> None) \<and>
    (case m of None \<Rightarrow> True | Some x \<Rightarrow> ty = wire_type data \<and> rx_matches ty x)"
proof -
  have "rx_safe data" using receive_parse_safe assms by blast
  from parse_message_good [OF refl this] assms show ?thesis
    by (auto split: if_splits option.splits simp: parse_message_short)
qed

theorem receive_matches_type_witness:
  "(ESP_OK = ESP_OK \<longleftrightarrow> Some (RxRelayMode \<lparr>relay_mode_type = MSGTYPE_RELAY_SET_MODE, relay_mode_mode = 3\<rparr>) \<noteq> None) \<and>
    (case Some (RxRelayMode \<lparr>relay_mode_type = MSGTYPE_RELAY_SET_MODE, relay_mode_mode = 3\<rparr>) of
       None \<Rightarrow> True
     | Some x \<Rightarrow> MSGTYPE_RELAY_SET_MODE = wire_type [0x50, 0, 3] \<and> rx_matches MSGTYPE_RELAY_SET_MODE x)"
  by (rule receive_matches_type)
    (simp add: parse_message_eq first_case_Cons rx_case_def receive_system_def receive_update_def receive_wireless_def receive_energy_def receive_relay_def receive_environment_def receive_meter_def
      parse_relay_mode_msg_def rd_eval wire_type_def BIGGEST_RECV_MESSAGE_SIZE_def)

subsection \<open>The reply\<close>

text \<open>C38. The dispatcher gives every message that parses to the application handler once, and answers
  with a status that carries the type of the message and the low byte of the handler's result, except
  for a get request that the handler accepted; a message that does not parse gets no answer.\<close>

theorem dispatcher_replies:
  assumes "net_ok net" "rx_safe data"
  shows "\<exists>pr ty m. parse_message data (length data) = Inr (pr, ty, m) \<and>
    (if pr \<noteq> ESP_OK then protocol_receiver_dispatcher net (Some f) data (length data) = Inr (pr, [])
     else \<exists>x. m = Some x \<and>
      (if ty = MSGTYPE_GET \<and> f ty x = ESP_OK
       then protocol_receiver_dispatcher net (Some f) data (length data) = Inr (ESP_OK, [RxDispatched ty x])
       else \<exists>r evs. protocol_receiver_dispatcher net (Some f) data (length data) =
              Inr (ESP_OK, [RxDispatched ty x, RxReplied evs]) \<and>
            sends net (Inr (r, evs)) (wire_u16 MSGTYPE_STATUS @ [word_of_int (f ty x)] @ wire_u16 ty)))"
proof -
  obtain pr ty m where p: "parse_message data (length data) = Inr (pr, ty, m)" "pr = ESP_OK \<longleftrightarrow> m \<noteq> None"
    using parse_message_good [OF refl assms(2)] by blast
  have len: "length data \<le> BIGGEST_RECV_MESSAGE_SIZE"
    using assms(2) by (simp add: rx_safe_def Let_def BIGGEST_RECV_MESSAGE_SIZE_def)
  show ?thesis
  proof (cases "pr = ESP_OK")
    case False
    then show ?thesis using p len by (simp add: protocol_receiver_dispatcher_def)
  next
    case True
    then obtain x where x: "m = Some x" using p(2) by auto
    have s: "sends net (protocol_send_status net ty (word_of_int (f ty x)))
        (wire_u16 MSGTYPE_STATUS @ [word_of_int (f ty x)] @ wire_u16 ty)"
      by (rule send_status_payload [OF assms(1)])
    then obtain b where b: "protocol_send_status net ty (word_of_int (f ty x)) = Inr (send_data net b)"
      by (auto simp: sends_def)
    obtain r evs where "send_data net b = (r, evs)" by (cases "send_data net b")
    with b s p x True len show ?thesis by (auto simp: protocol_receiver_dispatcher_def Let_def)
  qed
qed

theorem dispatcher_replies_witness:
  "\<exists>pr ty m. parse_message [0x50, 0, 3] (length [0x50, 0, 3 :: u8]) = Inr (pr, ty, m) \<and>
    (if pr \<noteq> ESP_OK then protocol_receiver_dispatcher net0 (Some (\<lambda>ty x. 0x103)) [0x50, 0, 3] (length [0x50, 0, 3 :: u8]) = Inr (pr, [])
     else \<exists>x. m = Some x \<and>
      (if ty = MSGTYPE_GET \<and> (0x103 :: int) = ESP_OK
       then protocol_receiver_dispatcher net0 (Some (\<lambda>ty x. 0x103)) [0x50, 0, 3] (length [0x50, 0, 3 :: u8]) = Inr (ESP_OK, [RxDispatched ty x])
       else \<exists>r evs. protocol_receiver_dispatcher net0 (Some (\<lambda>ty x. 0x103)) [0x50, 0, 3] (length [0x50, 0, 3 :: u8]) =
              Inr (ESP_OK, [RxDispatched ty x, RxReplied evs]) \<and>
            sends net0 (Inr (r, evs)) (wire_u16 MSGTYPE_STATUS @ [word_of_int 0x103] @ wire_u16 ty)))"
  by (rule dispatcher_replies [OF net_ok_net0]) (simp add: rx_safe_def wire_type_def Let_def)

end
