(* ===== verification/EM_Scheduler.thy ===== *)
theory EM_Scheduler
  imports EM_Prelude
begin

section \<open>The callback scheduler (em_scheduler/scheduler.c)\<close>

text \<open>
  A table of 12 entries, each with a one-shot timer of the operating system. A function pointer is a
  number, with 0 for \<open>NULL\<close>. \<open>e_timer\<close> is the state of the entry's timer: \<open>Some t\<close> when it
  runs with a period of \<open>t\<close> ticks of 10 ms, which the timer asserts is not 0. \<open>tm\<close> is the result of the timer commands of FreeRTOS during one operation
  (they are all asserted). A callback that an operation runs is an event \<open>Invoked\<close>; its body is not
  part of this component. The mutex makes every operation one step; \<open>sched_step\<close> adds the expiry of a
  timer, which the timer task notices before its handler takes the mutex.
\<close>

type_synonym fptr = nat

record cb_msg_t =
  m_param :: u32
  m_user_ctx :: nat
  m_cb :: fptr

record scheduler_entry_t =
  e_handle :: bool
  e_scheduled :: bool
  e_msg :: cb_msg_t
  e_timer :: "u32 option"

type_synonym sched = "scheduler_entry_t list"

datatype sched_event = Invoked fptr u32 nat

abbreviation SCHEDULER_MAX_ENTRIES :: nat where "SCHEDULER_MAX_ENTRIES \<equiv> 12"
abbreviation SCH_NO_DELAY :: u32 where "SCH_NO_DELAY \<equiv> 0"

definition cb_msg_zero :: cb_msg_t where
  "cb_msg_zero = \<lparr>m_param = 0, m_user_ctx = 0, m_cb = 0\<rparr>"

definition clear_entry :: "bool \<Rightarrow> sched \<Rightarrow> nat \<Rightarrow> sched outcome" where
  "clear_entry tm s idx =
     c_assert tm (c_assert (e_handle (s ! idx))
       (Inr (s[idx := (s ! idx)\<lparr>e_timer := None, e_scheduled := False, e_msg := cb_msg_zero\<rparr>])))"

fun find_loop :: "sched \<Rightarrow> fptr \<Rightarrow> nat \<Rightarrow> nat option" where
  "find_loop [] cb i = None"
| "find_loop (e # es) cb i =
     (if \<not> e_scheduled e then find_loop es cb (Suc i)
      else if m_cb (e_msg e) \<noteq> cb then find_loop es cb (Suc i)
      else Some i)"

definition find_entry :: "sched \<Rightarrow> fptr \<Rightarrow> nat option" where
  "find_entry s cb = find_loop s cb 0"

definition reschedule_entry :: "bool \<Rightarrow> sched \<Rightarrow> u32 \<Rightarrow> nat \<Rightarrow> u32 \<Rightarrow> nat \<Rightarrow> sched outcome" where
  "reschedule_entry tm s param user_ctx delay_ms idx =
     c_assert (e_handle (s ! idx)) (c_assert (tm \<and> pdMS_TO_TICKS delay_ms \<noteq> 0)
       (Inr (s[idx := (s ! idx)\<lparr>e_msg := (e_msg (s ! idx))\<lparr>m_param := param, m_user_ctx := user_ctx\<rparr>,
                               e_timer := Some (pdMS_TO_TICKS delay_ms)\<rparr>])))"

fun schedule_entry :: "bool \<Rightarrow> sched \<Rightarrow> fptr \<Rightarrow> u32 \<Rightarrow> nat \<Rightarrow> u32 \<Rightarrow> sched outcome" where
  "schedule_entry tm [] cb param user_ctx delay_ms = Inl Abort"
| "schedule_entry tm (e # es) cb param user_ctx delay_ms =
     (if e_scheduled e
      then c_assert (cb \<noteq> m_cb (e_msg e))
        (obind (schedule_entry tm es cb param user_ctx delay_ms) (\<lambda>es'. Inr (e # es')))
      else c_assert (e_handle e) (c_assert (tm \<and> pdMS_TO_TICKS delay_ms \<noteq> 0)
        (Inr (e\<lparr>e_scheduled := True, e_timer := Some (pdMS_TO_TICKS delay_ms),
                e_msg := \<lparr>m_param = param, m_user_ctx = user_ctx, m_cb = cb\<rparr>\<rparr> # es))))"

definition callback_wrapper :: "bool \<Rightarrow> sched \<Rightarrow> nat \<Rightarrow> (sched \<times> sched_event list) outcome" where
  "callback_wrapper tm s idx =
     c_assert (idx < SCHEDULER_MAX_ENTRIES) (c_assert (e_scheduled (s ! idx))
     (c_assert (m_cb (e_msg (s ! idx)) \<noteq> 0)
       (let cb_data = e_msg (s ! idx) in
        obind (clear_entry tm s idx) (\<lambda>s'.
          Inr (s', [Invoked (m_cb cb_data) (m_param cb_data) (m_user_ctx cb_data)])))))"

definition scheduler_cancel_callback :: "bool \<Rightarrow> sched \<Rightarrow> fptr \<Rightarrow> sched outcome" where
  "scheduler_cancel_callback tm s cb =
     (case find_entry s cb of
        None \<Rightarrow> Inr s
      | Some idx \<Rightarrow> c_assert (idx < SCHEDULER_MAX_ENTRIES) (clear_entry tm s idx))"

text \<open>The shortest delay is \<open>1000UL / CONFIG_FREERTOS_HZ\<close>.\<close>

definition scheduler_set_callback ::
  "bool \<Rightarrow> sched \<Rightarrow> fptr \<Rightarrow> u32 \<Rightarrow> nat \<Rightarrow> u32 \<Rightarrow> (sched \<times> sched_event list) outcome" where
  "scheduler_set_callback tm s cb param user_ctx delay_ms =
     c_assert (cb \<noteq> 0)
       (if delay_ms = SCH_NO_DELAY then Inr (s, [Invoked cb param user_ctx])
        else
          (let delay_ms = (if delay_ms < 1000 div 100 then 1000 div 100 else delay_ms) in
           obind (case find_entry s cb of
                    None \<Rightarrow> schedule_entry tm s cb param user_ctx delay_ms
                  | Some idx \<Rightarrow> c_assert (idx < SCHEDULER_MAX_ENTRIES)
                      (reschedule_entry tm s param user_ctx delay_ms idx))
             (\<lambda>s'. Inr (s', []))))"

text \<open>\<open>created i\<close>: whether the \<open>i\<close>th timer was created.\<close>

definition scheduler_init :: "(nat \<Rightarrow> bool) \<Rightarrow> sched outcome" where
  "scheduler_init created =
     c_assert (\<forall>i \<in> set [0..<SCHEDULER_MAX_ENTRIES]. created i)
       (Inr (replicate SCHEDULER_MAX_ENTRIES
          \<lparr>e_handle = True, e_scheduled = False, e_msg = cb_msg_zero, e_timer = None\<rparr>))"

subsection \<open>Invariant and abstraction\<close>

text \<open>The delay after the lower bound, and the ticks of its timer.\<close>

definition sched_delay :: "u32 \<Rightarrow> u32" where
  "sched_delay d = (if d < 10 then 10 else d)"

definition sched_ticks :: "u32 \<Rightarrow> u32" where
  "sched_ticks d = pdMS_TO_TICKS (sched_delay d)"

lemma unat_sched_ticks: "unat d \<le> 42949672 \<Longrightarrow> unat (sched_ticks d) = max 1 (unat d div 10)"
  by (auto simp: sched_ticks_def sched_delay_def unat_ticks_small word_less_nat_alt not_less)

lemma sched_ticks_nonzero: "unat d \<le> 42949672 \<Longrightarrow> sched_ticks d \<noteq> 0"
  using unat_sched_ticks [of d] by (auto simp: unat_eq_0 [symmetric] simp del: unat_eq_0)

text \<open>A longer delay comes out shorter.\<close>

lemma sched_ticks_wrap: "10 * unat (sched_ticks d) < 42949673"
  using unat_ticks_bound [of "sched_delay d"] unat_ticks [of "sched_delay d"] by (simp add: sched_ticks_def)

definition entry_ok :: "scheduler_entry_t \<Rightarrow> bool" where
  "entry_ok e \<longleftrightarrow> e_handle e \<and>
     (if e_scheduled e then m_cb (e_msg e) \<noteq> 0 \<and> pred_option ((\<noteq>) 0) (e_timer e)
      else e_msg e = cb_msg_zero \<and> e_timer e = None)"

definition sched_cbs :: "sched \<Rightarrow> fptr list" where
  "sched_cbs s = map (m_cb \<circ> e_msg) (filter e_scheduled s)"

definition sched_inv :: "sched \<Rightarrow> bool" where
  "sched_inv s \<longleftrightarrow> length s = SCHEDULER_MAX_ENTRIES \<and> list_all entry_ok s \<and> distinct (sched_cbs s)"

type_synonym pending_map = "fptr \<rightharpoonup> u32 \<times> nat \<times> u32 option"

definition entry_binding :: "scheduler_entry_t \<Rightarrow> fptr \<times> u32 \<times> nat \<times> u32 option" where
  "entry_binding e = (m_cb (e_msg e), m_param (e_msg e), m_user_ctx (e_msg e), e_timer e)"

definition pending :: "sched \<Rightarrow> pending_map" where
  "pending s = map_of (map entry_binding (filter e_scheduled s))"

lemma sched_cbs_simps [simp]:
  "sched_cbs [] = []"
  "sched_cbs (e # es) = (if e_scheduled e then m_cb (e_msg e) # sched_cbs es else sched_cbs es)"
  "sched_cbs (s @ s') = sched_cbs s @ sched_cbs s'"
  by (simp_all add: sched_cbs_def)

lemma pending_simps [simp]:
  "pending [] = Map.empty"
  "pending (e # es) =
     (if e_scheduled e
      then (pending es)(m_cb (e_msg e) \<mapsto> (m_param (e_msg e), m_user_ctx (e_msg e), e_timer e))
      else pending es)"
  by (auto simp: pending_def entry_binding_def)

lemma replicate_free [simp]:
  "\<not> e_scheduled e \<Longrightarrow> sched_cbs (replicate n e) = []" "\<not> e_scheduled e \<Longrightarrow> pending (replicate n e) = Map.empty"
  by (induction n) simp_all

lemma pending_None: "pending s cb = None \<longleftrightarrow> cb \<notin> set (sched_cbs s)"
  by (induction s) auto

lemma dom_pending: "dom (pending s) = set (sched_cbs s)"
proof (intro set_eqI)
  fix cb show "cb \<in> dom (pending s) \<longleftrightarrow> cb \<in> set (sched_cbs s)"
    by (simp only: domIff pending_None not_not)
qed

lemma pending_append: "pending (xs @ ys) = pending ys ++ pending xs"
  by (induction xs) (auto simp: fun_eq_iff map_add_def split: option.splits)

lemma find_loop_Some:
  "find_loop s cb i = Some j \<Longrightarrow>
     \<exists>xs e ys. s = xs @ e # ys \<and> j = i + length xs \<and> e_scheduled e \<and> m_cb (e_msg e) = cb"
proof (induction s arbitrary: i)
  case (Cons e es)
  show ?case
  proof (cases "e_scheduled e \<and> m_cb (e_msg e) = cb")
    case True
    then have "j = i" using Cons.prems by simp
    with True show ?thesis by (intro exI [of _ "[]"]) auto
  next
    case False
    then have "find_loop es cb (Suc i) = Some j" using Cons.prems by (auto split: if_splits)
    from Cons.IH [OF this] obtain xs e' ys where "es = xs @ e' # ys" "j = Suc i + length xs"
      "e_scheduled e'" "m_cb (e_msg e') = cb" by blast
    then show ?thesis by (intro exI [of _ "e # xs"]) auto
  qed
qed simp

lemma find_loop_None: "find_loop s cb i = None \<longleftrightarrow> cb \<notin> set (sched_cbs s)"
  by (induction s arbitrary: i) auto

lemma find_entry_None: "find_entry s cb = None \<longleftrightarrow> pending s cb = None"
proof -
  have "pending s cb = None \<longleftrightarrow> cb \<notin> set (sched_cbs s)"
    using dom_pending [of s] by (auto simp: domIff)
  then show ?thesis by (simp add: find_entry_def find_loop_None)
qed

text \<open>The position of a scheduled callback splits the table.\<close>

lemma find_entry_split:
  assumes "sched_inv s" "find_entry s cb = Some idx"
  obtains xs e ys where "s = xs @ e # ys" "idx = length xs" "e_scheduled e" "m_cb (e_msg e) = cb"
    "entry_ok e" "cb \<notin> set (sched_cbs xs)" "cb \<notin> set (sched_cbs ys)" "idx < SCHEDULER_MAX_ENTRIES"
proof -
  obtain xs e ys where s: "s = xs @ e # ys" "idx = length xs" "e_scheduled e" "m_cb (e_msg e) = cb"
    using find_loop_Some [of s cb 0 idx] assms(2) by (auto simp: find_entry_def)
  with assms(1) have "entry_ok e" "cb \<notin> set (sched_cbs xs)" "cb \<notin> set (sched_cbs ys)"
    "idx < SCHEDULER_MAX_ENTRIES"
    by (auto simp: sched_inv_def)
  with s show thesis by (rule that)
qed

lemma pending_split:
  assumes "e_scheduled e" "m_cb (e_msg e) = cb" "cb \<notin> set (sched_cbs xs)" "cb \<notin> set (sched_cbs ys)"
  shows "(pending (xs @ e # ys)) (cb := None) = pending (xs @ ys)"
    "pending (xs @ e # ys) cb = Some (m_param (e_msg e), m_user_ctx (e_msg e), e_timer e)"
proof -
  have x: "pending xs cb = None" "pending ys cb = None"
    using assms(3,4) dom_pending [of xs] dom_pending [of ys] by (auto simp: domIff)
  show "(pending (xs @ e # ys)) (cb := None) = pending (xs @ ys)"
    "pending (xs @ e # ys) cb = Some (m_param (e_msg e), m_user_ctx (e_msg e), e_timer e)"
    using assms(1,2) x by (auto simp: pending_append fun_eq_iff map_add_def split: option.splits)
qed

lemma pending_upd:
  assumes "e_scheduled e" "e_scheduled e'" "m_cb (e_msg e') = m_cb (e_msg e)"
    "m_cb (e_msg e) \<notin> set (sched_cbs xs)"
    "m_param (e_msg e') = p" "m_user_ctx (e_msg e') = c" "e_timer e' = ms"
  shows "pending (xs @ e' # ys) = (pending (xs @ e # ys)) (m_cb (e_msg e) \<mapsto> (p, c, ms))"
  using assms by (auto simp: pending_append fun_eq_iff map_add_def pending_None [symmetric] split: option.splits)

subsection \<open>Operations\<close>

lemma clear_entry_ok:
  assumes "sched_inv (xs @ e # ys)" "e_scheduled e"
  shows "\<exists>s'. clear_entry True (xs @ e # ys) (length xs) = Inr s' \<and> sched_inv s' \<and>
    pending s' = (pending (xs @ e # ys)) (m_cb (e_msg e) := None)"
proof -
  let ?e' = "e\<lparr>e_timer := None, e_scheduled := False, e_msg := cb_msg_zero\<rparr>"
  have e: "entry_ok e" "m_cb (e_msg e) \<notin> set (sched_cbs xs)" "m_cb (e_msg e) \<notin> set (sched_cbs ys)"
    using assms by (auto simp: sched_inv_def)
  have "clear_entry True (xs @ e # ys) (length xs) = Inr (xs @ ?e' # ys)"
    using e(1) by (simp add: clear_entry_def entry_ok_def)
  moreover have "sched_inv (xs @ ?e' # ys)"
    using assms e(1) by (auto simp: sched_inv_def entry_ok_def)
  moreover have "pending (xs @ ?e' # ys) = pending (xs @ ys)"
    by (simp add: pending_append)
  ultimately show ?thesis using pending_split(1) [OF assms(2) refl e(2,3)] by auto
qed

lemma cancel_ok:
  assumes "sched_inv s"
  shows "\<exists>s'. scheduler_cancel_callback True s cb = Inr s' \<and> sched_inv s' \<and>
    pending s' = (pending s) (cb := None)"
proof (cases "find_entry s cb")
  case None
  then have "(pending s) (cb := None) = pending s" by (auto simp: find_entry_None)
  with None assms show ?thesis by (simp add: scheduler_cancel_callback_def)
next
  case (Some idx)
  from find_entry_split [OF assms Some] obtain xs e ys where s: "s = xs @ e # ys" "idx = length xs"
    "e_scheduled e" "m_cb (e_msg e) = cb" "idx < SCHEDULER_MAX_ENTRIES" by metis
  with clear_entry_ok [of xs e ys] assms Some show ?thesis
    by (auto simp: scheduler_cancel_callback_def)
qed

lemma schedule_entry_ok:
  assumes "list_all entry_ok s" "cb \<notin> set (sched_cbs s)" "length (sched_cbs s) < length s" "cb \<noteq> 0"
    "pdMS_TO_TICKS ms \<noteq> 0" "distinct (sched_cbs s)"
  shows "\<exists>s'. schedule_entry True s cb param ctx ms = Inr s' \<and> length s' = length s \<and>
    list_all entry_ok s' \<and> distinct (sched_cbs s') \<and> set (sched_cbs s') = insert cb (set (sched_cbs s)) \<and>
    pending s' = (pending s) (cb \<mapsto> (param, ctx, Some (pdMS_TO_TICKS ms)))"
  using assms
proof (induction s)
  case (Cons e es)
  show ?case
  proof (cases "e_scheduled e")
    case True
    with Cons.prems have "list_all entry_ok es" "cb \<notin> set (sched_cbs es)"
      "length (sched_cbs es) < length es" "distinct (sched_cbs es)" by auto
    from Cons.IH [OF this(1-3) Cons.prems(4,5) this(4)] obtain es' where
      es': "schedule_entry True es cb param ctx ms = Inr es'" "length es' = length es"
      "list_all entry_ok es'" "distinct (sched_cbs es')"
      "set (sched_cbs es') = insert cb (set (sched_cbs es))"
      "pending es' = (pending es) (cb \<mapsto> (param, ctx, Some (pdMS_TO_TICKS ms)))" by blast
    from True Cons.prems(2) have "m_cb (e_msg e) \<noteq> cb" by auto
    with True Cons.prems es' show ?thesis by (auto simp: fun_eq_iff)
  next
    case False
    with Cons.prems show ?thesis by (auto simp: entry_ok_def)
  qed
qed simp

lemma schedule_entry_full:
  "list_all e_scheduled s \<Longrightarrow> schedule_entry tm s cb param ctx ms = Inl Abort"
  by (induction s) (auto simp: c_assert_def)

lemma length_sched_cbs: "length (sched_cbs s) \<le> length s"
  by (induction s) auto

lemma length_sched_cbs_full: "length (sched_cbs s) = length s \<longleftrightarrow> list_all e_scheduled s"
proof (induction s)
  case (Cons e s)
  then show ?case using length_sched_cbs [of s] by auto
qed simp

lemma card_pending: "sched_inv s \<Longrightarrow> card (dom (pending s)) = length (sched_cbs s)"
  by (simp add: dom_pending sched_inv_def distinct_card)

lemma set_callback_ok:
  assumes inv: "sched_inv s" and cb: "cb \<noteq> 0" "delay \<noteq> 0" "sched_ticks delay \<noteq> 0"
    and room: "pending s cb \<noteq> None \<or> card (dom (pending s)) < SCHEDULER_MAX_ENTRIES"
  shows "\<exists>s'. scheduler_set_callback True s cb param ctx delay = Inr (s', []) \<and> sched_inv s' \<and>
    pending s' = (pending s) (cb \<mapsto> (param, ctx, Some (sched_ticks delay)))"
proof (cases "find_entry s cb")
  case None
  then have "pending s cb = None" by (simp add: find_entry_None)
  then have "length (sched_cbs s) < length s" "cb \<notin> set (sched_cbs s)"
    using room inv card_pending [OF inv] dom_pending [of s] by (auto simp: sched_inv_def)
  then obtain s' where "schedule_entry True s cb param ctx (sched_delay delay) = Inr s'" "length s' = length s"
    "list_all entry_ok s'" "distinct (sched_cbs s')"
    "pending s' = (pending s) (cb \<mapsto> (param, ctx, Some (sched_ticks delay)))"
    using schedule_entry_ok [of s cb "sched_delay delay" param ctx] inv cb by (auto simp: sched_inv_def sched_ticks_def)
  then show ?thesis
    using None cb inv by (auto simp: scheduler_set_callback_def Let_def sched_inv_def sched_ticks_def sched_delay_def)
next
  case (Some idx)
  from find_entry_split [OF inv Some] obtain xs e ys where s: "s = xs @ e # ys" "idx = length xs"
    "e_scheduled e" "m_cb (e_msg e) = cb" "entry_ok e" "cb \<notin> set (sched_cbs xs)"
    "cb \<notin> set (sched_cbs ys)" "idx < SCHEDULER_MAX_ENTRIES" .
  let ?e' = "e\<lparr>e_msg := (e_msg e)\<lparr>m_param := param, m_user_ctx := ctx\<rparr>, e_timer := Some (sched_ticks delay)\<rparr>"
  have "scheduler_set_callback True s cb param ctx delay = Inr (xs @ ?e' # ys, [])"
    using s cb(1,2) Some cb(3) [unfolded sched_ticks_def sched_delay_def]
    by (auto simp: scheduler_set_callback_def reschedule_entry_def Let_def entry_ok_def sched_ticks_def sched_delay_def)
  moreover have "sched_inv (xs @ ?e' # ys)"
    using inv s cb(3) by (auto simp: sched_inv_def entry_ok_def)
  moreover have "pending (xs @ ?e' # ys) = (pending s) (cb \<mapsto> (param, ctx, Some (sched_ticks delay)))"
    using pending_upd [of e ?e' xs param ctx "Some (sched_ticks delay)" ys] s by simp
  ultimately show ?thesis by blast
qed


lemma schedule_stalls: "pdMS_TO_TICKS ms = 0 \<Longrightarrow> isl (schedule_entry tm s cb p c ms)"
proof (induction s)
  case (Cons e es)
  then show ?case by (cases "schedule_entry tm es cb p c ms") (auto simp: c_assert_def)
qed simp

lemma set_callback_stalls:
  assumes "cb \<noteq> 0" "d \<noteq> 0" "sched_ticks d = 0"
  shows "isl (scheduler_set_callback tm s cb p c d)"
proof -
  have z: "pdMS_TO_TICKS (sched_delay d) = 0" using assms(3) by (simp add: sched_ticks_def)
  then have r: "isl (reschedule_entry tm s p c (sched_delay d) idx)" for idx
    by (simp add: reschedule_entry_def c_assert_def)
  have "scheduler_set_callback tm s cb p c d = obind (case find_entry s cb of
        None \<Rightarrow> schedule_entry tm s cb p c (sched_delay d)
      | Some idx \<Rightarrow> c_assert (idx < SCHEDULER_MAX_ENTRIES) (reschedule_entry tm s p c (sched_delay d) idx)) (\<lambda>s'. Inr (s', []))"
    using assms(1,2) by (simp add: scheduler_set_callback_def sched_delay_def Let_def split: option.split)
  then show ?thesis using schedule_stalls [OF z, of tm s cb p c] r [of "the (find_entry s cb)"]
    by (cases "find_entry s cb") (auto simp: c_assert_def isl_def)
qed

lemma wrapper_ok:
  assumes "sched_inv s" "i < SCHEDULER_MAX_ENTRIES" "e_scheduled (s ! i)"
  defines "e \<equiv> e_msg (s ! i)"
  shows "\<exists>s'. callback_wrapper True s i = Inr (s', [Invoked (m_cb e) (m_param e) (m_user_ctx e)]) \<and>
    sched_inv s' \<and> pending s' = (pending s) (m_cb e := None)"
proof -
  have l: "i < length s" using assms(1,2) by (simp add: sched_inv_def)
  let ?xs = "take i s" and ?ys = "drop (Suc i) s"
  have s: "s = ?xs @ s ! i # ?ys" using l by (rule id_take_nth_drop)
  have len: "length ?xs = i" using l by simp
  have ok: "entry_ok (s ! i)" using assms(1) l by (simp add: sched_inv_def list_all_length)
  have "sched_inv (?xs @ s ! i # ?ys)" using assms(1) s by simp
  from clear_entry_ok [OF this assms(3)] obtain s' where
    "clear_entry True s i = Inr s'" "sched_inv s'" "pending s' = (pending s) (m_cb (e_msg (s ! i)) := None)"
    using s len by auto
  then show ?thesis
    using assms(2,3) ok by (auto simp: callback_wrapper_def e_def entry_ok_def Let_def)
qed

text \<open>The expiry of the timer of a pending callback, with its handler following at once.\<close>

definition sched_fire :: "sched \<Rightarrow> fptr \<Rightarrow> (sched \<times> sched_event list) outcome" where
  "sched_fire s cb = (case find_entry s cb of None \<Rightarrow> Inr (s, []) | Some idx \<Rightarrow> callback_wrapper True s idx)"

lemma fire_ok:
  assumes "sched_inv s" "pending s cb = Some (p, c, t)"
  shows "\<exists>s'. sched_fire s cb = Inr (s', [Invoked cb p c]) \<and> sched_inv s' \<and> pending s' = (pending s) (cb := None)"
proof -
  obtain idx where idx: "find_entry s cb = Some idx"
    using assms(2) find_entry_None [of s cb] by (cases "find_entry s cb") auto
  from find_entry_split [OF assms(1) idx] obtain xs e ys where s: "s = xs @ e # ys" "idx = length xs"
    "e_scheduled e" "m_cb (e_msg e) = cb" "cb \<notin> set (sched_cbs xs)" "cb \<notin> set (sched_cbs ys)"
    "idx < SCHEDULER_MAX_ENTRIES" by metis
  have nth: "s ! idx = e" using s(1,2) by simp
  have "(p, c, t) = (m_param (e_msg e), m_user_ctx (e_msg e), e_timer e)"
    using pending_split(2) [OF s(3,4,5,6)] assms(2) s(1) by simp
  with wrapper_ok [OF assms(1) s(7)] nth s(3,4) idx show ?thesis
    by (simp add: sched_fire_def)
qed

lemma scheduler_init_ok:
  "scheduler_init (\<lambda>i. True) = Inr s \<Longrightarrow> sched_inv s \<and> pending s = Map.empty"
  by (auto simp: scheduler_init_def c_assert_def sched_inv_def entry_ok_def eval_nat_numeral)

subsection \<open>What a client relies on\<close>

datatype sched_op = Op_Set fptr u32 nat u32 | Op_Cancel fptr | Op_Fire fptr

primrec op_cb :: "sched_op \<Rightarrow> fptr" where
  "op_cb (Op_Set cb p c d) = cb"
| "op_cb (Op_Cancel cb) = cb"
| "op_cb (Op_Fire cb) = cb"

text \<open>The specification: a map from pending callbacks to their parameter, context and time in ticks.\<close>

primrec spec_op :: "pending_map \<Rightarrow> sched_op \<Rightarrow> pending_map \<times> sched_event list" where
  "spec_op m (Op_Set cb p c d) =
     (if d = 0 then (m, [Invoked cb p c]) else (m(cb \<mapsto> (p, c, Some (sched_ticks d))), []))"
| "spec_op m (Op_Cancel cb) = (m(cb := None), [])"
| "spec_op m (Op_Fire cb) =
     (case m cb of None \<Rightarrow> (m, []) | Some (p, c, t) \<Rightarrow> (m(cb := None), [Invoked cb p c]))"

primrec spec_run :: "pending_map \<Rightarrow> sched_op list \<Rightarrow> pending_map \<times> sched_event list" where
  "spec_run m [] = (m, [])"
| "spec_run m (x # xs) = (let (m', ev) = spec_op m x; (m'', ev') = spec_run m' xs in (m'', ev @ ev'))"

text \<open>A registration whose delay comes out as no tick at all.\<close>

primrec op_stalls :: "sched_op \<Rightarrow> bool" where
  "op_stalls (Op_Set cb p c d) \<longleftrightarrow> d \<noteq> 0 \<and> sched_ticks d = 0"
| "op_stalls (Op_Cancel cb) \<longleftrightarrow> False"
| "op_stalls (Op_Fire cb) \<longleftrightarrow> False"

primrec apply_op :: "('s \<Rightarrow> fptr \<Rightarrow> u32 \<Rightarrow> nat \<Rightarrow> u32 \<Rightarrow> ('s \<times> sched_event list) outcome) \<Rightarrow>
    ('s \<Rightarrow> fptr \<Rightarrow> 's outcome) \<Rightarrow> ('s \<Rightarrow> fptr \<Rightarrow> ('s \<times> sched_event list) outcome) \<Rightarrow>
    's \<Rightarrow> sched_op \<Rightarrow> ('s \<times> sched_event list) outcome" where
  "apply_op sset scancel sfire s (Op_Set cb p c d) = sset s cb p c d"
| "apply_op sset scancel sfire s (Op_Cancel cb) = obind (scancel s cb) (\<lambda>s'. Inr (s', []))"
| "apply_op sset scancel sfire s (Op_Fire cb) = sfire s cb"

primrec apply_ops :: "('s \<Rightarrow> fptr \<Rightarrow> u32 \<Rightarrow> nat \<Rightarrow> u32 \<Rightarrow> ('s \<times> sched_event list) outcome) \<Rightarrow>
    ('s \<Rightarrow> fptr \<Rightarrow> 's outcome) \<Rightarrow> ('s \<Rightarrow> fptr \<Rightarrow> ('s \<times> sched_event list) outcome) \<Rightarrow>
    's \<Rightarrow> sched_op list \<Rightarrow> ('s \<times> sched_event list) outcome" where
  "apply_ops sset scancel sfire s [] = Inr (s, [])"
| "apply_ops sset scancel sfire s (x # xs) =
     obind (apply_op sset scancel sfire s x) (\<lambda>(s', ev).
       obind (apply_ops sset scancel sfire s' xs) (\<lambda>(s'', ev'). Inr (s'', ev @ ev')))"

lemma dom_remove: "dom m \<subseteq> F \<Longrightarrow> dom (m(x := None)) \<subseteq> F"
  by (auto simp: dom_def split: if_splits)

locale callback_scheduler =
  fixes sinv :: "'s \<Rightarrow> bool"
    and pend :: "'s \<Rightarrow> pending_map"
    and sset :: "'s \<Rightarrow> fptr \<Rightarrow> u32 \<Rightarrow> nat \<Rightarrow> u32 \<Rightarrow> ('s \<times> sched_event list) outcome"
    and scancel :: "'s \<Rightarrow> fptr \<Rightarrow> 's outcome"
    and sfire :: "'s \<Rightarrow> fptr \<Rightarrow> ('s \<times> sched_event list) outcome"
    and cap :: nat
  assumes set_now: "cb \<noteq> 0 \<Longrightarrow> sset s cb p c 0 = Inr (s, [Invoked cb p c])"
    and set_later: "sinv s \<Longrightarrow> cb \<noteq> 0 \<Longrightarrow> d \<noteq> 0 \<Longrightarrow> sched_ticks d \<noteq> 0 \<Longrightarrow>
      pend s cb \<noteq> None \<or> card (dom (pend s)) < cap \<Longrightarrow>
      \<exists>s'. sset s cb p c d = Inr (s', []) \<and> sinv s' \<and> pend s' = (pend s)(cb \<mapsto> (p, c, Some (sched_ticks d)))"
    and set_stalls: "cb \<noteq> 0 \<Longrightarrow> d \<noteq> 0 \<Longrightarrow> sched_ticks d = 0 \<Longrightarrow> isl (sset s cb p c d)"
    and cancel_law: "sinv s \<Longrightarrow> \<exists>s'. scancel s cb = Inr s' \<and> sinv s' \<and> pend s' = (pend s)(cb := None)"
    and fire_none: "sinv s \<Longrightarrow> pend s cb = None \<Longrightarrow> sfire s cb = Inr (s, [])"
    and fire_some: "sinv s \<Longrightarrow> pend s cb = Some (p, c, t) \<Longrightarrow>
      \<exists>s'. sfire s cb = Inr (s', [Invoked cb p c]) \<and> sinv s' \<and> pend s' = (pend s)(cb := None)"
begin

lemma room:
  assumes "finite F" "card F \<le> cap" "dom (pend s) \<subseteq> F" "cb \<in> F"
  shows "pend s cb \<noteq> None \<or> card (dom (pend s)) < cap"
proof (rule disjCI)
  assume "\<not> card (dom (pend s)) < cap"
  moreover have "card (dom (pend s)) \<le> card F" using assms(1,3) by (rule card_mono)
  ultimately have "card (dom (pend s)) = card F" using assms(2) by linarith
  from card_subset_eq [OF assms(1,3) this] assms(4) show "pend s cb \<noteq> None" by (simp only: domIff [symmetric])
qed

lemma op_law:
  assumes "sinv s" "finite F" "card F \<le> cap" "dom (pend s) \<subseteq> F" "op_cb x \<in> F" "0 \<notin> F" "\<not> op_stalls x"
  shows "\<exists>s'. apply_op sset scancel sfire s x = Inr (s', snd (spec_op (pend s) x)) \<and> sinv s' \<and>
    pend s' = fst (spec_op (pend s) x) \<and> dom (pend s') \<subseteq> F"
proof (cases x)
  case (Op_Set cb p c d)
  with assms have cb: "cb \<in> F" "cb \<noteq> 0" by auto
  show ?thesis
  proof (cases "d = 0")
    case True
    with Op_Set cb assms show ?thesis by (simp add: set_now)
  next
    case False
    have "sched_ticks d \<noteq> 0" using Op_Set False assms(7) by simp
    from set_later [OF assms(1) cb(2) False this room [OF assms(2,3,4) cb(1)], of p c] Op_Set False cb assms(4)
    show ?thesis by auto
  qed
next
  case (Op_Cancel cb)
  from cancel_law [OF assms(1), of cb] obtain s' where
    "scancel s cb = Inr s'" "sinv s'" "pend s' = (pend s)(cb := None)" by blast
  with Op_Cancel dom_remove [OF assms(4), of cb] show ?thesis by simp
next
  case (Op_Fire cb)
  show ?thesis
  proof (cases "pend s cb")
    case None
    with Op_Fire fire_none [OF assms(1) None] assms show ?thesis by simp
  next
    case (Some b)
    obtain p c t where "b = (p, c, t)" by (cases b)
    with fire_some [OF assms(1), of cb p c t] Some obtain s' where
      "sfire s cb = Inr (s', [Invoked cb p c])" "sinv s'" "pend s' = (pend s)(cb := None)" by blast
    with Op_Fire Some \<open>b = (p, c, t)\<close> dom_remove [OF assms(4), of cb] show ?thesis by simp
  qed
qed

lemma ops_law:
  assumes "sinv s" "finite F" "card F \<le> cap" "dom (pend s) \<subseteq> F" "op_cb ` set xs \<subseteq> F" "0 \<notin> F"
  shows "if list_ex op_stalls xs then isl (apply_ops sset scancel sfire s xs)
    else \<exists>s'. apply_ops sset scancel sfire s xs = Inr (s', snd (spec_run (pend s) xs)) \<and> sinv s' \<and>
      pend s' = fst (spec_run (pend s) xs)"
  using assms
proof (induction xs arbitrary: s)
  case (Cons x xs)
  from Cons.prems have x: "op_cb x \<in> F" by simp
  show ?case
  proof (cases "op_stalls x")
    case True
    then obtain cb p c d where "x = Op_Set cb p c d" "d \<noteq> 0" "sched_ticks d = 0" by (cases x) auto
    then have "isl (apply_op sset scancel sfire s x)" using set_stalls [of cb d s p c] x Cons.prems(6) by auto
    with True show ?thesis by (cases "apply_op sset scancel sfire s x") auto
  next
    case False
  from op_law [OF Cons.prems(1-4) x Cons.prems(6) False] obtain s1 where
    s1: "apply_op sset scancel sfire s x = Inr (s1, snd (spec_op (pend s) x))" "sinv s1"
      "pend s1 = fst (spec_op (pend s) x)" "dom (pend s1) \<subseteq> F" by blast
  from Cons.prems(5) have "op_cb ` set xs \<subseteq> F" by simp
  from Cons.IH [OF s1(2) Cons.prems(2,3) s1(4) this Cons.prems(6)] s1(1,3) False show ?thesis
    by (auto simp: split_def Let_def obind_def split: sum.splits if_splits)
  qed
qed simp

end

lemma fire_none_ok: "pending s cb = None \<Longrightarrow> sched_fire s cb = Inr (s, [])"
  using find_entry_None [of s cb] by (simp add: sched_fire_def)

interpretation sch: callback_scheduler sched_inv pending "scheduler_set_callback True"
  "scheduler_cancel_callback True" sched_fire SCHEDULER_MAX_ENTRIES
  by unfold_locales
    (simp add: scheduler_set_callback_def, (rule set_callback_ok; assumption), (rule set_callback_stalls; assumption),
     (erule cancel_ok),
     (erule fire_none_ok), (rule fire_ok; assumption))


text \<open>C3. After initialisation, any sequence of registrations, cancellations and timer expiries over at
  most twelve callbacks fails an assertion exactly when it has a registration whose delay wraps to no tick. Otherwise it keeps
  the table well formed and is the same sequence on a map of pending callbacks: a later registration of a callback replaces
  the earlier one, a delay of zero runs it at once, any other one sets the timer to the ticks that \<open>pdMS_TO_TICKS\<close>
  computes, at least one, and a timer runs its callback once with the parameters of the last registration.\<close>

theorem scheduler_refines_map:
  assumes "scheduler_init (\<lambda>i. True) = Inr s" "finite F" "card F \<le> 12" "0 \<notin> F" "op_cb ` set xs \<subseteq> F"
  shows "if list_ex op_stalls xs
    then isl (apply_ops (scheduler_set_callback True) (scheduler_cancel_callback True) sched_fire s xs)
    else \<exists>s'. apply_ops (scheduler_set_callback True) (scheduler_cancel_callback True) sched_fire s xs =
        Inr (s', snd (spec_run Map.empty xs)) \<and> sched_inv s' \<and> pending s' = fst (spec_run Map.empty xs)"
  using sch.ops_law [of s F xs] scheduler_init_ok [OF assms(1)] assms(2-5) by (simp split: if_splits)

theorem scheduler_refines_map_witness:
  "(\<exists>s'. apply_ops (scheduler_set_callback True) (scheduler_cancel_callback True) sched_fire
      (replicate 12 \<lparr>e_handle = True, e_scheduled = False, e_msg = cb_msg_zero, e_timer = None\<rparr>)
      [Op_Set 7 1 0 500, Op_Set 8 2 0 3, Op_Set 7 3 0 100, Op_Fire 7, Op_Cancel 9, Op_Fire 7] =
      Inr (s', [Invoked 7 3 0]) \<and> pending s' = [8 \<mapsto> (2, 0, Some 1)]) \<and>
    isl (apply_ops (scheduler_set_callback True) (scheduler_cancel_callback True) sched_fire
      (replicate 12 \<lparr>e_handle = True, e_scheduled = False, e_msg = cb_msg_zero, e_timer = None\<rparr>)
      [Op_Set 8 2 0 3, Op_Set 7 1 0 42949673])"
proof -
  have i: "scheduler_init (\<lambda>i. True) =
      Inr (replicate 12 \<lparr>e_handle = True, e_scheduled = False, e_msg = cb_msg_zero, e_timer = None\<rparr>)"
    by (simp add: scheduler_init_def c_assert_def)
  show ?thesis
    using scheduler_refines_map [OF i, of "{7, 8, 9}"
        "[Op_Set 7 1 0 500, Op_Set 8 2 0 3, Op_Set 7 3 0 100, Op_Fire 7, Op_Cancel 9, Op_Fire 7]"]
      scheduler_refines_map [OF i, of "{7, 8}" "[Op_Set 8 2 0 3, Op_Set 7 1 0 42949673]"]
    by (auto simp: Let_def fun_eq_iff sched_ticks_def sched_delay_def pdMS_TO_TICKS_def)
qed

lemma ticks_early: "42949672 < unat d \<Longrightarrow> 10 * unat (pdMS_TO_TICKS d) + 42949672 < unat d"
proof -
  assume "42949672 < unat d"
  then have "2 ^ 32 \<le> unat d * 100" by simp
  then have "unat d * 100 mod 2 ^ 32 \<le> unat d * 100 - 2 ^ 32" by (simp add: le_mod_geq)
  then have "1000 * unat (pdMS_TO_TICKS d) \<le> unat d * 100 - 2 ^ 32"
    using mult_div_mod_eq [of 1000 "unat d * 100 mod 2 ^ 32"] by (simp add: unat_ticks)
  with \<open>2 ^ 32 \<le> unat d * 100\<close> show ?thesis by simp
qed

text \<open>C28. A delay of up to 42949672 ms, almost twelve hours, sets the timer to it, cut to ticks of 10 ms and at least one.
  Every longer one sets the timer more than 42949672 ms too short, or to no tick, which fails an assertion.\<close>

theorem scheduler_delay_wraps:
  assumes "sched_inv s" "cb \<noteq> 0" "d \<noteq> 0" "pending s cb \<noteq> None \<or> card (dom (pending s)) < SCHEDULER_MAX_ENTRIES"
  shows "if sched_ticks d = 0 then isl (scheduler_set_callback True s cb p c d) \<and> 42949672 < unat d
    else \<exists>s' t. scheduler_set_callback True s cb p c d = Inr (s', []) \<and> pending s' cb = Some (p, c, Some t) \<and>
      (if unat d \<le> 42949672 then unat t = max 1 (unat d div 10) else 10 * unat t + 42949672 < unat d)"
proof (cases "sched_ticks d = 0")
  case True
  then show ?thesis using set_callback_stalls [OF assms(2,3)] sched_ticks_nonzero [of d] by (auto simp: not_less [symmetric])
next
  case False
  from set_callback_ok [OF assms(1,2,3) False assms(4), of p c] obtain s' where
    "scheduler_set_callback True s cb p c d = Inr (s', [])" "pending s' cb = Some (p, c, Some (sched_ticks d))" by auto
  moreover have "42949672 < unat d \<Longrightarrow> sched_delay d = d" by (simp add: sched_delay_def word_less_nat_alt)
  ultimately show ?thesis
    using False unat_sched_ticks [of d] ticks_early [of d] by (auto simp: sched_ticks_def)
qed

text \<open>The first delay of src/errors.md, sixteen hours, becomes 14650320 ms.\<close>

theorem scheduler_delay_wraps_witness:
  "\<exists>s' t. scheduler_set_callback True (replicate 12 \<lparr>e_handle = True, e_scheduled = False, e_msg = cb_msg_zero, e_timer = None\<rparr>)
      7 0 0 57600000 = Inr (s', []) \<and> pending s' 7 = Some (0, 0, Some t) \<and> 10 * unat t + 42949672 < 57600000"
proof -
  let ?s = "replicate 12 \<lparr>e_handle = True, e_scheduled = False, e_msg = cb_msg_zero, e_timer = None\<rparr>"
  have "scheduler_init (\<lambda>i. True) = Inr ?s" by (simp add: scheduler_init_def c_assert_def)
  then have "sched_inv ?s" "pending ?s = Map.empty" using scheduler_init_ok by blast+
  moreover have "sched_ticks 57600000 = 1465032" by (simp add: sched_ticks_def sched_delay_def pdMS_TO_TICKS_def)
  ultimately show ?thesis using scheduler_delay_wraps [of ?s 7 57600000 0 0] by simp
qed

text \<open>The table has room for twelve callbacks: while it is full, registering another one with a
  delay fails an assertion, and registering one of the twelve again does not.\<close>

lemma scheduler_table_full:
  assumes "sched_inv s" "card (dom (pending s)) = 12" "cb \<noteq> 0" "d \<noteq> 0" "sched_ticks d \<noteq> 0"
  shows "isl (scheduler_set_callback True s cb p c d) \<longleftrightarrow> pending s cb = None"
proof (cases "pending s cb")
  case None
  then have "find_entry s cb = None" by (simp add: find_entry_None)
  moreover have "list_all e_scheduled s"
    using assms(1,2) card_pending [OF assms(1)] length_sched_cbs_full [of s] by (simp add: sched_inv_def)
  ultimately show ?thesis
    using None assms(3,4) by (simp add: scheduler_set_callback_def schedule_entry_full Let_def)
next
  case (Some b)
  with set_callback_ok [OF assms(1,3,4,5), of p c] show ?thesis by auto
qed

subsection \<open>Expiry and the mutex\<close>

text \<open>
  The timer task notices an expired timer, marks it stopped and calls \<open>callback_wrapper\<close>, which waits
  for the mutex: \<open>Some i\<close> in the second component is the entry it waits with. Any operation of another
  task that already holds the mutex comes first.
\<close>

datatype sched_action = Act_Set fptr u32 nat u32 | Act_Cancel fptr | Act_Expire nat | Act_Wrapper

inductive sched_step ::
    "sched \<times> nat option \<Rightarrow> sched_action \<Rightarrow> (sched \<times> nat option \<times> sched_event list) outcome \<Rightarrow> bool" where
  step_set: "sched_step (s, w) (Act_Set cb p c d)
    (obind (scheduler_set_callback True s cb p c d) (\<lambda>(s', ev). Inr (s', w, ev)))"
| step_cancel: "sched_step (s, w) (Act_Cancel cb)
    (obind (scheduler_cancel_callback True s cb) (\<lambda>s'. Inr (s', w, [])))"
| step_expire: "i < SCHEDULER_MAX_ENTRIES \<Longrightarrow> e_timer (s ! i) = Some ms \<Longrightarrow>
    sched_step (s, None) (Act_Expire i) (Inr (s[i := (s ! i)\<lparr>e_timer := None\<rparr>], Some i, []))"
| step_wrapper: "sched_step (s, Some i) Act_Wrapper
    (obind (callback_wrapper True s i) (\<lambda>(s', ev). Inr (s', None, ev)))"

inductive_cases sched_step_setE: "sched_step st (Act_Set cb p c d) r"
inductive_cases sched_step_cancelE: "sched_step st (Act_Cancel cb) r"
inductive_cases sched_step_expireE: "sched_step st (Act_Expire i) r"
inductive_cases sched_step_wrapperE: "sched_step st Act_Wrapper r"

fun act_in :: "fptr set \<Rightarrow> sched_action \<Rightarrow> bool" where
  "act_in F (Act_Set cb p c d) \<longleftrightarrow> cb \<in> F"
| "act_in F _ \<longleftrightarrow> True"

inductive sched_reach :: "fptr set \<Rightarrow> sched \<times> nat option \<Rightarrow> bool" for F where
  reach_init: "scheduler_init (\<lambda>i. True) = Inr s \<Longrightarrow> sched_reach F (s, None)"
| reach_step: "sched_reach F st \<Longrightarrow> act_in F a \<Longrightarrow> sched_step st a (Inr (s', w', ev)) \<Longrightarrow>
    sched_reach F (s', w')"

definition sys_inv :: "fptr set \<Rightarrow> sched \<times> nat option \<Rightarrow> bool" where
  "sys_inv F st \<longleftrightarrow> (case st of (s, w) \<Rightarrow> sched_inv s \<and> dom (pending s) \<subseteq> F \<and>
     pred_option (\<lambda>i. i < SCHEDULER_MAX_ENTRIES) w)"

lemma expire_inv:
  assumes "sched_inv s" "i < SCHEDULER_MAX_ENTRIES"
  shows "sched_inv (s[i := (s ! i)\<lparr>e_timer := None\<rparr>])"
    "dom (pending (s[i := (s ! i)\<lparr>e_timer := None\<rparr>])) = dom (pending s)"
proof -
  have l: "i < length s" using assms by (simp add: sched_inv_def)
  let ?e' = "(s ! i)\<lparr>e_timer := None\<rparr>"
  have s: "s = take i s @ s ! i # drop (Suc i) s" using l by (rule id_take_nth_drop)
  have u: "s[i := ?e'] = take i s @ ?e' # drop (Suc i) s" using l by (rule upd_conv_take_nth_drop)
  have c: "sched_cbs (s[i := ?e']) = sched_cbs s"
    by (subst (2) s, subst u) simp
  have "entry_ok (s ! i)" using assms(1) l by (simp add: sched_inv_def list_all_length)
  then have "entry_ok ?e'" by (auto simp: entry_ok_def)
  then have "list_all entry_ok (s[i := ?e'])"
    using assms(1) l by (auto simp: sched_inv_def list_all_length nth_list_update)
  with assms(1) c show "sched_inv (s[i := ?e'])" by (simp add: sched_inv_def)
  show "dom (pending (s[i := ?e'])) = dom (pending s)" using c by (simp add: dom_pending)
qed

fun act_stalls :: "sched_action \<Rightarrow> bool" where
  "act_stalls (Act_Set cb p c d) \<longleftrightarrow> d \<noteq> 0 \<and> sched_ticks d = 0"
| "act_stalls _ \<longleftrightarrow> False"

text \<open>One step from a good state: it faults exactly when the handler finds its entry cleared or a delay has no tick.\<close>

lemma step_law:
  assumes "sys_inv F st" "finite F" "card F \<le> 12" "0 \<notin> F" "act_in F a" "sched_step st a r"
  shows "case r of Inl f \<Rightarrow> act_stalls a \<or> a = Act_Wrapper \<and> (\<exists>i. snd st = Some i \<and> \<not> e_scheduled (fst st ! i))
    | Inr (s', w', ev) \<Rightarrow> sys_inv F (s', w') \<and> \<not> act_stalls a \<and>
        (\<forall>i. a = Act_Wrapper \<and> snd st = Some i \<longrightarrow> e_scheduled (fst st ! i))"
  using assms(6)
proof cases
  case (step_set s w cb p c d)
  with assms have i: "sched_inv s" "dom (pending s) \<subseteq> F" "cb \<in> F" "cb \<noteq> 0"
    "pred_option (\<lambda>i. i < SCHEDULER_MAX_ENTRIES) w" by (auto simp: sys_inv_def)
  show ?thesis
  proof (cases "act_stalls a")
    case True
    then have "isl (scheduler_set_callback True s cb p c d)" using step_set i(4) set_callback_stalls by simp
    with step_set True show ?thesis by (cases "scheduler_set_callback True s cb p c d") simp_all
  next
    case False
  from sch.op_law [OF i(1) assms(2,3) i(2) _ assms(4), of "Op_Set cb p c d"] i(3) False step_set
  obtain s' where "scheduler_set_callback True s cb p c d = Inr (s', snd (spec_op (pending s) (Op_Set cb p c d)))"
    "sched_inv s'" "dom (pending s') \<subseteq> F" by auto
  with step_set i(5) False show ?thesis by (simp add: sys_inv_def)
  qed
next
  case (step_cancel s w cb)
  with assms have i: "sched_inv s" "dom (pending s) \<subseteq> F"
    "pred_option (\<lambda>i. i < SCHEDULER_MAX_ENTRIES) w" by (auto simp: sys_inv_def)
  from cancel_ok [OF i(1), of cb] obtain s' where "scheduler_cancel_callback True s cb = Inr s'" "sched_inv s'"
    "pending s' = (pending s)(cb := None)" by blast
  with step_cancel i dom_remove [OF i(2), of cb] show ?thesis by (simp add: sys_inv_def)
next
  case (step_expire i s ms)
  with assms expire_inv [of s i] show ?thesis by (simp add: sys_inv_def)
next
  case (step_wrapper s i)
  with assms have i: "sched_inv s" "dom (pending s) \<subseteq> F" "i < SCHEDULER_MAX_ENTRIES"
    by (auto simp: sys_inv_def)
  show ?thesis
  proof (cases "e_scheduled (s ! i)")
    case True
    from wrapper_ok [OF i(1,3) True] obtain s' ev where "callback_wrapper True s i = Inr (s', ev)"
      "sched_inv s'" "pending s' = (pending s)(m_cb (e_msg (s ! i)) := None)" by blast
    with step_wrapper True dom_remove [OF i(2)] show ?thesis by (simp add: sys_inv_def)
  next
    case False
    with step_wrapper i(3) show ?thesis by (simp add: callback_wrapper_def c_assert_def)
  qed
qed

lemma reach_inv:
  assumes "sched_reach F st" "finite F" "card F \<le> 12" "0 \<notin> F"
  shows "sys_inv F st"
  using assms(1)
proof induction
  case (reach_init s)
  then show ?case using scheduler_init_ok [of s] by (simp add: sys_inv_def)
next
  case (reach_step st a s' w' ev)
  from step_law [OF reach_step.IH assms(2-4) reach_step.hyps(2,3)] show ?case by simp
qed

text \<open>C15. In every state reachable by any interleaving of operations, expiries and handlers over at
  most twelve callbacks, the only steps that fail an assertion are the handler of a timer whose entry
  was cleared while the handler waited for the mutex, and a registration whose delay wraps to no tick.\<close>

theorem scheduler_fault_only_race:
  assumes "sched_reach F (s, w)" "finite F" "card F \<le> 12" "0 \<notin> F" "act_in F a" "sched_step (s, w) a r"
  shows "isl r \<longleftrightarrow> act_stalls a \<or> (\<exists>i. a = Act_Wrapper \<and> w = Some i \<and> \<not> e_scheduled (s ! i))"
  using step_law [OF reach_inv [OF assms(1-4)] assms(2-6)] by (auto split: sum.splits)

text \<open>The race is real: in every good state with a pending callback, its timer expires, another
  task that holds the mutex cancels the callback, and the handler then fails its assertion that the
  entry is scheduled; without the cancellation the handler runs the callback.\<close>

lemma scheduler_cancel_race:
  assumes "sched_inv s" "pending s cb = Some (p, c, Some ms)"
  shows "\<exists>i s1 s2 s3. sched_step (s, None) (Act_Expire i) (Inr (s1, Some i, [])) \<and>
    sched_step (s1, Some i) (Act_Cancel cb) (Inr (s2, Some i, [])) \<and>
    sched_step (s2, Some i) Act_Wrapper (Inl Abort) \<and>
    sched_step (s1, Some i) Act_Wrapper (Inr (s3, None, [Invoked cb p c]))"
proof -
  obtain idx where idx: "find_entry s cb = Some idx"
    using assms(2) find_entry_None [of s cb] by (cases "find_entry s cb") auto
  from find_entry_split [OF assms(1) idx] obtain xs e ys where s: "s = xs @ e # ys" "idx = length xs"
    "e_scheduled e" "m_cb (e_msg e) = cb" "cb \<notin> set (sched_cbs xs)" "cb \<notin> set (sched_cbs ys)"
    "idx < SCHEDULER_MAX_ENTRIES" by metis
  have b: "p = m_param (e_msg e)" "c = m_user_ctx (e_msg e)" "e_timer e = Some ms"
    using pending_split(2) [OF s(3,4,5,6)] assms(2) s(1) by auto
  let ?s1 = "xs @ e\<lparr>e_timer := None\<rparr> # ys"
  let ?s2 = "xs @ e\<lparr>e_timer := None, e_scheduled := False, e_msg := cb_msg_zero\<rparr> # ys"
  have s1: "s[idx := (s ! idx)\<lparr>e_timer := None\<rparr>] = ?s1" "s ! idx = e" using s(1,2) by simp_all
  have 1: "sched_step (s, None) (Act_Expire idx) (Inr (?s1, Some idx, []))"
    using step_expire [of idx s ms] s(7) b(3) s1 by simp
  have inv: "sched_inv ?s1" using expire_inv(1) [OF assms(1) s(7)] s1 by simp
  have f: "find_entry ?s1 cb = Some idx"
  proof -
    have "find_loop (xs @ e' # ys) cb i = Some (i + length xs)"
      if "e_scheduled e'" "m_cb (e_msg e') = cb" for e' i
      using s(5) that by (induction xs arbitrary: i) auto
    from this [of "e\<lparr>e_timer := None\<rparr>" 0] s(2,3,4) show ?thesis by (simp add: find_entry_def)
  qed
  have h: "e_handle e" using assms(1) s(1) by (auto simp: sched_inv_def entry_ok_def)
  have "scheduler_cancel_callback True ?s1 cb = Inr ?s2"
    using f s(2,7) h by (simp add: scheduler_cancel_callback_def clear_entry_def)
  then have 2: "sched_step (?s1, Some idx) (Act_Cancel cb) (Inr (?s2, Some idx, []))"
    using step_cancel [of ?s1 "Some idx" cb] by simp
  have "callback_wrapper True ?s2 idx = Inl Abort" using s(2,7) by (simp add: callback_wrapper_def c_assert_def)
  then have 3: "sched_step (?s2, Some idx) Act_Wrapper (Inl Abort)"
    using step_wrapper [of ?s2 idx] by simp
  from wrapper_ok [OF inv s(7)] s(2,3,4) b obtain s3 where
    "callback_wrapper True ?s1 idx = Inr (s3, [Invoked cb p c])" by auto
  then have 4: "sched_step (?s1, Some idx) Act_Wrapper (Inr (s3, None, [Invoked cb p c]))"
    using step_wrapper [of ?s1 idx] by simp
  show ?thesis by (intro exI conjI) (rule 1, rule 2, rule 3, rule 4)
qed

definition one_pending :: sched where
  "one_pending = \<lparr>e_handle = True, e_scheduled = True,
     e_msg = \<lparr>m_param = 5, m_user_ctx = 0, m_cb = 7\<rparr>, e_timer = Some 100\<rparr> #
     replicate 11 \<lparr>e_handle = True, e_scheduled = False, e_msg = cb_msg_zero, e_timer = None\<rparr>"

lemma one_pending_inv: "sched_inv one_pending" "pending one_pending = [7 \<mapsto> (5, 0, Some 100)]"
  by (simp_all add: sched_inv_def one_pending_def entry_ok_def list_all_iff)

text \<open>A callback is registered, its timer expires, and a cancellation comes before the handler.\<close>

theorem scheduler_fault_only_race_witness:
  "\<exists>s r. sched_reach {7} (s, Some 0) \<and> sched_step (s, Some 0) Act_Wrapper r \<and> isl r"
proof -
  let ?e = "\<lparr>e_handle = True, e_scheduled = False, e_msg = cb_msg_zero, e_timer = None\<rparr>"
  let ?on = "one_pending [0 := (one_pending ! 0)\<lparr>e_timer := None\<rparr>]"
  have "replicate (Suc 11) ?e = ?e # replicate 11 ?e" by (simp only: replicate_Suc)
  then have i: "scheduler_init (\<lambda>i. True) = Inr (?e # replicate 11 ?e)"
    by (simp add: scheduler_init_def)
  have "find_entry (?e # replicate 11 ?e) 7 = None" by (simp add: find_entry_None)
  then have "scheduler_set_callback True (?e # replicate 11 ?e) 7 5 0 1000 = Inr (one_pending, [])"
    by (simp add: scheduler_set_callback_def Let_def one_pending_def pdMS_TO_TICKS_def)
  then have "sched_step (?e # replicate 11 ?e, None) (Act_Set 7 5 0 1000) (Inr (one_pending, None, []))"
    using step_set [of "?e # replicate 11 ?e" None 7 5 0 1000] by simp
  then have set: "sched_reach {7} (one_pending, None)" by (rule reach_step [OF reach_init [OF i], rotated]) simp
  have "e_timer (one_pending ! 0) = Some 100" by (simp add: one_pending_def)
  then have "sched_step (one_pending, None) (Act_Expire 0) (Inr (?on, Some 0, []))" by (intro step_expire) simp_all
  then have on: "sched_reach {7} (?on, Some 0)" by (rule reach_step [OF set, rotated]) simp
  have "scheduler_cancel_callback True ?on 7 = Inr (?e # replicate 11 ?e)"
    by (simp add: scheduler_cancel_callback_def find_entry_def one_pending_def clear_entry_def cb_msg_zero_def)
  then have "sched_step (?on, Some 0) (Act_Cancel 7) (Inr (?e # replicate 11 ?e, Some 0, []))"
    using step_cancel [of ?on "Some 0" 7] by simp
  then have r: "sched_reach {7} (?e # replicate 11 ?e, Some 0)" by (rule reach_step [OF on, rotated]) simp
  obtain w where w: "sched_step (?e # replicate 11 ?e, Some 0) Act_Wrapper w" using step_wrapper by blast
  from scheduler_fault_only_race [OF r _ _ _ _ w] have "isl w" by simp
  with r w show ?thesis by blast
qed

end
