(* ===== verification/EM_Led_Scene.thy ===== *)
theory EM_Led_Scene
  imports EM_Scheduler
begin

section \<open>LED scenes (em_led_scene/scene.c, ws2812\_rgb.c)\<close>

text \<open>
  Scenes on one RGB LED: a constant background, a blink once and a periodic blink. The state holds the
  active scenes, the driver's colour and brightness, the scheduler of \<open>EM_Scheduler\<close>, whose timer runs
  \<open>change_led_state\<close>, and the calls made to the LED strip library so far. The driver is the configured
  one, \<open>ws2812_rgb.c\<close> with a brightness divider of 4; results of the strip library after initialisation
  are ignored by the code. A scene type is the number of its enumerator, since a remote message can make it any
  number.
\<close>

record blink_t =
  t_on :: u16
  t_off :: u16
  b_repeats :: u16
  b_period :: u16

record scene_t =
  sc_type :: nat
  sc_color :: u32
  sc_blink :: blink_t
  sc_brightness :: u8

abbreviation SCENE_UNSET :: nat where "SCENE_UNSET \<equiv> 0"
abbreviation SCENE_CONST_BG :: nat where "SCENE_CONST_BG \<equiv> Suc 0"
abbreviation SCENE_BLINK_ONCE :: nat where "SCENE_BLINK_ONCE \<equiv> 2"
abbreviation SCENE_BLINK_PERIODIC :: nat where "SCENE_BLINK_PERIODIC \<equiv> 3"
abbreviation SCENE_CLEAR_ONCE :: nat where "SCENE_CLEAR_ONCE \<equiv> 4"
abbreviation SCENE_CLEAR_PERIODIC :: nat where "SCENE_CLEAR_PERIODIC \<equiv> 5"
abbreviation SCENE_CLEAR_ALL :: nat where "SCENE_CLEAR_ALL \<equiv> 6"
abbreviation SCENE_OFF :: nat where "SCENE_OFF \<equiv> 7"
abbreviation RGB_LEDS_OFF :: u32 where "RGB_LEDS_OFF \<equiv> 0"
abbreviation SCENE_BLINK_SEPARATION_MS :: u32 where "SCENE_BLINK_SEPARATION_MS \<equiv> 200"
abbreviation LED_UINT32_MAX :: u32 where "LED_UINT32_MAX \<equiv> 0xFFFFFFFF"

record active_scene_t =
  as_scene :: scene_t
  remaining_toggles :: u32
  remaining_time :: i32

record active_scenes_t =
  rq_led_on :: bool
  bg_color :: u32
  bg_brightness :: u32
  as_once :: active_scene_t
  as_periodic :: active_scene_t

record scenes_list_t =
  event_base :: string
  event_id :: i32
  sl_scene :: scene_t

datatype strip_event = Strip_clear | Strip_set_pixel u32 u32 u32 | Strip_refresh

record led_sys =
  ls_scenes :: active_scenes_t
  ls_brightness :: u8
  ls_color :: u32
  ls_list :: "scenes_list_t list"
  ls_sched :: sched
  ls_out :: "strip_event list"

definition scene_off :: scene_t where
  "scene_off = \<lparr>sc_type = SCENE_OFF, sc_color = 0,
     sc_blink = \<lparr>t_on = 0, t_off = 0, b_repeats = 0, b_period = 0\<rparr>, sc_brightness = 0\<rparr>"

definition active_scenes_init :: active_scenes_t where
  "active_scenes_init = \<lparr>rq_led_on = False, bg_color = RGB_LEDS_OFF, bg_brightness = 0,
     as_once = \<lparr>as_scene = scene_off, remaining_toggles = 0, remaining_time = 0\<rparr>,
     as_periodic = \<lparr>as_scene = scene_off, remaining_toggles = 0, remaining_time = 0\<rparr>\<rparr>"

subsection \<open>The driver\<close>

definition RED_COLOR_MASK :: "u32 \<Rightarrow> u32" where "RED_COLOR_MASK color = drop_bit 16 color AND 0xFF"
definition GREEN_COLOR_MASK :: "u32 \<Rightarrow> u32" where "GREEN_COLOR_MASK color = drop_bit 8 color AND 0xFF"
definition BLUE_COLOR_MASK :: "u32 \<Rightarrow> u32" where "BLUE_COLOR_MASK color = color AND 0xFF"

definition led_emit :: "strip_event list \<Rightarrow> led_sys \<Rightarrow> led_sys" where
  "led_emit ev s = s\<lparr>ls_out := ls_out s @ ev\<rparr>"

text \<open>The results of \<open>gpio_reset_pin\<close>, \<open>gpio_set_direction\<close>, \<open>led_strip_new_rmt_device\<close> and
  \<open>led_strip_clear\<close> are parameters.\<close>

definition led_init :: "int \<Rightarrow> int \<Rightarrow> int \<Rightarrow> int \<Rightarrow> led_sys \<Rightarrow> led_sys \<times> int" where
  "led_init reset direction device cleared s =
     (if reset \<noteq> 0 then (s, reset)
      else if direction \<noteq> 0 then (s, direction)
      else if device \<noteq> 0 then (s, device)
      else (led_emit [Strip_clear] s, cleared))"

definition set_brightness :: "u8 \<Rightarrow> led_sys \<Rightarrow> led_sys \<times> int" where
  "set_brightness req_brightness s =
     (if req_brightness = 0 \<or> 100 < req_brightness then (s, ESP_ERR_INVALID_ARG)
      else (s\<lparr>ls_brightness := req_brightness div 4\<rparr>, ESP_OK))"

definition rgb_on :: "led_sys \<Rightarrow> led_sys" where
  "rgb_on s =
     (let b = ucast (ls_brightness s) :: u32; c = ls_color s in
      led_emit
        ((if c = RGB_LEDS_OFF then [Strip_clear]
          else [Strip_set_pixel (RED_COLOR_MASK c * b div 100) (GREEN_COLOR_MASK c * b div 100)
                  (BLUE_COLOR_MASK c * b div 100)]) @ [Strip_refresh]) s)"

definition rgb_off :: "led_sys \<Rightarrow> led_sys" where
  "rgb_off s = led_emit [Strip_clear, Strip_refresh] s"

definition set_color :: "u32 \<Rightarrow> led_sys \<Rightarrow> led_sys" where
  "set_color rq_color s = s\<lparr>ls_color := rq_color\<rparr>"

subsection \<open>The scenes\<close>

definition restore_bg_color :: "led_sys \<Rightarrow> led_sys" where
  "restore_bg_color s =
     rgb_on (fst (set_brightness (ucast (bg_brightness (ls_scenes s)))
       (set_color (bg_color (ls_scenes s)) s)))"

text \<open>\<open>CHANGE_LED_STATE\<close> is the address of \<open>change_led_state\<close>.\<close>

abbreviation CHANGE_LED_STATE :: fptr where "CHANGE_LED_STATE \<equiv> 100"

text \<open>Registering \<open>change_led_state\<close> with a delay of zero would run it at once, from itself: the fuel of
  the model bounds that recursion, and \<open>scene_inv\<close> below shows that it does not happen.\<close>

fun change_led_state :: "nat \<Rightarrow> u32 \<Rightarrow> led_sys \<Rightarrow> led_sys outcome" where
  "change_led_state 0 param s = Inl OutOfFuel"
| "change_led_state (Suc k) param s =
     (let schedule_next = (\<lambda>next_change_time s.
            obind (scheduler_set_callback True (ls_sched s) CHANGE_LED_STATE next_change_time 0
                     next_change_time)
              (\<lambda>(sch, ev). case ev of
                 [] \<Rightarrow> Inr (s\<lparr>ls_sched := sch\<rparr>)
               | Invoked cb p ctx # _ \<Rightarrow> change_led_state k p (s\<lparr>ls_sched := sch\<rparr>)));
          a = ls_scenes s;
          a = (if 0 < sint (remaining_time (as_periodic a))
               then a\<lparr>as_periodic := (as_periodic a)
                        \<lparr>remaining_time := remaining_time (as_periodic a) - param\<rparr>\<rparr>
               else a);
          s = s\<lparr>ls_scenes := a\<rparr>;
          drive = (\<lambda>next_change_time s.
            if next_change_time = LED_UINT32_MAX then Inr (restore_bg_color s)
            else
              let s = (if \<not> rq_led_on (ls_scenes s) then rgb_off s else rgb_on s);
                  s = s\<lparr>ls_scenes := (ls_scenes s)\<lparr>rq_led_on := \<not> rq_led_on (ls_scenes s)\<rparr>\<rparr>
              in schedule_next next_change_time s)
      in
      if 0 < remaining_toggles (as_once a) then
        let sc = as_scene (as_once a);
            s = fst (set_brightness (sc_brightness sc) (set_color (sc_color sc) s));
            next_change_time = (if rq_led_on a then ucast (t_on (sc_blink sc)) else ucast (t_off (sc_blink sc)));
            s = s\<lparr>ls_scenes := a\<lparr>as_once := (as_once a)\<lparr>remaining_toggles := remaining_toggles (as_once a) - 1\<rparr>\<rparr>\<rparr>
        in drive next_change_time s
      else if 0 < remaining_toggles (as_periodic a) then
        (if 0 < sint (remaining_time (as_periodic a)) then
           schedule_next (remaining_time (as_periodic a)) s
         else
           let p = as_periodic a; sc = as_scene p;
               s = fst (set_brightness (sc_brightness sc) (set_color (sc_color sc) s));
               next_change_time = (if rq_led_on a then ucast (t_on (sc_blink sc)) else ucast (t_off (sc_blink sc)));
               p = p\<lparr>remaining_toggles := remaining_toggles p - 1\<rparr>;
               p = (if remaining_toggles p = 0
                    then p\<lparr>remaining_time := ucast (b_period (sc_blink sc)) + next_change_time,
                           remaining_toggles := 2 * ucast (b_repeats (sc_blink sc))\<rparr>
                    else p);
               s = s\<lparr>ls_scenes := a\<lparr>as_periodic := p\<rparr>\<rparr>
           in drive next_change_time s)
      else Inr (restore_bg_color s))"

abbreviation led_fuel :: nat where "led_fuel \<equiv> 2"

definition led_set_callback :: "led_sys \<Rightarrow> led_sys outcome" where
  "led_set_callback s =
     obind (scheduler_set_callback True (ls_sched s) CHANGE_LED_STATE SCENE_BLINK_SEPARATION_MS 0
              SCENE_BLINK_SEPARATION_MS)
       (\<lambda>(sch, ev). case ev of
          [] \<Rightarrow> Inr (s\<lparr>ls_sched := sch\<rparr>)
        | Invoked cb p ctx # _ \<Rightarrow> change_led_state led_fuel p (s\<lparr>ls_sched := sch\<rparr>))"

definition led_cancel_callback :: "led_sys \<Rightarrow> led_sys outcome" where
  "led_cancel_callback s =
     obind (scheduler_cancel_callback True (ls_sched s) CHANGE_LED_STATE) (\<lambda>sch. Inr (s\<lparr>ls_sched := sch\<rparr>))"

definition on_blink_once :: "scene_t \<Rightarrow> led_sys \<Rightarrow> led_sys outcome" where
  "on_blink_once scene s =
     c_assert (0 < t_on (sc_blink scene) \<and> 0 < t_off (sc_blink scene) \<and> 0 < b_repeats (sc_blink scene))
    (c_assert (sc_color scene \<noteq> RGB_LEDS_OFF)
      (obind (led_cancel_callback s) (\<lambda>s.
         let a = ls_scenes s;
             o' = (as_once a)\<lparr>as_scene := scene, remaining_toggles := 2 * ucast (b_repeats (sc_blink scene))\<rparr>
         in led_set_callback (rgb_off (s\<lparr>ls_scenes := a\<lparr>as_once := o', rq_led_on := True\<rparr>\<rparr>)))))"

definition on_blink_periodic :: "scene_t \<Rightarrow> led_sys \<Rightarrow> led_sys outcome" where
  "on_blink_periodic scene s =
     c_assert (0 < t_on (sc_blink scene) \<and> 0 < t_off (sc_blink scene) \<and> 0 < b_repeats (sc_blink scene))
    (c_assert ((ucast (b_repeats (sc_blink scene)) :: u32) *
               (ucast (t_on (sc_blink scene)) + ucast (t_off (sc_blink scene))) < ucast (b_period (sc_blink scene)))
    (c_assert (sc_color scene \<noteq> RGB_LEDS_OFF)
      (obind (led_cancel_callback s) (\<lambda>s.
         let a = ls_scenes s;
             p = (as_periodic a)\<lparr>remaining_toggles := 2 * ucast (b_repeats (sc_blink scene)),
                    remaining_time := SCENE_BLINK_SEPARATION_MS, as_scene := scene\<rparr>
         in led_set_callback (rgb_off (s\<lparr>ls_scenes := a\<lparr>as_periodic := p, rq_led_on := True\<rparr>\<rparr>))))))"

definition clear_toggles_once :: "active_scenes_t \<Rightarrow> active_scenes_t" where
  "clear_toggles_once a = a\<lparr>as_once := (as_once a)\<lparr>remaining_toggles := 0\<rparr>\<rparr>"

definition clear_toggles_periodic :: "active_scenes_t \<Rightarrow> active_scenes_t" where
  "clear_toggles_periodic a = a\<lparr>as_periodic := (as_periodic a)\<lparr>remaining_toggles := 0\<rparr>\<rparr>"

definition clear_period :: "active_scenes_t \<Rightarrow> active_scenes_t" where
  "clear_period a =
     (let p = as_periodic a; sc = as_scene p in
      a\<lparr>as_periodic := p\<lparr>as_scene := sc\<lparr>sc_blink := (sc_blink sc)\<lparr>b_period := 0\<rparr>\<rparr>\<rparr>\<rparr>)"

definition scene_change_handler :: "scene_t \<Rightarrow> led_sys \<Rightarrow> led_sys outcome" where
  "scene_change_handler scene s =
     (let a = ls_scenes s; ty = sc_type scene in
      if ty = SCENE_CONST_BG then
        (let a' = a\<lparr>bg_color := sc_color scene, bg_brightness := ucast (sc_brightness scene)\<rparr>;
             s' = s\<lparr>ls_scenes := a'\<rparr>
         in if remaining_toggles (as_periodic a') = 0 \<and> remaining_toggles (as_once a') = 0
            then Inr (restore_bg_color s') else Inr s')
      else if ty = SCENE_BLINK_ONCE then on_blink_once scene s
      else if ty = SCENE_BLINK_PERIODIC then on_blink_periodic scene s
      else if ty = SCENE_CLEAR_ONCE then Inr (restore_bg_color (s\<lparr>ls_scenes := clear_toggles_once a\<rparr>))
      else if ty = SCENE_CLEAR_PERIODIC then
        Inr (restore_bg_color (s\<lparr>ls_scenes := clear_toggles_periodic (clear_period a)\<rparr>))
      else if ty = SCENE_CLEAR_ALL then
        Inr (restore_bg_color (s\<lparr>ls_scenes := clear_toggles_once (clear_toggles_periodic (clear_period a))\<rparr>))
      else if ty = SCENE_OFF then
        obind (led_cancel_callback s) (\<lambda>s.
          let a = ls_scenes s;
              a' = clear_toggles_once (clear_toggles_periodic (a\<lparr>bg_color := RGB_LEDS_OFF, bg_brightness := 0\<rparr>))
          in Inr (rgb_off (s\<lparr>ls_scenes := a'\<rparr>)))
      else Inr s)"

definition led_scene_trigger :: "scene_t \<Rightarrow> led_sys \<Rightarrow> led_sys outcome" where
  "led_scene_trigger scene s = scene_change_handler scene s"

primrec event_loop :: "scenes_list_t list \<Rightarrow> string \<Rightarrow> i32 \<Rightarrow> led_sys \<Rightarrow> led_sys outcome" where
  "event_loop [] base eid s = Inr s"
| "event_loop (x # xs) base eid s =
     (if event_base x = base \<and> event_id x = eid
      then obind (scene_change_handler (sl_scene x) s) (event_loop xs base eid)
      else event_loop xs base eid s)"

definition event_handler :: "string \<Rightarrow> i32 \<Rightarrow> led_sys \<Rightarrow> led_sys outcome" where
  "event_handler base eid s = event_loop (ls_list s) base eid s"

text \<open>\<open>registered\<close>: the result of registering the handler, which is checked.\<close>

definition led_scene_init ::
  "int \<Rightarrow> int \<Rightarrow> int \<Rightarrow> int \<Rightarrow> int \<Rightarrow> scenes_list_t list \<Rightarrow> led_sys \<Rightarrow> (led_sys \<times> int) outcome" where
  "led_scene_init reset direction device cleared registered list s =
     (case led_init reset direction device cleared s of (s, ret) \<Rightarrow>
        if ret = 0 then c_assert (registered = ESP_OK) (Inr (s\<lparr>ls_list := list\<rparr>, ret))
        else Inr (s, ret))"

text \<open>The expiry of the timer: the scheduler runs \<open>change_led_state\<close> with its parameter.\<close>

definition led_tick :: "led_sys \<Rightarrow> led_sys outcome" where
  "led_tick s =
     obind (sched_fire (ls_sched s) CHANGE_LED_STATE) (\<lambda>(sch, ev). case ev of
       [] \<Rightarrow> Inr s
     | Invoked cb p ctx # _ \<Rightarrow> change_led_state led_fuel p (s\<lparr>ls_sched := sch\<rparr>))"

primrec led_ticks :: "nat \<Rightarrow> led_sys \<Rightarrow> led_sys outcome" where
  "led_ticks 0 s = Inr s"
| "led_ticks (Suc n) s = obind (led_tick s) (led_ticks n)"



subsection \<open>One step of the LED\<close>

definition led_aged :: "u32 \<Rightarrow> active_scenes_t \<Rightarrow> active_scenes_t" where
  "led_aged param a =
     (if 0 < sint (remaining_time (as_periodic a))
      then a\<lparr>as_periodic := (as_periodic a)\<lparr>remaining_time := remaining_time (as_periodic a) - param\<rparr>\<rparr>
      else a)"

definition led_shown :: "scene_t \<Rightarrow> bool \<Rightarrow> led_sys \<Rightarrow> led_sys" where
  "led_shown sc on s =
     (let s = fst (set_brightness (sc_brightness sc) (set_color (sc_color sc) s))
      in if on then rgb_on s else rgb_off s)"

definition led_phase :: "scene_t \<Rightarrow> bool \<Rightarrow> u32" where
  "led_phase sc on = (if on then ucast (t_on (sc_blink sc)) else ucast (t_off (sc_blink sc)))"

definition led_periodic_next :: "active_scene_t \<Rightarrow> bool \<Rightarrow> active_scene_t" where
  "led_periodic_next p on =
     (if remaining_toggles p = 1
      then p\<lparr>remaining_time := ucast (b_period (sc_blink (as_scene p))) + led_phase (as_scene p) on,
             remaining_toggles := 2 * ucast (b_repeats (sc_blink (as_scene p)))\<rparr>
      else p\<lparr>remaining_toggles := remaining_toggles p - 1\<rparr>)"

lemma led_fields [simp]:
  "ls_scenes (led_emit ev s) = ls_scenes s" "ls_sched (led_emit ev s) = ls_sched s"
  "ls_list (led_emit ev s) = ls_list s" "ls_out (led_emit ev s) = ls_out s @ ev"
  "ls_scenes (rgb_on s) = ls_scenes s" "ls_sched (rgb_on s) = ls_sched s" "ls_list (rgb_on s) = ls_list s"
  "ls_scenes (rgb_off s) = ls_scenes s" "ls_sched (rgb_off s) = ls_sched s" "ls_list (rgb_off s) = ls_list s"
  "ls_scenes (set_color c s) = ls_scenes s" "ls_sched (set_color c s) = ls_sched s"
  "ls_list (set_color c s) = ls_list s"
  "ls_scenes (fst (set_brightness b s)) = ls_scenes s" "ls_sched (fst (set_brightness b s)) = ls_sched s"
  "ls_list (fst (set_brightness b s)) = ls_list s"
  "ls_scenes (led_shown sc on s) = ls_scenes s" "ls_sched (led_shown sc on s) = ls_sched s"
  "ls_list (led_shown sc on s) = ls_list s"
  "ls_scenes (restore_bg_color s) = ls_scenes s" "ls_sched (restore_bg_color s) = ls_sched s"
  "ls_list (restore_bg_color s) = ls_list s"
  by (simp_all add: led_emit_def rgb_on_def rgb_off_def set_color_def set_brightness_def led_shown_def
      restore_bg_color_def Let_def)

lemma led_phase_small [simp]: "led_phase sc on \<noteq> LED_UINT32_MAX"
proof -
  have "\<not> bit (led_phase sc on) 31"
    by (auto simp: led_phase_def bit_simps dest: bit_imp_le_length)
  moreover have "bit LED_UINT32_MAX 31" by simp
  ultimately show ?thesis by metis
qed

lemma change_idle:
  assumes "remaining_toggles (as_once (ls_scenes s)) = 0" "remaining_toggles (as_periodic (ls_scenes s)) = 0"
  shows "change_led_state (Suc k) param s = Inr (restore_bg_color (s\<lparr>ls_scenes := led_aged param (ls_scenes s)\<rparr>))"
  using assms by (simp add: led_aged_def Let_def)

lemma led_swap:
  "rgb_on (s\<lparr>ls_scenes := a\<rparr>) = (rgb_on s)\<lparr>ls_scenes := a\<rparr>"
  "rgb_off (s\<lparr>ls_scenes := a\<rparr>) = (rgb_off s)\<lparr>ls_scenes := a\<rparr>"
  "set_color c (s\<lparr>ls_scenes := a\<rparr>) = (set_color c s)\<lparr>ls_scenes := a\<rparr>"
  "fst (set_brightness b (s\<lparr>ls_scenes := a\<rparr>)) = (fst (set_brightness b s))\<lparr>ls_scenes := a\<rparr>"
  by (simp_all add: led_emit_def rgb_on_def rgb_off_def set_color_def set_brightness_def Let_def)

lemma change_once:
  fixes s param
  defines "a \<equiv> led_aged param (ls_scenes s)"
  assumes "remaining_toggles (as_once (ls_scenes s)) \<noteq> 0"
    and "scheduler_set_callback True (ls_sched s) CHANGE_LED_STATE
      (led_phase (as_scene (as_once a)) (rq_led_on a)) 0 (led_phase (as_scene (as_once a)) (rq_led_on a)) = Inr (sch, [])"
  shows "change_led_state (Suc k) param s =
    Inr ((led_shown (as_scene (as_once a)) (rq_led_on a) s)
      \<lparr>ls_scenes := a\<lparr>as_once := (as_once a)\<lparr>remaining_toggles := remaining_toggles (as_once a) - 1\<rparr>,
                        rq_led_on := \<not> rq_led_on a\<rparr>, ls_sched := sch\<rparr>)"
proof -
  have o': "as_once (led_aged param (ls_scenes s)) = as_once (ls_scenes s)"
    "rq_led_on (led_aged param (ls_scenes s)) = rq_led_on (ls_scenes s)"
    by (simp_all add: led_aged_def)
  have "0 < remaining_toggles (as_once a)" using assms(2) o' by (simp add: a_def word_gt_0)
  then show ?thesis
    using assms(3) led_phase_small [of "as_scene (as_once a)" "rq_led_on a"]
    unfolding change_led_state.simps Let_def led_aged_def [symmetric] a_def [symmetric] led_phase_def
    by (cases "rq_led_on a") (simp_all add: led_shown_def led_swap)
qed


lemma change_wait:
  fixes s param
  defines "a \<equiv> led_aged param (ls_scenes s)"
  assumes "remaining_toggles (as_once (ls_scenes s)) = 0" "remaining_toggles (as_periodic (ls_scenes s)) \<noteq> 0"
    and "0 < sint (remaining_time (as_periodic a))"
    and "scheduler_set_callback True (ls_sched s) CHANGE_LED_STATE (remaining_time (as_periodic a)) 0
      (remaining_time (as_periodic a)) = Inr (sch, [])"
  shows "change_led_state (Suc k) param s = Inr (s\<lparr>ls_scenes := a, ls_sched := sch\<rparr>)"
proof -
  have "remaining_toggles (as_once a) = 0" "0 < remaining_toggles (as_periodic a)"
    using assms(2,3) by (simp_all add: a_def led_aged_def word_gt_0)
  then show ?thesis
    using assms(4,5)
    unfolding change_led_state.simps Let_def led_aged_def [symmetric] a_def [symmetric] by simp
qed

lemma change_periodic:
  fixes s param
  defines "a \<equiv> led_aged param (ls_scenes s)"
  defines "p \<equiv> as_periodic a"
  assumes "remaining_toggles (as_once (ls_scenes s)) = 0" "remaining_toggles (as_periodic (ls_scenes s)) \<noteq> 0"
    and "\<not> 0 < sint (remaining_time p)"
    and "scheduler_set_callback True (ls_sched s) CHANGE_LED_STATE
      (led_phase (as_scene p) (rq_led_on a)) 0 (led_phase (as_scene p) (rq_led_on a)) = Inr (sch, [])"
  shows "change_led_state (Suc k) param s =
    Inr ((led_shown (as_scene p) (rq_led_on a) s)
      \<lparr>ls_scenes := a\<lparr>as_periodic := led_periodic_next p (rq_led_on a), rq_led_on := \<not> rq_led_on a\<rparr>,
       ls_sched := sch\<rparr>)"
proof -
  have t: "remaining_toggles (as_once a) = 0" "0 < remaining_toggles p"
    using assms(3,4) by (simp_all add: a_def p_def led_aged_def word_gt_0)
  show ?thesis
    using t assms(5,6) led_phase_small [of "as_scene p" "rq_led_on a"]
    unfolding change_led_state.simps Let_def led_aged_def [symmetric] a_def [symmetric] p_def led_phase_def
    by (cases "rq_led_on a"; cases "remaining_toggles p = 1")
      (simp_all add: led_shown_def led_swap led_periodic_next_def led_phase_def p_def)
qed

declare change_led_state.simps(2) [simp del]

subsection \<open>Invariant\<close>

definition scene_ok :: "scene_t \<Rightarrow> bool" where
  "scene_ok scene \<longleftrightarrow>
     (sc_type scene = SCENE_BLINK_ONCE \<or> sc_type scene = SCENE_BLINK_PERIODIC \<longrightarrow>
       0 < t_on (sc_blink scene) \<and> 0 < t_off (sc_blink scene) \<and> 0 < b_repeats (sc_blink scene) \<and>
       sc_color scene \<noteq> RGB_LEDS_OFF) \<and>
     (sc_type scene = SCENE_BLINK_PERIODIC \<longrightarrow>
       (ucast (b_repeats (sc_blink scene)) :: u32) *
         (ucast (t_on (sc_blink scene)) + ucast (t_off (sc_blink scene))) < ucast (b_period (sc_blink scene)))"

definition blinkable :: "active_scene_t \<Rightarrow> bool" where
  "blinkable x \<longleftrightarrow> t_on (sc_blink (as_scene x)) \<noteq> 0 \<and> t_off (sc_blink (as_scene x)) \<noteq> 0 \<and>
     b_repeats (sc_blink (as_scene x)) \<noteq> 0"

definition led_busy :: "active_scenes_t \<Rightarrow> bool" where
  "led_busy a \<longleftrightarrow> remaining_toggles (as_once a) \<noteq> 0 \<or> remaining_toggles (as_periodic a) \<noteq> 0"

text \<open>The scheduler has room for the LED, blinking scenes have times and repeats, and while a scene is
  active its timer runs.\<close>

definition scene_inv :: "led_sys \<Rightarrow> bool" where
  "scene_inv s \<longleftrightarrow> sched_inv (ls_sched s) \<and>
     card (insert CHANGE_LED_STATE (dom (pending (ls_sched s)))) \<le> SCHEDULER_MAX_ENTRIES \<and>
     (remaining_toggles (as_once (ls_scenes s)) \<noteq> 0 \<longrightarrow> blinkable (as_once (ls_scenes s))) \<and>
     (remaining_toggles (as_periodic (ls_scenes s)) \<noteq> 0 \<longrightarrow> blinkable (as_periodic (ls_scenes s))) \<and>
     (led_busy (ls_scenes s) \<longrightarrow> pending (ls_sched s) CHANGE_LED_STATE \<noteq> None)"

lemma finite_pending: "sched_inv s \<Longrightarrow> finite (dom (pending s))"
  by (simp add: dom_pending)

lemma sched_room:
  assumes "sched_inv s" "card (insert cb (dom (pending s))) \<le> SCHEDULER_MAX_ENTRIES"
  shows "pending s cb \<noteq> None \<or> card (dom (pending s)) < SCHEDULER_MAX_ENTRIES"
proof (cases "cb \<in> dom (pending s)")
  case False
  with assms finite_pending [OF assms(1)] show ?thesis by (simp add: card_insert_if)
qed auto

lemma sched_set_law:
  assumes "sched_inv s" "card (insert cb (dom (pending s))) \<le> SCHEDULER_MAX_ENTRIES" "cb \<noteq> 0" "d \<noteq> 0"
    "unat d \<le> 42949672"
  obtains s' where "scheduler_set_callback True s cb p c d = Inr (s', [])" "sched_inv s'"
    "pending s' = (pending s)(cb \<mapsto> (p, c, Some (sched_ticks d)))"
    "card (insert cb (dom (pending s'))) \<le> SCHEDULER_MAX_ENTRIES"
  using set_callback_ok [OF assms(1,3,4) sched_ticks_nonzero [OF assms(5)] sched_room [OF assms(1,2)], of p c] assms(2) by auto

lemma led_arm:
  assumes "sched_inv s" "card (insert CHANGE_LED_STATE (dom (pending s))) \<le> SCHEDULER_MAX_ENTRIES" "d \<noteq> 0"
    "unat d \<le> 42949672"
  shows "\<exists>s'. scheduler_set_callback True s CHANGE_LED_STATE p 0 d = Inr (s', []) \<and> sched_inv s' \<and>
    card (insert CHANGE_LED_STATE (dom (pending s'))) \<le> SCHEDULER_MAX_ENTRIES \<and>
    pending s' = (pending s)(CHANGE_LED_STATE \<mapsto> (p, 0, Some (sched_ticks d)))"
  by (rule sched_set_law [OF assms(1,2) _ assms(3,4), where p = p and c = 0]) auto

lemma unat_ucast_u16 [simp]: "unat (ucast (x :: u16) :: u32) = unat x"
  by (rule unat_ucast_up) simp

lemma ucast_u16_eq_0 [simp]: "(ucast (x :: u16) :: u32) = 0 \<longleftrightarrow> x = 0"
  by (metis unat_ucast_u16 unat_eq_0)

lemma blinkable_phase: "blinkable x \<Longrightarrow> led_phase (as_scene x) on \<noteq> 0"
  by (auto simp: blinkable_def led_phase_def)

lemma led_phase_bound: "unat (led_phase sc on) \<le> 65535"
  using unsigned_less [of "t_on (sc_blink sc)", where 'a = nat] unsigned_less [of "t_off (sc_blink sc)", where 'a = nat]
  by (simp add: led_phase_def)

lemma led_phase_short: "unat (led_phase sc on) \<le> 42949672" "uint (led_phase sc on) \<le> 65535"
proof -
  show "unat (led_phase sc on) \<le> 42949672" using led_phase_bound [of sc on] by simp
  have "uint (led_phase sc on) = int (unat (led_phase sc on))" by simp
  then show "uint (led_phase sc on) \<le> 65535" using led_phase_bound [of sc on] by linarith
qed

text \<open>The times of the LED stay far below the range of the ticks: a remaining time is at most a period and a phase, and so is
  the parameter of the pending timer.\<close>

abbreviation LED_TIME_MAX :: int where "LED_TIME_MAX \<equiv> 131070"

definition led_small :: "led_sys \<Rightarrow> bool" where
  "led_small s \<longleftrightarrow> sint (remaining_time (as_periodic (ls_scenes s))) \<le> LED_TIME_MAX \<and>
     (\<forall>p c t. pending (ls_sched s) CHANGE_LED_STATE = Some (p, c, t) \<longrightarrow> uint p \<le> LED_TIME_MAX)"

lemma sint_small: "uint (x :: u32) \<le> LED_TIME_MAX \<Longrightarrow> sint x = uint x"
proof -
  assume "uint x \<le> LED_TIME_MAX"
  moreover have "0 \<le> uint x" "(2 :: int) ^ 31 = 2147483648" by simp_all
  ultimately have "signed_take_bit 31 (uint x) = uint x" by (intro signed_take_bit_int_eq_self) linarith+
  then show "sint x = uint x" by (simp add: sint_uint)
qed

lemma uint_sint_pos: "0 < sint (x :: u32) \<Longrightarrow> uint x = sint x"
proof -
  assume "0 < sint x"
  moreover have "take_bit 32 (uint x) = uint x" by (simp add: bintr_uint)
  moreover have "uint x < 2 ^ 32" using uint_lt2p [of x] by simp
  ultimately show ?thesis by (auto simp: sint_uint signed_take_bit_eq_take_bit_minus of_bool_def split: if_splits)
qed

lemma led_aged_time:
  assumes "sint (remaining_time (as_periodic a)) \<le> LED_TIME_MAX" "uint param \<le> LED_TIME_MAX"
  shows "sint (remaining_time (as_periodic (led_aged param a))) \<le> LED_TIME_MAX"
proof (cases "0 < sint (remaining_time (as_periodic a))")
  case True
  have p: "0 \<le> uint param" and two31: "(2 :: int) ^ 31 = 2147483648" by simp_all
  have "signed_take_bit 31 (sint (remaining_time (as_periodic a)) - uint param) =
      sint (remaining_time (as_periodic a)) - uint param"
    by (intro signed_take_bit_int_eq_self) (use True assms p two31 in linarith)+
  then have "sint (remaining_time (as_periodic a) - param) = sint (remaining_time (as_periodic a)) - uint param"
    using sint_small [OF assms(2)] by (simp add: sint_word_ariths)
  with assms(1) p have "sint (remaining_time (as_periodic a) - param) \<le> LED_TIME_MAX" by linarith
  with True show ?thesis by (simp add: led_aged_def)
qed (use assms in \<open>simp add: led_aged_def\<close>)

lemma periodic_next_time:
  assumes "sint (remaining_time p) \<le> LED_TIME_MAX"
  shows "sint (remaining_time (led_periodic_next p on)) \<le> LED_TIME_MAX"
proof -
  let ?t = "(ucast (b_period (sc_blink (as_scene p))) :: u32) + led_phase (as_scene p) on"
  have "uint (ucast (b_period (sc_blink (as_scene p))) :: u32) = uint (b_period (sc_blink (as_scene p)))"
    by (metis unat_ucast_u16 uint_nat)
  then have "uint ?t \<le> LED_TIME_MAX"
    using uint_lt2p [of "b_period (sc_blink (as_scene p))"] led_phase_short(2) [of "as_scene p" on]
    by (simp add: uint_word_ariths)
  from sint_small [OF this] this assms show ?thesis by (simp add: led_periodic_next_def)
qed

lemma led_aged_fields [simp]:
  "as_once (led_aged p a) = as_once a" "rq_led_on (led_aged p a) = rq_led_on a"
  "bg_color (led_aged p a) = bg_color a" "bg_brightness (led_aged p a) = bg_brightness a"
  "remaining_toggles (as_periodic (led_aged p a)) = remaining_toggles (as_periodic a)"
  "as_scene (as_periodic (led_aged p a)) = as_scene (as_periodic a)"
  by (simp_all add: led_aged_def)

text \<open>\<open>change_led_state\<close> in every state whose scheduler has room returns, without the recursion.\<close>

lemma change_led_state_ok:
  assumes "sched_inv (ls_sched s)"
    "card (insert CHANGE_LED_STATE (dom (pending (ls_sched s)))) \<le> SCHEDULER_MAX_ENTRIES"
    "remaining_toggles (as_once (ls_scenes s)) \<noteq> 0 \<longrightarrow> blinkable (as_once (ls_scenes s))"
    "remaining_toggles (as_periodic (ls_scenes s)) \<noteq> 0 \<longrightarrow> blinkable (as_periodic (ls_scenes s))"
    "led_small s" "uint param \<le> LED_TIME_MAX"
  shows "\<exists>s'. change_led_state (Suc k) param s = Inr s' \<and> scene_inv s' \<and> led_small s'"
proof -
  let ?a = "led_aged param (ls_scenes s)"
  let ?p = "as_periodic ?a"
  have aged: "sint (remaining_time ?p) \<le> LED_TIME_MAX" using led_aged_time assms(5,6) by (simp add: led_small_def)
  consider (once) "remaining_toggles (as_once (ls_scenes s)) \<noteq> 0"
    | (wait) "remaining_toggles (as_once (ls_scenes s)) = 0" "remaining_toggles (as_periodic (ls_scenes s)) \<noteq> 0"
        "0 < sint (remaining_time ?p)"
    | (per) "remaining_toggles (as_once (ls_scenes s)) = 0" "remaining_toggles (as_periodic (ls_scenes s)) \<noteq> 0"
        "\<not> 0 < sint (remaining_time ?p)"
    | (idle) "remaining_toggles (as_once (ls_scenes s)) = 0" "remaining_toggles (as_periodic (ls_scenes s)) = 0"
    by blast
  then show ?thesis
  proof cases
    case once
    then have n: "led_phase (as_scene (as_once ?a)) (rq_led_on ?a) \<noteq> 0"
      using assms(3) blinkable_phase by simp
    from led_arm [OF assms(1,2) n led_phase_short(1), of "led_phase (as_scene (as_once ?a)) (rq_led_on ?a)"] obtain sch where
      sch: "scheduler_set_callback True (ls_sched s) CHANGE_LED_STATE (led_phase (as_scene (as_once ?a)) (rq_led_on ?a)) 0
         (led_phase (as_scene (as_once ?a)) (rq_led_on ?a)) = Inr (sch, [])" "sched_inv sch"
      "card (insert CHANGE_LED_STATE (dom (pending sch))) \<le> SCHEDULER_MAX_ENTRIES"
      "pending sch CHANGE_LED_STATE = Some (led_phase (as_scene (as_once ?a)) (rq_led_on ?a), 0, Some (sched_ticks (led_phase (as_scene (as_once ?a)) (rq_led_on ?a))))" by (elim exE conjE) (rule that, assumption+, simp_all)
    from once change_once [OF once sch(1), of k] sch(2-4) assms(3,4) aged order_trans [OF led_phase_short(2)] show ?thesis
      by (auto simp: scene_inv_def blinkable_def led_small_def)
  next
    case wait
    then have n: "remaining_time ?p \<noteq> 0" by auto
    have w: "uint (remaining_time ?p) \<le> LED_TIME_MAX" using uint_sint_pos [OF wait(3)] aged by simp
    have "uint (remaining_time ?p) = int (unat (remaining_time ?p))" by simp
    with w have w2: "unat (remaining_time ?p) \<le> 42949672" by linarith
    from led_arm [OF assms(1,2) n w2, of "remaining_time ?p"] obtain sch where
      sch: "scheduler_set_callback True (ls_sched s) CHANGE_LED_STATE (remaining_time ?p) 0
         (remaining_time ?p) = Inr (sch, [])" "sched_inv sch"
      "card (insert CHANGE_LED_STATE (dom (pending sch))) \<le> SCHEDULER_MAX_ENTRIES"
      "pending sch CHANGE_LED_STATE = Some (remaining_time ?p, 0, Some (sched_ticks (remaining_time ?p)))" by (elim exE conjE) (rule that, assumption+, simp_all)
    from change_wait [OF wait sch(1), of k] sch(2-4) wait assms(4) aged w show ?thesis
      by (auto simp: scene_inv_def blinkable_def led_small_def)
  next
    case per
    then have n: "led_phase (as_scene ?p) (rq_led_on ?a) \<noteq> 0"
      using assms(4) blinkable_phase by simp
    from led_arm [OF assms(1,2) n led_phase_short(1), of "led_phase (as_scene ?p) (rq_led_on ?a)"] obtain sch where
      sch: "scheduler_set_callback True (ls_sched s) CHANGE_LED_STATE (led_phase (as_scene ?p) (rq_led_on ?a)) 0
         (led_phase (as_scene ?p) (rq_led_on ?a)) = Inr (sch, [])" "sched_inv sch"
      "card (insert CHANGE_LED_STATE (dom (pending sch))) \<le> SCHEDULER_MAX_ENTRIES"
      "pending sch CHANGE_LED_STATE = Some (led_phase (as_scene ?p) (rq_led_on ?a), 0, Some (sched_ticks (led_phase (as_scene ?p) (rq_led_on ?a))))" by (elim exE conjE) (rule that, assumption+, simp_all)
    from change_periodic [OF per sch(1), of k] sch(2-4) per assms(4) periodic_next_time [OF aged] order_trans [OF led_phase_short(2)] show ?thesis
      by (auto simp: scene_inv_def blinkable_def led_small_def led_periodic_next_def)
  next
    case idle
    with change_idle [OF idle, of k param] assms aged show ?thesis
      by (auto simp: scene_inv_def led_busy_def led_small_def)
  qed
qed


subsection \<open>Handlers\<close>

lemma led_cancel_ok:
  assumes "sched_inv (ls_sched s)"
  obtains sch where "led_cancel_callback s = Inr (s\<lparr>ls_sched := sch\<rparr>)" "sched_inv sch"
    "pending sch = (pending (ls_sched s))(CHANGE_LED_STATE := None)"
    "insert CHANGE_LED_STATE (dom (pending sch)) = insert CHANGE_LED_STATE (dom (pending (ls_sched s)))"
proof -
  from cancel_ok [OF assms, of CHANGE_LED_STATE] obtain sch where
    "scheduler_cancel_callback True (ls_sched s) CHANGE_LED_STATE = Inr sch" "sched_inv sch"
    "pending sch = (pending (ls_sched s))(CHANGE_LED_STATE := None)" by blast
  then show thesis by (intro that [of sch]) (simp_all add: led_cancel_callback_def)
qed

text \<open>What a blink scene does to the scenes: \<open>a'\<close> is the state with the new scene.\<close>

lemma blink_start:
  assumes "scene_inv s"
  shows "\<exists>sch sch'. led_cancel_callback s = Inr (s\<lparr>ls_sched := sch\<rparr>) \<and>
    (\<forall>a. led_set_callback (rgb_off (s\<lparr>ls_sched := sch, ls_scenes := a\<rparr>)) =
        Inr (rgb_off (s\<lparr>ls_sched := sch', ls_scenes := a\<rparr>))) \<and>
    sched_inv sch' \<and> card (insert CHANGE_LED_STATE (dom (pending sch'))) \<le> SCHEDULER_MAX_ENTRIES \<and>
    pending sch' = (pending (ls_sched s))(CHANGE_LED_STATE \<mapsto> (200, 0, Some 20))"
proof -
  have i: "sched_inv (ls_sched s)"
    "card (insert CHANGE_LED_STATE (dom (pending (ls_sched s)))) \<le> SCHEDULER_MAX_ENTRIES"
    using assms by (simp_all add: scene_inv_def)
  from led_cancel_ok [OF i(1)] obtain sch where
    c: "led_cancel_callback s = Inr (s\<lparr>ls_sched := sch\<rparr>)" "sched_inv sch"
      "pending sch = (pending (ls_sched s))(CHANGE_LED_STATE := None)"
      "insert CHANGE_LED_STATE (dom (pending sch)) = insert CHANGE_LED_STATE (dom (pending (ls_sched s)))" .
  have r: "card (insert CHANGE_LED_STATE (dom (pending sch))) \<le> SCHEDULER_MAX_ENTRIES"
    using c(4) i(2) by simp
  from led_arm [OF c(2) r, of SCENE_BLINK_SEPARATION_MS 200] obtain sch' where
    s: "scheduler_set_callback True sch CHANGE_LED_STATE 200 0 SCENE_BLINK_SEPARATION_MS = Inr (sch', [])"
    "sched_inv sch'" "card (insert CHANGE_LED_STATE (dom (pending sch'))) \<le> SCHEDULER_MAX_ENTRIES"
    "pending sch' = (pending sch)(CHANGE_LED_STATE \<mapsto> (200, 0, Some 20))" by (auto simp: sched_ticks_def sched_delay_def pdMS_TO_TICKS_def)
  have "led_set_callback (rgb_off (s\<lparr>ls_sched := sch, ls_scenes := a\<rparr>)) =
      Inr (rgb_off (s\<lparr>ls_sched := sch', ls_scenes := a\<rparr>))" for a
    using s(1) by (simp add: led_set_callback_def rgb_off_def led_emit_def)
  with c s show ?thesis by (intro exI [of _ sch] exI [of _ sch']) simp
qed

lemma on_blink_once_ok:
  assumes "scene_inv s" "sc_type sc = SCENE_BLINK_ONCE" "scene_ok sc"
  shows "\<exists>sch. on_blink_once sc s =
      Inr (rgb_off (s\<lparr>ls_sched := sch, ls_scenes := (ls_scenes s)
        \<lparr>as_once := (as_once (ls_scenes s))\<lparr>as_scene := sc, remaining_toggles := 2 * ucast (b_repeats (sc_blink sc))\<rparr>,
         rq_led_on := True\<rparr>\<rparr>)) \<and>
    sched_inv sch \<and> card (insert CHANGE_LED_STATE (dom (pending sch))) \<le> SCHEDULER_MAX_ENTRIES \<and>
    pending sch = (pending (ls_sched s))(CHANGE_LED_STATE \<mapsto> (200, 0, Some 20))"
  using blink_start [OF assms(1)] assms(2,3) by (auto simp: on_blink_once_def scene_ok_def Let_def)

lemma on_blink_periodic_ok:
  assumes "scene_inv s" "sc_type sc = SCENE_BLINK_PERIODIC" "scene_ok sc"
  shows "\<exists>sch. on_blink_periodic sc s =
      Inr (rgb_off (s\<lparr>ls_sched := sch, ls_scenes := (ls_scenes s)
        \<lparr>as_periodic := (as_periodic (ls_scenes s))\<lparr>remaining_toggles := 2 * ucast (b_repeats (sc_blink sc)),
           remaining_time := 200, as_scene := sc\<rparr>, rq_led_on := True\<rparr>\<rparr>)) \<and>
    sched_inv sch \<and> card (insert CHANGE_LED_STATE (dom (pending sch))) \<le> SCHEDULER_MAX_ENTRIES \<and>
    pending sch = (pending (ls_sched s))(CHANGE_LED_STATE \<mapsto> (200, 0, Some 20))"
  using blink_start [OF assms(1)] assms(2,3) by (auto simp: on_blink_periodic_def scene_ok_def Let_def)

lemma trigger_law:
  assumes "scene_inv s"
  shows "case led_scene_trigger sc s of Inl f \<Rightarrow> \<not> scene_ok sc \<and> f = Abort
    | Inr s' \<Rightarrow> scene_ok sc \<and> scene_inv s'"
proof -
  consider (once) "sc_type sc = SCENE_BLINK_ONCE" | (per) "sc_type sc = SCENE_BLINK_PERIODIC"
    | (off) "sc_type sc = SCENE_OFF"
    | (other) "sc_type sc \<noteq> SCENE_BLINK_ONCE" "sc_type sc \<noteq> SCENE_BLINK_PERIODIC" "sc_type sc \<noteq> SCENE_OFF"
    by blast
  then show ?thesis
  proof cases
    case once
    then have t: "led_scene_trigger sc s = on_blink_once sc s"
      by (simp add: led_scene_trigger_def scene_change_handler_def Let_def)
    show ?thesis
    proof (cases "scene_ok sc")
      case True
      from on_blink_once_ok [OF assms once True] once True assms t show ?thesis
        by (auto simp: scene_inv_def blinkable_def scene_ok_def)
    next
      case False
      with once have "on_blink_once sc s = Inl Abort"
        by (auto simp: on_blink_once_def scene_ok_def c_assert_def)
      with False t show ?thesis by simp
    qed
  next
    case per
    then have t: "led_scene_trigger sc s = on_blink_periodic sc s"
      by (simp add: led_scene_trigger_def scene_change_handler_def Let_def)
    show ?thesis
    proof (cases "scene_ok sc")
      case True
      from on_blink_periodic_ok [OF assms per True] per True assms t show ?thesis
        by (auto simp: scene_inv_def blinkable_def scene_ok_def)
    next
      case False
      with per have "on_blink_periodic sc s = Inl Abort"
        by (auto simp: on_blink_periodic_def scene_ok_def c_assert_def)
      with False t show ?thesis by simp
    qed
  next
    case off
    have i: "sched_inv (ls_sched s)" using assms by (simp add: scene_inv_def)
    from led_cancel_ok [OF i] obtain sch where
      c: "led_cancel_callback s = Inr (s\<lparr>ls_sched := sch\<rparr>)" "sched_inv sch"
      "insert CHANGE_LED_STATE (dom (pending sch)) = insert CHANGE_LED_STATE (dom (pending (ls_sched s)))" .
    have "card (insert CHANGE_LED_STATE (dom (pending sch))) \<le> SCHEDULER_MAX_ENTRIES"
      using c(3) assms by (simp add: scene_inv_def)
    with off c(1,2) show ?thesis
      by (simp add: led_scene_trigger_def scene_change_handler_def Let_def scene_inv_def scene_ok_def led_busy_def
          clear_toggles_once_def clear_toggles_periodic_def)
  next
    case other
    with assms show ?thesis
      by (auto simp: led_scene_trigger_def scene_change_handler_def Let_def scene_inv_def scene_ok_def led_busy_def
          clear_toggles_once_def clear_toggles_periodic_def clear_period_def blinkable_def)
  qed
qed

lemma trigger_small:
  assumes "led_scene_trigger sc s = Inr s'" "scene_inv s" "led_small s"
  shows "led_small s'"
proof -
  consider (once) "sc_type sc = SCENE_BLINK_ONCE" | (per) "sc_type sc = SCENE_BLINK_PERIODIC"
    | (off) "sc_type sc = SCENE_OFF"
    | (other) "sc_type sc \<noteq> SCENE_BLINK_ONCE" "sc_type sc \<noteq> SCENE_BLINK_PERIODIC" "sc_type sc \<noteq> SCENE_OFF"
    by blast
  then show ?thesis
  proof cases
    case once
    moreover have "scene_ok sc" using trigger_law [OF assms(2), of sc] assms(1) by simp
    ultimately show ?thesis using on_blink_once_ok [OF assms(2) once] assms(1,3)
      by (auto simp: led_scene_trigger_def scene_change_handler_def Let_def led_small_def)
  next
    case per
    moreover have "scene_ok sc" using trigger_law [OF assms(2), of sc] assms(1) by simp
    ultimately show ?thesis using on_blink_periodic_ok [OF assms(2) per] assms(1,3)
      by (auto simp: led_scene_trigger_def scene_change_handler_def Let_def led_small_def)
  next
    case off
    obtain sch where "led_cancel_callback s = Inr (s\<lparr>ls_sched := sch\<rparr>)"
      "pending sch = (pending (ls_sched s))(CHANGE_LED_STATE := None)"
      using led_cancel_ok [of s] assms(2) by (auto simp: scene_inv_def)
    with off assms(1,3) show ?thesis
      by (auto simp: led_scene_trigger_def scene_change_handler_def Let_def led_small_def
          clear_toggles_once_def clear_toggles_periodic_def)
  next
    case other
    with assms(1,3) show ?thesis
      by (auto simp: led_scene_trigger_def scene_change_handler_def Let_def led_small_def
          clear_toggles_once_def clear_toggles_periodic_def clear_period_def split: if_splits)
  qed
qed

lemma tick_law:
  assumes "scene_inv s" "led_small s"
  shows "\<exists>s'. led_tick s = Inr s' \<and> scene_inv s' \<and> led_small s'"
proof (cases "pending (ls_sched s) CHANGE_LED_STATE")
  case None
  with assms show ?thesis by (simp add: led_tick_def fire_none_ok)
next
  case (Some b)
  obtain p c t where b: "b = (p, c, t)" by (cases b)
  from fire_ok [OF _ Some [unfolded b]] assms(1) obtain sch where
    f: "sched_fire (ls_sched s) CHANGE_LED_STATE = Inr (sch, [Invoked CHANGE_LED_STATE p c])" "sched_inv sch"
      "pending sch = (pending (ls_sched s))(CHANGE_LED_STATE := None)" by (auto simp: scene_inv_def)
  have "card (insert CHANGE_LED_STATE (dom (pending sch))) \<le> SCHEDULER_MAX_ENTRIES"
    using assms f(3) by (simp add: scene_inv_def)
  moreover have "led_small (s\<lparr>ls_sched := sch\<rparr>)" "uint p \<le> LED_TIME_MAX"
    using assms(2) f(3) Some b by (auto simp: led_small_def)
  ultimately show ?thesis using change_led_state_ok [of "s\<lparr>ls_sched := sch\<rparr>" p 1] f assms(1)
    by (simp add: led_tick_def scene_inv_def numeral_2_eq_2)
qed


subsection \<open>Every run is safe\<close>

text \<open>Triggers, timer expiries, and operations of other clients of the scheduler, from the initial scenes.\<close>

inductive led_reach :: "led_sys \<Rightarrow> bool" where
  reach_start: "sched_inv (ls_sched s) \<Longrightarrow>
    card (insert CHANGE_LED_STATE (dom (pending (ls_sched s)))) \<le> SCHEDULER_MAX_ENTRIES \<Longrightarrow>
    pending (ls_sched s) CHANGE_LED_STATE = None \<Longrightarrow> ls_scenes s = active_scenes_init \<Longrightarrow> led_reach s"
| reach_trigger: "led_reach s \<Longrightarrow> led_scene_trigger sc s = Inr s' \<Longrightarrow> led_reach s'"
| reach_tick: "led_reach s \<Longrightarrow> led_tick s = Inr s' \<Longrightarrow> led_reach s'"
| reach_other: "led_reach s \<Longrightarrow> sched_inv sch \<Longrightarrow>
    pending sch CHANGE_LED_STATE = pending (ls_sched s) CHANGE_LED_STATE \<Longrightarrow>
    card (insert CHANGE_LED_STATE (dom (pending sch))) \<le> SCHEDULER_MAX_ENTRIES \<Longrightarrow>
    led_reach (s\<lparr>ls_sched := sch\<rparr>)"

lemma led_reach_law: "led_reach s \<Longrightarrow> scene_inv s \<and> led_small s"
proof (induction rule: led_reach.induct)
  case (reach_start s)
  then show ?case by (simp add: scene_inv_def active_scenes_init_def led_busy_def led_small_def)
next
  case (reach_trigger s sc s')
  then show ?case using trigger_law [of s sc] trigger_small [of sc s s'] by simp
next
  case (reach_tick s s')
  then show ?case using tick_law [of s] by auto
next
  case (reach_other s sch)
  then show ?case by (simp add: scene_inv_def led_small_def)
qed

lemma led_reach_inv: "led_reach s \<Longrightarrow> scene_inv s"
  by (simp add: led_reach_law)

lemma event_loop_ok:
  assumes "scene_inv s" "\<forall>x \<in> set xs. scene_ok (sl_scene x)"
  shows "\<exists>s'. event_loop xs base eid s = Inr s' \<and> scene_inv s'"
  using assms
proof (induction xs arbitrary: s)
  case (Cons x xs)
  show ?case
  proof (cases "event_base x = base \<and> event_id x = eid")
    case True
    obtain s1 where "led_scene_trigger (sl_scene x) s = Inr s1" "scene_inv s1"
      using trigger_law [OF Cons.prems(1), of "sl_scene x"] Cons.prems(2)
      by (cases "led_scene_trigger (sl_scene x) s") auto
    with True Cons.IH [of s1] Cons.prems(2) show ?thesis by (simp add: led_scene_trigger_def)
  next
    case False
    with Cons.IH [of s] Cons.prems show ?thesis by auto
  qed
qed simp

text \<open>In every state the LED can reach, a timer expiry is handled without a fault, a trigger fails an
  assertion exactly for a blink scene without times, repeats or colour or a periodic scene whose blinks do
  not fit its period, no call recurses, and an active scene always has its timer running, so that
  its next step comes.\<close>

lemma scenes_safe:
  assumes "led_reach s"
  shows "(\<exists>s'. led_tick s = Inr s') \<and>
    (\<forall>sc. case led_scene_trigger sc s of Inl f \<Rightarrow> \<not> scene_ok sc \<and> f = Abort | Inr s' \<Rightarrow> scene_ok sc) \<and>
    (led_busy (ls_scenes s) \<longrightarrow> (\<exists>p c t. pending (ls_sched s) CHANGE_LED_STATE = Some (p, c, t)))"
proof (intro conjI allI)
  note inv = led_reach_inv [OF assms]
  show "\<exists>s'. led_tick s = Inr s'" using tick_law led_reach_law [OF assms] by blast
  show "case led_scene_trigger sc s of Inl f \<Rightarrow> \<not> scene_ok sc \<and> f = Abort | Inr s' \<Rightarrow> scene_ok sc" for sc
    using trigger_law [OF inv, of sc] by (auto split: sum.splits)
  show "led_busy (ls_scenes s) \<longrightarrow> (\<exists>p c t. pending (ls_sched s) CHANGE_LED_STATE = Some (p, c, t))"
    using inv by (auto simp: scene_inv_def)
qed

subsection \<open>A blink\<close>

abbreviation dark_frame :: "strip_event list" where "dark_frame \<equiv> [Strip_clear, Strip_refresh]"

definition lit_frame :: "u32 \<Rightarrow> u8 \<Rightarrow> strip_event list" where
  "lit_frame c b =
     [Strip_set_pixel (RED_COLOR_MASK c * ucast b div 100) (GREEN_COLOR_MASK c * ucast b div 100)
        (BLUE_COLOR_MASK c * ucast b div 100), Strip_refresh]"

definition bg_frame :: "active_scenes_t \<Rightarrow> u8 \<Rightarrow> strip_event list" where
  "bg_frame a b =
     (let r = ucast (bg_brightness a) :: u8;
          b = (if r = 0 \<or> 100 < r then b else r div 4)
      in if bg_color a = RGB_LEDS_OFF then dark_frame else lit_frame (bg_color a) b)"

definition blink_delay :: "scene_t \<Rightarrow> nat \<Rightarrow> nat" where
  "blink_delay sc k = (if k = 0 then 20 else max 1 (unat (if odd k then t_on (sc_blink sc) else t_off (sc_blink sc)) div 10))"

definition blink_frame :: "scene_t \<Rightarrow> nat \<Rightarrow> strip_event list" where
  "blink_frame sc k = (if even k then lit_frame (sc_color sc) (sc_brightness sc div 4) else dark_frame)"

definition once_at :: "scene_t \<Rightarrow> active_scenes_t \<Rightarrow> pending_map \<Rightarrow> nat \<Rightarrow> led_sys \<Rightarrow> bool" where
  "once_at sc a0 m k s \<longleftrightarrow> sched_inv (ls_sched s) \<and>
     card (insert CHANGE_LED_STATE (dom (pending (ls_sched s)))) \<le> SCHEDULER_MAX_ENTRIES \<and>
     as_scene (as_once (ls_scenes s)) = sc \<and>
     remaining_toggles (as_once (ls_scenes s)) = word_of_nat (2 * unat (b_repeats (sc_blink sc)) - k) \<and>
     rq_led_on (ls_scenes s) = even k \<and> remaining_toggles (as_periodic (ls_scenes s)) = 0 \<and>
     bg_color (ls_scenes s) = bg_color a0 \<and> bg_brightness (ls_scenes s) = bg_brightness a0 \<and>
     (0 < k \<longrightarrow> ls_brightness s = sc_brightness sc div 4) \<and>
     (\<exists>p. pending (ls_sched s) = m(CHANGE_LED_STATE \<mapsto> (p, 0, Some (word_of_nat (blink_delay sc k)))))"

lemma led_shown_out:
  "0 < sc_brightness sc \<Longrightarrow> sc_brightness sc \<le> 100 \<Longrightarrow> sc_color sc \<noteq> 0 \<Longrightarrow>
   ls_out (led_shown sc (even k) s) = ls_out s @ blink_frame sc k"
  "0 < sc_brightness sc \<Longrightarrow> sc_brightness sc \<le> 100 \<Longrightarrow>
   ls_brightness (led_shown sc on s) = sc_brightness sc div 4"
  by (auto simp: led_shown_def blink_frame_def lit_frame_def rgb_on_def rgb_off_def led_emit_def set_brightness_def
      set_color_def Let_def word_gt_0 not_less)

lemma restore_out: "ls_out (restore_bg_color s) = ls_out s @ bg_frame (ls_scenes s) (ls_brightness s)"
  by (auto simp: restore_bg_color_def bg_frame_def lit_frame_def rgb_on_def led_emit_def set_brightness_def
      set_color_def Let_def)

lemma tick_fire:
  assumes "sched_inv (ls_sched s)" "pending (ls_sched s) CHANGE_LED_STATE = Some (p, c, t)"
  obtains sch where "led_tick s = change_led_state led_fuel p (s\<lparr>ls_sched := sch\<rparr>)" "sched_inv sch"
    "pending sch = (pending (ls_sched s))(CHANGE_LED_STATE := None)"
  using fire_ok [OF assms] by (auto simp: led_tick_def)


lemma toggles_nonzero:
  assumes "k < 2 * unat (r :: u16)"
  shows "(word_of_nat (2 * unat r - k) :: u32) \<noteq> 0"
    "(word_of_nat (2 * unat r - k) :: u32) - 1 = word_of_nat (2 * unat r - Suc k)"
proof -
  have "2 * unat r - k < 2 ^ 32" using unsigned_less [of r, where 'a = nat] by simp
  then have "unat (word_of_nat (2 * unat r - k) :: u32) = 2 * unat r - k" by (simp add: unat_word_of_nat)
  then show "(word_of_nat (2 * unat r - k) :: u32) \<noteq> 0" using assms by (metis diff_is_0_eq' not_le unat_eq_0 zero_less_diff less_numeral_extra(3))
  have "2 * unat r - k = Suc (2 * unat r - Suc k)" using assms by simp
  then show "(word_of_nat (2 * unat r - k) :: u32) - 1 = word_of_nat (2 * unat r - Suc k)" by simp
qed

lemma once_step:
  assumes "once_at sc a0 m k s" "k < 2 * unat (b_repeats (sc_blink sc))" "scene_ok sc" "sc_type sc = SCENE_BLINK_ONCE"
    "0 < sc_brightness sc" "sc_brightness sc \<le> 100"
  shows "\<exists>s'. led_tick s = Inr s' \<and> once_at sc a0 m (Suc k) s' \<and> ls_out s' = ls_out s @ blink_frame sc k"
proof -
  obtain p where at: "sched_inv (ls_sched s)"
    "card (insert CHANGE_LED_STATE (dom (pending (ls_sched s)))) \<le> SCHEDULER_MAX_ENTRIES"
    "as_scene (as_once (ls_scenes s)) = sc" "rq_led_on (ls_scenes s) = even k"
    "pending (ls_sched s) = m(CHANGE_LED_STATE \<mapsto> (p, 0, Some (word_of_nat (blink_delay sc k))))"
    "remaining_toggles (as_once (ls_scenes s)) = word_of_nat (2 * unat (b_repeats (sc_blink sc)) - k)"
    using assms(1) by (auto simp: once_at_def)
  have "pending (ls_sched s) CHANGE_LED_STATE = Some (p, 0, Some (word_of_nat (blink_delay sc k)))" by (simp add: at(5))
  from tick_fire [OF at(1) this] obtain sch where
    f: "led_tick s = change_led_state led_fuel p (s\<lparr>ls_sched := sch\<rparr>)" "sched_inv sch"
      "pending sch = (pending (ls_sched s))(CHANGE_LED_STATE := None)" .
  have room: "card (insert CHANGE_LED_STATE (dom (pending sch))) \<le> SCHEDULER_MAX_ENTRIES"
    using at(2) f(3) by simp
  let ?n = "led_phase sc (even k)"
  have n: "?n \<noteq> 0" using assms(3,4) by (auto simp: led_phase_def scene_ok_def)
  from led_arm [OF f(2) room n led_phase_short(1), of ?n] obtain sch' where
    a: "scheduler_set_callback True sch CHANGE_LED_STATE ?n 0 ?n = Inr (sch', [])" "sched_inv sch'"
      "card (insert CHANGE_LED_STATE (dom (pending sch'))) \<le> SCHEDULER_MAX_ENTRIES"
      "pending sch' = m(CHANGE_LED_STATE \<mapsto> (?n, 0, Some (sched_ticks ?n)))"
    using f(3) at(5) by auto
  have "unat (sched_ticks ?n) = max 1 (unat ?n div 10)"
    by (rule unat_sched_ticks) (use led_phase_bound [of sc "even k"] in simp)
  also have "\<dots> = blink_delay sc (Suc k)" by (simp add: led_phase_def blink_delay_def)
  finally have "unat (sched_ticks ?n) = blink_delay sc (Suc k)" .
  then have d: "sched_ticks ?n = word_of_nat (blink_delay sc (Suc k))" by (metis of_nat_unat ucast_id)
  note tog = toggles_nonzero [OF assms(2)]
  have c: "sc_color sc \<noteq> 0" using assms(3,4) by (simp add: scene_ok_def)
  have "led_tick s = Inr ((led_shown sc (even k) (s\<lparr>ls_sched := sch\<rparr>))
      \<lparr>ls_scenes := (led_aged p (ls_scenes s))
         \<lparr>as_once := (as_once (ls_scenes s))\<lparr>remaining_toggles := remaining_toggles (as_once (ls_scenes s)) - 1\<rparr>,
          rq_led_on := odd k\<rparr>, ls_sched := sch'\<rparr>)"
    using f(1) change_once [of "s\<lparr>ls_sched := sch\<rparr>" p sch' 1] a(1) at(3,4,6) tog(1)
    by (simp add: numeral_2_eq_2)
  with a d at(6) tog(2) assms(1) led_shown_out [OF assms(5,6)] c show ?thesis
    by (auto simp: once_at_def)
qed

lemma led_ticks_fun: "led_ticks (n + k) = (\<lambda>s. obind (led_ticks n s) (led_ticks k))"
proof (induction n)
  case (Suc n)
  show ?case by (rule ext) (simp add: Suc.IH obind_assoc)
qed auto

lemma led_ticks_add: "led_ticks (n + k) s = obind (led_ticks n s) (led_ticks k)"
  by (simp add: led_ticks_fun)

lemma once_ticks:
  assumes "once_at sc a0 m 0 s" "scene_ok sc" "sc_type sc = SCENE_BLINK_ONCE" "0 < sc_brightness sc" "sc_brightness sc \<le> 100"
    "k \<le> 2 * unat (b_repeats (sc_blink sc))"
  shows "\<exists>s'. led_ticks k s = Inr s' \<and> once_at sc a0 m k s' \<and>
    ls_out s' = ls_out s @ concat (map (blink_frame sc) [0..<k])"
  using assms(6)
proof (induction k)
  case 0
  with assms(1) show ?case by simp
next
  case (Suc k)
  then obtain s1 where s1: "led_ticks k s = Inr s1" "once_at sc a0 m k s1"
    "ls_out s1 = ls_out s @ concat (map (blink_frame sc) [0..<k])" by auto
  from once_step [OF s1(2) _ assms(2-5)] Suc.prems obtain s2 where
    "led_tick s1 = Inr s2" "once_at sc a0 m (Suc k) s2" "ls_out s2 = ls_out s1 @ blink_frame sc k" by auto
  with s1 led_ticks_add [of k 1 s] show ?case by simp
qed

lemma once_end:
  assumes "once_at sc a0 m (2 * unat (b_repeats (sc_blink sc))) s" "b_repeats (sc_blink sc) \<noteq> 0"
  shows "\<exists>s'. led_tick s = Inr s' \<and> \<not> led_busy (ls_scenes s') \<and> pending (ls_sched s') = m(CHANGE_LED_STATE := None) \<and>
    ls_out s' = ls_out s @ bg_frame a0 (sc_brightness sc div 4)"
proof -
  obtain p where at: "sched_inv (ls_sched s)" "remaining_toggles (as_once (ls_scenes s)) = 0"
    "remaining_toggles (as_periodic (ls_scenes s)) = 0"
    "pending (ls_sched s) = m(CHANGE_LED_STATE \<mapsto> (p, 0, Some (word_of_nat (blink_delay sc (2 * unat (b_repeats (sc_blink sc)))))))"
    using assms by (auto simp: once_at_def)
  from tick_fire [OF at(1), of p 0 "Some (word_of_nat (blink_delay sc (2 * unat (b_repeats (sc_blink sc)))))"] at(4) obtain sch where
    f: "led_tick s = change_led_state led_fuel p (s\<lparr>ls_sched := sch\<rparr>)"
      "pending sch = (pending (ls_sched s))(CHANGE_LED_STATE := None)" by auto
  have "led_tick s = Inr (restore_bg_color (s\<lparr>ls_sched := sch, ls_scenes := led_aged p (ls_scenes s)\<rparr>))"
    using f(1) change_idle [of "s\<lparr>ls_sched := sch\<rparr>" 1 p] at(2,3) by (simp add: numeral_2_eq_2)
  moreover have "0 < unat (b_repeats (sc_blink sc))" using assms(2) by (simp add: unat_gt_0)
  ultimately show ?thesis
    using assms f(2) at by (auto simp: restore_out bg_frame_def led_busy_def once_at_def Let_def)
qed

text \<open>C16. A blink-once scene with \<open>r\<close> repeats, triggered while no periodic scene is active: the LED is
  dark for 200 ms, then \<open>r\<close> times lit for \<open>t_on\<close> and dark for \<open>t_off\<close> (each cut to ticks of 10 ms and at least one), at
  every step with its timer running for that time; after \<open>2 * r + 1\<close> expiries the background is
  shown, no scene is active and no timer is left.\<close>

theorem blink_once_runs:
  assumes "scene_inv s" "remaining_toggles (as_periodic (ls_scenes s)) = 0" "sc_type sc = SCENE_BLINK_ONCE"
    "scene_ok sc" "0 < sc_brightness sc" "sc_brightness sc \<le> 100"
  shows "\<exists>s0. led_scene_trigger sc s = Inr s0 \<and>
    (\<forall>k \<le> 2 * unat (b_repeats (sc_blink sc)). \<exists>sk p. led_ticks k s0 = Inr sk \<and>
       ls_out sk = ls_out s @ dark_frame @ concat (map (blink_frame sc) [0..<k]) \<and>
       pending (ls_sched sk) CHANGE_LED_STATE = Some (p, 0, Some (word_of_nat (blink_delay sc k)))) \<and>
    (\<exists>s'. led_ticks (2 * unat (b_repeats (sc_blink sc)) + 1) s0 = Inr s' \<and> \<not> led_busy (ls_scenes s') \<and>
       pending (ls_sched s') = (pending (ls_sched s))(CHANGE_LED_STATE := None) \<and>
       ls_out s' = ls_out s @ dark_frame @ concat (map (blink_frame sc) [0..<2 * unat (b_repeats (sc_blink sc))]) @
         bg_frame (ls_scenes s) (sc_brightness sc div 4))"
proof -
  let ?r = "2 * unat (b_repeats (sc_blink sc))"
  have rep: "b_repeats (sc_blink sc) \<noteq> 0" using assms(3,4) by (auto simp: scene_ok_def)
  have two: "(2 * ucast (b_repeats (sc_blink sc)) :: u32) = word_of_nat ?r" by simp
  from on_blink_once_ok [OF assms(1,3,4)] obtain sch where
    t: "on_blink_once sc s = Inr (rgb_off (s\<lparr>ls_sched := sch, ls_scenes := (ls_scenes s)
        \<lparr>as_once := (as_once (ls_scenes s))\<lparr>as_scene := sc, remaining_toggles := 2 * ucast (b_repeats (sc_blink sc))\<rparr>,
         rq_led_on := True\<rparr>\<rparr>))" (is "_ = Inr ?s0")
    "sched_inv sch" "card (insert CHANGE_LED_STATE (dom (pending sch))) \<le> SCHEDULER_MAX_ENTRIES"
    "pending sch = (pending (ls_sched s))(CHANGE_LED_STATE \<mapsto> (200, 0, Some 20))" by blast
  have tr: "led_scene_trigger sc s = Inr ?s0"
    using t(1) assms(3) by (simp add: led_scene_trigger_def scene_change_handler_def Let_def)
  have at: "once_at sc (ls_scenes s) (pending (ls_sched s)) 0 ?s0"
    using t(2-4) assms(2) two by (auto simp: once_at_def blink_delay_def)
  have out: "ls_out ?s0 = ls_out s @ dark_frame" by (simp add: rgb_off_def)
  note ticks = once_ticks [OF at assms(4,3,5,6)]
  have mid: "\<exists>sk p. led_ticks k ?s0 = Inr sk \<and>
       ls_out sk = ls_out s @ dark_frame @ concat (map (blink_frame sc) [0..<k]) \<and>
       pending (ls_sched sk) CHANGE_LED_STATE = Some (p, 0, Some (word_of_nat (blink_delay sc k)))" if "k \<le> ?r" for k
    using ticks [OF that] out by (fastforce simp: once_at_def)
  obtain s1 where s1: "led_ticks ?r ?s0 = Inr s1" "once_at sc (ls_scenes s) (pending (ls_sched s)) ?r s1"
    "ls_out s1 = ls_out s @ dark_frame @ concat (map (blink_frame sc) [0..<?r])"
    using ticks [OF order_refl] out by auto
  from once_end [OF s1(2) rep] obtain s2 where "led_tick s1 = Inr s2" "\<not> led_busy (ls_scenes s2)"
    "pending (ls_sched s2) = (pending (ls_sched s))(CHANGE_LED_STATE := None)"
    "ls_out s2 = ls_out s1 @ bg_frame (ls_scenes s) (sc_brightness sc div 4)" by blast
  with s1 led_ticks_add [of ?r 1 ?s0] have fin: "\<exists>s'. led_ticks (?r + 1) ?s0 = Inr s' \<and> \<not> led_busy (ls_scenes s') \<and>
       pending (ls_sched s') = (pending (ls_sched s))(CHANGE_LED_STATE := None) \<and>
       ls_out s' = ls_out s @ dark_frame @ concat (map (blink_frame sc) [0..<?r]) @
         bg_frame (ls_scenes s) (sc_brightness sc div 4)" by simp
  from tr mid fin show ?thesis by blast
qed


subsection \<open>Witnesses\<close>

definition led_start :: led_sys where
  "led_start = \<lparr>ls_scenes = active_scenes_init, ls_brightness = 100, ls_color = RGB_LEDS_OFF, ls_list = [],
     ls_sched = replicate 12 \<lparr>e_handle = True, e_scheduled = False, e_msg = cb_msg_zero, e_timer = None\<rparr>,
     ls_out = []\<rparr>"

definition blue_once :: scene_t where
  "blue_once = \<lparr>sc_type = SCENE_BLINK_ONCE, sc_color = 0x0000FF,
     sc_blink = \<lparr>t_on = 300, t_off = 400, b_repeats = 1, b_period = 0\<rparr>, sc_brightness = 100\<rparr>"

theorem blink_once_runs_witness:
  "\<exists>s0 s'. led_scene_trigger blue_once led_start = Inr s0 \<and> led_ticks 3 s0 = Inr s' \<and>
     ls_out s' = dark_frame @ lit_frame 0xFF 25 @ dark_frame @ dark_frame"
proof -
  have "sched_inv (ls_sched led_start)" "pending (ls_sched led_start) = Map.empty"
    by (simp_all add: led_start_def sched_inv_def entry_ok_def eval_nat_numeral)
  then have "scene_inv led_start"
    by (simp add: scene_inv_def led_busy_def led_start_def active_scenes_init_def)
  moreover have "scene_ok blue_once" by (simp add: scene_ok_def blue_once_def)
  moreover have blue: "sc_type blue_once = SCENE_BLINK_ONCE" "0 < sc_brightness blue_once" "sc_brightness blue_once \<le> 100"
    "unat (b_repeats (sc_blink blue_once)) = 1" by (simp_all add: blue_once_def)
  moreover have "remaining_toggles (as_periodic (ls_scenes led_start)) = 0"
    by (simp add: led_start_def active_scenes_init_def)
  ultimately obtain s0 s' where r: "led_scene_trigger blue_once led_start = Inr s0"
    "led_ticks (2 * 1 + 1) s0 = Inr s'"
    "ls_out s' = ls_out led_start @ dark_frame @ concat (map (blink_frame blue_once) [0..<2 * 1]) @
       bg_frame (ls_scenes led_start) (sc_brightness blue_once div 4)"
    using blink_once_runs [of led_start blue_once] by metis
  have "concat (map (blink_frame blue_once) [0..<2 * 1]) = lit_frame 0xFF 25 @ dark_frame"
    "bg_frame (ls_scenes led_start) (sc_brightness blue_once div 4) = dark_frame" "ls_out led_start = []"
    by code_simp+
  with r show ?thesis by (intro exI [of _ s0] exI [of _ s']) simp
qed

end
