(* ===== verification/EM_Led_Evt.thy ===== *)
theory EM_Led_Evt
  imports EM_Led_Scene EM_Messages
begin

section \<open>The scenes of the device (main/modules/evt/led\_scene\_evt.c)\<close>

text \<open>
  The table of the scenes that events trigger, and the handler of the identify message, which builds a scene
  from two bytes of the message. An event base is the text of the literal: equal
  literals are one object in the linked image. The event numbers are those of the enumerations of the
  components; \<open>WIFI_EVENT_STA_CONNECTED\<close> is 4 in the SDK.
\<close>

abbreviation RGB_LED_RED :: u32 where "RGB_LED_RED \<equiv> 0xFF0000"
abbreviation RGB_LED_BLUE :: u32 where "RGB_LED_BLUE \<equiv> 0x0000FF"
abbreviation RGB_LED_PURPLE :: u32 where "RGB_LED_PURPLE \<equiv> 0x800080"
abbreviation RGB_LED_PINK :: u32 where "RGB_LED_PINK \<equiv> 0xFFC0CB"
abbreviation RGB_LED_LAVENDER :: u32 where "RGB_LED_LAVENDER \<equiv> 0x2000FF"

definition SCENE_ONCE :: "u32 \<Rightarrow> u8 \<Rightarrow> u16 \<Rightarrow> u16 \<Rightarrow> u16 \<Rightarrow> scene_t" where
  "SCENE_ONCE c br on off rep =
     \<lparr>sc_type = SCENE_BLINK_ONCE, sc_color = c,
      sc_blink = \<lparr>t_on = on, t_off = off, b_repeats = rep, b_period = 0\<rparr>, sc_brightness = br\<rparr>"

definition SCENE_CLEAR :: "nat \<Rightarrow> scene_t" where
  "SCENE_CLEAR ty =
     \<lparr>sc_type = ty, sc_color = 0, sc_blink = \<lparr>t_on = 0, t_off = 0, b_repeats = 0, b_period = 0\<rparr>, sc_brightness = 0\<rparr>"

definition scenes_list :: "scenes_list_t list" where
  "scenes_list =
    [\<lparr>event_base = ''EM_BLE_CORE_EVENT'', event_id = 1, sl_scene = SCENE_ONCE RGB_LED_BLUE 70 300 400 800\<rparr>,
     \<lparr>event_base = ''EM_BLE_CORE_EVENT'', event_id = 2, sl_scene = SCENE_CLEAR SCENE_CLEAR_ONCE\<rparr>,
     \<lparr>event_base = ''EM_TCP_CLIENT_EVENT'', event_id = 1, sl_scene = SCENE_CLEAR SCENE_CLEAR_ALL\<rparr>,
     \<lparr>event_base = ''EM_TCP_CLIENT_EVENT'', event_id = 1, sl_scene = SCENE_ONCE RGB_LED_LAVENDER 100 1000 200 1\<rparr>,
     \<lparr>event_base = ''EM_TCP_CLIENT_EVENT'', event_id = 3, sl_scene = SCENE_ONCE RGB_LED_RED 100 200 200 3\<rparr>,
     \<lparr>event_base = ''EM_TCP_CLIENT_EVENT'', event_id = 4, sl_scene = SCENE_ONCE RGB_LED_RED 100 200 200 1\<rparr>,
     \<lparr>event_base = ''EM_TCP_CLIENT_EVENT'', event_id = 5, sl_scene = SCENE_ONCE RGB_LED_RED 100 200 200 1\<rparr>,
     \<lparr>event_base = ''EM_WIFI_EVENT'', event_id = 1, sl_scene = SCENE_ONCE RGB_LED_BLUE 100 300 400 0xFFFF\<rparr>,
     \<lparr>event_base = ''EM_WIFI_EVENT'', event_id = 0, sl_scene = SCENE_CLEAR SCENE_CLEAR_ONCE\<rparr>,
     \<lparr>event_base = ''EM_WIFI_EVENT'', event_id = 0, sl_scene = SCENE_ONCE RGB_LED_PURPLE 50 100 500 0xFFFF\<rparr>,
     \<lparr>event_base = ''WIFI_EVENT'', event_id = 4, sl_scene = SCENE_CLEAR SCENE_CLEAR_ALL\<rparr>,
     \<lparr>event_base = ''WIFI_EVENT'', event_id = 4, sl_scene = SCENE_ONCE RGB_LED_PURPLE 100 1000 200 1\<rparr>,
     \<lparr>event_base = ''EM_HTTP_OTA_EVENT'', event_id = 6, sl_scene = SCENE_ONCE RGB_LED_RED 100 200 200 2\<rparr>,
     \<lparr>event_base = ''EM_HTTP_OTA_EVENT'', event_id = 2, sl_scene = SCENE_ONCE RGB_LED_LAVENDER 50 100 200 2\<rparr>,
     \<lparr>event_base = ''EM_HTTP_OTA_EVENT'', event_id = 4, sl_scene = SCENE_ONCE RGB_LED_LAVENDER 50 100 200 1\<rparr>,
     \<lparr>event_base = ''EM_BUTTON_EVENT'', event_id = 4, sl_scene = SCENE_ONCE RGB_LED_BLUE 100 300 400 800\<rparr>,
     \<lparr>event_base = ''EM_BUTTON_EVENT'', event_id = 6, sl_scene = SCENE_ONCE RGB_LED_PURPLE 70 200 200 4\<rparr>]"

text \<open>A failed initialisation of the LED fails the check in \<open>led_evt_init\<close>.\<close>

definition led_evt_init :: "int \<Rightarrow> int \<Rightarrow> int \<Rightarrow> int \<Rightarrow> int \<Rightarrow> led_sys \<Rightarrow> led_sys outcome" where
  "led_evt_init reset direction device cleared registered s =
     obind (led_scene_init reset direction device cleared registered scenes_list s)
       (\<lambda>(s, ret). c_assert (ret = ESP_OK) (Inr s))"

definition identify_scene :: "identify_msg_t \<Rightarrow> scene_t" where
  "identify_scene msg =
     \<lparr>sc_type = unat (identify_mode msg) + 1, sc_color = RGB_LED_PINK,
      sc_blink = \<lparr>t_on = 150, t_off = 150, b_repeats = ucast (identify_count msg), b_period = 5000\<rparr>,
      sc_brightness = 100\<rparr>"

definition led_evt_identify_msg_handler :: "identify_msg_t \<Rightarrow> led_sys \<Rightarrow> (led_sys \<times> int) outcome" where
  "led_evt_identify_msg_handler msg s =
     obind (led_scene_trigger (identify_scene msg) s) (\<lambda>s. Inr (s, ESP_OK))"

lemma configured_scenes: "x \<in> set scenes_list \<Longrightarrow> scene_ok (sl_scene x)"
  by (auto simp: scenes_list_def scene_ok_def SCENE_ONCE_def SCENE_CLEAR_def)

text \<open>In every state the LED can reach, every event is handled without a failed assertion: all scenes of
  the table are well formed.\<close>

lemma configured_events_safe:
  assumes "led_reach s" "ls_list s = scenes_list"
  shows "\<exists>s'. event_handler base eid s = Inr s' \<and> scene_inv s'"
  using event_loop_ok [OF led_reach_inv [OF assms(1)], of scenes_list base eid] configured_scenes assms(2)
  by (auto simp: event_handler_def)

lemma identify_product:
  "(ucast (ucast (c :: u8) :: u16) :: u32) * 300 < 5000 \<longleftrightarrow> unat c \<le> 16"
proof -
  have c: "unat c < 256" using unsigned_less [of c, where 'a = nat] by simp
  have "unat (ucast (ucast c :: u16) :: u32) = unat c"
    by (simp add: unat_ucast_up)
  then have "unat ((ucast (ucast c :: u16) :: u32) * 300) = unat c * 300"
    using c by (simp add: unat_word_ariths)
  then have "(ucast (ucast c :: u16) :: u32) * 300 < 5000 \<longleftrightarrow> unat c * 300 < 5000"
    by (simp add: word_less_nat_alt)
  then show ?thesis by linarith
qed

lemma identify_faults:
  assumes "led_reach s"
  shows "(\<exists>f. led_evt_identify_msg_handler msg s = Inl f) \<longleftrightarrow>
    (identify_mode msg = 1 \<or> identify_mode msg = 2) \<and> identify_count msg = 0 \<or>
    identify_mode msg = 2 \<and> 16 < identify_count msg"
proof -
  have t: "sc_type (identify_scene msg) = SCENE_BLINK_ONCE \<longleftrightarrow> identify_mode msg = 1"
    "sc_type (identify_scene msg) = SCENE_BLINK_PERIODIC \<longleftrightarrow> identify_mode msg = 2"
    by (auto simp: identify_scene_def word_unat_eq_iff)
  have z: "(ucast (identify_count msg) :: u16) = 0 \<longleftrightarrow> identify_count msg = 0"
    by (simp add: word_unat_eq_iff unat_ucast_up)
  have g: "0 < (ucast (identify_count msg) :: u16) \<longleftrightarrow> identify_count msg \<noteq> 0"
    using z by (simp add: word_gt_0)
  have g': "16 < identify_count msg \<longleftrightarrow> \<not> unat (identify_count msg) \<le> 16"
    by (simp add: word_less_nat_alt not_le)
  have "(\<exists>f. led_evt_identify_msg_handler msg s = Inl f) \<longleftrightarrow> \<not> scene_ok (identify_scene msg)"
    using trigger_law [OF led_reach_inv [OF assms], of "identify_scene msg"]
    by (auto simp: led_evt_identify_msg_handler_def split: sum.splits)
  also have "\<dots> \<longleftrightarrow> (identify_mode msg = 1 \<or> identify_mode msg = 2) \<and> identify_count msg = 0 \<or>
      identify_mode msg = 2 \<and> 16 < identify_count msg"
    using identify_product [of "identify_count msg"] g g' unfolding scene_ok_def t
    by (auto simp: identify_scene_def)
  finally show ?thesis .
qed

text \<open>The identify message of a remote peer restarts the device exactly when it asks for a blink (mode 1)
  with a count of zero, or a periodic blink (mode 2) with a count of zero or more than 16.\<close>

lemma identify_fault_iff:
  assumes "led_reach s"
  shows "(\<exists>f. led_evt_identify_msg_handler msg s = Inl f) \<longleftrightarrow>
    (identify_mode msg = 1 \<or> identify_mode msg = 2) \<and> identify_count msg = 0 \<or>
    identify_mode msg = 2 \<and> 16 < identify_count msg"
  by (rule identify_faults [OF assms])

lemma led_start_reach: "led_reach led_start"
proof -
  have "sched_inv (ls_sched led_start)" "pending (ls_sched led_start) = Map.empty"
    by (simp_all add: led_start_def sched_inv_def entry_ok_def list_all_iff)
  then show ?thesis by (intro reach_start) (simp_all add: led_start_def)
qed

end
