(* ===== verification/EM_Crc16.thy ===== *)
theory EM_Crc16
  imports EM_Prelude
begin

section \<open>The packet checksum (rs232\_2400\_protocol.c, crc16\_xmodem)\<close>

text \<open>
  The table-driven checksum of the inverter protocol. It is shown to be the CRC with polynomial
  \<open>0x1021\<close> and start value 0, computed bit by bit, which is linear and therefore detects every
  error confined to two adjacent bytes.
\<close>

definition crc16tab :: "u16 list" where
  "crc16tab =
    [0x0000, 0x1021, 0x2042, 0x3063, 0x4084, 0x50a5, 0x60c6, 0x70e7, 0x8108, 0x9129, 0xa14a, 0xb16b,
     0xc18c, 0xd1ad, 0xe1ce, 0xf1ef, 0x1231, 0x0210, 0x3273, 0x2252, 0x52b5, 0x4294, 0x72f7, 0x62d6,
     0x9339, 0x8318, 0xb37b, 0xa35a, 0xd3bd, 0xc39c, 0xf3ff, 0xe3de, 0x2462, 0x3443, 0x0420, 0x1401,
     0x64e6, 0x74c7, 0x44a4, 0x5485, 0xa56a, 0xb54b, 0x8528, 0x9509, 0xe5ee, 0xf5cf, 0xc5ac, 0xd58d,
     0x3653, 0x2672, 0x1611, 0x0630, 0x76d7, 0x66f6, 0x5695, 0x46b4, 0xb75b, 0xa77a, 0x9719, 0x8738,
     0xf7df, 0xe7fe, 0xd79d, 0xc7bc, 0x48c4, 0x58e5, 0x6886, 0x78a7, 0x0840, 0x1861, 0x2802, 0x3823,
     0xc9cc, 0xd9ed, 0xe98e, 0xf9af, 0x8948, 0x9969, 0xa90a, 0xb92b, 0x5af5, 0x4ad4, 0x7ab7, 0x6a96,
     0x1a71, 0x0a50, 0x3a33, 0x2a12, 0xdbfd, 0xcbdc, 0xfbbf, 0xeb9e, 0x9b79, 0x8b58, 0xbb3b, 0xab1a,
     0x6ca6, 0x7c87, 0x4ce4, 0x5cc5, 0x2c22, 0x3c03, 0x0c60, 0x1c41, 0xedae, 0xfd8f, 0xcdec, 0xddcd,
     0xad2a, 0xbd0b, 0x8d68, 0x9d49, 0x7e97, 0x6eb6, 0x5ed5, 0x4ef4, 0x3e13, 0x2e32, 0x1e51, 0x0e70,
     0xff9f, 0xefbe, 0xdfdd, 0xcffc, 0xbf1b, 0xaf3a, 0x9f59, 0x8f78, 0x9188, 0x81a9, 0xb1ca, 0xa1eb,
     0xd10c, 0xc12d, 0xf14e, 0xe16f, 0x1080, 0x00a1, 0x30c2, 0x20e3, 0x5004, 0x4025, 0x7046, 0x6067,
     0x83b9, 0x9398, 0xa3fb, 0xb3da, 0xc33d, 0xd31c, 0xe37f, 0xf35e, 0x02b1, 0x1290, 0x22f3, 0x32d2,
     0x4235, 0x5214, 0x6277, 0x7256, 0xb5ea, 0xa5cb, 0x95a8, 0x8589, 0xf56e, 0xe54f, 0xd52c, 0xc50d,
     0x34e2, 0x24c3, 0x14a0, 0x0481, 0x7466, 0x6447, 0x5424, 0x4405, 0xa7db, 0xb7fa, 0x8799, 0x97b8,
     0xe75f, 0xf77e, 0xc71d, 0xd73c, 0x26d3, 0x36f2, 0x0691, 0x16b0, 0x6657, 0x7676, 0x4615, 0x5634,
     0xd94c, 0xc96d, 0xf90e, 0xe92f, 0x99c8, 0x89e9, 0xb98a, 0xa9ab, 0x5844, 0x4865, 0x7806, 0x6827,
     0x18c0, 0x08e1, 0x3882, 0x28a3, 0xcb7d, 0xdb5c, 0xeb3f, 0xfb1e, 0x8bf9, 0x9bd8, 0xabbb, 0xbb9a,
     0x4a75, 0x5a54, 0x6a37, 0x7a16, 0x0af1, 0x1ad0, 0x2ab3, 0x3a92, 0xfd2e, 0xed0f, 0xdd6c, 0xcd4d,
     0xbdaa, 0xad8b, 0x9de8, 0x8dc9, 0x7c26, 0x6c07, 0x5c64, 0x4c45, 0x3ca2, 0x2c83, 0x1ce0, 0x0cc1,
     0xef1f, 0xff3e, 0xcf5d, 0xdf7c, 0xaf9b, 0xbfba, 0x8fd9, 0x9ff8, 0x6e17, 0x7e36, 0x4e55, 0x5e74,
     0x2e93, 0x3eb2, 0x0ed1, 0x1ef0]"

text \<open>One round of the loop: the index has eight bits, so it is inside the table.\<close>

definition crc16_step :: "u16 \<Rightarrow> u8 \<Rightarrow> u16" where
  "crc16_step crc b = push_bit 8 crc XOR crc16tab ! unat ((drop_bit 8 crc XOR ucast b) AND (0x00FF :: u16))"

definition crc16_xmodem :: "bytes \<Rightarrow> nat \<Rightarrow> u16 outcome" where
  "crc16_xmodem buf len =
     (if length buf < len then Inl OutOfBounds else Inr (foldl crc16_step 0 (take len buf)))"

subsection \<open>The reference\<close>

definition crc_bit :: "u16 \<Rightarrow> u16" where
  "crc_bit crc = (if bit crc 15 then push_bit 1 crc XOR 0x1021 else push_bit 1 crc)"

definition crc_bits :: "nat \<Rightarrow> u16 \<Rightarrow> u16" where
  "crc_bits n = crc_bit ^^ n"

definition crc_byte :: "u16 \<Rightarrow> u8 \<Rightarrow> u16" where
  "crc_byte crc b = crc_bits 8 (crc XOR push_bit 8 (ucast b))"

definition crc_ref :: "bytes \<Rightarrow> u16" where
  "crc_ref bs = foldl crc_byte 0 bs"

lemma crc_bit_xor: "crc_bit (x XOR y) = crc_bit x XOR crc_bit y"
  by (rule bit_word_eqI) (auto simp: crc_bit_def bit_simps)

lemma crc_bits_xor: "crc_bits n (x XOR y) = crc_bits n x XOR crc_bits n y"
  by (induction n) (simp_all add: crc_bits_def crc_bit_xor)

lemma crc_bit_0: "crc_bit 0 = 0"
  by (simp add: crc_bit_def)

lemma crc_bits_0 [simp]: "crc_bits n 0 = 0"
  by (induction n) (simp_all add: crc_bits_def crc_bit_0)

text \<open>The polynomial has a constant term, so a round loses no information.\<close>

lemma crc_bit_eq_0: "crc_bit x = 0 \<longleftrightarrow> x = 0"
proof
  assume z: "crc_bit x = 0"
  have "bit (crc_bit x) 0 = bit x 15" by (simp add: crc_bit_def bit_0 even_xor_iff)
  then have top: "\<not> bit x 15" using z by simp
  have shifted: "push_bit 1 x = 0" using z top by (simp add: crc_bit_def)
  show "x = 0"
  proof (rule bit_word_eqI)
    fix n assume "n < LENGTH(16)"
    then consider "n = 15" | "Suc n < 16" by force
    then show "bit x n = bit 0 n"
    proof cases
      case 2
      then have "bit (push_bit 1 x) (Suc n) = bit x n" by (simp only: bit_push_bit_iff) auto
      with shifted show ?thesis by simp
    qed (simp add: top)
  qed
qed (simp add: crc_bit_0)

lemma crc_bits_eq_0: "crc_bits n x = 0 \<longleftrightarrow> x = 0"
  by (induction n) (simp_all add: crc_bits_def crc_bit_eq_0)

lemma crc_bits_add: "crc_bits (m + n) x = crc_bits m (crc_bits n x)"
  by (simp add: crc_bits_def funpow_add)

text \<open>Shifting out zero bits is a plain shift.\<close>

lemma crc_bits_low:
  assumes "\<And>i. 16 - n \<le> i \<Longrightarrow> \<not> bit x i"
  shows "n \<le> 16 \<Longrightarrow> crc_bits n x = push_bit n x"
proof -
  have "k \<le> n \<Longrightarrow> n \<le> 16 \<Longrightarrow> crc_bits k x = push_bit k x" for k
  proof (induction k)
    case (Suc k)
    have "\<not> bit (push_bit k x) 15" using assms [of "15 - k"] Suc.prems by (auto simp: bit_simps)
    with Suc show ?case by (simp add: crc_bits_def crc_bit_def)
  qed (simp add: crc_bits_def)
  then show "n \<le> 16 \<Longrightarrow> crc_bits n x = push_bit n x" by blast
qed

text \<open>The table: by linearity eight entries determine it.\<close>

definition crc_entry :: "nat \<Rightarrow> u16" where
  "crc_entry i = crc_bits 8 (push_bit 8 (word_of_nat i))"

definition crc_double :: "u16 \<Rightarrow> u16 list \<Rightarrow> u16 list" where
  "crc_double v t = t @ map (\<lambda>x. x XOR v) t"

lemma crc_entry_add:
  assumes "i < 2 ^ j" "j < 16"
  shows "crc_entry (i + 2 ^ j) = crc_entry i XOR crc_entry (2 ^ j)"
proof -
  have d: "(word_of_nat i :: u16) AND 2 ^ j = 0"
  proof (rule bit_word_eqI)
    fix n assume "n < LENGTH(16)"
    have "\<not> bit i j" using assms(1) by (simp add: bit_nat_def)
    then show "bit ((word_of_nat i :: u16) AND 2 ^ j) n = bit 0 n"
      by (auto simp: bit_simps)
  qed
  have "(word_of_nat (i + 2 ^ j) :: u16) = word_of_nat i XOR word_of_nat (2 ^ j)"
    using d by (simp add: disjunctive_add_eq_xor [symmetric])
  then show ?thesis by (simp add: crc_entry_def push_bit_xor crc_bits_xor)
qed

lemma crc_entries_double:
  assumes "j < 16"
  shows "map crc_entry [0..<2 ^ Suc j] = crc_double (crc_entry (2 ^ j)) (map crc_entry [0..<2 ^ j])"
proof -
  have "[0..<2 ^ Suc j] = [0..<2 ^ j] @ map (\<lambda>i. i + 2 ^ j) [0..<2 ^ j]"
    by (rule nth_equalityI) (auto simp: nth_append)
  then have "map crc_entry [0..<2 ^ Suc j] =
      map crc_entry [0..<2 ^ j] @ map (\<lambda>i. crc_entry (i + 2 ^ j)) [0..<2 ^ j]" by simp
  also have "map (\<lambda>i. crc_entry (i + 2 ^ j)) [0..<2 ^ j] =
      map (\<lambda>i. crc_entry i XOR crc_entry (2 ^ j)) [0..<2 ^ j]"
    using crc_entry_add assms by (intro map_cong) auto
  finally show ?thesis by (simp add: crc_double_def)
qed

lemma crc_bits_8: "crc_bits 8 x = crc_bit (crc_bit (crc_bit (crc_bit (crc_bit (crc_bit (crc_bit (crc_bit x)))))))"
  by (simp add: crc_bits_def eval_nat_numeral)

lemma crc_entry_basis:
  "crc_entry 0 = 0" "crc_entry (Suc 0) = 0x1021" "crc_entry 2 = 0x2042" "crc_entry 4 = 0x4084" "crc_entry 8 = 0x8108"
  "crc_entry 16 = 0x1231" "crc_entry 32 = 0x2462" "crc_entry 64 = 0x48c4" "crc_entry 128 = 0x9188"
  by (simp_all add: crc_entry_def crc_bits_8 crc_bit_def)

lemma crc16tab_double:
  "crc16tab = crc_double 0x9188 (crc_double 0x48c4 (crc_double 0x2462 (crc_double 0x1231
     (crc_double 0x8108 (crc_double 0x4084 (crc_double 0x2042 (crc_double 0x1021 [0])))))))"
  by (simp add: crc16tab_def crc_double_def)

lemma double_step:
  "j < 16 \<Longrightarrow> crc_entry (2 ^ j) = v \<Longrightarrow>
   map crc_entry [0..<2 ^ Suc j] = crc_double v (map crc_entry [0..<2 ^ j])"
  using crc_entries_double by blast

lemma crc16tab_entries: "crc16tab = map crc_entry [0..<256]"
proof -
  have 0: "map crc_entry [0..<2 ^ 0] = [0]" by (simp add: crc_entry_basis)
  have 1: "map crc_entry [0..<2 ^ (Suc 0)] = crc_double 0x1021 (map crc_entry [0..<2 ^ 0])"
    by (rule double_step) (simp_all add: crc_entry_basis)
  have 2: "map crc_entry [0..<2 ^ (Suc (Suc 0))] = crc_double 0x2042 (map crc_entry [0..<2 ^ (Suc 0)])"
    by (rule double_step) (simp_all add: crc_entry_basis)
  have 3: "map crc_entry [0..<2 ^ (Suc (Suc (Suc 0)))] = crc_double 0x4084 (map crc_entry [0..<2 ^ (Suc (Suc 0))])"
    by (rule double_step) (simp_all add: crc_entry_basis)
  have 4: "map crc_entry [0..<2 ^ (Suc (Suc (Suc (Suc 0))))] = crc_double 0x8108 (map crc_entry [0..<2 ^ (Suc (Suc (Suc 0)))])"
    by (rule double_step) (simp_all add: crc_entry_basis)
  have 5: "map crc_entry [0..<2 ^ (Suc (Suc (Suc (Suc (Suc 0)))))] = crc_double 0x1231 (map crc_entry [0..<2 ^ (Suc (Suc (Suc (Suc 0))))])"
    by (rule double_step) (simp_all add: crc_entry_basis)
  have 6: "map crc_entry [0..<2 ^ (Suc (Suc (Suc (Suc (Suc (Suc 0))))))] = crc_double 0x2462 (map crc_entry [0..<2 ^ (Suc (Suc (Suc (Suc (Suc 0)))))])"
    by (rule double_step) (simp_all add: crc_entry_basis)
  have 7: "map crc_entry [0..<2 ^ (Suc (Suc (Suc (Suc (Suc (Suc (Suc 0)))))))] = crc_double 0x48c4 (map crc_entry [0..<2 ^ (Suc (Suc (Suc (Suc (Suc (Suc 0))))))])"
    by (rule double_step) (simp_all add: crc_entry_basis)
  have 8: "map crc_entry [0..<2 ^ (Suc (Suc (Suc (Suc (Suc (Suc (Suc (Suc 0))))))))] = crc_double 0x9188 (map crc_entry [0..<2 ^ (Suc (Suc (Suc (Suc (Suc (Suc (Suc 0)))))))])"
    by (rule double_step) (simp_all add: crc_entry_basis)
  have "(256::nat) = 2 ^ (Suc (Suc (Suc (Suc (Suc (Suc (Suc (Suc 0))))))))" by simp
  then show ?thesis unfolding crc16tab_double by (simp only: 0 1 2 3 4 5 6 7 8)
qed

lemma mask_8: "(0x00FF :: u16) = mask 8"
  by (simp add: mask_eq_exp_minus_1)

lemma crc16_step_eq: "crc16_step crc b = crc_byte crc b"
proof -
  let ?h = "drop_bit 8 crc XOR ucast b" and ?l = "take_bit 8 crc"
  let ?i = "?h AND (0x00FF :: u16)"
  have i: "?i = take_bit 8 ?h" unfolding mask_8 by (simp add: take_bit_eq_mask)
  have "unat ?i = take_bit 8 (unat ?h)" unfolding i by (rule unsigned_take_bit_eq)
  then have small: "unat ?i < 256" using take_bit_nat_less_exp [of 8 "unat ?h"] by simp
  have "?i = ?h"
    unfolding i by (rule bit_word_eqI) (auto simp: bit_simps dest: bit_imp_le_length)
  with small have tab: "crc16tab ! unat ?i = crc_bits 8 (push_bit 8 ?h)"
    by (simp add: crc16tab_entries crc_entry_def)
  have split: "crc XOR push_bit 8 (ucast b) = push_bit 8 ?h XOR ?l"
    by (rule bit_word_eqI) (auto simp: bit_simps)
  have low: "crc_bits 8 ?l = push_bit 8 crc"
  proof -
    have "crc_bits 8 ?l = push_bit 8 ?l" by (rule crc_bits_low) (auto simp: bit_simps)
    also have "\<dots> = push_bit 8 crc" by (rule bit_word_eqI) (auto simp: bit_simps)
    finally show ?thesis .
  qed
  show ?thesis
    unfolding crc16_step_def tab crc_byte_def split crc_bits_xor low by (simp add: xor.commute)
qed

lemma crc16_step_fun: "crc16_step = crc_byte"
  by (intro ext) (rule crc16_step_eq)

subsection \<open>What the checksum detects\<close>

text \<open>Linearity over the bytes of two messages of one length.\<close>

definition bytes_xor :: "bytes \<Rightarrow> bytes \<Rightarrow> bytes" where
  "bytes_xor xs ys = map2 (XOR) xs ys"

lemma crc_byte_xor: "crc_byte (c XOR d) (a XOR b) = crc_byte c a XOR crc_byte d b"
proof -
  have "(c XOR d) XOR push_bit 8 (ucast (a XOR b)) =
      (c XOR push_bit 8 (ucast a)) XOR (d XOR (push_bit 8 (ucast b) :: u16))"
    by (rule bit_word_eqI) (auto simp: bit_simps)
  then show ?thesis by (simp only: crc_byte_def crc_bits_xor)
qed

lemma foldl_crc_xor:
  "length xs = length ys \<Longrightarrow>
   foldl crc_byte (c XOR d) (bytes_xor xs ys) = foldl crc_byte c xs XOR foldl crc_byte d ys"
  by (induction xs ys arbitrary: c d rule: list_induct2) (simp_all add: bytes_xor_def crc_byte_xor)

lemma crc_byte_0: "crc_byte c 0 = 0 \<longleftrightarrow> c = 0"
  by (simp add: crc_byte_def crc_bits_eq_0)

lemma foldl_crc_zeros: "foldl crc_byte c (replicate n 0) = 0 \<longleftrightarrow> c = 0"
  by (induction n arbitrary: c) (simp_all add: crc_byte_0)

lemma crc_two_bytes:
  assumes "foldl crc_byte 0 [a, b] = 0"
  shows "a = 0 \<and> b = 0"
proof -
  let ?x = "push_bit 8 (ucast a) :: u16" and ?y = "ucast b :: u16"
  have "crc_bits 8 (crc_bits 8 ?x XOR push_bit 8 ?y) = 0" using assms by (simp add: crc_byte_def)
  moreover have "crc_bits 8 ?y = push_bit 8 ?y"
    by (rule crc_bits_low) (auto simp: bit_simps dest: bit_imp_le_length)
  ultimately have "crc_bits 8 (crc_bits 8 (?x XOR ?y)) = 0" by (simp add: crc_bits_xor)
  then have z: "?x XOR ?y = 0" by (simp add: crc_bits_eq_0)
  have "bit a n = False" if "n < 8" for n
    using that arg_cong [OF z, of "\<lambda>w. bit w (n + 8)"] by (auto simp: bit_simps dest: bit_imp_le_length)
  moreover have "bit b n = False" if "n < 8" for n
    using that arg_cong [OF z, of "\<lambda>w. bit w n"] by (auto simp: bit_simps)
  ultimately show ?thesis by (auto intro!: bit_word_eqI)
qed


lemma crc16_is_crc_eq:
  "crc16_xmodem buf len = (if length buf < len then Inl OutOfBounds else Inr (crc_ref (take len buf)))"
  by (simp add: crc16_xmodem_def crc_ref_def crc16_step_fun)

text \<open>C11. The table-driven checksum is the CRC of the message, computed bit by bit with polynomial
  \<open>x^16 + x^12 + x^5 + 1\<close>, high bit first, from 0; it reads exactly \<open>len\<close> bytes and never outside its table.\<close>

theorem crc16_is_crc:
  "crc16_xmodem buf len = (if length buf < len then Inl OutOfBounds else Inr (crc_ref (take len buf)))"
  by (rule crc16_is_crc_eq)

lemma crc16_bursts:
  assumes "(a, b) \<noteq> (c, d)"
  shows "crc_ref (p @ [a, b] @ q) \<noteq> crc_ref (p @ [c, d] @ q)"
proof
  let ?f = "foldl crc_byte"
  assume "crc_ref (p @ [a, b] @ q) = crc_ref (p @ [c, d] @ q)"
  then have eq: "?f 0 (p @ [a, b] @ q) = ?f 0 (p @ [c, d] @ q)" by (simp add: crc_ref_def)
  have p0: "?f 0 (replicate (length p) 0) = 0" using foldl_crc_zeros [of 0] by simp
  have z: "bytes_xor xs xs = replicate (length xs) 0" for xs :: bytes
    by (induction xs) (simp_all add: bytes_xor_def)
  have "?f (0 XOR 0) (bytes_xor (p @ [a, b] @ q) (p @ [c, d] @ q)) = 0"
    using eq by (subst foldl_crc_xor) simp_all
  moreover have "bytes_xor (p @ [a, b] @ q) (p @ [c, d] @ q) =
      replicate (length p) 0 @ [a XOR c, b XOR d] @ replicate (length q) 0"
    using z [of p] z [of q] by (simp add: bytes_xor_def)
  ultimately have "?f (?f (?f 0 (replicate (length p) 0)) [a XOR c, b XOR d]) (replicate (length q) 0) = 0" by simp
  then have "?f 0 [a XOR c, b XOR d] = 0"
    by (simp add: p0 foldl_crc_zeros)
  then have "a XOR c = 0 \<and> b XOR d = 0" by (rule crc_two_bytes)
  moreover have "x = y" if "x XOR y = 0" for x y :: u8
  proof -
    have "x = (x XOR y) XOR y" by (simp add: xor.assoc)
    with that show ?thesis by simp
  qed
  ultimately have "a = c \<and> b = d" by blast
  with assms show False by simp
qed

text \<open>Two messages of one length that differ only in one place, by up to two adjacent bytes, have different
  checksums: every such corruption of a packet is detected.\<close>

lemma crc16_detects_bursts:
  assumes "(a, b) \<noteq> (c, d)"
  shows "crc16_xmodem (p @ [a, b] @ q) (length p + 2 + length q) \<noteq>
    crc16_xmodem (p @ [c, d] @ q) (length p + 2 + length q)"
  using crc16_bursts [OF assms, of p q] by (simp add: crc16_is_crc_eq)

end
