(* ===== verification/EM_Cscan.thy ===== *)
theory EM_Cscan
  imports EM_Prelude
begin

section \<open>Text to numbers: what the firmware uses of the C library\<close>

text \<open>
  \<open>atoi\<close>, \<open>strtoull\<close> and \<open>sscanf\<close> as the C standard defines them, on the bytes of the object their
  argument points into: reading past its end is a fault, a value that the result type cannot hold is undefined
  for \<open>atoi\<close> and \<open>sscanf\<close>. A conversion of \<open>sscanf\<close> takes the longest prefix of the input that starts
  a text of its form, and fails when that prefix is not such a text. The form is an automaton. The
  rounding of a decimal text to a \<open>float\<close> is a parameter of the model, so a float conversion yields
  the matched text.
\<close>

definition c_space :: "u8 \<Rightarrow> bool" where
  "c_space b \<longleftrightarrow> b = 32 \<or> (9 \<le> b \<and> b \<le> 13)"

definition c_digit :: "u8 \<Rightarrow> bool" where
  "c_digit b \<longleftrightarrow> 48 \<le> b \<and> b \<le> 57"

definition c_xdigit :: "u8 \<Rightarrow> bool" where
  "c_xdigit b \<longleftrightarrow> c_digit b \<or> (65 \<le> b \<and> b \<le> 70) \<or> (97 \<le> b \<and> b \<le> 102)"

definition c_sign :: "u8 \<Rightarrow> bool" where
  "c_sign b \<longleftrightarrow> b = 43 \<or> b = 45"

definition c_alnum :: "u8 \<Rightarrow> bool" where
  "c_alnum b \<longleftrightarrow> c_digit b \<or> (65 \<le> b \<and> b \<le> 90) \<or> (97 \<le> b \<and> b \<le> 122) \<or> b = 95"

definition c_lower :: "u8 \<Rightarrow> u8" where
  "c_lower b = (if 65 \<le> b \<and> b \<le> 90 then b + 32 else b)"

definition digit_val :: "u8 \<Rightarrow> nat" where
  "digit_val b = (if c_digit b then unat b - 48 else unat (c_lower b) - 87)"

definition text_value :: "nat \<Rightarrow> bytes \<Rightarrow> nat" where
  "text_value base ds = foldl (\<lambda>acc b. acc * base + digit_val b) 0 ds"

abbreviation INT_MIN :: int where "INT_MIN \<equiv> - (2 ^ 31)"
abbreviation INT_MAX :: int where "INT_MAX \<equiv> 2 ^ 31 - 1"

subsection \<open>\<open>atoi\<close> and \<open>strtoull\<close>\<close>

fun number_digits :: "nat \<Rightarrow> bytes \<Rightarrow> nat outcome" where
  "number_digits acc [] = Inl OutOfBounds"
| "number_digits acc (b # bs) = (if c_digit b then number_digits (acc * 10 + digit_val b) bs else Inr acc)"

fun number_text :: "bytes \<Rightarrow> (bool \<times> nat) outcome" where
  "number_text [] = Inl OutOfBounds"
| "number_text (b # bs) =
     (if c_space b then number_text bs
      else if c_sign b then obind (number_digits 0 bs) (\<lambda>v. Inr (b = 45, v))
      else obind (number_digits 0 (b # bs)) (\<lambda>v. Inr (False, v)))"

definition c_atoi :: "bytes \<Rightarrow> int outcome" where
  "c_atoi mem = obind (number_text mem) (\<lambda>(neg, v).
     let i = (if neg then - int v else int v) in
     if i < INT_MIN \<or> INT_MAX < i then Inl Undefined else Inr i)"

definition c_strtoull :: "bytes \<Rightarrow> u64 outcome" where
  "c_strtoull mem = obind (number_text mem) (\<lambda>(neg, v).
     Inr (if 2 ^ 64 \<le> v then - 1 else if neg then - word_of_nat v else word_of_nat v))"

subsection \<open>\<open>sscanf\<close>\<close>

datatype int_state = I_start | I_sign | I_zero | I_prefix | I_digits

fun dec_next :: "int_state \<Rightarrow> u8 \<Rightarrow> int_state option" where
  "dec_next I_start b = (if c_sign b then Some I_sign else if c_digit b then Some I_digits else None)"
| "dec_next I_zero b = None"
| "dec_next I_prefix b = None"
| "dec_next q b = (if c_digit b then Some I_digits else None)"

fun hex_next :: "int_state \<Rightarrow> u8 \<Rightarrow> int_state option" where
  "hex_next I_start b =
     (if c_sign b then Some I_sign else if b = 48 then Some I_zero else if c_xdigit b then Some I_digits else None)"
| "hex_next I_sign b = (if b = 48 then Some I_zero else if c_xdigit b then Some I_digits else None)"
| "hex_next I_zero b = (if c_lower b = 120 then Some I_prefix else if c_xdigit b then Some I_digits else None)"
| "hex_next q b = (if c_xdigit b then Some I_digits else None)"

definition int_accept :: "int_state \<Rightarrow> bool" where
  "int_accept q \<longleftrightarrow> q = I_digits \<or> q = I_zero"

datatype fl_state =
    F_start | F_sign | F_zero | F_int | F_dot | F_frac | F_exp | F_expsign | F_expdigits
  | F_hex | F_hexint | F_hexdot | F_hexfrac | F_inf nat | F_nan nat | F_nanopen | F_nanclose

definition word_inf :: bytes where "word_inf = [105, 110, 102, 105, 110, 105, 116, 121]"
definition word_nan :: bytes where "word_nan = [110, 97, 110]"

definition fl_first :: "u8 \<Rightarrow> fl_state option" where
  "fl_first b =
     (if b = 48 then Some F_zero else if c_digit b then Some F_int else if b = 46 then Some F_dot
      else if c_lower b = 105 then Some (F_inf 1) else if c_lower b = 110 then Some (F_nan 1) else None)"

definition fl_exp_or :: "u8 \<Rightarrow> fl_state option \<Rightarrow> fl_state option" where
  "fl_exp_or b q = (if c_lower b = 101 then Some F_exp else q)"

definition fl_hexp_or :: "u8 \<Rightarrow> fl_state option \<Rightarrow> fl_state option" where
  "fl_hexp_or b q = (if c_lower b = 112 then Some F_exp else q)"

fun fl_next :: "fl_state \<Rightarrow> u8 \<Rightarrow> fl_state option" where
  "fl_next F_start b = (if c_sign b then Some F_sign else fl_first b)"
| "fl_next F_sign b = fl_first b"
| "fl_next F_zero b =
     (if c_lower b = 120 then Some F_hex
      else fl_exp_or b (if c_digit b then Some F_int else if b = 46 then Some F_frac else None))"
| "fl_next F_int b = fl_exp_or b (if c_digit b then Some F_int else if b = 46 then Some F_frac else None)"
| "fl_next F_dot b = (if c_digit b then Some F_frac else None)"
| "fl_next F_frac b = fl_exp_or b (if c_digit b then Some F_frac else None)"
| "fl_next F_exp b = (if c_sign b then Some F_expsign else if c_digit b then Some F_expdigits else None)"
| "fl_next F_expsign b = (if c_digit b then Some F_expdigits else None)"
| "fl_next F_expdigits b = (if c_digit b then Some F_expdigits else None)"
| "fl_next F_hex b = (if c_xdigit b then Some F_hexint else if b = 46 then Some F_hexdot else None)"
| "fl_next F_hexint b = fl_hexp_or b (if c_xdigit b then Some F_hexint else if b = 46 then Some F_hexfrac else None)"
| "fl_next F_hexdot b = (if c_xdigit b then Some F_hexfrac else None)"
| "fl_next F_hexfrac b = fl_hexp_or b (if c_xdigit b then Some F_hexfrac else None)"
| "fl_next (F_inf n) b = (if n < 8 \<and> c_lower b = word_inf ! n then Some (F_inf (Suc n)) else None)"
| "fl_next (F_nan n) b =
     (if n < 3 then (if c_lower b = word_nan ! n then Some (F_nan (Suc n)) else None)
      else if b = 40 then Some F_nanopen else None)"
| "fl_next F_nanopen b = (if b = 41 then Some F_nanclose else if c_alnum b then Some F_nanopen else None)"
| "fl_next F_nanclose b = None"

fun fl_accept :: "fl_state \<Rightarrow> bool" where
  "fl_accept (F_inf n) \<longleftrightarrow> n = 3 \<or> n = 8"
| "fl_accept (F_nan n) \<longleftrightarrow> n = 3"
| "fl_accept q \<longleftrightarrow> q \<in> {F_zero, F_int, F_frac, F_expdigits, F_hexint, F_hexfrac, F_nanclose}"

text \<open>The longest prefix, at most \<open>w\<close> bytes when a width is given; the state it leads to; the rest.\<close>

fun scan_item :: "('q \<Rightarrow> u8 \<Rightarrow> 'q option) \<Rightarrow> nat option \<Rightarrow> 'q \<Rightarrow> bytes \<Rightarrow> bytes \<times> 'q \<times> bytes" where
  "scan_item nx w q [] = ([], q, [])"
| "scan_item nx w q (b # bs) =
     (if w = Some 0 then ([], q, b # bs)
      else case nx q b of
        None \<Rightarrow> ([], q, b # bs)
      | Some q' \<Rightarrow> (case scan_item nx (map_option (\<lambda>n. n - 1) w) q' bs of
          (item, qf, rest) \<Rightarrow> (b # item, qf, rest)))"

text \<open>\<open>%f\<close>, \<open>%d\<close> with an optional width, \<open>%ld\<close>, \<open>%lu\<close>, \<open>%lx\<close> and \<open>%hhd\<close>; \<open>long\<close> has 32 bits.\<close>

datatype scan_conv = Sc_f "nat option" | Sc_d "nat option" | Sc_ld | Sc_lu | Sc_lx | Sc_hhd

datatype scan_val = V_f bytes | V_i int

definition item_int :: "nat \<Rightarrow> bytes \<Rightarrow> int" where
  "item_int base item =
     (let body = dropWhile c_sign item;
          ds = (if base = 16 \<and> 2 \<le> length body \<and> c_lower (body ! 1) = 120 then drop 2 body else body);
          v = int (text_value base ds)
      in if item \<noteq> [] \<and> hd item = 45 then - v else v)"

fun conv_automaton :: "scan_conv \<Rightarrow> int_state \<Rightarrow> u8 \<Rightarrow> int_state option" where
  "conv_automaton Sc_lx = hex_next"
| "conv_automaton c = dec_next"

fun conv_base :: "scan_conv \<Rightarrow> nat" where
  "conv_base Sc_lx = 16"
| "conv_base c = 10"

fun conv_width :: "scan_conv \<Rightarrow> nat option" where
  "conv_width (Sc_f w) = w"
| "conv_width (Sc_d w) = w"
| "conv_width c = None"

text \<open>An unsigned conversion accepts a sign; the negated value is taken modulo \<open>2^32\<close>.\<close>

fun conv_value :: "scan_conv \<Rightarrow> int \<Rightarrow> int outcome" where
  "conv_value Sc_lu i = (if \<bar>i\<bar> < 2 ^ 32 then Inr (i mod 2 ^ 32) else Inl Undefined)"
| "conv_value Sc_lx i = (if \<bar>i\<bar> < 2 ^ 32 then Inr (i mod 2 ^ 32) else Inl Undefined)"
| "conv_value Sc_hhd i = (if - 128 \<le> i \<and> i \<le> 127 then Inr i else Inl Undefined)"
| "conv_value c i = (if INT_MIN \<le> i \<and> i \<le> INT_MAX then Inr i else Inl Undefined)"

text \<open>The conversions made, in order; their number is the result of \<open>sscanf\<close> (or \<open>EOF\<close> instead of 0 at the
  end of the input, which the callers do not tell apart). The conversions of a format are separated by
  blanks, which match any white space, as a conversion does itself.\<close>

fun scan_fields :: "scan_conv list \<Rightarrow> bytes \<Rightarrow> scan_val list outcome" where
  "scan_fields [] s = Inr []"
| "scan_fields (c # cs) s =
     (let s' = dropWhile c_space s in
      case c of
        Sc_f w \<Rightarrow> (case scan_item fl_next w F_start s' of (item, q, rest) \<Rightarrow>
          if fl_accept q then obind (scan_fields cs rest) (\<lambda>vs. Inr (V_f item # vs)) else Inr [])
      | _ \<Rightarrow> (case scan_item (conv_automaton c) (conv_width c) I_start s' of (item, q, rest) \<Rightarrow>
          if int_accept q
          then obind (conv_value c (item_int (conv_base c) item))
                 (\<lambda>i. obind (scan_fields cs rest) (\<lambda>vs. Inr (V_i i # vs)))
          else Inr []))"

definition c_sscanf :: "scan_conv list \<Rightarrow> bytes \<Rightarrow> scan_val list outcome" where
  "c_sscanf cs mem = obind (c_string mem) (scan_fields cs)"

subsection \<open>Decimal texts\<close>

lemma c_digit_not [simp]:
  "c_digit b \<Longrightarrow> \<not> c_space b" "c_digit b \<Longrightarrow> \<not> c_sign b" "c_digit b \<Longrightarrow> b \<noteq> 0" "c_digit b \<Longrightarrow> b \<noteq> 46"
  by (auto simp: c_digit_def c_space_def c_sign_def word_le_nat_alt)

lemma number_digits_stop:
  assumes "list_all c_digit ds" "\<not> c_digit b"
  shows "number_digits acc (ds @ b # rest) = Inr (foldl (\<lambda>acc b. acc * 10 + digit_val b) acc ds)"
  using assms by (induction ds arbitrary: acc) simp_all

lemma number_digits_end: "list_all c_digit ds \<Longrightarrow> number_digits acc ds = Inl OutOfBounds"
  by (induction ds arbitrary: acc) simp_all

lemma number_text_digits:
  assumes "list_all c_digit ds" "ds \<noteq> []" "\<not> c_digit b"
  shows "number_text (ds @ b # rest) = Inr (False, text_value 10 ds)"
proof -
  obtain d ds' where ds: "ds = d # ds'" "c_digit d" using assms(1,2) by (cases ds) auto
  then have "number_text (ds @ b # rest) = obind (number_digits 0 (ds @ b # rest)) (\<lambda>v. Inr (False, v))" by simp
  with number_digits_stop [OF assms(1,3), of 0 rest] show ?thesis by (simp add: text_value_def)
qed

lemma number_text_unterminated:
  assumes "list_all c_digit ds"
  shows "number_text ds = Inl OutOfBounds"
  using number_digits_end [OF assms, of 0] assms by (cases ds) auto

lemma scan_item_digits:
  assumes "list_all c_digit ds" "\<not> c_digit b"
  shows "scan_item dec_next None I_digits (ds @ b # rest) = (ds, I_digits, b # rest)"
    "scan_item dec_next None I_digits ds = (ds, I_digits, [])"
  using assms by (induction ds) simp_all

lemma scan_int_digits:
  assumes "list_all c_digit ds" "ds \<noteq> []" "\<not> c_digit b"
  shows "scan_item dec_next None I_start (ds @ b # rest) = (ds, I_digits, b # rest)"
    "scan_item dec_next None I_start ds = (ds, I_digits, [])"
proof -
  obtain d ds' where ds: "ds = d # ds'" "c_digit d" "list_all c_digit ds'" using assms(1,2) by (cases ds) auto
  with scan_item_digits [OF ds(3) assms(3)]
  show "scan_item dec_next None I_start (ds @ b # rest) = (ds, I_digits, b # rest)"
    "scan_item dec_next None I_start ds = (ds, I_digits, [])" by simp_all
qed

lemma item_int_digits: "list_all c_digit ds \<Longrightarrow> item_int 10 ds = int (text_value 10 ds)"
proof -
  assume d: "list_all c_digit ds"
  then have "dropWhile c_sign ds = ds" by (cases ds) auto
  moreover have "ds = [] \<or> hd ds \<noteq> 45" using d by (cases ds) (auto simp: c_digit_def)
  ultimately show ?thesis by (auto simp: item_int_def)
qed

lemma digit_val_less: "c_digit b \<Longrightarrow> digit_val b \<le> 9"
  by (auto simp: digit_val_def c_digit_def word_le_nat_alt)

lemma foldl_text_bound:
  "list_all c_digit ds \<Longrightarrow>
   foldl (\<lambda>acc b. acc * 10 + digit_val b) acc ds < (acc + 1) * 10 ^ length ds"
proof (induction ds arbitrary: acc)
  case (Cons d ds)
  then have "foldl (\<lambda>acc b. acc * 10 + digit_val b) (acc * 10 + digit_val d) ds
      < (acc * 10 + digit_val d + 1) * 10 ^ length ds" by simp
  also have "\<dots> \<le> (acc * 10 + 10) * 10 ^ length ds"
    using digit_val_less [of d] Cons.prems by (intro mult_right_mono) simp_all
  finally show ?case by (simp add: algebra_simps)
qed simp

lemma text_value_bound: "list_all c_digit ds \<Longrightarrow> text_value 10 ds < 10 ^ length ds"
  using foldl_text_bound [of ds 0] by (simp add: text_value_def)

end
