(* ===== verification/EM_Rs232.thy ===== *)
theory EM_Rs232
  imports EM_Cscan EM_Crc16
begin

section \<open>The inverter protocol (main/modules/rs232\_2400\_protocol)\<close>

text \<open>
  Requests and responses are text packets \<open>( body crc CR\<close> on a serial line. A response is written to the
  output memory \<open>out\<close> of the caller, the image of the C structure of the response in little-endian byte
  order; a store outside it is a fault. The parsers read \<open>p\<close>, the memory from their read
  pointer to the end of the receive buffer, of which \<open>len\<close> bytes are the packet. \<open>flt\<close> gives the bits of the
  \<open>float\<close> nearest to a decimal text. Counters that only a log line reads are part of the state
  as the code has them.
\<close>

subsection \<open>Memory\<close>

definition rd8 :: "bytes \<Rightarrow> nat \<Rightarrow> u8 outcome" where
  "rd8 p i = (if i < length p then Inr (p ! i) else Inl OutOfBounds)"

definition rd_mem :: "bytes \<Rightarrow> nat \<Rightarrow> nat \<Rightarrow> bytes outcome" where
  "rd_mem p i n = (if i + n \<le> length p then Inr (take n (drop i p)) else Inl OutOfBounds)"

definition st_mem :: "bytes \<Rightarrow> nat \<Rightarrow> bytes \<Rightarrow> bytes outcome" where
  "st_mem out i bs = (if i + length bs \<le> length out then Inr (overwrite out i bs) else Inl OutOfBounds)"

definition st_word :: "bytes \<Rightarrow> nat \<Rightarrow> nat \<Rightarrow> int \<Rightarrow> bytes outcome" where
  "st_word out i n v = st_mem out i (nat_le n (nat (v mod 2 ^ (8 * n))))"

definition c_strncmp :: "bytes \<Rightarrow> bytes \<Rightarrow> int outcome" where
  "c_strncmp p lit =
     (if length p < length lit then Inl OutOfBounds else Inr (if take (length lit) p = lit then 0 else 1))"

fun store_fields :: "(bytes \<Rightarrow> u32) \<Rightarrow> (nat \<times> nat) option list \<Rightarrow> scan_val list \<Rightarrow> bytes \<Rightarrow> bytes outcome" where
  "store_fields flt (d # ds) (v # vs) out =
     (case d of
        None \<Rightarrow> store_fields flt ds vs out
      | Some (off, n) \<Rightarrow>
          obind (case v of V_f t \<Rightarrow> st_word out off 4 (uint (flt t)) | V_i i \<Rightarrow> st_word out off n i)
            (store_fields flt ds vs))"
| "store_fields flt ds vs out = Inr out"

text \<open>\<open>sscanf\<close> into the output, then the check of the number of conversions.\<close>

definition scan_to ::
  "(bytes \<Rightarrow> u32) \<Rightarrow> scan_conv list \<Rightarrow> (nat \<times> nat) option list \<Rightarrow> nat \<Rightarrow> int \<Rightarrow> bytes \<Rightarrow> bytes \<Rightarrow> (int \<times> bytes) outcome" where
  "scan_to flt convs dests expected err p out =
     obind (c_sscanf convs p) (\<lambda>vs.
     obind (store_fields flt dests vs out) (\<lambda>out.
       Inr (if length vs \<noteq> expected then err else 0, out)))"

subsection \<open>The response parsers\<close>

type_synonym rsp_parser = "bytes \<Rightarrow> nat \<Rightarrow> bytes \<Rightarrow> (int \<times> bytes) outcome"

definition parse_rsp_is_nak :: "bytes \<Rightarrow> nat \<Rightarrow> int outcome" where
  "parse_rsp_is_nak p len = (if len < 3 then Inr (- 1) else c_strncmp p [78, 65, 75])"

definition parse_rsp_qpi :: rsp_parser where
  "parse_rsp_qpi p len out =
     (if len < 4 then Inr (- 1, out)
      else obind (c_strncmp p [80, 73]) (\<lambda>cmp.
        if cmp \<noteq> 0 then Inr (- 2, out)
        else obind (rd_mem p 2 2) (\<lambda>protocol_id_str.
          obind (c_atoi protocol_id_str) (\<lambda>v.
          obind (st_word out 0 4 v) (\<lambda>out.
            Inr (if 99 < v mod 2 ^ 32 then - 3 else 0, out))))))"

text \<open>\<open>snprintf\<close> with \<open>%.5s\<close>: at most five bytes up to a zero, and a zero.\<close>

definition parse_rsp_qid :: rsp_parser where
  "parse_rsp_qid p len out =
     (if len \<noteq> 14 then Inr (- 1, out)
      else obind (rd_mem p 1 4) (\<lambda>types. obind (st_mem out 0 types) (\<lambda>out.
        obind (rd_mem p 5 2) (\<lambda>year. obind (st_mem out 4 (year @ [0])) (\<lambda>out.
        obind (rd_mem p 7 2) (\<lambda>month. obind (st_mem out 7 (month @ [0])) (\<lambda>out.
        obind (rd_mem p 9 5) (\<lambda>manufacturer.
        obind (st_mem out 10 (takeWhile (\<lambda>b. b \<noteq> 0) manufacturer @ [0])) (\<lambda>out. Inr (0, out))))))))))"

definition parse_rsp_qvfw :: rsp_parser where
  "parse_rsp_qvfw p len out =
     obind (st_word out 0 8 0) (\<lambda>out.
       if len \<noteq> 14 then Inr (- 1, out)
       else obind (rd_mem p 6 5) (\<lambda>major.
         let version_str = overwrite (replicate 10 0) 0 major in
         obind (c_strtoull version_str) (\<lambda>fw_ver.
         obind (rd_mem p 12 2) (\<lambda>minor.
         let version_str = overwrite version_str 5 minor in
         obind (c_strtoull (drop 5 version_str)) (\<lambda>m.
         obind (st_word out 0 8 (uint (push_bit 8 fw_ver OR ucast (ucast m :: u8)))) (\<lambda>out. Inr (0, out)))))))"

definition parse_rsp_qmd :: rsp_parser where
  "parse_rsp_qmd p len out =
     (if len < 15 then Inr (- 1, out)
      else obind (rd_mem p 1 15) (\<lambda>model. obind (st_mem out 0 (model @ [0])) (\<lambda>out. Inr (0, out))))"

definition parse_rsp_qpiri :: "(bytes \<Rightarrow> u32) \<Rightarrow> rsp_parser" where
  "parse_rsp_qpiri flt p len out =
     (if len \<noteq> 46 then Inr (- 1, out)
      else scan_to flt
        [Sc_f (Some 5), Sc_f (Some 4), Sc_f (Some 5), Sc_f (Some 5), Sc_f (Some 5), Sc_f (Some 4), Sc_f (Some 5),
         Sc_d (Some 1), Sc_d (Some 2), Sc_d (Some 1)]
        [Some (0, 4), Some (4, 4), Some (8, 4), Some (12, 4), Some (16, 4), Some (20, 4), Some (24, 4),
         Some (28, 4), Some (32, 4), Some (36, 4)] 10 (- 2) p out)"

text \<open>The status words have one hexadecimal digit per flag; bit \<open>i\<close> of the result is the low bit of digit
  \<open>i\<close>. The loop adds them to what the output holds.\<close>

fun status_bits :: "nat \<Rightarrow> u32 \<Rightarrow> u32" where
  "status_bits 0 status = 0"
| "status_bits (Suc i) status = status_bits i status OR push_bit i (drop_bit (i * 4) status AND 1)"

definition scanned_status :: "nat \<Rightarrow> scan_val list \<Rightarrow> u32" where
  "scanned_status i vs = (if i < length vs then (case vs ! i of V_i v \<Rightarrow> word_of_int v | V_f t \<Rightarrow> 0) else 0)"

definition qpigs_convs :: "scan_conv list" where
  "qpigs_convs =
     [Sc_f None, Sc_f None, Sc_f None, Sc_f None, Sc_d None, Sc_d None, Sc_d None, Sc_d None, Sc_f None,
      Sc_d None, Sc_d None, Sc_d None, Sc_f None, Sc_f None, Sc_f None, Sc_d None, Sc_lx, Sc_hhd, Sc_hhd,
      Sc_d None, Sc_lx]"

definition qpigs_dests :: "(nat \<times> nat) option list" where
  "qpigs_dests =
     [Some (0, 4), Some (4, 4), Some (8, 4), Some (12, 4), Some (20, 4), Some (16, 4), Some (24, 4), Some (28, 4),
      Some (32, 4), Some (36, 4), Some (48, 4), Some (52, 4), Some (56, 4), Some (60, 4), Some (44, 4),
      Some (40, 4), None, Some (70, 1), Some (71, 1), Some (64, 4), None]"

definition parse_rsp_qpigs :: "(bytes \<Rightarrow> u32) \<Rightarrow> rsp_parser" where
  "parse_rsp_qpigs flt p len out =
     (if len < 106 then Inr (- 1, out)
      else
        obind (c_sscanf qpigs_convs p) (\<lambda>vs.
        obind (store_fields flt qpigs_dests vs out) (\<lambda>out.
        obind (rd_mem out 68 2) (\<lambda>s1.
        obind (st_word out 68 2 (uint (word_of_nat (le_nat s1) OR status_bits 8 (scanned_status 16 vs)))) (\<lambda>out.
        obind (rd_mem out 72 1) (\<lambda>s2.
        obind (st_word out 72 1 (uint (word_of_nat (le_nat s2) OR status_bits 8 (scanned_status 20 vs)))) (\<lambda>out.
          Inr (0, out))))))))"

text \<open>The offsets of the flag members and their bit in \<open>presence\<close>.\<close>

definition qflag_member :: "u8 \<Rightarrow> (nat \<times> u16) option" where
  "qflag_member b =
     (if b = 65 then Some (2, 0x01) else if b = 66 then Some (3, 0x02) else if b = 74 then Some (4, 0x04)
      else if b = 75 then Some (5, 0x08) else if b = 85 then Some (6, 0x10) else if b = 86 then Some (7, 0x20)
      else if b = 88 then Some (8, 0x40) else if b = 89 then Some (9, 0x80) else if b = 90 then Some (10, 0x100)
      else None)"

fun qflag_loop :: "bytes \<Rightarrow> nat \<Rightarrow> nat \<Rightarrow> bool \<Rightarrow> bytes \<Rightarrow> (int \<times> bytes) outcome" where
  "qflag_loop p i 0 enable out = Inr (0, out)"
| "qflag_loop p i (Suc n) enable out =
     obind (rd8 p i) (\<lambda>b.
       if b = 69 then qflag_loop p (Suc i) n True out
       else if b = 68 then qflag_loop p (Suc i) n False out
       else case qflag_member b of
         None \<Rightarrow> Inr (- 3, out)
       | Some (off, bt) \<Rightarrow>
           obind (st_mem out off [if enable then 1 else 0]) (\<lambda>out.
           obind (rd_mem out 0 2) (\<lambda>pr.
           obind (st_word out 0 2 (uint (word_of_nat (le_nat pr) OR bt))) (\<lambda>out.
             qflag_loop p (Suc i) n enable out))))"

definition parse_rsp_qflag :: rsp_parser where
  "parse_rsp_qflag p len out =
     (if len \<noteq> 11 then Inr (- 1, out)
      else obind (rd8 p 0) (\<lambda>b.
        if b \<noteq> 69 \<and> b \<noteq> 68 then Inr (- 2, out)
        else obind (qflag_loop p 0 len False out) (\<lambda>(err, out).
          if err \<noteq> 0 then Inr (err, out)
          else obind (rd_mem out 0 2) (\<lambda>pr.
            Inr (if le_nat pr \<noteq> 0x1FF then - 4 else 0, out)))))"

definition parse_rsp_qmod :: rsp_parser where
  "parse_rsp_qmod p len out =
     (if len \<noteq> 1 then Inr (- 1, out)
      else obind (rd8 p 0) (\<lambda>b. obind (st_word out 0 4 (uint b)) (\<lambda>out. Inr (0, out))))"

definition parse_rsp_qgov :: rsp_parser where
  "parse_rsp_qgov p len out =
     (if len < 11 then Inr (- 1, out)
      else scan_to (\<lambda>_. 0) [Sc_d None, Sc_d None] [Some (0, 4), Some (4, 4)] 2 (- 2) p out)"

definition parse_rsp_qgof :: "(bytes \<Rightarrow> u32) \<Rightarrow> rsp_parser" where
  "parse_rsp_qgof flt p len out =
     (if len < 9 then Inr (- 1, out)
      else scan_to flt [Sc_f None, Sc_f None]
        [Some (0, 4), Some (4, 4)] 2 (- 2) p out)"

text \<open>The loop shifts after every character, so the flag of the last one has bit 1.\<close>

fun qpiws_loop :: "bytes \<Rightarrow> nat \<Rightarrow> nat \<Rightarrow> u64 \<Rightarrow> u64 outcome" where
  "qpiws_loop p i 0 flags = Inr flags"
| "qpiws_loop p i (Suc n) flags =
     obind (rd8 p i) (\<lambda>b. qpiws_loop p (Suc i) n (push_bit 1 (if b = 49 then flags OR 1 else flags)))"

definition parse_rsp_qpiws :: rsp_parser where
  "parse_rsp_qpiws p len out =
     (let len = (if 64 < len then 64 else len) in
      obind (st_word out 0 8 0) (\<lambda>out.
      obind (qpiws_loop p 0 len 0) (\<lambda>flags.
      obind (st_word out 0 8 (uint flags)) (\<lambda>out. Inr (0, out)))))"

fun qpicf_loop :: "bytes \<Rightarrow> nat \<Rightarrow> nat \<Rightarrow> u32 \<Rightarrow> u32 outcome" where
  "qpicf_loop p i 0 fault = Inr fault"
| "qpicf_loop p i (Suc n) fault =
     obind (rd8 p i) (\<lambda>b. qpicf_loop p (Suc i) n (push_bit 8 (fault OR ucast b)))"

definition parse_rsp_qpicf :: rsp_parser where
  "parse_rsp_qpicf p len out =
     (if len \<noteq> 4 then Inr (- 1, out)
      else obind (qpicf_loop p 0 len 0) (\<lambda>fault. obind (st_word out 0 4 (uint fault)) (\<lambda>out. Inr (0, out))))"

text \<open>The result is stored after every digit; \<open>acc\<close> is what it holds.\<close>

fun strdec2int_loop :: "bytes \<Rightarrow> nat \<Rightarrow> nat \<Rightarrow> int \<Rightarrow> (int \<times> int) outcome" where
  "strdec2int_loop p i 0 acc = Inr (0, acc)"
| "strdec2int_loop p i (Suc n) acc =
     obind (rd8 p i) (\<lambda>b.
       if (b < 48 \<or> 57 < b) \<and> b \<noteq> 45 then Inr (- 1, acc)
       else
         let ten = acc * 10; acc' = ten + (uint b - 48) in
         if ten < INT_MIN \<or> INT_MAX < ten \<or> acc' < INT_MIN \<or> INT_MAX < acc' then Inl Undefined
         else strdec2int_loop p (Suc i) n acc')"

definition strdec2int :: "bytes \<Rightarrow> nat \<Rightarrow> (int \<times> int) outcome" where
  "strdec2int p str_len = strdec2int_loop p 0 str_len 0"

definition parse_rsp_qopmp :: rsp_parser where
  "parse_rsp_qopmp p len out =
     (if len < 5 then Inr (- 1, out)
      else obind (strdec2int p len) (\<lambda>(err, v). obind (st_word out 0 4 v) (\<lambda>out. Inr (err, out))))"

definition parse_rsp_qmpptv :: rsp_parser where
  "parse_rsp_qmpptv p len out =
     (if len < 7 then Inr (- 1, out)
      else scan_to (\<lambda>_. 0) [Sc_d None, Sc_d None] [Some (0, 4), Some (4, 4)] 2 (- 2) p out)"

definition parse_rsp_qpvipv :: rsp_parser where
  "parse_rsp_qpvipv p len out =
     (if len < 7 then Inr (- 1, out)
      else scan_to (\<lambda>_. 0) [Sc_d None, Sc_d None] [Some (0, 4), Some (4, 4)] 2 (- 2) p out)"

definition parse_rsp_qlst :: rsp_parser where
  "parse_rsp_qlst p len out =
     (if len < 2 then Inr (- 1, out)
      else obind (rd_mem p 0 (len - 1)) (\<lambda>bs.
        obind (st_mem [0, 0, 0] 0 bs) (\<lambda>buffer.
        obind (c_atoi buffer) (\<lambda>v. obind (st_word out 0 4 v) (\<lambda>out. Inr (0, out))))))"

definition parse_rsp_qtpr :: "(bytes \<Rightarrow> u32) \<Rightarrow> rsp_parser" where
  "parse_rsp_qtpr flt p len out =
     (if len < 17 then Inr (- 1, out)
      else scan_to flt [Sc_f None, Sc_f None, Sc_f None]
        [Some (0, 4), Some (4, 4), Some (8, 4)] 3 (- 2) p out)"

definition parse_rsp_qdi2 :: "(bytes \<Rightarrow> u32) \<Rightarrow> rsp_parser" where
  "parse_rsp_qdi2 flt p len out =
     (if len < 13 then Inr (- 1, out)
      else scan_to flt [Sc_f None, Sc_f None, Sc_lu]
        [Some (0, 4), Some (4, 4), Some (8, 4)] 3 (- 2) p out)"

definition parse_rsp_qgltv :: rsp_parser where
  "parse_rsp_qgltv p len out =
     (if len \<noteq> 7 then Inr (- 1, out)
      else scan_to (\<lambda>_. 0) [Sc_d None, Sc_d None] [Some (0, 4), Some (4, 4)] 2 (- 2) p out)"

definition parse_rsp_qdm :: "rsp_parser" where
  "parse_rsp_qdm p len out =
     (if len \<noteq> 3 then Inr (- 1, out)
      else scan_to (\<lambda>_. 0) [Sc_ld]
        [Some (0, 4)] 1 (- 2) p out)"

text \<open>\<open>char temp[len]\<close> has no element for the terminating zero.\<close>

definition parse_rsp_qpihf :: rsp_parser where
  "parse_rsp_qpihf p len out =
     obind (rd_mem p 0 len) (\<lambda>temp. obind (st_mem temp len [0]) (\<lambda>temp. Inr (- 1, out)))"

definition parse_rsp_qchgs :: "(bytes \<Rightarrow> u32) \<Rightarrow> rsp_parser" where
  "parse_rsp_qchgs flt p len out =
     (if len \<noteq> 20 then Inr (- 1, out)
      else scan_to flt [Sc_f None, Sc_f None, Sc_f None, Sc_f None]
        [Some (0, 4), Some (4, 4), Some (8, 4), Some (12, 4)] 4 (- 2) p out)"

subsection \<open>Packets\<close>

abbreviation EM_RS232_2400_QPI :: u16 where "EM_RS232_2400_QPI \<equiv> 1"
abbreviation EM_RS232_2400_QID :: u16 where "EM_RS232_2400_QID \<equiv> 2"
abbreviation EM_RS232_2400_QVFW :: u16 where "EM_RS232_2400_QVFW \<equiv> 3"
abbreviation EM_RS232_2400_QVFW2 :: u16 where "EM_RS232_2400_QVFW2 \<equiv> 4"
abbreviation EM_RS232_2400_QVFW3 :: u16 where "EM_RS232_2400_QVFW3 \<equiv> 5"
abbreviation EM_RS232_2400_QPIRI :: u16 where "EM_RS232_2400_QPIRI \<equiv> 6"
abbreviation EM_RS232_2400_QMD :: u16 where "EM_RS232_2400_QMD \<equiv> 7"
abbreviation EM_RS232_2400_QFLAG :: u16 where "EM_RS232_2400_QFLAG \<equiv> 8"
abbreviation EM_RS232_2400_QPIGS :: u16 where "EM_RS232_2400_QPIGS \<equiv> 9"
abbreviation EM_RS232_2400_QMOD :: u16 where "EM_RS232_2400_QMOD \<equiv> 10"
abbreviation EM_RS232_2400_QGOV :: u16 where "EM_RS232_2400_QGOV \<equiv> 17"
abbreviation EM_RS232_2400_QGOF :: u16 where "EM_RS232_2400_QGOF \<equiv> 18"
abbreviation EM_RS232_2400_QOPMP :: u16 where "EM_RS232_2400_QOPMP \<equiv> 19"
abbreviation EM_RS232_2400_QMPPTV :: u16 where "EM_RS232_2400_QMPPTV \<equiv> 20"
abbreviation EM_RS232_2400_QPVIPV :: u16 where "EM_RS232_2400_QPVIPV \<equiv> 21"
abbreviation EM_RS232_2400_QLST :: u16 where "EM_RS232_2400_QLST \<equiv> 22"
abbreviation EM_RS232_2400_QTPR :: u16 where "EM_RS232_2400_QTPR \<equiv> 23"
abbreviation EM_RS232_2400_QDI2 :: u16 where "EM_RS232_2400_QDI2 \<equiv> 24"
abbreviation EM_RS232_2400_QGLTV :: u16 where "EM_RS232_2400_QGLTV \<equiv> 25"
abbreviation EM_RS232_2400_QDM :: u16 where "EM_RS232_2400_QDM \<equiv> 27"
abbreviation EM_RS232_2400_QPIHF :: u16 where "EM_RS232_2400_QPIHF \<equiv> 29"
abbreviation EM_RS232_2400_QCHGS :: u16 where "EM_RS232_2400_QCHGS \<equiv> 26"
abbreviation EM_RS232_2400_QPICF :: u16 where "EM_RS232_2400_QPICF \<equiv> 30"
abbreviation EM_RS232_2400_QPIWS :: u16 where "EM_RS232_2400_QPIWS \<equiv> 41"

definition rsp_parser_of :: "(bytes \<Rightarrow> u32) \<Rightarrow> u16 \<Rightarrow> rsp_parser option" where
  "rsp_parser_of flt rq =
     (if rq = EM_RS232_2400_QPI then Some parse_rsp_qpi
      else if rq = EM_RS232_2400_QID then Some parse_rsp_qid
      else if rq = EM_RS232_2400_QVFW \<or> rq = EM_RS232_2400_QVFW2 \<or> rq = EM_RS232_2400_QVFW3 then Some parse_rsp_qvfw
      else if rq = EM_RS232_2400_QPIRI then Some (parse_rsp_qpiri flt)
      else if rq = EM_RS232_2400_QMD then Some parse_rsp_qmd
      else if rq = EM_RS232_2400_QFLAG then Some parse_rsp_qflag
      else if rq = EM_RS232_2400_QPIGS then Some (parse_rsp_qpigs flt)
      else if rq = EM_RS232_2400_QMOD then Some parse_rsp_qmod
      else if rq = EM_RS232_2400_QGOV then Some parse_rsp_qgov
      else if rq = EM_RS232_2400_QGOF then Some (parse_rsp_qgof flt)
      else if rq = EM_RS232_2400_QOPMP then Some parse_rsp_qopmp
      else if rq = EM_RS232_2400_QMPPTV then Some parse_rsp_qmpptv
      else if rq = EM_RS232_2400_QPVIPV then Some parse_rsp_qpvipv
      else if rq = EM_RS232_2400_QLST then Some parse_rsp_qlst
      else if rq = EM_RS232_2400_QTPR then Some (parse_rsp_qtpr flt)
      else if rq = EM_RS232_2400_QDI2 then Some (parse_rsp_qdi2 flt)
      else if rq = EM_RS232_2400_QGLTV then Some parse_rsp_qgltv
      else if rq = EM_RS232_2400_QDM then Some parse_rsp_qdm
      else if rq = EM_RS232_2400_QPIHF then Some parse_rsp_qpihf
      else if rq = EM_RS232_2400_QCHGS then Some (parse_rsp_qchgs flt)
      else if rq = EM_RS232_2400_QPICF then Some parse_rsp_qpicf
      else if rq = EM_RS232_2400_QPIWS then Some parse_rsp_qpiws
      else None)"

abbreviation PARSE_STATUS_UNKNOWN :: u16 where "PARSE_STATUS_UNKNOWN \<equiv> 0"
abbreviation PARSE_STATUS_OK :: u16 where "PARSE_STATUS_OK \<equiv> 1"
abbreviation PARSE_STATUS_NO_PACKET :: u16 where "PARSE_STATUS_NO_PACKET \<equiv> 2"
abbreviation PARSE_STATUS_INVALID_CRC :: u16 where "PARSE_STATUS_INVALID_CRC \<equiv> 3"
abbreviation PARSE_STATUS_RQ_REJECTED :: u16 where "PARSE_STATUS_RQ_REJECTED \<equiv> 4"
abbreviation PARSE_STATUS_RSP_UNEXPECTED :: u16 where "PARSE_STATUS_RSP_UNEXPECTED \<equiv> 5"
abbreviation PARSE_STATUS_PACKET_MALFORMED :: u16 where "PARSE_STATUS_PACKET_MALFORMED \<equiv> 6"

record rs232_stats =
  crc_err_cnt :: int
  valid_cnt :: int
  packet_cnt :: int

text \<open>What a call of \<open>rs232_2400_rsp_parse\<close> leaves: its result, the receive buffer, the output and \<open>*err\<close>.\<close>

record rsp_result =
  r_consumed :: nat
  r_data :: bytes
  r_out :: bytes
  r_err :: u16

fun find_start_loop :: "bytes \<Rightarrow> nat \<Rightarrow> nat option \<Rightarrow> nat option" where
  "find_start_loop [] i packet_start = packet_start"
| "find_start_loop (b # bs) i packet_start =
     find_start_loop bs (Suc i) (if b = 40 then Some i else packet_start)"

fun find_end_loop :: "bytes \<Rightarrow> nat \<Rightarrow> nat" where
  "find_end_loop [] i = 0"
| "find_end_loop (b # bs) i = (if b = 13 then i else find_end_loop bs (Suc i))"

definition rs232_2400_rsp_parse ::
  "(bytes \<Rightarrow> u32) \<Rightarrow> rs232_stats \<Rightarrow> u16 \<Rightarrow> bytes \<Rightarrow> nat \<Rightarrow> bytes \<Rightarrow> (rsp_result \<times> rs232_stats) outcome" where
  "rs232_2400_rsp_parse flt st rq_id data_in len_in output =
     (let res = (\<lambda>n. \<lparr>r_consumed = n, r_data = data_in, r_out = output, r_err = PARSE_STATUS_NO_PACKET\<rparr>) in
      if len_in < 5 then Inr (res 0, st)
      else if length data_in < len_in then Inl OutOfBounds
      else case find_start_loop (take len_in data_in) 0 None of
        None \<Rightarrow> Inr (res len_in, st)
      | Some packet_start \<Rightarrow>
          let packet_end = find_end_loop (drop packet_start (take len_in data_in)) packet_start in
          if packet_end = 0 then Inr (res packet_start, st)
          else if packet_end - packet_start \<le> 2 then Inr (res packet_start, st)
          else
            let st = st\<lparr>packet_cnt := packet_cnt st + 1\<rparr>;
                act_crc = push_bit 8 (ucast (data_in ! (packet_end - 2))) OR (ucast (data_in ! (packet_end - 2 + 1)) :: u16)
            in
            obind (crc16_xmodem (drop packet_start data_in) (packet_end - packet_start - 2)) (\<lambda>exp_crc.
              if exp_crc \<noteq> act_crc
              then Inr ((res (packet_end + 1))\<lparr>r_err := PARSE_STATUS_INVALID_CRC\<rparr>,
                        st\<lparr>crc_err_cnt := crc_err_cnt st + 1\<rparr>)
              else
                let data_in = data_in[packet_end - 2 := 0, packet_end - 2 + 1 := 0];
                    packet_len = packet_end - packet_start - 2 - 1;
                    packet = drop (packet_start + 1) data_in;
                    done = (\<lambda>out err. \<lparr>r_consumed = packet_end + 1, r_data = data_in, r_out = out, r_err = err\<rparr>)
                in
                obind (parse_rsp_is_nak packet packet_len) (\<lambda>nak_err.
                  if nak_err = 0
                  then obind (rd_mem packet 0 packet_len) (\<lambda>bs. obind (st_mem output 0 bs) (\<lambda>out.
                    Inr (done out PARSE_STATUS_RQ_REJECTED, st)))
                  else case rsp_parser_of flt rq_id of
                    None \<Rightarrow> Inr (done output PARSE_STATUS_NO_PACKET, st)
                  | Some parser \<Rightarrow>
                      obind (parser packet packet_len output) (\<lambda>(err, out).
                        let err = word_of_int err :: u16 in
                        Inr (done out err, if err = 0 then st\<lparr>valid_cnt := valid_cnt st + 1\<rparr> else st)))))"

text \<open>\<open>alloc\<close>: whether \<open>malloc\<close> gives memory.\<close>

definition rs232_2400_serialize :: "bool \<Rightarrow> u16 \<Rightarrow> bytes \<Rightarrow> nat \<Rightarrow> bytes outcome" where
  "rs232_2400_serialize alloc cmd payload payload_len =
     c_assert alloc
       (if length payload < payload_len then Inl OutOfBounds
        else obind (crc16_xmodem (take payload_len payload) payload_len) (\<lambda>crc.
          Inr (take payload_len payload @ [ucast (drop_bit 8 crc), ucast (crc AND 0xFF), 13])))"



subsection \<open>Framing\<close>

lemma find_start_none: "40 \<notin> set t \<Longrightarrow> find_start_loop t i s = s"
  by (induction t arbitrary: i s) auto

lemma find_start_last: "40 \<notin> set t \<Longrightarrow> find_start_loop (g @ 40 # t) i s = Some (i + length g)"
  by (induction g arbitrary: i s) (simp_all add: find_start_none)

lemma find_end_first: "13 \<notin> set b \<Longrightarrow> find_end_loop (b @ 13 # t) i = i + length b"
  by (induction b arbitrary: i) auto

definition crc_hi :: "u16 \<Rightarrow> u8" where "crc_hi c = ucast (drop_bit 8 c)"
definition crc_lo :: "u16 \<Rightarrow> u8" where "crc_lo c = ucast (c AND 0xFF)"

lemma crc_bytes: "push_bit 8 (ucast (crc_hi c)) OR (ucast (crc_lo c) :: u16) = c"
  unfolding crc_hi_def crc_lo_def mask_8
  by (rule bit_word_eqI) (auto simp: bit_simps)

lemma crc_bytes_inj:
  fixes h l h' l' :: u8
  shows "push_bit 8 (ucast h) OR (ucast l :: u16) = push_bit 8 (ucast h') OR ucast l' \<longleftrightarrow> h = h' \<and> l = l'"
proof
  assume eq: "push_bit 8 (ucast h) OR (ucast l :: u16) = push_bit 8 (ucast h') OR ucast l'"
  have high: "\<not> bit x (n + 8)" for x :: u8 and n
    by (auto dest: bit_imp_le_length)
  have "bit h n = bit h' n" if "n < 8" for n
    using that arg_cong [OF eq, of "\<lambda>w. bit w (n + 8)"] by (auto simp: bit_simps high)
  moreover have "bit l n = bit l' n" if "n < 8" for n
    using that arg_cong [OF eq, of "\<lambda>w. bit w n"] by (auto simp: bit_simps)
  ultimately show "h = h' \<and> l = l'" by (auto intro!: bit_word_eqI)
qed simp

text \<open>A packet with any two check bytes, after garbage \<open>g\<close> and before \<open>t\<close>.\<close>

definition rs232_packet :: "bytes \<Rightarrow> u8 \<Rightarrow> u8 \<Rightarrow> bytes" where
  "rs232_packet body h l = 40 # body @ [h, l, 13]"

lemma rsp_parse_packet:
  fixes g t body :: bytes
  assumes "body \<noteq> []" "40 \<notin> set (body @ [h, l] @ t)" "13 \<notin> set (body @ [h, l])"
  defines "data \<equiv> g @ rs232_packet body h l @ t"
  defines "after \<equiv> g @ 40 # body @ [0, 0, 13] @ t"
  defines "n \<equiv> length g + length (rs232_packet body h l)"
  shows "rs232_2400_rsp_parse flt st rq data (length data) outp =
    (let st = st\<lparr>packet_cnt := packet_cnt st + 1\<rparr> in
     if push_bit 8 (ucast h) OR ucast l \<noteq> crc_ref (40 # body)
     then Inr (\<lparr>r_consumed = n, r_data = data, r_out = outp, r_err = PARSE_STATUS_INVALID_CRC\<rparr>,
               st\<lparr>crc_err_cnt := crc_err_cnt st + 1\<rparr>)
     else
       let packet = body @ [0, 0, 13] @ t;
           done = (\<lambda>out err. \<lparr>r_consumed = n, r_data = after, r_out = out, r_err = err\<rparr>) in
       if take 3 body = [78, 65, 75]
       then obind (st_mem outp 0 body) (\<lambda>out. Inr (done out PARSE_STATUS_RQ_REJECTED, st))
       else case rsp_parser_of flt rq of
         None \<Rightarrow> Inr (done outp PARSE_STATUS_NO_PACKET, st)
       | Some parser \<Rightarrow> obind (parser packet (length body) outp) (\<lambda>(err, out).
           let err = word_of_int err :: u16 in
           Inr (done out err, if err = 0 then st\<lparr>valid_cnt := valid_cnt st + 1\<rparr> else st)))"
proof -
  let ?e = "length g + length body + 3"
  have data: "data = g @ 40 # body @ h # l # 13 # t" by (simp add: data_def rs232_packet_def)
  have len: "\<not> length data < 5" using assms(1) by (cases body) (simp_all add: data)
  have start: "find_start_loop (take (length data) data) 0 None = Some (length g)"
    using find_start_last [of "body @ h # l # 13 # t" g 0 None] assms(2) by (simp add: data)
  have "drop (length g) data = (40 # body @ [h, l]) @ 13 # t" by (simp add: data)
  then have endp: "find_end_loop (drop (length g) (take (length data) data)) (length g) = ?e"
    using find_end_first [of "40 # body @ [h, l]" t "length g"] assms(3) by simp
  have nth: "data ! (?e - 2) = h" "data ! (?e - 2 + 1) = l"
    by (simp_all add: data nth_append)
  have crc: "crc16_xmodem (drop (length g) data) (?e - length g - 2) = Inr (crc_ref (40 # body))"
    by (simp add: crc16_xmodem_def crc_ref_def crc16_step_fun data)
  have upd: "data[?e - 2 := 0, ?e - 2 + 1 := 0] = after"
    by (simp add: data after_def list_update_append)
  have pk: "drop (length g + 1) after = body @ [0, 0, 13] @ t" by (simp add: after_def)
  have plen: "?e - length g - 2 - 1 = length body" by simp
  have nak: "parse_rsp_is_nak (body @ [0, 0, 13] @ t) (length body) = Inr (if length body < 3 then - 1 else if take 3 body = [78, 65, 75] then 0 else 1)"
    by (simp add: parse_rsp_is_nak_def c_strncmp_def numeral_3_eq_3)
  have short: "\<not> length body < 3" if "take 3 body = [78, 65, 75]"
    using arg_cong [OF that, of length] by simp
  have n: "?e + 1 = n" by (simp add: n_def rs232_packet_def)
  have mem: "rd_mem (body @ [0, 0, 13] @ t) 0 (length body) = Inr body" by (simp add: rd_mem_def)
  have le: "\<not> length data < length data" "?e \<noteq> 0" "\<not> ?e - length g \<le> 2" by simp_all
  let ?act = "push_bit 8 (ucast h) OR ucast l :: u16"
  have eq: "rs232_2400_rsp_parse flt st rq data (length data) outp =
    (let st = st\<lparr>packet_cnt := packet_cnt st + 1\<rparr> in
     obind (Inr (crc_ref (40 # body))) (\<lambda>exp_crc.
       if exp_crc \<noteq> ?act
       then Inr (\<lparr>r_consumed = ?e + 1, r_data = data, r_out = outp, r_err = PARSE_STATUS_INVALID_CRC\<rparr>,
               st\<lparr>crc_err_cnt := crc_err_cnt st + 1\<rparr>)
       else let done = (\<lambda>out err. \<lparr>r_consumed = ?e + 1, r_data = after, r_out = out, r_err = err\<rparr>) in
         obind (parse_rsp_is_nak (body @ [0, 0, 13] @ t) (length body)) (\<lambda>nak_err.
           if nak_err = 0
           then obind (rd_mem (body @ [0, 0, 13] @ t) 0 (length body)) (\<lambda>bs. obind (st_mem outp 0 bs) (\<lambda>out.
             Inr (done out PARSE_STATUS_RQ_REJECTED, st)))
           else case rsp_parser_of flt rq of
             None \<Rightarrow> Inr (done outp PARSE_STATUS_NO_PACKET, st)
           | Some parser \<Rightarrow>
               obind (parser (body @ [0, 0, 13] @ t) (length body) outp) (\<lambda>(err, out).
                 let err = word_of_int err :: u16 in
                 Inr (done out err, if err = 0 then st\<lparr>valid_cnt := valid_cnt st + 1\<rparr> else st)))))"
    unfolding rs232_2400_rsp_parse_def Let_def if_not_P [OF len] if_not_P [OF le(1)] start option.case endp
      if_not_P [OF le(2)] if_not_P [OF le(3)] crc nth upd pk plen
    by simp
  show ?thesis
    unfolding eq nak mem n Let_def using short by (cases "rsp_parser_of flt rq") auto
qed



lemma length_rs232_packet [simp]: "length (rs232_packet body h l) = length body + 4"
  by (simp add: rs232_packet_def)

lemma find_end_none: "13 \<notin> set b \<Longrightarrow> find_end_loop b i = 0"
  by (induction b arbitrary: i) auto

text \<open>The parser takes the last start byte: a packet that has only begun hides everything before it.\<close>

lemma rsp_parse_unfinished:
  assumes "4 \<le> length p" "40 \<notin> set u" "13 \<notin> set u"
  shows "rs232_2400_rsp_parse flt st rq (p @ 40 # u) (length (p @ 40 # u)) outp =
    Inr (\<lparr>r_consumed = length p, r_data = p @ 40 # u, r_out = outp, r_err = PARSE_STATUS_NO_PACKET\<rparr>, st)"
proof -
  have "find_start_loop (take (length (p @ 40 # u)) (p @ 40 # u)) 0 None = Some (length p)"
    using find_start_last [OF assms(2), of p 0 None] by simp
  moreover have "find_end_loop (drop (length p) (take (length (p @ 40 # u)) (p @ 40 # u))) (length p) = 0"
    using find_end_none [of "40 # u"] assms(3) by simp
  ultimately show ?thesis using assms(1) by (simp add: rs232_2400_rsp_parse_def Let_def)
qed

text \<open>C12. A response packet with the right check bytes, after any garbage and before bytes that start no other
  packet, is consumed whole, its check bytes are cleared, and its body goes to the parser of the request (a
  refusal \<open>NAK\<close> is copied to the output), provided that neither the body nor the check bytes contain
  the delimiters. When the beginning of a further packet follows it in the buffer, the same packet is skipped unread:
  everything up to that beginning is consumed and nothing is parsed.\<close>

theorem rs232_packet_delivered:
  assumes "body \<noteq> []" "c = crc_ref (40 # body)" "40 \<notin> set (body @ [crc_hi c, crc_lo c] @ t)"
    "13 \<notin> set (body @ [crc_hi c, crc_lo c])" "40 \<notin> set u" "13 \<notin> set u"
  shows "let packet = g @ rs232_packet body (crc_hi c) (crc_lo c) @ t;
      st1 = st\<lparr>packet_cnt := packet_cnt st + 1\<rparr>;
      done = (\<lambda>out err. \<lparr>r_consumed = length g + length body + 4, r_data = g @ 40 # body @ [0, 0, 13] @ t,
                         r_out = out, r_err = err\<rparr>)
    in rs232_2400_rsp_parse flt st rq packet (length packet) outp =
      (if take 3 body = [78, 65, 75]
       then obind (st_mem outp 0 body) (\<lambda>out. Inr (done out PARSE_STATUS_RQ_REJECTED, st1))
       else case rsp_parser_of flt rq of
         None \<Rightarrow> Inr (done outp PARSE_STATUS_NO_PACKET, st1)
       | Some parser \<Rightarrow> obind (parser (body @ [0, 0, 13] @ t) (length body) outp) (\<lambda>(err, out).
           Inr (done out (word_of_int err),
             if (word_of_int err :: u16) = 0 then st1\<lparr>valid_cnt := valid_cnt st1 + 1\<rparr> else st1))) \<and>
    rs232_2400_rsp_parse flt st rq (packet @ 40 # u) (length (packet @ 40 # u)) outp =
      Inr (\<lparr>r_consumed = length packet, r_data = packet @ 40 # u, r_out = outp, r_err = PARSE_STATUS_NO_PACKET\<rparr>, st)"
proof -
  have "4 \<le> length (g @ rs232_packet body (crc_hi c) (crc_lo c) @ t)" by simp
  note skip = rsp_parse_unfinished [OF this assms(5,6), of flt st rq outp]
  note whole = rsp_parse_packet [OF assms(1,3,4), where flt = flt and st = st and rq = rq and g = g and outp = outp]
  show ?thesis
    unfolding Let_def
  proof (rule conjI [OF _ skip])
  qed (use whole assms(2) in \<open>cases "rsp_parser_of flt rq"; simp add: Let_def crc_bytes add.assoc\<close>)
qed

text \<open>A packet whose body was changed in one place, by up to two adjacent bytes that add no delimiter, is
  rejected with \<open>PARSE_STATUS_INVALID_CRC\<close> and consumed whole; nothing is written to the output.\<close>

lemma rs232_corruption_rejected:
  assumes "(a, b) \<noteq> (a', b')" "c = crc_ref (40 # p @ [a, b] @ q)"
    "40 \<notin> set ((p @ [a', b'] @ q) @ [crc_hi c, crc_lo c] @ t)" "13 \<notin> set ((p @ [a', b'] @ q) @ [crc_hi c, crc_lo c])"
  shows "let data = g @ rs232_packet (p @ [a', b'] @ q) (crc_hi c) (crc_lo c) @ t
    in \<exists>st'. rs232_2400_rsp_parse flt st rq data (length data) outp =
      Inr (\<lparr>r_consumed = length g + length p + length q + 6, r_data = data, r_out = outp,
            r_err = PARSE_STATUS_INVALID_CRC\<rparr>, st')"
proof -
  have "crc_ref (40 # p @ [a, b] @ q) \<noteq> crc_ref (40 # p @ [a', b'] @ q)"
    using crc16_bursts [OF assms(1), of "40 # p" q] by simp
  then have ne: "push_bit 8 (ucast (crc_hi c)) OR (ucast (crc_lo c) :: u16) \<noteq> crc_ref (40 # p @ [a', b'] @ q)"
    using assms(2) by (simp add: crc_bytes)
  have nonempty: "p @ [a', b'] @ q \<noteq> []" by simp
  show ?thesis
    unfolding Let_def using rsp_parse_packet [OF nonempty assms(3,4), where flt = flt and st = st and rq = rq and g = g and outp = outp] ne
    by (simp add: add.assoc add.commute [of 6])
qed

subsection \<open>Values\<close>

lemma strtoull_digits:
  assumes "list_all c_digit ds" "ds \<noteq> []" "length ds \<le> 9"
  shows "c_strtoull (ds @ 0 # rest) = Inr (word_of_nat (text_value 10 ds))"
proof -
  have "text_value 10 ds < 10 ^ 9"
    using text_value_bound [OF assms(1)] power_increasing [OF assms(3), of "10 :: nat"] by linarith
  then show ?thesis
    using number_text_digits [OF assms(1,2), of 0 rest] by (simp add: c_strtoull_def c_digit_def)
qed

lemma strdec_digits:
  assumes "list_all c_digit ds" "acc * 10 ^ length ds + 10 ^ length ds \<le> 2 ^ 31" "length ds + i \<le> length p"
    "take (length ds) (drop i p) = ds"
  shows "strdec2int_loop p i (length ds) (int acc) = Inr (0, int (foldl (\<lambda>acc b. acc * 10 + digit_val b) acc ds))"
  using assms
proof (induction ds arbitrary: acc i)
  case (Cons d ds)
  have i: "i < length p" using Cons.prems(3) by simp
  have d: "p ! i = d" "take (length ds) (drop (Suc i) p) = ds"
    using Cons.prems(4) i by (simp_all add: Cons_nth_drop_Suc [symmetric])
  have v: "uint d - 48 = int (digit_val d)" "digit_val d \<le> 9" "\<not> (d < 48 \<or> 57 < d)"
    using Cons.prems(1) digit_val_less [of d] by (auto simp: c_digit_def digit_val_def word_le_nat_alt not_less)
  let ?X = "10 ^ length ds :: nat"
  have "acc * 10 * ?X + 10 * ?X \<le> 2 ^ 31" using Cons.prems(2) by (simp add: algebra_simps)
  moreover have "digit_val d * ?X \<le> 9 * ?X" using v(2) by (rule mult_right_mono) simp
  moreover have "(acc * 10 + digit_val d) * ?X = acc * 10 * ?X + digit_val d * ?X"
    by (simp add: algebra_simps)
  ultimately have b: "(acc * 10 + digit_val d) * ?X + ?X \<le> 2 ^ 31" by linarith
  have "acc * 10 + digit_val d + 1 \<le> 2 ^ 31"
    using b mult_le_mono2 [of 1 "10 ^ length ds" "acc * 10 + digit_val d + 1"] by (simp add: algebra_simps)
  then have r: "int acc * 10 \<le> INT_MAX \<and> int acc * 10 + int (digit_val d) \<le> INT_MAX" by auto
  have nf: "\<not> (int acc * 10 < INT_MIN \<or> INT_MAX < int acc * 10 \<or>
      int acc * 10 + int (digit_val d) < INT_MIN \<or> INT_MAX < int acc * 10 + int (digit_val d))"
    using r by auto
  have "strdec2int_loop p i (length (d # ds)) (int acc) =
      strdec2int_loop p (Suc i) (length ds) (int acc * 10 + int (digit_val d))"
    unfolding list.size(4) add_Suc_right add_0_right strdec2int_loop.simps rd8_def if_P [OF i] obind_simps d(1) Let_def v(1)
      if_not_P [OF nf] using v(3) by simp
  also have "int acc * 10 + int (digit_val d) = int (acc * 10 + digit_val d)" by simp
  also have "strdec2int_loop p (Suc i) (length ds) (int (acc * 10 + digit_val d)) =
      Inr (0, int (foldl (\<lambda>acc b. acc * 10 + digit_val b) (acc * 10 + digit_val d) ds))"
    using Cons.IH [of "acc * 10 + digit_val d" "Suc i"] Cons.prems(1,3) b d(2) by simp
  finally show ?case by simp
qed simp

lemma st_word_ok:
  "i + n \<le> length out \<Longrightarrow> st_word out i n v = Inr (overwrite out i (nat_le n (nat (v mod 2 ^ (8 * n)))))"
  by (simp add: st_word_def st_mem_def)



lemma st_word_uint:
  fixes w :: "'a :: len word"
  assumes "LENGTH('a) \<le> 8 * n" "i + n \<le> length out"
  shows "st_word out i n (uint w) = Inr (overwrite out i (nat_le n (unat w)))"
proof -
  have "(2::int) ^ LENGTH('a) \<le> 2 ^ (8 * n)" using assms(1) by (intro power_increasing) simp_all
  moreover have "uint w < 2 ^ LENGTH('a)" "0 \<le> uint w" by (rule unsigned_less) simp
  ultimately have "uint w mod 2 ^ (8 * n) = uint w" by (intro mod_pos_pos_trivial) linarith+
  then show ?thesis by (simp only: st_word_ok [OF assms(2)] nat_uint_eq)
qed

lemma qvfw_value:
  assumes "length v = 6" "list_all c_digit ds" "length ds = 5" "list_all c_digit ms" "length ms = 2" "8 \<le> length out"
  shows "parse_rsp_qvfw (v @ ds @ dot # ms @ rest) 14 out =
    Inr (0, overwrite out 0 (nat_le 8 (text_value 10 ds * 256 + text_value 10 ms)))"
proof -
  let ?p = "v @ ds @ dot # ms @ rest"
  have major: "rd_mem ?p 6 5 = Inr ds" and minor: "rd_mem ?p 12 2 = Inr ms"
    using assms(1,3,5) by (simp_all add: rd_mem_def)
  have mem: "overwrite (replicate 10 0) 0 ds = ds @ replicate 5 0"
    using assms(3) by (simp add: overwrite_def)
  have mem2: "drop 5 (overwrite (ds @ replicate 5 0) 5 ms) = ms @ replicate 3 0"
    using assms(3,5) by (simp add: overwrite_def)
  have z: "replicate 5 (0 :: u8) = 0 # replicate 4 0" "replicate 3 (0 :: u8) = 0 # replicate 2 0"
    by (simp_all add: eval_nat_numeral)
  have "ds \<noteq> []" "ms \<noteq> []" using assms(3,5) by auto
  then have vals: "c_strtoull (ds @ replicate 5 0) = Inr (word_of_nat (text_value 10 ds))"
    "c_strtoull (ms @ replicate 3 0) = Inr (word_of_nat (text_value 10 ms))"
    using strtoull_digits [OF assms(2)] strtoull_digits [OF assms(4)] assms(3,5) by (simp_all add: z)
  let ?M = "text_value 10 ds" and ?m = "text_value 10 ms"
  have b: "?M < 100000" "?m < 100"
    using text_value_bound [OF assms(2)] text_value_bound [OF assms(4)] assms(3,5) by simp_all
  have byte: "unat (ucast (ucast (word_of_nat ?m :: u64) :: u8) :: u64) = ?m"
  proof -
    have "unat (word_of_nat ?m :: u64) = ?m" using b by (simp add: unat_word_of_nat)
    then have "unat (ucast (word_of_nat ?m :: u64) :: u8) = ?m"
      using b by (simp add: unsigned_ucast_eq take_bit_nat_eq_self)
    then show ?thesis by (simp add: unat_ucast_up)
  qed
  have hi: "unat (push_bit 8 (word_of_nat ?M) :: u64) = ?M * 256"
    using b by (simp add: push_bit_eq_mult unat_word_of_nat unat_word_ariths)
  have disj: "(push_bit 8 (word_of_nat ?M) :: u64) AND ucast (ucast (word_of_nat ?m :: u64) :: u8) = 0"
    by (rule bit_word_eqI) (auto simp: bit_simps dest: bit_imp_le_length)
  have "unat ((push_bit 8 (word_of_nat ?M) :: u64) OR ucast (ucast (word_of_nat ?m :: u64) :: u8)) = ?M * 256 + ?m"
  proof -
    have "unat ((push_bit 8 (word_of_nat ?M) :: u64) + ucast (ucast (word_of_nat ?m :: u64) :: u8)) =
        (?M * 256 + ?m) mod 2 ^ LENGTH(64)" unfolding unat_word_ariths(1) hi byte ..
    also have "\<dots> = ?M * 256 + ?m" using b by simp
    finally show ?thesis unfolding disjunctive_add_eq_or [OF disj] .
  qed
  then have u: "unat ((push_bit 8 (word_of_nat ?M) :: u64) OR ucast (ucast (word_of_nat ?m :: u64) :: u8)) = ?M * 256 + ?m" .
  have val: "st_word o' 0 8 (uint ((push_bit 8 (word_of_nat ?M) :: u64) OR ucast (ucast (word_of_nat ?m :: u64) :: u8)))
      = Inr (overwrite o' 0 (nat_le 8 (?M * 256 + ?m)))" if "8 \<le> length o'" for o'
    using st_word_uint [of 8 0 o' "(push_bit 8 (word_of_nat ?M) :: u64) OR ucast (ucast (word_of_nat ?m :: u64) :: u8)"]
      that unfolding u by (simp del: nat_le_numeral)
  have over: "overwrite (overwrite out 0 x) 0 y = overwrite out 0 y" if "length x = length y" for x y :: bytes
    using that by (simp add: overwrite_def)
  show ?thesis
    unfolding parse_rsp_qvfw_def Let_def using assms(6)
    by (simp add: st_word_ok [of 0 8 out 0] major minor mem mem2 vals val over del: nat_le_numeral)
qed

lemma qopmp_value:
  assumes "list_all c_digit ds" "5 \<le> length ds" "length ds \<le> 9" "4 \<le> length out"
  shows "parse_rsp_qopmp (ds @ rest) (length ds) out = Inr (0, overwrite out 0 (nat_le 4 (text_value 10 ds)))"
proof -
  have pw: "(10::nat) ^ length ds \<le> 10 ^ 9" using assms(3) by (intro power_increasing) simp_all
  then have v: "strdec2int (ds @ rest) (length ds) = Inr (0, int (text_value 10 ds))"
    using strdec_digits [OF assms(1), of 0 0 "ds @ rest"] by (simp add: strdec2int_def text_value_def)
  have "text_value 10 ds < 10 ^ 9" using text_value_bound [OF assms(1)] pw by linarith
  then have "nat (int (text_value 10 ds) mod 2 ^ (8 * 4)) = text_value 10 ds" by simp
  with v assms(2,4) show ?thesis by (simp add: parse_rsp_qopmp_def st_word_ok)
qed

lemma qmod_value:
  assumes "4 \<le> length out"
  shows "parse_rsp_qmod (m # rest) 1 out = Inr (0, overwrite out 0 [m, 0, 0, 0])"
proof -
  have "unat m < 256" using unsigned_less [of m, where 'a = nat] by simp
  then have "nat_le 4 (unat m) = [m, 0, 0, 0]" by simp
  then have "st_word out 0 4 (uint m) = Inr (overwrite out 0 [m, 0, 0, 0])"
    using st_word_uint [of 4 0 out m] assms by simp
  then show ?thesis by (simp add: parse_rsp_qmod_def rd8_def)
qed

text \<open>The numbers of the responses: the firmware version \<open>VERFW:NNNNN.NN\<close> becomes \<open>NNNNN * 256 + NN\<close>, the
  maximal output power its decimal value, the mode its character, each stored in little-endian order in
  the output, whatever follows the packet.\<close>

lemma rs232_values:
  assumes "length v = 6" "list_all c_digit ds" "length ds = 5" "list_all c_digit ms" "length ms = 2"
    "list_all c_digit ps" "5 \<le> length ps" "length ps \<le> 9" "8 \<le> length out"
  shows "parse_rsp_qvfw (v @ ds @ dot # ms @ rest) 14 out =
      Inr (0, overwrite out 0 (nat_le 8 (text_value 10 ds * 256 + text_value 10 ms))) \<and>
    parse_rsp_qopmp (ps @ rest) (length ps) out = Inr (0, overwrite out 0 (nat_le 4 (text_value 10 ps))) \<and>
    parse_rsp_qmod (m # rest) 1 out = Inr (0, overwrite out 0 [m, 0, 0, 0])"
  using qvfw_value [OF assms(1-5,9)] qopmp_value [OF assms(6-8)] qmod_value assms(9) by simp

subsection \<open>Faults\<close>

lemma qpi_overread:
  assumes "c_digit a" "c_digit b" "4 \<le> len"
  shows "parse_rsp_qpi ([80, 73, a, b] @ rest) len out = Inl OutOfBounds"
proof -
  have "c_atoi [a, b] = Inl OutOfBounds"
    using number_text_unterminated [of "[a, b]"] assms(1,2) by (simp add: c_atoi_def)
  then show ?thesis using assms(3)
    by (simp add: parse_rsp_qpi_def c_strncmp_def rd_mem_def numeral_2_eq_2)
qed

lemma qlst_overflow:
  assumes "4 < len" "len \<le> length p"
  shows "parse_rsp_qlst p len out = Inl OutOfBounds"
proof -
  have "\<not> len - 1 \<le> 3" "\<not> len < 2" using assms(1) by simp_all
  with assms(2) show ?thesis by (simp add: parse_rsp_qlst_def rd_mem_def st_mem_def numeral_3_eq_3)
qed

lemma qlst_truncates:
  assumes "c_digit a" "4 \<le> length out"
  shows "parse_rsp_qlst (a # b # rest) 2 out = Inr (0, overwrite out 0 (nat_le 4 (digit_val a)))"
proof -
  have "c_atoi [a, 0, 0] = Inr (int (digit_val a))"
    using number_text_digits [of "[a]" 0 "[0]"] assms(1) digit_val_less [OF assms(1)]
    by (simp add: c_atoi_def text_value_def c_digit_def)
  moreover have "nat (int (digit_val a) mod 2 ^ (8 * 4)) = digit_val a" using digit_val_less [OF assms(1)] by simp
  ultimately show ?thesis using assms(2)
    by (simp add: parse_rsp_qlst_def rd_mem_def st_mem_def overwrite_def st_word_ok numeral_2_eq_2 numeral_3_eq_3)
qed

lemma qpihf_overflow: "len \<le> length p \<Longrightarrow> parse_rsp_qpihf p len out = Inl OutOfBounds"
  by (simp add: parse_rsp_qpihf_def rd_mem_def st_mem_def)

lemma scan_two_ints_stop:
  assumes "list_all c_digit hs" "hs \<noteq> []" "length hs \<le> 9"
  shows "scan_fields [Sc_d None, Sc_d None] (hs @ 46 # rest) = Inr [V_i (int (text_value 10 hs))]"
proof -
  have d: "\<not> c_digit 46" by (simp add: c_digit_def)
  have ws: "dropWhile c_space (hs @ 46 # rest) = hs @ 46 # rest"
    using assms(1,2) by (cases hs) auto
  have "text_value 10 hs < 10 ^ 9"
    using text_value_bound [OF assms(1)] power_increasing [OF assms(3), of "10 :: nat"] by linarith
  then have v: "conv_value (Sc_d None) (item_int 10 hs) = Inr (int (text_value 10 hs))"
    by (simp add: item_int_digits [OF assms(1)])
  have stop: "scan_fields [Sc_d None] (46 # rest) = Inr []"
    by (simp add: c_space_def c_sign_def d int_accept_def)
  show ?thesis
    using scan_int_digits(1) [OF assms(1,2) d, of rest] v stop
    by (simp add: ws int_accept_def del: scan_fields.simps(1))
qed

lemma qgov_rejects:
  assumes "list_all c_digit hs" "hs \<noteq> []" "length hs \<le> 9" "11 \<le> len" "0 \<in> set rest" "8 \<le> length out"
  shows "\<exists>out'. parse_rsp_qgov (hs @ 46 # rest) len out = Inr (- 2, out')"
proof -
  have nz: "\<forall>b \<in> set hs. b \<noteq> 0" using assms(1) by (auto simp: list_all_iff)
  have tw: "takeWhile (\<lambda>b. b \<noteq> 0) (hs @ 46 # rest) = hs @ 46 # takeWhile (\<lambda>b. b \<noteq> 0) rest"
    using nz by (induction hs) auto
  have "c_sscanf [Sc_d None, Sc_d None] (hs @ 46 # rest) = Inr [V_i (int (text_value 10 hs))]"
    using scan_two_ints_stop [OF assms(1-3)] assms(5) by (simp add: c_sscanf_def c_string_def tw)
  then show ?thesis using assms(4,6) by (simp add: parse_rsp_qgov_def scan_to_def st_word_ok)
qed

lemma push32: "push_bit 32 (w :: u32) = 0"
  by (rule bit_word_eqI) (simp add: bit_push_bit_iff)

lemma qpicf_loses_byte:
  "parse_rsp_qpicf ([a, b, c, d] @ rest) 4 out = parse_rsp_qpicf ([a', b, c, d] @ rest) 4 out"
proof -
  have l: "qpicf_loop ([x, b, c, d] @ rest) 0 4 0 =
      Inr (push_bit 24 (ucast b) OR push_bit 16 (ucast c) OR push_bit 8 (ucast d))" for x
  proof -
    have "qpicf_loop ([x, b, c, d] @ rest) 0 4 0 =
        Inr (push_bit 8 (push_bit 8 (push_bit 8 (push_bit 8 (0 OR ucast x) OR ucast b) OR ucast c) OR ucast d))"
      by (simp add: rd8_def eval_nat_numeral del: push_bit_of_Suc_0)
    also have "push_bit 8 (push_bit 8 (push_bit 8 (push_bit 8 (0 OR ucast x) OR ucast b) OR ucast c) OR ucast d) =
        (push_bit 24 (ucast b) OR push_bit 16 (ucast c) OR push_bit 8 (ucast d) :: u32)"
      by (rule bit_word_eqI) (auto simp: bit_simps)
    finally show ?thesis .
  qed
  show ?thesis by (simp add: parse_rsp_qpicf_def l [simplified])
qed

lemma qpiws_shifts:
  assumes "8 \<le> length out"
  shows "parse_rsp_qpiws (49 # rest) 1 out = Inr (0, overwrite out 0 [2, 0, 0, 0, 0, 0, 0, 0])"
proof -
  have "qpiws_loop (49 # rest) 0 1 0 = Inr 2" by (simp add: rd8_def)
  moreover have "overwrite (overwrite out 0 x) 0 y = overwrite out 0 y" if "length x = length y" for x y :: bytes
    using that by (simp add: overwrite_def)
  ultimately show ?thesis using assms by (simp add: parse_rsp_qpiws_def Let_def st_word_ok)
qed



text \<open>Defects of the response parsers on well-formed responses: \<open>QPI\<close> with a two-digit identifier reads past its
  two-byte copy, \<open>QLST\<close> keeps only the first of two digits and overruns its buffer from five characters on,
  \<open>QPIHF\<close> always writes behind its array, \<open>QGOV\<close> rejects every value with a decimal point, the documented
  form, \<open>QPICF\<close> does not depend on the first character of the fault code, and \<open>QPIWS\<close> reports the flag
  of a lone warning one position too high.\<close>

lemma rs232_parsers_faulty:
  assumes "c_digit a" "c_digit b" "list_all c_digit hs" "hs \<noteq> []" "length hs \<le> 9" "0 \<in> set rest" "8 \<le> length out"
  shows "parse_rsp_qpi ([80, 73, a, b] @ rest) 4 out = Inl OutOfBounds \<and>
    parse_rsp_qlst (a # b # rest) 2 out = Inr (0, overwrite out 0 (nat_le 4 (digit_val a))) \<and>
    parse_rsp_qlst ([a, b, a, b, a] @ rest) 5 out = Inl OutOfBounds \<and>
    parse_rsp_qpihf (a # b # rest) 2 out = Inl OutOfBounds \<and>
    (\<exists>out'. parse_rsp_qgov (hs @ 46 # rest) 11 out = Inr (- 2, out')) \<and>
    parse_rsp_qpicf ([a, b, c, d] @ rest) 4 out = parse_rsp_qpicf ([a', b, c, d] @ rest) 4 out \<and>
    parse_rsp_qpiws (49 # rest) 1 out = Inr (0, overwrite out 0 [2, 0, 0, 0, 0, 0, 0, 0])"
proof -
  have "4 \<le> length out" using assms(7) by simp
  with qpi_overread [OF assms(1,2)] qlst_truncates [OF assms(1)] qlst_overflow [of 5 "[a, b, a, b, a] @ rest"]
    qpihf_overflow [of 2 "a # b # rest"] qgov_rejects [OF assms(3-5) _ assms(6,7)] qpicf_loses_byte
    qpiws_shifts [OF assms(7)]
  show ?thesis by simp
qed

text \<open>Valid packets whose check bytes contain a delimiter are lost: the start of the packet is taken from the
  check byte \<open>0x28\<close>, its end from the check byte \<open>0x0D\<close>.\<close>

lemma rs232_check_bytes_break_framing:
  "crc_ref [40, 80, 73, 50, 56] = 0x2832 \<and>
   rs232_2400_rsp_parse flt st EM_RS232_2400_QPI (rs232_packet [80, 73, 50, 56] 0x28 0x32) 8 outp =
     Inr (\<lparr>r_consumed = 5, r_data = rs232_packet [80, 73, 50, 56] 0x28 0x32, r_out = outp,
           r_err = PARSE_STATUS_NO_PACKET\<rparr>, st) \<and>
   crc_ref [40, 48, 48, 48, 52, 55] = 0x520D \<and>
   rs232_2400_rsp_parse flt st EM_RS232_2400_QOPMP (rs232_packet [48, 48, 48, 52, 55] 0x52 0x0D) 9 outp =
     Inr (\<lparr>r_consumed = 8, r_data = rs232_packet [48, 48, 48, 52, 55] 0x52 0x0D, r_out = outp,
           r_err = PARSE_STATUS_INVALID_CRC\<rparr>, st\<lparr>packet_cnt := packet_cnt st + 1, crc_err_cnt := crc_err_cnt st + 1\<rparr>)"
proof (intro conjI)
  show "crc_ref [40, 80, 73, 50, 56] = 0x2832" "crc_ref [40, 48, 48, 48, 52, 55] = 0x520D"
    by (simp_all add: crc_ref_def crc_byte_def crc_bits_8 crc_bit_def)
  have short: "crc_ref [40, 48, 48, 48, 52] \<noteq> 0x3752"
    by (simp add: crc_ref_def crc_byte_def crc_bits_8 crc_bit_def)
  show "rs232_2400_rsp_parse flt st EM_RS232_2400_QPI (rs232_packet [80, 73, 50, 56] 0x28 0x32) 8 outp =
     Inr (\<lparr>r_consumed = 5, r_data = rs232_packet [80, 73, 50, 56] 0x28 0x32, r_out = outp,
           r_err = PARSE_STATUS_NO_PACKET\<rparr>, st)"
    by (simp add: rs232_2400_rsp_parse_def rs232_packet_def)
  show "rs232_2400_rsp_parse flt st EM_RS232_2400_QOPMP (rs232_packet [48, 48, 48, 52, 55] 0x52 0x0D) 9 outp =
     Inr (\<lparr>r_consumed = 8, r_data = rs232_packet [48, 48, 48, 52, 55] 0x52 0x0D, r_out = outp,
           r_err = PARSE_STATUS_INVALID_CRC\<rparr>, st\<lparr>packet_cnt := packet_cnt st + 1, crc_err_cnt := crc_err_cnt st + 1\<rparr>)"
    using rsp_parse_packet [where body = "[48, 48, 48, 52]" and h = 55 and l = 82 and t = "[13]" and flt = flt and st = st
      and rq = EM_RS232_2400_QOPMP and g = "[]" and outp = outp] short
    by (simp add: rs232_packet_def, simp add: eval_nat_numeral)
qed


theorem rs232_packet_delivered_witness:
  "\<forall>flt st. rs232_2400_rsp_parse flt st EM_RS232_2400_QMOD (rs232_packet [76] 0x06 0x07) 5 (replicate 64 0) =
       Inr (\<lparr>r_consumed = 5, r_data = [40, 76, 0, 0, 13], r_out = 76 # replicate 63 0, r_err = 0\<rparr>,
            st\<lparr>packet_cnt := packet_cnt st + 1, valid_cnt := valid_cnt st + 1\<rparr>) \<and>
     rs232_2400_rsp_parse flt st EM_RS232_2400_QMOD (rs232_packet [76] 0x06 0x07 @ [40, 66]) 7 (replicate 64 0) =
       Inr (\<lparr>r_consumed = 5, r_data = rs232_packet [76] 0x06 0x07 @ [40, 66], r_out = replicate 64 0,
             r_err = PARSE_STATUS_NO_PACKET\<rparr>, st)"
proof (intro allI, goal_cases)
  case (1 flt st)
  have c: "0x0607 = crc_ref (40 # [76])" by (simp add: crc_ref_def crc_byte_def crc_bits_8 crc_bit_def)
  have h: "crc_hi 0x0607 = 0x06" "crc_lo 0x0607 = 0x07" by (simp_all add: crc_hi_def crc_lo_def)
  have q: "parse_rsp_qmod (76 # [0, 0, 13]) 1 (replicate 64 0) = Inr (0, 76 # replicate 63 0)"
    using qmod_value [of "replicate 64 0" 76 "[0, 0, 13]"] by (simp add: overwrite_def eval_nat_numeral)
  have p: "rsp_parser_of flt EM_RS232_2400_QMOD = Some parse_rsp_qmod" by (simp add: rsp_parser_of_def)
  show ?case
    using rs232_packet_delivered [OF _ c, where t = "[]" and g = "[]" and u = "[66]" and flt = flt and st = st
        and rq = EM_RS232_2400_QMOD and outp = "replicate 64 0"] q
    by (simp add: h p Let_def)
qed

theorem rs232_values_witness:
  "parse_rsp_qvfw [86, 69, 82, 70, 87, 58, 48, 48, 48, 55, 50, 46, 55, 48, 0, 0, 13] 14 (replicate 8 0) =
     Inr (0, [70, 72, 0, 0, 0, 0, 0, 0])"
  using rs232_values [of "[86, 69, 82, 70, 87, 58]" "[48, 48, 48, 55, 50]" "[55, 48]" "[48, 48, 48, 48, 48]"
      "replicate 8 0" 46 "[0, 0, 13]"]
  by (simp add: c_digit_def text_value_def digit_val_def overwrite_def)

end
