(* ===== verification/EM_Serial_Client.thy ===== *)
theory EM_Serial_Client
  imports EM_Ringbuf EM_Rs232
begin

section \<open>The serial client and the UART driver (em\_serial\_client, em\_uart)\<close>

text \<open>
  The client keeps five request slots, sends the request that is due first, arms a one-shot timer for the next
  one and feeds the received bytes through a ring buffer to the parser of the selected protocol. It is
  one task that takes commands from a queue; every command is one step of the model. What leaves the task is an
  event: a request written to the UART, or a call of a response handler.

  A protocol is the record of its parser and serializer with the table of its response handlers; \<open>'p\<close> is the
  static data of the parser and \<open>'h\<close> the handlers. The timer keeps its period in ticks, as \<open>pdMS_TO_TICKS\<close>
  gives it; a period of 0 ticks fails the assertion of the timer. Memory, the timer service and the UART can fail as
  \<open>sc_env\<close> says.
\<close>

abbreviation MAX_PACKET_LEN :: nat where "MAX_PACKET_LEN \<equiv> 64"
abbreviation MAX_RQS :: nat where "MAX_RQS \<equiv> 5"
abbreviation UART_READ_BUF_SIZE :: nat where "UART_READ_BUF_SIZE \<equiv> 128"
abbreviation EXP_RSP_INVALID :: u16 where "EXP_RSP_INVALID \<equiv> 0xFFFF"
abbreviation EXP_RSP_DETECT :: u16 where "EXP_RSP_DETECT \<equiv> 0xDDFF"
abbreviation INT32_MAX :: int where "INT32_MAX \<equiv> 2147483647"

subsection \<open>The UART\<close>

text \<open>\<open>write\<close> is the result of \<open>uart_write_bytes\<close>; the \<open>n\<close> of a read is the one of \<open>uart_read_bytes\<close>, negative
  on an error, and \<open>size_t\<close> has 32 bits.\<close>

definition em_uart_send :: "(bytes \<Rightarrow> int) \<Rightarrow> bytes \<Rightarrow> nat \<Rightarrow> int outcome" where
  "em_uart_send uart_write data len =
     (if length data < len then Inl OutOfBounds
      else let n = uart_write (take len data) in
           Inr (if n < 0 then - 1 else if n < int len then - 2 else 0))"

definition rx_task_round :: "(bytes \<Rightarrow> nat \<Rightarrow> 'a outcome) \<Rightarrow> 'a \<Rightarrow> bytes \<Rightarrow> int \<Rightarrow> 'a outcome" where
  "rx_task_round data_received_cb idle received n =
     (let data = overwrite (replicate UART_READ_BUF_SIZE 0) 0 received in
      if n \<noteq> 0 then data_received_cb data (nat (n mod 2 ^ 32)) else Inr idle)"

subsection \<open>Data\<close>

record rq_t =
  rq_payload :: "bytes option"
  rq_rq_id :: u16
  rq_timeout :: u16
  rq_since :: int
  rq_retries :: u8
  rq_max_retries :: u8
  rq_payload_len :: u8
  rq_active :: bool
  rq_periodic :: bool

datatype sc_cmd_t =
    SC_CMD_ADD_RQ u16 bytes nat u32 u8
  | SC_CMD_ADD_RQ_PERIODIC u16 bytes nat u32
  | SC_CMD_RM_PERIODIC_RQ u16
  | SC_CMD_PROCESS_DATA bytes nat
  | SC_CMD_TIMER
  | SC_CMD_OTHER u32

record ('p, 'h) serial_protocol_t =
  parse_func :: "'p \<Rightarrow> u16 \<Rightarrow> bytes \<Rightarrow> nat \<Rightarrow> bytes \<Rightarrow> (rsp_result \<times> u16 \<times> 'p) outcome"
  serialize_func :: "bool \<Rightarrow> u16 \<Rightarrow> bytes \<Rightarrow> nat \<Rightarrow> bytes option outcome"
  baud_rate :: int
  data_bits :: u8
  stop_bits :: u8
  parity :: bool
  rsp_handlers :: "(u16 \<times> 'h) list"

record ('p, 'h) em_sc_t =
  sc_selected_protocol_idx :: u8
  sc_last_rq_id :: u16
  sc_supported_protocols :: "('p, 'h) serial_protocol_t list"
  sc_rq :: "rq_t list"
  sc_timer :: "u32 option"
  sc_parser :: 'p

record parse_result_t =
  pr_payload :: bytes
  pr_payload_len :: nat
  pr_rsp_id :: u16
  pr_status :: u16

datatype 'h sc_event =
    Uart_send bytes
  | Rsp_handler 'h bytes nat

record sc_env =
  env_malloc :: bool
  env_timer_create :: bool
  env_timer_start :: bool
  env_uart_write :: "bytes \<Rightarrow> int"

definition rq_zero :: rq_t where
  "rq_zero = \<lparr>rq_payload = None, rq_rq_id = 0, rq_timeout = 0, rq_since = 0, rq_retries = 0, rq_max_retries = 0,
              rq_payload_len = 0, rq_active = False, rq_periodic = False\<rparr>"

definition protocol_ok :: "('p, 'h) em_sc_t \<Rightarrow> bool" where
  "protocol_ok sc \<longleftrightarrow> unat (sc_selected_protocol_idx sc) < length (sc_supported_protocols sc)"

definition em_sc_protocol :: "('p, 'h) em_sc_t \<Rightarrow> ('p, 'h) serial_protocol_t option" where
  "em_sc_protocol sc =
     (if protocol_ok sc then Some (sc_supported_protocols sc ! unat (sc_selected_protocol_idx sc)) else None)"

subsection \<open>Responses (rx.c)\<close>

definition deactivate_rq :: "rq_t list \<Rightarrow> nat \<Rightarrow> rq_t list" where
  "deactivate_rq rqs idx = rqs[idx := (rqs ! idx)\<lparr>rq_active := False, rq_payload := None\<rparr>]"

fun ack_loop :: "u16 \<Rightarrow> nat \<Rightarrow> nat \<Rightarrow> rq_t list \<Rightarrow> rq_t list" where
  "ack_loop corresponding_rq i 0 rqs = rqs"
| "ack_loop corresponding_rq i (Suc n) rqs =
     (if \<not> rq_active (rqs ! i) then ack_loop corresponding_rq (Suc i) n rqs
      else if rq_rq_id (rqs ! i) = corresponding_rq then
        (let rqs = rqs[i := (rqs ! i)\<lparr>rq_since := 0, rq_retries := 0\<rparr>] in
         if 0 < rq_max_retries (rqs ! i) then deactivate_rq rqs i else rqs)
      else ack_loop corresponding_rq (Suc i) n rqs)"

definition ack_rsp :: "('p, 'h) em_sc_t \<Rightarrow> u16 \<Rightarrow> ('p, 'h) em_sc_t" where
  "ack_rsp sc corresponding_rq =
     (let last = (if sc_last_rq_id sc = corresponding_rq then EXP_RSP_INVALID else sc_last_rq_id sc) in
      sc\<lparr>sc_last_rq_id := last, sc_rq := ack_loop corresponding_rq 0 MAX_RQS (sc_rq sc)\<rparr>)"

fun find_handler :: "(u16 \<times> 'h) list \<Rightarrow> u16 \<Rightarrow> 'h option" where
  "find_handler [] msg_type = None"
| "find_handler ((t, h) # hs) msg_type = (if msg_type \<noteq> t then find_handler hs msg_type else Some h)"

definition packet_handler ::
  "('p, 'h) em_sc_t \<Rightarrow> u16 \<Rightarrow> bytes \<Rightarrow> nat \<Rightarrow> (('p, 'h) em_sc_t \<times> 'h sc_event list) outcome" where
  "packet_handler client msg_type data data_len =
     (let client = ack_rsp client msg_type in
      case em_sc_protocol client of
        None \<Rightarrow> Inl Abort
      | Some active_proto \<Rightarrow>
          Inr (client, case find_handler (rsp_handlers active_proto) msg_type of
                         None \<Rightarrow> [] | Some h \<Rightarrow> [Rsp_handler h data data_len]))"

fun parse_loop ::
  "('p, 'h) serial_protocol_t \<Rightarrow> nat \<Rightarrow> ('p, 'h) em_sc_t \<Rightarrow> bytes \<Rightarrow> nat \<Rightarrow> nat \<Rightarrow> parse_result_t \<Rightarrow>
   (nat \<times> ('p, 'h) em_sc_t \<times> bytes \<times> parse_result_t) outcome" where
  "parse_loop proto 0 sc data data_len processed result = Inr (processed, sc, data, result)"
| "parse_loop proto (Suc rounds) sc data data_len processed result =
     (if \<not> processed < data_len then Inr (processed, sc, data, result)
      else
        obind (parse_func proto (sc_parser sc) (pr_rsp_id result) (drop processed data) (data_len - processed)
                 (pr_payload result)) (\<lambda>(r, rsp_id, parser).
          let sc = sc\<lparr>sc_parser := parser\<rparr>;
              data = take processed data @ r_data r;
              processed = processed + r_consumed r;
              status = r_err r;
              result = result\<lparr>pr_payload := r_out r, pr_rsp_id := rsp_id, pr_status := status\<rparr>
          in
          if status = PARSE_STATUS_OK then
            Inr (processed, sc, data,
                 if sc_last_rq_id sc \<noteq> EXP_RSP_DETECT \<and> rsp_id \<noteq> sc_last_rq_id sc
                 then result\<lparr>pr_status := PARSE_STATUS_RSP_UNEXPECTED\<rparr> else result)
          else if status = PARSE_STATUS_NO_PACKET then
            parse_loop proto rounds sc data data_len processed result
          else if status = PARSE_STATUS_INVALID_CRC then Inr (processed, sc, data, result)
          else if status = PARSE_STATUS_RQ_REJECTED then
            Inr (processed, ack_rsp sc (sc_last_rq_id sc), data, result)
          else if status = PARSE_STATUS_PACKET_MALFORMED then Inr (processed, sc, data, result)
          else parse_loop proto rounds sc data data_len processed result))"

text \<open>\<open>data\<close> is the memory from the read pointer to the end of the buffer; the parser may write to it.\<close>

definition parse ::
  "('p, 'h) em_sc_t \<Rightarrow> bytes \<Rightarrow> nat \<Rightarrow> parse_result_t \<Rightarrow>
   (nat \<times> ('p, 'h) em_sc_t \<times> bytes \<times> parse_result_t) outcome" where
  "parse sc data data_len result =
     (case em_sc_protocol sc of
        None \<Rightarrow> Inl Abort
      | Some proto \<Rightarrow>
          let result = result\<lparr>pr_status := PARSE_STATUS_NO_PACKET, pr_payload_len := 0,
                              pr_rsp_id := sc_last_rq_id sc\<rparr> in
          if sc_last_rq_id sc = EXP_RSP_INVALID then Inr (0, sc, data, result)
          else parse_loop proto 8 sc data data_len 0 result)"

fun process_loop ::
  "nat \<Rightarrow> ('p, 'h) em_sc_t \<Rightarrow> bytes \<Rightarrow> nat \<Rightarrow> nat \<Rightarrow> parse_result_t \<Rightarrow>
   (nat \<times> ('p, 'h) em_sc_t \<times> 'h sc_event list) outcome" where
  "process_loop 0 sc data data_len processed result = Inr (processed, sc, [])"
| "process_loop (Suc rounds) sc data data_len processed result =
     (if \<not> processed < data_len then Inr (processed, sc, [])
      else
        obind (parse sc (drop processed data) (data_len - processed) result) (\<lambda>(n, sc, rest, result).
        obind (if pr_status result = PARSE_STATUS_OK
               then packet_handler sc (sc_last_rq_id sc) (pr_payload result) (pr_payload_len result)
               else Inr (sc, [])) (\<lambda>(sc, evs).
        obind (process_loop rounds sc (take processed data @ rest) data_len (processed + n) result)
          (\<lambda>(p, sc, evs'). Inr (p, sc, evs @ evs')))))"

definition process_data ::
  "('p, 'h) em_sc_t \<Rightarrow> em_ringbuf_t \<Rightarrow> bytes \<Rightarrow> nat \<Rightarrow>
   (('p, 'h) em_sc_t \<times> em_ringbuf_t \<times> 'h sc_event list) outcome" where
  "process_data sc ring new_data new_data_len =
     obind (em_ringbuf_write ring new_data new_data_len) (\<lambda>(ring, n).
       if n \<noteq> new_data_len then Inr (sc, ring, [])
       else
         obind (em_ringbuf_read ring MAX_PACKET_LEN) (\<lambda>ds.
           let data = overwrite (replicate MAX_PACKET_LEN 0) 0 ds; data_len = length ds in
           if data_len = 0 then Inr (sc, ring, [])
           else
             obind (process_loop 8 sc data data_len 0
                      \<lparr>pr_payload = replicate MAX_PACKET_LEN 0, pr_payload_len = 0, pr_rsp_id = 0, pr_status = 0\<rparr>)
               (\<lambda>(processed, sc, evs).
                 if 0 < processed
                 then obind (em_ringbuf_clear ring processed) (\<lambda>(ring, _). Inr (sc, ring, evs))
                 else Inr (sc, ring, evs))))"

text \<open>The payload array of a command after the \<open>memcpy\<close>; the result of the callbacks and of \<open>em_sc_send\<close> is the
  returned number with the command that was queued.\<close>

definition cmd_payload :: "bytes \<Rightarrow> nat \<Rightarrow> bytes outcome" where
  "cmd_payload data len =
     (if length data < len \<or> MAX_PACKET_LEN < len then Inl OutOfBounds
      else Inr (overwrite (replicate MAX_PACKET_LEN 0) 0 (take len data)))"

definition uart_rx_cb :: "bool \<Rightarrow> bytes \<Rightarrow> nat \<Rightarrow> (int \<times> sc_cmd_t option) outcome" where
  "uart_rx_cb queue_ok data data_len =
     c_assert (0 < data_len)
       (obind (cmd_payload data data_len) (\<lambda>payload.
          Inr (if queue_ok then (- 1, Some (SC_CMD_PROCESS_DATA payload data_len)) else (0, None))))"

subsection \<open>Requests (tx.c)\<close>

definition start_timer ::
  "sc_env \<Rightarrow> ('p, 'h) em_sc_t \<Rightarrow> u32 \<Rightarrow> (int \<times> ('p, 'h) em_sc_t) outcome" where
  "start_timer env sc duration_ms =
     (let ticks = pdMS_TO_TICKS duration_ms in
      c_assert (0 < ticks)
        (Inr (if sc_timer sc = None \<and> \<not> env_timer_create env then (- 1, sc)
              else (if env_timer_start env then 0 else - 2, sc\<lparr>sc_timer := Some ticks\<rparr>))))"

definition delete_timer :: "('p, 'h) em_sc_t \<Rightarrow> ('p, 'h) em_sc_t" where
  "delete_timer sc = sc\<lparr>sc_timer := None\<rparr>"

fun first_free :: "rq_t list \<Rightarrow> nat" where
  "first_free [] = 0"
| "first_free (r # rs) = (if \<not> rq_active r then 0 else Suc (first_free rs))"

text \<open>A stored \<open>int32_t\<close> is the signed value of the 32 bits.\<close>

definition i32 :: "u32 \<Rightarrow> int" where
  "i32 w = sint w"

definition add_rq ::
  "sc_env \<Rightarrow> ('p, 'h) em_sc_t \<Rightarrow> u16 \<Rightarrow> bytes \<Rightarrow> nat \<Rightarrow> u32 \<Rightarrow> u8 \<Rightarrow> (int \<times> ('p, 'h) em_sc_t) outcome" where
  "add_rq env sc rq_id payload payload_len tmo retries =
     (case em_sc_protocol sc of
        None \<Rightarrow> Inl Abort
      | Some protocol \<Rightarrow>
          let idx = first_free (sc_rq sc) in
          if MAX_RQS \<le> idx then Inr (- 1, sc)
          else c_assert (rq_payload (sc_rq sc ! idx) = None)
            (obind (serialize_func protocol (env_malloc env) rq_id payload payload_len) (\<lambda>serialized.
               case serialized of
                 None \<Rightarrow> Inr (- 2, sc)
               | Some bs \<Rightarrow>
                   let rq = \<lparr>rq_payload = Some bs, rq_rq_id = rq_id, rq_timeout = ucast tmo,
                             rq_since = i32 (tmo - word_of_nat (idx * 100)), rq_retries = 0, rq_max_retries = retries,
                             rq_payload_len = word_of_nat (length bs), rq_active = True, rq_periodic = False\<rparr>
                   in obind (start_timer env (sc\<lparr>sc_rq := (sc_rq sc)[idx := rq]\<rparr>) 2000) (\<lambda>(err, sc).
                      Inr (if err \<noteq> 0 then - 3 else int idx, sc)))))"

definition add_periodic_rq ::
  "sc_env \<Rightarrow> ('p, 'h) em_sc_t \<Rightarrow> u16 \<Rightarrow> bytes \<Rightarrow> nat \<Rightarrow> u32 \<Rightarrow> (int \<times> ('p, 'h) em_sc_t) outcome" where
  "add_periodic_rq env sc rq_id payload payload_len period =
     c_assert (1 < period)
     (case em_sc_protocol sc of
        None \<Rightarrow> Inl Abort
      | Some protocol \<Rightarrow>
          let idx = first_free (sc_rq sc) in
          if MAX_RQS \<le> idx then Inr (- 1, sc)
          else c_assert (rq_payload (sc_rq sc ! idx) = None)
            (obind (serialize_func protocol (env_malloc env) rq_id payload payload_len) (\<lambda>serialized.
               case serialized of
                 None \<Rightarrow> Inr (- 2, sc)
               | Some bs \<Rightarrow>
                   let rq = \<lparr>rq_payload = Some bs, rq_rq_id = rq_id, rq_timeout = ucast period,
                             rq_since = i32 (period - word_of_nat ((idx + 1) * 500)), rq_retries = 0, rq_max_retries = 0,
                             rq_payload_len = word_of_nat (length bs), rq_active = True, rq_periodic = True\<rparr>
                   in obind (start_timer env (sc\<lparr>sc_rq := (sc_rq sc)[idx := rq]\<rparr>) 2000) (\<lambda>(err, sc).
                      Inr (if err \<noteq> 0 then - 3 else int idx, sc)))))"

fun find_periodic :: "u16 \<Rightarrow> nat \<Rightarrow> nat \<Rightarrow> rq_t list \<Rightarrow> nat option" where
  "find_periodic rq_id i 0 rqs = None"
| "find_periodic rq_id i (Suc n) rqs =
     (if \<not> rq_periodic (rqs ! i) \<or> rq_rq_id (rqs ! i) \<noteq> rq_id then find_periodic rq_id (Suc i) n rqs else Some i)"

definition remove_periodic_rq :: "('p, 'h) em_sc_t \<Rightarrow> u16 \<Rightarrow> int \<times> ('p, 'h) em_sc_t" where
  "remove_periodic_rq sc rq_id =
     (case find_periodic rq_id 0 MAX_RQS (sc_rq sc) of
        None \<Rightarrow> (- 1, sc)
      | Some i \<Rightarrow>
          let sc = sc\<lparr>sc_rq := deactivate_rq (sc_rq sc) i\<rparr> in
          if list_ex rq_active (take MAX_RQS (sc_rq sc)) then (0, sc) else (0, delete_timer sc))"

subsection \<open>The task (task.c)\<close>

text \<open>A difference of two \<open>int\<close> values that does not fit is undefined.\<close>

definition int_range :: "int \<Rightarrow> int outcome" where
  "int_range v = (if - 2147483648 \<le> v \<and> v \<le> INT32_MAX then Inr v else Inl Undefined)"

definition rq_delay :: "rq_t \<Rightarrow> int outcome" where
  "rq_delay rq = int_range (uint (rq_timeout rq) - rq_since rq)"

fun earliest_rq :: "rq_t list \<Rightarrow> nat \<Rightarrow> int \<Rightarrow> nat option \<Rightarrow> (int \<times> nat option) outcome" where
  "earliest_rq [] i delay send_idx = Inr (delay, send_idx)"
| "earliest_rq (r # rs) i delay send_idx =
     (if \<not> rq_active r then earliest_rq rs (Suc i) delay send_idx
      else obind (rq_delay r) (\<lambda>d.
        if d < delay then earliest_rq rs (Suc i) d (Some i) else earliest_rq rs (Suc i) delay send_idx))"

fun add_delay :: "int \<Rightarrow> rq_t list \<Rightarrow> rq_t list outcome" where
  "add_delay delay_ms [] = Inr []"
| "add_delay delay_ms (r # rs) =
     (if \<not> rq_active r then obind (add_delay delay_ms rs) (\<lambda>rs. Inr (r # rs))
      else obind (int_range (rq_since r + delay_ms)) (\<lambda>since.
           obind (add_delay delay_ms rs) (\<lambda>rs. Inr (r\<lparr>rq_since := since\<rparr> # rs))))"

definition schedule_next_timer_evt :: "sc_env \<Rightarrow> ('p, 'h) em_sc_t \<Rightarrow> int \<Rightarrow> ('p, 'h) em_sc_t outcome" where
  "schedule_next_timer_evt env sc delay_ms =
     (if delay_ms \<noteq> INT32_MAX then
        obind (start_timer env sc (word_of_int delay_ms)) (\<lambda>(err, sc).
        obind (add_delay delay_ms (sc_rq sc)) (\<lambda>rqs. Inr (sc\<lparr>sc_rq := rqs\<rparr>)))
      else Inr sc)"

text \<open>The bookkeeping of a request that went out.\<close>

definition rq_sent :: "rq_t list \<Rightarrow> nat \<Rightarrow> rq_t list" where
  "rq_sent rqs i =
     (let rq = (rqs ! i)\<lparr>rq_retries := rq_retries (rqs ! i) + 1\<rparr> in
      if \<not> rq_periodic rq then
        (let rq = rq\<lparr>rq_since := 0\<rparr> in
         if rq_max_retries rq < rq_retries rq then deactivate_rq (rqs[i := rq\<lparr>rq_retries := 0\<rparr>]) i
         else rqs[i := rq])
      else if 2 < rq_retries rq then rqs[i := rq\<lparr>rq_since := 0, rq_retries := 0\<rparr>]
      else rqs[i := rq\<lparr>rq_since := i32 (word_of_int (rq_since rq) - 100)\<rparr>])"

text \<open>The comparison with the \<open>uint32_t\<close> \<open>response_delay_ms\<close> is unsigned.\<close>

definition next_delay :: "int \<Rightarrow> int" where
  "next_delay delay = (if (word_of_int delay :: u32) < 100 then 100 else delay)"

definition send_rq :: "sc_env \<Rightarrow> ('p, 'h) em_sc_t \<Rightarrow> (('p, 'h) em_sc_t \<times> 'h sc_event list) outcome" where
  "send_rq env sc =
     obind (earliest_rq (sc_rq sc) 0 INT32_MAX None) (\<lambda>(earliest_rq_delay, send_idx).
       if 50 < earliest_rq_delay
       then obind (schedule_next_timer_evt env sc earliest_rq_delay) (\<lambda>sc. Inr (sc, []))
       else case send_idx of
         None \<Rightarrow> Inl Abort
       | Some i \<Rightarrow>
           let rq = sc_rq sc ! i in
           c_assert (0 < rq_payload_len rq)
             (case rq_payload rq of
                None \<Rightarrow> Inl OutOfBounds
              | Some bs \<Rightarrow>
                  let sc = sc\<lparr>sc_last_rq_id := rq_rq_id rq\<rparr>;
                      ev = Uart_send (take (unat (rq_payload_len rq)) bs)
                  in
                  obind (em_uart_send (env_uart_write env) bs (unat (rq_payload_len rq))) (\<lambda>err.
                    if err \<noteq> 0 then obind (schedule_next_timer_evt env sc 500) (\<lambda>sc. Inr (sc, [ev]))
                    else
                      let sc = sc\<lparr>sc_rq := rq_sent (sc_rq sc) i\<rparr> in
                      obind (earliest_rq (sc_rq sc) 0 INT32_MAX None) (\<lambda>(next_rq_delay, _).
                      obind (schedule_next_timer_evt env sc (next_delay next_rq_delay))
                        (\<lambda>sc. Inr (sc, [ev]))))))"

definition sc_task_init :: "('p, 'h) em_sc_t \<Rightarrow> (('p, 'h) em_sc_t \<times> em_ringbuf_t) outcome" where
  "sc_task_init sc =
     obind (em_ringbuf_init \<lparr>rb_buffer = replicate (2 * MAX_PACKET_LEN) 0, rb_size = 2 * MAX_PACKET_LEN,
                             rb_read = 0, rb_write = 0, rb_is_full = False\<rparr>)
       (\<lambda>ring. Inr (sc\<lparr>sc_rq := replicate MAX_RQS rq_zero, sc_timer := None\<rparr>, ring))"

definition sc_task_step ::
  "sc_env \<Rightarrow> ('p, 'h) em_sc_t \<times> em_ringbuf_t \<Rightarrow> sc_cmd_t \<Rightarrow>
   ((('p, 'h) em_sc_t \<times> em_ringbuf_t) \<times> 'h sc_event list) outcome" where
  "sc_task_step env s cmd =
     (let (sc, ring) = s in
      case cmd of
        SC_CMD_ADD_RQ rq_id payload len tmo retries \<Rightarrow>
          obind (add_rq env sc rq_id payload len tmo retries) (\<lambda>(_, sc). Inr ((sc, ring), []))
      | SC_CMD_ADD_RQ_PERIODIC rq_id payload len period \<Rightarrow>
          obind (add_periodic_rq env sc rq_id payload len period) (\<lambda>(_, sc). Inr ((sc, ring), []))
      | SC_CMD_RM_PERIODIC_RQ rq_id \<Rightarrow> Inr ((snd (remove_periodic_rq sc rq_id), ring), [])
      | SC_CMD_PROCESS_DATA payload len \<Rightarrow>
          obind (process_data sc ring payload len) (\<lambda>(sc, ring, evs). Inr ((sc, ring), evs))
      | SC_CMD_TIMER \<Rightarrow> obind (send_rq env sc) (\<lambda>(sc, evs). Inr ((sc, ring), evs))
      | SC_CMD_OTHER t \<Rightarrow> Inr ((sc, ring), []))"

fun sc_run ::
  "sc_env \<Rightarrow> ('p, 'h) em_sc_t \<times> em_ringbuf_t \<Rightarrow> sc_cmd_t list \<Rightarrow>
   ((('p, 'h) em_sc_t \<times> em_ringbuf_t) \<times> 'h sc_event list) outcome" where
  "sc_run env s [] = Inr (s, [])"
| "sc_run env s (c # cs) =
     obind (sc_task_step env s c) (\<lambda>(s, evs). obind (sc_run env s cs) (\<lambda>(s, evs'). Inr (s, evs @ evs')))"

subsection \<open>The interface of the client (serial\_client.c)\<close>

definition em_sc_set_protocol_idx :: "('p, 'h) em_sc_t \<Rightarrow> u8 \<Rightarrow> ('p, 'h) em_sc_t outcome" where
  "em_sc_set_protocol_idx client idx =
     c_assert (unat idx < length (sc_supported_protocols client) \<or> idx = 0xFF)
       (Inr (client\<lparr>sc_selected_protocol_idx := idx\<rparr>))"

text \<open>With the index \<open>0xFF\<close> of the automatic detection \<open>proto\<close> is a null pointer.\<close>

definition em_sc_init :: "('p, 'h) em_sc_t \<Rightarrow> u8 \<Rightarrow> (('p, 'h) em_sc_t \<times> int \<times> bool \<times> u8) outcome" where
  "em_sc_init sc protocol_idx =
     obind (em_sc_set_protocol_idx (sc\<lparr>sc_last_rq_id := EXP_RSP_INVALID\<rparr>) protocol_idx) (\<lambda>sc.
       case em_sc_protocol sc of
         None \<Rightarrow> Inl OutOfBounds
       | Some proto \<Rightarrow> Inr (sc, baud_rate proto, parity proto, stop_bits proto))"

definition em_sc_send :: "bool \<Rightarrow> u16 \<Rightarrow> bytes \<Rightarrow> nat \<Rightarrow> u32 \<Rightarrow> u8 \<Rightarrow> (int \<times> sc_cmd_t option) outcome" where
  "em_sc_send queue_ok rq_id payload payload_len tmo retries =
     obind (cmd_payload payload payload_len) (\<lambda>p.
       Inr (if queue_ok then (0, Some (SC_CMD_ADD_RQ rq_id p payload_len tmo retries)) else (- 1, None)))"

definition em_sc_send_periodic :: "bool \<Rightarrow> u16 \<Rightarrow> bytes \<Rightarrow> nat \<Rightarrow> u32 \<Rightarrow> (int \<times> sc_cmd_t option) outcome" where
  "em_sc_send_periodic queue_ok rq_id payload payload_len period =
     obind (cmd_payload payload payload_len) (\<lambda>p.
       Inr (if queue_ok then (0, Some (SC_CMD_ADD_RQ_PERIODIC rq_id p payload_len period)) else (- 1, None)))"

definition em_sc_remove_periodic :: "bool \<Rightarrow> u16 \<Rightarrow> int \<times> sc_cmd_t option" where
  "em_sc_remove_periodic queue_ok rq_id =
     (if queue_ok then (0, Some (SC_CMD_RM_PERIODIC_RQ rq_id)) else (- 1, None))"

end
