(* ===== verification/EM_Sc_Safety.thy ===== *)
theory EM_Sc_Safety
  imports EM_Serial_Client
begin

section \<open>The request table of the serial client\<close>

text \<open>
  The invariant of the request slots and of the times they keep, and its preservation by every command. A protocol is
  an interface: its serializer gives a packet of 1 to 255 bytes, its parser consumes no more than it is given.
  The lemmas are proved in the locale of that interface; the inverter protocol interprets it.
\<close>

named_theorems sc_defs "definitions of the request operations"

definition overdue :: "rq_t \<Rightarrow> int" where
  "overdue r = rq_since r - uint (rq_timeout r)"

definition rq_ok :: "rq_t \<Rightarrow> bool" where
  "rq_ok r \<longleftrightarrow> (case rq_payload r of
      None \<Rightarrow> \<not> rq_active r
    | Some bs \<Rightarrow> rq_active r \<and> 0 < length bs \<and> length bs < 256 \<and> rq_payload_len r = word_of_nat (length bs))"

definition overdue_in :: "int \<Rightarrow> int \<Rightarrow> rq_t list \<Rightarrow> bool" where
  "overdue_in lo hi rqs \<longleftrightarrow> (\<forall>r \<in> set rqs. rq_active r \<longrightarrow> lo \<le> overdue r \<and> overdue r \<le> hi)"

text \<open>Before the first expiry of the timer (\<open>startup\<close>) requests may be up to \<open>LATE_MS\<close> late, as those of the start-up
  are: the time of a new request is kept in 32 bits, its period in 16. After it either no request is more than 100 ms
  late, or none is late at all and the times may be 100 ms lower: a negative delay is always followed by a positive
  one.\<close>

abbreviation LATE_MS :: int where "LATE_MS \<equiv> 600000"

definition times_ok :: "bool \<Rightarrow> rq_t list \<Rightarrow> bool" where
  "times_ok startup rqs \<longleftrightarrow>
     (if startup then overdue_in (- 65535) LATE_MS rqs
      else overdue_in (- 665535) 100 rqs \<or> overdue_in (- 665635) 0 rqs)"

definition rqs_inv :: "bool \<Rightarrow> rq_t list \<Rightarrow> bool" where
  "rqs_inv startup rqs \<longleftrightarrow> length rqs = MAX_RQS \<and> list_all rq_ok rqs \<and> times_ok startup rqs"

definition env_ok :: "sc_env \<Rightarrow> bool" where
  "env_ok env \<longleftrightarrow> env_malloc env \<and> (\<forall>bs. env_uart_write env bs = int (length bs))"

text \<open>The requests that are covered: up to 600000 ms before the first expiry of the timer, below 65536 ms after it.\<close>

definition max_period :: "bool \<Rightarrow> u32" where
  "max_period startup = (if startup then 600000 else 65535)"

definition sc_cmd_ok :: "bool \<Rightarrow> sc_cmd_t \<Rightarrow> bool" where
  "sc_cmd_ok startup c = (case c of
      SC_CMD_ADD_RQ rq_id payload len tmo retries \<Rightarrow>
        len \<le> length payload \<and> len \<le> MAX_PACKET_LEN \<and> tmo \<le> max_period startup
    | SC_CMD_ADD_RQ_PERIODIC rq_id payload len period \<Rightarrow>
        len \<le> length payload \<and> len \<le> MAX_PACKET_LEN \<and> 1 < period \<and> period \<le> max_period startup
    | SC_CMD_PROCESS_DATA payload len \<Rightarrow> 0 < len \<and> len \<le> length payload
    | _ \<Rightarrow> True)"

subsection \<open>Lists of requests\<close>

lemma timeout_bounds: "0 \<le> uint (rq_timeout r)" "uint (rq_timeout r) \<le> 65535"
  using uint_bounded [of "rq_timeout r"] by auto

lemma overdue_in_mono: "overdue_in lo hi rqs \<Longrightarrow> lo' \<le> lo \<Longrightarrow> hi \<le> hi' \<Longrightarrow> overdue_in lo' hi' rqs"
  by (fastforce simp: overdue_in_def)

lemma overdue_in_update:
  "overdue_in lo hi rqs \<Longrightarrow> (rq_active r \<Longrightarrow> lo \<le> overdue r \<and> overdue r \<le> hi) \<Longrightarrow> overdue_in lo hi (rqs[i := r])"
  using set_update_subset_insert [of rqs i r] by (auto simp: overdue_in_def)

lemma overdue_in_wide: "times_ok startup rqs \<Longrightarrow> overdue_in (- 665635) LATE_MS rqs"
  by (auto simp: times_ok_def elim: overdue_in_mono split: if_splits)

lemma rqs_inv_update:
  assumes "rqs_inv startup rqs" "rq_ok r"
    "rq_active r \<Longrightarrow> - 65535 \<le> overdue r \<and> overdue r \<le> (if startup then LATE_MS else 0)"
  shows "rqs_inv startup (rqs[i := r])"
proof -
  have "list_all rq_ok (rqs[i := r])"
    using assms(1,2) set_update_subset_insert [of rqs i r] by (auto simp: rqs_inv_def list_all_iff)
  moreover have "times_ok startup (rqs[i := r])"
    using assms(1,3) by (auto simp: rqs_inv_def times_ok_def intro!: overdue_in_update split: if_splits)
  ultimately show ?thesis using assms(1) by (simp add: rqs_inv_def)
qed

lemma deactivate_inv: "rqs_inv startup rqs \<Longrightarrow> rqs_inv startup (deactivate_rq rqs i)"
  unfolding deactivate_rq_def by (rule rqs_inv_update) (simp_all add: rq_ok_def)

lemma rqs_inv_nth: "rqs_inv startup rqs \<Longrightarrow> i < MAX_RQS \<Longrightarrow> rq_ok (rqs ! i)"
  by (simp add: rqs_inv_def list_all_length)

lemma rq_ok_keep:
  "rq_ok r \<Longrightarrow> rq_payload r' = rq_payload r \<Longrightarrow> rq_active r' = rq_active r \<Longrightarrow> rq_payload_len r' = rq_payload_len r \<Longrightarrow>
   rq_ok r'"
  by (cases "rq_payload r") (simp_all add: rq_ok_def)

lemma rq_ok_simps [simp]:
  "rq_ok (r\<lparr>rq_since := v\<rparr>) = rq_ok r"
  "rq_ok (r\<lparr>rq_retries := w\<rparr>) = rq_ok r"
  "rq_ok (r\<lparr>rq_active := False, rq_payload := None\<rparr>)"
  by (cases "rq_payload r"; simp add: rq_ok_def)+

lemma ack_loop_inv: "rqs_inv startup rqs \<Longrightarrow> i + n \<le> MAX_RQS \<Longrightarrow> rqs_inv startup (ack_loop c i n rqs)"
proof (induction n arbitrary: i)
  case (Suc n)
  let ?r = "(rqs ! i)\<lparr>rq_since := 0, rq_retries := 0\<rparr>"
  have "rq_ok ?r" using rqs_inv_nth [OF Suc.prems(1), of i] Suc.prems(2) by simp
  moreover have "- 65535 \<le> overdue ?r \<and> overdue ?r \<le> (if startup then LATE_MS else 0)"
    using timeout_bounds [of "rqs ! i"] by (auto simp: overdue_def intro: order_trans [of _ 0])
  ultimately have "rqs_inv startup (rqs[i := ?r])" using rqs_inv_update [OF Suc.prems(1)] by blast
  then show ?case using Suc by (simp add: Let_def deactivate_inv)
qed simp

lemma length_ack_loop [simp]: "length (ack_loop c i n rqs) = length rqs"
  by (induction n arbitrary: i) (simp_all add: Let_def deactivate_rq_def)

lemma ack_rsp_inv: "rqs_inv startup (sc_rq sc) \<Longrightarrow> rqs_inv startup (sc_rq (ack_rsp sc c))"
  by (simp add: ack_rsp_def ack_loop_inv)

lemma ack_rsp_protocol [simp]:
  "em_sc_protocol (ack_rsp sc c) = em_sc_protocol sc"
  "sc_parser (ack_rsp sc c) = sc_parser sc"
  by (simp_all add: ack_rsp_def em_sc_protocol_def protocol_ok_def)

lemma sc_update_protocol [simp]:
  "em_sc_protocol (sc\<lparr>sc_rq := rqs\<rparr>) = em_sc_protocol sc"
  "em_sc_protocol (sc\<lparr>sc_timer := t\<rparr>) = em_sc_protocol sc"
  "em_sc_protocol (sc\<lparr>sc_last_rq_id := l\<rparr>) = em_sc_protocol sc"
  "em_sc_protocol (sc\<lparr>sc_parser := st\<rparr>) = em_sc_protocol sc"
  by (simp_all add: em_sc_protocol_def protocol_ok_def)

text \<open>A positive delay of less than 12 hours gives the ticks of 10 ms; a negative one is taken modulo \<open>2 ^ 32\<close> twice.\<close>

lemma ticks_negative:
  assumes "- 42949672 \<le> d" "d < 0"
  shows "unat (pdMS_TO_TICKS (word_of_int d)) = nat (2 ^ 32 + 100 * d) div 1000"
proof -
  have "(d + 4294967296) mod 4294967296 = d + 4294967296" using assms by (intro mod_pos_pos_trivial) simp_all
  then have "uint (word_of_int d :: u32) = 2 ^ 32 + d" by (simp add: uint_word_of_int)
  then have "int (unat (word_of_int d :: u32)) = 2 ^ 32 + d" by simp
  then have "int (unat (word_of_int d :: u32) * 100) = int (nat (2 ^ 32 + 100 * d) + 99 * 2 ^ 32)" using assms by simp
  then have "unat (word_of_int d :: u32) * 100 = nat (2 ^ 32 + 100 * d) + 99 * 2 ^ 32" by (simp only: of_nat_eq_iff)
  moreover have "(nat (2 ^ 32 + 100 * d) + 99 * 2 ^ 32) mod 2 ^ 32 = nat (2 ^ 32 + 100 * d)"
    using assms by (simp add: mod_if)
  ultimately show ?thesis by (simp only: unat_ticks)
qed

lemma ticks_positive:
  assumes "10 \<le> d" "d \<le> 42949672"
  shows "unat (pdMS_TO_TICKS (word_of_int d)) = nat d div 10"
proof -
  have "uint (word_of_int d :: u32) = d" using assms by (simp add: uint_word_of_int)
  then have "unat (word_of_int d :: u32) = nat d" by (simp add: unat_eq_nat_uint)
  then show ?thesis using unat_ticks_small [of "word_of_int d"] assms by simp
qed

definition armed_ok :: "int \<Rightarrow> bool" where
  "armed_ok d \<longleftrightarrow> - 42949662 \<le> d \<and> d < 0 \<or> 10 \<le> d \<and> d \<le> 42949672"

lemma ticks_armed: "armed_ok d \<Longrightarrow> 0 < pdMS_TO_TICKS (word_of_int d)"
proof -
  assume "armed_ok d"
  then consider "- 42949662 \<le> d" "d < 0" | "10 \<le> d" "d \<le> 42949672" by (auto simp: armed_ok_def)
  then have "0 < unat (pdMS_TO_TICKS (word_of_int d))"
  proof cases
    case 1
    then show ?thesis using ticks_negative [of d] by (simp add: div_greater_zero_iff)
  next
    case 2
    then show ?thesis using ticks_positive [of d] by (simp add: div_greater_zero_iff)
  qed
  then show ?thesis by (simp add: word_less_nat_alt)
qed

lemma start_timer_ok:
  assumes "0 < pdMS_TO_TICKS w"
  obtains n sc' where "start_timer env sc w = Inr (n, sc')" "sc_rq sc' = sc_rq sc" "em_sc_protocol sc' = em_sc_protocol sc"
    "env_timer_create env \<Longrightarrow> sc_timer sc' = Some (pdMS_TO_TICKS w)"
proof (cases "sc_timer sc = None \<and> \<not> env_timer_create env")
  case True
  then show thesis using assms that [of "- 1" sc] by (simp add: start_timer_def)
next
  case False
  then show thesis using assms that [of "if env_timer_start env then 0 else - 2" "sc\<lparr>sc_timer := Some (pdMS_TO_TICKS w)\<rparr>"]
    by (auto simp: start_timer_def Let_def)
qed

lemma start_timer_2000: "0 < pdMS_TO_TICKS 2000"
  by (simp add: pdMS_TO_TICKS_def)

subsection \<open>The request that is due first\<close>

lemma rq_delay_ok:
  "- 1073741824 \<le> overdue r \<Longrightarrow> overdue r \<le> 1073741824 \<Longrightarrow> rq_delay r = Inr (- overdue r)"
  by (simp add: rq_delay_def int_range_def overdue_def)

lemma earliest_rq_ok:
  assumes "overdue_in lo hi rqs" "- 1073741824 \<le> lo" "hi \<le> 1073741824"
  shows "\<exists>d s. earliest_rq rqs i delay idx = Inr (d, s) \<and> d \<le> delay \<and>
    overdue_in lo (- d) rqs \<and>
    (s = idx \<and> d = delay \<or> (\<exists>j < length rqs. s = Some (i + j) \<and> rq_active (rqs ! j) \<and> d = - overdue (rqs ! j)))"
  using assms
proof (induction rqs arbitrary: i delay idx)
  case Nil
  then show ?case by (simp add: overdue_in_def)
next
  case (Cons r rs)
  have rs: "overdue_in lo hi rs" using Cons.prems by (simp add: overdue_in_def)
  note IH = Cons.IH [OF rs Cons.prems(2,3)]
  show ?case
  proof (cases "rq_active r")
    case False
    then show ?thesis using IH [of "Suc i" delay idx] by (fastforce simp: overdue_in_def)
  next
    case True
    then have r: "lo \<le> overdue r" "overdue r \<le> hi" using Cons.prems by (simp_all add: overdue_in_def)
    have dl: "rq_delay r = Inr (- overdue r)" using r Cons.prems(2,3) by (intro rq_delay_ok) linarith+
    show ?thesis
    proof (cases "- overdue r < delay")
      case less: True
      with IH [of "Suc i" "- overdue r" "Some i"] True dl r show ?thesis
        by (fastforce simp: overdue_in_def)
    next
      case ge: False
      with IH [of "Suc i" delay idx] True dl r show ?thesis
        by (fastforce simp: overdue_in_def)
    qed
  qed
qed

lemma add_delay_ok:
  assumes "overdue_in lo hi rqs" "- 2147483648 \<le> lo + d" "hi + d \<le> 2147418112"
  shows "add_delay d rqs = Inr (map (\<lambda>r. if rq_active r then r\<lparr>rq_since := rq_since r + d\<rparr> else r) rqs)"
  using assms
proof (induction rqs)
  case (Cons r rs)
  have rs: "overdue_in lo hi rs" using Cons.prems by (simp add: overdue_in_def)
  have "int_range (rq_since r + d) = Inr (rq_since r + d)" if "rq_active r"
  proof -
    have "lo \<le> overdue r" "overdue r \<le> hi" using Cons.prems(1) that by (simp_all add: overdue_in_def)
    then have "- 2147483648 \<le> rq_since r + d" "rq_since r + d \<le> INT32_MAX"
      using timeout_bounds [of r] assms(2,3) unfolding overdue_def by linarith+
    then show ?thesis by (simp add: int_range_def)
  qed
  then show ?case using Cons.IH [OF rs assms(2,3)] by simp
qed simp

lemma delayed_inv:
  assumes "length rqs = MAX_RQS" "list_all rq_ok rqs" "overdue_in lo hi rqs"
    "- 665535 \<le> lo + d \<and> hi + d \<le> 100 \<or> - 665635 \<le> lo + d \<and> hi + d \<le> 0"
  shows "rqs_inv False (map (\<lambda>r. if rq_active r then r\<lparr>rq_since := rq_since r + d\<rparr> else r) rqs)" (is "rqs_inv False ?rqs")
proof -
  have "overdue_in (lo + d) (hi + d) ?rqs"
    using assms(3) by (force simp: overdue_in_def overdue_def)
  note mono = overdue_in_mono [OF this]
  have "times_ok False ?rqs"
    using assms(4) mono [of "- 665535" 100] mono [of "- 665635" 0] by (auto simp: times_ok_def)
  moreover have "list_all rq_ok ?rqs" using assms(2) by (auto simp: list_all_iff)
  ultimately show ?thesis using assms(1) by (simp add: rqs_inv_def)
qed

lemma schedule_armed:
  assumes "d \<noteq> INT32_MAX" "armed_ok d" "overdue_in lo hi (sc_rq sc)" "- 2147483648 \<le> lo + d" "hi + d \<le> 2147418112"
  obtains sc' where "schedule_next_timer_evt env sc d = Inr sc'" "em_sc_protocol sc' = em_sc_protocol sc"
    "sc_rq sc' = map (\<lambda>r. if rq_active r then r\<lparr>rq_since := rq_since r + d\<rparr> else r) (sc_rq sc)"
    "env_timer_create env \<Longrightarrow> sc_timer sc' = Some (pdMS_TO_TICKS (word_of_int d))"
proof -
  let ?rqs = "map (\<lambda>r. if rq_active r then r\<lparr>rq_since := rq_since r + d\<rparr> else r) (sc_rq sc)"
  obtain n sc1 where sc1: "start_timer env sc (word_of_int d) = Inr (n, sc1)" "sc_rq sc1 = sc_rq sc"
      "em_sc_protocol sc1 = em_sc_protocol sc" "env_timer_create env \<Longrightarrow> sc_timer sc1 = Some (pdMS_TO_TICKS (word_of_int d))"
    using start_timer_ok [OF ticks_armed [OF assms(2)]] by blast
  moreover have "schedule_next_timer_evt env sc d = Inr (sc1\<lparr>sc_rq := ?rqs\<rparr>)"
    using sc1(1,2) add_delay_ok [OF assms(3-5)] assms(1) by (simp add: schedule_next_timer_evt_def)
  ultimately show thesis using that [of "sc1\<lparr>sc_rq := ?rqs\<rparr>"] by simp
qed

lemma schedule_ok:
  assumes "length (sc_rq sc) = MAX_RQS" "list_all rq_ok (sc_rq sc)" "overdue_in lo hi (sc_rq sc)"
    "- 665635 \<le> lo" "hi \<le> LATE_MS" "d = INT32_MAX \<or> - LATE_MS \<le> d \<and> d < 0 \<or> 10 \<le> d \<and> d \<le> 665635"
    "d \<noteq> INT32_MAX \<Longrightarrow> - 665535 \<le> lo + d \<and> hi + d \<le> 100 \<or> - 665635 \<le> lo + d \<and> hi + d \<le> 0"
    "d = INT32_MAX \<Longrightarrow> times_ok False (sc_rq sc)"
  shows "\<exists>sc'. schedule_next_timer_evt env sc d = Inr sc' \<and> rqs_inv False (sc_rq sc') \<and>
    em_sc_protocol sc' = em_sc_protocol sc"
proof (cases "d = INT32_MAX")
  case True
  then show ?thesis using assms by (simp add: schedule_next_timer_evt_def rqs_inv_def)
next
  case False
  then have b: "- LATE_MS \<le> d" "d \<le> 665635" "armed_ok d" using assms(6) by (auto simp: armed_ok_def)
  have "overdue_in (- 665635) LATE_MS (sc_rq sc)" using assms(3-5) by (rule overdue_in_mono)
  from schedule_armed [OF False b(3) this, of env] b(1,2) obtain sc' where
      "schedule_next_timer_evt env sc d = Inr sc'" "em_sc_protocol sc' = em_sc_protocol sc"
      "sc_rq sc' = map (\<lambda>r. if rq_active r then r\<lparr>rq_since := rq_since r + d\<rparr> else r) (sc_rq sc)" by auto
  then show ?thesis using delayed_inv [OF assms(1-3) assms(7)] False by simp
qed


subsection \<open>Sending\<close>

lemma sint_u32: "- 2147483648 \<le> v \<Longrightarrow> v < 2147483648 \<Longrightarrow> sint (word_of_int v :: u32) = v"
  by (simp add: signed_of_int signed_take_bit_int_eq_self)

lemma i32_minus: "0 \<le> v \<Longrightarrow> v \<le> 600000 \<Longrightarrow> 0 \<le> k \<Longrightarrow> k \<le> 2500 \<Longrightarrow> i32 (word_of_int v - word_of_int k) = v - k"
proof -
  assume b: "0 \<le> v" "v \<le> 600000" "0 \<le> k" "k \<le> 2500"
  then have "sint (word_of_int (v - k) :: u32) = v - k" by (intro sint_u32) simp_all
  then show ?thesis by (simp add: i32_def)
qed

lemma i32_minus_100: "- 1073741824 \<le> v \<Longrightarrow> v \<le> 1073841824 \<Longrightarrow> i32 (word_of_int v - 100) = v - 100"
proof -
  assume b: "- 1073741824 \<le> v" "v \<le> 1073841824"
  then have "sint (word_of_int (v - 100) :: u32) = v - 100" by (intro sint_u32) simp_all
  then show ?thesis by (simp add: i32_def)
qed

lemma next_delay_cases:
  assumes "- 1073741824 \<le> d" "d \<le> INT32_MAX"
  shows "next_delay d = (if 0 \<le> d \<and> d < 100 then 100 else d)"
proof -
  have "uint (word_of_int d :: u32) = d mod 4294967296" by (simp add: uint_word_of_int)
  moreover have "d mod 4294967296 = (if 0 \<le> d then d else 4294967296 + d)"
  proof (cases "0 \<le> d")
    case False
    then have "(d + 4294967296) mod 4294967296 = d + 4294967296" using assms(1) by (intro mod_pos_pos_trivial) simp_all
    then show ?thesis using False by simp
  qed (use assms in simp)
  ultimately show ?thesis using assms by (auto simp: next_delay_def word_less_alt)
qed

lemma rq_sent_ok:
  assumes "length rqs = MAX_RQS" "list_all rq_ok rqs" "overdue_in lo hi rqs" "i < MAX_RQS"
    "rq_active (rqs ! i)" "lo \<le> - 65535" "0 \<le> hi" "- 1073741824 \<le> lo" "hi \<le> 1073741824" "- 50 \<le> overdue (rqs ! i)"
    "overdue (rqs ! i) \<le> hi + 100"
  shows "length (rq_sent rqs i) = MAX_RQS" "list_all rq_ok (rq_sent rqs i)" "overdue_in lo hi (rq_sent rqs i)"
proof -
  let ?r = "rqs ! i"
  have ok: "rq_ok ?r" using assms(1,2,4) by (simp add: list_all_length)
  have upd: "list_all rq_ok (rqs[i := r])" if "rq_ok r" for r
    using that assms(2) set_update_subset_insert [of rqs i r] by (auto simp: list_all_iff)
  have "- 1073741824 \<le> rq_since ?r" "rq_since ?r \<le> 1073841824"
    using assms(9-11) timeout_bounds [of ?r] unfolding overdue_def by linarith+
  note since = i32_minus_100 [OF this]
  have z: "lo \<le> overdue r \<and> overdue r \<le> hi" if "rq_since r = 0" for r
    using that timeout_bounds [of r] assms(6,7) unfolding overdue_def by linarith
  have m: "lo \<le> overdue r \<and> overdue r \<le> hi" if "rq_since r = rq_since ?r - 100" "rq_timeout r = rq_timeout ?r" for r
    using assms(6,7,10,11) unfolding overdue_def that by linarith
  have zm: "lo \<le> overdue r \<and> overdue r \<le> hi"
    if "rq_since r = 0 \<or> rq_since r = rq_since ?r - 100 \<and> rq_timeout r = rq_timeout ?r" for r
    using that z m by blast
  show "length (rq_sent rqs i) = MAX_RQS" using assms(1) by (simp add: rq_sent_def Let_def deactivate_rq_def)
  show "list_all rq_ok (rq_sent rqs i)"
    unfolding rq_sent_def Let_def deactivate_rq_def
    using ok by (auto intro!: upd)
  show "overdue_in lo hi (rq_sent rqs i)"
    unfolding rq_sent_def Let_def deactivate_rq_def
    using assms(3) by (auto intro!: overdue_in_update zm simp: since)
qed

lemma uart_ok: "env_ok env \<Longrightarrow> len \<le> length bs \<Longrightarrow> em_uart_send (env_uart_write env) bs len = Inr 0"
  by (simp add: env_ok_def em_uart_send_def)

lemma payload_len_ok:
  "rq_ok r \<Longrightarrow> rq_active r \<Longrightarrow>
   \<exists>bs. rq_payload r = Some bs \<and> 0 < rq_payload_len r \<and> unat (rq_payload_len r) = length bs"
  by (auto simp: rq_ok_def unat_word_of_nat word_less_nat_alt split: option.splits)

lemma send_rq_ok:
  assumes inv: "rqs_inv startup (sc_rq sc)" and env: "env_ok env"
  shows "\<exists>sc' evs. send_rq env sc = Inr (sc', evs) \<and> rqs_inv False (sc_rq sc') \<and> em_sc_protocol sc' = em_sc_protocol sc"
proof -
  have len: "length (sc_rq sc) = MAX_RQS" "list_all rq_ok (sc_rq sc)" "times_ok startup (sc_rq sc)"
    using inv by (simp_all add: rqs_inv_def)
  obtain d s where e: "earliest_rq (sc_rq sc) 0 INT32_MAX None = Inr (d, s)" "d \<le> INT32_MAX"
      "overdue_in (- 665635) (- d) (sc_rq sc)"
      "s = None \<and> d = INT32_MAX \<or>
       (\<exists>j < length (sc_rq sc). s = Some j \<and> rq_active (sc_rq sc ! j) \<and> d = - overdue (sc_rq sc ! j))"
    using earliest_rq_ok [OF overdue_in_wide [OF len(3)], of 0 INT32_MAX None] by auto
  show ?thesis
  proof (cases "50 < d")
    case True
    have "d = INT32_MAX \<or> - LATE_MS \<le> d \<and> d < 0 \<or> 10 \<le> d \<and> d \<le> 665635"
      using e(4) True overdue_in_wide [OF len(3)] by (auto simp: overdue_in_def)
    moreover have "times_ok False (sc_rq sc)" using overdue_in_mono [OF e(3), of _ 0] True by (simp add: times_ok_def)
    ultimately obtain sc' where "schedule_next_timer_evt env sc d = Inr sc'" "rqs_inv False (sc_rq sc')"
        "em_sc_protocol sc' = em_sc_protocol sc"
      using schedule_ok [OF len(1,2) e(3), of d env] True by auto
    then show ?thesis using e(1) True by (simp add: send_rq_def)
  next
    case False
    then obtain j where j: "s = Some j" "j < MAX_RQS" "rq_active (sc_rq sc ! j)" "d = - overdue (sc_rq sc ! j)"
      using e(4) len(1) by auto
    have "rq_ok (sc_rq sc ! j)" using rqs_inv_nth [OF inv j(2)] .
    then obtain bs where p: "rq_payload (sc_rq sc ! j) = Some bs" "0 < rq_payload_len (sc_rq sc ! j)"
        "unat (rq_payload_len (sc_rq sc ! j)) = length bs"
      using payload_len_ok j(3) by blast
    obtain lo hi where b: "overdue_in lo hi (sc_rq sc)" "(lo, hi) = (- 65535, LATE_MS) \<or> (lo, hi) = (- 665535, 100) \<or> (lo, hi) = (- 665635, 0)"
      using len(3) by (auto simp: times_ok_def split: if_splits)
    have od: "overdue (sc_rq sc ! j) \<le> hi" using b(1) j(2,3) len(1) by (force simp: overdue_in_def)
    let ?rqs = "rq_sent (sc_rq sc) j"
    let ?sc = "sc\<lparr>sc_last_rq_id := rq_rq_id (sc_rq sc ! j), sc_rq := ?rqs\<rparr>"
    have s: "length ?rqs = MAX_RQS" "list_all rq_ok ?rqs" "overdue_in lo hi ?rqs"
      using rq_sent_ok [OF len(1,2) b(1) j(2,3)] b(2) False j(4) od by auto
    have w: "overdue_in (- 665635) LATE_MS ?rqs" using s(3) b(2) by (auto elim: overdue_in_mono)
    obtain n t where n: "earliest_rq ?rqs 0 INT32_MAX None = Inr (n, t)" "n \<le> INT32_MAX"
        "overdue_in (- 665635) (- n) ?rqs"
        "t = None \<and> n = INT32_MAX \<or>
         (\<exists>j < length ?rqs. t = Some j \<and> rq_active (?rqs ! j) \<and> n = - overdue (?rqs ! j))"
      using earliest_rq_ok [OF w, of 0 INT32_MAX None] by auto
    have nb: "n = INT32_MAX \<or> - hi \<le> n \<and> n \<le> 665635"
      using n(4) s(3) b(2) by (auto simp: overdue_in_def)
    have nd: "next_delay n = (if 0 \<le> n \<and> n < 100 then 100 else n)"
      using next_delay_cases nb n(2) b(2) by auto
    have lo_n: "overdue_in lo (- n) ?rqs" using s(3) n(3) by (simp add: overdue_in_def)
    have "\<exists>sc'. schedule_next_timer_evt env ?sc (next_delay n) = Inr sc' \<and> rqs_inv False (sc_rq sc') \<and>
        em_sc_protocol sc' = em_sc_protocol ?sc"
    proof (rule schedule_ok)
      show "overdue_in lo (- n) (sc_rq ?sc)" using lo_n by simp
    next
      show "next_delay n = INT32_MAX \<or> - LATE_MS \<le> next_delay n \<and> next_delay n < 0 \<or>
          10 \<le> next_delay n \<and> next_delay n \<le> 665635"
        using nb b(2) by (auto simp: nd)
    next
      show "next_delay n \<noteq> INT32_MAX \<Longrightarrow> - 665535 \<le> lo + next_delay n \<and> - n + next_delay n \<le> 100 \<or>
          - 665635 \<le> lo + next_delay n \<and> - n + next_delay n \<le> 0"
        using nb b(2) by (auto simp: nd)
    next
      show "next_delay n = INT32_MAX \<Longrightarrow> times_ok False (sc_rq ?sc)"
        using overdue_in_mono [OF lo_n, of "- 665635" 0] b(2) by (auto simp: times_ok_def nd split: if_splits)
    qed (use s b nb in auto)
    then obtain sc' where "schedule_next_timer_evt env ?sc (next_delay n) = Inr sc'" "rqs_inv False (sc_rq sc')"
        "em_sc_protocol sc' = em_sc_protocol ?sc" by blast
    then show ?thesis
      using e(1) False j p n(1) uart_ok [OF env, of "length bs" bs]
      by (simp add: send_rq_def em_sc_protocol_def protocol_ok_def)
  qed
qed


subsection \<open>The interface of a protocol\<close>

text \<open>What the client relies on: a request is serialized to 1 to 255 bytes when memory is there, and the parser
  consumes no more than it is given and leaves the buffer its length.\<close>

locale serial_protocol =
  fixes proto :: "('p, 'h) serial_protocol_t"
  assumes serialize_law: "len \<le> length payload \<Longrightarrow> len \<le> MAX_PACKET_LEN \<Longrightarrow>
      \<exists>bs. serialize_func proto True rq payload len = Inr (Some bs) \<and> 0 < length bs \<and> length bs < 256"
    and parse_law: "parse_func proto st rq data len out = Inr (r, rq', st') \<Longrightarrow> len \<le> length data \<Longrightarrow>
      r_consumed r \<le> len \<and> length (r_data r) = length data"
begin

lemma new_request_inv:
  assumes "rqs_inv startup rqs" "serialize_func proto True rq payload len = Inr (Some bs)"
    "0 < length bs" "length bs < 256" "tmo \<le> max_period startup" "k \<le> 2500"
  shows "rqs_inv startup (rqs[i := \<lparr>rq_payload = Some bs, rq_rq_id = rq, rq_timeout = ucast (tmo :: u32),
      rq_since = i32 (tmo - word_of_nat k), rq_retries = 0, rq_max_retries = m,
      rq_payload_len = word_of_nat (length bs), rq_active = True, rq_periodic = p\<rparr>])"
proof (rule rqs_inv_update [OF assms(1)])
  let ?r = "\<lparr>rq_payload = Some bs, rq_rq_id = rq, rq_timeout = ucast tmo,
      rq_since = i32 (tmo - word_of_nat k), rq_retries = 0, rq_max_retries = m,
      rq_payload_len = word_of_nat (length bs), rq_active = True, rq_periodic = p\<rparr>"
  have t: "uint tmo \<le> (if startup then 600000 else 65535)"
    using assms(5) by (auto simp: max_period_def word_le_def split: if_splits)
  have "uint (ucast tmo :: u16) = uint tmo mod 65536"
    by (simp add: unsigned_ucast_eq take_bit_eq_mod)
  moreover have "i32 (tmo - word_of_nat k) = uint tmo - int k"
    using i32_minus [of "uint tmo" "int k"] t assms(6) by (auto split: if_splits)
  ultimately have o: "overdue ?r = uint tmo - uint tmo mod 65536 - int k" by (simp add: overdue_def)
  have "uint tmo mod 65536 \<le> uint tmo" by (intro zmod_le_nonneg_dividend) simp
  moreover have "\<not> startup \<Longrightarrow> uint tmo mod 65536 = uint tmo" using t by simp
  moreover have "0 \<le> uint tmo mod 65536" by simp
  ultimately show "- 65535 \<le> overdue ?r \<and> overdue ?r \<le> (if startup then LATE_MS else 0)"
    using t assms(6) unfolding o by (auto split: if_splits)
qed (use assms in \<open>simp add: rq_ok_def\<close>)

lemma free_slot:
  "rqs_inv startup rqs \<Longrightarrow> first_free rqs < MAX_RQS \<Longrightarrow> rq_payload (rqs ! first_free rqs) = None"
proof -
  have f: "first_free xs < length xs \<Longrightarrow> \<not> rq_active (xs ! first_free xs)" for xs
    by (induction xs) auto
  assume "rqs_inv startup rqs" "first_free rqs < MAX_RQS"
  with f [of rqs] rqs_inv_nth [of startup rqs "first_free rqs"] show ?thesis
    by (simp add: rqs_inv_def rq_ok_def split: option.splits)
qed

lemma add_rq_ok:
  assumes "em_sc_protocol sc = Some proto" "rqs_inv startup (sc_rq sc)" "env_ok env" "len \<le> length payload"
    "len \<le> MAX_PACKET_LEN" "tmo \<le> max_period startup"
  shows "\<exists>n sc'. add_rq env sc rq payload len tmo retries = Inr (n, sc') \<and> rqs_inv startup (sc_rq sc') \<and>
    em_sc_protocol sc' = Some proto"
proof (cases "MAX_RQS \<le> first_free (sc_rq sc)")
  case False
  obtain bs where bs: "serialize_func proto True rq payload len = Inr (Some bs)" "0 < length bs" "length bs < 256"
    using serialize_law [OF assms(4,5)] by blast
  let ?i = "first_free (sc_rq sc)"
  let ?sc = "sc\<lparr>sc_rq := (sc_rq sc)[?i := \<lparr>rq_payload = Some bs, rq_rq_id = rq, rq_timeout = ucast tmo,
      rq_since = i32 (tmo - word_of_nat (?i * 100)), rq_retries = 0, rq_max_retries = retries,
      rq_payload_len = word_of_nat (length bs), rq_active = True, rq_periodic = False\<rparr>]\<rparr>"
  note inv = new_request_inv [OF assms(2) bs assms(6), of "?i * 100" ?i retries False]
  show ?thesis
    by (rule start_timer_ok [OF start_timer_2000, of env ?sc])
      (use assms(1,3) False bs free_slot [OF assms(2)] inv in \<open>simp add: add_rq_def env_ok_def Let_def\<close>)
qed (use assms in \<open>simp add: add_rq_def Let_def\<close>)

lemma add_periodic_rq_ok:
  assumes "em_sc_protocol sc = Some proto" "rqs_inv startup (sc_rq sc)" "env_ok env" "len \<le> length payload"
    "len \<le> MAX_PACKET_LEN" "1 < period" "period \<le> max_period startup"
  shows "\<exists>n sc'. add_periodic_rq env sc rq payload len period = Inr (n, sc') \<and> rqs_inv startup (sc_rq sc') \<and>
    em_sc_protocol sc' = Some proto"
proof (cases "MAX_RQS \<le> first_free (sc_rq sc)")
  case False
  obtain bs where bs: "serialize_func proto True rq payload len = Inr (Some bs)" "0 < length bs" "length bs < 256"
    using serialize_law [OF assms(4,5)] by blast
  let ?i = "first_free (sc_rq sc)"
  let ?sc = "sc\<lparr>sc_rq := (sc_rq sc)[?i := \<lparr>rq_payload = Some bs, rq_rq_id = rq, rq_timeout = ucast period,
      rq_since = i32 (period - word_of_nat ((?i + 1) * 500)), rq_retries = 0, rq_max_retries = 0,
      rq_payload_len = word_of_nat (length bs), rq_active = True, rq_periodic = True\<rparr>]\<rparr>"
  note inv = new_request_inv [OF assms(2) bs assms(7), of "(?i + 1) * 500" ?i 0 True]
  show ?thesis
    by (rule start_timer_ok [OF start_timer_2000, of env ?sc])
      (use assms(1,3,6) False bs free_slot [OF assms(2)] inv in \<open>simp add: add_periodic_rq_def env_ok_def Let_def\<close>)
qed (use assms in \<open>simp add: add_periodic_rq_def Let_def\<close>)

lemma remove_periodic_ok:
  "em_sc_protocol sc = Some proto \<Longrightarrow> rqs_inv startup (sc_rq sc) \<Longrightarrow>
   rqs_inv startup (sc_rq (snd (remove_periodic_rq sc rq))) \<and> em_sc_protocol (snd (remove_periodic_rq sc rq)) = Some proto"
  by (auto simp: remove_periodic_rq_def Let_def delete_timer_def deactivate_inv
      split: option.splits)

end


subsection \<open>Received bytes\<close>

definition client_inv :: "bool \<Rightarrow> ('p, 'h) serial_protocol_t \<Rightarrow> ('p, 'h) em_sc_t \<Rightarrow> bool" where
  "client_inv startup proto sc \<longleftrightarrow> em_sc_protocol sc = Some proto \<and> rqs_inv startup (sc_rq sc)"

text \<open>What a received packet can change keeps the protocol and the invariant of the requests.\<close>

definition keeps_rqs :: "('p, 'h) em_sc_t \<Rightarrow> ('p, 'h) em_sc_t \<Rightarrow> bool" where
  "keeps_rqs sc sc' \<longleftrightarrow> em_sc_protocol sc' = em_sc_protocol sc \<and>
     (\<forall>startup. rqs_inv startup (sc_rq sc) \<longrightarrow> rqs_inv startup (sc_rq sc'))"

lemma keeps_rqs_simps [simp]: "keeps_rqs sc sc" "keeps_rqs sc (sc\<lparr>sc_parser := st\<rparr>)" "keeps_rqs sc (ack_rsp sc c)"
  "keeps_rqs (sc\<lparr>sc_parser := st\<rparr>) sc' = keeps_rqs sc sc'" "keeps_rqs sc (ack_rsp (sc\<lparr>sc_parser := st\<rparr>) c)"
  using ack_rsp_inv [of _ "sc\<lparr>sc_parser := st\<rparr>" c]
  by (auto simp: keeps_rqs_def ack_rsp_inv)

lemma keeps_rqs_trans: "keeps_rqs a b \<Longrightarrow> keeps_rqs b c \<Longrightarrow> keeps_rqs a c"
  by (auto simp: keeps_rqs_def)

lemma keeps_rqs_protocol: "keeps_rqs a b \<Longrightarrow> em_sc_protocol b = em_sc_protocol a"
  by (simp add: keeps_rqs_def)

lemma keeps_client_inv: "keeps_rqs sc sc' \<Longrightarrow> client_inv startup proto sc \<Longrightarrow> client_inv startup proto sc'"
  by (simp add: keeps_rqs_def client_inv_def)

context serial_protocol begin

lemma parse_loop_ok:
  "parse_loop proto n sc data len p result = Inr (p', sc', data', result') \<Longrightarrow>
   em_sc_protocol sc = Some proto \<Longrightarrow> len \<le> length data \<Longrightarrow> p \<le> len \<Longrightarrow>
   p' \<le> len \<and> keeps_rqs sc sc' \<and> length data' = length data"
proof (induction n arbitrary: sc data p result)
  case (Suc n)
  show ?case
  proof (cases "p < len")
    case True
    then obtain r rq' st' where r: "parse_func proto (sc_parser sc) (pr_rsp_id result) (drop p data) (len - p)
        (pr_payload result) = Inr (r, rq', st')"
      using Suc.prems(1) by (auto simp: obind_Inr_iff split: if_splits)
    have law: "r_consumed r \<le> len - p" "length (r_data r) = length data - p"
      using parse_law [OF r] Suc.prems(3) by simp_all
    let ?sc = "sc\<lparr>sc_parser := st'\<rparr>"
    let ?d = "take p data @ r_data r"
    let ?res = "result\<lparr>pr_payload := r_out r, pr_rsp_id := rq', pr_status := r_err r\<rparr>"
    have ok: "em_sc_protocol ?sc = Some proto" "len \<le> length ?d" "p + r_consumed r \<le> len" "length ?d = length data"
      using Suc.prems law True by simp_all
    consider (again) "parse_loop proto n ?sc ?d len (p + r_consumed r) ?res = Inr (p', sc', data', result')"
      | (stop) "p' = p + r_consumed r" "sc' = ?sc \<or> sc' = ack_rsp ?sc (sc_last_rq_id sc)" "data' = ?d"
      using Suc.prems(1) r True by (auto simp: Let_def split: if_splits)
    then show ?thesis
    proof cases
      case again
      from Suc.IH [OF this ok(1-3)] ok(4) show ?thesis by simp
    next
      case stop
      with ok show ?thesis by auto
    qed
  qed (use Suc.prems in simp)
qed simp

lemma parse_ok:
  assumes "parse sc data len result = Inr (n, sc', data', result')" "em_sc_protocol sc = Some proto" "len \<le> length data"
  shows "n \<le> len \<and> keeps_rqs sc sc' \<and> length data' = length data"
  using assms parse_loop_ok [where n = 8 and p = 0]
  by (auto simp: parse_def Let_def split: if_splits)

lemma packet_handler_ok:
  "packet_handler sc t d n = Inr (sc', evs) \<Longrightarrow> keeps_rqs sc sc'"
  by (auto simp: packet_handler_def Let_def split: option.splits)

lemma process_loop_ok:
  "process_loop n sc data len p result = Inr (p', sc', evs) \<Longrightarrow>
   em_sc_protocol sc = Some proto \<Longrightarrow> len \<le> length data \<Longrightarrow> p \<le> len \<Longrightarrow> p' \<le> len \<and> keeps_rqs sc sc'"
proof (induction n arbitrary: sc data p result evs)
  case (Suc n)
  show ?case
  proof (cases "p < len")
    case True
    obtain k sc1 rest res1 where p1: "parse sc (drop p data) (len - p) result = Inr (k, sc1, rest, res1)"
      using Suc.prems(1) True by (auto simp: obind_Inr_iff)
    have k: "k \<le> len - p" "keeps_rqs sc sc1" "length rest = length data - p"
      using parse_ok [OF p1 Suc.prems(2)] Suc.prems(3) by simp_all
    obtain sc2 e2 where h: "(if pr_status res1 = PARSE_STATUS_OK
        then packet_handler sc1 (sc_last_rq_id sc1) (pr_payload res1) (pr_payload_len res1) else Inr (sc1, [])) =
        Inr (sc2, e2)"
      using Suc.prems(1) True p1 by (auto simp: obind_Inr_iff)
    then have k2: "keeps_rqs sc sc2" using k(2) keeps_rqs_trans [OF k(2) packet_handler_ok [of sc1]] by (auto split: if_splits)
    then have "em_sc_protocol sc2 = Some proto" using Suc.prems(2) by (simp add: keeps_rqs_def)
    moreover obtain e3 where "process_loop n sc2 (take p data @ rest) len (p + k) res1 = Inr (p', sc', e3)"
      using Suc.prems(1) True p1 h by (auto simp: obind_Inr_iff)
    ultimately show ?thesis using Suc.IH [of sc2 "take p data @ rest" "p + k" res1 e3] k Suc.prems(3) True keeps_rqs_trans [OF k2]
      by auto
  qed (use Suc.prems in simp)
qed simp

lemma process_data_ok:
  assumes "process_data sc ring ds n = Inr (sc', ring', evs)" "em_sc_protocol sc = Some proto" "ringbuf_inv ring"
    "0 < n" "n \<le> length ds"
  shows "keeps_rqs sc sc' \<and> ringbuf_inv ring' \<and> rb_size ring' = rb_size ring \<and>
    (\<exists>k \<le> MAX_PACKET_LEN. ringbuf_bytes ring' = drop k (newest (rb_size ring) (ringbuf_bytes ring @ take n ds)))"
proof -
  obtain r1 where r1: "em_ringbuf_write ring ds n = Inr (r1, n)" "ringbuf_inv r1" "rb_size r1 = rb_size ring"
      "ringbuf_bytes r1 = newest (rb_size ring) (ringbuf_bytes ring @ take n ds)"
    using ring.write_law [OF assms(3-5)] by auto
  let ?d = "take MAX_PACKET_LEN (ringbuf_bytes r1)"
  have rd: "em_ringbuf_read r1 MAX_PACKET_LEN = Inr ?d" using ring.read_law [OF r1(2)] by simp
  let ?data = "overwrite (replicate MAX_PACKET_LEN 0) 0 ?d"
  let ?res = "\<lparr>pr_payload = replicate MAX_PACKET_LEN 0, pr_payload_len = 0, pr_rsp_id = 0, pr_status = 0\<rparr>"
  show ?thesis
  proof (cases "?d = []")
    case True
    then show ?thesis using assms(1,2) r1 rd by (auto simp: process_data_def Let_def)
  next
    case False
    have eq: "process_data sc ring ds n = obind (process_loop 8 sc ?data (length ?d) 0 ?res) (\<lambda>(processed, sc, evs).
        if 0 < processed then obind (em_ringbuf_clear r1 processed) (\<lambda>(ring, _). Inr (sc, ring, evs))
        else Inr (sc, r1, evs))"
      using r1(1) rd False by (simp add: process_data_def Let_def)
    obtain p evs' where pl: "process_loop 8 sc ?data (length ?d) 0 ?res = Inr (p, sc', evs')"
        and rest: "(if 0 < p then obind (em_ringbuf_clear r1 p) (\<lambda>(ring, _). Inr (sc', ring, evs'))
                    else Inr (sc', r1, evs')) = Inr (sc', ring', evs)"
      using assms(1) unfolding eq by (auto simp: obind_Inr_iff simp del: process_loop.simps split: if_splits)
    have p2: "0 < p \<and> (\<exists>m. em_ringbuf_clear r1 p = Inr (ring', m)) \<or> p = 0 \<and> ring' = r1"
      using rest by (cases "p = 0") (auto simp: obind_Inr_iff)
    note p = pl p2
    have "p \<le> length ?d \<and> keeps_rqs sc sc'" using process_loop_ok [OF p(1) assms(2)] by simp
    moreover have "ringbuf_inv ring' \<and> rb_size ring' = rb_size ring \<and> ringbuf_bytes ring' = drop p (ringbuf_bytes r1)"
      using p(2) ring.clear_law [OF r1(2), of p] r1(2,3) by auto
    ultimately show ?thesis using r1(4) by auto
  qed
qed

lemma step_ok:
  assumes "client_inv startup proto sc" "ringbuf_inv ring" "env_ok env" "sc_cmd_ok startup c"
  shows "(\<forall>payload n. c \<noteq> SC_CMD_PROCESS_DATA payload n) \<longrightarrow>
      (\<exists>sc' evs. sc_task_step env (sc, ring) c = Inr ((sc', ring), evs) \<and>
         client_inv (startup \<and> c \<noteq> SC_CMD_TIMER) proto sc')"
proof -
  have sc: "em_sc_protocol sc = Some proto" "rqs_inv startup (sc_rq sc)" using assms(1) by (simp_all add: client_inv_def)
  show ?thesis
  proof (cases c)
    case (SC_CMD_ADD_RQ rq payload n tmo m)
    with add_rq_ok [OF sc assms(3), of n payload tmo rq m] assms(4) show ?thesis
      by (auto simp: sc_task_step_def sc_cmd_ok_def client_inv_def)
  next
    case (SC_CMD_ADD_RQ_PERIODIC rq payload n period)
    with add_periodic_rq_ok [OF sc assms(3), of n payload period rq] assms(4) show ?thesis
      by (auto simp: sc_task_step_def sc_cmd_ok_def client_inv_def)
  next
    case SC_CMD_TIMER
    with send_rq_ok [OF sc(2) assms(3)] sc(1) show ?thesis
      by (auto simp: sc_task_step_def client_inv_def)
  qed (use assms(1) remove_periodic_ok [OF sc] in \<open>auto simp: sc_task_step_def client_inv_def\<close>)
qed

end

end
