(* ===== verification/EM_Inverter.thy ===== *)
theory EM_Inverter
  imports EM_Sc_Safety
begin

section \<open>The inverter module as a client of the serial line (main/modules/inverter)\<close>

text \<open>
  The protocol table, the response handlers and the requests that \<open>inv_init\<close> posts.
\<close>

datatype inv_rsp_handler =
    inv_id_handler | inv_fw_ver_handler | inv_meas_qpigs_handler | inv_fault_handler
  | inv_warning_flags_handler | inv_mode_handler | inv_model_handler

definition inv_rsp_handlers :: "(u16 \<times> inv_rsp_handler) list" where
  "inv_rsp_handlers =
     [(EM_RS232_2400_QID, inv_id_handler), (EM_RS232_2400_QVFW, inv_fw_ver_handler),
      (EM_RS232_2400_QPIGS, inv_meas_qpigs_handler), (EM_RS232_2400_QPICF, inv_fault_handler),
      (EM_RS232_2400_QPIWS, inv_warning_flags_handler), (EM_RS232_2400_QMOD, inv_mode_handler),
      (EM_RS232_2400_QMOD, inv_model_handler)]"

definition inv_protocol :: "(bytes \<Rightarrow> u32) \<Rightarrow> (rs232_stats, inv_rsp_handler) serial_protocol_t" where
  "inv_protocol flt =
     \<lparr>parse_func = \<lambda>st rq data len out.
        obind (rs232_2400_rsp_parse flt st rq data len out) (\<lambda>(r, st). Inr (r, rq, st)),
      serialize_func = \<lambda>alloc rq payload len.
        obind (rs232_2400_serialize alloc rq payload len) (\<lambda>bs. Inr (Some bs)),
      baud_rate = 2400, data_bits = 8, stop_bits = 1, parity = False, rsp_handlers = inv_rsp_handlers\<rparr>"

definition inv_sc :: "(bytes \<Rightarrow> u32) \<Rightarrow> rs232_stats \<Rightarrow> (rs232_stats, inv_rsp_handler) em_sc_t" where
  "inv_sc flt st =
     \<lparr>sc_selected_protocol_idx = 0, sc_last_rq_id = 0, sc_supported_protocols = [inv_protocol flt], sc_rq = [],
      sc_timer = None, sc_parser = st\<rparr>"

definition inv_request :: "u16 \<Rightarrow> bytes \<Rightarrow> u32 \<Rightarrow> sc_cmd_t option outcome" where
  "inv_request rq_id text period =
     obind (em_sc_send_periodic True rq_id text (length text) period) (\<lambda>(err, cmd). c_assert (0 \<le> err) (Inr cmd))"

text \<open>The client and the commands in its queue; the texts are \<open>QVFW\<close>, \<open>QPIGS\<close>, \<open>QPIWS\<close> and \<open>QMOD\<close>.\<close>

definition inv_init ::
  "(bytes \<Rightarrow> u32) \<Rightarrow> rs232_stats \<Rightarrow>
   (int \<times> (rs232_stats, inv_rsp_handler) em_sc_t \<times> sc_cmd_t option list) outcome" where
  "inv_init flt st =
     obind (em_sc_init (inv_sc flt st) 0) (\<lambda>(sc, _).
     obind (inv_request EM_RS232_2400_QVFW [81, 86, 70, 87] 10000) (\<lambda>c1.
     obind (inv_request EM_RS232_2400_QPIGS [81, 80, 73, 71, 83] 15000) (\<lambda>c2.
     obind (inv_request EM_RS232_2400_QPIWS [81, 80, 73, 87, 83] 600000) (\<lambda>c3.
     obind (inv_request EM_RS232_2400_QMOD [81, 77, 79, 68] 600000) (\<lambda>c4.
       Inr (0, sc, [c1, c2, c3, c4]))))))"

subsection \<open>The protocol keeps the contract of the client\<close>

lemma find_start_bound: "find_start_loop bs i s = Some k \<Longrightarrow> (\<And>j. s = Some j \<Longrightarrow> j < i) \<Longrightarrow> k < i + length bs"
  by (induction bs arbitrary: i s) (fastforce split: if_splits)+

lemma find_end_bound: "find_end_loop bs i \<noteq> 0 \<Longrightarrow> find_end_loop bs i < i + length bs"
proof (induction bs arbitrary: i)
  case (Cons b bs)
  show ?case using Cons.IH [of "Suc i"] Cons.prems by (auto split: if_splits)
qed simp

lemma rsp_parse_bounds:
  assumes "rs232_2400_rsp_parse flt st rq data len out = Inr (r, st')" "len \<le> length data"
  shows "r_consumed r \<le> len \<and> length (r_data r) = length data"
proof (cases "len < 5 \<or> find_start_loop (take len data) 0 None = None")
  case True
  then show ?thesis using assms by (auto simp: rs232_2400_rsp_parse_def Let_def split: if_splits)
next
  case False
  then obtain s where s: "find_start_loop (take len data) 0 None = Some s" by auto
  have sl: "s < len" using find_start_bound [OF s] assms(2) by simp
  define e where "e = find_end_loop (drop s (take len data)) s"
  have el: "e \<noteq> 0 \<Longrightarrow> e < len" using find_end_bound [of "drop s (take len data)" s] sl assms(2) by (simp add: e_def)
  show ?thesis
  proof (cases "e = 0 \<or> e - s \<le> 2")
    case True
    then show ?thesis using assms False s sl
      by (auto simp: rs232_2400_rsp_parse_def Let_def e_def split: if_splits)
  next
    case nz: False
    then show ?thesis using assms False s el
      by (auto simp: rs232_2400_rsp_parse_def Let_def obind_Inr_iff simp flip: e_def
          split: if_splits option.splits)
  qed
qed

interpretation inv: serial_protocol "inv_protocol flt" for flt
proof (unfold_locales, goal_cases)
  case (1 len payload rq)
  then show ?case by (simp add: inv_protocol_def rs232_2400_serialize_def crc16_xmodem_def)
next
  case (2 st rq data len out r rq' st')
  then show ?case using rsp_parse_bounds by (fastforce simp: inv_protocol_def obind_Inr_iff)
qed


subsection \<open>The status of a response\<close>

lemma scan_to_status: "scan_to flt cs ds n e p out = Inr (err, out') \<Longrightarrow> err = 0 \<or> err = e"
  by (auto simp: scan_to_def obind_Inr_iff split: if_splits)

lemma qflag_status: "qflag_loop p i n en out = Inr (err, out') \<Longrightarrow> err = 0 \<or> err = - 3"
  by (induction n arbitrary: i en out) (auto simp: obind_Inr_iff split: if_splits option.splits)

lemma strdec_status: "strdec2int_loop p i n acc = Inr (err, v) \<Longrightarrow> err = 0 \<or> err = - 1"
  by (induction n arbitrary: i acc) (auto simp: obind_Inr_iff Let_def split: if_splits)

text \<open>A parser reports 0 for success and a small negative number for a failure.\<close>

lemmas rsp_parser_defs =
  parse_rsp_qpi_def parse_rsp_qid_def parse_rsp_qvfw_def parse_rsp_qmd_def parse_rsp_qpiri_def parse_rsp_qpigs_def
  parse_rsp_qflag_def parse_rsp_qmod_def parse_rsp_qgov_def parse_rsp_qgof_def parse_rsp_qpiws_def parse_rsp_qpicf_def
  parse_rsp_qopmp_def parse_rsp_qmpptv_def parse_rsp_qpvipv_def parse_rsp_qlst_def parse_rsp_qtpr_def
  parse_rsp_qdi2_def parse_rsp_qgltv_def parse_rsp_qdm_def parse_rsp_qpihf_def parse_rsp_qchgs_def

lemma rsp_parser_status:
  assumes "rsp_parser_of flt rq = Some parser" "parser p len out = Inr (err, out')"
  shows "err \<in> {0, - 1, - 2, - 3, - 4}"
  using assms
  by (auto simp: rsp_parser_of_def rsp_parser_defs strdec2int_def obind_Inr_iff Let_def
      dest!: scan_to_status qflag_status strdec_status split: if_splits)

subsection \<open>Responses\<close>

text \<open>\<open>has_nak\<close>: the text \<open>NAK\<close> of a refusal occurs; \<open>zeroed\<close>: the parser only clears bytes.\<close>

definition has_nak :: "bytes \<Rightarrow> bool" where
  "has_nak xs \<longleftrightarrow> (\<exists>k. k + 2 < length xs \<and> xs ! k = 78 \<and> xs ! (k + 1) = 65 \<and> xs ! (k + 2) = 75)"

definition zeroed :: "bytes \<Rightarrow> bytes \<Rightarrow> bool" where
  "zeroed xs ys \<longleftrightarrow> length ys = length xs \<and> (\<forall>i < length xs. ys ! i = xs ! i \<or> ys ! i = 0)"

lemma zeroed_refl [simp]: "zeroed xs xs"
  by (simp add: zeroed_def)

lemma zeroed_nak: "zeroed xs ys \<Longrightarrow> has_nak ys \<Longrightarrow> has_nak xs"
proof -
  assume z: "zeroed xs ys" and "has_nak ys"
  then obtain k where k: "k + 2 < length xs" "ys ! k = 78" "ys ! (k + 1) = 65" "ys ! (k + 2) = 75"
    by (auto simp: has_nak_def zeroed_def)
  moreover have "xs ! i = ys ! i" if "i < length xs" "ys ! i \<noteq> 0" for i using z that by (auto simp: zeroed_def)
  ultimately have "xs ! k = 78" "xs ! (k + 1) = 65" "xs ! (k + 2) = 75" by simp_all
  with k(1) show "has_nak xs" by (auto simp: has_nak_def)
qed

lemma nak_drop: "has_nak (drop p xs) \<Longrightarrow> has_nak xs"
proof -
  assume "has_nak (drop p xs)"
  then obtain k where k: "k + 2 < length xs - p" "drop p xs ! k = 78" "drop p xs ! (k + 1) = 65" "drop p xs ! (k + 2) = 75"
    by (auto simp: has_nak_def)
  then have "(p + k) + 2 < length xs \<and> xs ! (p + k) = 78 \<and> xs ! ((p + k) + 1) = 65 \<and> xs ! ((p + k) + 2) = 75"
    by (simp add: add.assoc)
  then show "has_nak xs" unfolding has_nak_def by blast
qed

lemma nak_prefix: "has_nak (take n xs) \<Longrightarrow> has_nak xs"
  by (fastforce simp: has_nak_def)

lemma nak_padded: "has_nak (xs @ replicate n 0) \<Longrightarrow> has_nak xs"
proof -
  assume "has_nak (xs @ replicate n 0)"
  then obtain k where k: "k + 2 < length xs + n" "(xs @ replicate n 0) ! k = 78"
      "(xs @ replicate n 0) ! (k + 1) = 65" "(xs @ replicate n 0) ! (k + 2) = 75"
    by (auto simp: has_nak_def)
  have "k + 2 < length xs"
  proof (rule ccontr)
    assume "\<not> k + 2 < length xs"
    then have "(xs @ replicate n 0) ! (k + 2) = 0" using k(1) by (simp add: nth_append)
    with k(4) show False by simp
  qed
  with k show "has_nak xs" by (auto simp: has_nak_def nth_append)
qed

lemma zeroed_splice: "zeroed (drop p xs) ys \<Longrightarrow> p \<le> length xs \<Longrightarrow> zeroed xs (take p xs @ ys)"
proof -
  assume z: "zeroed (drop p xs) ys" "p \<le> length xs"
  have "(take p xs @ ys) ! i = xs ! i \<or> (take p xs @ ys) ! i = 0" if "i < length xs" for i
  proof (cases "i < p")
    case False
    then have "i - p < length xs - p" "p + (i - p) = i" using that by simp_all
    moreover have "\<forall>j < length xs - p. ys ! j = xs ! (p + j) \<or> ys ! j = 0" using z by (simp add: zeroed_def)
    ultimately have "ys ! (i - p) = xs ! i \<or> ys ! (i - p) = 0" by fastforce
    then show ?thesis using False z(2) by (simp add: nth_append)
  qed (use that z in \<open>simp add: nth_append\<close>)
  with z show ?thesis by (simp add: zeroed_def)
qed

lemma zeroed_trans: "zeroed xs ys \<Longrightarrow> zeroed ys zs \<Longrightarrow> zeroed xs zs"
  unfolding zeroed_def by metis

lemma nak_take3:
  assumes "parse_rsp_is_nak p n = Inr 0"
  shows "has_nak p"
proof -
  have l: "3 \<le> length p" and t: "take 3 p = [78, 65, 75]"
    using assms by (auto simp: parse_rsp_is_nak_def c_strncmp_def numeral_3_eq_3 split: if_splits)
  have "p ! 0 = 78" "p ! 1 = 65" "p ! 2 = 75"
    using arg_cong [OF t, of "\<lambda>x. x ! 0"] arg_cong [OF t, of "\<lambda>x. x ! 1"] arg_cong [OF t, of "\<lambda>x. x ! 2"] l by simp_all
  with l show ?thesis unfolding has_nak_def by (intro exI [of _ 0]) (simp add: numeral_2_eq_2)
qed

lemma err_not_ok: "err \<in> {0, - 1, - 2, - 3, - 4} \<Longrightarrow> (word_of_int err :: u16) \<noteq> PARSE_STATUS_OK \<and>
    (word_of_int err :: u16) \<noteq> PARSE_STATUS_RQ_REJECTED"
  by auto

lemma rsp_parse_cases:
  assumes "rs232_2400_rsp_parse flt st rq data len out = Inr (r, st')"
  obtains (plain) "r_err r = PARSE_STATUS_NO_PACKET \<or> r_err r = PARSE_STATUS_INVALID_CRC" "r_data r = data"
  | (no_parser) i j where "r_err r = PARSE_STATUS_NO_PACKET" "r_data r = data[i := 0, j := 0]"
  | (nak) i j k n where "r_err r = PARSE_STATUS_RQ_REJECTED" "r_data r = data[i := 0, j := 0]"
      "parse_rsp_is_nak (drop k (data[i := 0, j := 0])) n = Inr 0"
  | (parsed) i j parser p l err out' where "r_err r = word_of_int err" "r_data r = data[i := 0, j := 0]"
      "rsp_parser_of flt rq = Some parser" "parser p l out = Inr (err, out')"
proof (cases "len < 5 \<or> find_start_loop (take len data) 0 None = None")
  case True
  then show ?thesis using assms plain by (auto simp: rs232_2400_rsp_parse_def Let_def split: if_splits)
next
  case False
  then obtain s where s: "find_start_loop (take len data) 0 None = Some s" by auto
  define e where "e = find_end_loop (drop s (take len data)) s"
  show ?thesis
  proof (cases "e = 0 \<or> e - s \<le> 2")
    case True
    then show ?thesis using assms False s plain
      by (auto simp: rs232_2400_rsp_parse_def Let_def e_def split: if_splits)
  next
    case nz: False
    show ?thesis
    proof (cases "r_err r = PARSE_STATUS_INVALID_CRC \<and> r_data r = data")
      case True
      then show ?thesis using plain by blast
    next
      case good: False
      let ?d = "data[e - 2 := 0, e - 2 + 1 := 0]" and ?l = "e - s - 2 - 1"
      obtain nak where nk: "parse_rsp_is_nak (drop (s + 1) ?d) ?l = Inr nak"
          "if nak = 0 then r_err r = PARSE_STATUS_RQ_REJECTED \<and> r_data r = ?d
           else case rsp_parser_of flt rq of None \<Rightarrow> r_err r = PARSE_STATUS_NO_PACKET \<and> r_data r = ?d
             | Some parser \<Rightarrow> \<exists>err out'. parser (drop (s + 1) ?d) ?l out = Inr (err, out') \<and>
                 r_err r = word_of_int err \<and> r_data r = ?d"
        using assms False s nz good
        by (auto simp: rs232_2400_rsp_parse_def Let_def obind_Inr_iff simp flip: e_def
            split: if_splits option.splits)
      show ?thesis
      proof (cases "nak = 0")
        case True
        with nk show ?thesis using nak by auto
      next
        case False
        with nk show ?thesis using no_parser parsed by (cases "rsp_parser_of flt rq") auto
      qed
    qed
  qed
qed

lemma rsp_parse_status:
  assumes "rs232_2400_rsp_parse flt st rq data len out = Inr (r, st')"
  shows "r_err r \<noteq> PARSE_STATUS_OK \<and> (r_err r = PARSE_STATUS_RQ_REJECTED \<longrightarrow> has_nak data) \<and> zeroed data (r_data r)"
proof -
  have z: "zeroed data (data[i := 0, j := 0])" for i j
    by (cases "i < length data"; cases "j < length data") (simp_all add: zeroed_def nth_list_update)
  show ?thesis
    using assms
  proof (cases rule: rsp_parse_cases)
    case (nak i j k n)
    then show ?thesis using zeroed_nak [OF z nak_drop [OF nak_take3 [OF nak(3)]]] z by simp
  next
    case (parsed i j parser p l err out')
    then show ?thesis using err_not_ok [OF rsp_parser_status [OF parsed(3,4)]] z by simp
  qed (use z in auto)
qed


text \<open>With the inverter protocol a round of the parser never reports \<open>PARSE_STATUS_OK\<close>, and without a refusal
  it changes nothing but its own counters.\<close>

definition same_client :: "('p, 'h) em_sc_t \<Rightarrow> ('p, 'h) em_sc_t \<Rightarrow> bool" where
  "same_client sc sc' \<longleftrightarrow> (\<exists>st. sc' = sc\<lparr>sc_parser := st\<rparr>)"

lemma same_client_simps [simp]: "same_client sc sc" "same_client sc (sc\<lparr>sc_parser := st\<rparr>)"
  "same_client (sc\<lparr>sc_parser := st\<rparr>) sc' = same_client sc sc'"
  by (auto simp: same_client_def intro: exI [of _ "sc_parser sc"])

lemma same_client_trans: "same_client a b \<Longrightarrow> same_client b c \<Longrightarrow> same_client a c"
  by (auto simp: same_client_def)

lemma inv_parse_func:
  assumes "parse_func (inv_protocol flt) st rq data len out = Inr (r, rq', st')"
  shows "r_err r \<noteq> PARSE_STATUS_OK" "r_err r = PARSE_STATUS_RQ_REJECTED \<Longrightarrow> has_nak data" "zeroed data (r_data r)"
  using assms rsp_parse_status by (fastforce simp: inv_protocol_def obind_Inr_iff)+

lemma inv_parse_loop:
  "parse_loop (inv_protocol flt) n sc data len p result = Inr (p', sc', data', result') \<Longrightarrow>
   len \<le> length data \<Longrightarrow> p \<le> len \<Longrightarrow> pr_status result \<noteq> PARSE_STATUS_OK \<Longrightarrow>
   pr_status result' \<noteq> PARSE_STATUS_OK \<and> zeroed data data' \<and> em_sc_protocol sc' = em_sc_protocol sc \<and>
   (has_nak data \<or> same_client sc sc')"
proof (induction n arbitrary: sc data p result)
  case (Suc n)
  show ?case
  proof (cases "p < len")
    case True
    let ?pr = "inv_protocol flt"
    obtain r rq' st' where r: "parse_func ?pr (sc_parser sc) (pr_rsp_id result) (drop p data) (len - p)
        (pr_payload result) = Inr (r, rq', st')"
      using Suc.prems(1) True by (auto simp: obind_Inr_iff split: if_splits)
    note st = inv_parse_func [OF r]
    have law: "r_consumed r \<le> len - p" "length (r_data r) = length data - p"
      using inv.parse_law [OF r] Suc.prems(2) by simp_all
    let ?sc = "sc\<lparr>sc_parser := st'\<rparr>"
    let ?d = "take p data @ r_data r"
    let ?res = "result\<lparr>pr_payload := r_out r, pr_rsp_id := rq', pr_status := r_err r\<rparr>"
    have z: "zeroed data ?d" using zeroed_splice [OF st(3)] Suc.prems(2,3) by simp
    consider (again) "parse_loop ?pr n ?sc ?d len (p + r_consumed r) ?res = Inr (p', sc', data', result')"
      | (stop) "sc' = ?sc \<or> r_err r = PARSE_STATUS_RQ_REJECTED \<and> sc' = ack_rsp ?sc (sc_last_rq_id sc)"
          "data' = ?d" "result' = ?res"
      using Suc.prems(1) r True st(1) by (auto simp: Let_def split: if_splits)
    then show ?thesis
    proof cases
      case again
      have "len \<le> length ?d" "p + r_consumed r \<le> len" using law Suc.prems(2) True by simp_all
      from Suc.IH [OF again this] st(1) z zeroed_trans [OF z] zeroed_nak [OF z] show ?thesis by auto
    next
      case stop
      then show ?thesis using st(1,2) z nak_drop [of p data] by auto
    qed
  qed (use Suc.prems in simp)
qed simp

lemma inv_parse:
  assumes "parse sc data len result = Inr (k, sc', data', result')" "em_sc_protocol sc = Some (inv_protocol flt)"
    "len \<le> length data"
  shows "pr_status result' \<noteq> PARSE_STATUS_OK \<and> zeroed data data' \<and> em_sc_protocol sc' = em_sc_protocol sc \<and>
    (has_nak data \<or> same_client sc sc')"
proof -
  let ?r = "result\<lparr>pr_status := PARSE_STATUS_NO_PACKET, pr_payload_len := 0, pr_rsp_id := sc_last_rq_id sc\<rparr>"
  show ?thesis
  proof (cases "sc_last_rq_id sc = EXP_RSP_INVALID")
    case True
    then show ?thesis using assms by (auto simp: parse_def Let_def)
  next
    case False
    then have "parse_loop (inv_protocol flt) 8 sc data len 0 ?r = Inr (k, sc', data', result')"
      using assms(1,2) by (simp add: parse_def Let_def)
    from inv_parse_loop [OF this assms(3)] show ?thesis by simp
  qed
qed

lemma inv_process_loop:
  "process_loop n sc data len p result = Inr (p', sc', evs) \<Longrightarrow> em_sc_protocol sc = Some (inv_protocol flt) \<Longrightarrow>
   len \<le> length data \<Longrightarrow> p \<le> len \<Longrightarrow> evs = [] \<and> (has_nak data \<or> same_client sc sc')"
proof (induction n arbitrary: sc data p result evs)
  case (Suc n)
  show ?case
  proof (cases "p < len")
    case True
    obtain k sc1 rest res1 where p1: "parse sc (drop p data) (len - p) result = Inr (k, sc1, rest, res1)"
      using Suc.prems(1) True by (auto simp: obind_Inr_iff)
    note q = inv_parse [OF p1 Suc.prems(2)]
    have l: "len - p \<le> length (drop p data)" using Suc.prems(3) by simp
    note ok = inv.parse_ok [OF p1 Suc.prems(2) l]
    have z: "zeroed data (take p data @ rest)" using q l zeroed_splice Suc.prems(3,4) by simp
    obtain e where e: "process_loop n sc1 (take p data @ rest) len (p + k) res1 = Inr (p', sc', e)" "evs = e"
      using Suc.prems(1) True p1 q l by (auto simp: obind_Inr_iff)
    have b1: "len \<le> length (take p data @ rest)" using ok Suc.prems(3) True by simp
    have b2: "p + k \<le> len" using ok True by linarith
    show ?thesis
      using Suc.IH [OF e(1) _ b1 b2] ok q l Suc.prems(2) e(2) zeroed_nak [OF z] nak_drop [of p data] same_client_trans
      by auto
  qed (use Suc.prems in simp)
qed simp


lemma inv_process_data:
  assumes "process_data sc ring ds n = Inr (sc', ring', evs)" "em_sc_protocol sc = Some (inv_protocol flt)" "ringbuf_inv ring"
    "0 < n" "n \<le> length ds"
  shows "evs = [] \<and> (has_nak (newest (rb_size ring) (ringbuf_bytes ring @ take n ds)) \<or> same_client sc sc')"
proof -
  let ?all = "newest (rb_size ring) (ringbuf_bytes ring @ take n ds)"
  obtain r1 where r1: "em_ringbuf_write ring ds n = Inr (r1, n)" "ringbuf_inv r1" "ringbuf_bytes r1 = ?all"
    using ring.write_law [OF assms(3-5)] by auto
  define d where "d = take MAX_PACKET_LEN ?all"
  have rd: "em_ringbuf_read r1 MAX_PACKET_LEN = Inr d" using ring.read_law [OF r1(2)] r1(3) by (simp add: d_def)
  let ?dat = "overwrite (replicate MAX_PACKET_LEN 0) 0 d"
  let ?res = "\<lparr>pr_payload = replicate MAX_PACKET_LEN 0, pr_payload_len = 0, pr_rsp_id = 0, pr_status = 0\<rparr>"
  have data: "?dat = d @ replicate (MAX_PACKET_LEN - length d) 0" by (simp add: overwrite_def)
  have "has_nak d \<Longrightarrow> has_nak ?all" unfolding d_def by (rule nak_prefix)
  then have nak: "has_nak ?dat \<Longrightarrow> has_nak ?all" unfolding data using nak_padded by blast
  show ?thesis
  proof (cases "d = []")
    case True
    then show ?thesis using assms(1) r1(1) rd by (simp add: process_data_def Let_def)
  next
    case False
    then have ne: "length d \<noteq> 0" by simp
    have eq: "process_data sc ring ds n = obind (process_loop 8 sc ?dat (length d) 0 ?res) (\<lambda>(processed, sc, evs).
        if 0 < processed then obind (em_ringbuf_clear r1 processed) (\<lambda>(ring, _). Inr (sc, ring, evs))
        else Inr (sc, r1, evs))"
      unfolding process_data_def r1(1) obind_simps case_prod_conv rd Let_def using ne by simp
    obtain p where "process_loop 8 sc ?dat (length d) 0 ?res = Inr (p, sc', evs)"
      using assms(1) unfolding eq by (auto simp: obind_Inr_iff simp del: process_loop.simps split: if_splits)
    moreover have "length d \<le> length ?dat" unfolding data by simp
    ultimately show ?thesis
      using inv_process_loop [of 8 sc ?dat "length d" 0 ?res] assms(2) nak by auto
  qed
qed

text \<open>C30. With the inverter protocol no received byte sequence ever makes the client call a response handler: the
  parser reports success as 0, which the client takes for an unknown status. Unless a refusal (NAK) was received, the
  request table and the request that is waited for stay as they are, so no request is ever acknowledged.\<close>

theorem inv_responses_lost:
  assumes "em_sc_protocol sc = Some (inv_protocol flt)" "ringbuf_inv ring"
    "process_data sc ring ds n = Inr (sc', ring', evs)" "0 < n" "n \<le> length ds"
  shows "evs = [] \<and>
    (\<not> has_nak (newest (rb_size ring) (ringbuf_bytes ring @ take n ds)) \<longrightarrow>
     sc_rq sc' = sc_rq sc \<and> sc_last_rq_id sc' = sc_last_rq_id sc)"
  using inv_process_data [OF assms(3,1,2,4,5)] by (auto simp: same_client_def)


subsection \<open>The timer\<close>

text \<open>C31. When two requests are late at the same expiry of the timer, by at most \<open>late\<close> ms, one is sent and the timer is
  armed with a negative number of milliseconds: the minimum of 100 ms is compared as an unsigned number. The
  conversion to ticks wraps it to nearly 12 hours, at least (2 ^ 32 - 100 \<open>late\<close>) / 1000 ticks of 10 ms. The
  requests of the start-up (inv\_init), 588 s late, reach that state at the first expiry: more than 11.7 hours.\<close>

theorem late_requests_stall_client:
  assumes "length (sc_rq sc) = MAX_RQS" "list_all rq_ok (sc_rq sc)" "env_ok env" "env_timer_create env"
    "overdue_in (- 536870912) (int late) (sc_rq sc)" "late \<le> 42949662" "i < MAX_RQS" "j < MAX_RQS" "i \<noteq> j"
    "rq_active (sc_rq sc ! i)" "0 < overdue (sc_rq sc ! i)" "rq_active (sc_rq sc ! j)" "0 < overdue (sc_rq sc ! j)"
  shows "\<exists>sc' bs w. send_rq env sc = Inr (sc', [Uart_send bs]) \<and> sc_timer sc' = Some w \<and>
    (2 ^ 32 - 100 * late) div 1000 \<le> unat w \<and> unat w \<le> 4294967"
proof -
  let ?rqs = "sc_rq sc"
  obtain d s where e: "earliest_rq ?rqs 0 INT32_MAX None = Inr (d, s)" "overdue_in (- 536870912) (- d) ?rqs"
      "s = None \<and> d = INT32_MAX \<or>
       (\<exists>k < length ?rqs. s = Some k \<and> rq_active (?rqs ! k) \<and> d = - overdue (?rqs ! k))"
    using earliest_rq_ok [OF assms(5), of 0 INT32_MAX None] assms(6) by auto
  have "?rqs ! i \<in> set ?rqs" using assms(1,7) by simp
  then have d: "d < 0" using e(2) assms(10,11) by (force simp: overdue_in_def)
  then obtain k where k: "s = Some k" "k < MAX_RQS" "rq_active (?rqs ! k)" "d = - overdue (?rqs ! k)"
    using e(3) assms(1) by auto
  have "rq_ok (?rqs ! k)" using assms(1,2) k(2) by (simp add: list_all_length)
  then obtain bs where p: "rq_payload (?rqs ! k) = Some bs" "0 < rq_payload_len (?rqs ! k)"
      "unat (rq_payload_len (?rqs ! k)) = length bs"
    using payload_len_ok k(3) by blast
  have "?rqs ! k \<in> set ?rqs" using assms(1) k(2) by simp
  then have "overdue (?rqs ! k) \<le> int late" using assms(5) k(3) by (simp add: overdue_in_def)
  then have s: "length (rq_sent ?rqs k) = MAX_RQS" "overdue_in (- 536870912) (int late) (rq_sent ?rqs k)"
    using rq_sent_ok [OF assms(1,2,5) k(2,3)] d k(4) assms(6) by simp_all
  obtain n t where n: "earliest_rq (rq_sent ?rqs k) 0 INT32_MAX None = Inr (n, t)"
      "overdue_in (- 536870912) (- n) (rq_sent ?rqs k)"
      "t = None \<and> n = INT32_MAX \<or>
       (\<exists>k' < length (rq_sent ?rqs k). t = Some k' \<and> rq_active (rq_sent ?rqs k ! k') \<and> n = - overdue (rq_sent ?rqs k ! k'))"
    using earliest_rq_ok [OF s(2), of 0 INT32_MAX None] assms(6) by auto
  obtain l where l: "l < MAX_RQS" "l \<noteq> k" "rq_active (?rqs ! l)" "0 < overdue (?rqs ! l)"
    using assms(7-13) by metis
  have "rq_sent ?rqs k ! l = ?rqs ! l" using l(2) by (simp add: rq_sent_def Let_def deactivate_rq_def)
  moreover have "rq_sent ?rqs k ! l \<in> set (rq_sent ?rqs k)" using l(1) s(1) by simp
  ultimately have neg: "n < 0" using n(2) l(3,4) by (force simp: overdue_in_def)
  then obtain m where m: "m < MAX_RQS" "rq_active (rq_sent ?rqs k ! m)" "n = - overdue (rq_sent ?rqs k ! m)"
    using n(3) s(1) by auto
  have "rq_sent ?rqs k ! m \<in> set (rq_sent ?rqs k)" using m(1) s(1) by simp
  then have nb: "- int late \<le> n" using s(2) m(2,3) by (simp add: overdue_in_def)
  have nd: "next_delay n = n" using next_delay_cases [of n] neg nb assms(6) by simp
  let ?sc = "sc\<lparr>sc_last_rq_id := rq_rq_id (?rqs ! k), sc_rq := rq_sent ?rqs k\<rparr>"
  have armed: "armed_ok n" "n \<noteq> INT32_MAX" using neg nb assms(6) by (auto simp: armed_ok_def)
  obtain sc' where sc': "schedule_next_timer_evt env ?sc n = Inr sc'" "sc_timer sc' = Some (pdMS_TO_TICKS (word_of_int n))"
    using schedule_armed [OF armed(2,1), of "- 536870912" "int late" ?sc env] s(2) nb neg assms(4,6) by auto
  have "int (2 ^ 32 - 100 * late) \<le> int (nat (2 ^ 32 + 100 * n))" using nb assms(6) by (simp add: of_nat_diff)
  then have "(2 ^ 32 - 100 * late) div 1000 \<le> nat (2 ^ 32 + 100 * n) div 1000"
    by (intro div_le_mono) (simp only: of_nat_le_iff)
  then have w: "(2 ^ 32 - 100 * late) div 1000 \<le> unat (pdMS_TO_TICKS (word_of_int n))"
    using ticks_negative [of n] nb neg assms(6) by simp
  have "send_rq env sc = Inr (sc', [Uart_send (take (length bs) bs)])"
    using e(1) d k p n(1) sc'(1) nd uart_ok [OF assms(3), of "length bs" bs] by (simp add: send_rq_def)
  then show ?thesis using sc'(2) w unat_ticks_bound by blast
qed

subsection \<open>Reachable states\<close>

text \<open>The states of the task from its start on, with the requests that \<open>sc_cmd_ok\<close> covers; the flag tells whether the
  timer has not expired yet.\<close>

inductive sc_reach ::
  "sc_env \<Rightarrow> ('p, 'h) em_sc_t \<Rightarrow> bool \<Rightarrow> ('p, 'h) em_sc_t \<times> em_ringbuf_t \<Rightarrow> bool" for env sc0 where
  sc_start: "sc_task_init sc0 = Inr s \<Longrightarrow> sc_reach env sc0 True s"
| sc_step: "sc_reach env sc0 startup s \<Longrightarrow> sc_cmd_ok startup c \<Longrightarrow> sc_task_step env s c = Inr (s', evs) \<Longrightarrow>
    sc_reach env sc0 (startup \<and> c \<noteq> SC_CMD_TIMER) s'"

lemma sc_reach_run:
  "sc_reach env sc0 True s \<Longrightarrow> list_all (\<lambda>c. sc_cmd_ok True c \<and> c \<noteq> SC_CMD_TIMER) cs \<Longrightarrow>
   sc_run env s cs = Inr (s', evs) \<Longrightarrow> sc_reach env sc0 True s'"
proof (induction cs arbitrary: s evs)
  case (Cons c cs)
  then obtain s1 e1 e2 where s1: "sc_task_step env s c = Inr (s1, e1)" "sc_run env s1 cs = Inr (s', e2)"
    by (auto simp: obind_Inr_iff)
  have "sc_reach env sc0 True s1" using sc_step [OF Cons.prems(1) _ s1(1)] Cons.prems(2) by simp
  from Cons.IH [OF this _ s1(2)] Cons.prems(2) show ?case by simp
qed simp

text \<open>What the callback and the calls of the interface post is such a command.\<close>

lemma posted_ok:
  "uart_rx_cb ok data n = Inr (err, Some c) \<Longrightarrow> sc_cmd_ok startup c"
  "em_sc_send ok rq payload n tmo m = Inr (err, Some c) \<Longrightarrow> tmo \<le> max_period startup \<Longrightarrow> sc_cmd_ok startup c"
  "em_sc_send_periodic ok rq payload n period = Inr (err, Some c) \<Longrightarrow> 1 < period \<Longrightarrow> period \<le> max_period startup \<Longrightarrow>
   sc_cmd_ok startup c"
  by (auto simp: uart_rx_cb_def em_sc_send_def em_sc_send_periodic_def cmd_payload_def obind_Inr_iff sc_cmd_ok_def
      overwrite_def split: if_splits)

lemma sc_task_init_ok:
  assumes "sc_task_init sc = Inr s"
  shows "em_sc_protocol (fst s) = em_sc_protocol sc \<and> rqs_inv True (sc_rq (fst s)) \<and> ringbuf_inv (snd s) \<and>
    ringbuf_bytes (snd s) = []"
proof -
  have "rqs_inv True (replicate MAX_RQS rq_zero)"
    by (simp add: rqs_inv_def times_ok_def overdue_in_def rq_zero_def rq_ok_def list_all_iff)
  moreover from assms obtain r where "em_ringbuf_init \<lparr>rb_buffer = replicate (2 * MAX_PACKET_LEN) 0,
      rb_size = 2 * MAX_PACKET_LEN, rb_read = 0, rb_write = 0, rb_is_full = False\<rparr> = Inr r"
      "s = (sc\<lparr>sc_rq := replicate MAX_RQS rq_zero, sc_timer := None\<rparr>, r)"
    by (auto simp: sc_task_init_def obind_Inr_iff)
  ultimately show ?thesis
    using em_ringbuf_init_inv [of "\<lparr>rb_buffer = replicate (2 * MAX_PACKET_LEN) 0,
      rb_size = 2 * MAX_PACKET_LEN, rb_read = 0, rb_write = 0, rb_is_full = False\<rparr>"]
    by (auto simp: em_sc_protocol_def protocol_ok_def)
qed

lemma sc_reach_inv:
  assumes "sc_reach env sc0 startup s" "em_sc_protocol sc0 = Some (inv_protocol flt)" "env_ok env"
  shows "client_inv startup (inv_protocol flt) (fst s) \<and> ringbuf_inv (snd s)"
  using assms(1)
proof (induction rule: sc_reach.induct)
  case (sc_start s)
  from sc_task_init_ok [OF this] assms(2) show ?case by (simp add: client_inv_def)
next
  case (sc_step startup s c s' evs)
  show ?case
  proof (cases "\<exists>payload n. c = SC_CMD_PROCESS_DATA payload n")
    case True
    then obtain payload n where c: "c = SC_CMD_PROCESS_DATA payload n" by blast
    with sc_step.hyps(2,3) obtain sc' ring' where p: "process_data (fst s) (snd s) payload n = Inr (sc', ring', evs)"
        "s' = (sc', ring')" "0 < n" "n \<le> length payload"
      by (auto simp: sc_task_step_def obind_Inr_iff sc_cmd_ok_def split: prod.splits)
    have "keeps_rqs (fst s) sc' \<and> ringbuf_inv ring'"
      using inv.process_data_ok [OF p(1) _ _ p(3,4), of flt] sc_step.IH by (simp add: client_inv_def)
    with sc_step.IH keeps_client_inv c p(2) show ?thesis by auto
  next
    case False
    with inv.step_ok [of startup flt "fst s" "snd s" env c] sc_step assms(3) show ?thesis by auto
  qed
qed

text \<open>C13. In every state the task reaches from its start, with request times of at most 600000 ms before the first
  expiry of the timer (those of inv\_init) and below 65536 ms after it, the five slots are well formed (a payload
  exactly for an active slot), no request is more than 600 s late before that expiry nor more than 100 ms after it,
  and the ring buffer is consistent; a request, a removal or a timer command runs without a failed
  assertion (of the code or of the timer), an overflow or a null pointer.\<close>

theorem inv_client_safe:
  assumes "sc_reach env sc0 startup s" "em_sc_protocol sc0 = Some (inv_protocol flt)" "env_ok env" "sc_cmd_ok startup c"
  shows "rqs_inv startup (sc_rq (fst s)) \<and> ringbuf_inv (snd s) \<and>
    ((\<forall>payload n. c \<noteq> SC_CMD_PROCESS_DATA payload n) \<longrightarrow> (\<exists>s' evs. sc_task_step env s c = Inr (s', evs)))"
  using sc_reach_inv [OF assms(1-3)] inv.step_ok [of startup flt "fst s" "snd s" env c] assms(3,4)
  by (auto simp: client_inv_def)

definition test_env :: sc_env where
  "test_env = \<lparr>env_malloc = True, env_timer_create = True, env_timer_start = True, env_uart_write = \<lambda>bs. int (length bs)\<rparr>"

lemma inv_protocol_0: "em_sc_protocol (inv_sc flt st) = Some (inv_protocol flt)"
  by (simp add: inv_sc_def em_sc_protocol_def protocol_ok_def)

text \<open>The requests of \<open>inv_init\<close> stop the client with the first expiry of the timer.\<close>

definition periodic_rq :: "u16 \<Rightarrow> bytes \<Rightarrow> u32 \<Rightarrow> nat \<Rightarrow> rq_t" where
  "periodic_rq rq bs period idx =
     \<lparr>rq_payload = Some bs, rq_rq_id = rq, rq_timeout = ucast period,
      rq_since = i32 (period - word_of_nat ((idx + 1) * 500)), rq_retries = 0, rq_max_retries = 0,
      rq_payload_len = word_of_nat (length bs), rq_active = True, rq_periodic = True\<rparr>"

lemma inv_add_periodic:
  assumes "em_sc_protocol sc = Some (inv_protocol flt)" "sc_rq sc = xs @ rq_zero # ys" "list_all rq_active xs"
    "length xs < MAX_RQS" "len \<le> length payload" "1 < period"
  shows "\<exists>bs sc'. length bs = len + 3 \<and>
    sc_task_step test_env (sc, ring) (SC_CMD_ADD_RQ_PERIODIC rq payload len period) = Inr ((sc', ring), []) \<and>
    em_sc_protocol sc' = Some (inv_protocol flt) \<and> sc_rq sc' = xs @ periodic_rq rq bs period (length xs) # ys"
proof -
  let ?crc = "foldl crc16_step 0 (take len payload)"
  let ?bs = "take len payload @ [ucast (drop_bit 8 ?crc), ucast (?crc AND 0xFF), 13]"
  have ser: "serialize_func (inv_protocol flt) True rq payload len = Inr (Some ?bs)"
    using assms(5) by (simp add: inv_protocol_def rs232_2400_serialize_def crc16_xmodem_def)
  have "first_free (xs @ rq_zero # ys) = length xs" using assms(3) by (induction xs) (simp_all add: rq_zero_def)
  moreover have "rq_payload rq_zero = None" by (simp add: rq_zero_def)
  ultimately show ?thesis
    using assms ser
    by (intro exI [of _ ?bs])
      (simp add: sc_task_step_def add_periodic_rq_def Let_def start_timer_def start_timer_2000 test_env_def periodic_rq_def)
qed

lemma inv_init_run:
  "\<exists>sc cs s s1 b1 b2 b3 b4. inv_init flt st = Inr (0, sc, map Some cs) \<and> sc_task_init sc = Inr s \<and>
     sc_run test_env s cs = Inr (s1, []) \<and> em_sc_protocol sc = Some (inv_protocol flt) \<and>
     list_all (\<lambda>c. sc_cmd_ok True c \<and> c \<noteq> SC_CMD_TIMER) cs \<and> em_sc_protocol (fst s1) = Some (inv_protocol flt) \<and>
     list_all (\<lambda>b. length b \<le> 8 \<and> 0 < length b) [b1, b2, b3, b4] \<and>
     sc_rq (fst s1) = [periodic_rq EM_RS232_2400_QVFW b1 10000 0, periodic_rq EM_RS232_2400_QPIGS b2 15000 1,
       periodic_rq EM_RS232_2400_QPIWS b3 600000 2, periodic_rq EM_RS232_2400_QMOD b4 600000 3, rq_zero]"
proof -
  let ?p = "\<lambda>text. overwrite (replicate MAX_PACKET_LEN 0) 0 text :: bytes"
  let ?c1 = "SC_CMD_ADD_RQ_PERIODIC EM_RS232_2400_QVFW (?p [81, 86, 70, 87]) 4 10000"
  let ?c2 = "SC_CMD_ADD_RQ_PERIODIC EM_RS232_2400_QPIGS (?p [81, 80, 73, 71, 83]) 5 15000"
  let ?c3 = "SC_CMD_ADD_RQ_PERIODIC EM_RS232_2400_QPIWS (?p [81, 80, 73, 87, 83]) 5 600000"
  let ?c4 = "SC_CMD_ADD_RQ_PERIODIC EM_RS232_2400_QMOD (?p [81, 77, 79, 68]) 4 600000"
  let ?sc = "(inv_sc flt st)\<lparr>sc_last_rq_id := EXP_RSP_INVALID, sc_selected_protocol_idx := 0\<rparr>"
  let ?s0 = "?sc\<lparr>sc_rq := replicate MAX_RQS rq_zero, sc_timer := None\<rparr>"
  have init: "inv_init flt st = Inr (0, ?sc, map Some [?c1, ?c2, ?c3, ?c4])"
    by (simp add: inv_init_def em_sc_init_def em_sc_set_protocol_idx_def inv_sc_def em_sc_protocol_def protocol_ok_def
        inv_request_def em_sc_send_periodic_def cmd_payload_def inv_protocol_def)
  have p0: "em_sc_protocol ?s0 = Some (inv_protocol flt)" by (simp add: em_sc_protocol_def protocol_ok_def inv_sc_def)
  have q0: "sc_rq ?s0 = [] @ rq_zero # [rq_zero, rq_zero, rq_zero, rq_zero]" by (simp add: numeral_eq_Suc)
  have act: "rq_active (periodic_rq r b t i)" for r b t i by (simp add: periodic_rq_def)
  have l: "length (?p [81, 86, 70, 87]) = 64" "length (?p [81, 80, 73, 71, 83]) = 64"
    "length (?p [81, 80, 73, 87, 83]) = 64" "length (?p [81, 77, 79, 68]) = 64" by (simp_all add: overwrite_def)
  have t: "(1 :: u32) < 600000" by simp
  obtain ring where r: "sc_task_init ?sc = Inr (?s0, ring)" by (simp add: sc_task_init_def em_ringbuf_init_def)
  obtain b1 s1 where s1: "length b1 = 4 + 3" "sc_task_step test_env (?s0, ring) ?c1 = Inr ((s1, ring), [])"
      "em_sc_protocol s1 = Some (inv_protocol flt)"
      "sc_rq s1 = [] @ periodic_rq EM_RS232_2400_QVFW b1 10000 0 # [rq_zero, rq_zero, rq_zero, rq_zero]"
    using inv_add_periodic [OF p0 q0, of 4 "?p [81, 86, 70, 87]" 10000 ring EM_RS232_2400_QVFW] l by auto
  have q1: "sc_rq s1 = [periodic_rq EM_RS232_2400_QVFW b1 10000 0] @ rq_zero # [rq_zero, rq_zero, rq_zero]"
    using s1(4) by simp
  obtain b2 s2 where s2: "length b2 = 5 + 3" "sc_task_step test_env (s1, ring) ?c2 = Inr ((s2, ring), [])"
      "em_sc_protocol s2 = Some (inv_protocol flt)"
      "sc_rq s2 = [periodic_rq EM_RS232_2400_QVFW b1 10000 0] @ periodic_rq EM_RS232_2400_QPIGS b2 15000 1 #
         [rq_zero, rq_zero, rq_zero]"
    using inv_add_periodic [OF s1(3) q1, of 5 "?p [81, 80, 73, 71, 83]" 15000 ring EM_RS232_2400_QPIGS] l act by auto
  have q2: "sc_rq s2 = [periodic_rq EM_RS232_2400_QVFW b1 10000 0, periodic_rq EM_RS232_2400_QPIGS b2 15000 1] @
      rq_zero # [rq_zero, rq_zero]" using s2(4) by simp
  obtain b3 s3 where s3: "length b3 = 5 + 3" "sc_task_step test_env (s2, ring) ?c3 = Inr ((s3, ring), [])"
      "em_sc_protocol s3 = Some (inv_protocol flt)"
      "sc_rq s3 = [periodic_rq EM_RS232_2400_QVFW b1 10000 0, periodic_rq EM_RS232_2400_QPIGS b2 15000 1] @
         periodic_rq EM_RS232_2400_QPIWS b3 600000 2 # [rq_zero, rq_zero]"
    using inv_add_periodic [OF s2(3) q2, of 5 "?p [81, 80, 73, 87, 83]" 600000 ring EM_RS232_2400_QPIWS] l act t
    by (auto simp: numeral_2_eq_2)
  have q3: "sc_rq s3 = [periodic_rq EM_RS232_2400_QVFW b1 10000 0, periodic_rq EM_RS232_2400_QPIGS b2 15000 1,
      periodic_rq EM_RS232_2400_QPIWS b3 600000 2] @ rq_zero # [rq_zero]" using s3(4) by simp
  obtain b4 s4 where s4: "length b4 = 4 + 3" "sc_task_step test_env (s3, ring) ?c4 = Inr ((s4, ring), [])"
      "em_sc_protocol s4 = Some (inv_protocol flt)"
      "sc_rq s4 = [periodic_rq EM_RS232_2400_QVFW b1 10000 0, periodic_rq EM_RS232_2400_QPIGS b2 15000 1,
         periodic_rq EM_RS232_2400_QPIWS b3 600000 2] @ periodic_rq EM_RS232_2400_QMOD b4 600000 3 # [rq_zero]"
    using inv_add_periodic [OF s3(3) q3, of 4 "?p [81, 77, 79, 68]" 600000 ring EM_RS232_2400_QMOD] l act t
    by (auto simp: numeral_3_eq_3)
  have run: "sc_run test_env (?s0, ring) [?c1, ?c2, ?c3, ?c4] = Inr ((s4, ring), [])"
    by (simp only: sc_run.simps s1(2) s2(2) s3(2) s4(2) obind_simps case_prod_conv append_Nil)
  have "list_all (\<lambda>b. length b \<le> 8 \<and> 0 < length b) [b1, b2, b3, b4]" using s1(1) s2(1) s3(1) s4(1) by auto
  moreover have "sc_rq (fst (s4, ring)) = [periodic_rq EM_RS232_2400_QVFW b1 10000 0,
      periodic_rq EM_RS232_2400_QPIGS b2 15000 1, periodic_rq EM_RS232_2400_QPIWS b3 600000 2,
      periodic_rq EM_RS232_2400_QMOD b4 600000 3, rq_zero]" using s4(4) by simp
  moreover have "em_sc_protocol (fst (s4, ring)) = Some (inv_protocol flt)" using s4(3) by simp
  moreover have "list_all (\<lambda>c. sc_cmd_ok True c \<and> c \<noteq> SC_CMD_TIMER) [?c1, ?c2, ?c3, ?c4]"
    using l by (simp add: sc_cmd_ok_def max_period_def)
  moreover have "em_sc_protocol ?sc = Some (inv_protocol flt)"
    by (simp add: inv_sc_def em_sc_protocol_def protocol_ok_def)
  ultimately show ?thesis using init r run by blast
qed

theorem inv_client_safe_witness:
  "\<forall>flt st. \<exists>sc cs s s1 s2 evs. inv_init flt st = Inr (0, sc, map Some cs) \<and> sc_task_init sc = Inr s \<and>
     sc_run test_env s cs = Inr (s1, []) \<and> rqs_inv True (sc_rq (fst s1)) \<and>
     sc_task_step test_env s1 SC_CMD_TIMER = Inr (s2, evs) \<and> rqs_inv False (sc_rq (fst s2))"
proof (intro allI, goal_cases)
  case (1 flt st)
  obtain sc cs s s1 where run: "inv_init flt st = Inr (0, sc, map Some cs)" "sc_task_init sc = Inr s"
     "sc_run test_env s cs = Inr (s1, [])" "em_sc_protocol sc = Some (inv_protocol flt)"
     "list_all (\<lambda>c. sc_cmd_ok True c \<and> c \<noteq> SC_CMD_TIMER) cs"
    using inv_init_run [of flt st] by blast
  have env: "env_ok test_env" by (simp add: env_ok_def test_env_def)
  have c: "sc_cmd_ok startup SC_CMD_TIMER" for startup by (simp add: sc_cmd_ok_def)
  have r1: "sc_reach test_env sc True s1" by (rule sc_reach_run [OF sc_start [OF run(2)] run(5,3)])
  obtain s2 evs where s2: "sc_task_step test_env s1 SC_CMD_TIMER = Inr (s2, evs)" "rqs_inv True (sc_rq (fst s1))"
    using inv_client_safe [OF r1 run(4) env c] by auto
  have r2: "sc_reach test_env sc False s2" using sc_step [OF r1 c s2(1)] by simp
  from inv_client_safe [OF r2 run(4) env c] run s2 show ?case by blast
qed

theorem late_requests_stall_client_witness:
  "\<forall>flt st. \<exists>sc cs s s1 sc' bs w. inv_init flt st = Inr (0, sc, map Some cs) \<and> sc_task_init sc = Inr s \<and>
     sc_run test_env s cs = Inr (s1, []) \<and> send_rq test_env (fst s1) = Inr (sc', [Uart_send bs]) \<and>
     sc_timer sc' = Some w \<and> 4236134 \<le> unat w"
proof (intro allI, goal_cases)
  case (1 flt st)
  obtain sc cs s s1 b1 b2 b3 b4 where run: "inv_init flt st = Inr (0, sc, map Some cs)" "sc_task_init sc = Inr s"
     "sc_run test_env s cs = Inr (s1, [])"
     and b: "list_all (\<lambda>b. length b \<le> 8 \<and> 0 < length b) [b1, b2, b3, b4]"
     and rqs: "sc_rq (fst s1) = [periodic_rq EM_RS232_2400_QVFW b1 10000 0, periodic_rq EM_RS232_2400_QPIGS b2 15000 1,
       periodic_rq EM_RS232_2400_QPIWS b3 600000 2, periodic_rq EM_RS232_2400_QMOD b4 600000 3, rq_zero]"
    using inv_init_run [of flt st] by blast
  have od: "overdue (periodic_rq r b 10000 0) = - 500" "overdue (periodic_rq r b 15000 1) = - 1000"
    "overdue (periodic_rq r b 600000 2) = 588324" "overdue (periodic_rq r b 600000 3) = 587824" for r b
    by (simp_all add: overdue_def periodic_rq_def i32_def)
  have ok: "rq_ok (periodic_rq r b t i)" if "0 < length b" "length b \<le> 8" for r b t i
    using that by (simp add: rq_ok_def periodic_rq_def)
  have env: "env_ok test_env" "env_timer_create test_env" by (simp_all add: env_ok_def test_env_def)
  have "rq_ok rq_zero" "\<not> rq_active rq_zero" "\<And>r b t i. rq_active (periodic_rq r b t i)"
    by (simp_all add: rq_ok_def rq_zero_def periodic_rq_def)
  then have "\<exists>sc' bs w. send_rq test_env (fst s1) = Inr (sc', [Uart_send bs]) \<and> sc_timer sc' = Some w \<and> 4236134 \<le> unat w"
    using late_requests_stall_client [of "fst s1" test_env 588324 2 3] env b ok od
    by (simp add: rqs overdue_in_def) blast
  with run show ?case by blast
qed

lemma qmod_response:
  "\<exists>st'. rs232_2400_rsp_parse flt st EM_RS232_2400_QMOD ([40, 76, 6, 7, 13] @ replicate 59 0) 5 (replicate 64 0) =
     Inr (\<lparr>r_consumed = 5, r_data = [40, 76, 0, 0, 13] @ replicate 59 0, r_out = 76 # replicate 63 0, r_err = 0\<rparr>, st')"
proof -
  have c: "crc16_xmodem ([40, 76, 6, 7, 13] @ replicate 59 0) 2 = Inr 0x0607"
  proof -
    have "crc_ref [40, 76] = 0x0607" by (simp add: crc_ref_def crc_byte_def crc_bits_8 crc_bit_def)
    then show ?thesis by (simp add: crc16_xmodem_def crc_ref_def crc16_step_fun numeral_2_eq_2)
  qed
  have q: "parse_rsp_qmod (76 # [0, 0, 13] @ replicate 59 0) 1 (replicate 64 0) = Inr (0, 76 # replicate 63 0)"
    using qmod_value [of "replicate 64 0" 76 "[0, 0, 13] @ replicate 59 0"] by (simp add: overwrite_def eval_nat_numeral)
  let ?d = "[40, 76, 6, 7, 13] @ replicate 59 (0 :: u8)"
  have fs: "find_start_loop (take 5 ?d) 0 None = Some 0" by simp
  have fe: "find_end_loop (take 5 ?d) 0 = 4" by simp
  have nth: "?d ! 2 = 6" "?d ! 3 = 7" by simp_all
  have upd: "?d[2 := 0, 3 := 0] = [40, 76, 0, 0, 13] @ replicate 59 0" by (simp add: numeral_2_eq_2 numeral_3_eq_3)
  have q': "parse_rsp_qmod (drop 1 ([40, 76, 0, 0, 13] @ replicate 59 0)) 1 (replicate 64 0) = Inr (0, 76 # replicate 63 0)"
    using q by simp
  have nak: "parse_rsp_is_nak x 1 = Inr (- 1)" for x by (simp add: parse_rsp_is_nak_def)
  have len: "\<not> (5 :: nat) < 5" "\<not> length ?d < 5" by simp_all
  have mode: "rsp_parser_of flt EM_RS232_2400_QMOD = Some parse_rsp_qmod" by (simp add: rsp_parser_of_def)
  have arith: "(4 :: nat) - 2 = 2" "(2 :: nat) + 1 = 3" "(4 :: nat) - 0 - 2 = 2" "(2 :: nat) - 1 = 1" "(0 :: nat) + 1 = 1"
    "\<not> (4 :: nat) - 0 \<le> 2" "(4 :: nat) \<noteq> 0" "(4 :: nat) + 1 = 5" by simp_all
  have act: "push_bit 8 (ucast (6 :: u8)) OR (ucast (7 :: u8) :: u16) = 0x0607" by simp
  show ?thesis
    unfolding rs232_2400_rsp_parse_def Let_def if_not_P [OF len(1)] if_not_P [OF len(2)] fs option.case drop_0 fe
      if_not_P [OF arith(7)] if_not_P [OF arith(6)] arith(1-3) nth act drop_0 c obind_simps upd arith(4,5,8) nak mode q'
    by simp
qed




text \<open>A client that waits for the mode of the inverter, and the mode response.\<close>

definition mode_sc :: "(bytes \<Rightarrow> u32) \<Rightarrow> rs232_stats \<Rightarrow> (rs232_stats, inv_rsp_handler) em_sc_t" where
  "mode_sc flt st = (inv_sc flt st)\<lparr>sc_rq := replicate MAX_RQS rq_zero, sc_last_rq_id := EM_RS232_2400_QMOD\<rparr>"

definition empty_ring :: em_ringbuf_t where
  "empty_ring = \<lparr>rb_buffer = replicate 128 0, rb_size = 128, rb_read = 0, rb_write = 0, rb_is_full = False\<rparr>"

lemma mode_response_processed:
  "\<exists>sc' ring' evs. process_data (mode_sc flt st) empty_ring [40, 76, 6, 7, 13] 5 = Inr (sc', ring', evs) \<and>
     ringbuf_bytes ring' = []"
proof -
  let ?packet = "[40, 76, 6, 7, 13] :: bytes"
  have e: "ringbuf_inv empty_ring" "ringbuf_bytes empty_ring = []" "rb_size empty_ring = 128"
    by (simp_all add: empty_ring_def ringbuf_inv_def ringbuf_bytes_def em_ringbuf_len_def)
  obtain r1 where r1: "em_ringbuf_write empty_ring ?packet 5 = Inr (r1, 5)" "ringbuf_inv r1" "ringbuf_bytes r1 = ?packet"
    using ring.write_law [OF e(1), of 5 ?packet] e by auto
  have rd: "em_ringbuf_read r1 MAX_PACKET_LEN = Inr ?packet" using ring.read_law [OF r1(2), of MAX_PACKET_LEN] r1(3) by simp
  have dat: "overwrite (replicate MAX_PACKET_LEN 0) 0 ?packet = ?packet @ replicate 59 0" by (simp add: overwrite_def)
  let ?res = "\<lparr>pr_payload = replicate MAX_PACKET_LEN 0, pr_payload_len = 0, pr_rsp_id = EM_RS232_2400_QMOD,
    pr_status = PARSE_STATUS_NO_PACKET\<rparr>"
  obtain st' where rsp: "parse_func (inv_protocol flt) st EM_RS232_2400_QMOD (?packet @ replicate 59 0) 5 (replicate 64 0) =
      Inr (\<lparr>r_consumed = 5, r_data = [40, 76, 0, 0, 13] @ replicate 59 0, r_out = 76 # replicate 63 0, r_err = 0\<rparr>,
           EM_RS232_2400_QMOD, st')"
    using qmod_response [of flt st] by (auto simp: inv_protocol_def)
  have sc: "em_sc_protocol (mode_sc flt st) = Some (inv_protocol flt)" "sc_last_rq_id (mode_sc flt st) = EM_RS232_2400_QMOD"
    "sc_parser (mode_sc flt st) = st"
    by (simp_all add: mode_sc_def inv_sc_def em_sc_protocol_def protocol_ok_def)
  have seven: "parse_loop (inv_protocol flt) 7 sc x 5 5 r = Inr (5, sc, x, r)"
    "process_loop 7 sc x 5 5 r' = Inr (5, sc, [])" for sc x r r'
    by (simp_all add: numeral_eq_Suc)
  have "parse_loop (inv_protocol flt) (Suc 7) (mode_sc flt st) (?packet @ replicate 59 0) 5 0 ?res =
      Inr (5, (mode_sc flt st)\<lparr>sc_parser := st'\<rparr>, [40, 76, 0, 0, 13] @ replicate 59 0,
           ?res\<lparr>pr_payload := 76 # replicate 63 0, pr_rsp_id := EM_RS232_2400_QMOD, pr_status := 0\<rparr>)"
    unfolding parse_loop.simps(2) using rsp sc seven(1) by simp
  then have p: "\<exists>res. parse (mode_sc flt st) (?packet @ replicate 59 0) 5 \<lparr>pr_payload = replicate MAX_PACKET_LEN 0,
      pr_payload_len = 0, pr_rsp_id = 0, pr_status = 0\<rparr> =
      Inr (5, (mode_sc flt st)\<lparr>sc_parser := st'\<rparr>, [40, 76, 0, 0, 13] @ replicate 59 0, res) \<and> pr_status res = 0"
    using sc by (simp add: parse_def Let_def)
  then have "process_loop (Suc 7) (mode_sc flt st) (?packet @ replicate 59 0) 5 0 \<lparr>pr_payload = replicate MAX_PACKET_LEN 0,
      pr_payload_len = 0, pr_rsp_id = 0, pr_status = 0\<rparr> = Inr (5, (mode_sc flt st)\<lparr>sc_parser := st'\<rparr>, [])"
    unfolding process_loop.simps(2) using seven(2) by auto
  moreover obtain r2 m where "em_ringbuf_clear r1 5 = Inr (r2, m)" "ringbuf_bytes r2 = []"
    using ring.clear_law [OF r1(2), of 5] r1(3) by auto
  moreover have "length ?packet = 5" by simp
  ultimately show ?thesis
    unfolding process_data_def r1(1) obind_simps case_prod_conv rd Let_def dat by (simp del: list.size)
qed

theorem inv_responses_lost_witness:
  "\<forall>flt st. \<exists>sc' ring'. process_data (mode_sc flt st) empty_ring [40, 76, 6, 7, 13] 5 = Inr (sc', ring', []) \<and>
     ringbuf_bytes ring' = [] \<and> sc_last_rq_id sc' = EM_RS232_2400_QMOD"
proof (intro allI, goal_cases)
  case (1 flt st)
  obtain sc' ring' evs where p: "process_data (mode_sc flt st) empty_ring [40, 76, 6, 7, 13] 5 = Inr (sc', ring', evs)"
      "ringbuf_bytes ring' = []"
    using mode_response_processed by blast
  have a: "em_sc_protocol (mode_sc flt st) = Some (inv_protocol flt)" "sc_last_rq_id (mode_sc flt st) = EM_RS232_2400_QMOD"
    by (simp_all add: mode_sc_def inv_sc_def em_sc_protocol_def protocol_ok_def)
  have c: "ringbuf_inv empty_ring" "ringbuf_bytes empty_ring = []" "rb_size empty_ring = 128"
    by (simp_all add: empty_ring_def ringbuf_inv_def ringbuf_bytes_def em_ringbuf_len_def)
  have "\<not> has_nak [40, 76, 6, 7, 13]" by (auto simp: has_nak_def nth_Cons split: nat.splits)
  then show ?case using inv_responses_lost [OF a(1) c(1) p(1)] p a(2) c by auto
qed

end
