(* ===== verification/EM_Runs.thy ===== *)
theory EM_Runs
  imports EM_Prelude
begin

section \<open>Runs of operations\<close>

text \<open>
  The interface between a module and the sequences of calls and events it sees. \<open>runs\<close> relates a step function to its
  iteration and lifts what one step keeps or computes; \<open>guarded_runs\<close> adds an invariant and the operations that bring
  the module down, and says the same of whole runs. The storage, the WiFi station and the application are instances, in the
  theories that prove their step laws.
\<close>

locale runs =
  fixes do_step :: "'op \<Rightarrow> 'st \<Rightarrow> ('st \<times> 'ev list) outcome"
    and do_run :: "'op list \<Rightarrow> 'st \<Rightarrow> ('st \<times> 'ev list) outcome"
  assumes run_Nil: "do_run [] st = Inr (st, [])"
    and run_Cons: "do_run (op # ops) st =
      obind (do_step op st) (\<lambda>(st, evs). obind (do_run ops st) (\<lambda>(st, evs'). Inr (st, evs @ evs')))"
begin

lemma run_ConsE:
  assumes "do_run (op # ops) st = Inr (st', evs)"
  obtains st1 evs1 evs2 where "do_step op st = Inr (st1, evs1)" "do_run ops st1 = Inr (st', evs2)" "evs = evs1 @ evs2"
  using assms by (auto simp: run_Cons obind_Inr_iff)

lemma run_append:
  "do_run (ops @ ops') st = obind (do_run ops st) (\<lambda>(st, evs). obind (do_run ops' st) (\<lambda>(st, evs'). Inr (st, evs @ evs')))"
proof (induction ops arbitrary: st)
  case Nil
  show ?case by (cases "do_run ops' st") (auto simp: run_Nil)
next
  case (Cons op ops)
  show ?case by (simp add: run_Cons Cons.IH obind_assoc case_prod_unfold)
qed

lemma run_keeps:
  assumes "\<And>op st st' evs. do_step op st = Inr (st', evs) \<Longrightarrow> P st \<Longrightarrow> P st'"
  shows "do_run ops st = Inr (st', evs) \<Longrightarrow> P st \<Longrightarrow> P st'"
proof (induction ops arbitrary: st evs)
  case (Cons op ops)
  then show ?case using assms by (elim run_ConsE) blast
qed (simp add: run_Nil)

lemma run_traces:
  assumes "\<And>op st st' evs hist. do_step op st = Inr (st', evs) \<Longrightarrow> P st hist \<Longrightarrow> P st' (hist @ evs)"
  shows "do_run ops st = Inr (st', evs) \<Longrightarrow> P st hist \<Longrightarrow> P st' (hist @ evs)"
proof (induction ops arbitrary: st evs hist)
  case (Cons op ops)
  from Cons.prems(1) obtain st1 evs1 evs2 where r: "do_step op st = Inr (st1, evs1)" "do_run ops st1 = Inr (st', evs2)"
    "evs = evs1 @ evs2" by (elim run_ConsE)
  then show ?case using Cons.IH [OF r(2) assms [OF r(1) Cons.prems(2)]] by simp
qed (simp add: run_Nil)

lemma run_simulates:
  assumes "\<And>op st st' evs. do_step op st = Inr (st', evs) \<Longrightarrow> f st' = g (f st) op"
  shows "do_run ops st = Inr (st', evs) \<Longrightarrow> f st' = foldl g (f st) ops"
proof (induction ops arbitrary: st evs)
  case (Cons op ops)
  from Cons.prems obtain st1 evs1 evs2 where "do_step op st = Inr (st1, evs1)" "do_run ops st1 = Inr (st', evs2)"
    by (elim run_ConsE)
  then show ?case using Cons.IH assms by simp
qed (simp add: run_Nil)

end

locale guarded_runs = runs do_step do_run
  for do_step :: "'op \<Rightarrow> 'st \<Rightarrow> ('st \<times> 'ev list) outcome"
    and do_run :: "'op list \<Rightarrow> 'st \<Rightarrow> ('st \<times> 'ev list) outcome" +
  fixes inv :: "'st \<Rightarrow> bool"
    and bad :: "'op \<Rightarrow> bool"
  assumes step_bad: "inv st \<Longrightarrow> bad op \<Longrightarrow> \<exists>f. do_step op st = Inl f"
    and step_good: "inv st \<Longrightarrow> \<not> bad op \<Longrightarrow> \<exists>st' evs. do_step op st = Inr (st', evs) \<and> inv st'"
begin

lemma run_iff:
  assumes "inv st"
  shows "if \<exists>op \<in> set ops. bad op then \<exists>f. do_run ops st = Inl f
    else \<exists>st' evs. do_run ops st = Inr (st', evs) \<and> inv st'"
  using assms
proof (induction ops arbitrary: st)
  case (Cons op ops)
  show ?case
  proof (cases "bad op")
    case True
    then show ?thesis using step_bad [OF Cons.prems, of op] by (auto simp: run_Cons)
  next
    case False
    then obtain st1 evs where "do_step op st = Inr (st1, evs)" "inv st1" using step_good [OF Cons.prems, of op] by blast
    then show ?thesis using Cons.IH [of st1] False by (auto simp: run_Cons split: if_splits)
  qed
qed (simp add: run_Nil)

end

end
