(* ===== verification/EM_Inv_State.thy ===== *)
theory EM_Inv_State
  imports EM_Inverter EM_Runs EM_Dataset
begin

section \<open>The measurements, energies and status of the inverter (main/modules/inverter)\<close>

text \<open>
  The state that inverter.c keeps, its setters, and the response handlers of msg\_handlers.c that call them. Every call of
  \<open>time\<close> is an argument; a time is an \<open>int\<close> whose 64-bit range is checked where the code subtracts. A signed member or
  argument is the word read with \<open>sint\<close>. The texts of the log are left out.

  inverter.c uses names that nothing in the repository declares: the two power histories with their functions, the
  running mean \<open>em_utils_set_uint16\<close>, the type of \<open>energy_history\<close>, and three functions that send. The power
  histories are of a type \<open>'h\<close> and the functions on them and on the mean are the record \<open>inv_ext\<close>; the
  members of \<open>energy_history\<close> are those the code assigns, with time offsets of a type \<open>'o\<close> and arrays of the
  length they have at the start; what is sent is an event.

  The parser of the inverter protocol reports success in a way that the serial client takes for an unknown status
  (\<open>inv_responses_lost\<close>), so no handler is called at present; the model says what the handlers do for any responses.
\<close>

subsection \<open>Data (defs.h)\<close>

record energy_t =
  e_timestamp :: int
  e_energy :: u64

record inv_energy_meas_t =
  grid_consumed :: energy_t
  grid_provided :: energy_t
  ac_output :: energy_t
  pv_energy :: energy_t
  battery_charge :: energy_t
  battery_discharge :: energy_t

record inv_grid_meas_t =
  gm_timestamp :: int
  gm_voltage :: u16
  gm_power_samples :: dataset_t
  gm_power :: u16
  gm_freq :: u16

record inv_battery_meas_t =
  bm_timestamp :: int
  bm_voltage :: u16
  bm_power_samples :: dataset_t
  bm_charge_power :: i32

record inv_ac_output_meas_t =
  am_timestamp :: int
  am_voltage :: u16
  am_power_samples :: dataset_t
  am_power :: u32
  am_freq :: u16
  am_output_load :: u8
  am_power_factor :: u8

record inv_pv_meas_t =
  pm_timestamp :: int
  pm_voltage :: u16
  pm_power_samples :: dataset_t
  pm_power :: u32
  pm_strings_cnt :: u8

record inv_status_t =
  is_mode :: u32
  is_status_flags :: u64
  is_warning_flags :: u64
  is_fault_code :: u32
  is_changed :: bool

record inv_info_t =
  ii_model :: bytes
  ii_fw_ver :: u32
  ii_protocol_ver :: u32

record 'o inv_energy_history_t =
  eh_size :: nat
  eh_ref_timestamp :: int
  eh_ref_grid :: energy_t
  eh_ref_ac_output :: energy_t
  eh_ref_pv :: energy_t
  eh_ref_battery_charge :: energy_t
  eh_ref_battery_discharge :: energy_t
  eh_grid :: "energy_t list"
  eh_ac_output :: "energy_t list"
  eh_pv :: "energy_t list"
  eh_battery_charge :: "energy_t list"
  eh_battery_discharge :: "energy_t list"
  eh_time_offset :: "'o list"

record ('h, 'o) inv_module =
  grid_meas :: inv_grid_meas_t
  battery_meas :: inv_battery_meas_t
  ac_output_meas :: inv_ac_output_meas_t
  pv_meas :: inv_pv_meas_t
  energy_meas :: inv_energy_meas_t
  inv_status :: inv_status_t
  inv_info :: inv_info_t
  ac_out_power_history :: 'h
  pv_power_history :: 'h
  energy_history :: "'o inv_energy_history_t"

text \<open>\<open>ph_clear\<close> is the assignment of 0 to the member \<open>size\<close>, \<open>eh_offset\<close> the conversion of a difference of times to the type
  of the offsets.\<close>

record ('h, 'o) inv_ext =
  set_uint16_add :: "u32 \<Rightarrow> u16 \<Rightarrow> bool \<times> u32"
  set_uint16_avg :: "u32 \<Rightarrow> u16"
  set_uint16_clear :: "u32 \<Rightarrow> u32"
  ph_last_entry :: "'h \<Rightarrow> i16"
  ph_add_entry :: "'h \<Rightarrow> int \<Rightarrow> u16 \<Rightarrow> int \<times> 'h"
  ph_clear :: "'h \<Rightarrow> 'h"
  eh_offset :: "int \<Rightarrow> 'o"

datatype 'h inv_event =
    Send_status inv_status_t
  | Send_ac_out_power_history 'h
  | Send_pv_power_history 'h
  | Sc_command "sc_cmd_t option"

abbreviation MAX_PV_INPUTS :: u8 where "MAX_PV_INPUTS \<equiv> 1"

abbreviation min_energy_diff :: u64 where "min_energy_diff \<equiv> 250 * 3600"

definition dataset_zero :: dataset_t where
  "dataset_zero = \<lparr>item_size = 0, items_cap = 0, items_now = 0, ds_buffer = []\<rparr>"

definition energy_zero :: energy_t where
  "energy_zero = \<lparr>e_timestamp = 0, e_energy = 0\<rparr>"

definition energies_zero :: inv_energy_meas_t where
  "energies_zero =
     \<lparr>grid_consumed = energy_zero, grid_provided = energy_zero, ac_output = energy_zero, pv_energy = energy_zero,
      battery_charge = energy_zero, battery_discharge = energy_zero\<rparr>"

definition status_zero :: inv_status_t where
  "status_zero = \<lparr>is_mode = 0, is_status_flags = 0, is_warning_flags = 0, is_fault_code = 0, is_changed = False\<rparr>"

text \<open>The state at the start; the histories have what their own definitions give them.\<close>

definition inv_start :: "'h \<Rightarrow> 'h \<Rightarrow> 'o inv_energy_history_t \<Rightarrow> ('h, 'o) inv_module" where
  "inv_start ac pv history =
     \<lparr>grid_meas = \<lparr>gm_timestamp = 0, gm_voltage = 0, gm_power_samples = dataset_zero, gm_power = 0, gm_freq = 0\<rparr>,
      battery_meas = \<lparr>bm_timestamp = 0, bm_voltage = 0, bm_power_samples = dataset_zero, bm_charge_power = 0\<rparr>,
      ac_output_meas = \<lparr>am_timestamp = 0, am_voltage = 0, am_power_samples = dataset_zero, am_power = 0, am_freq = 0, am_output_load = 0,
        am_power_factor = 0\<rparr>,
      pv_meas = \<lparr>pm_timestamp = 0, pm_voltage = 0, pm_power_samples = dataset_zero, pm_power = 0, pm_strings_cnt = 0\<rparr>,
      energy_meas = energies_zero, inv_status = status_zero,
      inv_info = \<lparr>ii_model = replicate 16 0, ii_fw_ver = 0, ii_protocol_ver = 0\<rparr>,
      ac_out_power_history = ac, pv_power_history = pv, energy_history = history\<rparr>"

subsection \<open>Measurements (inverter.c)\<close>

definition i64_range :: "int \<Rightarrow> int outcome" where
  "i64_range x = (if - (2 ^ 63) \<le> x \<and> x < 2 ^ 63 then Inr x else Inl Undefined)"

text \<open>\<open>power * (now - before)\<close> in \<open>int64_t\<close>, and the addition of such a value to an energy.\<close>

definition energy_since :: "int \<Rightarrow> int \<Rightarrow> int \<Rightarrow> int outcome" where
  "energy_since watts now before = obind (i64_range (now - before)) (\<lambda>dt. i64_range (watts * dt))"

definition add_energy :: "int \<Rightarrow> energy_t \<Rightarrow> energy_t" where
  "add_energy delta e = e\<lparr>e_energy := e_energy e + word_of_int delta\<rparr>"

definition quot_1000 :: "int \<Rightarrow> int" where
  "quot_1000 x = (if x < 0 then - (- x div 1000) else x div 1000)"

text \<open>The member \<open>power\<close> is unsigned, the argument is not: the bits are kept and read as unsigned.\<close>

definition inv_set_meas_grid ::
  "int \<Rightarrow> u16 \<Rightarrow> i16 \<Rightarrow> u16 \<Rightarrow> ('h, 'o) inv_module \<Rightarrow> ('h, 'o) inv_module outcome" where
  "inv_set_meas_grid now voltage watts freq m =
     (let g = grid_meas m; em = energy_meas m in
      obind (if gm_timestamp g \<noteq> 0 then
          obind (energy_since (uint (gm_power g)) now (gm_timestamp g)) (\<lambda>e.
          obind (i64_range (e + 500)) (\<lambda>e.
            let delta_energy = quot_1000 e in
            Inr (if 0 \<le> delta_energy then em\<lparr>grid_consumed := add_energy delta_energy (grid_consumed em)\<rparr>
                 else em\<lparr>grid_provided := add_energy (- delta_energy) (grid_provided em)\<rparr>)))
        else Inr em) (\<lambda>em.
      Inr (m\<lparr>energy_meas := em,
        grid_meas := g\<lparr>gm_timestamp := now, gm_voltage := voltage, gm_power := watts, gm_freq := freq\<rparr>\<rparr>)))"

definition inv_set_meas_battery ::
  "int \<Rightarrow> u16 \<Rightarrow> i16 \<Rightarrow> ('h, 'o) inv_module \<Rightarrow> ('h, 'o) inv_module outcome" where
  "inv_set_meas_battery now voltage watts m =
     (let b = battery_meas m; em = energy_meas m in
      obind (if bm_timestamp b \<noteq> 0 then
          obind (energy_since (sint (bm_charge_power b)) now (bm_timestamp b)) (\<lambda>delta_energy.
            Inr (if 0 < delta_energy then em\<lparr>battery_charge := add_energy delta_energy (battery_charge em)\<rparr>
                 else em\<lparr>battery_discharge := add_energy (- delta_energy) (battery_discharge em)\<rparr>))
        else Inr em) (\<lambda>em.
      Inr (m\<lparr>energy_meas := em,
        battery_meas := b\<lparr>bm_timestamp := now, bm_voltage := voltage, bm_charge_power := scast watts\<rparr>\<rparr>)))"

text \<open>The elapsed time of the output is taken from the measurement of the panels, as in the code.\<close>

definition inv_set_meas_ac_out ::
  "('h, 'o) inv_ext \<Rightarrow> int \<Rightarrow> u16 \<Rightarrow> u16 \<Rightarrow> u16 \<Rightarrow> u8 \<Rightarrow> u8 \<Rightarrow> ('h, 'o) inv_module \<Rightarrow>
   (('h, 'o) inv_module \<times> 'h inv_event list) outcome" where
  "inv_set_meas_ac_out ext now voltage watts freq load power_factor m =
     (let a = ac_output_meas m; em = energy_meas m in
      obind (if am_timestamp a \<noteq> 0 then
          obind (energy_since (sint (ph_last_entry ext (ac_out_power_history m))) now (pm_timestamp (pv_meas m)))
            (\<lambda>delta_energy. Inr (em\<lparr>ac_output := add_energy delta_energy (ac_output em)\<rparr>))
        else Inr em) (\<lambda>em.
      let (power_ready, p) = set_uint16_add ext (am_power a) watts;
          a = a\<lparr>am_voltage := voltage, am_power := p, am_freq := freq, am_output_load := load,
                am_power_factor := power_factor, am_timestamp := now\<rparr>;
          m = m\<lparr>energy_meas := em, ac_output_meas := a\<rparr> in
      if power_ready then
        let avg_power = set_uint16_avg ext p;
            m = m\<lparr>ac_output_meas := a\<lparr>am_power := set_uint16_clear ext p\<rparr>\<rparr>;
            (res, h) = ph_add_entry ext (ac_out_power_history m) now avg_power in
        if res < 0
        then Inr (m\<lparr>ac_out_power_history := ph_clear ext h\<rparr>, [Send_ac_out_power_history h])
        else Inr (m\<lparr>ac_out_power_history := h\<rparr>, [])
      else Inr (m, [])))"

definition inv_set_meas_pv ::
  "('h, 'o) inv_ext \<Rightarrow> int \<Rightarrow> u8 \<Rightarrow> u16 \<Rightarrow> u16 \<Rightarrow> ('h, 'o) inv_module \<Rightarrow>
   (('h, 'o) inv_module \<times> 'h inv_event list) outcome" where
  "inv_set_meas_pv ext now idx voltage watts m =
     (if MAX_PV_INPUTS \<le> idx then Inr (m, [])
      else
       let v = pv_meas m; em = energy_meas m in
       obind (if pm_timestamp v \<noteq> 0 then
           obind (energy_since (sint (ph_last_entry ext (pv_power_history m))) now (pm_timestamp v))
             (\<lambda>delta_energy. Inr (em\<lparr>pv_energy := add_energy delta_energy (pv_energy em)\<rparr>))
         else Inr em) (\<lambda>em.
       let (power_ready, p) = set_uint16_add ext (pm_power v) watts;
           v = v\<lparr>pm_voltage := voltage, pm_power := p, pm_timestamp := now\<rparr>;
           m = m\<lparr>energy_meas := em, pv_meas := v\<rparr> in
       if power_ready then
         let avg_power = set_uint16_avg ext p;
             m = m\<lparr>pv_meas := v\<lparr>pm_power := set_uint16_clear ext p\<rparr>\<rparr>;
             (res, h) = ph_add_entry ext (pv_power_history m) now avg_power in
         if res < 0
         then Inr (m\<lparr>pv_power_history := ph_clear ext h\<rparr>, [Send_pv_power_history h])
         else Inr (m\<lparr>pv_power_history := h\<rparr>, [])
       else Inr (m, [])))"

text \<open>A store to an array at an index.\<close>

definition put :: "'a list \<Rightarrow> nat \<Rightarrow> 'a \<Rightarrow> 'a list outcome" where
  "put xs i x = (if i < length xs then Inr (xs[i := x]) else Inl OutOfBounds)"

definition history_ref ::
  "int \<Rightarrow> inv_energy_meas_t \<Rightarrow> 'o inv_energy_history_t \<Rightarrow> 'o inv_energy_history_t" where
  "history_ref now em h =
     h\<lparr>eh_ref_timestamp := now, eh_ref_grid := grid_consumed em, eh_ref_ac_output := ac_output em,
       eh_ref_pv := pv_energy em, eh_ref_battery_charge := battery_charge em,
       eh_ref_battery_discharge := battery_discharge em\<rparr>"

definition history_append ::
  "('h, 'o) inv_ext \<Rightarrow> int \<Rightarrow> inv_energy_meas_t \<Rightarrow> 'o inv_energy_history_t \<Rightarrow> 'o inv_energy_history_t outcome" where
  "history_append ext now em h =
     (let h = h\<lparr>eh_size := Suc (eh_size h)\<rparr>; i = eh_size h - 1 in
      obind (put (eh_grid h) i (grid_consumed em)) (\<lambda>grid.
      obind (put (eh_ac_output h) i (ac_output em)) (\<lambda>ac.
      obind (put (eh_pv h) i (pv_energy em)) (\<lambda>pv.
      obind (put (eh_battery_charge h) i (battery_charge em)) (\<lambda>charge.
      obind (put (eh_battery_discharge h) i (battery_discharge em)) (\<lambda>discharge.
      obind (i64_range (now - eh_ref_timestamp h)) (\<lambda>dt.
      obind (put (eh_time_offset h) i (eh_offset ext dt)) (\<lambda>offset.
        Inr (h\<lparr>eh_grid := grid, eh_ac_output := ac, eh_pv := pv, eh_battery_charge := charge,
               eh_battery_discharge := discharge, eh_time_offset := offset\<rparr>)))))))))"

text \<open>Nothing is stored while every energy is small. A full history is cleared; the call that sends it is commented
  out in the code.\<close>

definition energies_small :: "inv_energy_meas_t \<Rightarrow> bool" where
  "energies_small em \<longleftrightarrow> e_energy (grid_consumed em) < min_energy_diff \<and> e_energy (ac_output em) < min_energy_diff \<and>
     e_energy (pv_energy em) < min_energy_diff \<and> e_energy (battery_charge em) < min_energy_diff \<and>
     e_energy (battery_discharge em) < min_energy_diff"

definition inv_store_energy_meas ::
  "('h, 'o) inv_ext \<Rightarrow> int \<Rightarrow> ('h, 'o) inv_module \<Rightarrow> ('h, 'o) inv_module outcome" where
  "inv_store_energy_meas ext now m =
     (let em = energy_meas m; h = energy_history m in
      if eh_size h \<noteq> 0 \<and> energies_small em then Inr m
      else
        obind (history_append ext now em (if eh_size h = 0 then history_ref now em h else h)) (\<lambda>h.
          Inr (m\<lparr>energy_meas := energies_zero,
            energy_history := (if length (eh_time_offset h) \<le> eh_size h then h\<lparr>eh_size := 0\<rparr> else h)\<rparr>)))"

subsection \<open>Status and identity (inverter.c)\<close>

definition inv_set_status :: "u32 \<Rightarrow> ('h, 'o) inv_module \<Rightarrow> ('h, 'o) inv_module" where
  "inv_set_status status_flags m =
     (if is_status_flags (inv_status m) \<noteq> ucast status_flags
      then m\<lparr>inv_status := (inv_status m)\<lparr>is_status_flags := ucast status_flags, is_changed := True\<rparr>\<rparr> else m)"

definition inv_set_warnings :: "u64 \<Rightarrow> ('h, 'o) inv_module \<Rightarrow> ('h, 'o) inv_module" where
  "inv_set_warnings warning_flags m =
     (if is_warning_flags (inv_status m) \<noteq> warning_flags
      then m\<lparr>inv_status := (inv_status m)\<lparr>is_warning_flags := warning_flags, is_changed := True\<rparr>\<rparr> else m)"

definition inv_set_fault :: "u32 \<Rightarrow> ('h, 'o) inv_module \<Rightarrow> ('h, 'o) inv_module" where
  "inv_set_fault fault_code m =
     (if is_fault_code (inv_status m) \<noteq> fault_code
      then m\<lparr>inv_status := (inv_status m)\<lparr>is_fault_code := fault_code, is_changed := True\<rparr>\<rparr> else m)"

definition inv_set_mode :: "u32 \<Rightarrow> ('h, 'o) inv_module \<Rightarrow> ('h, 'o) inv_module \<times> 'h inv_event list" where
  "inv_set_mode mode m =
     (let m = (if is_mode (inv_status m) \<noteq> mode
               then m\<lparr>inv_status := (inv_status m)\<lparr>is_mode := mode, is_changed := True\<rparr>\<rparr> else m) in
      if is_changed (inv_status m) then
        let m = m\<lparr>inv_status := (inv_status m)\<lparr>is_changed := False\<rparr>\<rparr> in (m, [Send_status (inv_status m)])
      else (m, []))"

text \<open>The model that the code is given is not stored; the log line reads the array as a string.\<close>

definition inv_set_model :: "bytes \<Rightarrow> nat \<Rightarrow> ('h, 'o) inv_module \<Rightarrow> ('h, 'o) inv_module outcome" where
  "inv_set_model model data_len m =
     (let data_len = (if length (ii_model (inv_info m)) - 1 < data_len then length (ii_model (inv_info m)) - 1
                      else data_len) in
      obind (c_string (ii_model (inv_info m))) (\<lambda>_. Inr m))"

definition inv_set_fw_ver :: "u32 \<Rightarrow> ('h, 'o) inv_module \<Rightarrow> ('h, 'o) inv_module" where
  "inv_set_fw_ver fw_ver m =
     (if ii_fw_ver (inv_info m) \<noteq> fw_ver then m\<lparr>inv_info := (inv_info m)\<lparr>ii_fw_ver := fw_ver\<rparr>\<rparr> else m)"

subsection \<open>Response handlers (msg\_handlers.c)\<close>

text \<open>
  A handler gets a pointer, \<open>None\<close> for null, to memory with the image of its response. \<open>mem_uint\<close> reads a little-endian
  number there. The arithmetic of C on \<open>float\<close> is the record \<open>inv_float\<close>: the power factor of two integers,
  the conversion to \<open>int16_t\<close> of an integer times a \<open>float\<close>, and the conversions of ten times a
  \<open>float\<close> and of a \<open>float\<close> to \<open>uint16_t\<close>; a conversion out of range is undefined.
\<close>

record inv_float =
  fl_power_factor :: "int \<Rightarrow> int \<Rightarrow> u8 outcome"
  fl_product :: "int \<Rightarrow> u32 \<Rightarrow> i16 outcome"
  fl_tenfold :: "u32 \<Rightarrow> u16 outcome"
  fl_u16 :: "u32 \<Rightarrow> u16 outcome"

definition mem_uint :: "bytes \<Rightarrow> nat \<Rightarrow> nat \<Rightarrow> int outcome" where
  "mem_uint mem off n = obind (rd_mem mem off n) (\<lambda>bs. Inr (int (le_nat bs)))"

definition mem_int :: "bytes \<Rightarrow> nat \<Rightarrow> int outcome" where
  "mem_int mem off = obind (mem_uint mem off 4) (\<lambda>v. Inr (sint (word_of_int v :: i32)))"

definition mem_float :: "bytes \<Rightarrow> nat \<Rightarrow> u32 outcome" where
  "mem_float mem off = obind (mem_uint mem off 4) (\<lambda>v. Inr (word_of_int v))"

text \<open>The calls of the handler in the order of the code; \<open>now i\<close> is the time that call \<open>i\<close> reads. The offsets
  are those of \<open>qpigs_response_t\<close>.\<close>

definition qpigs_battery ::
  "inv_float \<Rightarrow> (nat \<Rightarrow> int) \<Rightarrow> bytes \<Rightarrow> ('h, 'o) inv_module \<Rightarrow> ('h, 'o) inv_module outcome" where
  "qpigs_battery fl now rsp m =
     obind (mem_float rsp 32) (\<lambda>battery_voltage.
     obind (mem_int rsp 36) (\<lambda>charging.
     obind (mem_int rsp 40) (\<lambda>discharging.
       if 0 < discharging then
         obind (fl_product fl discharging battery_voltage) (\<lambda>battery_charge_power.
         obind (fl_tenfold fl battery_voltage) (\<lambda>v. inv_set_meas_battery (now 0) v (- battery_charge_power) m))
       else
         obind (fl_product fl charging battery_voltage) (\<lambda>battery_charge_power.
         obind (fl_tenfold fl battery_voltage) (\<lambda>v. inv_set_meas_battery (now 0) v battery_charge_power m)))))"

definition qpigs_grid ::
  "inv_float \<Rightarrow> (nat \<Rightarrow> int) \<Rightarrow> bytes \<Rightarrow> ('h, 'o) inv_module \<Rightarrow> ('h, 'o) inv_module outcome" where
  "qpigs_grid fl now rsp m =
     obind (obind (mem_float rsp 0) (fl_tenfold fl)) (\<lambda>voltage.
     obind (obind (mem_float rsp 4) (fl_u16 fl)) (\<lambda>freq. inv_set_meas_grid (now 1) voltage 0 freq m))"

definition qpigs_ac_out ::
  "('h, 'o) inv_ext \<Rightarrow> inv_float \<Rightarrow> (nat \<Rightarrow> int) \<Rightarrow> bytes \<Rightarrow> u8 \<Rightarrow> ('h, 'o) inv_module \<Rightarrow>
   (('h, 'o) inv_module \<times> 'h inv_event list) outcome" where
  "qpigs_ac_out ext fl now rsp power_factor m =
     obind (obind (mem_float rsp 8) (fl_tenfold fl)) (\<lambda>voltage.
     obind (mem_int rsp 16) (\<lambda>watts.
     obind (obind (mem_float rsp 12) (fl_u16 fl)) (\<lambda>freq.
     obind (mem_int rsp 24) (\<lambda>load.
       inv_set_meas_ac_out ext (now 2) voltage (word_of_int watts) freq (word_of_int load) power_factor m))))"

definition qpigs_pv ::
  "('h, 'o) inv_ext \<Rightarrow> inv_float \<Rightarrow> (nat \<Rightarrow> int) \<Rightarrow> bytes \<Rightarrow> ('h, 'o) inv_module \<Rightarrow>
   (('h, 'o) inv_module \<times> 'h inv_event list) outcome" where
  "qpigs_pv ext fl now rsp m =
     obind (obind (mem_float rsp 60) (fl_tenfold fl)) (\<lambda>voltage.
     obind (mem_int rsp 64) (\<lambda>watts. inv_set_meas_pv ext (now 3) 0 voltage (word_of_int watts) m))"

definition meas_qpigs_handler ::
  "('h, 'o) inv_ext \<Rightarrow> inv_float \<Rightarrow> (nat \<Rightarrow> int) \<Rightarrow> bytes option \<Rightarrow> ('h, 'o) inv_module \<Rightarrow>
   (('h, 'o) inv_module \<times> 'h inv_event list) outcome" where
  "meas_qpigs_handler ext fl now data m =
     (case data of None \<Rightarrow> Inl Abort
      | Some rsp \<Rightarrow>
        obind (mem_int rsp 16) (\<lambda>active.
        obind (mem_int rsp 20) (\<lambda>apparent.
        obind (fl_power_factor fl active apparent) (\<lambda>power_factor.
        obind (qpigs_battery fl now rsp m) (\<lambda>m.
        obind (qpigs_grid fl now rsp m) (\<lambda>m.
        obind (qpigs_ac_out ext fl now rsp power_factor m) (\<lambda>(m, evs1).
        obind (qpigs_pv ext fl now rsp m) (\<lambda>(m, evs2).
        obind (mem_uint rsp 68 2) (\<lambda>status_1.
        obind (mem_uint rsp 72 1) (\<lambda>status_2.
        obind (inv_store_energy_meas ext (now 4) (inv_set_status (word_of_int (status_1 + status_2 * 2 ^ 16)) m)) (\<lambda>m.
          Inr (m, evs1 @ evs2))))))))))))"

definition warning_flags_handler ::
  "bytes option \<Rightarrow> ('h, 'o) inv_module \<Rightarrow> (('h, 'o) inv_module \<times> 'h inv_event list) outcome" where
  "warning_flags_handler data m =
     (case data of None \<Rightarrow> Inl Abort
      | Some mem \<Rightarrow> obind (mem_uint mem 0 8) (\<lambda>v. Inr (inv_set_warnings (word_of_int v) m, [])))"

definition fault_handler ::
  "bytes option \<Rightarrow> ('h, 'o) inv_module \<Rightarrow> (('h, 'o) inv_module \<times> 'h inv_event list) outcome" where
  "fault_handler data m =
     (case data of None \<Rightarrow> Inl Abort
      | Some mem \<Rightarrow> obind (mem_uint mem 0 8) (\<lambda>v. Inr (inv_set_fault (word_of_int v) m, [])))"

definition mode_handler ::
  "bytes option \<Rightarrow> ('h, 'o) inv_module \<Rightarrow> (('h, 'o) inv_module \<times> 'h inv_event list) outcome" where
  "mode_handler data m =
     (case data of None \<Rightarrow> Inl Abort
      | Some mem \<Rightarrow> obind (mem_uint mem 0 4) (\<lambda>v. Inr (inv_set_mode (word_of_int v) m)))"

definition model_handler ::
  "bytes option \<Rightarrow> nat \<Rightarrow> ('h, 'o) inv_module \<Rightarrow> (('h, 'o) inv_module \<times> 'h inv_event list) outcome" where
  "model_handler data data_len m =
     (case data of None \<Rightarrow> Inl Abort
      | Some mem \<Rightarrow> obind (inv_set_model mem data_len m) (\<lambda>m. Inr (m, [])))"

text \<open>The identifier is read for the log only.\<close>

definition id_handler ::
  "bytes option \<Rightarrow> ('h, 'o) inv_module \<Rightarrow> (('h, 'o) inv_module \<times> 'h inv_event list) outcome" where
  "id_handler data m =
     (case data of None \<Rightarrow> Inl Abort
      | Some mem \<Rightarrow> obind (mem_uint mem 0 8) (\<lambda>v. Inr (m, [])))"

definition fw_ver_handler ::
  "bool \<Rightarrow> bytes option \<Rightarrow> ('h, 'o) inv_module \<Rightarrow> (('h, 'o) inv_module \<times> 'h inv_event list) outcome" where
  "fw_ver_handler queue_ok data m =
     (case data of None \<Rightarrow> Inl Abort
      | Some mem \<Rightarrow> obind (mem_uint mem 0 4) (\<lambda>v.
          Inr (inv_set_fw_ver (word_of_int v) m, [Sc_command (snd (em_sc_remove_periodic queue_ok EM_RS232_2400_QVFW))])))"

subsection \<open>Runs\<close>

text \<open>A response as the serial client hands it to a handler: the times read, the state of the queue, the handler of the
  table and the memory.\<close>

record inv_rsp =
  rsp_now :: "nat \<Rightarrow> int"
  rsp_queue_ok :: bool
  rsp_handler :: inv_rsp_handler
  rsp_data :: "bytes option"
  rsp_data_len :: nat

definition inv_step ::
  "('h, 'o) inv_ext \<Rightarrow> inv_float \<Rightarrow> inv_rsp \<Rightarrow> ('h, 'o) inv_module \<Rightarrow>
   (('h, 'o) inv_module \<times> 'h inv_event list) outcome" where
  "inv_step ext fl r m =
     (case rsp_handler r of
        inv_id_handler \<Rightarrow> id_handler (rsp_data r) m
      | inv_fw_ver_handler \<Rightarrow> fw_ver_handler (rsp_queue_ok r) (rsp_data r) m
      | inv_meas_qpigs_handler \<Rightarrow> meas_qpigs_handler ext fl (rsp_now r) (rsp_data r) m
      | inv_fault_handler \<Rightarrow> fault_handler (rsp_data r) m
      | inv_warning_flags_handler \<Rightarrow> warning_flags_handler (rsp_data r) m
      | inv_mode_handler \<Rightarrow> mode_handler (rsp_data r) m
      | inv_model_handler \<Rightarrow> model_handler (rsp_data r) (rsp_data_len r) m)"

fun inv_run ::
  "('h, 'o) inv_ext \<Rightarrow> inv_float \<Rightarrow> inv_rsp list \<Rightarrow> ('h, 'o) inv_module \<Rightarrow>
   (('h, 'o) inv_module \<times> 'h inv_event list) outcome" where
  "inv_run ext fl [] m = Inr (m, [])"
| "inv_run ext fl (r # rs) m =
     obind (inv_step ext fl r m) (\<lambda>(m, evs). obind (inv_run ext fl rs m) (\<lambda>(m, evs'). Inr (m, evs @ evs')))"

interpretation inv_runs: runs "inv_step ext fl" "inv_run ext fl" for ext fl
  by unfold_locales simp_all

end
