(* ===== verification/EM_Inv_Props.thy ===== *)
theory EM_Inv_Props
  imports EM_Inv_State
begin

section \<open>Properties of the inverter module\<close>

text \<open>
  What runs of responses keep: the status that was sent, the dead meters of the grid and the bounds of the history
  of energies; the energy balance of the battery against a reference sum; concrete runs.
\<close>

subsection \<open>What a setter leaves alone\<close>

text \<open>The parts of the state that the measurements of the other components of a response do not touch.\<close>

definition same_grid :: "('h, 'o) inv_module \<Rightarrow> ('h, 'o) inv_module \<Rightarrow> bool" where
  "same_grid m m' \<longleftrightarrow> gm_power (grid_meas m') = gm_power (grid_meas m) \<and>
     grid_consumed (energy_meas m') = grid_consumed (energy_meas m) \<and>
     grid_provided (energy_meas m') = grid_provided (energy_meas m)"

definition same_rest :: "('h, 'o) inv_module \<Rightarrow> ('h, 'o) inv_module \<Rightarrow> bool" where
  "same_rest m m' \<longleftrightarrow> inv_status m' = inv_status m \<and> energy_history m' = energy_history m"

lemma battery_frame:
  "inv_set_meas_battery now voltage watts m = Inr m' \<Longrightarrow> same_grid m m' \<and> same_rest m m'"
  by (auto simp: inv_set_meas_battery_def obind_Inr_iff Let_def same_grid_def same_rest_def split: if_splits)

lemma grid_frame:
  "inv_set_meas_grid now voltage watts freq m = Inr m' \<Longrightarrow> same_rest m m' \<and> gm_power (grid_meas m') = watts"
  by (auto simp: inv_set_meas_grid_def obind_Inr_iff Let_def same_rest_def split: if_splits)

lemma ac_out_frame:
  "inv_set_meas_ac_out ext now voltage watts freq load pf m = Inr (m', evs) \<Longrightarrow>
   same_grid m m' \<and> same_rest m m' \<and> (\<forall>s. Send_status s \<notin> set evs)"
  by (auto simp: inv_set_meas_ac_out_def obind_Inr_iff Let_def split_beta same_grid_def same_rest_def split: if_splits)

lemma pv_frame:
  "inv_set_meas_pv ext now idx voltage watts m = Inr (m', evs) \<Longrightarrow>
   same_grid m m' \<and> same_rest m m' \<and> (\<forall>s. Send_status s \<notin> set evs)"
  by (auto simp: inv_set_meas_pv_def obind_Inr_iff Let_def split_beta same_grid_def same_rest_def split: if_splits)

lemma status_frame: "same_grid m (inv_set_status f m) \<and> energy_history (inv_set_status f m) = energy_history m"
  by (simp add: inv_set_status_def same_grid_def)

lemma qpigs_battery_frame: "qpigs_battery fl now rsp m = Inr m' \<Longrightarrow> same_grid m m' \<and> same_rest m m'"
  by (auto simp: qpigs_battery_def obind_Inr_iff dest: battery_frame split: if_splits)

lemma qpigs_ac_out_frame:
  "qpigs_ac_out ext fl now rsp pf m = Inr (m', evs) \<Longrightarrow>
   same_grid m m' \<and> same_rest m m' \<and> (\<forall>s. Send_status s \<notin> set evs)"
  by (auto simp: qpigs_ac_out_def obind_Inr_iff dest!: ac_out_frame)

lemma qpigs_pv_frame:
  "qpigs_pv ext fl now rsp m = Inr (m', evs) \<Longrightarrow>
   same_grid m m' \<and> same_rest m m' \<and> (\<forall>s. Send_status s \<notin> set evs)"
  by (auto simp: qpigs_pv_def obind_Inr_iff dest!: pv_frame)

text \<open>The steps of a measurement response.\<close>

lemma obind_InrE: "obind r f = Inr b \<Longrightarrow> (\<And>a. r = Inr a \<Longrightarrow> f a = Inr b \<Longrightarrow> thesis) \<Longrightarrow> thesis"
  by (auto simp: obind_Inr_iff)

lemma qpigs_handlerE:
  assumes "meas_qpigs_handler ext fl now data m = Inr (m', evs)"
  obtains rsp f m1 m2 m3 where "same_grid m m1" "same_rest m m1" "qpigs_grid fl now rsp m1 = Inr m2"
    "same_grid m2 m3" "same_rest m2 m3" "\<forall>s. Send_status s \<notin> set evs"
    "inv_store_energy_meas ext (now 4) (inv_set_status f m3) = Inr m'"
proof -
  obtain rsp where d: "data = Some rsp" using assms by (cases data) (simp_all add: meas_qpigs_handler_def)
  note h = assms [unfolded d meas_qpigs_handler_def option.case split_beta]
  obtain f m1 m2 m3 m4 pf evs1 evs2 where s: "qpigs_battery fl now rsp m = Inr m1"
    "qpigs_grid fl now rsp m1 = Inr m2" "qpigs_ac_out ext fl now rsp pf m2 = Inr (m3, evs1)"
    "qpigs_pv ext fl now rsp m3 = Inr (m4, evs2)"
    "inv_store_energy_meas ext (now 4) (inv_set_status f m4) = Inr m'" "evs = evs1 @ evs2"
    using h by - (elim obind_InrE, metis sum.inject(2) Pair_inject prod.collapse)
  note fr = qpigs_battery_frame [OF s(1)] qpigs_ac_out_frame [OF s(3)] qpigs_pv_frame [OF s(4)]
  have "same_grid m2 m4" "same_rest m2 m4" "\<forall>s. Send_status s \<notin> set evs"
    using fr s(6) by (auto simp: same_grid_def same_rest_def)
  with fr s(2,5) show ?thesis by (intro that [of m1 rsp m2 m4 f]) simp_all
qed

lemma qpigs_grid_frame: "qpigs_grid fl now rsp m = Inr m' \<Longrightarrow> same_rest m m' \<and> gm_power (grid_meas m') = 0"
  by (auto simp: qpigs_grid_def obind_Inr_iff dest: grid_frame)

lemma store_cases:
  assumes "inv_store_energy_meas ext now m = Inr m'"
  obtains (small) "eh_size (energy_history m) \<noteq> 0" "energies_small (energy_meas m)" "m' = m"
  | (stored) h where "eh_size (energy_history m) = 0 \<or> \<not> energies_small (energy_meas m)"
      "history_append ext now (energy_meas m) (if eh_size (energy_history m) = 0
         then history_ref now (energy_meas m) (energy_history m) else energy_history m) = Inr h"
      "m' = m\<lparr>energy_meas := energies_zero,
        energy_history := (if length (eh_time_offset h) \<le> eh_size h then h\<lparr>eh_size := 0\<rparr> else h)\<rparr>"
proof (cases "eh_size (energy_history m) \<noteq> 0 \<and> energies_small (energy_meas m)")
  case True
  note h = assms [unfolded inv_store_energy_meas_def Let_def if_P [OF True]]
  from True show ?thesis by (intro small) (use h in simp_all)
next
  case False
  note h = assms [unfolded inv_store_energy_meas_def Let_def if_not_P [OF False]]
  have c: "eh_size (energy_history m) = 0 \<or> \<not> energies_small (energy_meas m)" using False by blast
  show ?thesis by (rule obind_InrE [OF h], rule stored [OF c], assumption) (rule sum.inject(2) [THEN iffD1, symmetric])
qed

lemma store_frame:
  assumes "inv_store_energy_meas ext now m = Inr m'"
  shows "inv_status m' = inv_status m \<and> grid_meas m' = grid_meas m"
  using assms by (cases rule: store_cases) simp_all

subsection \<open>Status reports\<close>

primrec last_report :: "inv_status_t \<Rightarrow> 'h inv_event list \<Rightarrow> inv_status_t" where
  "last_report s [] = s"
| "last_report s (e # es) = last_report (case e of Send_status s' \<Rightarrow> s' | _ \<Rightarrow> s) es"

lemma last_report_append [simp]: "last_report s (es @ es') = last_report (last_report s es) es'"
  by (induction es arbitrary: s) simp_all

lemma last_report_none: "\<forall>s'. Send_status s' \<notin> set es \<Longrightarrow> last_report s es = s"
  by (induction es arbitrary: s) (auto split: inv_event.splits)

definition reported :: "('h, 'o) inv_module \<Rightarrow> 'h inv_event list \<Rightarrow> bool" where
  "reported m evs \<longleftrightarrow> (\<not> is_changed (inv_status m) \<longrightarrow> last_report status_zero evs = inv_status m)"

lemma qpigs_reported:
  assumes "meas_qpigs_handler ext fl now data m = Inr (m', evs)" "reported m hist"
  shows "reported m' (hist @ evs)"
proof -
  obtain rsp f m1 m2 m3 where s: "same_rest m m1" "qpigs_grid fl now rsp m1 = Inr m2" "same_rest m2 m3"
    "\<forall>s. Send_status s \<notin> set evs" "inv_store_energy_meas ext (now 4) (inv_set_status f m3) = Inr m'"
    using assms(1) by (rule qpigs_handlerE) blast
  have "inv_status m3 = inv_status m" using s(1,3) qpigs_grid_frame [OF s(2)] by (simp add: same_rest_def)
  moreover have "inv_status m' = inv_status (inv_set_status f m3)" using store_frame [OF s(5)] by simp
  ultimately show ?thesis using assms(2) last_report_none [OF s(4)]
    by (auto simp: reported_def inv_set_status_def split: if_splits)
qed

lemma step_reported:
  assumes "inv_step ext fl r m = Inr (m', evs)" "reported m hist"
  shows "reported m' (hist @ evs)"
proof (cases "rsp_handler r = inv_meas_qpigs_handler")
  case True
  then show ?thesis using assms qpigs_reported by (simp add: inv_step_def)
next
  case False
  then show ?thesis using assms
  by (cases "rsp_handler r") (auto simp: inv_step_def id_handler_def fw_ver_handler_def fault_handler_def
      warning_flags_handler_def mode_handler_def model_handler_def obind_Inr_iff reported_def inv_set_fw_ver_def
      inv_set_fault_def inv_set_warnings_def inv_set_mode_def inv_set_model_def Let_def
      split: option.splits if_splits)
qed

lemma mode_clears: "inv_step ext fl r m = Inr (m', evs) \<Longrightarrow> rsp_handler r = inv_mode_handler \<Longrightarrow> \<not> is_changed (inv_status m')"
  by (auto simp: inv_step_def mode_handler_def inv_set_mode_def obind_Inr_iff Let_def split: option.splits if_splits)

text \<open>C26. Whatever responses arrive, the status that the module keeps is the one it sent last unless it is marked as changed; a
  response to the mode request always leaves it sent. So no change of mode, flags, warnings or fault is lost: each is sent
  with the next mode.\<close>

theorem inv_status_reported:
  assumes "inv_run ext fl rs (inv_start ac pv h) = Inr (m, evs)"
  shows "(is_changed (inv_status m) \<or> inv_status m = last_report status_zero evs) \<and>
    (rs = [] \<or> rsp_handler (last rs) \<noteq> inv_mode_handler \<or> \<not> is_changed (inv_status m))"
proof -
  have "reported (inv_start ac pv h) []" by (simp add: reported_def inv_start_def)
  from inv_runs.run_traces [where P = reported, OF step_reported assms this] have "reported m evs" by simp
  moreover have "rs = [] \<or> rsp_handler (last rs) \<noteq> inv_mode_handler \<or> \<not> is_changed (inv_status m)"
  proof (cases rs rule: rev_cases)
    case (snoc rs' r)
    then show ?thesis using assms mode_clears by (fastforce simp: inv_runs.run_append obind_Inr_iff)
  qed simp
  ultimately show ?thesis by (auto simp: reported_def)
qed

subsection \<open>The history of energies\<close>

definition history_inv :: "nat \<Rightarrow> 'o inv_energy_history_t \<Rightarrow> bool" where
  "history_inv n h \<longleftrightarrow> eh_size h < n \<and> length (eh_grid h) = n \<and> length (eh_ac_output h) = n \<and> length (eh_pv h) = n \<and>
     length (eh_battery_charge h) = n \<and> length (eh_battery_discharge h) = n \<and> length (eh_time_offset h) = n"

lemma history_append_eq:
  assumes "history_inv n h"
  shows "history_append ext now em h =
    (if i64_range (now - eh_ref_timestamp h) = Inr (now - eh_ref_timestamp h)
     then let i = eh_size h in Inr (h\<lparr>eh_size := Suc i, eh_grid := (eh_grid h)[i := grid_consumed em],
        eh_ac_output := (eh_ac_output h)[i := ac_output em], eh_pv := (eh_pv h)[i := pv_energy em],
        eh_battery_charge := (eh_battery_charge h)[i := battery_charge em],
        eh_battery_discharge := (eh_battery_discharge h)[i := battery_discharge em],
        eh_time_offset := (eh_time_offset h)[i := eh_offset ext (now - eh_ref_timestamp h)]\<rparr>)
     else Inl Undefined)"
  using assms by (simp add: history_append_def Let_def put_def history_inv_def i64_range_def)

lemma history_ref_simps [simp]:
  "history_inv n (history_ref now em h) = history_inv n h" "eh_size (history_ref now em h) = eh_size h"
  "eh_ref_timestamp (history_ref now em h) = now" "eh_grid (history_ref now em h) = eh_grid h"
  by (simp_all add: history_ref_def history_inv_def)

lemma store_inv:
  assumes "inv_store_energy_meas ext now m = Inr m'" "history_inv n (energy_history m)"
  shows "history_inv n (energy_history m')"
  using assms(1)
proof (cases rule: store_cases)
  case (stored h)
  have "history_inv n (if eh_size (energy_history m) = 0
      then history_ref now (energy_meas m) (energy_history m) else energy_history m)" using assms(2) by simp
  from stored(2) [unfolded history_append_eq [OF this]] have "length (eh_time_offset h) = n"
    "length (eh_grid h) = n" "length (eh_ac_output h) = n" "length (eh_pv h) = n" "length (eh_battery_charge h) = n"
    "length (eh_battery_discharge h) = n"
    using assms(2) by (auto simp: history_inv_def Let_def history_ref_def split: if_splits)
  moreover have "0 < n" using assms(2) by (auto simp: history_inv_def)
  ultimately show ?thesis using stored(3) by (auto simp: history_inv_def)
qed (use assms in simp)

text \<open>The grid: its power is always given as 0, so no energy is ever counted.\<close>

definition grid_dead :: "('h, 'o) inv_module \<Rightarrow> bool" where
  "grid_dead m \<longleftrightarrow> gm_power (grid_meas m) = 0 \<and> grid_consumed (energy_meas m) = energy_zero \<and>
     grid_provided (energy_meas m) = energy_zero \<and>
     (\<forall>i < eh_size (energy_history m). eh_grid (energy_history m) ! i = energy_zero)"

lemma grid_no_power:
  assumes "inv_set_meas_grid now voltage watts freq m = Inr m'" "gm_power (grid_meas m) = 0"
    "grid_consumed (energy_meas m) = energy_zero"
  shows "grid_consumed (energy_meas m') = energy_zero \<and> grid_provided (energy_meas m') = grid_provided (energy_meas m)"
  using assms
  by (auto simp: inv_set_meas_grid_def energy_since_def i64_range_def quot_1000_def add_energy_def energy_zero_def
      obind_Inr_iff Let_def split: if_splits)

lemma grid_dead_qpigs_grid: "qpigs_grid fl now rsp m = Inr m' \<Longrightarrow> grid_dead m \<Longrightarrow> grid_dead m'"
  using qpigs_grid_frame [of fl now rsp m m']
  by (auto simp: grid_dead_def same_rest_def qpigs_grid_def obind_Inr_iff dest: grid_no_power)

lemma store_grid_dead:
  assumes "inv_store_energy_meas ext now m = Inr m'" "history_inv n (energy_history m)" "grid_dead m"
  shows "grid_dead m'"
  using assms(1)
proof (cases rule: store_cases)
  case (stored h)
  have hi: "history_inv n (if eh_size (energy_history m) = 0
      then history_ref now (energy_meas m) (energy_history m) else energy_history m)" using assms(2) by simp
  have "eh_size h = Suc (eh_size (energy_history m))"
    "eh_grid h = (eh_grid (energy_history m))[eh_size (energy_history m) := energy_zero]"
    using stored(2) [unfolded history_append_eq [OF hi]] assms(3)
    by (auto simp: Let_def grid_dead_def split: if_splits)
  then show ?thesis using stored(3) assms(2,3)
    by (auto simp: grid_dead_def energies_zero_def history_inv_def nth_list_update less_Suc_eq)
qed (use assms in simp)

definition meter_inv :: "nat \<Rightarrow> ('h, 'o) inv_module \<Rightarrow> bool" where
  "meter_inv n m \<longleftrightarrow> history_inv n (energy_history m) \<and> grid_dead m"

lemma same_meter_inv: "same_grid m m' \<Longrightarrow> energy_history m' = energy_history m \<Longrightarrow> meter_inv n m' = meter_inv n m"
  by (simp add: meter_inv_def grid_dead_def same_grid_def)

lemma qpigs_meter_inv:
  assumes "meas_qpigs_handler ext fl now data m = Inr (m', evs)" "meter_inv n m"
  shows "meter_inv n m'"
proof -
  obtain rsp f m1 m2 m3 where s: "same_grid m m1" "same_rest m m1" "qpigs_grid fl now rsp m1 = Inr m2"
    "same_grid m2 m3" "same_rest m2 m3" "inv_store_energy_meas ext (now 4) (inv_set_status f m3) = Inr m'"
    using assms(1) by (rule qpigs_handlerE) blast
  have "meter_inv n m1" using same_meter_inv s(1,2) assms(2) by (auto simp: same_rest_def)
  then have "meter_inv n m2"
    using grid_dead_qpigs_grid [OF s(3)] qpigs_grid_frame [OF s(3)] by (simp add: meter_inv_def same_rest_def)
  then have "meter_inv n (inv_set_status f m3)"
    using same_meter_inv s(4,5) status_frame [of m3 f] by (metis same_rest_def)
  then show ?thesis unfolding meter_inv_def using store_inv [OF s(6)] store_grid_dead [OF s(6)] by blast
qed

lemma step_meter_inv:
  assumes "inv_step ext fl r m = Inr (m', evs)" "meter_inv n m"
  shows "meter_inv n m'"
proof (cases "rsp_handler r = inv_meas_qpigs_handler")
  case True
  then show ?thesis using assms qpigs_meter_inv by (simp add: inv_step_def)
next
  case False
  then show ?thesis using assms
    by (cases "rsp_handler r") (auto simp: inv_step_def id_handler_def fw_ver_handler_def fault_handler_def
      warning_flags_handler_def mode_handler_def model_handler_def obind_Inr_iff meter_inv_def grid_dead_def inv_set_fw_ver_def
      inv_set_fault_def inv_set_warnings_def inv_set_mode_def inv_set_model_def Let_def
      split: option.splits if_splits)
qed

lemma run_meter_inv:
  assumes "inv_run ext fl rs (inv_start ac pv h) = Inr (m, evs)" "history_inv n h" "eh_size h = 0"
  shows "meter_inv n m"
proof -
  have "meter_inv n (inv_start ac pv h)"
    using assms(2,3) by (simp add: meter_inv_def grid_dead_def inv_start_def energies_zero_def)
  from inv_runs.run_keeps [where P = "meter_inv n", OF step_meter_inv assms(1) this] show ?thesis by simp
qed

text \<open>C32. The meters of the grid are dead: whatever responses arrive, the energies drawn from the grid and
  fed into it stay 0, and so does every entry of the history.\<close>

theorem grid_energy_never_counted:
  assumes "inv_run ext fl rs (inv_start ac pv h) = Inr (m, evs)" "history_inv n h" "eh_size h = 0"
  shows "e_energy (grid_consumed (energy_meas m)) = 0 \<and> e_energy (grid_provided (energy_meas m)) = 0 \<and>
    (\<forall>i < eh_size (energy_history m). e_energy (eh_grid (energy_history m) ! i) = 0)"
  using run_meter_inv [OF assms] by (simp add: meter_inv_def grid_dead_def energy_zero_def)

lemma store_append:
  assumes "inv_store_energy_meas ext now m = obind (history_append ext now em h0) (\<lambda>h. Inr (m\<lparr>energy_meas := energies_zero,
      energy_history := (if length (eh_time_offset h) \<le> eh_size h then h\<lparr>eh_size := 0\<rparr> else h)\<rparr>))"
    "history_inv n h0" "eh_size h0 = i" "eh_ref_timestamp h0 = ref" "i64_range (now - ref) = Inr (now - ref)"
  shows "\<exists>h'. inv_store_energy_meas ext now m = Inr (m\<lparr>energy_meas := energies_zero, energy_history := h'\<rparr>) \<and>
    eh_size h' = Suc i mod n \<and> eh_ref_timestamp h' = ref \<and> eh_ac_output h' ! i = ac_output em \<and>
    eh_pv h' ! i = pv_energy em \<and> eh_battery_charge h' ! i = battery_charge em \<and>
    eh_battery_discharge h' ! i = battery_discharge em \<and> eh_time_offset h' ! i = eh_offset ext (now - ref)"
proof -
  note app = history_append_eq [OF assms(2), of ext now em, unfolded assms(3,4,5) if_P [OF refl] Let_def]
  let ?h = "h0\<lparr>eh_size := Suc i, eh_grid := (eh_grid h0)[i := grid_consumed em],
      eh_ac_output := (eh_ac_output h0)[i := ac_output em], eh_pv := (eh_pv h0)[i := pv_energy em],
      eh_battery_charge := (eh_battery_charge h0)[i := battery_charge em],
      eh_battery_discharge := (eh_battery_discharge h0)[i := battery_discharge em],
      eh_time_offset := (eh_time_offset h0)[i := eh_offset ext (now - ref)]\<rparr>"
  define h' where "h' = (if n \<le> Suc i then ?h\<lparr>eh_size := 0\<rparr> else ?h)"
  have len: "i < n" "length (eh_ac_output h0) = n" "length (eh_pv h0) = n" "length (eh_battery_charge h0) = n"
    "length (eh_battery_discharge h0) = n" "length (eh_time_offset h0) = n"
    using assms(2,3) by (simp_all add: history_inv_def)
  then have "inv_store_energy_meas ext now m = Inr (m\<lparr>energy_meas := energies_zero, energy_history := h'\<rparr>)"
    unfolding assms(1) app by (simp add: h'_def)
  moreover have "eh_size h' = Suc i mod n \<and> eh_ref_timestamp h' = ref \<and> eh_ac_output h' ! i = ac_output em \<and>
      eh_pv h' ! i = pv_energy em \<and> eh_battery_charge h' ! i = battery_charge em \<and>
      eh_battery_discharge h' ! i = battery_discharge em \<and> eh_time_offset h' ! i = eh_offset ext (now - ref)"
    using len assms(4) by (simp add: h'_def mod_Suc)
  ultimately show ?thesis by blast
qed

text \<open>C27. In every state that responses lead to, the store of the energies stays inside the arrays: it keeps
  small energies for later, or moves the energies to the next entry with the time since the first one, starts again at
  0 and begins a new history when the arrays are full. It fails only when the two times differ by more than 64 bits hold.\<close>

theorem energy_history_next:
  assumes "inv_run ext fl rs (inv_start ac pv h) = Inr (m, evs)" "history_inv n h" "eh_size h = 0"
  shows "let i = eh_size (energy_history m); em = energy_meas m;
      ref = (if i = 0 then now else eh_ref_timestamp (energy_history m)) in
    i < n \<and>
    (if i \<noteq> 0 \<and> energies_small em then inv_store_energy_meas ext now m = Inr m
     else if now - ref \<in> {- (2 ^ 63) ..< 2 ^ 63}
     then \<exists>h'. inv_store_energy_meas ext now m = Inr (m\<lparr>energy_meas := energies_zero, energy_history := h'\<rparr>) \<and>
       eh_size h' = Suc i mod n \<and> eh_ref_timestamp h' = ref \<and> eh_ac_output h' ! i = ac_output em \<and>
       eh_pv h' ! i = pv_energy em \<and> eh_battery_charge h' ! i = battery_charge em \<and>
       eh_battery_discharge h' ! i = battery_discharge em \<and> eh_time_offset h' ! i = eh_offset ext (now - ref)
     else inv_store_energy_meas ext now m = Inl Undefined)"
proof -
  define i where "i = eh_size (energy_history m)"
  define em where "em = energy_meas m"
  define h0 where "h0 = (if i = 0 then history_ref now em (energy_history m) else energy_history m)"
  define ref where "ref = (if i = 0 then now else eh_ref_timestamp (energy_history m))"
  have inv: "history_inv n (energy_history m)" using run_meter_inv [OF assms] by (simp add: meter_inv_def)
  then have inv0: "history_inv n h0" and h0: "eh_size h0 = i" "eh_ref_timestamp h0 = ref"
    by (simp_all add: h0_def i_def ref_def)
  have lt: "i < n" using inv by (simp add: i_def history_inv_def)
  note app = history_append_eq [OF inv0, of ext now em, unfolded h0 Let_def]
  have store: "inv_store_energy_meas ext now m = (if i \<noteq> 0 \<and> energies_small em then Inr m
      else obind (history_append ext now em h0) (\<lambda>h. Inr (m\<lparr>energy_meas := energies_zero,
        energy_history := (if length (eh_time_offset h) \<le> eh_size h then h\<lparr>eh_size := 0\<rparr> else h)\<rparr>)))"
    by (simp only: inv_store_energy_meas_def Let_def i_def em_def h0_def)
  consider (keep) "i \<noteq> 0 \<and> energies_small em"
    | (append) "\<not> (i \<noteq> 0 \<and> energies_small em)" "now - ref \<in> {- (2 ^ 63) ..< 2 ^ 63}"
    | (range) "\<not> (i \<noteq> 0 \<and> energies_small em)" "now - ref \<notin> {- (2 ^ 63) ..< 2 ^ 63}" by blast
  then show ?thesis
  proof cases
    case keep
    then show ?thesis unfolding Let_def i_def [symmetric] em_def [symmetric] ref_def [symmetric] using store lt by simp
  next
    case append
    then have "i64_range (now - ref) = Inr (now - ref)" by (simp add: i64_range_def)
    from store_append [OF store [unfolded if_not_P [OF append(1)]] inv0 h0 this] show ?thesis
      unfolding Let_def i_def [symmetric] em_def [symmetric] ref_def [symmetric] if_not_P [OF append(1)] if_P [OF append(2)]
      using lt by blast
  next
    case range
    then have "i64_range (now - ref) \<noteq> Inr (now - ref)" by (auto simp: i64_range_def)
    with range show ?thesis
      unfolding Let_def i_def [symmetric] em_def [symmetric] ref_def [symmetric] using store app lt by auto
  qed
qed

subsection \<open>The energy of the battery\<close>

fun battery_run :: "(int \<times> u16 \<times> i16) list \<Rightarrow> ('h, 'o) inv_module \<Rightarrow> ('h, 'o) inv_module outcome" where
  "battery_run [] m = Inr m"
| "battery_run ((now, voltage, watts) # xs) m = obind (inv_set_meas_battery now voltage watts m) (battery_run xs)"

text \<open>The reference: each power holds until the next measurement; \<open>spans\<close> are the energies of these times.\<close>

fun spans :: "(int \<times> u16 \<times> i16) list \<Rightarrow> int list" where
  "spans ((t, v, w) # (t', v', w') # xs) = sint w * (t' - t) # spans ((t', v', w') # xs)"
| "spans xs = []"

lemma uint_add_energy:
  assumes "0 \<le> d" "uint (e_energy e) + d < 2 ^ 64"
  shows "uint (e_energy (add_energy d e)) = uint (e_energy e) + d"
proof -
  have "0 \<le> uint (e_energy e)" by simp
  then show ?thesis using assms by (simp add: add_energy_def uint_word_ariths uint_word_of_int mod_simps)
qed

lemma watts_bound: "\<bar>sint (w :: i16)\<bar> \<le> 2 ^ 15"
  using sint_range_size [of w] by (simp add: word_size abs_le_iff)

lemma span_bound:
  assumes "0 \<le> d" "\<bar>x\<bar> \<le> (2 :: int) ^ 15"
  shows "\<bar>x * d\<bar> \<le> 2 ^ 15 * d"
  using mult_right_mono [OF assms(2,1)] assms(1) by (simp add: abs_mult)

lemma battery_step:
  assumes "bm_timestamp (battery_meas m) = t" "bm_charge_power (battery_meas m) = scast w" "0 < t" "t \<le> t'" "t' < 2 ^ 47"
    "uint (e_energy (battery_charge (energy_meas m))) \<le> 2 ^ 15 * t" "uint (e_energy (battery_discharge (energy_meas m))) \<le> 2 ^ 15 * t"
  shows "\<exists>m'. inv_set_meas_battery t' v' w' m = Inr m' \<and>
    bm_timestamp (battery_meas m') = t' \<and> bm_charge_power (battery_meas m') = scast w' \<and>
    uint (e_energy (battery_charge (energy_meas m'))) = uint (e_energy (battery_charge (energy_meas m))) + max 0 (sint (w :: i16) * (t' - t)) \<and>
    uint (e_energy (battery_discharge (energy_meas m'))) =
      uint (e_energy (battery_discharge (energy_meas m))) + max 0 (- (sint w * (t' - t)))"
proof -
  let ?d = "sint w * (t' - t)"
  have b: "\<bar>?d\<bar> \<le> 2 ^ 15 * (t' - t)" by (rule span_bound) (use watts_bound assms(4) in auto)
  then have r: "i64_range (t' - t) = Inr (t' - t)" "i64_range ?d = Inr ?d"
    using assms(3-5) by (auto simp: i64_range_def)
  have w: "sint (scast w :: i32) = sint w" 
    using watts_bound [of w] by (simp add: signed_scast_eq signed_take_bit_int_eq_self)
  show ?thesis
    using assms b r w uint_add_energy [of "?d" "battery_charge (energy_meas m)"]
      uint_add_energy [of "- ?d" "battery_discharge (energy_meas m)"]
    by (auto simp: inv_set_meas_battery_def energy_since_def Let_def)
qed

lemma battery_run_spans:
  assumes "bm_timestamp (battery_meas m) = t" "bm_charge_power (battery_meas m) = scast w" "0 < t"
    "sorted (t # map fst xs)" "\<forall>x \<in> set xs. fst x < 2 ^ 47"
    "uint (e_energy (battery_charge (energy_meas m))) \<le> 2 ^ 15 * t" "uint (e_energy (battery_discharge (energy_meas m))) \<le> 2 ^ 15 * t"
  shows "\<exists>m'. battery_run xs m = Inr m' \<and>
    uint (e_energy (battery_charge (energy_meas m'))) =
      uint (e_energy (battery_charge (energy_meas m))) + (\<Sum>e \<leftarrow> spans ((t, v, w) # xs). max 0 e) \<and>
    uint (e_energy (battery_discharge (energy_meas m'))) =
      uint (e_energy (battery_discharge (energy_meas m))) + (\<Sum>e \<leftarrow> spans ((t, v, w) # xs). max 0 (- e))"
  using assms
proof (induction xs arbitrary: m t v w)
  case (Cons x xs)
  obtain t' v' w' where x: "x = (t', v', w')" by (cases x)
  have t: "t \<le> t'" "t' < 2 ^ 47" "0 < t'" using Cons.prems x by auto
  obtain m1 where m1: "inv_set_meas_battery t' v' w' m = Inr m1"
    "bm_timestamp (battery_meas m1) = t'" "bm_charge_power (battery_meas m1) = scast w'"
    "uint (e_energy (battery_charge (energy_meas m1))) =
      uint (e_energy (battery_charge (energy_meas m))) + max 0 (sint w * (t' - t))"
    "uint (e_energy (battery_discharge (energy_meas m1))) =
      uint (e_energy (battery_discharge (energy_meas m))) + max 0 (- (sint w * (t' - t)))"
    using battery_step [OF Cons.prems(1-3) t(1,2) Cons.prems(6,7), of v' w'] by blast
  have "\<bar>sint w * (t' - t)\<bar> \<le> 2 ^ 15 * (t' - t)" by (rule span_bound) (use watts_bound t in auto)
  moreover have "2 ^ 15 * (t' - t) = 2 ^ 15 * t' - 2 ^ 15 * t" by (simp add: right_diff_distrib)
  ultimately have "uint (e_energy (battery_charge (energy_meas m1))) \<le> 2 ^ 15 * t' \<and>
    uint (e_energy (battery_discharge (energy_meas m1))) \<le> 2 ^ 15 * t'"
    unfolding m1(4,5) using Cons.prems(6,7) t(1) by (intro conjI; linarith)
  then have b: "uint (e_energy (battery_charge (energy_meas m1))) \<le> 2 ^ 15 * t'"
    "uint (e_energy (battery_discharge (energy_meas m1))) \<le> 2 ^ 15 * t'" by simp_all
  from Cons.IH [OF m1(2,3) t(3) _ _ b, of v'] Cons.prems(4,5) x m1(1,4,5) show ?case by auto
qed simp

text \<open>C25. Over any sequence of measurements in the order of time the energies charged to and drawn from the battery are
  exactly the sums of the positive and of the negative energies of the times between them, with the power held
  from one measurement to the next; nothing overflows for times below 2^47 s.\<close>

theorem battery_energy_balance:
  assumes "sorted (map fst xs)" "\<forall>x \<in> set xs. 0 < fst x \<and> fst x < 2 ^ 47" "bm_timestamp (battery_meas m) = 0"
    "e_energy (battery_charge (energy_meas m)) = 0" "e_energy (battery_discharge (energy_meas m)) = 0"
  shows "\<exists>m'. battery_run xs m = Inr m' \<and>
    uint (e_energy (battery_charge (energy_meas m'))) = (\<Sum>e \<leftarrow> spans xs. max 0 e) \<and>
    uint (e_energy (battery_discharge (energy_meas m'))) = (\<Sum>e \<leftarrow> spans xs. max 0 (- e))"
proof (cases xs)
  case (Cons x ys)
  obtain t v w where x: "x = (t, v, w)" by (cases x)
  let ?m = "m\<lparr>battery_meas := (battery_meas m)\<lparr>bm_timestamp := t, bm_voltage := v, bm_charge_power := scast w\<rparr>\<rparr>"
  have "inv_set_meas_battery t v w m = Inr ?m" using assms(3) by (simp add: inv_set_meas_battery_def Let_def)
  moreover have "0 < t" "sorted (t # map fst ys)" "\<forall>x \<in> set ys. fst x < 2 ^ 47" using assms(1,2) Cons x by auto
  ultimately show ?thesis using battery_run_spans [of ?m t w ys v] assms(4,5) Cons x by simp
qed (use assms in simp)

subsection \<open>The energy of the grid\<close>

text \<open>A power fed into the grid, negative as the argument, counts as drawn from it with 65536 W more.\<close>

lemma grid_export_counted:
  assumes "gm_timestamp (grid_meas m) = t" "t \<noteq> 0" "t \<le> now" "now - t < 2 ^ 46" "gm_power (grid_meas m) = watts"
    "sint (watts :: i16) < 0"
  shows "\<exists>m'. inv_set_meas_grid now voltage watts' freq m = Inr m' \<and>
    grid_provided (energy_meas m') = grid_provided (energy_meas m) \<and>
    grid_consumed (energy_meas m') =
      add_energy (((2 ^ 16 + sint watts) * (now - t) + 500) div 1000) (grid_consumed (energy_meas m))"
proof -
  have "take_bit 16 (uint watts) = uint watts" by (simp add: bintr_uint)
  then have u: "uint watts = 2 ^ 16 + sint watts"
    using assms(6) unsigned_greater_eq [of watts]
    by (auto simp: sint_uint signed_take_bit_eq_take_bit_minus of_bool_def split: if_splits)
  define e where "e = uint watts * (now - t)"
  have "0 \<le> e" using assms(3) by (simp add: e_def)
  moreover have "e \<le> 2 ^ 16 * 2 ^ 46"
    unfolding e_def using assms(3,4) uint_lt2p [of watts] by (intro mult_mono) auto
  ultimately have "i64_range e = Inr e" "i64_range (e + 500) = Inr (e + 500)" "quot_1000 (e + 500) = (e + 500) div 1000"
    "0 \<le> (e + 500) div 1000" by (simp_all add: i64_range_def quot_1000_def)
  moreover have "i64_range (now - t) = Inr (now - t)" using assms(3,4) by (simp add: i64_range_def)
  ultimately show ?thesis
    unfolding u [symmetric] e_def [symmetric]
    using assms(1,2,5) by (simp add: inv_set_meas_grid_def energy_since_def Let_def flip: e_def)
qed

subsection \<open>Concrete runs\<close>

text \<open>An instance with a mean of one sample, an empty power history and a history of three energies; an hour of
  2000 W from the battery at 50.0 V, then a change of the mode and of the warnings.\<close>

definition ext0 :: "(unit, u32) inv_ext" where
  "ext0 = \<lparr>set_uint16_add = (\<lambda>p w. (True, ucast w)), set_uint16_avg = ucast, set_uint16_clear = (\<lambda>p. 0),
     ph_last_entry = (\<lambda>h. 0), ph_add_entry = (\<lambda>h t w. (1, h)), ph_clear = (\<lambda>h. h), eh_offset = word_of_int\<rparr>"

definition fl0 :: inv_float where
  "fl0 = \<lparr>fl_power_factor = (\<lambda>a b. Inr 0), fl_product = (\<lambda>n v. Inr (word_of_int (n * 50))), fl_tenfold = (\<lambda>v. Inr 500),
     fl_u16 = (\<lambda>v. Inr 50)\<rparr>"

definition history0 :: "u32 inv_energy_history_t" where
  "history0 = \<lparr>eh_size = 0, eh_ref_timestamp = 0, eh_ref_grid = energy_zero, eh_ref_ac_output = energy_zero,
     eh_ref_pv = energy_zero, eh_ref_battery_charge = energy_zero, eh_ref_battery_discharge = energy_zero,
     eh_grid = replicate 3 energy_zero, eh_ac_output = replicate 3 energy_zero, eh_pv = replicate 3 energy_zero,
     eh_battery_charge = replicate 3 energy_zero, eh_battery_discharge = replicate 3 energy_zero,
     eh_time_offset = replicate 3 0\<rparr>"

definition qpigs_mem :: bytes where
  "qpigs_mem = replicate 40 0 @ [40] @ replicate 35 0"

definition qpigs_rsp :: "int \<Rightarrow> inv_rsp" where
  "qpigs_rsp now = \<lparr>rsp_now = (\<lambda>i. now), rsp_queue_ok = True, rsp_handler = inv_meas_qpigs_handler,
     rsp_data = Some qpigs_mem, rsp_data_len = 76\<rparr>"

definition other_rsp :: "inv_rsp_handler \<Rightarrow> bytes \<Rightarrow> inv_rsp" where
  "other_rsp h mem = \<lparr>rsp_now = (\<lambda>i. 0), rsp_queue_ok = True, rsp_handler = h, rsp_data = Some mem, rsp_data_len = length mem\<rparr>"

lemma history0_inv: "history_inv 3 history0" "eh_size history0 = 0"
  by (simp_all add: history_inv_def history0_def)

lemma le_nat_zeros [simp]: "le_nat (replicate n 0) = 0"
  by (induction n) simp_all

lemma qpigs_mem_reads:
  "mem_int qpigs_mem 40 = Inr 40" "mem_int qpigs_mem 36 = Inr 0"
  "mem_int qpigs_mem 16 = Inr 0" "mem_int qpigs_mem 20 = Inr 0"
  "mem_int qpigs_mem 24 = Inr 0" "mem_int qpigs_mem 64 = Inr 0"
  "mem_float qpigs_mem 32 = Inr 0" "mem_float qpigs_mem 0 = Inr 0"
  "mem_float qpigs_mem 4 = Inr 0" "mem_float qpigs_mem 8 = Inr 0"
  "mem_float qpigs_mem 12 = Inr 0" "mem_float qpigs_mem 60 = Inr 0"
  "mem_uint qpigs_mem 68 2 = Inr 0" "mem_uint qpigs_mem 72 (Suc 0) = Inr 0"
  by (simp_all add: mem_int_def mem_float_def mem_uint_def rd_mem_def qpigs_mem_def)

lemmas handler_defs = inv_step_def warning_flags_handler_def mode_handler_def mem_uint_def rd_mem_def
  inv_set_warnings_def inv_set_mode_def

lemmas meter_defs = inv_step_def meas_qpigs_handler_def qpigs_battery_def qpigs_grid_def qpigs_ac_out_def qpigs_pv_def
  inv_set_meas_battery_def inv_set_meas_grid_def inv_set_meas_ac_out_def inv_set_meas_pv_def inv_set_status_def
  inv_store_energy_meas_def history_append_def history_ref_def put_def energies_small_def energies_zero_def energy_zero_def
  energy_since_def i64_range_def quot_1000_def add_energy_def

definition rsps0 :: "inv_rsp list" where
  "rsps0 = [qpigs_rsp 1000, qpigs_rsp 4600]"

lemma rsps0_run:
  "\<exists>m. inv_run ext0 fl0 rsps0 (inv_start () () history0) = Inr (m, []) \<and> eh_size (energy_history m) = 2 \<and>
     e_energy (eh_battery_discharge (energy_history m) ! 1) = 7200000 \<and> eh_time_offset (energy_history m) ! 1 = 3600 \<and>
     energies_small (energy_meas m)"
  by (simp add: rsps0_def qpigs_rsp_def meter_defs qpigs_mem_reads ext0_def fl0_def inv_start_def history0_def status_zero_def
      numeral_3_eq_3 Let_def)

lemma status_run0:
  "\<exists>m s. inv_run ext0 fl0 [other_rsp inv_warning_flags_handler [3, 0, 0, 0, 0, 0, 0, 0], other_rsp inv_mode_handler [66, 0, 0, 0]]
      (inv_start () () history0) = Inr (m, [Send_status s]) \<and> is_warning_flags s = 3 \<and> is_mode s = 66"
  by (simp add: other_rsp_def handler_defs inv_start_def status_zero_def Let_def)

theorem inv_status_reported_witness:
  "\<exists>m s. inv_run ext0 fl0 [other_rsp inv_warning_flags_handler [3, 0, 0, 0, 0, 0, 0, 0], other_rsp inv_mode_handler [66, 0, 0, 0]]
      (inv_start () () history0) = Inr (m, [Send_status s]) \<and> is_warning_flags s = 3 \<and> inv_status m = s \<and>
    \<not> is_changed (inv_status m)"
proof -
  from status_run0 obtain m s where r: "inv_run ext0 fl0 [other_rsp inv_warning_flags_handler [3, 0, 0, 0, 0, 0, 0, 0],
      other_rsp inv_mode_handler [66, 0, 0, 0]] (inv_start () () history0) = Inr (m, [Send_status s])"
    "is_warning_flags s = 3" by blast
  from inv_status_reported [OF r(1)] have "\<not> is_changed (inv_status m) \<and> inv_status m = s" by (auto simp: other_rsp_def)
  with r show ?thesis by blast
qed

theorem grid_energy_never_counted_witness:
  "\<exists>m. inv_run ext0 fl0 rsps0 (inv_start () () history0) = Inr (m, []) \<and> eh_size (energy_history m) = 2 \<and>
    e_energy (grid_consumed (energy_meas m)) = 0 \<and> e_energy (eh_grid (energy_history m) ! 1) = 0"
proof -
  from rsps0_run obtain m where r: "inv_run ext0 fl0 rsps0 (inv_start () () history0) = Inr (m, [])"
    "eh_size (energy_history m) = 2" by blast
  from grid_energy_never_counted [OF r(1) history0_inv] r show ?thesis by simp
qed

theorem energy_history_next_witness:
  "\<exists>m h'. inv_run ext0 fl0 rsps0 (inv_start () () history0) = Inr (m, []) \<and> inv_store_energy_meas ext0 9000 m = Inr m \<and>
    inv_store_energy_meas ext0 9000 (inv_start () () history0) =
      Inr ((inv_start () () history0)\<lparr>energy_meas := energies_zero, energy_history := h'\<rparr>) \<and> eh_size h' = 1"
proof -
  from rsps0_run obtain m where r: "inv_run ext0 fl0 rsps0 (inv_start () () history0) = Inr (m, [])"
    "eh_size (energy_history m) = 2" "energies_small (energy_meas m)" by blast
  have "inv_store_energy_meas ext0 9000 m = Inr m"
    using energy_history_next [OF r(1) history0_inv, of 9000] r(2,3) by (simp add: Let_def)
  moreover have "eh_size (energy_history (inv_start () () history0)) = 0" by (simp add: inv_start_def history0_def)
  then have "\<exists>h'. inv_store_energy_meas ext0 9000 (inv_start () () history0) =
      Inr ((inv_start () () history0)\<lparr>energy_meas := energies_zero, energy_history := h'\<rparr>) \<and> eh_size h' = 1"
    using energy_history_next [OF inv_run.simps(1) [of ext0 fl0 "inv_start () () history0"] history0_inv, of 9000] by (auto simp: Let_def)
  ultimately show ?thesis using r(1) by blast
qed

theorem battery_energy_balance_witness:
  "\<exists>m'. battery_run [(10, 500, 100), (20, 500, - 50), (40, 500, 7)] (inv_start () () history0) = Inr m' \<and>
    uint (e_energy (battery_charge (energy_meas m'))) = 1000 \<and> uint (e_energy (battery_discharge (energy_meas m'))) = 1000"
  using battery_energy_balance [of "[(10, 500, 100), (20, 500, - 50), (40, 500, 7)]" "inv_start () () history0"]
  by (simp add: inv_start_def energies_zero_def energy_zero_def)

end
