(* ===== verification/EM_Storage.thy ===== *)
theory EM_Storage
  imports EM_Utils
begin

section \<open>The persistent storage (main/modules/storage)\<close>

text \<open>
  The database in RAM, the table \<open>nvs_mapper\<close> of its entries in the flash, the debounced save of the section
  checksums with the change callbacks, and the meter histories. The NVS library is a parameter: a record of the
  functions the module calls on a state \<open>'s\<close> of the flash. A value is the byte image of its C object, a pointer into
  the database is the member it points to. \<open>crc\<close> is the ROM function \<open>esp_rom_crc32_le\<close> with start value 0.
\<close>

abbreviation ESP_ERR_NVS_NOT_FOUND :: int where "ESP_ERR_NVS_NOT_FOUND \<equiv> 0x1102"
abbreviation MEASTYPE_VOLTAGE_RMS :: u16 where "MEASTYPE_VOLTAGE_RMS \<equiv> 0"
abbreviation MEASTYPE_CURRENT_RMS :: u16 where "MEASTYPE_CURRENT_RMS \<equiv> 1"
abbreviation MEASTYPE_POWER_ACTIVE :: u16 where "MEASTYPE_POWER_ACTIVE \<equiv> 2"
abbreviation MAX_METER_ENTRIES :: nat where "MAX_METER_ENTRIES \<equiv> 48"
abbreviation MAX_ENERGY_ENTRIES :: nat where "MAX_ENERGY_ENTRIES \<equiv> 96"
abbreviation STORAGE_DUMP_DEBOUNCE_MS :: nat where "STORAGE_DUMP_DEBOUNCE_MS \<equiv> 700"

subsection \<open>Data\<close>

record flash_device_t =
  dev_checksum :: u32
  dev_unique_id :: u32
  dev_latitude :: i64
  dev_longitude :: i64

record storage_meter_t =
  mt_len :: nat
  mt_current_val :: i32
  mt_current_val_time :: int
  mt_ref_timestamp :: int
  mt_entries :: "i32 list"
  mt_t_offset :: "u32 list"

record storage_energy_t =
  en_len :: nat
  en_ref_timestamp :: int
  en_interval :: u32
  en_entries :: "u32 list"

record database_t =
  db_device :: flash_device_t
  db_voltage :: storage_meter_t
  db_current :: storage_meter_t
  db_power :: storage_meter_t
  db_energy :: storage_energy_t
  db_ds_checksum :: u32

datatype nvs_type_t =
    NVS_TYPE_U8 | NVS_TYPE_I8 | NVS_TYPE_U16 | NVS_TYPE_I16 | NVS_TYPE_U32 | NVS_TYPE_I32 | NVS_TYPE_U64
  | NVS_TYPE_I64 | NVS_TYPE_STR | NVS_TYPE_BLOB | NVS_TYPE_ANY

datatype storage_section_t = STORAGE | STORAGE_DEVICE | STORAGE_DS

datatype nvs_db_action_t = NVS_READ | NVS_WRITE

datatype db_ptr = P_dev_checksum | P_dev_unique_id | P_dev_latitude | P_dev_longitude | P_ds_checksum

record nvs_mapper_s =
  entry_db_ptr :: "db_ptr option"
  entry_size :: nat
  entry_type :: nvs_type_t
  entry_key :: "string option"
  entry_section :: storage_section_t
  entry_is_used :: bool

text \<open>The calls of the NVS library: a result code, and for \<open>open\<close> the handle, for \<open>get\<close> the bytes that were read.\<close>

record 's nvs_api =
  nvs_open :: "'s \<Rightarrow> int \<times> nat \<times> 's"
  nvs_set :: "'s \<Rightarrow> nat \<Rightarrow> nvs_type_t \<Rightarrow> string \<Rightarrow> bytes \<Rightarrow> int \<times> 's"
  nvs_get :: "'s \<Rightarrow> nat \<Rightarrow> nvs_type_t \<Rightarrow> string \<Rightarrow> nat \<Rightarrow> int \<times> bytes option"
  nvs_erase_key :: "'s \<Rightarrow> nat \<Rightarrow> string \<Rightarrow> int \<times> 's"
  nvs_commit :: "'s \<Rightarrow> nat \<Rightarrow> int \<times> 's"
  nvs_close :: "'s \<Rightarrow> nat \<Rightarrow> 's"

record 's storage =
  st_db :: database_t
  st_dump_request :: u32
  st_callbacks :: "nat list"
  st_nvs :: 's

datatype storage_event =
    Schedule_dump_check nat
  | Changed_callback nat

definition section_bit :: "storage_section_t \<Rightarrow> u32" where
  "section_bit s = (case s of STORAGE \<Rightarrow> 1 | STORAGE_DEVICE \<Rightarrow> 2 | STORAGE_DS \<Rightarrow> 4)"

definition STORAGE_MASK :: u32 where
  "STORAGE_MASK = section_bit STORAGE_DEVICE OR section_bit STORAGE_DS"

definition meter_zero :: storage_meter_t where
  "meter_zero = \<lparr>mt_len = 0, mt_current_val = 0, mt_current_val_time = 0, mt_ref_timestamp = 0,
     mt_entries = replicate MAX_METER_ENTRIES 0, mt_t_offset = replicate MAX_METER_ENTRIES 0\<rparr>"

definition factory_config :: database_t where
  "factory_config =
     \<lparr>db_device = \<lparr>dev_checksum = 0, dev_unique_id = 0, dev_latitude = 5222970, dev_longitude = 2101220\<rparr>,
      db_voltage = meter_zero, db_current = meter_zero, db_power = meter_zero,
      db_energy = \<lparr>en_len = 0, en_ref_timestamp = 0, en_interval = 0, en_entries = replicate MAX_ENERGY_ENTRIES 0\<rparr>,
      db_ds_checksum = 0\<rparr>"

definition nvs_mapper :: "nvs_mapper_s list" where
  "nvs_mapper =
     [\<lparr>entry_db_ptr = Some P_dev_checksum, entry_size = 4, entry_type = NVS_TYPE_U32, entry_key = Some ''d/crc'',
       entry_section = STORAGE_DEVICE, entry_is_used = True\<rparr>,
      \<lparr>entry_db_ptr = Some P_dev_unique_id, entry_size = 4, entry_type = NVS_TYPE_U32, entry_key = Some ''d/unique_id'',
       entry_section = STORAGE_DEVICE, entry_is_used = True\<rparr>,
      \<lparr>entry_db_ptr = Some P_dev_latitude, entry_size = 8, entry_type = NVS_TYPE_I64, entry_key = Some ''d/c/lat'',
       entry_section = STORAGE_DEVICE, entry_is_used = True\<rparr>,
      \<lparr>entry_db_ptr = Some P_dev_longitude, entry_size = 8, entry_type = NVS_TYPE_I64, entry_key = Some ''d/c/long'',
       entry_section = STORAGE_DEVICE, entry_is_used = True\<rparr>,
      \<lparr>entry_db_ptr = Some P_ds_checksum, entry_size = 4, entry_type = NVS_TYPE_U32, entry_key = Some ''ds/crc'',
       entry_section = STORAGE_DS, entry_is_used = True\<rparr>]"

fun db_read :: "database_t \<Rightarrow> db_ptr \<Rightarrow> bytes" where
  "db_read db P_dev_checksum = nat_le 4 (unat (dev_checksum (db_device db)))"
| "db_read db P_dev_unique_id = nat_le 4 (unat (dev_unique_id (db_device db)))"
| "db_read db P_dev_latitude = nat_le 8 (unat (dev_latitude (db_device db)))"
| "db_read db P_dev_longitude = nat_le 8 (unat (dev_longitude (db_device db)))"
| "db_read db P_ds_checksum = nat_le 4 (unat (db_ds_checksum db))"

fun db_write :: "database_t \<Rightarrow> db_ptr \<Rightarrow> bytes \<Rightarrow> database_t" where
  "db_write db P_dev_checksum bs = db\<lparr>db_device := (db_device db)\<lparr>dev_checksum := word_of_nat (le_nat bs)\<rparr>\<rparr>"
| "db_write db P_dev_unique_id bs = db\<lparr>db_device := (db_device db)\<lparr>dev_unique_id := word_of_nat (le_nat bs)\<rparr>\<rparr>"
| "db_write db P_dev_latitude bs = db\<lparr>db_device := (db_device db)\<lparr>dev_latitude := word_of_nat (le_nat bs)\<rparr>\<rparr>"
| "db_write db P_dev_longitude bs = db\<lparr>db_device := (db_device db)\<lparr>dev_longitude := word_of_nat (le_nat bs)\<rparr>\<rparr>"
| "db_write db P_ds_checksum bs = db\<lparr>db_ds_checksum := word_of_nat (le_nat bs)\<rparr>"

subsection \<open>Entries\<close>

fun nvs_type_size :: "nvs_type_t \<Rightarrow> nat option" where
  "nvs_type_size NVS_TYPE_U8 = Some 1"
| "nvs_type_size NVS_TYPE_I8 = Some 1"
| "nvs_type_size NVS_TYPE_U16 = Some 2"
| "nvs_type_size NVS_TYPE_I16 = Some 2"
| "nvs_type_size NVS_TYPE_U32 = Some 4"
| "nvs_type_size NVS_TYPE_I32 = Some 4"
| "nvs_type_size NVS_TYPE_U64 = Some 8"
| "nvs_type_size NVS_TYPE_I64 = Some 8"
| "nvs_type_size t = None"

text \<open>The cases of the typed NVS calls differ in the type only. A failed read leaves the entry as it is.\<close>

definition process_db_entry ::
  "'s nvs_api \<Rightarrow> 's \<Rightarrow> nat \<Rightarrow> database_t \<Rightarrow> nvs_mapper_s \<Rightarrow> nvs_db_action_t \<Rightarrow> (int \<times> 's \<times> database_t) outcome" where
  "process_db_entry api s handle db e action =
     (case (entry_db_ptr e, entry_key e) of
        (Some ptr, Some key) \<Rightarrow>
          if entry_size e = 0 then Inr (ESP_ERR_INVALID_ARG, s, db)
          else if entry_type e = NVS_TYPE_ANY then Inr (ESP_ERR_NOT_SUPPORTED, s, db)
          else c_assert (case nvs_type_size (entry_type e) of Some n \<Rightarrow> entry_size e = n | None \<Rightarrow> True)
            (case action of
               NVS_WRITE \<Rightarrow>
                 let (err, s') = nvs_set api s handle (entry_type e) key (db_read db ptr) in Inr (err, s', db)
             | NVS_READ \<Rightarrow>
                 let (err, v) = nvs_get api s handle (entry_type e) key (entry_size e) in
                 Inr (err, s, case v of Some bs \<Rightarrow> db_write db ptr bs | None \<Rightarrow> db))
      | _ \<Rightarrow> Inr (ESP_ERR_INVALID_ARG, s, db))"

fun find_entry_loop :: "db_ptr \<Rightarrow> nvs_mapper_s list \<Rightarrow> nvs_mapper_s option" where
  "find_entry_loop p [] = None"
| "find_entry_loop p (e # es) =
     (if \<not> entry_is_used e then find_entry_loop p es
      else if entry_db_ptr e = Some p then Some e else find_entry_loop p es)"

definition find_entry_db_idx :: "db_ptr option \<Rightarrow> nvs_mapper_s option" where
  "find_entry_db_idx p = (case p of None \<Rightarrow> None | Some p \<Rightarrow> find_entry_loop p nvs_mapper)"

fun clear_unused_loop :: "'s nvs_api \<Rightarrow> nat \<Rightarrow> nvs_mapper_s list \<Rightarrow> 's \<Rightarrow> 's" where
  "clear_unused_loop api handle [] s = s"
| "clear_unused_loop api handle (e # es) s =
     (if entry_is_used e then clear_unused_loop api handle es s
      else case entry_key e of
        None \<Rightarrow> clear_unused_loop api handle es s
      | Some key \<Rightarrow> clear_unused_loop api handle es (snd (nvs_erase_key api s handle key)))"

definition clear_unused_db_entries :: "'s nvs_api \<Rightarrow> nat \<Rightarrow> 's \<Rightarrow> 's" where
  "clear_unused_db_entries api handle s = clear_unused_loop api handle nvs_mapper s"

fun entries_loop ::
  "'s nvs_api \<Rightarrow> nat \<Rightarrow> nvs_db_action_t \<Rightarrow> nvs_mapper_s list \<Rightarrow> 's \<Rightarrow> database_t \<Rightarrow> ('s \<times> database_t) outcome" where
  "entries_loop api handle action [] s db = Inr (s, db)"
| "entries_loop api handle action (e # es) s db =
     (if \<not> entry_is_used e then entries_loop api handle action es s db
      else obind (process_db_entry api s handle db e action) (\<lambda>(_, s, db). entries_loop api handle action es s db))"

definition read_db_entries :: "'s nvs_api \<Rightarrow> nat \<Rightarrow> 's \<Rightarrow> database_t \<Rightarrow> ('s \<times> database_t) outcome" where
  "read_db_entries api handle s db = entries_loop api handle NVS_READ nvs_mapper s db"

definition write_db_entries :: "'s nvs_api \<Rightarrow> nat \<Rightarrow> 's \<Rightarrow> database_t \<Rightarrow> ('s \<times> database_t) outcome" where
  "write_db_entries api handle s db = entries_loop api handle NVS_WRITE nvs_mapper s db"

subsection \<open>Saving\<close>

text \<open>The case \<open>STORAGE_DS\<close> has no \<open>break\<close> and runs into the \<open>return\<close> of the default case.\<close>

definition save_crc_of_section :: "'s nvs_api \<Rightarrow> 's \<Rightarrow> nat \<Rightarrow> database_t \<Rightarrow> storage_section_t \<Rightarrow> 's outcome" where
  "save_crc_of_section api s handle db section =
     (case section of
        STORAGE_DEVICE \<Rightarrow>
          (case find_entry_db_idx (Some P_dev_checksum) of
             None \<Rightarrow> Inr s
           | Some e \<Rightarrow>
               (case entry_key e of
                  None \<Rightarrow> Inl OutOfBounds
                | Some key \<Rightarrow>
                    let (err, s') = nvs_set api s handle NVS_TYPE_U32 key (db_read db P_dev_checksum) in
                    c_assert (err = ESP_OK) (Inr s')))
      | STORAGE_DS \<Rightarrow> Inr s
      | STORAGE \<Rightarrow> Inr s)"

definition device_crc :: "(bytes \<Rightarrow> u32) \<Rightarrow> database_t \<Rightarrow> u32" where
  "device_crc crc db =
     crc (db_read db P_dev_unique_id @ db_read db P_dev_latitude @ db_read db P_dev_longitude)"

text \<open>The part of \<open>dump_check\<close> under the mutex: whether the save goes on, and the new state.\<close>

definition dump_check_locked :: "(bytes \<Rightarrow> u32) \<Rightarrow> 's storage \<Rightarrow> bool \<times> 's storage" where
  "dump_check_locked crc st =
     (if st_dump_request st AND STORAGE_MASK = 0 then (False, st)
      else
        let st =
              (if st_dump_request st AND section_bit STORAGE_DEVICE \<noteq> 0 then
                 (let crc32 = device_crc crc (st_db st) in
                  if crc32 = dev_checksum (db_device (st_db st))
                  then st\<lparr>st_dump_request := st_dump_request st AND NOT (section_bit STORAGE_DEVICE)\<rparr>
                  else st\<lparr>st_db := (st_db st)\<lparr>db_device := (db_device (st_db st))\<lparr>dev_checksum := crc32\<rparr>\<rparr>\<rparr>)
               else st);
            st =
              (if st_dump_request st AND section_bit STORAGE_DS \<noteq> 0 then
                 (let crc32 = crc [] in
                  if crc32 = db_ds_checksum (st_db st)
                  then st\<lparr>st_dump_request := st_dump_request st AND NOT (section_bit STORAGE_DS)\<rparr>
                  else st\<lparr>st_db := (st_db st)\<lparr>db_ds_checksum := crc32\<rparr>\<rparr>)
               else st)
        in (st_dump_request st \<noteq> 0, st))"

text \<open>The rest, without the mutex.\<close>

definition dump_check_save :: "'s nvs_api \<Rightarrow> 's storage \<Rightarrow> ('s storage \<times> storage_event list) outcome" where
  "dump_check_save api st =
     (let (err, handle, s) = nvs_open api (st_nvs st) in
      c_assert (err = ESP_OK)
        (obind (if st_dump_request st AND section_bit STORAGE_DEVICE \<noteq> 0
                then save_crc_of_section api s handle (st_db st) STORAGE_DEVICE else Inr s) (\<lambda>s.
         obind (if st_dump_request st AND section_bit STORAGE_DS \<noteq> 0
                then save_crc_of_section api s handle (st_db st) STORAGE_DS else Inr s) (\<lambda>s.
           let (err, s) = nvs_commit api s handle in
           c_assert (err = ESP_OK)
             (Inr (st\<lparr>st_dump_request := 0, st_nvs := nvs_close api s handle\<rparr>,
                   map Changed_callback (st_callbacks st)))))))"

definition dump_check ::
  "'s nvs_api \<Rightarrow> (bytes \<Rightarrow> u32) \<Rightarrow> 's storage \<Rightarrow> ('s storage \<times> storage_event list) outcome" where
  "dump_check api crc st =
     (let (go, st) = dump_check_locked crc st in if go then dump_check_save api st else Inr (st, []))"

definition section_dump_request :: "'s storage \<Rightarrow> storage_section_t \<Rightarrow> 's storage \<times> storage_event list" where
  "section_dump_request st section =
     (st\<lparr>st_dump_request := st_dump_request st OR section_bit section\<rparr>, [Schedule_dump_check STORAGE_DUMP_DEBOUNCE_MS])"

definition storage_save_db_entry ::
  "'s nvs_api \<Rightarrow> 's storage \<Rightarrow> db_ptr \<Rightarrow> ('s storage \<times> storage_event list) outcome" where
  "storage_save_db_entry api st ptr =
     (case find_entry_db_idx (Some ptr) of
        None \<Rightarrow> Inr (st, [])
      | Some e \<Rightarrow>
          let (ret, handle, s) = nvs_open api (st_nvs st) in
          c_assert (ret = ESP_OK \<or> ret = ESP_ERR_NVS_NOT_FOUND)
            (obind (process_db_entry api s handle (st_db st) e NVS_WRITE) (\<lambda>(ret, s, _).
               let st = st\<lparr>st_nvs := nvs_close api s handle\<rparr> in
               Inr (if ret \<noteq> 0 then (st, []) else section_dump_request st (entry_section e)))))"

definition save_database :: "'s nvs_api \<Rightarrow> 's storage \<Rightarrow> 's storage outcome" where
  "save_database api st =
     (let (err, handle, s) = nvs_open api (st_nvs st) in
      c_assert (err = ESP_OK)
        (obind (write_db_entries api handle s (st_db st)) (\<lambda>(s, _).
           let (err, s) = nvs_commit api s handle in
           c_assert (err = ESP_OK) (Inr (st\<lparr>st_nvs := nvs_close api s handle\<rparr>)))))"

subsection \<open>Change callbacks\<close>

definition remove_node :: "'s storage \<Rightarrow> nat \<Rightarrow> bool \<times> 's storage" where
  "remove_node st cb = (cb \<in> set (st_callbacks st), st\<lparr>st_callbacks := remove1 cb (st_callbacks st)\<rparr>)"

definition insert_node :: "bool \<Rightarrow> 's storage \<Rightarrow> nat \<Rightarrow> 's storage outcome" where
  "insert_node alloc st cb = c_assert alloc (Inr (st\<lparr>st_callbacks := cb # st_callbacks st\<rparr>))"

definition storage_register_on_changed_callback :: "bool \<Rightarrow> 's storage \<Rightarrow> nat \<Rightarrow> 's storage outcome" where
  "storage_register_on_changed_callback alloc st cb = insert_node alloc (snd (remove_node st cb)) cb"

definition storage_unregister_on_changed_callback :: "'s storage \<Rightarrow> nat \<Rightarrow> 's storage" where
  "storage_unregister_on_changed_callback st cb = snd (remove_node st cb)"

subsection \<open>The interface\<close>

definition storage_force_dump_panic :: "'s nvs_api \<Rightarrow> 's storage \<Rightarrow> 's storage outcome" where
  "storage_force_dump_panic api st = save_database api st"

text \<open>The static variables are zero before \<open>storage_init\<close>; \<open>s\<close> is the flash.\<close>

definition storage_init :: "'s nvs_api \<Rightarrow> 's storage \<Rightarrow> 's storage outcome" where
  "storage_init api st =
     (let st = st\<lparr>st_db := factory_config\<rparr>;
          (ret, handle, s) = nvs_open api (st_nvs st) in
      c_assert (ret = ESP_OK \<or> ret = ESP_ERR_NVS_NOT_FOUND)
        (if ret = ESP_ERR_NVS_NOT_FOUND then Inr (st\<lparr>st_nvs := s\<rparr>)
         else obind (read_db_entries api handle (clear_unused_db_entries api handle s) (st_db st)) (\<lambda>(s, db).
                Inr (st\<lparr>st_db := db, st_nvs := nvs_close api s handle\<rparr>))))"

definition storage_device :: "'s storage \<Rightarrow> flash_device_t" where
  "storage_device st = db_device (st_db st)"

definition storage_datasets :: "'s storage \<Rightarrow> u32" where
  "storage_datasets st = db_ds_checksum (st_db st)"

definition set_device :: "'s storage \<Rightarrow> (flash_device_t \<Rightarrow> flash_device_t) \<Rightarrow> 's storage" where
  "set_device st f = st\<lparr>st_db := (st_db st)\<lparr>db_device := f (db_device (st_db st))\<rparr>\<rparr>"

definition storage_set_device_unique_id ::
  "'s nvs_api \<Rightarrow> 's storage \<Rightarrow> u32 \<Rightarrow> ('s storage \<times> storage_event list) outcome" where
  "storage_set_device_unique_id api st unique_id =
     storage_save_db_entry api (set_device st (\<lambda>d. d\<lparr>dev_unique_id := unique_id\<rparr>)) P_dev_unique_id"

definition storage_set_coordinates ::
  "'s nvs_api \<Rightarrow> 's storage \<Rightarrow> i64 \<Rightarrow> i64 \<Rightarrow> ('s storage \<times> storage_event list) outcome" where
  "storage_set_coordinates api st latitude longitude =
     obind (storage_save_db_entry api (set_device st (\<lambda>d. d\<lparr>dev_longitude := longitude\<rparr>)) P_dev_longitude)
       (\<lambda>(st, evs).
     obind (storage_save_db_entry api (set_device st (\<lambda>d. d\<lparr>dev_latitude := latitude\<rparr>)) P_dev_latitude)
       (\<lambda>(st, evs'). Inr (st, evs @ evs')))"

definition storage_set_factory_config :: "'s nvs_api \<Rightarrow> 's storage \<Rightarrow> 's storage outcome" where
  "storage_set_factory_config api st = save_database api (st\<lparr>st_db := factory_config\<rparr>)"

subsection \<open>Meter values and histories\<close>

definition storage_meter_value :: "database_t \<Rightarrow> u16 \<Rightarrow> int \<Rightarrow> i32 \<times> int" where
  "storage_meter_value db meas_type timestamp =
     (if meas_type = MEASTYPE_VOLTAGE_RMS then (mt_current_val (db_voltage db), mt_current_val_time (db_voltage db))
      else if meas_type = MEASTYPE_CURRENT_RMS then (mt_current_val (db_current db), mt_current_val_time (db_current db))
      else if meas_type = MEASTYPE_POWER_ACTIVE then (mt_current_val (db_power db), mt_current_val_time (db_power db))
      else (0x7FFFFFFF, timestamp))"

definition storage_set_meter_value :: "database_t \<Rightarrow> int \<Rightarrow> u16 \<Rightarrow> i32 \<Rightarrow> int \<times> database_t" where
  "storage_set_meter_value db datetime meas_type value =
     (let upd = (\<lambda>m. m\<lparr>mt_current_val := value, mt_current_val_time := datetime\<rparr>) in
      if meas_type = MEASTYPE_VOLTAGE_RMS then (0, db\<lparr>db_voltage := upd (db_voltage db)\<rparr>)
      else if meas_type = MEASTYPE_CURRENT_RMS then (0, db\<lparr>db_current := upd (db_current db)\<rparr>)
      else if meas_type = MEASTYPE_POWER_ACTIVE then (0, db\<lparr>db_power := upd (db_power db)\<rparr>)
      else (- 1, db))"

definition meter_add :: "storage_meter_t \<Rightarrow> int \<Rightarrow> i32 \<Rightarrow> bool \<times> storage_meter_t" where
  "meter_add m datetime value =
     (if length (mt_entries m) \<le> mt_len m then (True, m)
      else
        let m = (if mt_len m = 0 then m\<lparr>mt_ref_timestamp := datetime\<rparr> else m);
            m = m\<lparr>mt_t_offset := (mt_t_offset m)[mt_len m := word_of_int (datetime - mt_ref_timestamp m)],
                  mt_entries := (mt_entries m)[mt_len m := value], mt_len := mt_len m + 1\<rparr>
        in (length (mt_entries m) \<le> mt_len m, m))"

text \<open>\<open>compile_time\<close> is the result of \<open>em_utils_get_compile_time\<close>.\<close>

definition storage_add_meter_entry :: "int \<Rightarrow> database_t \<Rightarrow> int \<Rightarrow> u16 \<Rightarrow> i32 \<Rightarrow> bool \<times> database_t" where
  "storage_add_meter_entry compile_time db datetime meas_type value =
     (if datetime < compile_time then (False, db)
      else if meas_type = MEASTYPE_VOLTAGE_RMS then
        (let (flush, m) = meter_add (db_voltage db) datetime value in (flush, db\<lparr>db_voltage := m\<rparr>))
      else if meas_type = MEASTYPE_POWER_ACTIVE then
        (let (flush, m) = meter_add (db_power db) datetime value in (flush, db\<lparr>db_power := m\<rparr>))
      else (False, db))"

definition storage_add_energy_entry :: "int \<Rightarrow> database_t \<Rightarrow> int \<Rightarrow> u64 \<Rightarrow> bool \<times> database_t" where
  "storage_add_energy_entry compile_time db datetime value =
     (if datetime < compile_time then (False, db)
      else
        let e = db_energy db in
        if length (en_entries e) \<le> en_len e then (True, db)
        else
          let e = (if en_len e = 0 then e\<lparr>en_ref_timestamp := datetime\<rparr>
                   else if en_interval e = 0 then e\<lparr>en_interval := word_of_int (datetime - en_ref_timestamp e)\<rparr>
                   else e);
              e = e\<lparr>en_entries := (en_entries e)[en_len e := ucast value], en_len := en_len e + 1\<rparr>
          in (length (en_entries e) \<le> en_len e, db\<lparr>db_energy := e\<rparr>))"

end
