(* ===== verification/EM_Storage_Props.thy ===== *)
theory EM_Storage_Props
  imports EM_Runs EM_Storage
begin

section \<open>What the storage keeps\<close>

text \<open>
  The NVS library as its reference describes it: \<open>view\<close> is what the calls of a handle see, \<open>pers\<close> what is in the
  flash and survives a reset; a write is seen at once, and \<open>nvs_commit\<close> makes all writes persistent. Under these
  hypotheses the configuration survives any restart after a save. The histories are shown to keep the oldest
  entries.
\<close>

type_synonym nvs_view = "string \<Rightarrow> (nvs_type_t \<times> bytes) option"

definition nvs_ok :: "'s nvs_api \<Rightarrow> ('s \<Rightarrow> nvs_view) \<Rightarrow> ('s \<Rightarrow> nvs_view) \<Rightarrow> (nat \<Rightarrow> bool) \<Rightarrow> bool" where
  "nvs_ok api view pers valid \<longleftrightarrow>
     (\<forall>s. \<exists>h s'. nvs_open api s = (ESP_OK, h, s') \<and> valid h \<and> view s' = view s \<and> pers s' = pers s) \<and>
     (\<forall>s h t k v. valid h \<longrightarrow> (\<exists>s'. nvs_set api s h t k v = (ESP_OK, s') \<and> view s' = (view s)(k \<mapsto> (t, v)))) \<and>
     (\<forall>s h t k v. valid h \<and> view s k = Some (t, v) \<longrightarrow> nvs_get api s h t k (length v) = (ESP_OK, Some v)) \<and>
     (\<forall>s h t k n. valid h \<and> view s k = None \<longrightarrow> nvs_get api s h t k n = (ESP_ERR_NVS_NOT_FOUND, None)) \<and>
     (\<forall>s h. valid h \<longrightarrow> (\<exists>s'. nvs_commit api s h = (ESP_OK, s') \<and> view s' = view s \<and> pers s' = view s)) \<and>
     (\<forall>s h. view (nvs_close api s h) = view s \<and> pers (nvs_close api s h) = pers s)"

lemma nvs_okD:
  assumes "nvs_ok api view pers valid"
  shows nvs_open_ok: "\<exists>h s'. nvs_open api s = (ESP_OK, h, s') \<and> valid h \<and> view s' = view s \<and> pers s' = pers s"
    and nvs_set_ok: "valid h \<Longrightarrow> \<exists>s'. nvs_set api s h t k v = (ESP_OK, s') \<and> view s' = (view s)(k \<mapsto> (t, v))"
    and nvs_get_ok: "valid h \<Longrightarrow> view s k = Some (t, v) \<Longrightarrow> n = length v \<Longrightarrow> nvs_get api s h t k n = (ESP_OK, Some v)"
    and nvs_get_none: "valid h \<Longrightarrow> view s k = None \<Longrightarrow> nvs_get api s h t k n = (ESP_ERR_NVS_NOT_FOUND, None)"
    and nvs_commit_ok: "valid h \<Longrightarrow> \<exists>s'. nvs_commit api s h = (ESP_OK, s') \<and> view s' = view s \<and> pers s' = view s"
    and nvs_close_ok: "view (nvs_close api s h) = view s" "pers (nvs_close api s h) = pers s"
  using assms unfolding nvs_ok_def by blast+

subsection \<open>The members of the database\<close>

lemma word_le_bytes: "n * 8 = LENGTH('a::len) \<Longrightarrow> word_of_nat (le_nat (nat_le n (unat (w :: 'a word)))) = w"
proof -
  assume n: "n * 8 = LENGTH('a)"
  have "(256::nat) ^ n = 2 ^ (8 * n)" by (simp add: power_mult)
  then have "unat w < 256 ^ n" using unsigned_less [of w] n by (simp add: mult.commute)
  then show ?thesis by (simp add: le_nat_nat_le)
qed

lemma le_bytes_u32: "word_of_nat (le_nat (nat_le 4 (unat (w :: u32)))) = w"
  and le_bytes_u64: "word_of_nat (le_nat (nat_le 8 (unat (x :: u64)))) = x"
  by (rule word_le_bytes, simp)+

declare nat_le_numeral [simp del] db_read.simps [simp del] db_write.simps [simp del]

lemma db_write_read [simp]:
  "db_write db P_dev_checksum (db_read d P_dev_checksum) =
     db\<lparr>db_device := (db_device db)\<lparr>dev_checksum := dev_checksum (db_device d)\<rparr>\<rparr>"
  "db_write db P_dev_unique_id (db_read d P_dev_unique_id) =
     db\<lparr>db_device := (db_device db)\<lparr>dev_unique_id := dev_unique_id (db_device d)\<rparr>\<rparr>"
  "db_write db P_dev_latitude (db_read d P_dev_latitude) =
     db\<lparr>db_device := (db_device db)\<lparr>dev_latitude := dev_latitude (db_device d)\<rparr>\<rparr>"
  "db_write db P_dev_longitude (db_read d P_dev_longitude) =
     db\<lparr>db_device := (db_device db)\<lparr>dev_longitude := dev_longitude (db_device d)\<rparr>\<rparr>"
  "db_write db P_ds_checksum (db_read d P_ds_checksum) = db\<lparr>db_ds_checksum := db_ds_checksum d\<rparr>"
  by (simp_all add: db_write.simps db_read.simps le_bytes_u32 le_bytes_u64)

lemma length_db_read: "length (db_read db p) = (case p of P_dev_latitude \<Rightarrow> 8 | P_dev_longitude \<Rightarrow> 8 | _ \<Rightarrow> 4)"
  by (cases p) (simp_all add: db_read.simps)

text \<open>\<open>stored v d\<close>: every entry of the table has the value of \<open>d\<close> in the flash, or none where \<open>d\<close> has the factory value.\<close>

definition entry_stored :: "nvs_view \<Rightarrow> database_t \<Rightarrow> string \<Rightarrow> nvs_type_t \<Rightarrow> db_ptr \<Rightarrow> bool" where
  "entry_stored v d key t p \<longleftrightarrow>
     v key = Some (t, db_read d p) \<or> v key = None \<and> db_read d p = db_read factory_config p"

definition stored :: "nvs_view \<Rightarrow> database_t \<Rightarrow> bool" where
  "stored v d \<longleftrightarrow>
     (\<forall>e \<in> set nvs_mapper. \<forall>p key. entry_db_ptr e = Some p \<and> entry_key e = Some key \<longrightarrow>
        entry_stored v d key (entry_type e) p)"

lemma stored_iff:
  "stored v d \<longleftrightarrow> entry_stored v d ''d/crc'' NVS_TYPE_U32 P_dev_checksum \<and>
     entry_stored v d ''d/unique_id'' NVS_TYPE_U32 P_dev_unique_id \<and>
     entry_stored v d ''d/c/lat'' NVS_TYPE_I64 P_dev_latitude \<and>
     entry_stored v d ''d/c/long'' NVS_TYPE_I64 P_dev_longitude \<and>
     entry_stored v d ''ds/crc'' NVS_TYPE_U32 P_ds_checksum"
  by (auto simp: stored_def nvs_mapper_def)

lemma read_entry:
  assumes ok: "nvs_ok api view pers valid" "valid h" and st: "entry_stored (view s) d key t p"
    and db: "db_read db p = db_read factory_config p" and size: "n = length (db_read d p)" "0 < n" "nvs_type_size t = Some n"
  shows "\<exists>err. process_db_entry api s h db \<lparr>entry_db_ptr = Some p, entry_size = n, entry_type = t, entry_key = Some key,
      entry_section = sec, entry_is_used = True\<rparr> NVS_READ = Inr (err, s, db_write db p (db_read d p))"
proof -
  have t: "t \<noteq> NVS_TYPE_ANY" using size(3) by auto
  have same: "db_write db p (db_read db p) = db" by (cases p) simp_all
  show ?thesis
  proof (cases "view s key")
    case None
    then have "db_read d p = db_read db p" using st db by (simp add: entry_stored_def)
    then show ?thesis using nvs_get_none [OF ok None, of t n] size t same by (simp add: process_db_entry_def)
  next
    case (Some tv)
    then have "view s key = Some (t, db_read d p)" using st by (simp add: entry_stored_def)
    from nvs_get_ok [OF ok this size(1)] show ?thesis using size t by (simp add: process_db_entry_def)
  qed
qed

lemma read_restores:
  assumes "nvs_ok api view pers valid" "valid h" "stored (view s) d"
  shows "read_db_entries api h s factory_config =
    Inr (s, factory_config\<lparr>db_device := db_device d, db_ds_checksum := db_ds_checksum d\<rparr>)"
proof -
  have st: "entry_stored (view s) d ''d/crc'' NVS_TYPE_U32 P_dev_checksum"
     "entry_stored (view s) d ''d/unique_id'' NVS_TYPE_U32 P_dev_unique_id"
     "entry_stored (view s) d ''d/c/lat'' NVS_TYPE_I64 P_dev_latitude"
     "entry_stored (view s) d ''d/c/long'' NVS_TYPE_I64 P_dev_longitude"
     "entry_stored (view s) d ''ds/crc'' NVS_TYPE_U32 P_ds_checksum"
    using assms(3) by (simp_all add: stored_iff)
  let ?f = factory_config
  let ?d1 = "?f\<lparr>db_device := (db_device ?f)\<lparr>dev_checksum := dev_checksum (db_device d)\<rparr>\<rparr>"
  let ?d2 = "?d1\<lparr>db_device := (db_device ?d1)\<lparr>dev_unique_id := dev_unique_id (db_device d)\<rparr>\<rparr>"
  let ?d3 = "?d2\<lparr>db_device := (db_device ?d2)\<lparr>dev_latitude := dev_latitude (db_device d)\<rparr>\<rparr>"
  let ?d4 = "?d3\<lparr>db_device := (db_device ?d3)\<lparr>dev_longitude := dev_longitude (db_device d)\<rparr>\<rparr>"
  let ?d5 = "?d4\<lparr>db_ds_checksum := db_ds_checksum d\<rparr>"
  have q: "db_read ?f P_dev_checksum = db_read ?f P_dev_checksum" "db_read ?d1 P_dev_unique_id = db_read ?f P_dev_unique_id" "db_read ?d2 P_dev_latitude = db_read ?f P_dev_latitude" "db_read ?d3 P_dev_longitude = db_read ?f P_dev_longitude" "db_read ?d4 P_ds_checksum = db_read ?f P_ds_checksum"
    by (simp_all add: db_read.simps)
  note r = read_entry [OF assms(1,2)]
  have e1: "\<exists>err. process_db_entry api s h ?f (nvs_mapper ! 0) NVS_READ = Inr (err, s, ?d1)"
    using r [OF st(1) q(1), of 4] by (simp add: nvs_mapper_def length_db_read)
  have e2: "\<exists>err. process_db_entry api s h ?d1 (nvs_mapper ! 1) NVS_READ = Inr (err, s, ?d2)"
    using r [OF st(2) q(2), of 4] by (simp add: nvs_mapper_def length_db_read)
  have e3: "\<exists>err. process_db_entry api s h ?d2 (nvs_mapper ! 2) NVS_READ = Inr (err, s, ?d3)"
    using r [OF st(3) q(3), of 8] by (simp add: nvs_mapper_def length_db_read)
  have e4: "\<exists>err. process_db_entry api s h ?d3 (nvs_mapper ! 3) NVS_READ = Inr (err, s, ?d4)"
    using r [OF st(4) q(4), of 8] by (simp add: nvs_mapper_def length_db_read)
  have e5: "\<exists>err. process_db_entry api s h ?d4 (nvs_mapper ! 4) NVS_READ = Inr (err, s, ?d5)"
    using r [OF st(5) q(5), of 4] by (simp add: nvs_mapper_def length_db_read)
  have m: "nvs_mapper = [nvs_mapper ! 0, nvs_mapper ! 1, nvs_mapper ! 2, nvs_mapper ! 3, nvs_mapper ! 4]"
    "list_all entry_is_used nvs_mapper"
    by (simp_all add: nvs_mapper_def)
  have "entries_loop api h NVS_READ [nvs_mapper ! 0, nvs_mapper ! 1, nvs_mapper ! 2, nvs_mapper ! 3, nvs_mapper ! 4] s ?f =
      Inr (s, ?d5)"
    using e1 e2 e3 e4 e5 m(2) by (auto simp: list_all_length nvs_mapper_def)
  moreover have "?d5 = ?f\<lparr>db_device := db_device d, db_ds_checksum := db_ds_checksum d\<rparr>" by simp
  ultimately show ?thesis unfolding read_db_entries_def by (subst m(1)) simp
qed

subsection \<open>Operations\<close>

datatype storage_op =
    Op_unique_id u32 | Op_coordinates i64 i64 | Op_dump_check | Op_factory | Op_force_dump
  | Op_register nat | Op_unregister nat | Op_meter_value int u16 i32 | Op_meter_entry int u16 i32
  | Op_energy_entry int u64

definition storage_step ::
  "'s nvs_api \<Rightarrow> (bytes \<Rightarrow> u32) \<Rightarrow> int \<Rightarrow> 's storage \<Rightarrow> storage_op \<Rightarrow> ('s storage \<times> storage_event list) outcome" where
  "storage_step api crc ct st op =
     (case op of
        Op_unique_id u \<Rightarrow> storage_set_device_unique_id api st u
      | Op_coordinates lat long \<Rightarrow> storage_set_coordinates api st lat long
      | Op_dump_check \<Rightarrow> dump_check api crc st
      | Op_factory \<Rightarrow> obind (storage_set_factory_config api st) (\<lambda>st. Inr (st, []))
      | Op_force_dump \<Rightarrow> obind (storage_force_dump_panic api st) (\<lambda>st. Inr (st, []))
      | Op_register cb \<Rightarrow> obind (storage_register_on_changed_callback True st cb) (\<lambda>st. Inr (st, []))
      | Op_unregister cb \<Rightarrow> Inr (storage_unregister_on_changed_callback st cb, [])
      | Op_meter_value t ty v \<Rightarrow> Inr (st\<lparr>st_db := snd (storage_set_meter_value (st_db st) t ty v)\<rparr>, [])
      | Op_meter_entry t ty v \<Rightarrow> Inr (st\<lparr>st_db := snd (storage_add_meter_entry ct (st_db st) t ty v)\<rparr>, [])
      | Op_energy_entry t v \<Rightarrow> Inr (st\<lparr>st_db := snd (storage_add_energy_entry ct (st_db st) t v)\<rparr>, []))"

fun storage_run ::
  "'s nvs_api \<Rightarrow> (bytes \<Rightarrow> u32) \<Rightarrow> int \<Rightarrow> 's storage \<Rightarrow> storage_op list \<Rightarrow> ('s storage \<times> storage_event list) outcome" where
  "storage_run api crc ct st [] = Inr (st, [])"
| "storage_run api crc ct st (op # ops) =
     obind (storage_step api crc ct st op) (\<lambda>(st, evs).
     obind (storage_run api crc ct st ops) (\<lambda>(st, evs'). Inr (st, evs @ evs')))"

definition storage_inv :: "('s \<Rightarrow> nvs_view) \<Rightarrow> 's storage \<Rightarrow> bool" where
  "storage_inv view st \<longleftrightarrow> stored (view (st_nvs st)) (st_db st) \<and> st_dump_request st \<in> {0, 2}"

lemma write_entry:
  assumes ok: "nvs_ok api view pers valid" "valid h" and size: "n = length (db_read db p)" "0 < n" "nvs_type_size t = Some n"
  shows "\<exists>s'. process_db_entry api s h db \<lparr>entry_db_ptr = Some p, entry_size = n, entry_type = t, entry_key = Some key,
      entry_section = sec, entry_is_used = True\<rparr> NVS_WRITE = Inr (ESP_OK, s', db) \<and>
      view s' = (view s)(key \<mapsto> (t, db_read db p))"
proof -
  have "t \<noteq> NVS_TYPE_ANY" using size(3) by auto
  with nvs_set_ok [OF ok, of s t key "db_read db p"] size show ?thesis by (auto simp: process_db_entry_def)
qed

lemma save_entry:
  assumes ok: "nvs_ok api view pers valid"
    and e: "find_entry_db_idx (Some p) = Some \<lparr>entry_db_ptr = Some p, entry_size = n, entry_type = t, entry_key = Some key,
      entry_section = STORAGE_DEVICE, entry_is_used = True\<rparr>"
    and size: "n = length (db_read (st_db st) p)" "0 < n" "nvs_type_size t = Some n"
  shows "\<exists>s. storage_save_db_entry api st p =
      Inr (st\<lparr>st_nvs := s, st_dump_request := st_dump_request st OR 2\<rparr>, [Schedule_dump_check STORAGE_DUMP_DEBOUNCE_MS]) \<and>
      view s = (view (st_nvs st))(key \<mapsto> (t, db_read (st_db st) p))"
proof -
  obtain h s1 where o: "nvs_open api (st_nvs st) = (ESP_OK, h, s1)" "valid h" "view s1 = view (st_nvs st)"
    using nvs_open_ok [OF ok] by blast
  obtain s2 where w: "process_db_entry api s1 h (st_db st) \<lparr>entry_db_ptr = Some p, entry_size = n, entry_type = t,
      entry_key = Some key, entry_section = STORAGE_DEVICE, entry_is_used = True\<rparr> NVS_WRITE = Inr (ESP_OK, s2, st_db st)"
      "view s2 = (view s1)(key \<mapsto> (t, db_read (st_db st) p))"
    using write_entry [OF ok o(2) size] by blast
  show ?thesis
    using o w nvs_close_ok [OF ok, of s2 h] e
    by (intro exI [of _ "nvs_close api s2 h"])
      (simp add: storage_save_db_entry_def section_dump_request_def section_bit_def)
qed

lemma find_entries:
  "find_entry_db_idx (Some P_dev_checksum) = Some \<lparr>entry_db_ptr = Some P_dev_checksum, entry_size = 4,
     entry_type = NVS_TYPE_U32, entry_key = Some ''d/crc'', entry_section = STORAGE_DEVICE, entry_is_used = True\<rparr>"
  "find_entry_db_idx (Some P_dev_unique_id) = Some \<lparr>entry_db_ptr = Some P_dev_unique_id, entry_size = 4,
     entry_type = NVS_TYPE_U32, entry_key = Some ''d/unique_id'', entry_section = STORAGE_DEVICE, entry_is_used = True\<rparr>"
  "find_entry_db_idx (Some P_dev_latitude) = Some \<lparr>entry_db_ptr = Some P_dev_latitude, entry_size = 8,
     entry_type = NVS_TYPE_I64, entry_key = Some ''d/c/lat'', entry_section = STORAGE_DEVICE, entry_is_used = True\<rparr>"
  "find_entry_db_idx (Some P_dev_longitude) = Some \<lparr>entry_db_ptr = Some P_dev_longitude, entry_size = 8,
     entry_type = NVS_TYPE_I64, entry_key = Some ''d/c/long'', entry_section = STORAGE_DEVICE, entry_is_used = True\<rparr>"
  by (simp_all add: find_entry_db_idx_def nvs_mapper_def)

lemma request_or: "r \<in> {0, 2} \<Longrightarrow> r OR 2 = (2 :: u32)"
  by auto

lemma db_read_set_device:
  "p \<noteq> P_dev_unique_id \<Longrightarrow> db_read (st_db (set_device st (dev_unique_id_update f))) p = db_read (st_db st) p"
  "p \<noteq> P_dev_latitude \<Longrightarrow> db_read (st_db (set_device st (dev_latitude_update g))) p = db_read (st_db st) p"
  "p \<noteq> P_dev_longitude \<Longrightarrow> db_read (st_db (set_device st (dev_longitude_update g))) p = db_read (st_db st) p"
  by (cases p; simp add: set_device_def db_read.simps)+

lemma set_device_simps [simp]:
  "st_nvs (set_device st f) = st_nvs st" "st_dump_request (set_device st f) = st_dump_request st"
  "st_callbacks (set_device st f) = st_callbacks st"
  by (simp_all add: set_device_def)

lemma set_unique_id_ok:
  assumes "nvs_ok api view pers valid" "storage_inv view st"
  shows "\<exists>st' evs. storage_set_device_unique_id api st u = Inr (st', evs) \<and> storage_inv view st'"
proof -
  let ?st = "set_device st (\<lambda>d. d\<lparr>dev_unique_id := u\<rparr>)"
  obtain s where s: "storage_save_db_entry api ?st P_dev_unique_id = Inr (?st\<lparr>st_nvs := s,
      st_dump_request := st_dump_request st OR 2\<rparr>, [Schedule_dump_check STORAGE_DUMP_DEBOUNCE_MS])"
      "view s = (view (st_nvs st))(''d/unique_id'' \<mapsto> (NVS_TYPE_U32, db_read (st_db ?st) P_dev_unique_id))"
    using save_entry [OF assms(1) find_entries(2), of ?st] by (auto simp: length_db_read)
  have "stored (view s) (st_db ?st)"
    using assms(2) s(2) by (simp add: storage_inv_def stored_iff entry_stored_def db_read_set_device)
  then show ?thesis
    using s(1) assms(2) by (auto simp: storage_set_device_unique_id_def storage_inv_def)
qed


lemma set_coordinates_ok:
  assumes "nvs_ok api view pers valid" "storage_inv view st"
  shows "\<exists>st' evs. storage_set_coordinates api st lat long = Inr (st', evs) \<and> storage_inv view st'"
proof -
  let ?st = "set_device st (\<lambda>d. d\<lparr>dev_longitude := long\<rparr>)"
  obtain s where s: "storage_save_db_entry api ?st P_dev_longitude = Inr (?st\<lparr>st_nvs := s,
      st_dump_request := st_dump_request st OR 2\<rparr>, [Schedule_dump_check STORAGE_DUMP_DEBOUNCE_MS])"
      "view s = (view (st_nvs st))(''d/c/long'' \<mapsto> (NVS_TYPE_I64, db_read (st_db ?st) P_dev_longitude))"
    using save_entry [OF assms(1) find_entries(4), of ?st] by (auto simp: length_db_read)
  let ?st1 = "?st\<lparr>st_nvs := s, st_dump_request := st_dump_request st OR 2\<rparr>"
  have one: "stored (view s) (st_db ?st1)"
    using assms(2) s(2) by (simp add: storage_inv_def stored_iff entry_stored_def db_read_set_device)
  let ?st2 = "set_device ?st1 (\<lambda>d. d\<lparr>dev_latitude := lat\<rparr>)"
  obtain s' where s': "storage_save_db_entry api ?st2 P_dev_latitude = Inr (?st2\<lparr>st_nvs := s',
      st_dump_request := st_dump_request ?st1 OR 2\<rparr>, [Schedule_dump_check STORAGE_DUMP_DEBOUNCE_MS])"
      "view s' = (view s)(''d/c/lat'' \<mapsto> (NVS_TYPE_I64, db_read (st_db ?st2) P_dev_latitude))"
    using save_entry [OF assms(1) find_entries(3), of ?st2] by (auto simp: length_db_read)
  have "stored (view s') (st_db ?st2)"
    using one s'(2) by (simp add: stored_iff entry_stored_def db_read_set_device)
  then show ?thesis
    using s(1) s'(1) assms(2) by (auto simp: storage_set_coordinates_def storage_inv_def)
qed

lemma save_database_ok:
  assumes ok: "nvs_ok api view pers valid"
  shows "\<exists>s. save_database api st = Inr (st\<lparr>st_nvs := s\<rparr>) \<and> pers s = view s \<and>
    view s = (view (st_nvs st))(''d/crc'' \<mapsto> (NVS_TYPE_U32, db_read (st_db st) P_dev_checksum),
       ''d/unique_id'' \<mapsto> (NVS_TYPE_U32, db_read (st_db st) P_dev_unique_id),
       ''d/c/lat'' \<mapsto> (NVS_TYPE_I64, db_read (st_db st) P_dev_latitude),
       ''d/c/long'' \<mapsto> (NVS_TYPE_I64, db_read (st_db st) P_dev_longitude),
       ''ds/crc'' \<mapsto> (NVS_TYPE_U32, db_read (st_db st) P_ds_checksum))"
proof -
  let ?db = "st_db st"
  obtain h s0 where o: "nvs_open api (st_nvs st) = (ESP_OK, h, s0)" "valid h" "view s0 = view (st_nvs st)"
    using nvs_open_ok [OF ok] by blast
  note w = write_entry [OF ok o(2)]
  obtain s1 where s1: "process_db_entry api s0 h ?db (nvs_mapper ! 0) NVS_WRITE = Inr (ESP_OK, s1, ?db)"
      "view s1 = (view s0)(''d/crc'' \<mapsto> (NVS_TYPE_U32, db_read ?db P_dev_checksum))"
    using w [of 4 ?db P_dev_checksum NVS_TYPE_U32 s0 "''d/crc''"] by (auto simp: nvs_mapper_def length_db_read)
  obtain s2 where s2: "process_db_entry api s1 h ?db (nvs_mapper ! 1) NVS_WRITE = Inr (ESP_OK, s2, ?db)"
      "view s2 = (view s1)(''d/unique_id'' \<mapsto> (NVS_TYPE_U32, db_read ?db P_dev_unique_id))"
    using w [of 4 ?db P_dev_unique_id NVS_TYPE_U32 s1 "''d/unique_id''"] by (auto simp: nvs_mapper_def length_db_read)
  obtain s3 where s3: "process_db_entry api s2 h ?db (nvs_mapper ! 2) NVS_WRITE = Inr (ESP_OK, s3, ?db)"
      "view s3 = (view s2)(''d/c/lat'' \<mapsto> (NVS_TYPE_I64, db_read ?db P_dev_latitude))"
    using w [of 8 ?db P_dev_latitude NVS_TYPE_I64 s2 "''d/c/lat''"] by (auto simp: nvs_mapper_def length_db_read)
  obtain s4 where s4: "process_db_entry api s3 h ?db (nvs_mapper ! 3) NVS_WRITE = Inr (ESP_OK, s4, ?db)"
      "view s4 = (view s3)(''d/c/long'' \<mapsto> (NVS_TYPE_I64, db_read ?db P_dev_longitude))"
    using w [of 8 ?db P_dev_longitude NVS_TYPE_I64 s3 "''d/c/long''"] by (auto simp: nvs_mapper_def length_db_read)
  obtain s5 where s5: "process_db_entry api s4 h ?db (nvs_mapper ! 4) NVS_WRITE = Inr (ESP_OK, s5, ?db)"
      "view s5 = (view s4)(''ds/crc'' \<mapsto> (NVS_TYPE_U32, db_read ?db P_ds_checksum))"
    using w [of 4 ?db P_ds_checksum NVS_TYPE_U32 s4 "''ds/crc''"] by (auto simp: nvs_mapper_def length_db_read)
  obtain s6 where s6: "nvs_commit api s5 h = (ESP_OK, s6)" "view s6 = view s5" "pers s6 = view s5"
    using nvs_commit_ok [OF ok o(2)] by blast
  have m: "nvs_mapper = [nvs_mapper ! 0, nvs_mapper ! 1, nvs_mapper ! 2, nvs_mapper ! 3, nvs_mapper ! 4]"
    "entry_is_used (nvs_mapper ! 0)" "entry_is_used (nvs_mapper ! 1)" "entry_is_used (nvs_mapper ! 2)"
    "entry_is_used (nvs_mapper ! 3)" "entry_is_used (nvs_mapper ! 4)"
    by (simp_all add: nvs_mapper_def)
  have "write_db_entries api h s0 ?db = Inr (s5, ?db)"
    unfolding write_db_entries_def
    by (subst m(1)) (simp only: entries_loop.simps m(2-6) not_True_eq_False if_False s1(1) s2(1) s3(1) s4(1) s5(1)
        obind_simps case_prod_conv)
  then show ?thesis
    using o s6 nvs_close_ok [OF ok, of s6 h] s1(2) s2(2) s3(2) s4(2) s5(2)
    by (intro exI [of _ "nvs_close api s6 h"]) (simp add: save_database_def)
qed

lemma save_database_stored:
  assumes "nvs_ok api view pers valid"
  shows "\<exists>s. save_database api st = Inr (st\<lparr>st_nvs := s\<rparr>) \<and> pers s = view s \<and> stored (view s) (st_db st)"
  using save_database_ok [OF assms, of st] by (auto simp: stored_iff entry_stored_def)

lemma dump_check_ok:
  assumes ok: "nvs_ok api view pers valid" and inv: "storage_inv view st"
  shows "\<exists>st' evs. dump_check api crc st = Inr (st', evs) \<and> storage_inv view st' \<and> st_dump_request st' = 0 \<and>
    (if st_dump_request st = 0 \<or> device_crc crc (st_db st) = dev_checksum (db_device (st_db st))
     then st' = st\<lparr>st_dump_request := 0\<rparr> \<and> evs = []
     else st_db st' = st_db (set_device st (\<lambda>d. d\<lparr>dev_checksum := device_crc crc (st_db st)\<rparr>)) \<and>
          pers (st_nvs st') = view (st_nvs st') \<and> evs = map Changed_callback (st_callbacks st))"
proof -
  have m: "(2 :: u32) AND STORAGE_MASK \<noteq> 0" "section_bit STORAGE_DEVICE = 2" "section_bit STORAGE_DS = 4"
    by (simp_all add: STORAGE_MASK_def section_bit_def)
  consider (none) "st_dump_request st = 0" | (dev) "st_dump_request st = 2" using inv by (auto simp: storage_inv_def)
  then show ?thesis
  proof cases
    case none
    then show ?thesis using inv by (simp add: dump_check_def dump_check_locked_def)
  next
    case dev
    show ?thesis
    proof (cases "device_crc crc (st_db st) = dev_checksum (db_device (st_db st))")
      case True
      then have "dump_check_locked crc st = (False, st\<lparr>st_dump_request := 0\<rparr>)"
        using dev m by (simp add: dump_check_locked_def Let_def)
      then show ?thesis using True inv by (simp add: dump_check_def storage_inv_def)
    next
      case False
      let ?st = "set_device st (\<lambda>d. d\<lparr>dev_checksum := device_crc crc (st_db st)\<rparr>)"
      have l: "dump_check_locked crc st = (True, ?st)"
        using False dev m by (simp add: dump_check_locked_def Let_def set_device_def)
      obtain h s0 where o: "nvs_open api (st_nvs st) = (ESP_OK, h, s0)" "valid h" "view s0 = view (st_nvs st)"
        using nvs_open_ok [OF ok] by blast
      obtain s1 where s1: "nvs_set api s0 h NVS_TYPE_U32 ''d/crc'' (db_read (st_db ?st) P_dev_checksum) = (ESP_OK, s1)"
          "view s1 = (view s0)(''d/crc'' \<mapsto> (NVS_TYPE_U32, db_read (st_db ?st) P_dev_checksum))"
        using nvs_set_ok [OF ok o(2)] by blast
      obtain s2 where s2: "nvs_commit api s1 h = (ESP_OK, s2)" "view s2 = view s1" "pers s2 = view s1"
        using nvs_commit_ok [OF ok o(2)] by blast
      let ?st' = "?st\<lparr>st_dump_request := 0, st_nvs := nvs_close api s2 h\<rparr>"
      have "dump_check_save api ?st = Inr (?st', map Changed_callback (st_callbacks st))"
        using o(1) s1(1) s2(1) dev m find_entries(1) by (simp add: dump_check_save_def save_crc_of_section_def)
      moreover have "stored (view (st_nvs ?st')) (st_db ?st')"
      proof -
        have "db_read (st_db ?st) p = db_read (st_db st) p" if "p \<noteq> P_dev_checksum" for p
          using that by (cases p) (simp_all add: set_device_def db_read.simps)
        then show ?thesis
          using inv o(3) s1(2) s2(2) nvs_close_ok [OF ok, of s2 h]
          by (simp add: storage_inv_def stored_iff entry_stored_def)
      qed
      ultimately show ?thesis
        using l False dev s2 nvs_close_ok [OF ok, of s2 h] by (simp add: dump_check_def storage_inv_def)
    qed
  qed
qed


lemma storage_inv_db:
  assumes "storage_inv view st" "db_device db = db_device (st_db st)" "db_ds_checksum db = db_ds_checksum (st_db st)"
  shows "storage_inv view (st\<lparr>st_db := db\<rparr>)"
proof -
  have "db_read db p = db_read (st_db st) p" for p using assms(2,3) by (cases p) (simp_all add: db_read.simps)
  then show ?thesis using assms(1) by (simp add: storage_inv_def stored_iff entry_stored_def)
qed

lemma storage_step_ok:
  assumes ok: "nvs_ok api view pers valid" and inv: "storage_inv view st"
  shows "\<exists>st' evs. storage_step api crc ct st op = Inr (st', evs) \<and> storage_inv view st'"
proof (cases op)
  case (Op_unique_id u)
  with set_unique_id_ok [OF ok inv, of u] show ?thesis by (simp add: storage_step_def)
next
  case (Op_coordinates lat long)
  with set_coordinates_ok [OF ok inv, of lat long] show ?thesis by (simp add: storage_step_def)
next
  case Op_dump_check
  with dump_check_ok [OF ok inv, of crc] show ?thesis by (auto simp: storage_step_def)
next
  case Op_factory
  with save_database_stored [OF ok, of "st\<lparr>st_db := factory_config\<rparr>"] inv show ?thesis
    by (auto simp: storage_step_def storage_set_factory_config_def storage_inv_def)
next
  case Op_force_dump
  with save_database_stored [OF ok, of st] inv show ?thesis
    by (auto simp: storage_step_def storage_force_dump_panic_def storage_inv_def)
next
  case (Op_register cb)
  with inv show ?thesis
    by (simp add: storage_step_def storage_register_on_changed_callback_def insert_node_def remove_node_def storage_inv_def)
next
  case (Op_unregister cb)
  with inv show ?thesis
    by (simp add: storage_step_def storage_unregister_on_changed_callback_def remove_node_def storage_inv_def)
next
  case (Op_meter_value t ty v)
  with storage_inv_db [OF inv, of "snd (storage_set_meter_value (st_db st) t ty v)"] show ?thesis
    by (simp add: storage_step_def storage_set_meter_value_def Let_def)
next
  case (Op_meter_entry t ty v)
  with storage_inv_db [OF inv, of "snd (storage_add_meter_entry ct (st_db st) t ty v)"] show ?thesis
    by (simp add: storage_step_def storage_add_meter_entry_def case_prod_beta)
next
  case (Op_energy_entry t v)
  with storage_inv_db [OF inv, of "snd (storage_add_energy_entry ct (st_db st) t v)"] show ?thesis
    by (simp add: storage_step_def storage_add_energy_entry_def Let_def)
qed

interpretation storage_runs: guarded_runs "\<lambda>op st. storage_step api crc ct st op" "\<lambda>ops st. storage_run api crc ct st ops"
    "\<lambda>st. nvs_ok api view pers valid \<and> storage_inv view st" "\<lambda>op. False"
  for api crc ct view pers valid
  by unfold_locales (use storage_step_ok in \<open>auto simp del: split_paired_Ex\<close>)

lemma storage_run_ok:
  "nvs_ok api view pers valid \<Longrightarrow> storage_inv view st \<Longrightarrow>
   \<exists>st' evs. storage_run api crc ct st ops = Inr (st', evs) \<and> storage_inv view st'"
  using storage_runs.run_iff [of api view pers valid st ops crc ct] by auto

lemma clear_unused_none: "clear_unused_db_entries api h s = s"
  by (simp add: clear_unused_db_entries_def nvs_mapper_def)

lemma storage_init_ok:
  assumes ok: "nvs_ok api view pers valid" and st: "stored (view (st_nvs st)) d"
  shows "\<exists>s. storage_init api st = Inr (st\<lparr>st_db := factory_config\<lparr>db_device := db_device d, db_ds_checksum := db_ds_checksum d\<rparr>,
      st_nvs := s\<rparr>) \<and> view s = view (st_nvs st)"
proof -
  obtain h s0 where o: "nvs_open api (st_nvs st) = (ESP_OK, h, s0)" "valid h" "view s0 = view (st_nvs st)"
    using nvs_open_ok [OF ok] by blast
  have "stored (view s0) d" using st o(3) by simp
  from read_restores [OF ok o(2) this] o(1,3) nvs_close_ok [OF ok, of s0 h] show ?thesis
    by (intro exI [of _ "nvs_close api s0 h"]) (simp add: storage_init_def clear_unused_none)
qed

lemma storage_init_inv:
  assumes ok: "nvs_ok api view pers valid" and st: "stored (view (st_nvs st)) d" "st_dump_request st = 0"
  shows "\<exists>st'. storage_init api st = Inr st' \<and> storage_inv view st' \<and> storage_device st' = db_device d"
proof -
  obtain s where s: "storage_init api st = Inr (st\<lparr>st_db := factory_config\<lparr>db_device := db_device d,
      db_ds_checksum := db_ds_checksum d\<rparr>, st_nvs := s\<rparr>)" "view s = view (st_nvs st)"
    using storage_init_ok [OF ok st(1)] by blast
  have "db_read (factory_config\<lparr>db_device := db_device d, db_ds_checksum := db_ds_checksum d\<rparr>) p = db_read d p" for p
    by (cases p) (simp_all add: db_read.simps)
  then show ?thesis using s st by (simp add: storage_inv_def stored_iff entry_stored_def storage_device_def)
qed

text \<open>A restart: the RAM is lost, the flash has what was persistent.\<close>

definition restarts_with :: "'s nvs_api \<Rightarrow> ('s \<Rightarrow> nvs_view) \<Rightarrow> nvs_view \<Rightarrow> flash_device_t \<Rightarrow> bool" where
  "restarts_with api view flash dev \<longleftrightarrow>
     (\<forall>st. view (st_nvs st) = flash \<longrightarrow> (\<exists>st'. storage_init api st = Inr st' \<and> storage_device st' = dev))"

text \<open>C4. From a start on a flash that the module itself wrote (or that is empty), any sequence of its operations runs
  without a fault. The identity and the position then survive a restart: always after the forced dump of the shutdown
  handler, and after the delayed save when it finds the checksum changed. The delayed save calls every change
  callback once, and does nothing when the checksum is the stored one.\<close>

theorem storage_survives_restart:
  assumes ok: "nvs_ok api view pers valid" and start: "stored (view (st_nvs st0)) d0" "st_dump_request st0 = 0"
  shows "\<exists>st1 st2 evs st3 st4 evs4. storage_init api st0 = Inr st1 \<and> storage_run api crc ct st1 ops = Inr (st2, evs) \<and>
    storage_force_dump_panic api st2 = Inr st3 \<and> restarts_with api view (pers (st_nvs st3)) (storage_device st2) \<and>
    dump_check api crc st2 = Inr (st4, evs4) \<and>
    (if st_dump_request st2 = 0 \<or> device_crc crc (st_db st2) = dev_checksum (storage_device st2)
     then st4 = st2\<lparr>st_dump_request := 0\<rparr> \<and> evs4 = []
     else storage_device st4 = (storage_device st2)\<lparr>dev_checksum := device_crc crc (st_db st2)\<rparr> \<and>
          restarts_with api view (pers (st_nvs st4)) (storage_device st4) \<and>
          evs4 = map Changed_callback (st_callbacks st2))"
proof -
  obtain st1 where st1: "storage_init api st0 = Inr st1" "storage_inv view st1"
    using storage_init_inv [OF ok start] by blast
  obtain st2 evs where st2: "storage_run api crc ct st1 ops = Inr (st2, evs)" "storage_inv view st2"
    using storage_run_ok [OF ok st1(2)] by blast
  obtain s where s: "save_database api st2 = Inr (st2\<lparr>st_nvs := s\<rparr>)" "pers s = view s" "stored (view s) (st_db st2)"
    using save_database_stored [OF ok] by blast
  have restart: "restarts_with api view flash (db_device d)" if "stored flash d" for flash d
    using storage_init_ok [OF ok] that by (fastforce simp: restarts_with_def storage_device_def)
  have "restarts_with api view (pers s) (storage_device st2)"
    using restart [OF s(3)] s(2) by (simp add: storage_device_def)
  moreover obtain st4 evs4 where d: "dump_check api crc st2 = Inr (st4, evs4)" "storage_inv view st4"
      "if st_dump_request st2 = 0 \<or> device_crc crc (st_db st2) = dev_checksum (db_device (st_db st2))
       then st4 = st2\<lparr>st_dump_request := 0\<rparr> \<and> evs4 = []
       else st_db st4 = st_db (set_device st2 (\<lambda>d. d\<lparr>dev_checksum := device_crc crc (st_db st2)\<rparr>)) \<and>
            pers (st_nvs st4) = view (st_nvs st4) \<and> evs4 = map Changed_callback (st_callbacks st2)"
    using dump_check_ok [OF ok st2(2)] by blast
  moreover have "restarts_with api view (view (st_nvs st4)) (storage_device st4)"
    using restart [of "view (st_nvs st4)" "st_db st4"] d(2) by (simp add: storage_inv_def storage_device_def)
  ultimately show ?thesis
    using st1 st2 s(1) by (auto simp: storage_force_dump_panic_def storage_device_def set_device_def)
qed


definition map_nvs :: "(nvs_view \<times> nvs_view) nvs_api" where
  "map_nvs =
     \<lparr>nvs_open = \<lambda>s. (ESP_OK, 1, s),
      nvs_set = \<lambda>(v, p) h t k bs. (ESP_OK, (v(k \<mapsto> (t, bs)), p)),
      nvs_get = \<lambda>(v, p) h t k n. (case v k of
          None \<Rightarrow> (ESP_ERR_NVS_NOT_FOUND, None)
        | Some (t', bs) \<Rightarrow> if t' = t \<and> length bs = n then (ESP_OK, Some bs) else (ESP_FAIL, None)),
      nvs_erase_key = \<lambda>(v, p) h k. (ESP_OK, (v(k := None), p)),
      nvs_commit = \<lambda>(v, p) h. (ESP_OK, (v, v)),
      nvs_close = \<lambda>s h. s\<rparr>"

lemma map_nvs_ok: "nvs_ok map_nvs fst snd (\<lambda>h. h = 1)"
  by (auto simp: nvs_ok_def map_nvs_def)

definition blank_storage :: "(nvs_view \<times> nvs_view) storage" where
  "blank_storage = \<lparr>st_db = factory_config, st_dump_request = 0, st_callbacks = [], st_nvs = (Map.empty, Map.empty)\<rparr>"

theorem storage_survives_restart_witness:
  "\<exists>st1 st2 evs st3. storage_init map_nvs blank_storage = Inr st1 \<and>
     storage_run map_nvs (\<lambda>bs. 5) 0 st1 [Op_register 9, Op_unique_id 7, Op_coordinates 1 2] = Inr (st2, evs) \<and>
     storage_force_dump_panic map_nvs st2 = Inr st3 \<and>
     restarts_with map_nvs fst (snd (st_nvs st3)) (storage_device st2)"
proof -
  have "stored (fst (st_nvs blank_storage)) factory_config" "st_dump_request blank_storage = 0"
    by (simp_all add: stored_iff entry_stored_def blank_storage_def)
  from storage_survives_restart [OF map_nvs_ok this] show ?thesis by blast
qed

subsection \<open>Histories\<close>

definition meter_ok :: "storage_meter_t \<Rightarrow> (int \<times> i32) list \<Rightarrow> bool" where
  "meter_ok m xs \<longleftrightarrow>
     (let k = min MAX_METER_ENTRIES (length xs) in
      length (mt_entries m) = MAX_METER_ENTRIES \<and> length (mt_t_offset m) = MAX_METER_ENTRIES \<and> mt_len m = k \<and>
      (xs \<noteq> [] \<longrightarrow> mt_ref_timestamp m = fst (hd xs)) \<and>
      take k (mt_entries m) = take k (map snd xs) \<and>
      take k (mt_t_offset m) = take k (map (\<lambda>(t, v). word_of_int (t - fst (hd xs))) xs))"

lemma meter_add_ok:
  assumes "meter_ok m xs"
  shows "meter_ok (snd (meter_add m t v)) (xs @ [(t, v)])" "fst (meter_add m t v) = (MAX_METER_ENTRIES - 1 \<le> length xs)"
proof -
  have m: "length (mt_entries m) = MAX_METER_ENTRIES" "length (mt_t_offset m) = MAX_METER_ENTRIES"
    "mt_len m = min MAX_METER_ENTRIES (length xs)" "xs \<noteq> [] \<Longrightarrow> mt_ref_timestamp m = fst (hd xs)"
    using assms by (simp_all add: meter_ok_def Let_def)
  show "fst (meter_add m t v) = (MAX_METER_ENTRIES - 1 \<le> length xs)"
    using m(1,3) by (auto simp: meter_add_def Let_def)
  show "meter_ok (snd (meter_add m t v)) (xs @ [(t, v)])"
  proof (cases "MAX_METER_ENTRIES \<le> length xs")
    case True
    then have "hd (xs @ [(t, v)]) = hd xs" "xs \<noteq> []" by (cases xs; simp)+
    then show ?thesis using assms m(1,3) True by (simp add: meter_add_def meter_ok_def Let_def)
  next
    case False
    then have l: "mt_len m = length xs" "length xs < MAX_METER_ENTRIES" using m(3) by simp_all
    have p: "take (length xs) (mt_entries m) = map snd xs"
      "take (length xs) (mt_t_offset m) = map (\<lambda>(t, v). word_of_int (t - fst (hd xs))) xs"
      using assms l by (simp_all add: meter_ok_def Let_def)
    show ?thesis
    proof (cases "xs = []")
      case True
      then show ?thesis using m(1,2) l(1)
        by (simp add: meter_add_def meter_ok_def Let_def take_Suc_update del: take_Suc)
    next
      case ne: False
      then have "hd (xs @ [(t, v)]) = hd xs" "mt_len m \<noteq> 0" using l(1) by simp_all
      then show ?thesis using m l p ne
        by (simp add: meter_add_def meter_ok_def Let_def take_Suc_update)
    qed
  qed
qed

definition history :: "database_t \<Rightarrow> u16 \<Rightarrow> storage_meter_t" where
  "history db ty = (if ty = MEASTYPE_VOLTAGE_RMS then db_voltage db else db_power db)"

definition log_entries :: "int \<Rightarrow> u16 \<Rightarrow> (int \<times> i32) list \<Rightarrow> database_t" where
  "log_entries ct ty xs = foldl (\<lambda>db (t, v). snd (storage_add_meter_entry ct db t ty v)) factory_config xs"

text \<open>C33. The histories of the voltage and of the power keep the first 48 entries in order, each with its value and the
  seconds since the first one modulo 2 ^ 32; every later entry is dropped, for no function empties a history. A
  call reports a full history from the 48th entry on, so also for the entries that it drops.\<close>

theorem meter_history_keeps_oldest:
  assumes "ty = MEASTYPE_VOLTAGE_RMS \<or> ty = MEASTYPE_POWER_ACTIVE" "\<forall>(t, v) \<in> set xs. ct \<le> t"
  shows "let m = history (log_entries ct ty xs) ty; k = min MAX_METER_ENTRIES (length xs) in
    mt_len m = k \<and> take k (mt_entries m) = take k (map snd xs) \<and>
    take k (mt_t_offset m) = take k (map (\<lambda>(t, v). word_of_int (t - fst (hd xs))) xs) \<and>
    length (mt_entries m) = MAX_METER_ENTRIES \<and>
    (\<forall>t v. ct \<le> t \<longrightarrow> fst (storage_add_meter_entry ct (log_entries ct ty xs) t ty v) = (47 \<le> length xs))"
proof -
  have h: "history (snd (storage_add_meter_entry ct db t ty v)) ty = snd (meter_add (history db ty) t v)"
    "fst (storage_add_meter_entry ct db t ty v) = fst (meter_add (history db ty) t v)" if "ct \<le> t" for db t v
    using assms(1) that by (auto simp: storage_add_meter_entry_def history_def case_prod_beta)
  have "meter_ok (history (log_entries ct ty xs) ty) xs"
    using assms(2)
  proof (induction xs rule: rev_induct)
    case Nil
    show ?case
      by (simp add: log_entries_def history_def factory_config_def meter_zero_def meter_ok_def)
  next
    case (snoc x xs)
    obtain t v where x: "x = (t, v)" by (cases x)
    with snoc have "meter_ok (history (log_entries ct ty xs) ty) xs" "ct \<le> t" by auto
    with meter_add_ok(1) [OF this(1), of t v] h(1) show ?case by (simp add: x log_entries_def)
  qed
  with meter_add_ok(2) [OF this] h(2) show ?thesis by (simp add: meter_ok_def Let_def)
qed

theorem meter_history_keeps_oldest_witness:
  "let m = history (log_entries 10 MEASTYPE_POWER_ACTIVE [(20, 5), (35, 6)]) MEASTYPE_POWER_ACTIVE in
   mt_len m = 2 \<and> take 2 (mt_entries m) = [5, 6] \<and> take 2 (mt_t_offset m) = [0, 15]"
  using meter_history_keeps_oldest [of MEASTYPE_POWER_ACTIVE "[(20, 5), (35, 6)]" 10]
  by (simp add: Let_def numeral_2_eq_2)

end
