(* ===== verification/EM_Tcp_Client.thy ===== *)
theory EM_Tcp_Client
  imports EM_Prelude
begin

section \<open>The TCP client (em\_tcp\_client/tcp\_client.c)\<close>

text \<open>
  Two tasks and three queues: the TX task takes commands from \<open>cmd_q\<close> and the buffers to send from
  \<open>send_q\<close>, the RX task takes its state from \<open>rx_q\<close> and hands what it reads to the framing protocol and the
  dispatcher. The two tasks, the senders, the scheduler and the event loop interleave; a step of the model is
  a section of one of them between two points where it can block, so the TX task has one step that takes a
  command (\<open>tx_task_take\<close>) and one that executes it (\<open>tx_task_run\<close>).

  A queue entry \<open>buffer_t\<close> is a copy of the pointer, not of the data: \<open>tc_heap\<close> holds the live objects by an
  address that is never used again, so that a use after \<open>free\<close> is a fault (\<open>OutOfBounds\<close>) and so is a second
  \<open>free\<close> (\<open>Undefined\<close>). The sockets, the resolver, the WiFi driver and the event loop are the fields
  of \<open>tcp_env\<close>; what the tasks do to the outside is an event. A send to a full queue waits for 10 ms; a step of the TX task in
  this time comes before the step of the sender in the model.
\<close>

abbreviation CMD_MSG_Q_MAX :: nat where "CMD_MSG_Q_MAX \<equiv> 8"
abbreviation TX_SEND_MSG_Q_MAX :: nat where "TX_SEND_MSG_Q_MAX \<equiv> 8"
abbreviation RX_STATE_MSG_Q_MAX :: nat where "RX_STATE_MSG_Q_MAX \<equiv> 3"
abbreviation RX_BUFFER_SIZE :: nat where "RX_BUFFER_SIZE \<equiv> 256"
abbreviation RX_TASK_SLEEPTIME_MS :: nat where "RX_TASK_SLEEPTIME_MS \<equiv> 500"
abbreviation RECONNECT_TIMEOUT_MS :: u32 where "RECONNECT_TIMEOUT_MS \<equiv> 5000"
abbreviation CONN_RANDOM_DELAY_MS :: u32 where "CONN_RANDOM_DELAY_MS \<equiv> 2000"

subsection \<open>Data\<close>

datatype connection_state_t = STATE_DISCONNECTED | STATE_CONNECTING | STATE_CONNECTED

datatype tcp_cmd_t = CMD_CONNECT | CMD_DISCONNECT | CMD_SEND | CMD_LONG_RECONNECTION_DELAY

datatype rx_task_state_t = TCP_RX_SUSPEND | TCP_RX_RESUME

datatype em_evt_tcp_client_t =
    EVENT_OFFLINE | EVENT_ONLINE | EVENT_AUTH | EVENT_CONN_ERROR | EVENT_RX_ERROR | EVENT_TX_ERROR
  | EVENT_AUTH_ERROR | EVENT_TX_STATUS

text \<open>\<open>tb_obj\<close> is the address of the object, \<open>None\<close> for \<open>NULL\<close>. A protocol callback yields its result and,
  where it sets \<open>*data_out\<close>, the memory there with \<open>*len_out\<close>; \<open>'d\<close> is its static data.\<close>

record tcp_buf =
  tb_obj :: "nat option"
  tb_len :: u16
  tb_dynamic :: bool

record ('d, 'e) tcp_client_api_t =
  msg_disp_cb :: "((bytes \<times> nat) option \<Rightarrow> (int \<times> 'e list) outcome) option"
  rx_net_proto_cb :: "('d \<Rightarrow> bytes \<Rightarrow> nat \<Rightarrow> (int \<times> (bytes \<times> nat) option \<times> 'd) outcome) option"
  tx_net_proto_cb :: "(bytes \<Rightarrow> nat \<Rightarrow> (int \<times> (bytes \<times> nat) option) outcome) option"

record 'd tcp_client =
  tc_conn_state :: connection_state_t
  tc_cmd_q :: "tcp_cmd_t list"
  tc_send_q :: "tcp_buf list"
  tc_rx_q :: "rx_task_state_t list"
  tc_cmd :: "tcp_cmd_t option"
  tc_conn_delay_offset_ms :: u32
  tc_task_state :: rx_task_state_t
  tc_state_duration :: "nat option"
  tc_proto :: 'd
  tc_heap :: "nat \<Rightarrow> bytes option"
  tc_next :: nat

record tcp_env =
  te_resolved :: bool
  te_connect :: int
  te_errno :: int
  te_wifi :: bool
  te_random :: u32
  te_write :: "bytes \<Rightarrow> int"
  te_poll :: int
  te_read :: "int \<times> bytes"
  te_post :: bool

datatype 'e tcp_event =
    Tcp_post em_evt_tcp_client_t int
  | Tcp_connected
  | Tcp_closed
  | Tcp_written bytes
  | Tcp_scheduled u32
  | Tcp_dispatched 'e

definition tcp_client_zero :: "'d \<Rightarrow> 'd tcp_client" where
  "tcp_client_zero d =
     \<lparr>tc_conn_state = STATE_DISCONNECTED, tc_cmd_q = [], tc_send_q = [], tc_rx_q = [], tc_cmd = None,
      tc_conn_delay_offset_ms = 1000, tc_task_state = TCP_RX_SUSPEND, tc_state_duration = None,
      tc_proto = d, tc_heap = Map.empty, tc_next = 0\<rparr>"

text \<open>\<open>xQueueSend\<close>, and \<open>ESP_ERROR_CHECK(esp_event_post(...))\<close>.\<close>

definition queue_send :: "nat \<Rightarrow> 'a list \<Rightarrow> 'a \<Rightarrow> 'a list option" where
  "queue_send cap q x = (if length q < cap then Some (q @ [x]) else None)"

definition post_event :: "tcp_env \<Rightarrow> em_evt_tcp_client_t \<Rightarrow> int \<Rightarrow> 'e tcp_event list outcome" where
  "post_event env evt v = c_assert (te_post env) (Inr [Tcp_post evt v])"

definition tcp_buffer_free :: "'d tcp_client \<Rightarrow> tcp_buf \<Rightarrow> 'd tcp_client outcome" where
  "tcp_buffer_free st buf =
     (case tb_obj buf of
        None \<Rightarrow> Inr st
      | Some a \<Rightarrow>
          if \<not> tb_dynamic buf then Inr st
          else if tc_heap st a = None then Inl Undefined
          else Inr (st\<lparr>tc_heap := (tc_heap st)(a := None)\<rparr>))"

subsection \<open>Commands\<close>

definition submit_tcp_client_disconnect :: "'d tcp_client \<Rightarrow> 'd tcp_client" where
  "submit_tcp_client_disconnect st = st\<lparr>tc_cmd_q := [CMD_DISCONNECT]\<rparr>"

definition submit_tcp_client_connect :: "'d tcp_client \<Rightarrow> 'd tcp_client" where
  "submit_tcp_client_connect st = st\<lparr>tc_cmd_q := [CMD_CONNECT]\<rparr>"

definition connect_handler :: "'d tcp_client \<Rightarrow> 'd tcp_client" where
  "connect_handler st = submit_tcp_client_connect st"

definition set_conn_state :: "'d tcp_client \<Rightarrow> connection_state_t \<Rightarrow> 'd tcp_client" where
  "set_conn_state st new_conn_state = st\<lparr>tc_conn_state := new_conn_state\<rparr>"

definition rx_q_send :: "'d tcp_client \<Rightarrow> rx_task_state_t \<Rightarrow> 'd tcp_client outcome" where
  "rx_q_send st state =
     (case queue_send RX_STATE_MSG_Q_MAX (tc_rx_q st) state of
        None \<Rightarrow> Inl Abort
      | Some q \<Rightarrow> Inr (st\<lparr>tc_rx_q := q\<rparr>))"

definition em_tcp_client_send :: "'d tcp_client \<Rightarrow> tcp_buf \<Rightarrow> (int \<times> 'd tcp_client) outcome" where
  "em_tcp_client_send st buf =
     (if tb_len buf = 0 then Inr (ESP_ERR_INVALID_SIZE, st)
      else
        c_assert (tb_obj buf \<noteq> None)
          (case queue_send TX_SEND_MSG_Q_MAX (tc_send_q st) buf of
             None \<Rightarrow> Inr (ESP_FAIL, st)
           | Some q \<Rightarrow>
               let st = st\<lparr>tc_send_q := q\<rparr> in
               case queue_send CMD_MSG_Q_MAX (tc_cmd_q st) CMD_SEND of
                 None \<Rightarrow> Inr (ESP_FAIL, st)
               | Some q \<Rightarrow> Inr (ESP_OK, st\<lparr>tc_cmd_q := q\<rparr>)))"

definition em_tcp_client_disconnect_panic :: "'d tcp_client \<Rightarrow> 'd tcp_client \<times> 'e tcp_event list" where
  "em_tcp_client_disconnect_panic st = (set_conn_state st STATE_DISCONNECTED, [Tcp_closed])"

definition em_tcp_client_set_long_reconnecting_delay :: "'d tcp_client \<Rightarrow> 'd tcp_client" where
  "em_tcp_client_set_long_reconnecting_delay st =
     (case queue_send CMD_MSG_Q_MAX (tc_cmd_q st) CMD_LONG_RECONNECTION_DELAY of
        None \<Rightarrow> st
      | Some q \<Rightarrow> st\<lparr>tc_cmd_q := q\<rparr>)"

definition ip_assigned_handler :: "u32 \<Rightarrow> 'e tcp_event list" where
  "ip_assigned_handler random = [Tcp_scheduled ((random AND CONN_RANDOM_DELAY_MS) + 1000)]"

definition wifi_disconnected_handler :: "'d tcp_client \<Rightarrow> 'd tcp_client outcome" where
  "wifi_disconnected_handler st =
     (if tc_conn_state st = STATE_DISCONNECTED then Inr st
      else rx_q_send (submit_tcp_client_disconnect st) TCP_RX_SUSPEND)"

subsection \<open>The TX task\<close>

definition open_conn_handler ::
  "tcp_env \<Rightarrow> 'd tcp_client \<Rightarrow> (int \<times> 'd tcp_client \<times> 'e tcp_event list) outcome" where
  "open_conn_handler env st =
     (if \<not> te_resolved env then Inr (ESP_FAIL, st, [])
      else if te_connect env \<noteq> 0 then Inr (te_connect env, st, [])
      else obind (rx_q_send st TCP_RX_RESUME) (\<lambda>st. Inr (ESP_OK, st, [Tcp_connected])))"

text \<open>\<open>esp_transport_write\<close> takes some bytes of what is left, or fails.\<close>

function write_loop :: "(bytes \<Rightarrow> int) \<Rightarrow> bytes \<Rightarrow> int \<times> 'e tcp_event list" where
  "write_loop wr data =
     (if data = [] then (ESP_OK, [])
      else
        let wlen = wr data in
        if wlen \<le> 0 then (ESP_FAIL, [])
        else
          let (ret, evs) = write_loop wr (drop (nat wlen) data) in
          (ret, Tcp_written (take (nat wlen) data) # evs))"
  by pat_completeness auto
termination by (relation "measure (\<lambda>(wr, data). length data)") auto

declare write_loop.simps [simp del]

text \<open>\<open>transmit\<close> is the end of \<open>send_handler\<close>, after the buffer is freed.\<close>

definition transmit :: "tcp_env \<Rightarrow> (bytes \<times> nat) option \<Rightarrow> (int \<times> 'e tcp_event list) outcome" where
  "transmit env out =
     (let out_len = (case out of None \<Rightarrow> 0 | Some (mem, n) \<Rightarrow> n) in
      c_assert (int out_len \<le> 2 ^ 31 - 1 \<and> 0 < out_len)
       (case out of
          None \<Rightarrow> Inl Abort
        | Some (data_out, n) \<Rightarrow>
            if length data_out < n then Inl OutOfBounds
            else Inr (write_loop (te_write env) (take n data_out))))"

definition send_handler ::
  "tcp_env \<Rightarrow> ('d, 'e) tcp_client_api_t \<Rightarrow> 'd tcp_client \<Rightarrow> (int \<times> 'd tcp_client \<times> 'e tcp_event list) outcome" where
  "send_handler env api st =
     (case tc_send_q st of
        [] \<Rightarrow> Inr (ESP_ERR_NOT_FOUND, st, [])
      | buf # q \<Rightarrow>
          let st = st\<lparr>tc_send_q := q\<rparr> in
          if tc_conn_state st \<noteq> STATE_CONNECTED then
            obind (tcp_buffer_free st buf) (\<lambda>st. Inr (ESP_FAIL, st, []))
          else if tb_len buf = 0 then
            obind (tcp_buffer_free st buf) (\<lambda>st. Inr (ESP_ERR_INVALID_SIZE, st, []))
          else
            case tx_net_proto_cb api of
              Some encode \<Rightarrow>
                (case Option.bind (tb_obj buf) (tc_heap st) of
                   None \<Rightarrow> Inl OutOfBounds
                 | Some data \<Rightarrow>
                     obind (encode data (unat (tb_len buf))) (\<lambda>(ret, out).
                       obind (tcp_buffer_free st buf) (\<lambda>st.
                         if ret \<noteq> ESP_OK then Inr (ret, st, [])
                         else obind (transmit env out) (\<lambda>(ret, evs). Inr (ret, st, evs)))))
            | None \<Rightarrow>
                obind (tcp_buffer_free st buf) (\<lambda>st.
                  case Option.bind (tb_obj buf) (tc_heap st) of
                    None \<Rightarrow> Inl OutOfBounds
                  | Some data \<Rightarrow>
                      obind (transmit env (Some (data, unat (tb_len buf)))) (\<lambda>(ret, evs). Inr (ret, st, evs))))"

definition tx_task_take :: "'d tcp_client \<Rightarrow> 'd tcp_client" where
  "tx_task_take st =
     (case (tc_cmd st, tc_cmd_q st) of
        (None, cmd # q) \<Rightarrow>
          let st = st\<lparr>tc_cmd := Some cmd, tc_cmd_q := q\<rparr> in
          if cmd = CMD_CONNECT then set_conn_state st STATE_CONNECTING else st
      | _ \<Rightarrow> st)"

definition tx_connect ::
  "tcp_env \<Rightarrow> 'd tcp_client \<Rightarrow> ('d tcp_client \<times> 'e tcp_event list) outcome" where
  "tx_connect env st =
     obind (open_conn_handler env st) (\<lambda>(ret, st, evs).
       if ret \<noteq> 0 then
         obind (post_event env EVENT_CONN_ERROR (te_errno env)) (\<lambda>ev.
           Inr (submit_tcp_client_disconnect st, evs @ ev))
       else
         obind (post_event env EVENT_ONLINE 0) (\<lambda>ev.
           Inr (set_conn_state (st\<lparr>tc_conn_delay_offset_ms := 1000\<rparr>) STATE_CONNECTED, evs @ ev)))"

definition tx_disconnect ::
  "tcp_env \<Rightarrow> 'd tcp_client \<Rightarrow> ('d tcp_client \<times> 'e tcp_event list) outcome" where
  "tx_disconnect env st =
     (let rand_ms = (te_random env AND CONN_RANDOM_DELAY_MS) + tc_conn_delay_offset_ms st in
      obind (post_event env EVENT_OFFLINE 0) (\<lambda>ev.
        Inr (set_conn_state st STATE_DISCONNECTED,
             Tcp_closed # (if te_wifi env then [Tcp_scheduled (RECONNECT_TIMEOUT_MS + rand_ms)] else []) @ ev)))"

definition tx_send ::
  "tcp_env \<Rightarrow> ('d, 'e) tcp_client_api_t \<Rightarrow> 'd tcp_client \<Rightarrow> ('d tcp_client \<times> 'e tcp_event list) outcome" where
  "tx_send env api st =
     obind (send_handler env api st) (\<lambda>(ret, st, evs).
       let err_code = (if ret = ESP_FAIL then te_errno env else ret);
           st = (if ret = ESP_FAIL then submit_tcp_client_disconnect st else st) in
       obind (if ret = ESP_FAIL then post_event env EVENT_TX_ERROR (te_errno env) else Inr []) (\<lambda>ev.
         obind (post_event env EVENT_TX_STATUS err_code) (\<lambda>ev'. Inr (st, evs @ ev @ ev'))))"

definition tx_task_run ::
  "tcp_env \<Rightarrow> ('d, 'e) tcp_client_api_t \<Rightarrow> 'd tcp_client \<Rightarrow> ('d tcp_client \<times> 'e tcp_event list) outcome" where
  "tx_task_run env api st =
     (case tc_cmd st of
        None \<Rightarrow> Inr (st, [])
      | Some cmd \<Rightarrow>
          let st = st\<lparr>tc_cmd := None\<rparr> in
          case cmd of
            CMD_CONNECT \<Rightarrow> tx_connect env st
          | CMD_DISCONNECT \<Rightarrow> tx_disconnect env st
          | CMD_SEND \<Rightarrow> tx_send env api st
          | CMD_LONG_RECONNECTION_DELAY \<Rightarrow> Inr (st\<lparr>tc_conn_delay_offset_ms := 3600000\<rparr>, []))"

subsection \<open>The RX task\<close>

definition rx_error :: "tcp_env \<Rightarrow> 'd tcp_client \<Rightarrow> ('d tcp_client \<times> 'e tcp_event list) outcome" where
  "rx_error env st =
     obind (post_event env EVENT_RX_ERROR (te_errno env)) (\<lambda>ev.
       Inr ((submit_tcp_client_disconnect st)\<lparr>tc_state_duration := None\<rparr>, ev))"

text \<open>\<open>rx_data\<close>: what happens to the bytes that were read.\<close>

definition rx_data ::
  "('d, 'e) tcp_client_api_t \<Rightarrow> 'd tcp_client \<Rightarrow> bytes \<Rightarrow> nat \<Rightarrow> ('d tcp_client \<times> 'e tcp_event list) outcome" where
  "rx_data api st rx_buffer rx_len =
     obind (case rx_net_proto_cb api of
              None \<Rightarrow> Inr (ESP_OK, Some (rx_buffer, rx_len), tc_proto st)
            | Some decoder \<Rightarrow> decoder (tc_proto st) rx_buffer rx_len) (\<lambda>(ret, out, d).
       let st = st\<lparr>tc_proto := d\<rparr> in
       if ret \<noteq> 0 then Inr (st, [])
       else
         case msg_disp_cb api of
           None \<Rightarrow> Inr (st, [])
         | Some disp \<Rightarrow> obind (disp out) (\<lambda>(ret, evs). Inr (st, List.map Tcp_dispatched evs)))"

definition rx_task_round_tcp ::
  "tcp_env \<Rightarrow> ('d, 'e) tcp_client_api_t \<Rightarrow> 'd tcp_client \<Rightarrow> ('d tcp_client \<times> 'e tcp_event list) outcome" where
  "rx_task_round_tcp env api st =
     (if tc_rx_q st = [] \<and> tc_state_duration st = None then Inr (st, [])
      else
        let st = (case tc_rx_q st of [] \<Rightarrow> st | s # q \<Rightarrow> st\<lparr>tc_task_state := s, tc_rx_q := q\<rparr>) in
        if tc_task_state st = TCP_RX_SUSPEND then Inr (st\<lparr>tc_state_duration := None\<rparr>, [])
        else if te_poll env = 0 then Inr (st\<lparr>tc_state_duration := Some RX_TASK_SLEEPTIME_MS\<rparr>, [])
        else if te_poll env = - 1 then rx_error env st
        else
          let (rx_len, got) = te_read env in
          if rx_len \<le> 0 then rx_error env st
          else
            rx_data api (st\<lparr>tc_state_duration := Some 0\<rparr>)
              (overwrite (replicate RX_BUFFER_SIZE 0) 0 got) (nat rx_len))"

subsection \<open>Messages and interleavings\<close>

text \<open>
  \<open>tcp_send_message\<close> is a sender of \<open>em_tcp_protocol\<close> with \<open>em_tcp_client_send\<close> as its transmit handler:
  \<open>buffer_dynamic_alloc\<close> and \<open>send_data\<close>, which frees the buffer when the handler reports an error.
\<close>

definition tcp_send_message :: "'d tcp_client \<Rightarrow> bytes \<Rightarrow> 'd tcp_client outcome" where
  "tcp_send_message st msg =
     (let buf = \<lparr>tb_obj = Some (tc_next st), tb_len = word_of_nat (length msg), tb_dynamic = True\<rparr>;
          st = st\<lparr>tc_heap := (tc_heap st)(tc_next st \<mapsto> msg), tc_next := Suc (tc_next st)\<rparr> in
      obind (em_tcp_client_send st buf) (\<lambda>(ret, st).
        if ret \<noteq> ESP_OK then tcp_buffer_free st buf else Inr st))"

datatype tcp_op =
    Op_send bytes
  | Op_connect_timer
  | Op_got_ip u32
  | Op_wifi_lost
  | Op_long_delay
  | Op_panic
  | Op_tx_take
  | Op_tx_run tcp_env
  | Op_rx tcp_env

fun tcp_step ::
  "('d, 'e) tcp_client_api_t \<Rightarrow> 'd tcp_client \<Rightarrow> tcp_op \<Rightarrow> ('d tcp_client \<times> 'e tcp_event list) outcome" where
  "tcp_step api st (Op_send msg) = obind (tcp_send_message st msg) (\<lambda>st. Inr (st, []))"
| "tcp_step api st Op_connect_timer = Inr (connect_handler st, [])"
| "tcp_step api st (Op_got_ip r) = Inr (st, ip_assigned_handler r)"
| "tcp_step api st Op_wifi_lost = obind (wifi_disconnected_handler st) (\<lambda>st. Inr (st, []))"
| "tcp_step api st Op_long_delay = Inr (em_tcp_client_set_long_reconnecting_delay st, [])"
| "tcp_step api st Op_panic = Inr (em_tcp_client_disconnect_panic st)"
| "tcp_step api st Op_tx_take = Inr (tx_task_take st, [])"
| "tcp_step api st (Op_tx_run env) = tx_task_run env api st"
| "tcp_step api st (Op_rx env) = rx_task_round_tcp env api st"

fun tcp_run ::
  "('d, 'e) tcp_client_api_t \<Rightarrow> 'd tcp_client \<Rightarrow> tcp_op list \<Rightarrow> ('d tcp_client \<times> 'e tcp_event list) outcome" where
  "tcp_run api st [] = Inr (st, [])"
| "tcp_run api st (op # ops) =
     obind (tcp_step api st op) (\<lambda>(st, evs).
     obind (tcp_run api st ops) (\<lambda>(st, evs'). Inr (st, evs @ evs')))"

end
