(* ===== verification/EM_Tcp_Props.thy ===== *)
theory EM_Tcp_Props
  imports EM_Tcp_Client
begin

section \<open>The queues and buffers of the TCP client\<close>

text \<open>
  The TX task sends one buffer per \<open>CMD_SEND\<close>. \<open>tcp_inv\<close> says that no command is without its buffer;
  the surplus of buffers, \<open>tc_backlog\<close>, can only grow. \<open>bufs_ok\<close> says that the queued buffers are live and
  distinct.
\<close>

named_theorems tcp_defs "the operations that only touch the queues and the states"

definition sends_pending :: "'d tcp_client \<Rightarrow> nat" where
  "sends_pending st = count_list (tc_cmd_q st) CMD_SEND + (if tc_cmd st = Some CMD_SEND then 1 else 0)"

definition tcp_inv :: "'d tcp_client \<Rightarrow> bool" where
  "tcp_inv st \<longleftrightarrow> sends_pending st \<le> length (tc_send_q st) \<and> length (tc_cmd_q st) \<le> CMD_MSG_Q_MAX \<and>
     length (tc_send_q st) \<le> TX_SEND_MSG_Q_MAX \<and> length (tc_rx_q st) \<le> RX_STATE_MSG_Q_MAX"

definition tc_backlog :: "'d tcp_client \<Rightarrow> nat" where
  "tc_backlog st = length (tc_send_q st) - sends_pending st"

lemma tcp_inv_zero: "tcp_inv (tcp_client_zero d)"
  by (simp add: tcp_inv_def tcp_client_zero_def sends_pending_def)

text \<open>What the invariant and the backlog depend on.\<close>

definition same_queues :: "'d tcp_client \<Rightarrow> 'd tcp_client \<Rightarrow> bool" where
  "same_queues st st' \<longleftrightarrow> tc_cmd_q st' = tc_cmd_q st \<and> tc_send_q st' = tc_send_q st \<and>
     tc_rx_q st' = tc_rx_q st \<and> tc_cmd st' = tc_cmd st"

definition step_keeps :: "'d tcp_client \<Rightarrow> 'd tcp_client \<Rightarrow> bool" where
  "step_keeps st st' \<longleftrightarrow> tcp_inv st \<longrightarrow> tcp_inv st' \<and> tc_backlog st \<le> tc_backlog st'"

lemma step_keeps_refl [simp]: "step_keeps st st"
  by (simp add: step_keeps_def)

lemma step_keeps_trans: "step_keeps st st1 \<Longrightarrow> step_keeps st1 st2 \<Longrightarrow> step_keeps st st2"
  by (auto simp: step_keeps_def)

lemma same_queues_keeps: "same_queues st st' \<Longrightarrow> step_keeps st st'"
  by (simp add: step_keeps_def same_queues_def tcp_inv_def tc_backlog_def sends_pending_def)

lemma free_queues: "tcp_buffer_free st buf = Inr st' \<Longrightarrow> same_queues st st'"
  by (auto simp: tcp_buffer_free_def same_queues_def split: option.splits if_splits)

lemma reset_keeps:
  "cmd \<noteq> CMD_SEND \<Longrightarrow> step_keeps st (st\<lparr>tc_cmd_q := [cmd]\<rparr>)"
  by (auto simp: step_keeps_def tcp_inv_def tc_backlog_def sends_pending_def)

lemmas submit_keeps =
  reset_keeps [of CMD_DISCONNECT, folded submit_tcp_client_disconnect_def, simplified]
  reset_keeps [of CMD_CONNECT, folded submit_tcp_client_connect_def, simplified]

lemma rx_q_send_keeps: "rx_q_send st s = Inr st' \<Longrightarrow> step_keeps st st'"
  by (auto simp: rx_q_send_def queue_send_def step_keeps_def tcp_inv_def tc_backlog_def sends_pending_def
      split: option.splits if_splits)

lemma send_keeps: "em_tcp_client_send st buf = Inr (ret, st') \<Longrightarrow> step_keeps st st'"
  by (auto simp: em_tcp_client_send_def queue_send_def step_keeps_def tcp_inv_def tc_backlog_def
      sends_pending_def Let_def split: option.splits if_splits)

lemma send_message_keeps: "tcp_send_message st msg = Inr st' \<Longrightarrow> step_keeps st st'"
proof -
  let ?st = "st\<lparr>tc_heap := (tc_heap st)(tc_next st \<mapsto> msg), tc_next := Suc (tc_next st)\<rparr>"
  assume "tcp_send_message st msg = Inr st'"
  then obtain ret st1 buf where "em_tcp_client_send ?st buf = Inr (ret, st1)"
    "st' = st1 \<or> tcp_buffer_free st1 buf = Inr st'"
    by (fastforce simp: tcp_send_message_def Let_def obind_Inr_iff split: if_splits)
  then have "step_keeps ?st st1" "st' = st1 \<or> step_keeps st1 st'"
    by (auto intro: send_keeps same_queues_keeps free_queues)
  moreover have "step_keeps st ?st" by (simp add: same_queues_keeps same_queues_def)
  ultimately show "step_keeps st st'" using step_keeps_trans by metis
qed

text \<open>\<open>send_handler\<close> takes one buffer and leaves the other queues.\<close>

lemma send_handler_queues:
  "send_handler env api st = Inr (ret, st', evs) \<Longrightarrow>
   same_queues (st\<lparr>tc_send_q := tl (tc_send_q st)\<rparr>) st'"
  by (cases "tc_send_q st")
    (auto simp: send_handler_def Let_def obind_Inr_iff same_queues_def dest!: free_queues
      split: option.splits if_splits)

lemma tx_take_keeps: "step_keeps st (tx_task_take st)"
  by (auto simp: tx_task_take_def set_conn_state_def Let_def step_keeps_def tcp_inv_def tc_backlog_def
      sends_pending_def split: option.splits list.splits)

lemma tx_connect_keeps: "tx_connect env st = Inr (st', evs) \<Longrightarrow> step_keeps st st'"
proof -
  have eq: "step_keeps st1 (set_conn_state (st1\<lparr>tc_conn_delay_offset_ms := d\<rparr>) c)" for st1 :: "'a tcp_client" and d c
    by (rule same_queues_keeps) (simp add: same_queues_def set_conn_state_def)
  assume "tx_connect env st = Inr (st', evs)"
  then obtain st1 where "st1 = st \<or> rx_q_send st TCP_RX_RESUME = Inr st1"
    "st' = submit_tcp_client_disconnect st1 \<or>
     st' = set_conn_state (st1\<lparr>tc_conn_delay_offset_ms := 1000\<rparr>) STATE_CONNECTED"
    by (fastforce simp: tx_connect_def open_conn_handler_def obind_Inr_iff split: if_splits)
  moreover from this(1) have "step_keeps st st1" using rx_q_send_keeps by auto
  ultimately show ?thesis using submit_keeps(1) [of st1] eq [of st1] step_keeps_trans by blast
qed

lemma tx_send_keeps:
  assumes "tx_send env api (st\<lparr>tc_cmd := None\<rparr>) = Inr (st', evs)" "tc_cmd st = Some CMD_SEND"
  shows "step_keeps st st'"
proof -
  let ?st = "st\<lparr>tc_cmd := None\<rparr>"
  obtain ret st1 evs1 where h: "send_handler env api ?st = Inr (ret, st1, evs1)"
    and st': "st' = st1 \<or> st' = submit_tcp_client_disconnect st1"
    using assms(1) by (fastforce simp: tx_send_def obind_Inr_iff Let_def split: if_splits)
  have "step_keeps st st1"
    using send_handler_queues [OF h] assms(2)
    by (auto simp: same_queues_def step_keeps_def tcp_inv_def tc_backlog_def sends_pending_def)
  then show ?thesis using st' submit_keeps(1) step_keeps_trans by blast
qed

lemma tx_run_keeps: "tx_task_run env api st = Inr (st', evs) \<Longrightarrow> step_keeps st st'"
proof (cases "tc_cmd st")
  case (Some cmd)
  have none: "step_keeps st (st\<lparr>tc_cmd := None\<rparr>)" if "cmd \<noteq> CMD_SEND"
    using that Some by (auto simp: step_keeps_def tcp_inv_def tc_backlog_def sends_pending_def)
  assume run: "tx_task_run env api st = Inr (st', evs)"
  show ?thesis
  proof (cases cmd)
    case CMD_CONNECT
    then have "step_keeps (st\<lparr>tc_cmd := None\<rparr>) st'" using run Some by (auto simp: tx_task_run_def intro: tx_connect_keeps)
    with none CMD_CONNECT show ?thesis using step_keeps_trans by blast
  next
    case CMD_SEND
    then show ?thesis using run Some tx_send_keeps by (auto simp: tx_task_run_def)
  qed (use run Some in \<open>auto simp: tx_task_run_def tx_disconnect_def set_conn_state_def Let_def obind_Inr_iff
      step_keeps_def tcp_inv_def tc_backlog_def sends_pending_def\<close>)
qed (simp add: tx_task_run_def)

text \<open>The RX task takes from \<open>rx_q\<close> and, on an error, replaces the commands.\<close>

definition rx_queues :: "'d tcp_client \<Rightarrow> 'd tcp_client \<Rightarrow> bool" where
  "rx_queues st st' \<longleftrightarrow> tc_send_q st' = tc_send_q st \<and> tc_cmd st' = tc_cmd st \<and>
     tc_rx_q st' = tc_rx_q st \<and> tc_cmd_q st' \<in> {tc_cmd_q st, [CMD_DISCONNECT]} \<and>
     tc_heap st' = tc_heap st \<and> tc_next st' = tc_next st"

lemma rx_data_queues: "rx_data api st buf n = Inr (st', evs) \<Longrightarrow> rx_queues st st'"
  by (auto simp: rx_data_def rx_queues_def obind_Inr_iff Let_def split: option.splits if_splits)

lemma rx_error_queues: "rx_error env st = Inr (st', evs) \<Longrightarrow> rx_queues st st'"
  by (auto simp: rx_error_def submit_tcp_client_disconnect_def rx_queues_def obind_Inr_iff)

definition rx_take :: "'d tcp_client \<Rightarrow> 'd tcp_client" where
  "rx_take st = (case tc_rx_q st of [] \<Rightarrow> st | s # q \<Rightarrow> st\<lparr>tc_task_state := s, tc_rx_q := q\<rparr>)"

lemma rx_round_queues:
  assumes "rx_task_round_tcp env api st = Inr (st', evs)"
  shows "st' = st \<or> rx_queues (rx_take st) st'"
proof (cases "tc_rx_q st = [] \<and> tc_state_duration st = None")
  case False
  have dur: "rx_queues s (s\<lparr>tc_state_duration := d\<rparr>)" for s :: "'a tcp_client" and d
    by (simp add: rx_queues_def)
  have tr: "rx_queues (s\<lparr>tc_state_duration := d\<rparr>) s' \<Longrightarrow> rx_queues s s'" for s s' :: "'a tcp_client" and d
    by (simp add: rx_queues_def)
  obtain rx_len got where rd: "te_read env = (rx_len, got)" by (cases "te_read env")
  from assms [unfolded rx_task_round_tcp_def rx_take_def [symmetric] Let_def rd if_not_P [OF False] prod.case]
  show ?thesis using rx_data_queues rx_error_queues dur tr
    by (simp split: if_splits) blast+
qed (use assms in \<open>simp add: rx_task_round_tcp_def\<close>)

lemma rx_queues_keeps: "rx_queues st st' \<Longrightarrow> step_keeps st st'"
  by (auto simp: rx_queues_def step_keeps_def tcp_inv_def tc_backlog_def sends_pending_def)

lemma rx_take_keeps: "step_keeps st (rx_take st)"
  by (auto simp: rx_take_def step_keeps_def tcp_inv_def tc_backlog_def sends_pending_def split: list.splits)

lemma rx_keeps: "rx_task_round_tcp env api st = Inr (st', evs) \<Longrightarrow> step_keeps st st'"
  using rx_round_queues rx_queues_keeps rx_take_keeps step_keeps_trans step_keeps_refl by metis

lemma tcp_step_keeps: "tcp_step api st op = Inr (st', evs) \<Longrightarrow> step_keeps st st'"
proof (cases op)
  case Op_wifi_lost
  moreover assume "tcp_step api st op = Inr (st', evs)"
  ultimately have "st' = st \<or> rx_q_send (submit_tcp_client_disconnect st) TCP_RX_SUSPEND = Inr st'"
    by (auto simp: wifi_disconnected_handler_def obind_Inr_iff split: if_splits)
  then show ?thesis using submit_keeps(1) rx_q_send_keeps step_keeps_trans step_keeps_refl by blast
next
  case Op_long_delay
  moreover assume "tcp_step api st op = Inr (st', evs)"
  ultimately show ?thesis
    by (auto simp: em_tcp_client_set_long_reconnecting_delay_def queue_send_def step_keeps_def tcp_inv_def
        tc_backlog_def sends_pending_def split: option.splits if_splits)
qed (auto simp: connect_handler_def em_tcp_client_disconnect_panic_def set_conn_state_def obind_Inr_iff
    same_queues_def intro: send_message_keeps submit_keeps tx_take_keeps tx_run_keeps rx_keeps same_queues_keeps)

lemma tcp_run_keeps: "tcp_run api st ops = Inr (st', evs) \<Longrightarrow> step_keeps st st'"
proof (induction ops arbitrary: st evs)
  case (Cons op ops)
  then obtain st1 evs1 evs2 where "tcp_step api st op = Inr (st1, evs1)" "tcp_run api st1 ops = Inr (st', evs2)"
    by (auto simp: obind_Inr_iff)
  then show ?case using Cons.IH tcp_step_keeps step_keeps_trans by blast
qed simp

subsection \<open>The backlog\<close>

text \<open>C6. The surplus of queued buffers over the \<open>CMD_SEND\<close> commands never shrinks, whatever the tasks do: a reset of
  the command queue drops commands and leaves their buffers. Once the surplus is 8 the
  send queue stays full and \<open>em_tcp_client_send\<close> fails for every message from then on.\<close>

theorem tcp_backlog_never_drains:
  assumes "tcp_inv st" "tcp_run api st ops = Inr (st', evs)"
  shows "tcp_inv st' \<and> tc_backlog st \<le> tc_backlog st' \<and>
    (tc_backlog st = TX_SEND_MSG_Q_MAX \<longrightarrow>
      (\<forall>buf. tb_len buf \<noteq> 0 \<and> tb_obj buf \<noteq> None \<longrightarrow> em_tcp_client_send st' buf = Inr (ESP_FAIL, st')))"
proof -
  have inv: "tcp_inv st'" "tc_backlog st \<le> tc_backlog st'"
    using tcp_run_keeps [OF assms(2)] assms(1) by (auto simp: step_keeps_def)
  have "length (tc_send_q st') = TX_SEND_MSG_Q_MAX" if "tc_backlog st = TX_SEND_MSG_Q_MAX"
    using inv that by (auto simp: tc_backlog_def tcp_inv_def)
  with inv show ?thesis by (auto simp: em_tcp_client_send_def queue_send_def)
qed

lemmas tcp_eval = tcp_client_zero_def tcp_send_message_def em_tcp_client_send_def queue_send_def connect_handler_def
  submit_tcp_client_connect_def submit_tcp_client_disconnect_def tx_task_take_def tx_task_run_def tx_connect_def
  open_conn_handler_def rx_q_send_def tx_disconnect_def tx_send_def send_handler_def tcp_buffer_free_def
  wifi_disconnected_handler_def post_event_def set_conn_state_def Let_def

definition env_ok :: tcp_env where
  "env_ok = \<lparr>te_resolved = True, te_connect = 0, te_errno = 0, te_wifi = True, te_random = 0,
             te_write = (\<lambda>bs. int (length bs)), te_poll = 0, te_read = (0, []), te_post = True\<rparr>"

theorem tcp_backlog_never_drains_witness:
  "\<forall>(api :: (nat, nat) tcp_client_api_t) d. \<exists>st. tcp_run api (tcp_client_zero d) (replicate 8 (Op_send [1]) @ [Op_connect_timer]) = Inr (st, []) \<and>
     tcp_inv st \<and> tc_backlog st = 8 \<and>
     (\<exists>st'. tcp_run api st [Op_tx_take, Op_tx_run env_ok] = Inr (st', [Tcp_connected, Tcp_post EVENT_ONLINE 0]) \<and>
        em_tcp_client_send st' \<lparr>tb_obj = Some 9, tb_len = 1, tb_dynamic = True\<rparr> = Inr (ESP_FAIL, st'))"
proof (intro allI, goal_cases)
  case (1 api d)
  obtain st where st: "tcp_run api (tcp_client_zero d) (replicate 8 (Op_send [1]) @ [Op_connect_timer]) = Inr (st, [])"
    "tc_backlog st = 8" "tcp_inv st"
    "\<exists>st'. tcp_run api st [Op_tx_take, Op_tx_run env_ok] = Inr (st', [Tcp_connected, Tcp_post EVENT_ONLINE 0])"
    by (simp add: tcp_eval numeral_eq_Suc tc_backlog_def sends_pending_def tcp_inv_def env_ok_def)
  then obtain st' where "tcp_run api st [Op_tx_take, Op_tx_run env_ok] = Inr (st', [Tcp_connected, Tcp_post EVENT_ONLINE 0])" by blast
  with tcp_backlog_never_drains [OF st(3) this] st show ?case
    by (intro exI [of _ st]) auto
qed

subsection \<open>The buffers\<close>

definition buf_ok :: "'d tcp_client \<Rightarrow> tcp_buf \<Rightarrow> bool" where
  "buf_ok st buf \<longleftrightarrow> (\<exists>a d. tb_obj buf = Some a \<and> tc_heap st a = Some d \<and> unat (tb_len buf) \<le> length d)"

definition bufs_ok :: "'d tcp_client \<Rightarrow> bool" where
  "bufs_ok st \<longleftrightarrow> (\<forall>buf\<in>set (tc_send_q st). buf_ok st buf) \<and> distinct (List.map tb_obj (tc_send_q st)) \<and>
     (\<forall>a. tc_heap st a \<noteq> None \<longrightarrow> a < tc_next st)"

text \<open>\<open>drops_queued st op\<close>: a message whose buffer goes into the send queue while its command finds the command queue full.\<close>

definition drops_queued :: "'d tcp_client \<Rightarrow> tcp_op \<Rightarrow> bool" where
  "drops_queued st op \<longleftrightarrow> (case op of
     Op_send msg \<Rightarrow> (word_of_nat (length msg) :: u16) \<noteq> 0 \<and> length (tc_send_q st) < TX_SEND_MSG_Q_MAX \<and>
       CMD_MSG_Q_MAX \<le> length (tc_cmd_q st)
   | _ \<Rightarrow> False)"

text \<open>What the client needs of the framing protocol.\<close>

definition encoder_ok :: "('d, 'e) tcp_client_api_t \<Rightarrow> bool" where
  "encoder_ok api \<longleftrightarrow> (\<exists>enc. tx_net_proto_cb api = Some enc \<and>
     (\<forall>data n. n \<le> length data \<longrightarrow> (case enc data n of
        Inl e \<Rightarrow> e = Abort
      | Inr (ret, out) \<Rightarrow> (\<forall>mem k. out = Some (mem, k) \<longrightarrow> k \<le> length mem))))"

lemma bufs_ok_zero: "bufs_ok (tcp_client_zero d)"
  by (simp add: bufs_ok_def tcp_client_zero_def)

text \<open>\<open>bufs_ok\<close> looks at the send queue and the heap.\<close>

lemma bufs_ok_cong:
  "tc_send_q st' = tc_send_q st \<Longrightarrow> tc_heap st' = tc_heap st \<Longrightarrow> tc_next st' = tc_next st \<Longrightarrow> bufs_ok st' \<longleftrightarrow> bufs_ok st"
  by (simp add: bufs_ok_def buf_ok_def)

lemma post_event_abort: "post_event env evt v = Inl e \<Longrightarrow> e = Abort"
  by (auto simp: post_event_def c_assert_def split: if_splits)

lemma rx_q_send_cases:
  "(rx_q_send st s = Inl e \<Longrightarrow> e = Abort)"
  "rx_q_send st s = Inr st' \<Longrightarrow> tc_send_q st' = tc_send_q st \<and> tc_heap st' = tc_heap st \<and> tc_next st' = tc_next st"
  by (auto simp: rx_q_send_def split: option.splits)

text \<open>Taking a buffer out of the queue and freeing it.\<close>

lemma free_head:
  assumes "bufs_ok st" "tc_send_q st = buf # q"
  shows "\<exists>st1. tcp_buffer_free (st\<lparr>tc_send_q := q\<rparr>) buf = Inr st1 \<and> bufs_ok st1"
proof -
  obtain a d where a: "tb_obj buf = Some a" "tc_heap st a = Some d"
    using assms by (auto simp: bufs_ok_def buf_ok_def)
  have live: "buf_ok (st\<lparr>tc_send_q := q, tc_heap := (tc_heap st)(a := None)\<rparr>) b" if "b \<in> set q" for b
  proof -
    from that assms obtain a' d' where b: "tb_obj b = Some a'" "tc_heap st a' = Some d'" "unat (tb_len b) \<le> length d'"
      by (auto simp: bufs_ok_def buf_ok_def)
    moreover have "a' \<noteq> a"
    proof
      assume "a' = a"
      then have "tb_obj b = tb_obj buf" using a b by simp
      then have "tb_obj buf \<in> tb_obj ` set q" using that by (metis imageI)
      then show False using assms by (simp add: bufs_ok_def)
    qed
    ultimately show ?thesis by (simp add: buf_ok_def)
  qed
  show ?thesis
  proof (cases "tb_dynamic buf")
    case True
    then have "tcp_buffer_free (st\<lparr>tc_send_q := q\<rparr>) buf = Inr (st\<lparr>tc_send_q := q, tc_heap := (tc_heap st)(a := None)\<rparr>)"
      using a by (simp add: tcp_buffer_free_def)
    moreover have "bufs_ok (st\<lparr>tc_send_q := q, tc_heap := (tc_heap st)(a := None)\<rparr>)"
      using assms live by (auto simp: bufs_ok_def)
    ultimately show ?thesis by blast
  next
    case False
    then have "tcp_buffer_free (st\<lparr>tc_send_q := q\<rparr>) buf = Inr (st\<lparr>tc_send_q := q\<rparr>)"
      using a by (simp add: tcp_buffer_free_def)
    moreover have "bufs_ok (st\<lparr>tc_send_q := q\<rparr>)"
      using assms by (simp add: bufs_ok_def buf_ok_def)
    ultimately show ?thesis by blast
  qed
qed

lemma transmit_safe:
  assumes "\<forall>mem k. out = Some (mem, k) \<longrightarrow> k \<le> length mem" "transmit env out = Inl e"
  shows "e = Abort"
  using assms by (cases out) (auto simp: transmit_def c_assert_def Let_def split: if_splits)

lemma send_handler_safe:
  assumes "bufs_ok st" "encoder_ok api"
  shows "(send_handler env api st = Inl e \<longrightarrow> e = Abort) \<and>
    (send_handler env api st = Inr (ret, st', evs) \<longrightarrow> bufs_ok st')"
proof (cases "tc_send_q st")
  case (Cons buf q)
  obtain st1 where st1: "tcp_buffer_free (st\<lparr>tc_send_q := q\<rparr>) buf = Inr st1" "bufs_ok st1"
    using free_head [OF assms(1) Cons] by blast
  obtain a d where a: "tb_obj buf = Some a" "tc_heap st a = Some d" "unat (tb_len buf) \<le> length d"
    using assms(1) Cons by (auto simp: bufs_ok_def buf_ok_def)
  obtain enc where enc: "tx_net_proto_cb api = Some enc"
    "case enc d (unat (tb_len buf)) of Inl e \<Rightarrow> e = Abort
      | Inr (ret, out) \<Rightarrow> (\<forall>mem k. out = Some (mem, k) \<longrightarrow> k \<le> length mem)"
    using assms(2) a(3) unfolding encoder_ok_def by blast
  show ?thesis
  proof (cases "tc_conn_state st \<noteq> STATE_CONNECTED \<or> tb_len buf = 0")
    case True
    then show ?thesis using st1 Cons by (auto simp: send_handler_def Let_def)
  next
    case False
    then have eq: "send_handler env api st =
        obind (enc d (unat (tb_len buf))) (\<lambda>(ret, out). if ret \<noteq> ESP_OK then Inr (ret, st1, [])
          else obind (transmit env out) (\<lambda>(ret, evs). Inr (ret, st1, evs)))"
      using Cons a st1(1) enc(1) by (simp add: send_handler_def Let_def)
    show ?thesis
    proof (cases "enc d (unat (tb_len buf))")
      case (Inr r)
      obtain rt out where r: "r = (rt, out)" by (cases r)
      then have out: "\<forall>mem k. out = Some (mem, k) \<longrightarrow> k \<le> length mem" using enc(2) Inr by simp
      show ?thesis using st1(2) transmit_safe [OF out] by (auto simp: eq Inr r obind_Inr_iff obind_Inl_iff)
    qed (use enc(2) eq in auto)
  qed
qed (use assms in \<open>auto simp: send_handler_def\<close>)

lemma send_message_bufs:
  assumes "bufs_ok st"
  shows "\<exists>st'. tcp_send_message st msg = Inr st' \<and> (bufs_ok st' \<longleftrightarrow> \<not> drops_queued st (Op_send msg))"
proof -
  let ?a = "tc_next st"
  have fresh: "tc_heap st ?a = None" using assms by (auto simp: bufs_ok_def)
  have keep: "tb_obj b \<noteq> Some ?a" "buf_ok (st\<lparr>tc_heap := (tc_heap st)(?a := x)\<rparr>) b" if b: "b \<in> set (tc_send_q st)" for b x
  proof -
    obtain a d where "tb_obj b = Some a" "tc_heap st a = Some d" "unat (tb_len b) \<le> length d"
      using b assms by (auto simp: bufs_ok_def buf_ok_def)
    moreover from this fresh have "a \<noteq> ?a" by auto
    ultimately show "tb_obj b \<noteq> Some ?a" "buf_ok (st\<lparr>tc_heap := (tc_heap st)(?a := x)\<rparr>) b"
      by (auto simp: buf_ok_def)
  qed
  have nin: "Some ?a \<notin> tb_obj ` set (tc_send_q st)" using keep(1) by force
  have len: "unat (word_of_nat (length msg) :: u16) \<le> length msg"
    by (simp add: unat_of_nat)
  show ?thesis
    using assms keep nin len
    by (auto simp: tcp_send_message_def em_tcp_client_send_def queue_send_def tcp_buffer_free_def Let_def
        drops_queued_def bufs_ok_def buf_ok_def less_Suc_eq)
qed

text \<open>A step that leaves the send queue and the heap alone.\<close>

lemma bufs_ok_upd [simp]:
  "bufs_ok (st\<lparr>tc_conn_state := c\<rparr>) = bufs_ok st"
  "bufs_ok (st\<lparr>tc_cmd_q := q\<rparr>) = bufs_ok st"
  "bufs_ok (st\<lparr>tc_cmd := cm\<rparr>) = bufs_ok st"
  "bufs_ok (st\<lparr>tc_conn_delay_offset_ms := w\<rparr>) = bufs_ok st"
  by (rule bufs_ok_cong; simp)+

lemma rx_q_send_bufs: "rx_q_send st s = Inr st' \<Longrightarrow> bufs_ok st' = bufs_ok st"
  by (rule bufs_ok_cong) (auto dest: rx_q_send_cases)

lemma tx_connect_bufs:
  "(tx_connect env st = Inl e \<longrightarrow> e = Abort) \<and> (tx_connect env st = Inr (st', evs) \<longrightarrow> bufs_ok st' = bufs_ok st)"
  by (auto simp: tx_connect_def open_conn_handler_def obind_Inl_iff obind_Inr_iff submit_tcp_client_disconnect_def
      set_conn_state_def rx_q_send_bufs dest: rx_q_send_cases(1) post_event_abort split: if_splits)

lemma tx_disconnect_bufs:
  "(tx_disconnect env st = Inl e \<longrightarrow> e = Abort) \<and>
   (tx_disconnect env st = Inr (st', evs) \<longrightarrow> bufs_ok st' = bufs_ok st)"
  by (auto simp: tx_disconnect_def obind_Inl_iff obind_Inr_iff set_conn_state_def Let_def
      dest: post_event_abort)

lemma tx_send_bufs:
  assumes "bufs_ok st" "encoder_ok api"
  shows "(tx_send env api st = Inl e \<longrightarrow> e = Abort) \<and> (tx_send env api st = Inr (st', evs) \<longrightarrow> bufs_ok st')"
proof (cases "send_handler env api st")
  case (Inl e1)
  with send_handler_safe [OF assms, of env e1] show ?thesis by (simp add: tx_send_def)
next
  case (Inr r)
  obtain ret st1 evs1 where r: "r = (ret, st1, evs1)" by (cases r)
  have "bufs_ok st1" using send_handler_safe [OF assms, of env] Inr r by blast
  moreover have "bufs_ok (submit_tcp_client_disconnect st1) = bufs_ok st1"
    by (simp add: submit_tcp_client_disconnect_def)
  ultimately show ?thesis
    by (auto simp: tx_send_def Inr r Let_def obind_Inl_iff obind_Inr_iff dest!: post_event_abort split: if_splits)
qed

lemma tx_run_bufs:
  assumes "bufs_ok st" "encoder_ok api"
  shows "(tx_task_run env api st = Inl e \<longrightarrow> e = Abort) \<and> (tx_task_run env api st = Inr (st', evs) \<longrightarrow> bufs_ok st')"
proof -
  show ?thesis
    using assms tx_connect_bufs [of env "st\<lparr>tc_cmd := None\<rparr>" e st' evs]
      tx_disconnect_bufs [of env "st\<lparr>tc_cmd := None\<rparr>" e st' evs]
      tx_send_bufs [of "st\<lparr>tc_cmd := None\<rparr>" api env e st' evs]
    by (auto simp: tx_task_run_def Let_def split: option.splits tcp_cmd_t.splits)
qed

lemma rx_bufs: "rx_task_round_tcp env api st = Inr (st', evs) \<Longrightarrow> bufs_ok st' = bufs_ok st"
proof -
  assume "rx_task_round_tcp env api st = Inr (st', evs)"
  then have "st' = st \<or> rx_queues (rx_take st) st'" by (rule rx_round_queues)
  then have "st' = st \<or> tc_send_q st' = tc_send_q st \<and> tc_heap st' = tc_heap st \<and> tc_next st' = tc_next st"
    by (auto simp: rx_queues_def rx_take_def split: list.splits)
  then show ?thesis using bufs_ok_cong by blast
qed

lemma tcp_step_bufs:
  assumes "bufs_ok st" "encoder_ok api"
  shows "(tcp_step api st op = Inl e \<longrightarrow> e = Abort \<or> (\<exists>env. op = Op_rx env)) \<and>
    (tcp_step api st op = Inr (st', evs) \<longrightarrow> (bufs_ok st' \<longleftrightarrow> \<not> drops_queued st op))"
proof (cases op)
  case (Op_send msg)
  with send_message_bufs [OF assms(1), of msg] show ?thesis by auto
next
  case (Op_tx_run env)
  with tx_run_bufs [OF assms, of env] show ?thesis by (auto simp: drops_queued_def)
next
  case (Op_rx env)
  with rx_bufs [of env api st] assms show ?thesis by (auto simp: drops_queued_def)
next
  case Op_wifi_lost
  then show ?thesis
    using assms
    by (auto simp: drops_queued_def wifi_disconnected_handler_def obind_Inl_iff obind_Inr_iff
        submit_tcp_client_disconnect_def dest: rx_q_send_cases(1) rx_q_send_bufs split: if_splits)
qed (use assms in \<open>auto simp: drops_queued_def connect_handler_def submit_tcp_client_connect_def queue_send_def
    em_tcp_client_set_long_reconnecting_delay_def em_tcp_client_disconnect_panic_def set_conn_state_def
    tx_task_take_def Let_def split: option.splits list.splits\<close>)

end
