(* ===== verification/EM_Tcp_Link.thy ===== *)
theory EM_Tcp_Link
  imports EM_Tcp_Props EM_Slip EM_Receiver
begin

section \<open>The TCP link of the firmware (main.c, tcp\_client.c, slip.c, receiver.c)\<close>

text \<open>
  \<open>app_main\<close> gives the TCP client the static SLIP decoder and encoder and the message dispatcher. \<open>firmware_api\<close>
  is this choice; a null \<open>data\<close> pointer, which the decoder leaves when a read ends no packet, fails
  the assertion of \<open>parse_message\<close>.
\<close>

definition slip_rx_cb :: "slip_codec_t \<Rightarrow> bytes \<Rightarrow> nat \<Rightarrow> (int \<times> (bytes \<times> nat) option \<times> slip_codec_t) outcome" where
  "slip_rx_cb d data_in len_in =
     obind (slip_static_data_decoder d data_in len_in) (\<lambda>(ret, len_out, d').
       Inr (ret, map_option (\<lambda>n. (slip_raw d', n)) len_out, d'))"

definition dispatch_cb ::
  "net_env \<Rightarrow> (u16 \<Rightarrow> rx_msg \<Rightarrow> int) option \<Rightarrow> (bytes \<times> nat) option \<Rightarrow> (int \<times> rx_event list) outcome" where
  "dispatch_cb net cb out =
     (case out of None \<Rightarrow> Inl Abort | Some (data, len) \<Rightarrow> protocol_receiver_dispatcher net cb data len)"

definition firmware_api ::
  "net_env \<Rightarrow> (u16 \<Rightarrow> rx_msg \<Rightarrow> int) option \<Rightarrow> (slip_codec_t, rx_event) tcp_client_api_t" where
  "firmware_api net cb =
     \<lparr>msg_disp_cb = Some (dispatch_cb net cb), rx_net_proto_cb = Some slip_rx_cb,
      tx_net_proto_cb = Some (\<lambda>data len. slip_static_data_encoder (Some data) len)\<rparr>"

subsection \<open>Calls of the codec\<close>

lemma slip_encoder_take:
  "n \<le> length d \<Longrightarrow> slip_static_data_encoder (Some d) n = slip_static_data_encoder (Some (take n d)) n"
  by (simp add: slip_static_data_encoder_def slip_encode_def min_def)

text \<open>The encoder on any object: a failed assertion, an error, or a frame inside the static buffer.\<close>

lemma slip_encoder_safe:
  assumes "n \<le> length d"
  shows "case slip_static_data_encoder (Some d) n of
    Inl e \<Rightarrow> e = Abort | Inr (ret, out) \<Rightarrow> (\<forall>mem k. out = Some (mem, k) \<longrightarrow> k \<le> length mem)"
proof (cases "0 < n \<and> n \<le> ENCODED_DATA_BUF_SIZE")
  case True
  then obtain mem where "slip_static_data_encoder (Some d) n =
      Inr (if length (slip_frame (take n d)) \<le> ENCODED_DATA_BUF_SIZE
           then (ESP_OK, Some (mem, length (slip_frame (take n d)))) else (ESP_ERR_NO_MEM, None))"
    "length (slip_frame (take n d)) \<le> ENCODED_DATA_BUF_SIZE \<longrightarrow> length mem = ENCODED_DATA_BUF_SIZE"
    using slip_static_data_encoder_eq [of "take n d", unfolded length_take min_absorb2 [OF assms]]
      slip_encoder_take [OF assms] by auto
  then show ?thesis by (auto split: prod.splits)
qed (auto simp: slip_static_data_encoder_def slip_encode_def c_assert_def)

lemma slip_add_data_take: "n \<le> length bs \<Longrightarrow> slip_add_data s bs n = slip_add_data s (take n bs) n"
  by (simp add: slip_add_data_def Let_def split: option.split)

lemma slip_decoder_take:
  "n \<le> length bs \<Longrightarrow> slip_static_data_decoder s bs n = slip_static_data_decoder s (take n bs) n"
  by (simp only: slip_static_data_decoder_def slip_add_data_take [of n bs])

text \<open>A call whose rounds end without a packet.\<close>

lemma slip_call_no_packet:
  assumes "slip_ready s" "0 < n" "n \<le> length bs" "n \<le> ENCODED_DATA_BUF_SIZE"
    and "frame_rounds 16 (codec_flags s) [] (take n bs) = (e, f, out, inp)" "e \<noteq> ERR_NONE"
  shows "\<exists>s'. slip_static_data_decoder s bs n =
      Inr (if e = ERR_PACKET_START_NOT_FOUND then ESP_OK else ESP_FAIL, None, s') \<and>
    slip_ready s' \<and> codec_flags s' = f"
proof -
  obtain s1 where s1: "slip_loaded s (take n bs) s1"
    and run: "slip_static_data_decoder s bs n =
      obind (decoder_loop (Suc ENCODED_DATA_BUF_SIZE) s1 None) (\<lambda>(ret_decode, len_out, s2).
         Inr (if ret_decode = ERR_PACKET_START_NOT_FOUND then ESP_OK else ESP_FAIL, len_out, slip_clear s2))"
    using slip_static_data_decoder_start [OF assms(1-4)] by blast
  have "frame_rounds 16 (codec_flags s1) (slip_out s1) (slip_in s1) = (e, f, out, inp)"
    using s1 assms(5) by (simp add: slip_loaded_def)
  from slip_decode_loop_rounds [OF _ this] obtain s2 where
    s2: "slip_decode s1 = Inr (e, s2)" "slip_inv s2" "codec_flags s2 = f"
    using s1 by (auto simp: slip_decode_def slip_loaded_def)
  have loop: "decoder_loop (Suc k) s1 None = Inr (e, None, s2)" for k using s2(1) assms(6) by simp
  show ?thesis
    using run [unfolded loop] s2 slip_clear_ready [of s2] by (simp add: codec_flags_def slip_clear_def)
qed

lemma frame_scan_prefix:
  "frame_scan (True, False) (concat (map slip_escaped p)) =
     (ERR_INCOMPLETE_PACKET, length (concat (map slip_escaped p)), p, (True, False))"
proof (induction p)
  case (Cons b p)
  then show ?case using frame_scan_escaped [of b "concat (map slip_escaped p)"] by simp
qed simp

text \<open>A frame that arrives in two reads: the first ends inside the packet.\<close>

lemma slip_call_head:
  assumes "slip_ready s" "codec_flags s = (False, False)" "n \<le> length bs" "n \<le> ENCODED_DATA_BUF_SIZE"
    and "take n bs = SLIP_BEGIN # concat (map slip_escaped p)"
  shows "\<exists>s'. slip_static_data_decoder s bs n = Inr (ESP_FAIL, None, s') \<and> slip_ready s' \<and> codec_flags s' = (True, False)"
proof -
  have "slip_scan (False, False) (take n bs) =
      (ERR_INCOMPLETE_PACKET, Suc (length (concat (map slip_escaped p))), p, (True, False))"
    using assms(5) frame_scan_prefix [of p] by (simp add: slip_scan_def frame_step_def)
  then have "frame_rounds 16 (codec_flags s) [] (take n bs) = (ERR_INCOMPLETE_PACKET, (True, False), p, [])"
    using assms(2,5) by (simp add: eval_nat_numeral)
  from slip_call_no_packet [OF assms(1) _ assms(3,4) this] assms(5) show ?thesis by (cases n) auto
qed

lemma slip_call_tail:
  assumes "slip_ready s" "codec_flags s = (True, False)" "n \<le> length bs" "n \<le> ENCODED_DATA_BUF_SIZE"
    and "take n bs = concat (map slip_escaped p) @ [SLIP_END]"
  shows "\<exists>s'. slip_static_data_decoder s bs n = Inr (ESP_OK, Some (length p), s') \<and> slip_ready s' \<and>
    codec_flags s' = (False, False) \<and> take (length p) (slip_raw s') = p"
proof -
  have n: "0 < n" using assms(5) by (cases n) auto
  obtain s1 where s1: "slip_loaded s (take n bs) s1"
    and run: "slip_static_data_decoder s bs n =
      obind (decoder_loop (Suc ENCODED_DATA_BUF_SIZE) s1 None) (\<lambda>(ret_decode, len_out, s2).
         Inr (if ret_decode = ERR_PACKET_START_NOT_FOUND then ESP_OK else ESP_FAIL, len_out, slip_clear s2))"
    using slip_static_data_decoder_start [OF assms(1) n assms(3,4)] by blast
  have "slip_scan (True, False) (take n bs) =
      (ERR_NONE, Suc (length (concat (map slip_escaped p))), p, (False, False))"
    using frame_scan_body [of p "[]"] assms(5) by (simp add: slip_scan_def)
  then have "frame_rounds 16 (codec_flags s1) (slip_out s1) (slip_in s1) = (ERR_NONE, (False, False), p, [])"
    using s1 assms(2,5) by (simp add: slip_loaded_def eval_nat_numeral)
  from slip_decode_loop_rounds [OF _ this] obtain s2 where
    s2: "slip_decode s1 = Inr (ERR_NONE, s2)" "slip_inv s2" "codec_flags s2 = (False, False)" "slip_out s2 = p"
      "slip_in s2 = slip_stream [] []"
    using s1 by (auto simp: slip_decode_def slip_loaded_def slip_stream_def)
  obtain s3 where s3: "decoder_loop ENCODED_DATA_BUF_SIZE s2 (Some (length p)) =
      Inr (ERR_PACKET_START_NOT_FOUND, Some (length p), s3)" "slip_inv s3" "codec_flags s3 = (False, False)"
      "take (length p) (slip_raw s3) = p"
    using decoder_loop_stream [OF s2(2,3,5), of ENCODED_DATA_BUF_SIZE "Some (length p)"] s2(4) by auto
  have "unat (b_len (decoded s2)) = length p" using s2(2,4) by (auto simp: slip_inv_def slip_out_def)
  then have "decoder_loop (Suc ENCODED_DATA_BUF_SIZE) s1 None = Inr (ERR_PACKET_START_NOT_FOUND, Some (length p), s3)"
    using s2(1) s3(1) unfolding decoder_loop.simps(2) by simp
  then show ?thesis
    using run s3 slip_clear_ready [of s3] by (simp add: codec_flags_def slip_clear_def slip_raw_def)
qed

subsection \<open>Sending\<close>

lemma firmware_encoder_ok: "encoder_ok (firmware_api net cb)"
  using slip_encoder_safe by (simp add: encoder_ok_def firmware_api_def)

text \<open>Only the RX task touches the decoder.\<close>

lemma submit_proto [simp]:
  "tc_proto (submit_tcp_client_connect st) = tc_proto st"
  "tc_proto (submit_tcp_client_disconnect st) = tc_proto st"
  "tc_proto (set_conn_state st c) = tc_proto st"
  by (simp_all add: submit_tcp_client_connect_def submit_tcp_client_disconnect_def set_conn_state_def)

lemma buffer_free_proto: "tcp_buffer_free st buf = Inr st' \<Longrightarrow> tc_proto st' = tc_proto st"
  by (auto simp: tcp_buffer_free_def split: option.splits if_splits)

lemma send_proto: "em_tcp_client_send st buf = Inr (r, st') \<Longrightarrow> tc_proto st' = tc_proto st"
  by (auto simp: em_tcp_client_send_def queue_send_def obind_Inr_iff Let_def split: option.splits if_splits)

lemma send_message_proto: "tcp_send_message st msg = Inr st' \<Longrightarrow> tc_proto st' = tc_proto st"
  by (auto simp: tcp_send_message_def Let_def obind_Inr_iff dest!: send_proto buffer_free_proto split: if_splits)

lemma send_handler_proto: "send_handler env api st = Inr (r, st', evs) \<Longrightarrow> tc_proto st' = tc_proto st"
  by (auto simp: send_handler_def Let_def obind_Inr_iff dest!: buffer_free_proto
      split: list.splits option.splits if_splits)

lemma open_conn_proto: "open_conn_handler env st = Inr (r, st', evs) \<Longrightarrow> tc_proto st' = tc_proto st"
  by (auto simp: open_conn_handler_def rx_q_send_def Let_def obind_Inr_iff split: list.splits option.splits if_splits prod.splits)

lemma tx_run_proto: "tx_task_run env api st = Inr (st', evs) \<Longrightarrow> tc_proto st' = tc_proto st"
  by (auto simp: tx_task_run_def tx_connect_def tx_disconnect_def tx_send_def Let_def obind_Inr_iff
    dest!: send_handler_proto open_conn_proto split: option.splits tcp_cmd_t.splits if_splits)

lemma tcp_step_proto:
  "tcp_step api st op = Inr (st', evs) \<Longrightarrow> \<forall>env. op \<noteq> Op_rx env \<Longrightarrow> tc_proto st' = tc_proto st"
  by (cases op)
    (auto simp: obind_Inr_iff connect_handler_def wifi_disconnected_handler_def rx_q_send_def queue_send_def
      em_tcp_client_set_long_reconnecting_delay_def em_tcp_client_disconnect_panic_def tx_task_take_def Let_def
      dest: send_message_proto tx_run_proto split: option.splits list.splits if_splits)

text \<open>\<open>esp_transport_read\<close> stores and reports at most the bytes it is asked for. \<open>rx_packet\<close> is the memory and the length that
  the decoder hands to the dispatcher.\<close>

definition read_ok :: "tcp_env \<Rightarrow> bool" where
  "read_ok env \<longleftrightarrow> fst (te_read env) \<le> int RX_BUFFER_SIZE \<and> length (snd (te_read env)) \<le> RX_BUFFER_SIZE"

definition rx_packet :: "slip_codec_t tcp_client \<Rightarrow> tcp_env \<Rightarrow> (bytes \<times> nat) option" where
  "rx_packet st env =
     (case slip_static_data_decoder (tc_proto st) (overwrite (replicate RX_BUFFER_SIZE 0) 0 (snd (te_read env)))
             (nat (fst (te_read env))) of
        Inr (ret, Some n, d) \<Rightarrow> if ret = 0 then Some (slip_raw d, n) else None
      | _ \<Rightarrow> None)"

lemma rx_data_safe:
  fixes net cb
  defines "api \<equiv> firmware_api net cb"
  assumes "slip_ready (tc_proto st)" "n \<le> length buf" "n \<le> DECODED_DATA_BUF_SIZE"
  obtains ret l d where "slip_static_data_decoder (tc_proto st) buf n = Inr (ret, l, d)" "slip_ready d"
    "rx_data api st buf n =
      (if ret \<noteq> 0 then Inr (st\<lparr>tc_proto := d\<rparr>, [])
       else case l of None \<Rightarrow> Inl Abort
         | Some k \<Rightarrow> obind (protocol_receiver_dispatcher net cb (slip_raw d) k)
             (\<lambda>(ret, evs). Inr (st\<lparr>tc_proto := d\<rparr>, List.map Tcp_dispatched evs)))"
proof -
  obtain ret l d where d: "slip_static_data_decoder (tc_proto st) buf n = Inr (ret, l, d)" "slip_ready d"
    using slip_decoder_total [OF assms(2,4,3)] by blast
  then show thesis
    by (intro that [OF d])
      (simp add: rx_data_def api_def firmware_api_def slip_rx_cb_def dispatch_cb_def Let_def split: option.splits)
qed

lemma rx_error_safe: "rx_error env st = Inl e \<Longrightarrow> e = Abort"
  by (auto simp: rx_error_def post_event_def c_assert_def obind_Inl_iff split: if_splits)

lemma rx_error_proto: "rx_error env st = Inr (st', evs) \<Longrightarrow> tc_proto st' = tc_proto st"
  by (auto simp: rx_error_def obind_Inr_iff)

lemma rx_step_safe:
  assumes "slip_ready (tc_proto st)" "read_ok env"
  shows "case tcp_step (firmware_api net cb) st (Op_rx env) of
      Inl e \<Rightarrow> e = Abort \<or> (\<exists>data n. rx_packet st env = Some (data, n) \<and> protocol_receiver_dispatcher net cb data n = Inl e)
    | Inr (st', evs) \<Rightarrow> slip_ready (tc_proto st')"
proof -
  let ?buf = "overwrite (replicate RX_BUFFER_SIZE 0) 0 (snd (te_read env))" and ?n = "nat (fst (te_read env))"
  let ?st = "(rx_take st)\<lparr>tc_state_duration := Some 0\<rparr>"
  have p: "tc_proto (rx_take st) = tc_proto st" by (simp add: rx_take_def split: list.splits)
  have b: "?n \<le> length ?buf" "?n \<le> DECODED_DATA_BUF_SIZE" using assms(2) by (auto simp: read_ok_def overwrite_def)
  obtain ret l d where d: "slip_static_data_decoder (tc_proto st) ?buf ?n = Inr (ret, l, d)" "slip_ready d"
    "rx_data (firmware_api net cb) ?st ?buf ?n =
      (if ret \<noteq> 0 then Inr (?st\<lparr>tc_proto := d\<rparr>, [])
       else case l of None \<Rightarrow> Inl Abort
         | Some k \<Rightarrow> obind (protocol_receiver_dispatcher net cb (slip_raw d) k)
             (\<lambda>(ret, evs). Inr (?st\<lparr>tc_proto := d\<rparr>, List.map Tcp_dispatched evs)))"
    using rx_data_safe [of ?st ?n ?buf net cb] b assms(1) p by auto
  have pk: "ret = 0 \<Longrightarrow> l = Some k \<Longrightarrow> rx_packet st env = Some (slip_raw d, k)" for k
    using d(1) by (simp add: rx_packet_def)
  have data: "case rx_data (firmware_api net cb) ?st ?buf ?n of
      Inl e \<Rightarrow> e = Abort \<or> (\<exists>data n. rx_packet st env = Some (data, n) \<and> protocol_receiver_dispatcher net cb data n = Inl e)
    | Inr (st', evs) \<Rightarrow> slip_ready (tc_proto st')"
    unfolding d(3) using d(2) pk
    by (cases l; cases "ret = 0") (auto simp: obind_def split: sum.splits)
  have err: "case (rx_error env (rx_take st) :: (slip_codec_t tcp_client \<times> rx_event tcp_event list) outcome) of
      Inl e \<Rightarrow> e = Abort | Inr (st', evs) \<Rightarrow> tc_proto st' = tc_proto st"
    using rx_error_safe [of env "rx_take st"] rx_error_proto [of env "rx_take st"] p by (auto split: sum.splits)
  obtain len got where rd: "te_read env = (len, got)" by (cases "te_read env")
  let ?r = "tcp_step (firmware_api net cb) st (Op_rx env)"
  have "?r = Inr (st, []) \<or> (\<exists>t. ?r = Inr ((rx_take st)\<lparr>tc_state_duration := t\<rparr>, [])) \<or>
      ?r = rx_error env (rx_take st) \<or> ?r = rx_data (firmware_api net cb) ?st ?buf ?n"
    unfolding tcp_step.simps rx_task_round_tcp_def rx_take_def [symmetric] Let_def rd prod.case fst_conv snd_conv
    by (cases "tc_rx_q st = [] \<and> tc_state_duration st = None"; cases "tc_task_state (rx_take st) = TCP_RX_SUSPEND";
        cases "te_poll env = 0"; cases "te_poll env = - 1"; cases "len \<le> 0")
      ((simp; fail) | (simp, blast))+
  then consider "?r = Inr (st, [])" | t where "?r = Inr ((rx_take st)\<lparr>tc_state_duration := t\<rparr>, [])"
    | "?r = rx_error env (rx_take st)" | "?r = rx_data (firmware_api net cb) ?st ?buf ?n"
    by blast
  then show ?thesis
  proof cases
    case 3
    then show ?thesis using err assms(1) by (cases ?r) auto
  next
    case 4
    then show ?thesis using data by simp
  qed (use assms(1) p in simp_all)
qed

text \<open>C9. With the firmware's callbacks, from a state in which every queued buffer is live and queued once and the
  decoder is well formed, every step either fails an assertion, or is a read whose packet makes the dispatcher fail (a
  malformed message), or ends in a state of this kind again, exactly unless the step is a message that gets
  a place in the send queue and none in the command queue. So no buffer is used after it is freed or freed twice.\<close>

theorem tcp_buffers_freed_once:
  assumes "bufs_ok st" "slip_ready (tc_proto st)" "\<forall>env. op = Op_rx env \<longrightarrow> read_ok env"
  shows "case tcp_step (firmware_api net cb) st op of
      Inl e \<Rightarrow> e = Abort \<or> (\<exists>env data n. op = Op_rx env \<and> rx_packet st env = Some (data, n) \<and>
        protocol_receiver_dispatcher net cb data n = Inl e)
    | Inr (st', evs) \<Rightarrow> slip_ready (tc_proto st') \<and> (bufs_ok st' \<longleftrightarrow> \<not> drops_queued st op)"
proof (cases "\<exists>env. op = Op_rx env")
  case True
  then obtain env where op: "op = Op_rx env" by blast
  show ?thesis
    using rx_step_safe [of st env net cb] assms(2,3) tcp_step_bufs [OF assms(1) firmware_encoder_ok, of net cb op]
    unfolding op by (auto split: sum.splits prod.splits)
next
  case False
  then show ?thesis
    using tcp_step_proto [of "firmware_api net cb" st op] assms(2) tcp_step_bufs [OF assms(1) firmware_encoder_ok, of net cb op]
    by (auto split: sum.splits prod.splits)
qed

text \<open>The witness sends a message from the start, and reads a BEGIN byte.\<close>

theorem tcp_buffers_freed_once_witness:
  "\<forall>net cb. (case tcp_step (firmware_api net cb) (tcp_client_zero slip_init) (Op_send [1]) of
      Inl e \<Rightarrow> e = Abort | Inr (st', evs) \<Rightarrow> slip_ready (tc_proto st') \<and> bufs_ok st') \<and>
    (\<exists>st env. tc_task_state st = TCP_RX_RESUME \<and> te_read env = (1, [SLIP_BEGIN]) \<and>
      (case tcp_step (firmware_api net cb) st (Op_rx env) of
        Inl e \<Rightarrow> e = Abort \<or> (\<exists>data n. rx_packet st env = Some (data, n) \<and> protocol_receiver_dispatcher net cb data n = Inl e)
      | Inr (st', evs) \<Rightarrow> slip_ready (tc_proto st') \<and> bufs_ok st'))"
proof (intro allI, goal_cases)
  case (1 net cb)
  let ?z = "tcp_client_zero slip_init"
  let ?st = "?z\<lparr>tc_state_duration := Some 0, tc_task_state := TCP_RX_RESUME\<rparr>"
  let ?env = "env_ok\<lparr>te_poll := 1, te_read := (1, [SLIP_BEGIN])\<rparr>"
  have z: "slip_ready (tc_proto ?z)" "slip_ready (tc_proto ?st)" by (simp_all add: tcp_client_zero_def slip_ready_init)
  have b: "bufs_ok ?z" "bufs_ok ?st" using bufs_ok_zero [of slip_init] by (simp_all add: bufs_ok_def buf_ok_def)
  have d: "\<not> drops_queued ?z (Op_send [1])" "\<not> drops_queued ?st (Op_rx ?env)"
    by (simp_all add: drops_queued_def tcp_client_zero_def)
  have e: "\<forall>env. Op_send [1] = Op_rx env \<longrightarrow> read_ok env" "\<forall>env. Op_rx ?env = Op_rx env \<longrightarrow> read_ok env"
    by (simp_all add: read_ok_def)
  show ?case
    using tcp_buffers_freed_once [OF b(1) z(1) e(1), of net cb] tcp_buffers_freed_once [OF b(2) z(2) e(2), of net cb] d
    by (intro conjI exI [of _ ?st] exI [of _ ?env])
      (simp_all only: tcp_op.distinct tcp_op.inject simp_thms ex_simps split: sum.splits prod.splits, auto)
qed

subsection \<open>Receiving\<close>

text \<open>The RX task is running and the decoder is between two packets; \<open>rx_env bs\<close> is a read of \<open>bs\<close>.\<close>

definition rx_ready :: "slip_codec_t tcp_client \<Rightarrow> bool" where
  "rx_ready st \<longleftrightarrow> tc_rx_q st = [] \<and> tc_state_duration st \<noteq> None \<and> tc_task_state st = TCP_RX_RESUME \<and>
     slip_ready (tc_proto st) \<and> codec_flags (tc_proto st) = (False, False)"

definition rx_env :: "bytes \<Rightarrow> tcp_env" where
  "rx_env bs = env_ok\<lparr>te_poll := 1, te_read := (int (length bs), bs)\<rparr>"

lemma rx_step_data:
  assumes "tc_rx_q st = []" "tc_state_duration st \<noteq> None" "tc_task_state st = TCP_RX_RESUME"
    and "bs \<noteq> []" "length bs \<le> RX_BUFFER_SIZE"
  shows "tcp_step (firmware_api net cb) st (Op_rx (rx_env bs)) =
    obind (slip_static_data_decoder (tc_proto st) bs (length bs)) (\<lambda>(ret, len_out, d).
      if ret \<noteq> 0 then Inr (st\<lparr>tc_state_duration := Some 0, tc_proto := d\<rparr>, [])
      else case len_out of
        None \<Rightarrow> Inl Abort
      | Some n \<Rightarrow> obind (protocol_receiver_dispatcher net cb (slip_raw d) n) (\<lambda>(ret, evs).
          Inr (st\<lparr>tc_state_duration := Some 0, tc_proto := d\<rparr>, List.map Tcp_dispatched evs)))"
proof -
  let ?rx = "overwrite (replicate RX_BUFFER_SIZE 0) 0 bs"
  have "take (length bs) ?rx = bs" "length bs \<le> length ?rx" using assms(5) by (simp_all add: overwrite_def)
  then have rd: "slip_static_data_decoder (tc_proto st) ?rx (length bs) = slip_static_data_decoder (tc_proto st) bs (length bs)"
    using slip_decoder_take [of "length bs" ?rx "tc_proto st"] by simp
  show ?thesis
    using assms(1-4) rd
    by (cases "slip_static_data_decoder (tc_proto st) bs (length bs)")
      (auto simp: rx_task_round_tcp_def rx_env_def rx_data_def firmware_api_def slip_rx_cb_def dispatch_cb_def
        env_ok_def Let_def split: prod.splits option.splits)
qed

text \<open>One read without a BEGIN byte, while the decoder is between packets, restarts the device: the decoder
  reports success without setting \<open>data_out\<close>, and the null pointer fails the assertion of \<open>parse_message\<close>. So does
  a read with a well-formed packet longer than the largest message.\<close>

lemma rx_noise_restarts:
  assumes "rx_ready st" "bs \<noteq> []" "length bs \<le> RX_BUFFER_SIZE"
    and "SLIP_BEGIN \<notin> set bs \<or> (\<exists>p. bs = slip_frame p \<and> BIGGEST_RECV_MESSAGE_SIZE < length p)"
  shows "tcp_step (firmware_api net cb) st (Op_rx (rx_env bs)) = Inl Abort"
proof -
  let ?rx = "overwrite (replicate RX_BUFFER_SIZE 0) 0 bs"
  obtain ps rest where ps: "bs = slip_stream ps rest" "\<forall>(n, p)\<in>set ps. SLIP_BEGIN \<notin> set n" "SLIP_BEGIN \<notin> set rest"
    "ps = [] \<or> BIGGEST_RECV_MESSAGE_SIZE < length (concat (List.map snd ps))"
  proof (cases "SLIP_BEGIN \<notin> set bs")
    case True
    then show ?thesis by (intro that [of "[]" bs]) (simp_all add: slip_stream_def)
  next
    case False
    then obtain p where "bs = slip_frame p" "BIGGEST_RECV_MESSAGE_SIZE < length p" using assms(4) by blast
    then show ?thesis by (intro that [of "[([], p)]" "[]"]) (simp_all add: slip_stream_def)
  qed
  obtain l s' where run: "slip_static_data_decoder (tc_proto st) bs (length bs) = Inr (ESP_OK, l, s')"
    "l = (if ps = [] then None else Some (length (concat (List.map snd ps))))"
    using slip_decoder_stream_run [of "tc_proto st" ps rest] ps assms by (auto simp: rx_ready_def)
  have rx: "tc_rx_q st = []" "tc_state_duration st \<noteq> None" "tc_task_state st = TCP_RX_RESUME"
    using assms(1) by (simp_all add: rx_ready_def)
  show ?thesis
    unfolding rx_step_data [OF rx assms(2,3)] using run ps(4)
    by (auto simp: protocol_receiver_dispatcher_def c_assert_def)
qed

lemma rx_read_frames:
  assumes "rx_ready st" "ps \<noteq> []" "\<forall>(n, p)\<in>set ps. SLIP_BEGIN \<notin> set n" "SLIP_BEGIN \<notin> set rest"
    and "length (slip_stream ps rest) \<le> RX_BUFFER_SIZE"
  defines "out \<equiv> concat (List.map snd ps)"
  shows "\<exists>mem st'. take (length out) mem = out \<and> rx_ready st' \<and>
    tcp_step (firmware_api net cb) st (Op_rx (rx_env (slip_stream ps rest))) =
      obind (protocol_receiver_dispatcher net cb mem (length out)) (\<lambda>(ret, evs). Inr (st', List.map Tcp_dispatched evs))"
proof -
  let ?bs = "slip_stream ps rest"
  have rx: "tc_rx_q st = []" "tc_state_duration st \<noteq> None" "tc_task_state st = TCP_RX_RESUME"
    "slip_ready (tc_proto st)" "codec_flags (tc_proto st) = (False, False)"
    using assms(1) by (simp_all add: rx_ready_def)
  have bs: "?bs \<noteq> []" using slip_stream_length [of ps rest] assms(2) by (cases ps) auto
  then obtain s' where run: "slip_static_data_decoder (tc_proto st) ?bs (length ?bs) = Inr (ESP_OK, Some (length out), s')"
    "slip_ready s'" "codec_flags s' = (False, False)" "take (length out) (slip_raw s') = out"
    using slip_decoder_stream_run [of "tc_proto st" ps rest] assms rx by auto
  have "rx_ready (st\<lparr>tc_state_duration := Some 0, tc_proto := s'\<rparr>)" using rx run by (simp add: rx_ready_def)
  then show ?thesis
    using run rx_step_data [OF rx(1-3) bs assms(5), of net cb]
    by (intro exI [of _ "slip_raw s'"] exI [of _ "st\<lparr>tc_state_duration := Some 0, tc_proto := s'\<rparr>"]) simp
qed

lemma rx_read_split:
  assumes "rx_ready st" "slip_frame (p1 @ p2) = head @ tail" "head = SLIP_BEGIN # concat (List.map slip_escaped p1)"
    and "length head \<le> RX_BUFFER_SIZE" "length tail \<le> RX_BUFFER_SIZE"
  shows "\<exists>mem st1 st2. take (length p2) mem = p2 \<and> rx_ready st2 \<and>
    tcp_step (firmware_api net cb) st (Op_rx (rx_env head)) = Inr (st1, []) \<and>
    tcp_step (firmware_api net cb) st1 (Op_rx (rx_env tail)) =
      obind (protocol_receiver_dispatcher net cb mem (length p2)) (\<lambda>(ret, evs). Inr (st2, List.map Tcp_dispatched evs))"
proof -
  have rx: "tc_rx_q st = []" "tc_state_duration st \<noteq> None" "tc_task_state st = TCP_RX_RESUME"
    "slip_ready (tc_proto st)" "codec_flags (tc_proto st) = (False, False)"
    using assms(1) by (simp_all add: rx_ready_def)
  have tl: "tail = concat (List.map slip_escaped p2) @ [SLIP_END]" using assms(2,3) by (auto simp: slip_frame_def)
  have ne: "head \<noteq> []" "tail \<noteq> []" using assms(3) tl by auto
  obtain s1 where s1: "slip_static_data_decoder (tc_proto st) head (length head) = Inr (ESP_FAIL, None, s1)"
    "slip_ready s1" "codec_flags s1 = (True, False)"
    using slip_call_head [OF rx(4,5), of "length head" head p1] assms(3,4) by auto
  obtain s2 where s2: "slip_static_data_decoder s1 tail (length tail) = Inr (ESP_OK, Some (length p2), s2)"
    "slip_ready s2" "codec_flags s2 = (False, False)" "take (length p2) (slip_raw s2) = p2"
    using slip_call_tail [OF s1(2,3), of "length tail" tail p2] assms(5) tl by auto
  let ?st1 = "st\<lparr>tc_state_duration := Some 0, tc_proto := s1\<rparr>" and ?st2 = "st\<lparr>tc_state_duration := Some 0, tc_proto := s2\<rparr>"
  have "rx_ready ?st2" using rx s2 by (simp add: rx_ready_def)
  moreover have "tcp_step (firmware_api net cb) st (Op_rx (rx_env head)) = Inr (?st1, [])"
    using rx_step_data [OF rx(1-3) ne(1) assms(4), of net cb] s1(1) by simp
  moreover have "tcp_step (firmware_api net cb) ?st1 (Op_rx (rx_env tail)) =
      obind (protocol_receiver_dispatcher net cb (slip_raw s2) (length p2)) (\<lambda>(ret, evs). Inr (?st2, List.map Tcp_dispatched evs))"
    using rx_step_data [of ?st1 tail net cb] rx ne(2) assms(5) s2(1) by simp
  ultimately show ?thesis using s2(4) by blast
qed

text \<open>C17. What reaches the dispatcher. All packets that end in one read are dispatched as one message, their bytes one
  after the other, so only the first is parsed. A packet that arrives in two reads is
  cut: the first read dispatches nothing and the second the bytes of the second part alone.\<close>

theorem rx_link_messages:
  assumes "rx_ready st"
  shows "(ps \<noteq> [] \<and> (\<forall>(n, p)\<in>set ps. SLIP_BEGIN \<notin> set n) \<and> SLIP_BEGIN \<notin> set rest \<and>
      length (slip_stream ps rest) \<le> RX_BUFFER_SIZE \<longrightarrow>
      (\<exists>mem st'. take (length (concat (List.map snd ps))) mem = concat (List.map snd ps) \<and> rx_ready st' \<and>
        tcp_step (firmware_api net cb) st (Op_rx (rx_env (slip_stream ps rest))) =
          obind (protocol_receiver_dispatcher net cb mem (length (concat (List.map snd ps)))) (\<lambda>(ret, evs).
            Inr (st', List.map Tcp_dispatched evs)))) \<and>
    (slip_frame (p1 @ p2) = head @ tail \<and> head = SLIP_BEGIN # concat (List.map slip_escaped p1) \<and>
      length head \<le> RX_BUFFER_SIZE \<and> length tail \<le> RX_BUFFER_SIZE \<longrightarrow>
      (\<exists>mem st1 st2. take (length p2) mem = p2 \<and> rx_ready st2 \<and>
        tcp_step (firmware_api net cb) st (Op_rx (rx_env head)) = Inr (st1, []) \<and>
        tcp_step (firmware_api net cb) st1 (Op_rx (rx_env tail)) =
          obind (protocol_receiver_dispatcher net cb mem (length p2)) (\<lambda>(ret, evs).
            Inr (st2, List.map Tcp_dispatched evs))))"
  using rx_read_frames [OF assms, of ps rest net cb] rx_read_split [OF assms, of p1 p2 head tail net cb] by blast

theorem rx_link_messages_witness:
  "\<forall>net cb. \<exists>st. rx_ready st \<and>
    (\<exists>mem st'. take (length [1, 2, 3, 4 :: u8]) mem = [1, 2, 3, 4] \<and> rx_ready st' \<and>
      tcp_step (firmware_api net cb) st (Op_rx (rx_env (slip_frame [1, 2] @ slip_frame [3, 4]))) =
        obind (protocol_receiver_dispatcher net cb mem (length [1, 2, 3, 4 :: u8])) (\<lambda>(ret, evs). Inr (st', List.map Tcp_dispatched evs))) \<and>
    (\<exists>mem st1 st2. take (length [2 :: u8]) mem = [2] \<and> rx_ready st2 \<and>
      tcp_step (firmware_api net cb) st (Op_rx (rx_env [SLIP_BEGIN, 1])) = Inr (st1, []) \<and>
      tcp_step (firmware_api net cb) st1 (Op_rx (rx_env [2, SLIP_END])) =
        obind (protocol_receiver_dispatcher net cb mem (length [2 :: u8])) (\<lambda>(ret, evs). Inr (st2, List.map Tcp_dispatched evs)))"
proof (intro allI, goal_cases)
  case (1 net cb)
  let ?st = "(tcp_client_zero slip_init)\<lparr>tc_state_duration := Some 0, tc_task_state := TCP_RX_RESUME\<rparr>"
  have r: "rx_ready ?st"
    by (simp add: rx_ready_def tcp_client_zero_def slip_ready_init) (simp add: slip_init_def codec_flags_def)
  let ?ps = "[([] :: bytes, [1, 2] :: bytes), ([], [3, 4])]"
  have f: "slip_stream ?ps [] = slip_frame [1, 2] @ slip_frame [3, 4]" "concat (List.map snd ?ps) = [1, 2, 3, 4]"
    by (simp_all add: slip_stream_def)
  have p: "?ps \<noteq> [] \<and> (\<forall>(n, p)\<in>set ?ps. SLIP_BEGIN \<notin> set n) \<and> SLIP_BEGIN \<notin> set [] \<and>
      length (slip_stream ?ps []) \<le> RX_BUFFER_SIZE"
    "slip_frame ([1] @ [2]) = [SLIP_BEGIN, 1] @ [2, SLIP_END] \<and>
      [SLIP_BEGIN, 1] = SLIP_BEGIN # concat (List.map slip_escaped [1]) \<and>
      length [SLIP_BEGIN, 1] \<le> RX_BUFFER_SIZE \<and> length [2, SLIP_END] \<le> RX_BUFFER_SIZE"
    by (simp_all add: slip_stream_def slip_frame_def slip_escaped_def)
  note t = rx_link_messages [OF r, of ?ps "[]" net cb "[1]" "[2]" "[SLIP_BEGIN, 1]" "[2, SLIP_END]"]
  note t1 = conjunct1 [OF t, THEN mp, OF p(1), unfolded f] and t2 = conjunct2 [OF t, THEN mp, OF p(2)]
  show ?case by (intro exI [of _ ?st] conjI r t1 t2)
qed

end
