(* ===== verification/EM_Http_Ota.thy ===== *)
theory EM_Http_Ota
  imports EM_Prelude
begin

section \<open>The firmware download (em\_http\_ota/http\_ota.c)\<close>

text \<open>
  The OTA task runs a state machine, one step per round: begin, transfer, downloaded, finished. Its resources are
  the two handles of the libraries \<open>esp_https_ota\<close> and \<open>esp_encrypted_img\<close>. A handle is an address that is never
  used again; \<open>ota_live\<close> holds the ones that have not been released. What the libraries return is a parameter
  (\<open>ota_env\<close>); of their effects the model has the documented ones the code relies on: \<open>begin\<close> and \<open>start\<close> create a
  handle (a failed \<open>begin\<close> sets it to \<open>NULL\<close>), \<open>finish\<close> and \<open>abort\<close>, and \<open>end\<close> and \<open>abort\<close> of the decryptor release it
  whatever they return, \<open>perform\<close> calls the decryption callback for the chunks it received and
  returns its error. Using or releasing a released handle is \<open>OutOfBounds\<close>.
\<close>

datatype em_http_ota_event_t =
    OTA_EVENT_BEGIN | OTA_EVENT_VALIDATED | OTA_EVENT_TRANSFER | OTA_EVENT_DOWNLOADED | OTA_EVENT_VERIFIED
  | OTA_EVENT_FINISHED | OTA_EVENT_ABORT

abbreviation OTA_ERR_NONE :: int where "OTA_ERR_NONE \<equiv> 0"
abbreviation OTA_ERR_REJECTED :: int where "OTA_ERR_REJECTED \<equiv> 2"
abbreviation OTA_ERR_ABORTED :: int where "OTA_ERR_ABORTED \<equiv> 3"
abbreviation OTA_ERR_IMG_INVALID :: int where "OTA_ERR_IMG_INVALID \<equiv> 4"
abbreviation OTA_ERR_VERIFY :: int where "OTA_ERR_VERIFY \<equiv> 5"
abbreviation OTA_ERR_INIT :: int where "OTA_ERR_INIT \<equiv> 0x40"
abbreviation OTA_ERR_INTERNAL :: int where "OTA_ERR_INTERNAL \<equiv> 0x41"
abbreviation OTA_ERR_INCOMPLETE :: int where "OTA_ERR_INCOMPLETE \<equiv> 0x42"
abbreviation OTA_ERR_CLEANUP :: int where "OTA_ERR_CLEANUP \<equiv> 0x43"
abbreviation OTA_ERR_OTHER :: int where "OTA_ERR_OTHER \<equiv> 0xFE"
abbreviation ESP_ERR_NOT_FINISHED :: int where "ESP_ERR_NOT_FINISHED \<equiv> 0x10C"
abbreviation ESP_ERR_HTTPS_OTA_IN_PROGRESS :: int where "ESP_ERR_HTTPS_OTA_IN_PROGRESS \<equiv> 0x9001"

abbreviation APP_VERSION_LEN :: nat where "APP_VERSION_LEN \<equiv> 32"
abbreviation PROGRESS_ACCURACY :: u8 where "PROGRESS_ACCURACY \<equiv> 20"
abbreviation MAX_QUEUE_MSGS :: nat where "MAX_QUEUE_MSGS \<equiv> 3"

text \<open>The image header (24 bytes) and the segment header (8) come before the application description, which has 256
  bytes and the version at offset 16.\<close>

abbreviation APP_DESC_OFFSET :: nat where "APP_DESC_OFFSET \<equiv> 32"
abbreviation APP_DESC_SIZE :: nat where "APP_DESC_SIZE \<equiv> 256"

datatype http_ota_msg_t = HTTP_OTA_START "bytes option" | HTTP_OTA_ABORT

record decrypt_ctx_t =
  img_validated :: bool
  decrypt_err :: int
  decrypted_size :: u32

record ota_sys =
  ota_q :: "http_ota_msg_t list"
  https_ota_handle :: "nat option"
  decrypt_handle :: "nat option"
  ota_live :: "nat set"
  ota_next :: nat
  ota_ms :: em_http_ota_event_t
  decrypt_ctx :: decrypt_ctx_t
  progress_last :: u8
  ota_msg :: http_ota_msg_t
  wait_forever :: bool

record ota_env =
  oe_decrypt_start :: bool
  oe_begin :: int
  oe_perform :: int
  oe_chunks :: "(int \<times> bytes) list"
  oe_img_size :: int
  oe_complete :: bool
  oe_decrypt_end :: int
  oe_finish :: int
  oe_https_abort :: int
  oe_post :: bool
  oe_installed :: bytes

datatype ota_event =
    Ota_post em_http_ota_event_t
  | Ota_validated bytes
  | Ota_progress u8
  | Ota_abort int

definition decrypt_ctx_zero :: decrypt_ctx_t where
  "decrypt_ctx_zero = \<lparr>img_validated = False, decrypt_err = 0, decrypted_size = 0\<rparr>"

definition ota_init :: ota_sys where
  "ota_init =
     \<lparr>ota_q = [], https_ota_handle = None, decrypt_handle = None, ota_live = {}, ota_next = 0,
      ota_ms = OTA_EVENT_BEGIN, decrypt_ctx = decrypt_ctx_zero, progress_last = 0xFF,
      ota_msg = HTTP_OTA_START None, wait_forever = True\<rparr>"

subsection \<open>Handles\<close>

definition ota_alloc :: "ota_sys \<Rightarrow> nat \<times> ota_sys" where
  "ota_alloc st = (ota_next st, st\<lparr>ota_live := insert (ota_next st) (ota_live st), ota_next := Suc (ota_next st)\<rparr>)"

definition ota_release :: "ota_sys \<Rightarrow> nat \<Rightarrow> ota_sys outcome" where
  "ota_release st h = (if h \<in> ota_live st then Inr (st\<lparr>ota_live := ota_live st - {h}\<rparr>) else Inl OutOfBounds)"

definition ota_use :: "ota_sys \<Rightarrow> nat option \<Rightarrow> 'a outcome \<Rightarrow> 'a outcome" where
  "ota_use st h k = (case h of None \<Rightarrow> k | Some a \<Rightarrow> if a \<in> ota_live st then k else Inl OutOfBounds)"

definition abort_ota_handle :: "ota_env \<Rightarrow> int \<Rightarrow> ota_sys \<Rightarrow> (ota_sys \<times> ota_event list) outcome" where
  "abort_ota_handle env err_code st =
     obind (case https_ota_handle st of
              None \<Rightarrow> Inr st
            | Some h \<Rightarrow> obind (ota_release st h) (\<lambda>st.
                c_assert (oe_https_abort env = ESP_OK) (Inr (st\<lparr>https_ota_handle := None\<rparr>)))) (\<lambda>st.
     obind (case decrypt_handle st of
              None \<Rightarrow> Inr st
            | Some h \<Rightarrow> obind (ota_release st h) (\<lambda>st. Inr (st\<lparr>decrypt_handle := None\<rparr>))) (\<lambda>st.
       Inr (st, [Ota_abort err_code])))"

subsection \<open>The decryption callback\<close>

definition validate_image_header :: "ota_env \<Rightarrow> bytes \<Rightarrow> (int \<times> ota_event list) outcome" where
  "validate_image_header env new_app_info =
     (let version = slice 16 APP_VERSION_LEN new_app_info in
      if version = oe_installed env then Inr (ESP_FAIL, [])
      else c_assert (oe_post env) (Inr (ESP_OK, [Ota_validated version])))"

text \<open>\<open>ret\<close> and \<open>data_out\<close> are the results of \<open>esp_encrypted_img_decrypt_data\<close> for the chunk.\<close>

definition ota_img_decrypt_handler ::
  "ota_env \<Rightarrow> int \<times> bytes \<Rightarrow> decrypt_ctx_t \<Rightarrow> (int \<times> decrypt_ctx_t \<times> ota_event list) outcome" where
  "ota_img_decrypt_handler env chunk ctx =
     (let (ret, data_out) = chunk in
      if ret \<noteq> ESP_OK \<and> ret \<noteq> ESP_ERR_NOT_FINISHED then Inr (ret, ctx\<lparr>decrypt_err := OTA_ERR_IMG_INVALID\<rparr>, [])
      else if data_out = [] then Inr (ESP_OK, ctx, [])
      else
        let ctx = ctx\<lparr>decrypted_size := decrypted_size ctx + word_of_nat (length data_out)\<rparr> in
        if img_validated ctx then Inr (ESP_OK, ctx, [])
        else if length data_out < APP_DESC_OFFSET + APP_DESC_SIZE then Inr (ESP_OK, ctx, [])
        else
          obind (validate_image_header env (drop APP_DESC_OFFSET data_out)) (\<lambda>(ret, evs).
            if ret = ESP_OK then Inr (ESP_OK, ctx\<lparr>img_validated := True\<rparr>, evs)
            else Inr (ESP_FAIL, ctx\<lparr>decrypt_err := OTA_ERR_REJECTED\<rparr>, evs)))"

text \<open>The callbacks of one \<open>esp_https_ota_perform\<close>, which ends at the first error.\<close>

fun perform_chunks ::
  "ota_env \<Rightarrow> (int \<times> bytes) list \<Rightarrow> decrypt_ctx_t \<Rightarrow> (int \<times> decrypt_ctx_t \<times> ota_event list) outcome" where
  "perform_chunks env [] ctx = Inr (oe_perform env, ctx, [])"
| "perform_chunks env (c # cs) ctx =
     obind (ota_img_decrypt_handler env c ctx) (\<lambda>(ret, ctx, evs).
       if ret \<noteq> ESP_OK then Inr (ret, ctx, evs)
       else obind (perform_chunks env cs ctx) (\<lambda>(ret, ctx, evs'). Inr (ret, ctx, evs @ evs')))"

definition esp_https_ota_perform :: "ota_env \<Rightarrow> ota_sys \<Rightarrow> (int \<times> ota_sys \<times> ota_event list) outcome" where
  "esp_https_ota_perform env st =
     ota_use st (https_ota_handle st) (ota_use st (decrypt_handle st)
       (obind (perform_chunks env (oe_chunks env) (decrypt_ctx st)) (\<lambda>(ret, ctx, evs).
          Inr (ret, st\<lparr>decrypt_ctx := ctx\<rparr>, evs))))"

subsection \<open>The state machine\<close>

text \<open>Each case yields \<open>ota_err\<close>, the state and the events.\<close>

type_synonym ota_case = "(int \<times> ota_sys \<times> ota_event list) outcome"

definition ota_begin :: "ota_env \<Rightarrow> ota_sys \<Rightarrow> ota_case" where
  "ota_begin env st =
     (let st = st\<lparr>decrypt_ctx := decrypt_ctx_zero, progress_last := 0xFF\<rparr> in
      c_assert (decrypt_handle st = None) (c_assert (https_ota_handle st = None)
       (if \<not> oe_decrypt_start env then Inr (OTA_ERR_INIT, st, [])
        else
          let (h, st) = ota_alloc st; st = st\<lparr>decrypt_handle := Some h\<rparr> in
          if oe_begin env \<noteq> 0 then Inr (OTA_ERR_INTERNAL, st, [])
          else
            let (h, st) = ota_alloc st in
            Inr (OTA_ERR_NONE, st\<lparr>https_ota_handle := Some h, ota_ms := OTA_EVENT_TRANSFER\<rparr>,
                 [Ota_post OTA_EVENT_BEGIN]))))"

text \<open>The progress is computed in 32 bits and cut to 8.\<close>

definition ota_progress :: "u32 \<Rightarrow> int \<Rightarrow> u8 outcome" where
  "ota_progress decrypted img_size =
     (if word_of_int img_size = (0 :: u32) then Inl Undefined
      else Inr (ucast ((decrypted * 100) div word_of_int img_size)))"

definition ota_transfer :: "ota_env \<Rightarrow> ota_sys \<Rightarrow> ota_case" where
  "ota_transfer env st =
     obind (esp_https_ota_perform env st) (\<lambda>(ret, st, evs).
       if ret = ESP_OK then Inr (OTA_ERR_NONE, st\<lparr>ota_ms := OTA_EVENT_DOWNLOADED\<rparr>, evs)
       else if ret \<noteq> ESP_ERR_HTTPS_OTA_IN_PROGRESS then
         Inr (if decrypt_err (decrypt_ctx st) \<noteq> ESP_OK then decrypt_err (decrypt_ctx st) else ret, st, evs)
       else
         c_assert (0 \<le> oe_img_size env)
          (obind (ota_progress (decrypted_size (decrypt_ctx st)) (oe_img_size env)) (\<lambda>progress.
            if progress = progress_last st then Inr (OTA_ERR_NONE, st, evs)
            else
              obind (if progress mod PROGRESS_ACCURACY = 0
                     then c_assert (oe_post env) (Inr [Ota_progress progress]) else Inr []) (\<lambda>ev.
                Inr (OTA_ERR_NONE, st\<lparr>progress_last := progress\<rparr>, evs @ ev)))))"

definition ota_downloaded :: "ota_env \<Rightarrow> ota_sys \<Rightarrow> ota_case" where
  "ota_downloaded env st =
     ota_use st (https_ota_handle st)
      (if \<not> oe_complete env then Inr (OTA_ERR_INCOMPLETE, st, [])
       else Inr (OTA_ERR_NONE, st\<lparr>ota_ms := OTA_EVENT_FINISHED\<rparr>, [Ota_post OTA_EVENT_DOWNLOADED]))"

definition release_opt :: "ota_sys \<Rightarrow> nat option \<Rightarrow> ota_sys outcome" where
  "release_opt st h = (case h of None \<Rightarrow> Inr st | Some a \<Rightarrow> ota_release st a)"

definition ota_finished :: "ota_env \<Rightarrow> ota_sys \<Rightarrow> ota_case" where
  "ota_finished env st =
     obind (release_opt st (decrypt_handle st)) (\<lambda>st.
       if oe_decrypt_end env \<noteq> ESP_OK then Inr (OTA_ERR_VERIFY, st, [])
       else
         obind (release_opt st (https_ota_handle st)) (\<lambda>st.
           if oe_finish env \<noteq> ESP_OK then Inr (OTA_ERR_CLEANUP, st, [Ota_post OTA_EVENT_VERIFIED])
           else Inr (OTA_ERR_NONE, st\<lparr>ota_ms := OTA_EVENT_BEGIN\<rparr>,
                     [Ota_post OTA_EVENT_VERIFIED, Ota_post OTA_EVENT_FINISHED])))"

definition ota_case :: "ota_env \<Rightarrow> ota_sys \<Rightarrow> ota_case" where
  "ota_case env st =
     (case ota_ms st of
        OTA_EVENT_BEGIN \<Rightarrow> ota_begin env st
      | OTA_EVENT_TRANSFER \<Rightarrow> ota_transfer env st
      | OTA_EVENT_DOWNLOADED \<Rightarrow> ota_downloaded env st
      | OTA_EVENT_FINISHED \<Rightarrow> ota_finished env st
      | _ \<Rightarrow> Inr (OTA_ERR_OTHER, st\<lparr>ota_ms := OTA_EVENT_BEGIN\<rparr>, []))"

text \<open>The boolean of the result says whether the task waits for a message (\<open>portMAX_DELAY\<close>).\<close>

definition handle_ota_process ::
  "ota_env \<Rightarrow> bool \<Rightarrow> ota_sys \<Rightarrow> (bool \<times> ota_sys \<times> ota_event list) outcome" where
  "handle_ota_process env restart st =
     (if restart then
        obind (if https_ota_handle st \<noteq> None \<or> decrypt_handle st \<noteq> None
               then abort_ota_handle env OTA_ERR_ABORTED st else Inr (st, [])) (\<lambda>(st, evs).
          Inr (False, st\<lparr>ota_ms := OTA_EVENT_BEGIN\<rparr>, evs))
      else
        obind (ota_case env st) (\<lambda>(ota_err, st, evs).
          if ota_err \<noteq> ESP_OK then
            obind (abort_ota_handle env ota_err (st\<lparr>ota_ms := OTA_EVENT_BEGIN\<rparr>)) (\<lambda>(st, evs').
              Inr (True, st, evs @ evs'))
          else Inr (ota_ms st = OTA_EVENT_BEGIN, st, evs)))"

text \<open>One round of the task; with no message and \<open>portMAX_DELAY\<close> it waits.\<close>

definition http_ota_task_round :: "ota_env \<Rightarrow> ota_sys \<Rightarrow> (ota_sys \<times> ota_event list) outcome" where
  "http_ota_task_round env st =
     (if ota_q st = [] \<and> wait_forever st then Inr (st, [])
      else
        let new_msg = (ota_q st \<noteq> []);
            st = (case ota_q st of [] \<Rightarrow> st | m # q \<Rightarrow> st\<lparr>ota_msg := m, ota_q := q\<rparr>)
        in
        case ota_msg st of
          HTTP_OTA_START url \<Rightarrow>
            obind (handle_ota_process env new_msg st) (\<lambda>(w, st, evs). Inr (st\<lparr>wait_forever := w\<rparr>, evs))
        | HTTP_OTA_ABORT \<Rightarrow>
            obind (abort_ota_handle env OTA_ERR_ABORTED st) (\<lambda>(st, evs). Inr (st\<lparr>wait_forever := True\<rparr>, evs)))"

definition http_ota_submit_start :: "bytes option \<Rightarrow> ota_sys \<Rightarrow> (int \<times> ota_sys) outcome" where
  "http_ota_submit_start url st =
     (case url of
        None \<Rightarrow> Inl Abort
      | Some u \<Rightarrow>
          if u = [] then Inl OutOfBounds
          else c_assert (hd u = 0x2F)
            (if MAX_QUEUE_MSGS \<le> length (ota_q st) then Inr (ESP_ERR_TIMEOUT, st)
             else Inr (ESP_OK, st\<lparr>ota_q := ota_q st @ [HTTP_OTA_START (Some u)]\<rparr>)))"

definition http_ota_submit_abort :: "ota_sys \<Rightarrow> int \<times> ota_sys" where
  "http_ota_submit_abort st =
     (if MAX_QUEUE_MSGS \<le> length (ota_q st) then (ESP_ERR_TIMEOUT, st)
      else (ESP_OK, st\<lparr>ota_q := ota_q st @ [HTTP_OTA_ABORT]\<rparr>))"

datatype ota_op = Ota_start bytes | Ota_stop | Ota_round ota_env

fun ota_step :: "ota_sys \<Rightarrow> ota_op \<Rightarrow> (ota_sys \<times> ota_event list) outcome" where
  "ota_step st (Ota_start u) = obind (http_ota_submit_start (Some (0x2F # u)) st) (\<lambda>(ret, st). Inr (st, []))"
| "ota_step st Ota_stop = Inr (snd (http_ota_submit_abort st), [])"
| "ota_step st (Ota_round env) = http_ota_task_round env st"

fun ota_run :: "ota_sys \<Rightarrow> ota_op list \<Rightarrow> (ota_sys \<times> ota_event list) outcome" where
  "ota_run st [] = Inr (st, [])"
| "ota_run st (op # ops) =
     obind (ota_step st op) (\<lambda>(st, evs). obind (ota_run st ops) (\<lambda>(st, evs'). Inr (st, evs @ evs')))"

subsection \<open>The invariant of the handles\<close>

text \<open>A handle that is set is live, and everything that is live is held by a handle (no leak).\<close>

definition handles_ok :: "ota_sys \<Rightarrow> bool" where
  "handles_ok st \<longleftrightarrow> ota_live st = set_option (https_ota_handle st) \<union> set_option (decrypt_handle st) \<and>
     (https_ota_handle st = None \<or> https_ota_handle st \<noteq> decrypt_handle st) \<and>
     (\<forall>h\<in>ota_live st. h < ota_next st)"

text \<open>While the machine runs (the task does not wait for a message) both handles are there, except in the begin state, which
  has none.\<close>

definition ota_inv :: "ota_sys \<Rightarrow> bool" where
  "ota_inv st \<longleftrightarrow> handles_ok st \<and>
     ota_ms st \<in> {OTA_EVENT_BEGIN, OTA_EVENT_TRANSFER, OTA_EVENT_DOWNLOADED, OTA_EVENT_FINISHED} \<and>
     (if ota_ms st = OTA_EVENT_BEGIN then https_ota_handle st = None \<and> decrypt_handle st = None
      else wait_forever st \<or> https_ota_handle st \<noteq> None \<and> decrypt_handle st \<noteq> None)"

lemma ota_inv_init: "ota_inv ota_init"
  by (simp add: ota_inv_def handles_ok_def ota_init_def)

lemma abort_ok:
  assumes "handles_ok st"
  shows "abort_ota_handle env err st = Inl Abort \<and> https_ota_handle st \<noteq> None \<or>
    (\<exists>st'. abort_ota_handle env err st = Inr (st', [Ota_abort err]) \<and> handles_ok st' \<and>
      st' = st\<lparr>https_ota_handle := None, decrypt_handle := None, ota_live := {}\<rparr>)"
proof -
  have "ota_live st - set_option (https_ota_handle st) - set_option (decrypt_handle st) = {}"
    using assms by (auto simp: handles_ok_def)
  then show ?thesis
    using assms
    by (cases "https_ota_handle st"; cases "decrypt_handle st")
      (auto simp: abort_ota_handle_def handles_ok_def ota_release_def c_assert_def)
qed

lemma decrypt_handler_abort: "ota_img_decrypt_handler env c ctx = Inl e \<Longrightarrow> e = Abort"
  by (auto simp: ota_img_decrypt_handler_def validate_image_header_def c_assert_def Let_def obind_Inl_iff
      split: prod.splits if_splits)

lemma perform_chunks_abort: "perform_chunks env cs ctx = Inl e \<Longrightarrow> e = Abort"
  by (induction cs arbitrary: ctx)
    (auto simp: obind_Inl_iff dest: decrypt_handler_abort split: if_splits)

text \<open>A case of the machine, the last one excepted.\<close>

definition case_inv :: "int \<Rightarrow> ota_sys \<Rightarrow> bool" where
  "case_inv err st \<longleftrightarrow> handles_ok st \<and>
     (err = ESP_OK \<longrightarrow> ota_ms st \<in> {OTA_EVENT_TRANSFER, OTA_EVENT_DOWNLOADED, OTA_EVENT_FINISHED} \<and>
       https_ota_handle st \<noteq> None \<and> decrypt_handle st \<noteq> None)"

lemma ota_begin_ok:
  assumes "handles_ok st" "https_ota_handle st = None" "decrypt_handle st = None"
  shows "\<exists>err st' evs. ota_begin env st = Inr (err, st', evs) \<and> case_inv err st'"
  using assms
  by (auto simp: ota_begin_def ota_alloc_def Let_def case_inv_def handles_ok_def)

lemma ota_perform_ok:
  assumes "handles_ok st"
  shows "(esp_https_ota_perform env st = Inl e \<longrightarrow> e = Abort) \<and>
    (esp_https_ota_perform env st = Inr (ret, st', evs) \<longrightarrow> (\<exists>ctx. st' = st\<lparr>decrypt_ctx := ctx\<rparr>))"
proof -
  have "h \<in> ota_live st" if "https_ota_handle st = Some h \<or> decrypt_handle st = Some h" for h
    using assms that by (auto simp: handles_ok_def)
  then have "esp_https_ota_perform env st =
      obind (perform_chunks env (oe_chunks env) (decrypt_ctx st)) (\<lambda>(ret, ctx, evs). Inr (ret, st\<lparr>decrypt_ctx := ctx\<rparr>, evs))"
    by (auto simp: esp_https_ota_perform_def ota_use_def split: option.split)
  then show ?thesis using perform_chunks_abort by (auto simp: obind_Inl_iff obind_Inr_iff)
qed

lemma handles_ok_upd [simp]:
  "handles_ok (st\<lparr>decrypt_ctx := c\<rparr>) = handles_ok st"
  "handles_ok (st\<lparr>progress_last := p\<rparr>) = handles_ok st"
  "handles_ok (st\<lparr>ota_ms := m\<rparr>) = handles_ok st"
  "handles_ok (st\<lparr>wait_forever := w\<rparr>) = handles_ok st"
  "handles_ok (st\<lparr>ota_q := q\<rparr>) = handles_ok st"
  "handles_ok (st\<lparr>ota_msg := x\<rparr>) = handles_ok st"
  by (simp_all add: handles_ok_def)

lemma ota_progress_Inl: "ota_progress d n = Inl e \<Longrightarrow> e = Undefined"
  by (simp add: ota_progress_def split: if_splits)

lemma ota_transfer_ok:
  assumes "handles_ok st" "https_ota_handle st \<noteq> None" "decrypt_handle st \<noteq> None" "ota_ms st = OTA_EVENT_TRANSFER"
  shows "ota_transfer env st \<noteq> Inl OutOfBounds \<and>
    (ota_transfer env st = Inr (err, st', evs) \<longrightarrow> case_inv err st')"
proof (cases "esp_https_ota_perform env st")
  case (Inl e)
  then show ?thesis using ota_perform_ok [OF assms(1), of env e] by (simp add: ota_transfer_def)
next
  case (Inr r)
  obtain ret s evs1 where r: "r = (ret, s, evs1)" by (cases r)
  then obtain ctx where s: "s = st\<lparr>decrypt_ctx := ctx\<rparr>" using ota_perform_ok [OF assms(1)] Inr by blast
  show ?thesis
    using assms
    by (auto simp: ota_transfer_def Inr r s c_assert_def case_inv_def obind_Inl_iff obind_Inr_iff
        dest: ota_progress_Inl split: if_splits)
qed

lemma ota_downloaded_ok:
  assumes "handles_ok st" "https_ota_handle st \<noteq> None" "decrypt_handle st \<noteq> None"
  shows "\<exists>err st' evs. ota_downloaded env st = Inr (err, st', evs) \<and> case_inv err st'"
  using assms by (auto simp: ota_downloaded_def ota_use_def case_inv_def handles_ok_def)

lemma ota_process_ok:
  assumes "ota_inv st" "\<not> wait_forever st" "ota_ms st \<noteq> OTA_EVENT_FINISHED"
  shows "handle_ota_process env False st \<noteq> Inl OutOfBounds \<and>
    (handle_ota_process env False st = Inr (w, st', evs) \<longrightarrow> ota_inv (st'\<lparr>wait_forever := w\<rparr>))"
proof -
  have c: "ota_case env st \<noteq> Inl OutOfBounds" "ota_case env st = Inr (err, s, ev) \<Longrightarrow> case_inv err s" for err s ev
    using assms ota_begin_ok [of st env] ota_transfer_ok [of st env] ota_downloaded_ok [of st env]
    by (auto simp: ota_inv_def ota_case_def split: if_splits)
  show ?thesis
  proof (cases "ota_case env st")
    case (Inl e)
    then show ?thesis using c(1) by (auto simp: handle_ota_process_def)
  next
    case (Inr r)
    obtain err s ev where r: "r = (err, s, ev)" by (cases r)
    have inv: "case_inv err s" using c(2) Inr r by blast
    show ?thesis
    proof (cases "err = ESP_OK")
      case True
      then show ?thesis using inv by (auto simp: handle_ota_process_def Inr r case_inv_def ota_inv_def)
    next
      case False
      have h: "handles_ok (s\<lparr>ota_ms := OTA_EVENT_BEGIN\<rparr>)" using inv by (simp add: case_inv_def)
      show ?thesis
        using False abort_ok [OF h, of env err]
        by (auto simp: handle_ota_process_def Inr r ota_inv_def handles_ok_def)
    qed
  qed
qed

lemma abort_inv:
  assumes "handles_ok st" "abort_ota_handle env err st = Inr (st', evs)"
  shows "handles_ok st' \<and> https_ota_handle st' = None \<and> decrypt_handle st' = None \<and> ota_ms st' = ota_ms st"
  using abort_ok [OF assms(1), of env err] assms(2) by auto

lemma abort_no_oob: "handles_ok st \<Longrightarrow> abort_ota_handle env err st \<noteq> Inl OutOfBounds"
  using abort_ok [of st env err] by auto

text \<open>\<open>finishing st op\<close>: a round that runs the last state of the machine.\<close>

definition finishing :: "ota_sys \<Rightarrow> ota_op \<Rightarrow> bool" where
  "finishing st op \<longleftrightarrow> (case op of Ota_round env \<Rightarrow> ota_q st = [] \<and> \<not> wait_forever st \<and> ota_msg st \<noteq> HTTP_OTA_ABORT \<and>
     ota_ms st = OTA_EVENT_FINISHED | _ \<Rightarrow> False)"

lemma ota_round_ok:
  assumes "ota_inv st" "\<not> finishing st (Ota_round env)"
  shows "http_ota_task_round env st \<noteq> Inl OutOfBounds \<and>
    (http_ota_task_round env st = Inr (st', evs) \<longrightarrow> ota_inv st')"
proof (cases "ota_q st")
  case Nil
  have h: "handles_ok st" and
    ms: "ota_ms st \<in> {OTA_EVENT_BEGIN, OTA_EVENT_TRANSFER, OTA_EVENT_DOWNLOADED, OTA_EVENT_FINISHED}"
    using assms(1) by (auto simp: ota_inv_def)
  show ?thesis
  proof (cases "wait_forever st")
    case True
    then show ?thesis using Nil assms(1) by (auto simp: http_ota_task_round_def)
  next
    case False
    show ?thesis
    proof (cases "ota_msg st")
      case (HTTP_OTA_START u)
      then have "ota_ms st \<noteq> OTA_EVENT_FINISHED" using assms(2) Nil False by (simp add: finishing_def)
      with ota_process_ok [OF assms(1) False, of env] HTTP_OTA_START Nil False show ?thesis
        by (auto simp: http_ota_task_round_def obind_Inr_iff obind_Inl_iff)
    next
      case HTTP_OTA_ABORT
      then show ?thesis
        using Nil False abort_no_oob [OF h] abort_inv [OF h] ms
        by (auto simp: http_ota_task_round_def obind_Inr_iff obind_Inl_iff ota_inv_def)
    qed
  qed
next
  case (Cons m q)
  let ?st = "st\<lparr>ota_msg := m, ota_q := q\<rparr>"
  have h: "handles_ok ?st" "handles_ok st" and
    ms: "ota_ms st \<in> {OTA_EVENT_BEGIN, OTA_EVENT_TRANSFER, OTA_EVENT_DOWNLOADED, OTA_EVENT_FINISHED}"
    using assms(1) by (auto simp: ota_inv_def)
  have a: "abort_ota_handle env err ?st = Inr (s, ev) \<Longrightarrow> handles_ok s \<and> https_ota_handle s = None \<and>
      decrypt_handle s = None \<and> ota_ms s = ota_ms st" for err s ev
    using abort_inv [OF h(1)] by auto
  show ?thesis
  proof (cases m)
    case (HTTP_OTA_START u)
    let ?busy = "https_ota_handle st \<noteq> None \<or> decrypt_handle st \<noteq> None"
    define r where "r = (if ?busy then abort_ota_handle env OTA_ERR_ABORTED ?st else Inr (?st, []))"
    have eq: "http_ota_task_round env st =
        obind r (\<lambda>(s, ev). Inr (s\<lparr>ota_ms := OTA_EVENT_BEGIN, wait_forever := False\<rparr>, ev))"
      using Cons HTTP_OTA_START by (cases r) (auto simp: r_def http_ota_task_round_def handle_ota_process_def)
    have oob: "r \<noteq> Inl OutOfBounds" using abort_no_oob [OF h(1), of env OTA_ERR_ABORTED] by (simp add: r_def)
    have ok: "handles_ok s \<and> https_ota_handle s = None \<and> decrypt_handle s = None" if "r = Inr (s, ev)" for s ev
    proof (cases ?busy)
      case True
      then show ?thesis using that a [of OTA_ERR_ABORTED s ev] by (simp add: r_def)
    next
      case False
      then show ?thesis using that h(1) by (auto simp: r_def)
    qed
    show ?thesis
    proof (cases r)
      case (Inr x)
      then show ?thesis using ok by (cases x) (auto simp: eq ota_inv_def)
    qed (use oob in \<open>simp add: eq\<close>)
  next
    case HTTP_OTA_ABORT
    have eq: "http_ota_task_round env st =
        obind (abort_ota_handle env OTA_ERR_ABORTED ?st) (\<lambda>(s, ev). Inr (s\<lparr>wait_forever := True\<rparr>, ev))"
      using Cons HTTP_OTA_ABORT by (simp add: http_ota_task_round_def)
    show ?thesis
      using abort_no_oob [OF h(1), of env OTA_ERR_ABORTED] a [of OTA_ERR_ABORTED] ms
      by (auto simp: eq obind_Inl_iff obind_Inr_iff ota_inv_def)
  qed
qed

text \<open>C8. The download task keeps its handles: from its start, over every sequence of start and abort requests and rounds
  with any results of the libraries, no released handle is used or released again and none is
  leaked, as long as no round runs the last state of the machine.\<close>

theorem ota_handles_safe:
  assumes "ota_inv st" "\<not> finishing st op"
  shows "ota_step st op \<noteq> Inl OutOfBounds \<and> (\<forall>st' evs. ota_step st op = Inr (st', evs) \<longrightarrow> ota_inv st')"
proof (cases op)
  case (Ota_start u)
  then show ?thesis
    using assms(1) by (auto simp: http_ota_submit_start_def c_assert_def ota_inv_def split: if_splits)
next
  case Ota_stop
  then show ?thesis using assms(1) by (auto simp: http_ota_submit_abort_def ota_inv_def)
next
  case (Ota_round env)
  then show ?thesis using ota_round_ok [of st env] assms by auto
qed

definition ota_env_ok :: ota_env where
  "ota_env_ok = \<lparr>oe_decrypt_start = True, oe_begin = 0, oe_perform = 0, oe_chunks = [], oe_img_size = 1000,
     oe_complete = True, oe_decrypt_end = 0, oe_finish = 0, oe_https_abort = 0, oe_post = True, oe_installed = replicate 32 0\<rparr>"

theorem ota_handles_safe_witness:
  "\<exists>st' evs. ota_step ota_init (Ota_start [0x61]) = Inr (st', evs) \<and> ota_inv st'"
proof -
  have "\<not> finishing ota_init (Ota_start [0x61])" by (simp add: finishing_def)
  moreover have "\<exists>st' evs. ota_step ota_init (Ota_start [0x61]) = Inr (st', evs)"
    by (simp add: http_ota_submit_start_def ota_init_def)
  ultimately show ?thesis using ota_handles_safe [OF ota_inv_init] by blast
qed

lemmas ota_eval = http_ota_task_round_def handle_ota_process_def ota_case_def ota_begin_def ota_transfer_def
  ota_downloaded_def ota_finished_def esp_https_ota_perform_def ota_use_def ota_alloc_def ota_release_def release_opt_def
  abort_ota_handle_def http_ota_submit_start_def Let_def

text \<open>C29. The last state of the machine always breaks the handles. When the decryption cannot be ended (the image is
  incomplete or its authentication fails) or the image cannot be finished, the round releases a handle a second time.
  When it succeeds, both handles stay set after they were released, and the next message, a start or an
  abort, makes the task release them again.\<close>

theorem ota_finish_releases_twice:
  assumes "ota_inv st" "finishing st (Ota_round env)" "oe_https_abort env = ESP_OK"
  shows "if oe_decrypt_end env = ESP_OK \<and> oe_finish env = ESP_OK
    then \<exists>st'. ota_step st (Ota_round env) = Inr (st', [Ota_post OTA_EVENT_VERIFIED, Ota_post OTA_EVENT_FINISHED]) \<and>
      (\<forall>env' m q. ota_step (st'\<lparr>ota_q := m # q\<rparr>) (Ota_round env') = Inl OutOfBounds)
    else ota_step st (Ota_round env) = Inl OutOfBounds"
proof -
  obtain h d u where st: "ota_q st = []" "\<not> wait_forever st" "ota_msg st = HTTP_OTA_START u" "ota_ms st = OTA_EVENT_FINISHED"
    "https_ota_handle st = Some h" "decrypt_handle st = Some d"
    using assms(1,2) by (cases "ota_msg st") (auto simp: finishing_def ota_inv_def)
  have l: "ota_live st = {h, d}" "h \<noteq> d" using assms(1) st by (auto simp: ota_inv_def handles_ok_def)
  show ?thesis
  proof (cases "oe_decrypt_end env = ESP_OK \<and> oe_finish env = ESP_OK")
    case True
    let ?st' = "st\<lparr>ota_live := {}, ota_ms := OTA_EVENT_BEGIN, wait_forever := True\<rparr>"
    have "ota_step st (Ota_round env) = Inr (?st', [Ota_post OTA_EVENT_VERIFIED, Ota_post OTA_EVENT_FINISHED])"
      using st True by (simp add: ota_eval l insert_Diff_if)
    moreover have "ota_step (?st'\<lparr>ota_q := m # q\<rparr>) (Ota_round env') = Inl OutOfBounds" for env' m q
      using st by (cases m) (simp_all add: ota_eval)
    ultimately show ?thesis using True by auto
  next
    case False
    then show ?thesis using st l assms(3) by (auto simp: ota_eval)
  qed
qed

definition ota_download :: "ota_op list" where
  "ota_download = Ota_start [0x61] # replicate 4 (Ota_round ota_env_ok)"

theorem ota_finish_releases_twice_witness:
  "\<exists>st evs. ota_run ota_init ota_download = Inr (st, evs) \<and>
     (\<exists>st'. ota_step st (Ota_round ota_env_ok) = Inr (st', [Ota_post OTA_EVENT_VERIFIED, Ota_post OTA_EVENT_FINISHED]) \<and>
       ota_step (st'\<lparr>ota_q := [HTTP_OTA_ABORT]\<rparr>) (Ota_round ota_env_ok) = Inl OutOfBounds) \<and>
     ota_step st (Ota_round (ota_env_ok\<lparr>oe_decrypt_end := -1\<rparr>)) = Inl OutOfBounds"
proof -
  obtain st evs where st: "ota_run ota_init ota_download = Inr (st, evs)" "ota_inv st"
    "finishing st (Ota_round ota_env_ok)" "finishing st (Ota_round (ota_env_ok\<lparr>oe_decrypt_end := -1\<rparr>))"
    by (simp add: ota_download_def ota_init_def ota_env_ok_def ota_eval numeral_eq_Suc ota_inv_def handles_ok_def
        finishing_def decrypt_ctx_zero_def) auto
  with ota_finish_releases_twice [OF st(2,3)] ota_finish_releases_twice [OF st(2,4)] show ?thesis
    by (intro exI [of _ st] exI [of _ evs]) (auto simp: ota_env_ok_def simp del: ota_step.simps)
qed

end
