(* ===== verification/EM_Update.thy ===== *)
theory EM_Update
  imports EM_Cscan EM_Sender EM_Utils
begin

section \<open>The update module (main/modules/update/update.c)\<close>

text \<open>
  The state of a firmware update as the server sees it, the start of a download and the numeric firmware version. What
  a function does to the outside is an \<open>update_event\<close>. \<open>esp_restart\<close> does not return, so
  \<open>Ev_restart\<close> is the last event of a function.
\<close>

abbreviation IMAGE_URL_MAX_LEN :: nat where "IMAGE_URL_MAX_LEN \<equiv> 128"

abbreviation UPDATE_ERROR_NONE :: u8 where "UPDATE_ERROR_NONE \<equiv> 0"
abbreviation UPDATE_ERROR_INVALID_DEV_TYPE :: u8 where "UPDATE_ERROR_INVALID_DEV_TYPE \<equiv> 8"
abbreviation UPDATE_ERROR_INVALID_HW_VER :: u8 where "UPDATE_ERROR_INVALID_HW_VER \<equiv> 9"
abbreviation UPDATE_ERROR_ALREADY_INSTALLED :: u8 where "UPDATE_ERROR_ALREADY_INSTALLED \<equiv> 10"
abbreviation UPDATE_ERROR_INVALID_URL :: u8 where "UPDATE_ERROR_INVALID_URL \<equiv> 11"
abbreviation UPDATE_ERROR_SW_FAULT :: u8 where "UPDATE_ERROR_SW_FAULT \<equiv> 12"

datatype update_phase_e =
    UPDATE_PHASE_IDLE | UPDATE_PHASE_STARTED | UPDATE_PHASE_TRANSFER | UPDATE_PHASE_DOWNLOADED
  | UPDATE_PHASE_READY | UPDATE_PHASE_APPLY

fun phase_num :: "update_phase_e \<Rightarrow> u8" where
  "phase_num UPDATE_PHASE_IDLE = 0"
| "phase_num UPDATE_PHASE_STARTED = 1"
| "phase_num UPDATE_PHASE_TRANSFER = 2"
| "phase_num UPDATE_PHASE_DOWNLOADED = 3"
| "phase_num UPDATE_PHASE_READY = 4"
| "phase_num UPDATE_PHASE_APPLY = 5"

record update_state_t =
  us_new_fw_ver :: u32
  us_phase :: update_phase_e
  us_progress :: u8
  us_error :: u8
  us_url :: bytes
  us_policy :: u8

definition update_state_init :: update_state_t where
  "update_state_init =
     \<lparr>us_new_fw_ver = 0, us_phase = UPDATE_PHASE_IDLE, us_progress = 0, us_error = UPDATE_ERROR_NONE,
      us_url = replicate IMAGE_URL_MAX_LEN 0, us_policy = 0\<rparr>"

datatype update_event =
    Ev_tx "tx_event list"
  | Ev_restart
  | Ev_schedule_apply nat
  | Ev_ota_start bytes

definition app_tx :: "send_result \<Rightarrow> update_event list outcome" where
  "app_tx r = obind r (\<lambda>(ret, evs). Inr [Ev_tx evs])"

subsection \<open>The version number\<close>

text \<open>\<open>strtoul(s, &end, 10)\<close> on the memory from \<open>s\<close> on: the value and the offset of \<open>end\<close>.\<close>

fun strtoul_digits :: "nat \<Rightarrow> nat \<Rightarrow> bytes \<Rightarrow> (nat \<times> nat) outcome" where
  "strtoul_digits acc n [] = Inl OutOfBounds"
| "strtoul_digits acc n (b # bs) =
     (if c_digit b then strtoul_digits (acc * 10 + digit_val b) (Suc n) bs else Inr (acc, n))"

definition c_strtoul :: "bytes \<Rightarrow> (u32 \<times> nat) outcome" where
  "c_strtoul mem =
     (let sp = length (takeWhile c_space mem) in
      case drop sp mem of
        [] \<Rightarrow> Inl OutOfBounds
      | b # bs \<Rightarrow>
          let sg = (if c_sign b then 1 else 0) in
          obind (strtoul_digits 0 0 (drop sg (b # bs))) (\<lambda>(v, n).
            if n = 0 then Inr (0, 0)
            else Inr (if 2 ^ 32 \<le> v then - 1 else if b = 45 then - word_of_nat v else word_of_nat v, sp + sg + n)))"

definition get_fw_version_string :: "bytes \<Rightarrow> u32 outcome" where
  "get_fw_version_string version =
     obind (c_strtoul version) (\<lambda>(v, e1).
       let prod = ucast v :: u8; p1 = drop (e1 + 1) version in
     obind (c_strtoul p1) (\<lambda>(v, e2).
       let feat = ucast v :: u8; p2 = drop (e2 + 1) p1 in
     obind (c_strtoul p2) (\<lambda>(v, e3).
       let fix' = ucast v :: u8 in
       Inr (push_bit 16 (ucast prod) OR push_bit 8 (ucast feat) OR ucast fix'))))"

text \<open>\<open>app\<close>: the memory of the installed application description from its version on.\<close>

definition update_numeric_fw_ver :: "bytes \<Rightarrow> u32 outcome" where
  "update_numeric_fw_ver app = get_fw_version_string app"

subsection \<open>Reports\<close>

definition send_update_status :: "net_env \<Rightarrow> bytes \<Rightarrow> update_state_t \<Rightarrow> update_event list outcome" where
  "send_update_status net app us =
     obind (if us_phase us = UPDATE_PHASE_IDLE then update_numeric_fw_ver app else Inr (us_new_fw_ver us)) (\<lambda>new_fw_ver.
       app_tx (protocol_send_update_status net new_fw_ver (us_progress us) (phase_num (us_phase us)) (us_error us)))"

definition update_send_installed_fw :: "net_env \<Rightarrow> bytes \<Rightarrow> i64 \<Rightarrow> update_state_t \<Rightarrow> update_event list outcome" where
  "update_send_installed_fw net app compile_time us =
     (let downloaded_fw = (if us_phase us = UPDATE_PHASE_DOWNLOADED then us_new_fw_ver us else 0xFFFFFFFF) in
      obind (update_numeric_fw_ver app) (\<lambda>v.
        app_tx (protocol_send_installed_fw net v downloaded_fw em_utils_hw_ver compile_time)))"

subsection \<open>Start and application\<close>

definition set_new_fw_url :: "bytes \<Rightarrow> u16 \<Rightarrow> update_state_t \<Rightarrow> (bool \<times> update_state_t) outcome" where
  "set_new_fw_url new_url fw_url_len us =
     (if fw_url_len = 0 then Inr (False, us)
      else if new_url = [] then Inl OutOfBounds
      else if hd new_url \<noteq> 0x2F then Inr (False, us)
      else if IMAGE_URL_MAX_LEN < unat fw_url_len then Inr (False, us)
      else if length new_url < unat fw_url_len then Inl OutOfBounds
      else Inr (True, us\<lparr>us_url := overwrite (replicate IMAGE_URL_MAX_LEN 0) 0 (take (unat fw_url_len) new_url)\<rparr>))"

definition update_start ::
  "int \<Rightarrow> bytes \<Rightarrow> u16 \<Rightarrow> u32 \<Rightarrow> u8 \<Rightarrow> bytes \<Rightarrow> u16 \<Rightarrow> u8 \<Rightarrow> update_state_t \<Rightarrow>
   (u8 \<times> update_state_t \<times> update_event list) outcome" where
  "update_start start app dev_type new_fw_ver hw_ver new_url fw_url_len policy us =
     (if dev_type \<noteq> ucast em_utils_dev_type then
        Inr (UPDATE_ERROR_INVALID_DEV_TYPE, us\<lparr>us_error := UPDATE_ERROR_INVALID_DEV_TYPE\<rparr>, [])
      else if hw_ver \<noteq> em_utils_hw_ver then
        Inr (UPDATE_ERROR_INVALID_HW_VER, us\<lparr>us_error := UPDATE_ERROR_INVALID_HW_VER\<rparr>, [])
      else
        obind (update_numeric_fw_ver app) (\<lambda>installed_fw.
          if new_fw_ver = installed_fw then
            Inr (UPDATE_ERROR_ALREADY_INSTALLED, us\<lparr>us_error := UPDATE_ERROR_ALREADY_INSTALLED\<rparr>, [])
          else
            obind (set_new_fw_url new_url fw_url_len us) (\<lambda>(ok, us).
              if \<not> ok then Inr (UPDATE_ERROR_INVALID_URL, us\<lparr>us_error := UPDATE_ERROR_INVALID_URL\<rparr>, [])
              else
                let us = us\<lparr>us_new_fw_ver := new_fw_ver, us_policy := policy\<rparr> in
                if start \<noteq> ESP_OK then
                  Inr (UPDATE_ERROR_SW_FAULT, us\<lparr>us_error := UPDATE_ERROR_SW_FAULT\<rparr>, [Ev_ota_start (us_url us)])
                else Inr (UPDATE_ERROR_NONE, us\<lparr>us_error := UPDATE_ERROR_NONE\<rparr>, [Ev_ota_start (us_url us)]))))"

definition update_apply :: "u32 \<Rightarrow> update_state_t \<Rightarrow> update_state_t \<times> update_event list" where
  "update_apply delay_ms us =
     (let us = us\<lparr>us_phase := UPDATE_PHASE_APPLY\<rparr> in
      if us_policy us = 0
      then (us, if delay_ms \<noteq> 0 then [Ev_schedule_apply (unat delay_ms)] else [Ev_restart])
      else (us, []))"

definition update_apply_delayed :: "update_event list" where
  "update_apply_delayed = [Ev_restart]"

text \<open>\<open>update_fw_url\<close>: \<open>NULL\<close> for an empty address; \<open>strlen\<close> needs the terminator.\<close>

definition update_fw_url :: "update_state_t \<Rightarrow> (bytes option \<times> u32) outcome" where
  "update_fw_url us =
     obind (c_string (us_url us)) (\<lambda>s. Inr (if s = [] then None else Some s, us_new_fw_ver us))"

subsection \<open>Handlers of the download events\<close>

definition update_error_handler ::
  "net_env \<Rightarrow> bytes \<Rightarrow> u8 \<Rightarrow> update_state_t \<Rightarrow> (update_state_t \<times> update_event list) outcome" where
  "update_error_handler net app error_code us =
     (let us = us\<lparr>us_error := error_code\<rparr> in
      obind (send_update_status net app us) (\<lambda>evs. Inr (us, evs)))"

definition update_new_progress_handler ::
  "net_env \<Rightarrow> bytes \<Rightarrow> u8 \<Rightarrow> update_state_t \<Rightarrow> (update_state_t \<times> update_event list) outcome" where
  "update_new_progress_handler net app new_progress us =
     (if new_progress \<noteq> us_progress us then
        let us = us\<lparr>us_progress := new_progress, us_phase := UPDATE_PHASE_TRANSFER\<rparr> in
        obind (send_update_status net app us) (\<lambda>evs. Inr (us, evs))
      else Inr (us, []))"

definition update_started_handler ::
  "net_env \<Rightarrow> bytes \<Rightarrow> bytes \<Rightarrow> update_state_t \<Rightarrow> (update_state_t \<times> update_event list) outcome" where
  "update_started_handler net app version us =
     obind (get_fw_version_string version) (\<lambda>v.
       let us = us\<lparr>us_phase := UPDATE_PHASE_STARTED, us_new_fw_ver := v, us_progress := 0,
                   us_error := UPDATE_ERROR_NONE\<rparr> in
       obind (send_update_status net app us) (\<lambda>evs. Inr (us, evs)))"

definition update_downloaded_handler ::
  "net_env \<Rightarrow> bytes \<Rightarrow> update_state_t \<Rightarrow> (update_state_t \<times> update_event list) outcome" where
  "update_downloaded_handler net app us =
     (let us = us\<lparr>us_phase := UPDATE_PHASE_DOWNLOADED, us_progress := 100\<rparr> in
      obind (send_update_status net app us) (\<lambda>evs. Inr (us, evs)))"

definition update_ready_handler ::
  "net_env \<Rightarrow> bytes \<Rightarrow> update_state_t \<Rightarrow> (update_state_t \<times> update_event list) outcome" where
  "update_ready_handler net app us =
     (let us = us\<lparr>us_phase := UPDATE_PHASE_READY\<rparr> in
      obind (send_update_status net app us) (\<lambda>evs. Inr (us, evs)))"

definition update_in_progress :: "update_state_t \<Rightarrow> bool" where
  "update_in_progress us \<longleftrightarrow> us_phase us \<noteq> UPDATE_PHASE_IDLE"

subsection \<open>Version numbers\<close>

lemma strtoul_digits_stop:
  assumes "list_all c_digit ds" "\<not> c_digit b"
  shows "strtoul_digits acc n (ds @ b # rest) = Inr (foldl (\<lambda>acc b. acc * 10 + digit_val b) acc ds, n + length ds)"
  using assms by (induction ds arbitrary: acc n) simp_all

lemma c_strtoul_digits:
  assumes "list_all c_digit ds" "ds \<noteq> []" "\<not> c_digit b" "text_value 10 ds < 2 ^ 32"
  shows "c_strtoul (ds @ b # rest) = Inr (word_of_nat (text_value 10 ds), length ds)"
proof -
  obtain d ds' where ds: "ds = d # ds'" "c_digit d" using assms(1,2) by (cases ds) auto
  then have "d \<noteq> 45" by (auto simp: c_digit_def)
  then show ?thesis
    using ds strtoul_digits_stop [OF assms(1,3), of 0 0 rest] assms(4)
    by (simp add: c_strtoul_def Let_def text_value_def)
qed

text \<open>The version text of a release: three decimal numbers with dots between, and something that is no digit after them.\<close>

definition version_text :: "bytes \<Rightarrow> bytes \<Rightarrow> bytes \<Rightarrow> u8 \<Rightarrow> bytes \<Rightarrow> bytes" where
  "version_text x y z t rest = x @ 46 # y @ 46 # z @ t # rest"

definition number_field :: "bytes \<Rightarrow> bool" where
  "number_field ds \<longleftrightarrow> ds \<noteq> [] \<and> list_all c_digit ds \<and> text_value 10 ds < 2 ^ 32"

lemma ucast_of_nat_8: "v < 2 ^ 32 \<Longrightarrow> (ucast (word_of_nat v :: u32) :: u8) = word_of_nat v"
  by (simp add: word_unat_eq_iff unsigned_ucast_eq unat_of_nat take_bit_nat_def)

lemma c_digit_dot [simp]: "\<not> c_digit 46"
  by (simp add: c_digit_def)

lemma three_bytes:
  "unat (push_bit 16 (ucast (a :: u8)) OR push_bit 8 (ucast (b :: u8)) OR ucast (c :: u8) :: u32) =
     unat a * 65536 + unat b * 256 + unat c"
proof -
  have a: "unat a < 256" "unat b < 256" "unat c < 256"
    using unsigned_less [of a, where 'a = nat] unsigned_less [of b, where 'a = nat] unsigned_less [of c, where 'a = nat] by simp_all
  have "push_bit 8 (ucast b :: u32) OR ucast c = push_bit 8 (ucast b) + ucast c"
    by (rule disjunctive_add_eq_or [symmetric], rule bit_word_eqI) (auto simp: bit_simps dest: bit_imp_le_length)
  moreover have "push_bit 16 (ucast a :: u32) OR (push_bit 8 (ucast b) OR ucast c) =
      push_bit 16 (ucast a) + (push_bit 8 (ucast b) OR ucast c)"
    by (rule disjunctive_add_eq_or [symmetric], rule bit_word_eqI) (auto simp: bit_simps dest: bit_imp_le_length)
  ultimately have eq: "push_bit 16 (ucast a :: u32) OR push_bit 8 (ucast b) OR ucast c =
      word_of_nat (unat a * 65536 + unat b * 256 + unat c)"
    by (simp add: push_bit_eq_mult or.assoc mult.commute)
  show ?thesis unfolding eq using a by (intro unat_word_of_nat) simp
qed

text \<open>The number of a release \<open>x.y.z\<close> is read from its text as the three numbers cut to a byte each: FIX keeps
  only its low byte, and the number is the documented one (PROD in the highest byte, FIX in the
  low 16 bits) only for releases \<open>0.0.z\<close> with \<open>z < 256\<close>.\<close>

lemma version_number:
  assumes "number_field x" "number_field y" "number_field z" "\<not> c_digit t"
  defines "p \<equiv> text_value 10 x" and "q \<equiv> text_value 10 y" and "r \<equiv> text_value 10 z"
  shows "\<exists>w. update_numeric_fw_ver (version_text x y z t rest) = Inr w \<and>
    unat w = (p mod 256) * 65536 + (q mod 256) * 256 + r mod 256 \<and>
    (p < 256 \<and> q < 256 \<and> r < 65536 \<longrightarrow>
      (w = word_of_nat (p * 2 ^ 24 + q * 2 ^ 16 + r) \<longleftrightarrow> p = 0 \<and> q = 0 \<and> r < 256))"
proof -
  have x: "c_strtoul (x @ 46 # rs) = Inr (word_of_nat p, length x)" for rs
    using assms(1) by (simp add: number_field_def p_def c_strtoul_digits)
  have y: "c_strtoul (y @ 46 # rs) = Inr (word_of_nat q, length y)" for rs
    using assms(2) by (simp add: number_field_def q_def c_strtoul_digits)
  have z: "c_strtoul (z @ t # rs) = Inr (word_of_nat r, length z)" for rs
    using assms(3,4) by (simp add: number_field_def r_def c_strtoul_digits)
  have lt: "p < 2 ^ 32" "q < 2 ^ 32" "r < 2 ^ 32" using assms(1-3) by (simp_all add: number_field_def p_def q_def r_def)
  let ?w = "push_bit 16 (ucast (word_of_nat p :: u8)) OR push_bit 8 (ucast (word_of_nat q :: u8)) OR
      ucast (word_of_nat r :: u8) :: u32"
  have "update_numeric_fw_ver (version_text x y z t rest) = Inr ?w"
    by (simp add: update_numeric_fw_ver_def get_fw_version_string_def version_text_def Let_def
        x y z lt [THEN ucast_of_nat_8])
  moreover have w: "unat ?w = (p mod 256) * 65536 + (q mod 256) * 256 + r mod 256"
    by (simp add: three_bytes unat_of_nat)
  moreover have "?w = word_of_nat (p * 2 ^ 24 + q * 2 ^ 16 + r) \<longleftrightarrow> p = 0 \<and> q = 0 \<and> r < 256"
    if "p < 256 \<and> q < 256 \<and> r < 65536"
  proof -
    have "p * 2 ^ 24 + q * 2 ^ 16 + r < 2 ^ 32" using that by simp
    then have "unat (word_of_nat (p * 2 ^ 24 + q * 2 ^ 16 + r) :: u32) = p * 2 ^ 24 + q * 2 ^ 16 + r"
      by (intro unat_word_of_nat) simp
    then have "?w = word_of_nat (p * 2 ^ 24 + q * 2 ^ 16 + r) \<longleftrightarrow>
        (p mod 256) * 65536 + (q mod 256) * 256 + r mod 256 = p * 2 ^ 24 + q * 2 ^ 16 + r"
      by (simp only: word_unat_eq_iff w)
    moreover define rd rm where "rd = r div 256" and "rm = r mod 256"
    moreover have "r = rd * 256 + rm" "rm < 256" "p mod 256 = p" "q mod 256 = q"
      using that by (simp_all add: rd_def rm_def)
    moreover have "p * 65536 + q * 256 + rm = p * 2 ^ 24 + q * 2 ^ 16 + (rd * 256 + rm) \<longleftrightarrow> p = 0 \<and> q = 0 \<and> rd = 0"
      by (rule iffI) (simp_all add: power_numeral_reduce)
    moreover have "rd = 0 \<longleftrightarrow> r < 256" by (auto simp: rd_def)
    ultimately show ?thesis by metis
  qed
  ultimately show ?thesis by blast
qed

subsection \<open>Starting an update\<close>

definition start_accepted :: "u32 \<Rightarrow> u16 \<Rightarrow> u32 \<Rightarrow> u8 \<Rightarrow> bytes \<Rightarrow> u16 \<Rightarrow> bool" where
  "start_accepted installed dev_type new_fw_ver hw_ver url url_len \<longleftrightarrow>
     dev_type = 2 \<and> hw_ver = 2 \<and> new_fw_ver \<noteq> installed \<and> url_len \<noteq> 0 \<and> hd url = 0x2F \<and> unat url_len \<le> IMAGE_URL_MAX_LEN"

lemma c_string_fault: "c_string mem = Inl OutOfBounds \<longleftrightarrow> 0 \<notin> set mem"
  by (simp add: c_string_def)

text \<open>C24. A start request hands the address to the download exactly when the device type, the hardware version, the
  firmware version and the address pass their checks; its code is stored and returned, and the phase is unchanged. The stored
  address has no terminator exactly when it fills the whole array with nonzero bytes, and then
  \<open>update_fw_url\<close> reads past it.\<close>

theorem update_start_checks:
  assumes "update_numeric_fw_ver app = Inr v" "url \<noteq> []" "unat url_len \<le> length url"
  shows "\<exists>code us' evs. update_start start app dev_type fw hw url url_len policy us = Inr (code, us', evs) \<and>
    us_error us' = code \<and> us_phase us' = us_phase us \<and>
    (code = UPDATE_ERROR_NONE \<longleftrightarrow> start_accepted v dev_type fw hw url url_len \<and> start = ESP_OK) \<and>
    (if start_accepted v dev_type fw hw url url_len
     then evs = [Ev_ota_start (us_url us')] \<and> us_new_fw_ver us' = fw \<and> us_policy us' = policy \<and>
       take (unat url_len) (us_url us') = take (unat url_len) url \<and>
       (update_fw_url us' = Inl OutOfBounds \<longleftrightarrow> unat url_len = IMAGE_URL_MAX_LEN \<and> 0 \<notin> set (take IMAGE_URL_MAX_LEN url))
     else evs = [] \<and> us_new_fw_ver us' = us_new_fw_ver us)"
proof (cases "start_accepted v dev_type fw hw url url_len")
  case True
  let ?n = "unat url_len"
  have acc: "dev_type = 2" "hw = 2" "fw \<noteq> v" "url_len \<noteq> 0" "hd url = 0x2F" "?n \<le> 128"
    using True by (simp_all add: start_accepted_def)
  let ?u = "overwrite (replicate 128 0) 0 (take ?n url)"
  have len: "length (take ?n url) = ?n" using assms(3) by simp
  have pre: "take ?n ?u = take ?n url" by (rule take_overwrite_0) (use assms(3) in simp)
  have z: "0 \<notin> set ?u \<longleftrightarrow> ?n = 128 \<and> 0 \<notin> set (take 128 url)"
    using acc(6) assms(3) by (auto simp: overwrite_def set_replicate_conv_if)
  have f: "update_fw_url (us\<lparr>us_url := ?u, us_new_fw_ver := fw, us_policy := policy, us_error := e\<rparr>) = Inl OutOfBounds \<longleftrightarrow>
      ?n = 128 \<and> 0 \<notin> set (take 128 url)" for e
    using z by (simp add: update_fw_url_def obind_Inl_iff c_string_fault)
  show ?thesis
    using True acc assms pre f
    by (simp add: update_start_def set_new_fw_url_def em_utils_dev_type_def em_utils_hw_ver_def Let_def not_less)
next
  case False
  then show ?thesis
    using assms
    by (auto simp: update_start_def set_new_fw_url_def start_accepted_def em_utils_dev_type_def em_utils_hw_ver_def Let_def)
qed

theorem update_start_checks_witness:
  "\<exists>code us' evs. update_start 0 (version_text [49] [50] [51] 0 []) 2 5 2 (0x2F # replicate 128 0x61) 128 1 update_state_init =
      Inr (code, us', evs) \<and> code = UPDATE_ERROR_NONE \<and> update_fw_url us' = Inl OutOfBounds"
proof -
  have "update_numeric_fw_ver (version_text [49] [50] [51] 0 []) = Inr 0x010203"
    by (simp add: update_numeric_fw_ver_def get_fw_version_string_def version_text_def c_strtoul_def c_space_def c_sign_def
        c_digit_def digit_val_def)
  from update_start_checks [OF this, of "0x2F # replicate 128 0x61" 128 0 2 5 2 1 update_state_init]
  show ?thesis by (auto simp: start_accepted_def)
qed

end
