(* ===== verification/EM_Coredump.thy ===== *)
theory EM_Coredump
  imports EM_Sender
begin

section \<open>Core dump transfer (em_coredump/coredump.c)\<close>

text \<open>
  After a crash the image in the core dump partition is sent block by block: \<open>coredump_start\<close> announces it, and
  every report of the TCP client that a message was sent triggers the next block. The core dump library, the flash and
  the random number are parameters (\<open>cd_env\<close>); the three callbacks are those of \<open>coredump_api_t\<close>.
  \<open>ESP_ERROR_CHECK\<close> restarts the device when its argument is not \<open>ESP_OK\<close>.
\<close>

abbreviation COREDUMP_BLOCK_MAX_SIZE :: nat where "COREDUMP_BLOCK_MAX_SIZE \<equiv> 1024"
abbreviation ESP_ERR_INVALID_CRC :: int where "ESP_ERR_INVALID_CRC \<equiv> 0x109"

record coredump_api_t =
  cd_valid :: "(u32 \<Rightarrow> send_result) option"
  cd_body :: "(u32 \<Rightarrow> u16 \<Rightarrow> bytes \<Rightarrow> send_result) option"
  cd_end :: "(u32 \<Rightarrow> send_result) option"

record coredump_s =
  cd_api :: coredump_api_t
  cd_ver :: u32
  cd_addr :: u32
  cd_size_left :: u32
  cd_ready :: bool

record cd_env =
  cd_image_check :: int
  cd_image_get :: "int \<times> u32 \<times> u32"
  cd_image_erase :: int
  cd_random :: u32
  cd_flash_read :: "u32 \<Rightarrow> nat \<Rightarrow> int \<times> bytes"

datatype coredump_event = Cd_erase | Cd_sent send_result

definition api_none :: coredump_api_t where
  "api_none = \<lparr>cd_valid = None, cd_body = None, cd_end = None\<rparr>"

definition coredump_zero :: coredump_s where
  "coredump_zero = \<lparr>cd_api = api_none, cd_ver = 0, cd_addr = 0, cd_size_left = 0, cd_ready = False\<rparr>"

text \<open>A call of a callback: nothing for \<open>NULL\<close>, and a fault of the callback is a fault of the caller.\<close>

definition cd_call :: "send_result option \<Rightarrow> coredump_event list outcome" where
  "cd_call r = (case r of None \<Rightarrow> Inr [] | Some r \<Rightarrow> obind r (\<lambda>x. Inr [Cd_sent (Inr x)]))"

definition is_coredump_present :: "cd_env \<Rightarrow> (bool \<times> coredump_event list) outcome" where
  "is_coredump_present env =
     (let ret = cd_image_check env in
      if ret = ESP_ERR_NOT_FOUND then Inr (False, [])
      else if ret = ESP_ERR_INVALID_SIZE \<or> ret = ESP_ERR_INVALID_CRC then
        c_assert (cd_image_erase env = ESP_OK) (Inr (False, [Cd_erase]))
      else c_assert (ret = ESP_OK) (Inr (True, [])))"

definition coredump_on_data_sent_callback ::
  "cd_env \<Rightarrow> bool \<Rightarrow> coredump_s \<Rightarrow> (int \<times> coredump_s \<times> coredump_event list) outcome" where
  "coredump_on_data_sent_callback env success cd =
     (if \<not> cd_ready cd then Inr (ESP_ERR_INVALID_STATE, cd, [])
      else if \<not> success \<or> cd_size_left cd = 0 then
        Inr (ESP_ERR_INVALID_SIZE, cd\<lparr>cd_api := api_none, cd_ready := False\<rparr>, [])
      else
        let block_len = word_of_nat (min (unat (cd_size_left cd)) COREDUMP_BLOCK_MAX_SIZE) :: u16;
            last_block = sint (cd_size_left cd) - int (unat block_len) \<le> 0;
            (err, block_data) = cd_flash_read env (cd_addr cd) (unat block_len) in
        c_assert (err = ESP_OK)
          (obind (cd_call (map_option (\<lambda>f. f (cd_ver cd) block_len block_data) (cd_body (cd_api cd)))) (\<lambda>body.
           obind (if last_block then cd_call (map_option (\<lambda>f. f (cd_ver cd)) (cd_end (cd_api cd))) else Inr []) (\<lambda>fin.
             Inr (ESP_OK,
               cd\<lparr>cd_addr := cd_addr cd + ucast block_len, cd_size_left := cd_size_left cd - ucast block_len\<rparr>,
               body @ fin)))))"

definition coredump_start ::
  "cd_env \<Rightarrow> coredump_api_t \<Rightarrow> coredump_s \<Rightarrow> (int \<times> coredump_s \<times> coredump_event list) outcome" where
  "coredump_start env cfg cd =
     obind (is_coredump_present env) (\<lambda>(present, erased).
       if \<not> present then Inr (ESP_ERR_NOT_FOUND, cd, erased)
       else
         let (err, addr, size) = cd_image_get env in
         c_assert (err = ESP_OK)
           (let cd = \<lparr>cd_api = cfg, cd_ver = cd_random env, cd_addr = addr, cd_size_left = size, cd_ready = True\<rparr> in
            obind (cd_call (map_option (\<lambda>f. f (cd_ver cd)) (cd_valid cfg))) (\<lambda>evs.
              Inr (ESP_OK, cd, erased @ evs))))"

definition coredump_erase :: "cd_env \<Rightarrow> int \<times> coredump_event list" where
  "coredump_erase env = (cd_image_erase env, [Cd_erase])"

definition firmware_coredump_api :: "net_env \<Rightarrow> coredump_api_t" where
  "firmware_coredump_api net =
     \<lparr>cd_valid = Some (protocol_send_diag_coredump_start net), cd_body = Some (protocol_send_diag_coredump_body net),
      cd_end = Some (protocol_send_diag_coredump_end net)\<rparr>"

subsection \<open>A whole transfer\<close>

text \<open>\<open>coredump_reports env m cd\<close>: the module after \<open>m\<close> reports of a sent message, and what it sent.\<close>

fun coredump_reports :: "cd_env \<Rightarrow> nat \<Rightarrow> coredump_s \<Rightarrow> (coredump_s \<times> coredump_event list) outcome" where
  "coredump_reports env 0 cd = Inr (cd, [])"
| "coredump_reports env (Suc m) cd =
     obind (coredump_reports env m cd) (\<lambda>(cd, evs).
     obind (coredump_on_data_sent_callback env True cd) (\<lambda>(ret, cd, evs').
       Inr (cd, evs @ evs')))"

text \<open>The image lies in the flash at \<open>addr\<close>: the library finds it, and reads inside it succeed.\<close>

definition image_in_flash :: "cd_env \<Rightarrow> u32 \<Rightarrow> bytes \<Rightarrow> bool" where
  "image_in_flash env addr img \<longleftrightarrow>
     cd_image_check env = ESP_OK \<and> cd_image_get env = (ESP_OK, addr, word_of_nat (length img)) \<and>
     img \<noteq> [] \<and> length img < 2 ^ 31 \<and> unat addr + length img < 2 ^ 32 \<and>
     (\<forall>off k. off + k \<le> length img \<longrightarrow>
       cd_flash_read env (addr + word_of_nat off) k = (ESP_OK, take k (drop off img)))"

definition cd_block :: "bytes \<Rightarrow> nat \<Rightarrow> bytes" where
  "cd_block img i = take COREDUMP_BLOCK_MAX_SIZE (drop (COREDUMP_BLOCK_MAX_SIZE * i) img)"

definition cd_blocks :: "bytes \<Rightarrow> nat" where
  "cd_blocks img = (length img + 1023) div COREDUMP_BLOCK_MAX_SIZE"

definition body_payload :: "u32 \<Rightarrow> bytes \<Rightarrow> bytes" where
  "body_payload ver block =
     wire_u16 MSGTYPE_DIAG_COREDUMP_BODY @ wire_u32 ver @ wire_u16 (word_of_nat (length block)) @ block"

definition transfer_payloads :: "u32 \<Rightarrow> bytes \<Rightarrow> nat \<Rightarrow> bytes list" where
  "transfer_payloads ver img m =
     map (\<lambda>i. body_payload ver (cd_block img i)) [0..<min m (cd_blocks img)] @
     (if cd_blocks img \<le> m then [wire_u16 MSGTYPE_DIAG_COREDUMP_END @ wire_u32 ver] else [])"

definition cd_sends :: "net_env \<Rightarrow> coredump_event \<Rightarrow> bytes \<Rightarrow> bool" where
  "cd_sends net e bs \<longleftrightarrow> (\<exists>r. e = Cd_sent r \<and> sends net r bs)"

lemma sends_Inr: "sends net r bs \<Longrightarrow> \<exists>x. r = Inr x"
  by (auto simp: sends_def)

lemma cd_call_sends: "sends net r bs \<Longrightarrow> \<exists>e. cd_call (Some r) = Inr [e] \<and> cd_sends net e bs"
  using sends_Inr [of net r bs] by (auto simp: cd_call_def cd_sends_def)

lemma cd_blocks_less: "m < cd_blocks img \<longleftrightarrow> 1024 * m < length img"
  unfolding cd_blocks_def by linarith

lemma concat_blocks: "concat (map (cd_block img) [0..<m]) = take (1024 * m) img"
proof (induction m)
  case (Suc m)
  have "1024 * Suc m = 1024 * m + 1024" by simp
  then show ?case using Suc by (simp only: upt_Suc_append take_add) (simp add: cd_block_def)
qed simp

text \<open>The state after \<open>m\<close> blocks.\<close>

definition cd_at :: "net_env \<Rightarrow> u32 \<Rightarrow> u32 \<Rightarrow> bytes \<Rightarrow> nat \<Rightarrow> coredump_s" where
  "cd_at net ver addr img m =
     (let off = min (1024 * m) (length img) in
      \<lparr>cd_api = firmware_coredump_api net, cd_ver = ver, cd_addr = addr + word_of_nat off,
       cd_size_left = word_of_nat (length img - off), cd_ready = True\<rparr>)"

lemma cd_report_block:
  assumes "net_ok net" "image_in_flash env addr img" "m < cd_blocks img"
  shows "\<exists>evs. coredump_on_data_sent_callback env True (cd_at net ver addr img m) =
      Inr (ESP_OK, cd_at net ver addr img (Suc m), evs) \<and>
    list_all2 (cd_sends net) evs (body_payload ver (cd_block img m) #
      (if Suc m = cd_blocks img then [wire_u16 MSGTYPE_DIAG_COREDUMP_END @ wire_u32 ver] else []))"
proof -
  let ?n = "length img"
  have m: "1024 * m < ?n" using assms(3) by (simp add: cd_blocks_less)
  have n: "?n < 2 ^ 31" using assms(2) by (simp add: image_in_flash_def)
  define left where "left = ?n - 1024 * m"
  have left: "0 < left" "left < 2 ^ 31" using m n by (simp_all add: left_def)
  define k where "k = min left 1024"
  have k: "0 < k" "k \<le> 1024" "k \<le> left" using left by (simp_all add: k_def)
  have at: "cd_at net ver addr img m = \<lparr>cd_api = firmware_coredump_api net, cd_ver = ver,
      cd_addr = addr + word_of_nat (1024 * m), cd_size_left = word_of_nat left, cd_ready = True\<rparr>"
    using m by (simp add: cd_at_def left_def min_def)
  have ul: "unat (word_of_nat left :: u32) = left" using left by (intro unat_word_of_nat) simp
  have uk: "unat (word_of_nat k :: u16) = k" using k by (intro unat_word_of_nat) simp
  have sl: "sint (word_of_nat left :: u32) = int left"
    using left by (simp add: signed_of_nat signed_take_bit_int_eq_self)
  have nz: "(word_of_nat left :: u32) \<noteq> 0" using left ul by (metis unat_0 less_irrefl)
  have uc: "(ucast (word_of_nat k :: u16) :: u32) = word_of_nat k"
    using uk k by (simp add: word_unat_eq_iff unat_ucast_up unat_word_of_nat)
  have "1024 * m + k \<le> ?n" using m by (simp add: k_def left_def)
  then have "cd_flash_read env (addr + word_of_nat (1024 * m)) k = (ESP_OK, take k (drop (1024 * m) img))"
    using assms(2) unfolding image_in_flash_def by blast
  moreover have "take k (drop (1024 * m) img) = cd_block img m" by (simp add: cd_block_def k_def left_def min_def)
  ultimately have block: "cd_flash_read env (addr + word_of_nat (1024 * m)) k = (ESP_OK, cd_block img m)"
    "length (cd_block img m) = k"
    by (simp_all add: cd_block_def k_def left_def min_def)
  have "Suc m = cd_blocks img \<longleftrightarrow> left \<le> k"
    using m cd_blocks_less [of "Suc m" img] assms(3) by (auto simp: k_def left_def)
  moreover have "uint (word_of_nat k :: u16) = int k" using uk by (metis uint_nat)
  ultimately have last: "sint (word_of_nat left :: u32) \<le> uint (word_of_nat k :: u16) \<longleftrightarrow> Suc m = cd_blocks img"
    unfolding sl by simp
  have next': "cd_at net ver addr img (Suc m) = \<lparr>cd_api = firmware_coredump_api net, cd_ver = ver,
      cd_addr = addr + word_of_nat (1024 * m) + word_of_nat k, cd_size_left = word_of_nat left - word_of_nat k,
      cd_ready = True\<rparr>"
  proof -
    have "min (1024 * Suc m) ?n = 1024 * m + k" using m by (simp add: k_def left_def)
    then have "cd_at net ver addr img (Suc m) = \<lparr>cd_api = firmware_coredump_api net, cd_ver = ver,
        cd_addr = addr + word_of_nat (1024 * m + k), cd_size_left = word_of_nat (left - k), cd_ready = True\<rparr>"
      by (simp add: cd_at_def Let_def left_def)
    then show ?thesis using k by (simp add: of_nat_diff add.assoc)
  qed
  obtain e where e: "cd_call (Some (protocol_send_diag_coredump_body net ver (word_of_nat k) (cd_block img m))) = Inr [e]"
      "cd_sends net e (body_payload ver (cd_block img m))"
    using cd_call_sends [OF coredump_body_sends [OF assms(1), of "word_of_nat k" "cd_block img m" ver]] k uk block(2)
    by (auto simp: body_payload_def)
  obtain e' where e': "cd_call (Some (protocol_send_diag_coredump_end net ver)) = Inr [e']"
      "cd_sends net e' (wire_u16 MSGTYPE_DIAG_COREDUMP_END @ wire_u32 ver)"
    using cd_call_sends [OF coredump_end_sends [OF assms(1), of ver]] by blast
  have mn: "min (unat (word_of_nat left :: u32)) 1024 = k" by (simp add: ul k_def)
  show ?thesis
    unfolding at next'
    using nz e e' block(1)
    by (simp add: coredump_on_data_sent_callback_def mn uk uc last firmware_coredump_api_def Let_def)
qed

lemma cd_reports_blocks:
  assumes "net_ok net" "image_in_flash env addr img" "m \<le> cd_blocks img"
  shows "\<exists>evs. coredump_reports env m (cd_at net ver addr img 0) = Inr (cd_at net ver addr img m, evs) \<and>
    list_all2 (cd_sends net) evs (transfer_payloads ver img m)"
  using assms(3)
proof (induction m)
  case 0
  have "cd_blocks img \<noteq> 0" using assms(2) cd_blocks_less [of 0 img] by (auto simp: image_in_flash_def)
  then show ?case by (simp add: transfer_payloads_def)
next
  case (Suc m)
  then obtain evs where evs: "coredump_reports env m (cd_at net ver addr img 0) = Inr (cd_at net ver addr img m, evs)"
    "list_all2 (cd_sends net) evs (map (\<lambda>i. body_payload ver (cd_block img i)) [0..<m])"
    by (auto simp: transfer_payloads_def)
  obtain evs' where "coredump_on_data_sent_callback env True (cd_at net ver addr img m) =
      Inr (ESP_OK, cd_at net ver addr img (Suc m), evs')"
    "list_all2 (cd_sends net) evs' (body_payload ver (cd_block img m) #
      (if Suc m = cd_blocks img then [wire_u16 MSGTYPE_DIAG_COREDUMP_END @ wire_u32 ver] else []))"
    using cd_report_block [OF assms(1,2)] Suc.prems by (metis Suc_le_lessD)
  with evs Suc.prems show ?case
    by (auto simp: transfer_payloads_def list_all2_appendI min_def)
qed

lemma cd_reports_done:
  assumes "coredump_reports env m cd = Inr (cd', evs)" "cd_size_left cd' = 0"
  shows "\<exists>cd''. coredump_reports env (m + Suc j) cd = Inr (cd'', evs) \<and> cd_size_left cd'' = 0 \<and> \<not> cd_ready cd''"
proof (induction j)
  case 0
  show ?case using assms by (auto simp: coredump_on_data_sent_callback_def Let_def)
next
  case (Suc j)
  then show ?case by (auto simp: coredump_on_data_sent_callback_def Let_def)
qed

lemma coredump_start_image:
  assumes "net_ok net" "image_in_flash env addr img"
  shows "\<exists>r. coredump_start env (firmware_coredump_api net) cd =
      Inr (ESP_OK, cd_at net (cd_random env) addr img 0, [Cd_sent r]) \<and>
    sends net r (wire_u16 MSGTYPE_DIAG_COREDUMP_START @ wire_u32 (cd_random env) @ wire_u32 0)"
proof -
  let ?ver = "cd_random env"
  have im: "cd_image_check env = ESP_OK" "cd_image_get env = (ESP_OK, addr, word_of_nat (length img))"
    using assms(2) by (simp_all add: image_in_flash_def)
  obtain x where x: "protocol_send_diag_coredump_start net ?ver = Inr x"
    "sends net (Inr x) (wire_u16 MSGTYPE_DIAG_COREDUMP_START @ wire_u32 ?ver @ wire_u32 0)"
    using coredump_start_sends [OF assms(1), of ?ver] by (metis sends_Inr)
  then have "coredump_start env (firmware_coredump_api net) cd = Inr (ESP_OK, cd_at net ?ver addr img 0, [Cd_sent (Inr x)])"
    using im by (simp add: coredump_start_def is_coredump_present_def firmware_coredump_api_def cd_call_def cd_at_def Let_def)
  with x(2) show ?thesis by blast
qed

text \<open>C21. With an intact core dump in the flash, the transfer announces it, each report of a sent message sends
  the next block of 1024 bytes (the last one shorter) and the last block is followed by the end message; the blocks put together
  are the image. After one report more than there are blocks the transfer is over, and further reports send
  nothing.\<close>

theorem coredump_transfer:
  assumes "net_ok net" "image_in_flash env addr img"
  shows "\<exists>cd' r. coredump_start env (firmware_coredump_api net) cd = Inr (ESP_OK, cd', [Cd_sent r]) \<and>
    sends net r (wire_u16 MSGTYPE_DIAG_COREDUMP_START @ wire_u32 (cd_random env) @ wire_u32 0) \<and>
    concat (map (cd_block img) [0..<cd_blocks img]) = img \<and>
    (\<forall>m. \<exists>cd'' evs. coredump_reports env m cd' = Inr (cd'', evs) \<and>
      list_all2 (cd_sends net) evs (transfer_payloads (cd_random env) img m) \<and>
      (cd_ready cd'' \<longleftrightarrow> m \<le> cd_blocks img))"
proof -
  let ?ver = "cd_random env" and ?N = "cd_blocks img"
  obtain r where start: "coredump_start env (firmware_coredump_api net) cd =
      Inr (ESP_OK, cd_at net ?ver addr img 0, [Cd_sent r])"
    "sends net r (wire_u16 MSGTYPE_DIAG_COREDUMP_START @ wire_u32 ?ver @ wire_u32 0)"
    using coredump_start_image [OF assms] by blast
  have cat: "concat (map (cd_block img) [0..<?N]) = img"
    using cd_blocks_less [of ?N img] by (simp add: concat_blocks)
  have "\<exists>cd'' evs. coredump_reports env m (cd_at net ?ver addr img 0) = Inr (cd'', evs) \<and>
      list_all2 (cd_sends net) evs (transfer_payloads ?ver img m) \<and> (cd_ready cd'' \<longleftrightarrow> m \<le> ?N)" for m
  proof (cases "m \<le> ?N")
    case True
    then show ?thesis using cd_reports_blocks [OF assms True, of ?ver] by (auto simp: cd_at_def Let_def)
  next
    case False
    then obtain j where j: "m = ?N + Suc j" by (metis add_Suc_right le_add1 less_imp_Suc_add not_le)
    obtain evs where evs: "coredump_reports env ?N (cd_at net ?ver addr img 0) = Inr (cd_at net ?ver addr img ?N, evs)"
      "list_all2 (cd_sends net) evs (transfer_payloads ?ver img ?N)"
      using cd_reports_blocks [OF assms, of ?N ?ver] by blast
    have "cd_size_left (cd_at net ?ver addr img ?N) = 0"
      using cd_blocks_less [of ?N img] by (simp add: cd_at_def Let_def)
    from cd_reports_done [OF evs(1) this, of j] evs(2) show ?thesis
      by (auto simp: j transfer_payloads_def)
  qed
  with start cat show ?thesis by blast
qed

definition env_2000 :: "cd_env" where
  "env_2000 =
     \<lparr>cd_image_check = 0, cd_image_get = (0, 0x110000, 2000), cd_image_erase = 0, cd_random = 7,
      cd_flash_read = (\<lambda>a k. (0, take k (drop (unat (a - 0x110000)) (replicate 2000 1))))\<rparr>"

theorem coredump_transfer_witness:
  "\<exists>cd' r. coredump_start env_2000 (firmware_coredump_api net0) coredump_zero = Inr (ESP_OK, cd', [Cd_sent r]) \<and>
    (\<forall>m. \<exists>cd'' evs. coredump_reports env_2000 m cd' = Inr (cd'', evs) \<and> (cd_ready cd'' \<longleftrightarrow> m \<le> 2))"
proof -
  have "image_in_flash env_2000 0x110000 (replicate 2000 1)"
    by (simp add: image_in_flash_def env_2000_def unat_word_of_nat)
  from coredump_transfer [OF net_ok_net0 this, of coredump_zero]
  show ?thesis by (fastforce simp: cd_blocks_def)
qed

end
