(* ===== verification/EM_Wifi.thy ===== *)
theory EM_Wifi
  imports EM_Prelude
begin

section \<open>WiFi station (em_wifi/src/wifi.c, wifi_scan.c, wifi_helpers.c)\<close>

text \<open>
  The station keeps five flags in an event group (here the set of the flags that are set) and leaves everything else
  to the WiFi driver, whose state has the type \<open>'s\<close> and whose calls are the parameter \<open>wifi_drv\<close>. What a function
  tells the driver and the event loop is a \<open>wifi_call\<close>. \<open>ESP_ERROR_CHECK\<close> and the assertions restart the device. Waiting for the
  start of the driver in \<open>em_wifi_sta_init\<close> is the handler of the start event, which sets the flag it waits for.
\<close>

abbreviation ESP_ERR_WIFI_CONN :: int where "ESP_ERR_WIFI_CONN \<equiv> 0x3007"
abbreviation MAX_SCAN_RECORDS :: nat where "MAX_SCAN_RECORDS \<equiv> 8"
abbreviation AP_SIZE :: nat where "AP_SIZE \<equiv> 34"

datatype wifi_bit = STARTED_BIT | CONNECTED_BIT | DISCONNECT_DEMAND_BIT | PROVISIONED_BIT | SCAN_IN_PROGRESS_BIT

record em_wifi_credentials_t =
  cr_ssid :: bytes
  cr_password :: bytes
  cr_ssid_set :: bool
  cr_password_set :: bool

definition credentials_zero :: em_wifi_credentials_t where
  "credentials_zero =
     \<lparr>cr_ssid = replicate 32 0, cr_password = replicate 64 0, cr_ssid_set = False, cr_password_set = False\<rparr>"

text \<open>A packed list of access points: \<open>len\<close>, and 34 bytes (name, strength, channel) for each.\<close>

record em_wifi_ap_list_t =
  al_len :: nat
  al_aps :: bytes

record wifi_ap_record_t =
  apr_ssid :: bytes
  apr_rssi :: i8
  apr_primary :: u8

datatype wifi_err_reason_t =
    WIFI_REASON_UNSPECIFIED
  | WIFI_REASON_AUTH_EXPIRE
  | WIFI_REASON_AUTH_LEAVE
  | WIFI_REASON_ASSOC_EXPIRE
  | WIFI_REASON_ASSOC_TOOMANY
  | WIFI_REASON_NOT_AUTHED
  | WIFI_REASON_NOT_ASSOCED
  | WIFI_REASON_ASSOC_LEAVE
  | WIFI_REASON_ASSOC_NOT_AUTHED
  | WIFI_REASON_DISASSOC_PWRCAP_BAD
  | WIFI_REASON_DISASSOC_SUPCHAN_BAD
  | WIFI_REASON_BSS_TRANSITION_DISASSOC
  | WIFI_REASON_IE_INVALID
  | WIFI_REASON_MIC_FAILURE
  | WIFI_REASON_4WAY_HANDSHAKE_TIMEOUT
  | WIFI_REASON_GROUP_KEY_UPDATE_TIMEOUT
  | WIFI_REASON_IE_IN_4WAY_DIFFERS
  | WIFI_REASON_GROUP_CIPHER_INVALID
  | WIFI_REASON_PAIRWISE_CIPHER_INVALID
  | WIFI_REASON_AKMP_INVALID
  | WIFI_REASON_UNSUPP_RSN_IE_VERSION
  | WIFI_REASON_INVALID_RSN_IE_CAP
  | WIFI_REASON_802_1X_AUTH_FAILED
  | WIFI_REASON_CIPHER_SUITE_REJECTED
  | WIFI_REASON_TDLS_PEER_UNREACHABLE
  | WIFI_REASON_TDLS_UNSPECIFIED
  | WIFI_REASON_SSP_REQUESTED_DISASSOC
  | WIFI_REASON_NO_SSP_ROAMING_AGREEMENT
  | WIFI_REASON_BAD_CIPHER_OR_AKM
  | WIFI_REASON_NOT_AUTHORIZED_THIS_LOCATION
  | WIFI_REASON_SERVICE_CHANGE_PERCLUDES_TS
  | WIFI_REASON_UNSPECIFIED_QOS
  | WIFI_REASON_NOT_ENOUGH_BANDWIDTH
  | WIFI_REASON_MISSING_ACKS
  | WIFI_REASON_EXCEEDED_TXOP
  | WIFI_REASON_STA_LEAVING
  | WIFI_REASON_END_BA
  | WIFI_REASON_UNKNOWN_BA
  | WIFI_REASON_TIMEOUT
  | WIFI_REASON_PEER_INITIATED
  | WIFI_REASON_AP_INITIATED
  | WIFI_REASON_INVALID_FT_ACTION_FRAME_COUNT
  | WIFI_REASON_INVALID_PMKID
  | WIFI_REASON_INVALID_MDE
  | WIFI_REASON_INVALID_FTE
  | WIFI_REASON_TRANSMISSION_LINK_ESTABLISH_FAILED
  | WIFI_REASON_ALTERATIVE_CHANNEL_OCCUPIED
  | WIFI_REASON_BEACON_TIMEOUT
  | WIFI_REASON_NO_AP_FOUND
  | WIFI_REASON_AUTH_FAIL
  | WIFI_REASON_ASSOC_FAIL
  | WIFI_REASON_HANDSHAKE_TIMEOUT
  | WIFI_REASON_CONNECTION_FAIL
  | WIFI_REASON_AP_TSF_RESET
  | WIFI_REASON_ROAMING
  | WIFI_REASON_ASSOC_COMEBACK_TIME_TOO_LONG
  | WIFI_REASON_SA_QUERY_TIMEOUT
  | WIFI_REASON_NO_AP_FOUND_W_COMPATIBLE_SECURITY
  | WIFI_REASON_NO_AP_FOUND_IN_AUTHMODE_THRESHOLD
  | WIFI_REASON_NO_AP_FOUND_IN_RSSI_THRESHOLD
  | WIFI_REASON_OTHER u8

fun reason_to_string :: "wifi_err_reason_t \<Rightarrow> string" where
  "reason_to_string WIFI_REASON_UNSPECIFIED = ''Unspecified''"
| "reason_to_string WIFI_REASON_AUTH_EXPIRE = ''Auth expire''"
| "reason_to_string WIFI_REASON_AUTH_LEAVE = ''Auth leave''"
| "reason_to_string WIFI_REASON_ASSOC_EXPIRE = ''Assoc expire''"
| "reason_to_string WIFI_REASON_ASSOC_TOOMANY = ''Too many connections''"
| "reason_to_string WIFI_REASON_NOT_AUTHED = ''Not authed''"
| "reason_to_string WIFI_REASON_NOT_ASSOCED = ''Not assoced''"
| "reason_to_string WIFI_REASON_ASSOC_LEAVE = ''Assoc leave''"
| "reason_to_string WIFI_REASON_ASSOC_NOT_AUTHED = ''Not authenticated''"
| "reason_to_string WIFI_REASON_DISASSOC_PWRCAP_BAD = ''Disassoc pwrcap bad''"
| "reason_to_string WIFI_REASON_DISASSOC_SUPCHAN_BAD = ''Disassoc supchan bad''"
| "reason_to_string WIFI_REASON_BSS_TRANSITION_DISASSOC = ''Bss transition disassoc''"
| "reason_to_string WIFI_REASON_IE_INVALID = ''Ie invalid''"
| "reason_to_string WIFI_REASON_MIC_FAILURE = ''Mic failure''"
| "reason_to_string WIFI_REASON_4WAY_HANDSHAKE_TIMEOUT = ''Invalid password''"
| "reason_to_string WIFI_REASON_GROUP_KEY_UPDATE_TIMEOUT = ''Group key update timeout''"
| "reason_to_string WIFI_REASON_IE_IN_4WAY_DIFFERS = ''Ie in 4way differs''"
| "reason_to_string WIFI_REASON_GROUP_CIPHER_INVALID = ''Group cipher invalid''"
| "reason_to_string WIFI_REASON_PAIRWISE_CIPHER_INVALID = ''Pairwise cipher invalid''"
| "reason_to_string WIFI_REASON_AKMP_INVALID = ''Akmp invalid''"
| "reason_to_string WIFI_REASON_UNSUPP_RSN_IE_VERSION = ''Unsupp rsn ie version''"
| "reason_to_string WIFI_REASON_INVALID_RSN_IE_CAP = ''Invalid rsn ie cap''"
| "reason_to_string WIFI_REASON_802_1X_AUTH_FAILED = ''802.1x auth failed''"
| "reason_to_string WIFI_REASON_CIPHER_SUITE_REJECTED = ''Cipher suite rejected''"
| "reason_to_string WIFI_REASON_TDLS_PEER_UNREACHABLE = ''Tdls peer unreachable''"
| "reason_to_string WIFI_REASON_TDLS_UNSPECIFIED = ''Tdls unspecified''"
| "reason_to_string WIFI_REASON_SSP_REQUESTED_DISASSOC = ''Ssp requested disassoc''"
| "reason_to_string WIFI_REASON_NO_SSP_ROAMING_AGREEMENT = ''No ssp roaming agreement''"
| "reason_to_string WIFI_REASON_BAD_CIPHER_OR_AKM = ''Bad cipher or akm''"
| "reason_to_string WIFI_REASON_NOT_AUTHORIZED_THIS_LOCATION = ''Not authorized this location''"
| "reason_to_string WIFI_REASON_SERVICE_CHANGE_PERCLUDES_TS = ''Service change percludes ts''"
| "reason_to_string WIFI_REASON_UNSPECIFIED_QOS = ''Unspecified qos''"
| "reason_to_string WIFI_REASON_NOT_ENOUGH_BANDWIDTH = ''Not enough bandwidth''"
| "reason_to_string WIFI_REASON_MISSING_ACKS = ''Missing acks''"
| "reason_to_string WIFI_REASON_EXCEEDED_TXOP = ''Exceeded txop''"
| "reason_to_string WIFI_REASON_STA_LEAVING = ''Sta leaving''"
| "reason_to_string WIFI_REASON_END_BA = ''End ba''"
| "reason_to_string WIFI_REASON_UNKNOWN_BA = ''Unknown ba''"
| "reason_to_string WIFI_REASON_TIMEOUT = ''Timeout''"
| "reason_to_string WIFI_REASON_PEER_INITIATED = ''Peer initiated''"
| "reason_to_string WIFI_REASON_AP_INITIATED = ''Ap initiated''"
| "reason_to_string WIFI_REASON_INVALID_FT_ACTION_FRAME_COUNT = ''Invalid ft action frame count''"
| "reason_to_string WIFI_REASON_INVALID_PMKID = ''Invalid pmkid''"
| "reason_to_string WIFI_REASON_INVALID_MDE = ''Invalid mde''"
| "reason_to_string WIFI_REASON_INVALID_FTE = ''Invalid fte''"
| "reason_to_string WIFI_REASON_TRANSMISSION_LINK_ESTABLISH_FAILED = ''Transmission link establish failed''"
| "reason_to_string WIFI_REASON_ALTERATIVE_CHANNEL_OCCUPIED = ''Alterative channel occupied''"
| "reason_to_string WIFI_REASON_BEACON_TIMEOUT = ''Beacon timeout''"
| "reason_to_string WIFI_REASON_NO_AP_FOUND = ''Network not found''"
| "reason_to_string WIFI_REASON_AUTH_FAIL = ''Auth fail''"
| "reason_to_string WIFI_REASON_ASSOC_FAIL = ''Assoc fail''"
| "reason_to_string WIFI_REASON_HANDSHAKE_TIMEOUT = ''Handshake timeout''"
| "reason_to_string WIFI_REASON_CONNECTION_FAIL = ''Connection fail''"
| "reason_to_string WIFI_REASON_AP_TSF_RESET = ''Ap tsf reset''"
| "reason_to_string WIFI_REASON_ROAMING = ''Roaming''"
| "reason_to_string WIFI_REASON_ASSOC_COMEBACK_TIME_TOO_LONG = ''Assoc comeback time too long''"
| "reason_to_string WIFI_REASON_SA_QUERY_TIMEOUT = ''Sa query timeout''"
| "reason_to_string WIFI_REASON_NO_AP_FOUND_W_COMPATIBLE_SECURITY = ''No ap found w compatible security''"
| "reason_to_string WIFI_REASON_NO_AP_FOUND_IN_AUTHMODE_THRESHOLD = ''No ap found in authmode threshold''"
| "reason_to_string WIFI_REASON_NO_AP_FOUND_IN_RSSI_THRESHOLD = ''No ap found in rssi threshold''"
| "reason_to_string (WIFI_REASON_OTHER r) = ''Unknown''"

datatype em_wifi_event_t =
    EM_WIFI_EVENT_PROVISIONED
  | EM_WIFI_EVENT_NOT_PROVISIONED
  | EM_WIFI_EVENT_STA_DISCONNECTED string
  | EM_WIFI_EVENT_STA_CONNECTED bytes bytes
  | EM_WIFI_EVENT_SCAN_DONE nat bytes

datatype wifi_event_t =
    WIFI_EVENT_STA_DISCONNECTED wifi_err_reason_t
  | WIFI_EVENT_STA_CONNECTED
  | WIFI_EVENT_SCAN_DONE
  | WIFI_EVENT_STA_START
  | WIFI_EVENT_STA_STOP
  | WIFI_EVENT_WIFI_READY
  | WIFI_EVENT_HOME_CHANNEL_CHANGE
  | WIFI_EVENT_UNKNOWN nat

datatype wifi_call =
    Wifi_post em_wifi_event_t
  | Wifi_connect
  | Wifi_disconnect
  | Wifi_set_config bytes bytes
  | Wifi_scan_start

record 's wifi_drv =
  wd_setup :: "('s \<Rightarrow> int \<times> 's) list"
  wd_set_storage :: "'s \<Rightarrow> int \<times> 's"
  wd_set_config :: "'s \<Rightarrow> bytes \<Rightarrow> bytes \<Rightarrow> int \<times> 's"
  wd_get_config :: "'s \<Rightarrow> int \<times> bytes \<times> bytes"
  wd_connect :: "'s \<Rightarrow> int \<times> 's"
  wd_disconnect :: "'s \<Rightarrow> int \<times> 's"
  wd_scan_start :: "'s \<Rightarrow> int \<times> 's"
  wd_scan_records :: "'s \<Rightarrow> int \<times> wifi_ap_record_t list \<times> 's"
  wd_post :: int

record 's wifi =
  wf_bits :: "wifi_bit set"
  wf_drv :: 's

type_synonym 's wifi_result = "('s wifi \<times> wifi_call list) outcome"

definition set_bit_of :: "wifi_bit \<Rightarrow> 's wifi \<Rightarrow> 's wifi" where
  "set_bit_of b st = st\<lparr>wf_bits := insert b (wf_bits st)\<rparr>"

definition clear_bit_of :: "wifi_bit \<Rightarrow> 's wifi \<Rightarrow> 's wifi" where
  "clear_bit_of b st = st\<lparr>wf_bits := wf_bits st - {b}\<rparr>"

text \<open>A driver call under \<open>ESP_ERROR_CHECK\<close>, and the posting of an event under it.\<close>

definition drv_check :: "('s \<Rightarrow> int \<times> 's) \<Rightarrow> 's wifi \<Rightarrow> 's wifi outcome" where
  "drv_check f st = (let (err, s) = f (wf_drv st) in c_assert (err = ESP_OK) (Inr (st\<lparr>wf_drv := s\<rparr>)))"

definition post_wifi :: "'s wifi_drv \<Rightarrow> em_wifi_event_t \<Rightarrow> wifi_call list outcome" where
  "post_wifi drv ev = c_assert (wd_post drv = ESP_OK) (Inr [Wifi_post ev])"

subsection \<open>Scanning (wifi_scan.c)\<close>

definition em_wifi_scan_start :: "'s wifi_drv \<Rightarrow> 's wifi \<Rightarrow> 's wifi \<times> wifi_call list" where
  "em_wifi_scan_start drv st =
     (if SCAN_IN_PROGRESS_BIT \<in> wf_bits st then (st, [])
      else
        let (err, s) = wd_scan_start drv (wf_drv st); st = st\<lparr>wf_drv := s\<rparr> in
        if err \<noteq> ESP_OK then (st, [Wifi_scan_start]) else (set_bit_of SCAN_IN_PROGRESS_BIT st, [Wifi_scan_start]))"

text \<open>One entry: the 33 bytes of the name of the driver are copied to the 32 of the entry, and strength and channel
  are written after them.\<close>

definition ap_entry :: "wifi_ap_record_t \<Rightarrow> bytes" where
  "ap_entry r = (overwrite (replicate AP_SIZE 0) 0 (apr_ssid r))[32 := apr_rssi r, 33 := apr_primary r]"

definition scan_done_handler :: "'s wifi_drv \<Rightarrow> 's wifi \<Rightarrow> 's wifi_result" where
  "scan_done_handler drv st =
     (let (err, recs, s) = wd_scan_records drv (wf_drv st) in
      c_assert (err = ESP_OK) (c_assert (length recs \<le> MAX_SCAN_RECORDS)
        (obind (post_wifi drv (EM_WIFI_EVENT_SCAN_DONE (length recs) (concat (map ap_entry recs)))) (\<lambda>evs.
           Inr (clear_bit_of SCAN_IN_PROGRESS_BIT (st\<lparr>wf_drv := s\<rparr>), evs)))))"

subsection \<open>Connecting (wifi.c)\<close>

definition em_wifi_sta_is_connected :: "'s wifi \<Rightarrow> bool" where
  "em_wifi_sta_is_connected st \<longleftrightarrow> CONNECTED_BIT \<in> wf_bits st"

definition em_wifi_sta_is_disconnected_on_demand :: "'s wifi \<Rightarrow> bool" where
  "em_wifi_sta_is_disconnected_on_demand st \<longleftrightarrow> DISCONNECT_DEMAND_BIT \<in> wf_bits st"

definition em_wifi_sta_is_provisioned :: "'s wifi \<Rightarrow> bool" where
  "em_wifi_sta_is_provisioned st \<longleftrightarrow> PROVISIONED_BIT \<in> wf_bits st"

text \<open>\<open>esp_wifi_connect\<close>, where a connection already under way is no error.\<close>

definition wifi_connect :: "'s wifi_drv \<Rightarrow> 's wifi \<Rightarrow> 's wifi_result" where
  "wifi_connect drv st =
     (let (err, s) = wd_connect drv (wf_drv st) in
      c_assert (\<not> (err \<noteq> ESP_OK \<and> err \<noteq> ESP_ERR_WIFI_CONN)) (Inr (st\<lparr>wf_drv := s\<rparr>, [Wifi_connect])))"

definition wifi_event_handler :: "'s wifi_drv \<Rightarrow> wifi_event_t \<Rightarrow> 's wifi \<Rightarrow> 's wifi_result" where
  "wifi_event_handler drv ev st =
     (case ev of
        WIFI_EVENT_STA_DISCONNECTED reason \<Rightarrow>
          let st = clear_bit_of CONNECTED_BIT st in
          if em_wifi_sta_is_disconnected_on_demand st then Inr (clear_bit_of DISCONNECT_DEMAND_BIT st, [])
          else
            obind (post_wifi drv (EM_WIFI_EVENT_STA_DISCONNECTED (reason_to_string reason))) (\<lambda>evs.
            obind (wifi_connect drv st) (\<lambda>(st, evs'). Inr (st, evs @ evs')))
      | WIFI_EVENT_STA_CONNECTED \<Rightarrow> Inr (st, [])
      | WIFI_EVENT_SCAN_DONE \<Rightarrow> scan_done_handler drv st
      | WIFI_EVENT_STA_START \<Rightarrow> Inr (set_bit_of STARTED_BIT st, [])
      | WIFI_EVENT_STA_STOP \<Rightarrow> Inr (st, [])
      | WIFI_EVENT_WIFI_READY \<Rightarrow> Inr (st, [])
      | WIFI_EVENT_HOME_CHANNEL_CHANGE \<Rightarrow> Inr (st, [])
      | WIFI_EVENT_UNKNOWN n \<Rightarrow> Inr (st, []))"

definition set_credentials :: "'s wifi_drv \<Rightarrow> bytes \<Rightarrow> bytes \<Rightarrow> 's wifi \<Rightarrow> 's wifi_result" where
  "set_credentials drv ssid password st =
     obind (c_strnlen ssid 32) (\<lambda>ssid_len.
     obind (c_strnlen password 64) (\<lambda>password_len.
       c_assert (ssid_len < 32) (c_assert (password_len < 64)
        (obind (c_memcpy (replicate 32 0) ssid ssid_len) (\<lambda>cfg_ssid.
         obind (c_memcpy (replicate 64 0) password password_len) (\<lambda>cfg_password.
         obind (drv_check (wd_set_storage drv) st) (\<lambda>st.
         obind (drv_check (\<lambda>s. wd_set_config drv s cfg_ssid cfg_password) st) (\<lambda>st.
           Inr (set_bit_of PROVISIONED_BIT st, [Wifi_set_config cfg_ssid cfg_password])))))))))"

definition ip_assigned :: "'s wifi_drv \<Rightarrow> u32 \<Rightarrow> u32 \<Rightarrow> 's wifi \<Rightarrow> 's wifi_result" where
  "ip_assigned drv ip gw st =
     (if em_wifi_sta_is_connected st then Inr (st, [])
      else
        let local_ip = nat_le 4 (unat ip); gw_ip = nat_le 4 (unat gw) in
        obind (post_wifi drv (EM_WIFI_EVENT_STA_CONNECTED local_ip gw_ip)) (\<lambda>evs.
          Inr (set_bit_of CONNECTED_BIT st, evs)))"

definition get_credentials :: "'s wifi_drv \<Rightarrow> 's wifi \<Rightarrow> em_wifi_credentials_t outcome" where
  "get_credentials drv st =
     (let (err, ssid, password) = wd_get_config drv (wf_drv st) in
      c_assert (err = ESP_OK)
        (obind (c_strnlen ssid 32) (\<lambda>val.
           if val = 0 then Inr credentials_zero
           else Inr \<lparr>cr_ssid = ssid, cr_password = password, cr_ssid_set = True, cr_password_set = True\<rparr>)))"

definition em_wifi_sta_connect :: "'s wifi_drv \<Rightarrow> bytes \<Rightarrow> bytes \<Rightarrow> 's wifi \<Rightarrow> 's wifi_result" where
  "em_wifi_sta_connect drv ssid password st =
     (let st = clear_bit_of DISCONNECT_DEMAND_BIT st;
          was_provisioned = em_wifi_sta_is_provisioned st in
      obind (set_credentials drv ssid password st) (\<lambda>(st, evs).
        if was_provisioned \<and> em_wifi_sta_is_connected st
        then obind (drv_check (wd_disconnect drv) st) (\<lambda>st. Inr (st, evs @ [Wifi_disconnect]))
        else obind (wifi_connect drv st) (\<lambda>(st, evs'). Inr (st, evs @ evs'))))"

text \<open>The calls that set up the network interface and the driver, each under \<open>ESP_ERROR_CHECK\<close>.\<close>

fun drv_checks :: "('s \<Rightarrow> int \<times> 's) list \<Rightarrow> 's wifi \<Rightarrow> 's wifi outcome" where
  "drv_checks [] st = Inr st"
| "drv_checks (f # fs) st = obind (drv_check f st) (drv_checks fs)"

definition em_wifi_sta_init :: "'s wifi_drv \<Rightarrow> bool \<Rightarrow> 's wifi \<Rightarrow> 's wifi_result" where
  "em_wifi_sta_init drv start_scan st =
     obind (drv_checks (wd_setup drv) (st\<lparr>wf_bits := {}\<rparr>)) (\<lambda>st.
     obind (wifi_event_handler drv WIFI_EVENT_STA_START st) (\<lambda>(st, _).
     obind (get_credentials drv st) (\<lambda>cred.
       if cr_ssid_set cred \<and> cr_password_set cred then
         obind (post_wifi drv EM_WIFI_EVENT_PROVISIONED) (\<lambda>evs.
         obind (em_wifi_sta_connect drv (cr_ssid cred) (cr_password cred) (set_bit_of PROVISIONED_BIT st)) (\<lambda>(st, evs').
           Inr (st, evs @ evs')))
       else
         obind (post_wifi drv EM_WIFI_EVENT_NOT_PROVISIONED) (\<lambda>evs.
           if start_scan then (let (st, evs') = em_wifi_scan_start drv st in Inr (st, evs @ evs'))
           else Inr (st, evs)))))"

definition em_wifi_sta_disconnect :: "'s wifi_drv \<Rightarrow> 's wifi \<Rightarrow> 's wifi_result" where
  "em_wifi_sta_disconnect drv st =
     obind (drv_check (wd_disconnect drv) (set_bit_of DISCONNECT_DEMAND_BIT st)) (\<lambda>st. Inr (st, [Wifi_disconnect]))"

definition em_wifi_factory_reset :: "'s wifi_drv \<Rightarrow> 's wifi \<Rightarrow> 's wifi_result" where
  "em_wifi_factory_reset drv st =
     obind (em_wifi_sta_disconnect drv st) (\<lambda>(st, evs).
     obind (drv_check (wd_set_storage drv) st) (\<lambda>st.
     obind (drv_check (\<lambda>s. wd_set_config drv s (replicate 32 0) (replicate 64 0)) st) (\<lambda>st.
       Inr (st, evs @ [Wifi_set_config (replicate 32 0) (replicate 64 0)]))))"

definition em_wifi_stop_reconnecting :: "'s wifi \<Rightarrow> 's wifi" where
  "em_wifi_stop_reconnecting st = set_bit_of DISCONNECT_DEMAND_BIT st"

definition em_wifi_local_ip_addr :: "int \<times> u32 \<Rightarrow> u32" where
  "em_wifi_local_ip_addr info =
     (let (err, addr) = info in
      if err \<noteq> ESP_OK then 0
      else (drop_bit 24 addr AND 0xff) OR (push_bit 8 addr AND 0xff0000) OR (drop_bit 8 addr AND 0xff00) OR
           (push_bit 24 addr AND 0xff000000))"

text \<open>The name that is configured, written to the caller's array of 32 bytes: its last byte is cut off.\<close>

definition em_wifi_sta_ssid :: "'s wifi_drv \<Rightarrow> 's wifi \<Rightarrow> bytes \<Rightarrow> (int \<times> bytes) outcome" where
  "em_wifi_sta_ssid drv st ssid =
     (let (err, cfg_ssid, _) = wd_get_config drv (wf_drv st) in
      c_assert (err = ESP_OK)
        (obind (c_strnlen cfg_ssid 32) (\<lambda>val.
           if val = 0 then Inr (ESP_ERR_NOT_FOUND, ssid)
           else obind (c_memcpy ssid cfg_ssid 32) (\<lambda>ssid. Inr (ESP_OK, ssid[31 := 0])))))"

subsection \<open>Runs\<close>

datatype wifi_op =
    W_event wifi_event_t
  | W_got_ip u32 u32
  | W_connect bytes bytes
  | W_disconnect
  | W_factory_reset
  | W_stop_reconnecting
  | W_scan

fun wifi_step :: "'s wifi_drv \<Rightarrow> wifi_op \<Rightarrow> 's wifi \<Rightarrow> 's wifi_result" where
  "wifi_step drv (W_event ev) st = wifi_event_handler drv ev st"
| "wifi_step drv (W_got_ip ip gw) st = ip_assigned drv ip gw st"
| "wifi_step drv (W_connect ssid password) st = em_wifi_sta_connect drv ssid password st"
| "wifi_step drv W_disconnect st = em_wifi_sta_disconnect drv st"
| "wifi_step drv W_factory_reset st = em_wifi_factory_reset drv st"
| "wifi_step drv W_stop_reconnecting st = Inr (em_wifi_stop_reconnecting st, [])"
| "wifi_step drv W_scan st = Inr (em_wifi_scan_start drv st)"

fun wifi_run :: "'s wifi_drv \<Rightarrow> wifi_op list \<Rightarrow> 's wifi \<Rightarrow> 's wifi_result" where
  "wifi_run drv [] st = Inr (st, [])"
| "wifi_run drv (op # ops) st =
     obind (wifi_step drv op st) (\<lambda>(st, evs). obind (wifi_run drv ops st) (\<lambda>(st, evs'). Inr (st, evs @ evs')))"

end
