(* ===== verification/EM_Wifi_Props.thy ===== *)
theory EM_Wifi_Props
  imports EM_Runs EM_Wifi
begin

section \<open>What the station keeps up\<close>

text \<open>
  The flags follow the demands of the application: a lost connection is taken up again unless the last demand was to
  disconnect. The stored name and password always have their terminators, so that the next start passes the assertions
  on their lengths.
\<close>

lemmas wifi_defs = set_bit_of_def clear_bit_of_def em_wifi_sta_is_connected_def em_wifi_sta_is_disconnected_on_demand_def
  em_wifi_sta_is_provisioned_def

lemma drv_check_Inr_iff: "drv_check f st = Inr st' \<longleftrightarrow> fst (f (wf_drv st)) = ESP_OK \<and> st' = st\<lparr>wf_drv := snd (f (wf_drv st))\<rparr>"
  by (auto simp: drv_check_def split_beta)

lemma post_wifi_Inr_iff: "post_wifi drv ev = Inr evs \<longleftrightarrow> wd_post drv = ESP_OK \<and> evs = [Wifi_post ev]"
  by (auto simp: post_wifi_def)

lemma wifi_connect_Inr_iff:
  "wifi_connect drv st = Inr (st', evs) \<longleftrightarrow> fst (wd_connect drv (wf_drv st)) \<in> {ESP_OK, ESP_ERR_WIFI_CONN} \<and>
     st' = st\<lparr>wf_drv := snd (wd_connect drv (wf_drv st))\<rparr> \<and> evs = [Wifi_connect]"
  by (auto simp: wifi_connect_def split_beta)

lemmas wifi_Inr_iffs = drv_check_Inr_iff post_wifi_Inr_iff wifi_connect_Inr_iff

subsection \<open>Reconnecting\<close>

text \<open>The specification: whether the application wants to be disconnected, after the operations so far.\<close>

fun demand_step :: "bool \<Rightarrow> wifi_op \<Rightarrow> bool" where
  "demand_step d (W_event (WIFI_EVENT_STA_DISCONNECTED r)) = False"
| "demand_step d (W_event ev) = d"
| "demand_step d (W_got_ip ip gw) = d"
| "demand_step d (W_connect ssid password) = False"
| "demand_step d W_disconnect = True"
| "demand_step d W_factory_reset = True"
| "demand_step d W_stop_reconnecting = True"
| "demand_step d W_scan = d"

lemma set_credentials_bits:
  "set_credentials drv ssid password st = Inr (st', evs) \<Longrightarrow>
     wf_bits st' = insert PROVISIONED_BIT (wf_bits st) \<and> Wifi_connect \<notin> set evs \<and> Wifi_disconnect \<notin> set evs"
  by (auto simp: set_credentials_def obind_Inr_iff wifi_Inr_iffs wifi_defs)

lemma sta_connect_bits:
  "em_wifi_sta_connect drv ssid password st = Inr (st', evs) \<Longrightarrow>
     wf_bits st' = insert PROVISIONED_BIT (wf_bits st - {DISCONNECT_DEMAND_BIT}) \<and>
     (Wifi_disconnect \<in> set evs \<longleftrightarrow> {PROVISIONED_BIT, CONNECTED_BIT} \<subseteq> wf_bits st) \<and>
     (Wifi_connect \<in> set evs \<longleftrightarrow> \<not> {PROVISIONED_BIT, CONNECTED_BIT} \<subseteq> wf_bits st)"
proof -
  assume "em_wifi_sta_connect drv ssid password st = Inr (st', evs)"
  then obtain st1 evs1 where 1: "set_credentials drv ssid password (clear_bit_of DISCONNECT_DEMAND_BIT st) = Inr (st1, evs1)"
    and 2: "(if PROVISIONED_BIT \<in> wf_bits st \<and> CONNECTED_BIT \<in> wf_bits st1
      then obind (drv_check (wd_disconnect drv) st1) (\<lambda>st. Inr (st, evs1 @ [Wifi_disconnect]))
      else obind (wifi_connect drv st1) (\<lambda>(st, evs'). Inr (st, evs1 @ evs'))) = Inr (st', evs)"
    by (auto simp: em_wifi_sta_connect_def obind_Inr_iff wifi_defs Let_def)
  note bits = set_credentials_bits [OF 1, unfolded clear_bit_of_def, simplified]
  show ?thesis
  proof (cases "PROVISIONED_BIT \<in> wf_bits st \<and> CONNECTED_BIT \<in> wf_bits st1")
    case True
    then have "wf_bits st' = wf_bits st1 \<and> evs = evs1 @ [Wifi_disconnect]"
      using 2 by (auto simp: obind_Inr_iff drv_check_Inr_iff)
    then show ?thesis using bits True by simp
  next
    case False
    then have "wf_bits st' = wf_bits st1 \<and> evs = evs1 @ [Wifi_connect]"
      using 2 by (auto simp: obind_Inr_iff wifi_connect_Inr_iff)
    then show ?thesis using bits False by auto
  qed
qed

lemma scan_done_bits:
  "scan_done_handler drv st = Inr (st', evs) \<Longrightarrow> wf_bits st' = wf_bits st - {SCAN_IN_PROGRESS_BIT} \<and> Wifi_connect \<notin> set evs"
  by (auto simp: scan_done_handler_def obind_Inr_iff wifi_Inr_iffs split_beta wifi_defs)

lemma demand_step_bits:
  assumes "wifi_step drv op st = Inr (st', evs)"
  shows "DISCONNECT_DEMAND_BIT \<in> wf_bits st' \<longleftrightarrow> demand_step (DISCONNECT_DEMAND_BIT \<in> wf_bits st) op"
proof (cases op)
  case (W_event ev)
  then show ?thesis using assms
    by (cases ev)
      (auto simp: wifi_event_handler_def obind_Inr_iff wifi_Inr_iffs Let_def wifi_defs dest!: scan_done_bits split: if_splits)
next
  case (W_connect ssid password)
  then show ?thesis using assms by (auto dest!: sta_connect_bits)
qed (use assms in \<open>auto simp: ip_assigned_def em_wifi_sta_disconnect_def em_wifi_factory_reset_def em_wifi_stop_reconnecting_def
    em_wifi_scan_start_def obind_Inr_iff wifi_Inr_iffs Let_def wifi_defs split_beta split: if_splits\<close>)

interpretation wifi_runs: runs "wifi_step drv" "wifi_run drv" for drv
  by unfold_locales simp_all

lemma wifi_run_demand:
  "wifi_run drv ops st = Inr (st', evs) \<Longrightarrow>
     DISCONNECT_DEMAND_BIT \<in> wf_bits st' \<longleftrightarrow> foldl demand_step (DISCONNECT_DEMAND_BIT \<in> wf_bits st) ops"
  by (rule wifi_runs.run_simulates [where f = "\<lambda>st. DISCONNECT_DEMAND_BIT \<in> wf_bits st"]) (rule demand_step_bits)

lemma drv_checks_bits: "drv_checks fs st = Inr st' \<Longrightarrow> wf_bits st' = wf_bits st"
  by (induction fs arbitrary: st) (fastforce simp: obind_Inr_iff wifi_Inr_iffs)+

text \<open>C23. After any sequence of calls and driver events since the start, a lost connection is taken up again, with an event for
  the application, exactly when no disconnection has been demanded since the last call to connect and the
  last lost connection; and a lost connection always leaves the station marked as not connected and without a demand.\<close>

theorem wifi_reconnects:
  assumes "em_wifi_sta_init drv scan st0 = Inr (st, evs0)" "wifi_run drv ops st = Inr (st', evs)"
    and "wifi_event_handler drv (WIFI_EVENT_STA_DISCONNECTED reason) st' = Inr (st'', evs')"
  shows "evs' = (if foldl demand_step False ops then []
      else [Wifi_post (EM_WIFI_EVENT_STA_DISCONNECTED (reason_to_string reason)), Wifi_connect]) \<and>
    wf_bits st'' = wf_bits st' - {CONNECTED_BIT, DISCONNECT_DEMAND_BIT}"
proof -
  have "DISCONNECT_DEMAND_BIT \<notin> wf_bits st"
    using assms(1)
    by (fastforce simp: em_wifi_sta_init_def obind_Inr_iff wifi_Inr_iffs wifi_event_handler_def wifi_defs
        em_wifi_scan_start_def Let_def split_beta dest!: sta_connect_bits drv_checks_bits split: if_splits)
  then have "DISCONNECT_DEMAND_BIT \<in> wf_bits st' \<longleftrightarrow> foldl demand_step False ops"
    using wifi_run_demand [OF assms(2)] by simp
  then show ?thesis using assms(3)
    by (auto simp: wifi_event_handler_def obind_Inr_iff wifi_Inr_iffs Let_def wifi_defs split: if_splits)
qed

text \<open>A driver that never fails, over the stored name and password.\<close>

definition drv0 :: "(bytes \<times> bytes) wifi_drv" where
  "drv0 = \<lparr>wd_setup = replicate 7 (\<lambda>s. (0, s)), wd_set_storage = (\<lambda>s. (0, s)), wd_set_config = (\<lambda>s a b. (0, (a, b))),
     wd_get_config = (\<lambda>s. (0, s)), wd_connect = (\<lambda>s. (0, s)), wd_disconnect = (\<lambda>s. (0, s)),
     wd_scan_start = (\<lambda>s. (0, s)), wd_scan_records = (\<lambda>s. (0, [], s)), wd_post = 0\<rparr>"

definition wifi_blank :: "(bytes \<times> bytes) wifi" where
  "wifi_blank = \<lparr>wf_bits = {}, wf_drv = (replicate 32 0, replicate 64 0)\<rparr>"

theorem wifi_reconnects_witness:
  "\<exists>st st' evs. wifi_run drv0 [W_connect [65, 0] [66, 0], W_disconnect] st = Inr (st', evs) \<and>
    wifi_event_handler drv0 (WIFI_EVENT_STA_DISCONNECTED WIFI_REASON_AUTH_FAIL) st' = Inr (st'\<lparr>wf_bits := {STARTED_BIT, PROVISIONED_BIT}\<rparr>, [])"
proof -
  obtain st evs0 where init: "em_wifi_sta_init drv0 False wifi_blank = Inr (st, evs0)" "wf_bits st = {STARTED_BIT}"
    by (auto simp: em_wifi_sta_init_def drv0_def wifi_blank_def eval_nat_numeral drv_check_def wifi_event_handler_def
        get_credentials_def c_strnlen_def Let_def credentials_zero_def post_wifi_def wifi_defs)
  obtain st' evs where run: "wifi_run drv0 [W_connect [65, 0] [66, 0], W_disconnect] st = Inr (st', evs)"
    and bits: "wf_bits st' = {STARTED_BIT, PROVISIONED_BIT, DISCONNECT_DEMAND_BIT}"
    using init(2) by (auto simp: em_wifi_sta_connect_def set_credentials_def c_strnlen_def c_memcpy_def Let_def drv_check_def
        drv0_def wifi_connect_def em_wifi_sta_disconnect_def wifi_defs)
  obtain st'' evs' where dis: "wifi_event_handler drv0 (WIFI_EVENT_STA_DISCONNECTED WIFI_REASON_AUTH_FAIL) st' = Inr (st'', evs')"
    and drv: "wf_drv st'' = wf_drv st'"
    using bits by (auto simp: wifi_event_handler_def Let_def wifi_defs)
  from wifi_reconnects [OF init(1) run dis] have "evs' = []" "wf_bits st'' = {STARTED_BIT, PROVISIONED_BIT}"
    using bits by auto
  then have "st'' = st'\<lparr>wf_bits := {STARTED_BIT, PROVISIONED_BIT}\<rparr>" using drv by (cases st'') simp
  then show ?thesis using run dis \<open>evs' = []\<close> by blast
qed

subsection \<open>The stored credentials\<close>

text \<open>The driver as its reference describes it: the calls succeed and leave the configuration alone, except that it is set by
  \<open>esp_wifi_set_config\<close>. \<open>conf\<close> is the configuration in the flash.\<close>

definition wifi_drv_ok :: "'s wifi_drv \<Rightarrow> ('s \<Rightarrow> bytes \<times> bytes) \<Rightarrow> bool" where
  "wifi_drv_ok drv conf \<longleftrightarrow>
     (\<forall>f \<in> set (wd_setup drv) \<union> {wd_set_storage drv, wd_disconnect drv}. \<forall>s. fst (f s) = ESP_OK \<and> conf (snd (f s)) = conf s) \<and>
     (\<forall>s a b. fst (wd_set_config drv s a b) = ESP_OK \<and> conf (snd (wd_set_config drv s a b)) = (a, b)) \<and>
     (\<forall>s. wd_get_config drv s = (ESP_OK, conf s)) \<and>
     (\<forall>s. fst (wd_connect drv s) \<in> {ESP_OK, ESP_ERR_WIFI_CONN} \<and> conf (snd (wd_connect drv s)) = conf s) \<and>
     (\<forall>s. conf (snd (wd_scan_start drv s)) = conf s) \<and>
     (\<forall>s. \<exists>recs s'. wd_scan_records drv s = (ESP_OK, recs, s') \<and> length recs \<le> MAX_SCAN_RECORDS \<and> conf s' = conf s) \<and>
     wd_post drv = ESP_OK"

text \<open>A configuration with its terminators, and credentials that \<open>set_credentials\<close> takes.\<close>

definition conf_ok :: "bytes \<times> bytes \<Rightarrow> bool" where
  "conf_ok c \<longleftrightarrow> length (fst c) = 32 \<and> length (snd c) = 64 \<and> 0 \<in> set (fst c) \<and> 0 \<in> set (snd c)"

definition credentials_ok :: "bytes \<Rightarrow> bytes \<Rightarrow> bool" where
  "credentials_ok ssid password \<longleftrightarrow> 0 \<in> set (take 32 ssid) \<and> 0 \<in> set (take 64 password)"

fun op_ok :: "wifi_op \<Rightarrow> bool" where
  "op_ok (W_connect ssid password) \<longleftrightarrow> credentials_ok ssid password"
| "op_ok op \<longleftrightarrow> True"

lemma length_takeWhile_zero: "0 \<in> set xs \<Longrightarrow> length (takeWhile (\<lambda>c. c \<noteq> (0 :: u8)) xs) < length xs"
  by (induction xs) auto

lemma c_strnlen_ok:
  "0 \<in> set (take n s) \<Longrightarrow> \<exists>k. c_strnlen s n = Inr k \<and> k < n \<and> k < length s \<and> k = length (takeWhile (\<lambda>c. c \<noteq> 0) s)"
proof -
  assume z: "0 \<in> set (take n s)"
  let ?k = "length (takeWhile (\<lambda>c. c \<noteq> 0) (take n s))"
  have k: "?k < length (take n s)"
    using z by (rule length_takeWhile_zero)
  have "takeWhile (\<lambda>c. c \<noteq> 0) s = takeWhile (\<lambda>c. c \<noteq> 0) (take n s)"
    using z by (subst append_take_drop_id [of n s, symmetric], subst takeWhile_append1 [of 0]) auto
  then show ?thesis using k by (auto simp: c_strnlen_def Let_def)
qed

lemma c_strnlen_bad: "0 \<notin> set (take n s) \<Longrightarrow> c_strnlen s n = (if n \<le> length s then Inr n else Inl OutOfBounds)"
proof -
  assume "0 \<notin> set (take n s)"
  then have "takeWhile (\<lambda>c. c \<noteq> 0) (take n s) = take n s" by (auto simp: takeWhile_eq_all_conv)
  then have "length (takeWhile (\<lambda>c. c \<noteq> 0) (take n s)) = min (length s) n"
    by (simp only: length_take)
  then show ?thesis unfolding c_strnlen_def Let_def by simp
qed

lemma set_credentials_ok:
  assumes "wifi_drv_ok drv conf"
  shows "if credentials_ok ssid password
    then \<exists>st' evs. set_credentials drv ssid password st = Inr (st', evs) \<and> conf_ok (conf (wf_drv st')) \<and>
      (fst (conf (wf_drv st')) ! 0 = 0 \<longleftrightarrow> ssid ! 0 = 0)
    else \<exists>f. set_credentials drv ssid password st = Inl f"
proof (cases "credentials_ok ssid password")
  case True
  then obtain k m where k: "c_strnlen ssid 32 = Inr k" "k < 32" "k < length ssid" "k = length (takeWhile (\<lambda>c. c \<noteq> 0) ssid)"
    and m: "c_strnlen password 64 = Inr m" "m < 64" "m < length password"
    unfolding credentials_ok_def by (metis c_strnlen_ok)
  let ?a = "overwrite (replicate 32 0) 0 (take k ssid)" and ?b = "overwrite (replicate 64 0) 0 (take m password)"
  have "conf_ok (?a, ?b)" using k m by (auto simp: conf_ok_def overwrite_def)
  moreover have "?a ! 0 = 0 \<longleftrightarrow> ssid ! 0 = 0"
    using k by (cases ssid) (auto simp: overwrite_def nth_append)
  moreover have "\<exists>st' evs. set_credentials drv ssid password st = Inr (st', evs) \<and> conf (wf_drv st') = (?a, ?b)"
    using assms k m
    by (auto simp: set_credentials_def c_memcpy_def drv_check_def wifi_drv_ok_def set_bit_of_def split_beta)
  ultimately show ?thesis using True by auto
next
  case False
  show ?thesis
  proof (cases "0 \<in> set (take 32 ssid)")
    case True
    then obtain k where k: "c_strnlen ssid 32 = Inr k" "k < 32" by (metis c_strnlen_ok)
    have "0 \<notin> set (take 64 password)" using True \<open>\<not> credentials_ok ssid password\<close> by (simp add: credentials_ok_def)
    then show ?thesis using False k by (simp add: set_credentials_def c_strnlen_bad)
  next
    case no: False
    then show ?thesis
      using False by (cases "c_strnlen password 64") (simp_all add: set_credentials_def c_strnlen_bad)
  qed
qed

lemma set_credentials_done:
  assumes "wifi_drv_ok drv conf" "credentials_ok ssid password"
  obtains st' evs where "set_credentials drv ssid password st = Inr (st', evs)" "conf_ok (conf (wf_drv st'))"
    "wf_bits st' = insert PROVISIONED_BIT (wf_bits st)"
  using set_credentials_ok [OF assms(1), of ssid password st] assms(2) set_credentials_bits by fastforce

lemma sta_connect_ok:
  assumes "wifi_drv_ok drv conf"
  shows "if credentials_ok ssid password
    then \<exists>st' evs. em_wifi_sta_connect drv ssid password st = Inr (st', evs) \<and> conf_ok (conf (wf_drv st'))
    else \<exists>f. em_wifi_sta_connect drv ssid password st = Inl f"
proof (cases "credentials_ok ssid password")
  case True
  obtain st1 evs1 where 1: "set_credentials drv ssid password (clear_bit_of DISCONNECT_DEMAND_BIT st) = Inr (st1, evs1)"
    "conf_ok (conf (wf_drv st1))"
    using set_credentials_done [OF assms True] by metis
  have "fst (wd_disconnect drv s) = ESP_OK \<and> conf (snd (wd_disconnect drv s)) = conf s"
    and "fst (wd_connect drv s) \<in> {ESP_OK, ESP_ERR_WIFI_CONN} \<and> conf (snd (wd_connect drv s)) = conf s" for s
    using assms by (auto simp: wifi_drv_ok_def)
  then show ?thesis using True 1
    by (auto simp: em_wifi_sta_connect_def Let_def drv_check_def wifi_connect_def split_beta)
next
  case False
  then show ?thesis
    using set_credentials_ok [OF assms, of ssid password "clear_bit_of DISCONNECT_DEMAND_BIT st"]
    by (auto simp: em_wifi_sta_connect_def Let_def)
qed

lemma wifi_step_ok:
  assumes "wifi_drv_ok drv conf" "conf_ok (conf (wf_drv st))"
  shows "if op_ok op then \<exists>st' evs. wifi_step drv op st = Inr (st', evs) \<and> conf_ok (conf (wf_drv st'))
    else \<exists>f. wifi_step drv op st = Inl f"
proof -
  have blank: "conf_ok (replicate 32 0, replicate 64 0)" by (simp add: conf_ok_def)
  have drv: "\<And>s. fst (wd_disconnect drv s) = ESP_OK \<and> conf (snd (wd_disconnect drv s)) = conf s"
    "\<And>s. fst (wd_set_storage drv s) = ESP_OK \<and> conf (snd (wd_set_storage drv s)) = conf s"
    "\<And>s a b. fst (wd_set_config drv s a b) = ESP_OK \<and> conf (snd (wd_set_config drv s a b)) = (a, b)"
    "\<And>s. fst (wd_connect drv s) \<in> {ESP_OK, ESP_ERR_WIFI_CONN} \<and> conf (snd (wd_connect drv s)) = conf s"
    "\<And>s. conf (snd (wd_scan_start drv s)) = conf s" "wd_post drv = ESP_OK"
    using assms(1) by (simp_all add: wifi_drv_ok_def)
  obtain recs s' where scan: "wd_scan_records drv (wf_drv st) = (ESP_OK, recs, s')" "length recs \<le> 8" "conf s' = conf (wf_drv st)"
    using assms(1) unfolding wifi_drv_ok_def by metis
  show ?thesis
  proof (cases op)
    case (W_event ev)
    then show ?thesis using drv scan assms(2)
      by (cases ev) (auto simp: wifi_event_handler_def Let_def wifi_defs scan_done_handler_def post_wifi_def wifi_connect_def split_beta)
  next
    case (W_connect ssid password)
    then show ?thesis using sta_connect_ok [OF assms(1), of ssid password st] by auto
  next
    case W_factory_reset
    then show ?thesis using drv blank
      by (simp add: em_wifi_factory_reset_def em_wifi_sta_disconnect_def drv_check_def split_beta)
  qed (use drv assms(2) in \<open>simp_all add: ip_assigned_def post_wifi_def em_wifi_sta_disconnect_def drv_check_def wifi_defs
      em_wifi_stop_reconnecting_def em_wifi_scan_start_def Let_def split_beta\<close>)
qed

interpretation wifi_guarded: guarded_runs "wifi_step drv" "wifi_run drv"
    "\<lambda>st. wifi_drv_ok drv conf \<and> conf_ok (conf (wf_drv st))" "\<lambda>op. \<not> op_ok op" for drv conf
  by unfold_locales (use wifi_step_ok in \<open>metis\<close>)+

lemma wifi_run_ok:
  assumes "wifi_drv_ok drv conf" "conf_ok (conf (wf_drv st))"
  shows "if list_all op_ok ops then \<exists>st' evs. wifi_run drv ops st = Inr (st', evs) \<and> conf_ok (conf (wf_drv st'))
    else \<exists>f. wifi_run drv ops st = Inl f"
  using wifi_guarded.run_iff [of drv conf st ops] assms by (auto simp: list_all_iff split: if_splits)

lemma drv_checks_ok:
  assumes "\<forall>f \<in> set fs. \<forall>s. fst (f s) = ESP_OK \<and> conf (snd (f s)) = conf s"
  shows "\<exists>st'. drv_checks fs st = Inr st' \<and> conf (wf_drv st') = conf (wf_drv st)"
  using assms
proof (induction fs arbitrary: st)
  case (Cons f fs)
  then show ?case using Cons.IH [of "st\<lparr>wf_drv := snd (f (wf_drv st))\<rparr>"] by (simp add: drv_check_def split_beta)
qed simp

lemma sta_init_ok:
  assumes "wifi_drv_ok drv conf" "conf_ok (conf (wf_drv st0))"
  shows "\<exists>st evs. em_wifi_sta_init drv scan st0 = Inr (st, evs) \<and>
    (Wifi_connect \<in> set evs \<longleftrightarrow> fst (conf (wf_drv st0)) ! 0 \<noteq> 0) \<and> conf_ok (conf (wf_drv st))"
proof -
  obtain ssid password where conf: "conf (wf_drv st0) = (ssid, password)" by fastforce
  then have c: "length ssid = 32" "length password = 64" "0 \<in> set ssid" "0 \<in> set password"
    using assms(2) by (simp_all add: conf_ok_def)
  obtain st1 where st1: "drv_checks (wd_setup drv) (st0\<lparr>wf_bits := {}\<rparr>) = Inr st1" "conf (wf_drv st1) = (ssid, password)"
    using drv_checks_ok [of "wd_setup drv" conf "st0\<lparr>wf_bits := {}\<rparr>"] assms(1) conf by (auto simp: wifi_drv_ok_def)
  have drv: "\<And>s. wd_get_config drv s = (ESP_OK, conf s)" "wd_post drv = ESP_OK" "\<And>s. conf (snd (wd_scan_start drv s)) = conf s"
    using assms(1) by (simp_all add: wifi_drv_ok_def)
  let ?st2 = "set_bit_of STARTED_BIT st1"
  obtain k where k: "c_strnlen ssid 32 = Inr k" "k = 0 \<longleftrightarrow> ssid ! 0 = 0"
    using c_strnlen_ok [of 32 ssid] c by (cases ssid) auto
  have ready: "wifi_event_handler drv WIFI_EVENT_STA_START st1 = Inr (?st2, [])" "conf (wf_drv ?st2) = (ssid, password)"
    "wf_bits ?st2 = {STARTED_BIT}"
    using st1 drv_checks_bits [OF st1(1)] by (simp_all add: wifi_event_handler_def set_bit_of_def)
  have "\<exists>st evs. em_wifi_sta_init drv scan st0 = Inr (st, evs) \<and> (Wifi_connect \<in> set evs \<longleftrightarrow> ssid ! 0 \<noteq> 0) \<and>
      conf_ok (conf (wf_drv st))"
  proof (cases "ssid ! 0 = 0")
    case True
    then have "get_credentials drv ?st2 = Inr credentials_zero"
      using k ready(2) by (simp add: get_credentials_def drv)
    then show ?thesis
      using st1(1) ready(1,2) True assms(2) conf
      by (auto simp: em_wifi_sta_init_def credentials_zero_def post_wifi_def drv em_wifi_scan_start_def wifi_defs split_beta Let_def)
  next
    case False
    then have cred: "get_credentials drv ?st2 =
        Inr \<lparr>cr_ssid = ssid, cr_password = password, cr_ssid_set = True, cr_password_set = True\<rparr>"
      using k ready(2) by (simp add: get_credentials_def drv)
    have "credentials_ok ssid password" using c by (simp add: credentials_ok_def)
    then obtain st evs where con: "em_wifi_sta_connect drv ssid password (set_bit_of PROVISIONED_BIT ?st2) = Inr (st, evs)"
      "conf_ok (conf (wf_drv st))"
      using sta_connect_ok [OF assms(1), of ssid password "set_bit_of PROVISIONED_BIT ?st2"] by auto
    then have "Wifi_connect \<in> set evs"
      using sta_connect_bits [OF con(1)] ready(3) unfolding set_bit_of_def by fastforce
    then show ?thesis
      using st1(1) ready(1) cred con False by (simp add: em_wifi_sta_init_def post_wifi_def drv)
  qed
  then show ?thesis using conf by simp
qed

lemma sta_init_bad:
  assumes "wifi_drv_ok drv conf" "length (fst (conf (wf_drv st0))) = 32" "length (snd (conf (wf_drv st0))) = 64"
    "fst (conf (wf_drv st0)) ! 0 \<noteq> 0" "\<not> conf_ok (conf (wf_drv st0))"
  shows "em_wifi_sta_init drv scan st0 = Inl Abort"
proof -
  obtain ssid password where conf: "conf (wf_drv st0) = (ssid, password)" by fastforce
  obtain st1 where st1: "drv_checks (wd_setup drv) (st0\<lparr>wf_bits := {}\<rparr>) = Inr st1" "conf (wf_drv st1) = (ssid, password)"
    using drv_checks_ok [of "wd_setup drv" conf "st0\<lparr>wf_bits := {}\<rparr>"] assms(1) conf by (auto simp: wifi_drv_ok_def)
  have drv: "\<And>s. wd_get_config drv s = (ESP_OK, conf s)" "wd_post drv = ESP_OK" using assms(1) by (simp_all add: wifi_drv_ok_def)
  have c: "length ssid = 32" "length password = 64" "ssid ! 0 \<noteq> 0" "0 \<notin> set ssid \<or> 0 \<notin> set password"
    using assms(2-5) conf by (auto simp: conf_ok_def)
  have len: "\<exists>k. c_strnlen s n = Inr k \<and> (k < n \<longleftrightarrow> 0 \<in> set s) \<and> (k = 0 \<longrightarrow> s ! 0 = 0)" if "length s = n" "0 < n" for s n
  proof (cases "0 \<in> set s")
    case True
    with that c_strnlen_ok [of n s] show ?thesis by (cases s) auto
  next
    case False
    with that c_strnlen_bad [of n s] show ?thesis by simp
  qed
  obtain k where k: "c_strnlen ssid 32 = Inr k" "k < 32 \<longleftrightarrow> 0 \<in> set ssid" "k \<noteq> 0" using len [OF c(1)] c(3) by auto
  obtain m where m: "c_strnlen password 64 = Inr m" "m < 64 \<longleftrightarrow> 0 \<in> set password" using len [OF c(2)] by auto
  have "set_credentials drv ssid password st = Inl Abort" for st
    using k m c(4) by (auto simp: set_credentials_def c_assert_def)
  then show ?thesis
    using st1 k(1,3)
    by (simp add: em_wifi_sta_init_def wifi_event_handler_def get_credentials_def drv set_bit_of_def post_wifi_def
        em_wifi_sta_connect_def Let_def)
qed

text \<open>C19. From a start with a terminated name and password in the flash (a blank flash has them), the station starts without
  a failed check and connects exactly when a name is stored. Any sequence of calls and driver events then runs without a
  fault exactly when every call to connect passes a name of at most 31 and a password of at most 63 bytes, and the
  configuration that is stored at the end is terminated again, so that the next start is as safe.\<close>

theorem wifi_restart_safe:
  assumes "wifi_drv_ok drv conf" "conf_ok (conf (wf_drv st0))"
  shows "\<exists>st evs. em_wifi_sta_init drv scan st0 = Inr (st, evs) \<and>
    (Wifi_connect \<in> set evs \<longleftrightarrow> fst (conf (wf_drv st0)) ! 0 \<noteq> 0) \<and>
    (if list_all op_ok ops then \<exists>st' evs'. wifi_run drv ops st = Inr (st', evs') \<and> conf_ok (conf (wf_drv st'))
     else \<exists>f. wifi_run drv ops st = Inl f)"
  using sta_init_ok [OF assms, of scan] wifi_run_ok [OF assms(1), of _ ops] by force

lemma drv0_ok: "wifi_drv_ok drv0 (\<lambda>s. s)"
  by (simp add: wifi_drv_ok_def drv0_def)

theorem wifi_restart_safe_witness:
  "\<exists>st evs f. em_wifi_sta_init drv0 True wifi_blank = Inr (st, evs) \<and> Wifi_connect \<notin> set evs \<and>
     wifi_run drv0 [W_connect (replicate 32 65) [66, 0]] st = Inl f"
proof -
  have "conf_ok (wf_drv wifi_blank)" by (simp add: conf_ok_def wifi_blank_def)
  from wifi_restart_safe [OF drv0_ok this, of True "[W_connect (replicate 32 65) [66, 0]]"]
  show ?thesis by (auto simp: credentials_ok_def wifi_blank_def)
qed

end
