(* ===== verification/EM_Ble_Prov.thy ===== *)
theory EM_Ble_Prov
  imports EM_Wifi EM_Cscan
begin

section \<open>Provisioning over Bluetooth (em_ble_core/ble_adv.c, ble_gatt.c, em_ble_prov_svc/ble_prov_svc.c)\<close>

text \<open>
  A phone writes the name and the password of the network to characteristics of the device and then asks it to connect. The
  three files share the state \<open>ble\<close>, which holds the station of \<open>EM_Wifi\<close> too. The NimBLE stack is the
  parameter \<open>ble_env\<close>; it assigns the handles of the characteristics, which are the constructors of \<open>ble_chr\<close>. The
  name and the password are neighbours in one structure: a copy that is longer than the name runs into the
  password, and one that leaves both is a fault.
\<close>

abbreviation MIN_CHR_LEN :: nat where "MIN_CHR_LEN \<equiv> 1"
abbreviation MAX_CHR_LEN :: nat where "MAX_CHR_LEN \<equiv> 128"
abbreviation CONNECTION_NONE :: int where "CONNECTION_NONE \<equiv> - 1"
abbreviation CONNECTION_IN_PROGRESS :: int where "CONNECTION_IN_PROGRESS \<equiv> - 2"
abbreviation CONNECTION_SUCCESSFUL :: int where "CONNECTION_SUCCESSFUL \<equiv> - 3"
abbreviation BLE_ATT_ERR_READ_NOT_PERMITTED :: int where "BLE_ATT_ERR_READ_NOT_PERMITTED \<equiv> 0x02"
abbreviation BLE_ATT_ERR_WRITE_NOT_PERMITTED :: int where "BLE_ATT_ERR_WRITE_NOT_PERMITTED \<equiv> 0x03"
abbreviation BLE_ATT_ERR_INVALID_ATTR_VALUE_LEN :: int where "BLE_ATT_ERR_INVALID_ATTR_VALUE_LEN \<equiv> 0x0D"
abbreviation BLE_ATT_ERR_UNLIKELY :: int where "BLE_ATT_ERR_UNLIKELY \<equiv> 0x0E"
abbreviation BLE_ATT_ERR_INSUFFICIENT_RES :: int where "BLE_ATT_ERR_INSUFFICIENT_RES \<equiv> 0x11"
abbreviation BLE_ATT_ERR_VALUE_NOT_ALLOWED :: int where "BLE_ATT_ERR_VALUE_NOT_ALLOWED \<equiv> 0x13"
abbreviation BLE_HS_FOREVER :: nat where "BLE_HS_FOREVER \<equiv> 0x7FFFFFFF"

datatype ble_chr = CHR_SSID | CHR_PASS | CHR_CONNECTION | CHR_DEV_ID | CHR_APS | CHR_AP_ID | CHR_OTHER nat

datatype em_ble_core_event_t = EM_BLE_CORE_EVENT_DISCONNECTED | EM_BLE_CORE_EVENT_CONNECTED | EM_BLE_CORE_EVENT_DEINIT

record 's ble =
  bl_own_addr_type :: u8
  bl_initialized :: bool
  bl_read_cb :: bool
  bl_write_cb :: bool
  bl_chr_op_buffer :: bytes
  bl_name :: bytes
  bl_disconnection_delay :: u32
  bl_dev_id :: u64
  bl_credentials :: em_wifi_credentials_t
  bl_conn_status :: bytes
  bl_conn_result :: int
  bl_selected_ap_id :: u8
  bl_ap_list :: em_wifi_ap_list_t
  bl_wifi :: "'s wifi"

datatype ble_call =
    Ble_wifi wifi_call
  | Ble_post em_ble_core_event_t
  | Ble_adv_start u8 nat
  | Ble_schedule_stop u32
  | Ble_cancel_stop
  | Ble_port_init
  | Ble_port_stop

record ble_env =
  be_port_init :: int
  be_count_cfg :: int
  be_add_svcs :: int
  be_name_set :: int
  be_port_stop :: int
  be_adv_fields :: int
  be_adv_start :: int
  be_conn_find :: int
  be_ensure_addr :: int
  be_infer_auto :: "int \<times> u8"
  be_post :: int
  be_mbuf_append :: int
  be_mbuf_to_flat :: int

definition ascii :: "string \<Rightarrow> bytes" where
  "ascii s = map (\<lambda>c. word_of_nat (of_char c)) s"

text \<open>A string in an array of \<open>n\<close> bytes that was cleared before.\<close>

definition in_array :: "nat \<Rightarrow> bytes \<Rightarrow> bytes" where
  "in_array n s = overwrite (replicate n 0) 0 s"

definition ble_start :: "'s wifi \<Rightarrow> 's ble" where
  "ble_start w =
     \<lparr>bl_own_addr_type = 0xFF, bl_initialized = False, bl_read_cb = False, bl_write_cb = False,
      bl_chr_op_buffer = replicate MAX_CHR_LEN 0, bl_name = replicate 32 0, bl_disconnection_delay = 60000, bl_dev_id = 0,
      bl_credentials = credentials_zero, bl_conn_status = in_array 36 (ascii ''Disconnected''),
      bl_conn_result = CONNECTION_NONE, bl_selected_ap_id = 0,
      bl_ap_list = \<lparr>al_len = 0, al_aps = replicate (AP_SIZE * MAX_SCAN_RECORDS) 0\<rparr>, bl_wifi = w\<rparr>"

subsection \<open>Printed numbers\<close>

text \<open>The digits \<open>printf\<close> writes for an unsigned number to base 10 or 16.\<close>

definition digit_char :: "nat \<Rightarrow> u8" where
  "digit_char d = word_of_nat (if d < 10 then 48 + d else 55 + d)"

fun num_text :: "nat \<Rightarrow> nat \<Rightarrow> bytes" where
  "num_text base n =
     (if base \<le> 1 \<or> n < base then [digit_char n] else num_text base (n div base) @ [digit_char (n mod base)])"

declare num_text.simps [simp del]

definition hex_text2 :: "nat \<Rightarrow> bytes" where
  "hex_text2 n = (let s = num_text 16 n in replicate (2 - length s) 48 @ s)"

text \<open>\<open>snprintf\<close> to \<open>n\<close> bytes: at most \<open>n - 1\<close> characters and the terminator.\<close>

definition c_snprintf :: "nat \<Rightarrow> bytes \<Rightarrow> bytes" where
  "c_snprintf n s = take (n - 1) s @ [0]"

subsection \<open>Advertising and the stack (ble_adv.c)\<close>

definition start_advertising :: "ble_env \<Rightarrow> 's ble \<Rightarrow> ble_call list" where
  "start_advertising env st =
     (if bl_own_addr_type st = 0xFF then []
      else if \<not> bl_initialized st then []
      else if be_adv_fields env \<noteq> 0 then []
      else [Ble_adv_start (bl_own_addr_type st) BLE_HS_FOREVER])"

datatype gap_event =
    BLE_GAP_EVENT_CONNECT int
  | BLE_GAP_EVENT_DISCONNECT int
  | BLE_GAP_EVENT_CONN_UPDATE
  | BLE_GAP_EVENT_ADV_COMPLETE int
  | BLE_GAP_EVENT_LOGGED nat

definition handle_gap_event_cb :: "ble_env \<Rightarrow> gap_event \<Rightarrow> 's ble \<Rightarrow> ble_call list outcome" where
  "handle_gap_event_cb env event st =
     (case event of
        BLE_GAP_EVENT_CONNECT status \<Rightarrow>
          if status = 0 then c_assert (be_conn_find env = 0) (Inr [Ble_post EM_BLE_CORE_EVENT_CONNECTED])
          else Inr (start_advertising env st)
      | BLE_GAP_EVENT_DISCONNECT reason \<Rightarrow>
          Inr (start_advertising env st @ [Ble_post EM_BLE_CORE_EVENT_DISCONNECTED])
      | BLE_GAP_EVENT_CONN_UPDATE \<Rightarrow> c_assert (be_conn_find env = 0) (Inr [])
      | BLE_GAP_EVENT_ADV_COMPLETE reason \<Rightarrow> Inr (start_advertising env st)
      | BLE_GAP_EVENT_LOGGED n \<Rightarrow> Inr [])"

definition gatt_svr_init :: "ble_env \<Rightarrow> 's ble \<Rightarrow> int \<times> 's ble" where
  "gatt_svr_init env st =
     (let st = st\<lparr>bl_read_cb := True, bl_write_cb := True\<rparr> in
      if be_count_cfg env \<noteq> 0 then (be_count_cfg env, st)
      else if be_add_svcs env \<noteq> 0 then (be_add_svcs env, st)
      else (0, st))"

definition on_sync :: "ble_env \<Rightarrow> 's ble \<Rightarrow> ('s ble \<times> ble_call list) outcome" where
  "on_sync env st =
     c_assert (be_ensure_addr env = 0)
       (let (rc, addr_type) = be_infer_auto env; st = st\<lparr>bl_own_addr_type := addr_type\<rparr> in
        if rc \<noteq> 0 then Inr (st, []) else Inr (st, start_advertising env st))"

definition em_ble_init :: "ble_env \<Rightarrow> 's ble \<Rightarrow> (int \<times> 's ble \<times> ble_call list) outcome" where
  "em_ble_init env st =
     (if bl_initialized st then Inr (ESP_OK, st, [])
      else
        let st = st\<lparr>bl_initialized := True\<rparr>; ret = be_port_init env; (rc, st) = gatt_svr_init env st in
        c_assert (rc = 0) (c_assert (be_name_set env = 0) (Inr (ret, st, [Ble_port_init]))))"

definition em_ble_deinit :: "ble_env \<Rightarrow> 's ble \<Rightarrow> ('s ble \<times> ble_call list) outcome" where
  "em_ble_deinit env st =
     (if \<not> bl_initialized st then Inr (st, [])
      else
        let st = st\<lparr>bl_initialized := False\<rparr> in
        c_assert (be_post env = ESP_OK) (Inr (st, [Ble_post EM_BLE_CORE_EVENT_DEINIT, Ble_port_stop])))"

subsection \<open>Starting and stopping the service (ble_prov_svc.c)\<close>

definition em_ble_prov_init :: "bytes \<Rightarrow> u64 \<Rightarrow> int list \<Rightarrow> 's ble \<Rightarrow> 's ble outcome" where
  "em_ble_prov_init dev_name ident registered st =
     (let dev_id_str_len = 16; max_name_len = 32 - dev_id_str_len - 2 in
      obind (c_strnlen dev_name max_name_len) (\<lambda>str_len.
        let name = overwrite (replicate 32 0) 0 (take str_len dev_name);
            name = name[str_len := 95];
            name = overwrite name (str_len + 1) (c_snprintf dev_id_str_len (hex_text2 (unat ident))) in
        c_assert (\<forall>r \<in> set registered. r = ESP_OK) (Inr (st\<lparr>bl_dev_id := ident, bl_name := name\<rparr>))))"

definition em_ble_prov_start :: "ble_env \<Rightarrow> u32 \<Rightarrow> 's ble \<Rightarrow> (int \<times> 's ble \<times> ble_call list) outcome" where
  "em_ble_prov_start env disconn_delay st =
     obind (em_ble_init env st) (\<lambda>(ret, st, evs).
       if ret = 0 \<and> disconn_delay \<noteq> 0xFFFFFFFF
       then Inr (ret, st\<lparr>bl_disconnection_delay := disconn_delay\<rparr>, evs @ [Ble_schedule_stop disconn_delay])
       else Inr (ret, st, evs))"

definition em_ble_prov_stop :: "ble_env \<Rightarrow> 's ble \<Rightarrow> ('s ble \<times> ble_call list) outcome" where
  "em_ble_prov_stop env st = em_ble_deinit env st"

definition prov_stop_wrapper :: "ble_env \<Rightarrow> 's ble \<Rightarrow> ('s ble \<times> ble_call list) outcome" where
  "prov_stop_wrapper env st = em_ble_prov_stop env st"

definition em_ble_conn_hnd :: "ble_call list" where
  "em_ble_conn_hnd = [Ble_cancel_stop]"

definition em_ble_disconn_hnd :: "'s ble \<Rightarrow> ble_call list" where
  "em_ble_disconn_hnd st = [Ble_schedule_stop (bl_disconnection_delay st)]"

definition wifi_disconnected_hnd :: "bytes \<Rightarrow> 's ble \<Rightarrow> 's ble outcome" where
  "wifi_disconnected_hnd event_data st =
     (let st = st\<lparr>bl_conn_result := CONNECTION_NONE\<rparr> in
      obind (c_strnlen event_data 36) (\<lambda>n.
      obind (c_memcpy (replicate 36 0) event_data n) (\<lambda>status. Inr (st\<lparr>bl_conn_status := status\<rparr>))))"

definition connected_text :: "bytes \<Rightarrow> bytes" where
  "connected_text ip =
     ascii ''Connected  '' @ num_text 10 (unat (ip ! 0)) @ [46] @ num_text 10 (unat (ip ! 1)) @ [46] @
     num_text 10 (unat (ip ! 2)) @ [46] @ num_text 10 (unat (ip ! 3))"

definition wifi_connected_hnd :: "bytes \<Rightarrow> 's ble \<Rightarrow> 's ble outcome" where
  "wifi_connected_hnd local_ip st =
     obind (c_memcpy (replicate 36 0) (connected_text local_ip @ [0]) (length (connected_text local_ip) + 1)) (\<lambda>status.
       Inr (st\<lparr>bl_conn_status := status, bl_conn_result := CONNECTION_SUCCESSFUL\<rparr>))"

text \<open>The list of the scan keeps what it held behind the copied entries.\<close>

definition wifi_scan_done_hnd :: "ble_env \<Rightarrow> nat \<Rightarrow> bytes \<Rightarrow> 's ble \<Rightarrow> ('s ble \<times> ble_call list) outcome" where
  "wifi_scan_done_hnd env len aps st =
     obind (c_memcpy (al_aps (bl_ap_list st)) aps (len * AP_SIZE)) (\<lambda>mem.
       let st = st\<lparr>bl_ap_list := \<lparr>al_len = len, al_aps = mem\<rparr>\<rparr> in
       if bl_conn_result st = CONNECTION_IN_PROGRESS \<or> bl_conn_result st = CONNECTION_SUCCESSFUL then Inr (st, [])
       else obind (em_ble_prov_start env 0xFFFFFFFF st) (\<lambda>(ret, st, evs). Inr (st, evs)))"

subsection \<open>Characteristics\<close>

text \<open>\<open>read_chr_handler\<close>: the result, which is a length or an error code, and the buffer of the caller.\<close>

definition read_chr_handler :: "ble_chr \<Rightarrow> bytes \<Rightarrow> 's ble \<Rightarrow> (int \<times> bytes) outcome" where
  "read_chr_handler attr chr_val st =
     (case attr of
        CHR_SSID \<Rightarrow>
          obind (c_strnlen (cr_ssid (bl_credentials st)) 32) (\<lambda>ret.
            if ret = 0 then Inr (1, chr_val[0 := 0])
            else obind (c_memcpy chr_val (cr_ssid (bl_credentials st)) ret) (\<lambda>chr_val. Inr (int ret, chr_val)))
      | CHR_PASS \<Rightarrow> Inr (BLE_ATT_ERR_READ_NOT_PERMITTED, chr_val)
      | CHR_CONNECTION \<Rightarrow>
          obind (c_strnlen (bl_conn_status st) 36) (\<lambda>str_len.
          obind (c_memcpy chr_val (replicate 36 0) 36) (\<lambda>chr_val.
          obind (c_memcpy chr_val (bl_conn_status st) str_len) (\<lambda>chr_val. Inr (36, chr_val))))
      | CHR_DEV_ID \<Rightarrow>
          obind (c_memcpy chr_val (map (\<lambda>i. ucast (drop_bit (8 * i) (bl_dev_id st) AND 0xFF)) [0..<8]) 8) (\<lambda>chr_val.
            Inr (8, chr_val))
      | CHR_APS \<Rightarrow>
          if al_len (bl_ap_list st) \<le> unat (bl_selected_ap_id st) then
            obind (c_memcpy chr_val [0, 0, 0] 3) (\<lambda>chr_val. Inr (3, chr_val))
          else
            let ap = drop (AP_SIZE * unat (bl_selected_ap_id st)) (al_aps (bl_ap_list st)) in
            obind (c_string ap) (\<lambda>s.
              let ssid_len = word_of_nat (length s) :: u8 in
              obind (c_memcpy chr_val ([1, 1, ssid_len] @ take (unat ssid_len) ap) (3 + unat ssid_len)) (\<lambda>chr_val.
                Inr (int (3 + unat ssid_len), chr_val)))
      | CHR_AP_ID \<Rightarrow>
          if MAX_SCAN_RECORDS \<le> unat (bl_selected_ap_id st) then Inr (BLE_ATT_ERR_READ_NOT_PERMITTED, chr_val)
          else obind (c_memcpy chr_val [bl_selected_ap_id st, 0, 0, 0] 4) (\<lambda>chr_val. Inr (1, chr_val))
      | CHR_OTHER n \<Rightarrow> Inr (- 1, chr_val))"

text \<open>A copy to the name or the password. The structure holds the name of 32 bytes, the password of 64 behind it, and then the
  flags; the model faults for a copy that leaves these 96 bytes. A copy of more than 32 bytes to the name overruns its array, which is
  undefined in C; on the device it goes on into the password, and this is what the model does with it
  (\<open>ble_access_fault_iff\<close> says exactly when and with which bytes).\<close>

definition cred_copy :: "nat \<Rightarrow> bytes \<Rightarrow> em_wifi_credentials_t \<Rightarrow> em_wifi_credentials_t outcome" where
  "cred_copy off bs cr =
     (let mem = cr_ssid cr @ cr_password cr in
      if length mem < off + length bs then Inl OutOfBounds
      else Inr (cr\<lparr>cr_ssid := take 32 (overwrite mem off bs), cr_password := drop 32 (overwrite mem off bs)\<rparr>))"

definition write_chr_handler ::
  "'s wifi_drv \<Rightarrow> ble_chr \<Rightarrow> bytes \<Rightarrow> nat \<Rightarrow> 's ble \<Rightarrow> (int \<times> 's ble \<times> ble_call list) outcome" where
  "write_chr_handler drv attr chr_val chr_len st =
     (let cr = bl_credentials st in
      if length chr_val < chr_len then Inl OutOfBounds
      else case attr of
        CHR_SSID \<Rightarrow>
          obind (cred_copy 0 (take chr_len chr_val) (cr\<lparr>cr_ssid := replicate 32 0\<rparr>)) (\<lambda>cr.
            Inr (0, st\<lparr>bl_credentials := cr\<lparr>cr_ssid_set := True\<rparr>\<rparr>, []))
      | CHR_PASS \<Rightarrow>
          obind (cred_copy 32 (take chr_len chr_val) (cr\<lparr>cr_password := replicate 64 0\<rparr>)) (\<lambda>cr.
            Inr (0, st\<lparr>bl_credentials := cr\<lparr>cr_password_set := True\<rparr>\<rparr>, []))
      | CHR_CONNECTION \<Rightarrow>
          if \<not> cr_ssid_set cr \<or> \<not> cr_password_set cr then Inr (0, st, [])
          else
            let st = st\<lparr>bl_conn_result := CONNECTION_IN_PROGRESS\<rparr> in
            obind (em_wifi_sta_connect drv (cr_ssid cr) (cr_password cr) (bl_wifi st)) (\<lambda>(w, evs).
              Inr (0, st\<lparr>bl_wifi := w, bl_conn_status := in_array 36 (ascii ''Connecting...'')\<rparr>, map Ble_wifi evs))
      | CHR_DEV_ID \<Rightarrow> Inr (BLE_ATT_ERR_WRITE_NOT_PERMITTED, st, [])
      | CHR_AP_ID \<Rightarrow>
          if chr_len \<noteq> 1 then Inr (BLE_ATT_ERR_VALUE_NOT_ALLOWED, st, [])
          else Inr (0, st\<lparr>bl_selected_ap_id := hd chr_val\<rparr>, [])
      | _ \<Rightarrow> Inr (BLE_ATT_ERR_UNLIKELY, st, []))"

subsection \<open>Access to a characteristic (ble_gatt.c)\<close>

definition gatt_svr_chr_write :: "ble_env \<Rightarrow> bytes \<Rightarrow> nat \<Rightarrow> nat \<Rightarrow> bytes \<Rightarrow> (int \<times> bytes \<times> nat) outcome" where
  "gatt_svr_chr_write env om min_len max_len dst =
     (if length om < min_len \<or> max_len < length om then Inr (BLE_ATT_ERR_INVALID_ATTR_VALUE_LEN, dst, 0)
      else if be_mbuf_to_flat env \<noteq> 0 then Inr (BLE_ATT_ERR_UNLIKELY, dst, 0)
      else obind (c_memcpy dst om (length om)) (\<lambda>dst. Inr (0, dst, length om)))"

definition set_read_chr_cb :: "'s ble \<Rightarrow> 's ble" where
  "set_read_chr_cb st = st\<lparr>bl_read_cb := True\<rparr>"

definition set_write_chr_cb :: "'s ble \<Rightarrow> 's ble" where
  "set_write_chr_cb st = st\<lparr>bl_write_cb := True\<rparr>"

datatype gatt_access = BLE_GATT_ACCESS_OP_READ_CHR | BLE_GATT_ACCESS_OP_WRITE_CHR bytes | BLE_GATT_ACCESS_OP_DSC

text \<open>The result, the bytes appended to the answer, and the state.\<close>

definition default_chr_access_cb ::
  "ble_env \<Rightarrow> 's wifi_drv \<Rightarrow> ble_chr \<Rightarrow> gatt_access \<Rightarrow> 's ble \<Rightarrow> (int \<times> bytes \<times> 's ble \<times> ble_call list) outcome" where
  "default_chr_access_cb env drv attr op st =
     (case op of
        BLE_GATT_ACCESS_OP_READ_CHR \<Rightarrow>
          c_assert (bl_read_cb st)
            (obind (read_chr_handler attr (bl_chr_op_buffer st) st) (\<lambda>(chr_len, buf).
               let st = st\<lparr>bl_chr_op_buffer := buf\<rparr> in
               c_assert (chr_len \<le> int MAX_CHR_LEN)
                 (if chr_len \<le> 0 then Inr (BLE_ATT_ERR_UNLIKELY, [], st, [])
                  else if be_mbuf_append env = 0 then Inr (0, take (nat chr_len) buf, st, [])
                  else Inr (BLE_ATT_ERR_INSUFFICIENT_RES, [], st, []))))
      | BLE_GATT_ACCESS_OP_WRITE_CHR om \<Rightarrow>
          c_assert (bl_write_cb st)
            (obind (gatt_svr_chr_write env om MIN_CHR_LEN MAX_CHR_LEN (bl_chr_op_buffer st)) (\<lambda>(rc, buf, chr_len).
               let st = st\<lparr>bl_chr_op_buffer := buf\<rparr> in
               if rc \<noteq> 0 then Inr (rc, [], st, [])
               else
                 obind (write_chr_handler drv attr buf chr_len st) (\<lambda>(err, st, evs).
                   if err < 0 then Inr (BLE_ATT_ERR_UNLIKELY, [], st, evs) else Inr (rc, [], st, evs))))
      | BLE_GATT_ACCESS_OP_DSC \<Rightarrow> Inl Abort)"

end
