(* ===== verification/EM_Ble_Props.thy ===== *)
theory EM_Ble_Props
  imports EM_Ble_Prov EM_Wifi_Props EM_Utils
begin

section \<open>What a phone can do\<close>

text \<open>
  Which accesses of a phone restart the device or corrupt its memory, what a complete provisioning leaves in the flash, and
  what the shared buffer and the neighbouring arrays give away.
\<close>

definition ble_wf :: "'s ble \<Rightarrow> bool" where
  "ble_wf st \<longleftrightarrow> length (bl_chr_op_buffer st) = 128 \<and> length (cr_ssid (bl_credentials st)) = 32 \<and>
     length (cr_password (bl_credentials st)) = 64 \<and> length (bl_conn_status st) = 36 \<and>
     length (al_aps (bl_ap_list st)) = 272 \<and> bl_read_cb st \<and> bl_write_cb st"

lemma c_strnlen_bound: "c_strnlen s n = Inr k \<Longrightarrow> k \<le> n \<and> k \<le> length s"
proof -
  assume a: "c_strnlen s n = Inr k"
  then have "k = length (takeWhile (\<lambda>c. c \<noteq> 0) (take n s))" by (auto simp: c_strnlen_def Let_def split: if_splits)
  then show ?thesis using length_takeWhile_le [of "\<lambda>c. c \<noteq> 0" "take n s"] by simp
qed

lemma c_strnlen_total: "n \<le> length s \<Longrightarrow> \<exists>k \<le> n. c_strnlen s n = Inr k"
  using c_strnlen_bad [of n s] c_strnlen_ok [of n s] by (cases "0 \<in> set (take n s)") (auto intro: less_imp_le)

lemma length_c_memcpy: "c_memcpy dst src n = Inr dst' \<Longrightarrow> length dst' = length dst"
  by (auto simp: c_memcpy_def split: if_splits)

lemma c_memcpy_ok: "n \<le> length dst \<Longrightarrow> n \<le> length src \<Longrightarrow> c_memcpy dst src n = Inr (overwrite dst 0 (take n src))"
  by (simp add: c_memcpy_def)

text \<open>The name of the selected access point fits the answer: it is terminated inside the list, and its length, cut to a byte, leaves
  room for the three bytes before it.\<close>

definition ap_readable :: "'s ble \<Rightarrow> bool" where
  "ap_readable st \<longleftrightarrow>
     (let ap = drop (AP_SIZE * unat (bl_selected_ap_id st)) (al_aps (bl_ap_list st)) in
      0 \<in> set ap \<and> length (takeWhile (\<lambda>b. b \<noteq> 0) ap) mod 256 \<le> 125)"

definition ble_faults :: "ble_env \<Rightarrow> ble_chr \<Rightarrow> gatt_access \<Rightarrow> 's ble \<Rightarrow> bool" where
  "ble_faults env attr op st \<longleftrightarrow>
     (case op of
        BLE_GATT_ACCESS_OP_READ_CHR \<Rightarrow>
          attr = CHR_APS \<and> unat (bl_selected_ap_id st) < al_len (bl_ap_list st) \<and> \<not> ap_readable st
      | BLE_GATT_ACCESS_OP_WRITE_CHR om \<Rightarrow>
          1 \<le> length om \<and> length om \<le> 128 \<and> be_mbuf_to_flat env = 0 \<and>
          (attr = CHR_SSID \<and> 96 < length om \<or> attr = CHR_PASS \<and> 64 < length om \<or>
           attr = CHR_CONNECTION \<and> cr_ssid_set (bl_credentials st) \<and> cr_password_set (bl_credentials st) \<and>
             \<not> credentials_ok (cr_ssid (bl_credentials st)) (cr_password (bl_credentials st)))
      | BLE_GATT_ACCESS_OP_DSC \<Rightarrow> True)"

lemma read_chr_ok:
  assumes "ble_wf st"
  shows "if attr = CHR_APS \<and> unat (bl_selected_ap_id st) < al_len (bl_ap_list st) \<and> \<not> ap_readable st
    then \<exists>f. read_chr_handler attr (bl_chr_op_buffer st) st = Inl f
    else \<exists>r buf. read_chr_handler attr (bl_chr_op_buffer st) st = Inr (r, buf) \<and> r \<le> 128 \<and> length buf = 128"
proof (cases "attr = CHR_APS \<and> unat (bl_selected_ap_id st) < al_len (bl_ap_list st)")
  case True
  define ap where "ap = drop (34 * unat (bl_selected_ap_id st)) (al_aps (bl_ap_list st))"
  define s where "s = takeWhile (\<lambda>b. b \<noteq> 0) ap"
  have u: "unat (word_of_nat (length s) :: u8) = length s mod 256" by (simp add: unat_of_nat)
  have i: "uint (word_of_nat (length s) :: u8) = int (length s mod 256)" using u by (metis uint_nat)
  have le: "length s mod 256 \<le> length ap"
    using length_takeWhile_le [of "\<lambda>b. b \<noteq> 0" ap] mod_less_eq_dividend [of "length s" 256] unfolding s_def by linarith
  have "ap_readable st \<longleftrightarrow> 0 \<in> set ap \<and> length s mod 256 \<le> 125" by (simp add: ap_readable_def ap_def s_def Let_def)
  then show ?thesis
    using True assms le unfolding read_chr_handler_def
    by (simp add: ble_wf_def c_string_def c_memcpy_def Let_def u i flip: ap_def s_def)
next
  case False
  have len: "length (cr_ssid (bl_credentials st)) = 32" "length (bl_conn_status st) = 36" "length (bl_chr_op_buffer st) = 128"
    using assms by (simp_all add: ble_wf_def)
  obtain k m where "c_strnlen (cr_ssid (bl_credentials st)) 32 = Inr k" "k \<le> 32"
    and "c_strnlen (bl_conn_status st) 36 = Inr m" "m \<le> 36"
    using c_strnlen_total [of 32 "cr_ssid (bl_credentials st)"] c_strnlen_total [of 36 "bl_conn_status st"] len by auto
  then show ?thesis
    using False len
    by (cases attr) (simp_all add: read_chr_handler_def c_memcpy_def not_less)
qed

lemma cred_copy_ok:
  assumes "length (cr_ssid cr) = 32" "length (cr_password cr) = 64"
  shows "if 96 < off + length bs then cred_copy off bs cr = Inl OutOfBounds
    else \<exists>a b. cred_copy off bs cr = Inr (cr\<lparr>cr_ssid := a, cr_password := b\<rparr>) \<and> length a = 32 \<and> length b = 64"
proof -
  let ?mem = "overwrite (cr_ssid cr @ cr_password cr) off bs"
  show ?thesis
  proof (cases "96 < off + length bs")
    case False
    then have "cred_copy off bs cr = Inr (cr\<lparr>cr_ssid := take 32 ?mem, cr_password := drop 32 ?mem\<rparr>)"
      using assms by (simp add: cred_copy_def Let_def)
    moreover have "length (take 32 ?mem) = 32" "length (drop 32 ?mem) = 64" using False assms by simp_all
    ultimately show ?thesis using False by metis
  qed (use assms in \<open>simp add: cred_copy_def\<close>)
qed

lemma write_chr_ok:
  assumes "ble_wf st" "wifi_drv_ok drv conf" "n \<le> 128" "length buf = 128" "1 \<le> n"
  shows "if attr = CHR_SSID \<and> 96 < n \<or> attr = CHR_PASS \<and> 64 < n \<or>
      attr = CHR_CONNECTION \<and> cr_ssid_set (bl_credentials st) \<and> cr_password_set (bl_credentials st) \<and>
        \<not> credentials_ok (cr_ssid (bl_credentials st)) (cr_password (bl_credentials st))
    then \<exists>f. write_chr_handler drv attr buf n st = Inl f
    else \<exists>r st' evs. write_chr_handler drv attr buf n st = Inr (r, st', evs) \<and> 0 \<le> r \<and> ble_wf st'"
proof -
  let ?cr = "bl_credentials st"
  have len: "length (cr_ssid ?cr) = 32" "length (cr_password ?cr) = 64" using assms(1) by (simp_all add: ble_wf_def)
  show ?thesis
  proof (cases attr)
    case CHR_SSID
    then show ?thesis
      using cred_copy_ok [of "?cr\<lparr>cr_ssid := replicate 32 0\<rparr>" 0 "take n buf"] len assms
      by (auto simp: write_chr_handler_def ble_wf_def)
  next
    case CHR_PASS
    then show ?thesis
      using cred_copy_ok [of "?cr\<lparr>cr_password := replicate 64 0\<rparr>" 32 "take n buf"] len assms
      by (auto simp: write_chr_handler_def ble_wf_def)
  next
    case CHR_CONNECTION
    have "length (in_array 36 (ascii ''Connecting...'')) = 36" by (simp add: in_array_def ascii_def)
    then show ?thesis
      using CHR_CONNECTION sta_connect_ok [OF assms(2), of "cr_ssid ?cr" "cr_password ?cr" "bl_wifi st"] assms
      by (auto simp: write_chr_handler_def ble_wf_def Let_def)
  qed (use assms in \<open>auto simp: write_chr_handler_def ble_wf_def\<close>)
qed

text \<open>The part of a written name that does not fit its array, for a name that still fits the structure: the password lies behind
  the name.\<close>

definition ble_overrun :: "ble_env \<Rightarrow> ble_chr \<Rightarrow> gatt_access \<Rightarrow> bytes" where
  "ble_overrun env attr op =
     (case op of
        BLE_GATT_ACCESS_OP_WRITE_CHR om \<Rightarrow>
          if attr = CHR_SSID \<and> length om \<le> 96 \<and> be_mbuf_to_flat env = 0 then drop 32 om else []
      | _ \<Rightarrow> [])"

lemma overwrite_over:
  assumes "length a = 32" "length b = 64" "length bs \<le> 96"
  shows "drop 32 (overwrite (a @ b) 0 bs) = overwrite b 0 (drop 32 bs)"
  using assms by (cases "length bs \<le> 32") (simp_all add: overwrite_def)

lemma write_chr_password:
  assumes "ble_wf st" "write_chr_handler drv attr buf n st = Inr (r, st', evs)" "attr \<noteq> CHR_PASS" "n \<le> length buf"
  shows "cr_password (bl_credentials st') =
    overwrite (cr_password (bl_credentials st)) 0 (if attr = CHR_SSID then drop 32 (take n buf) else [])"
proof -
  have len: "length (cr_password (bl_credentials st)) = 64" using assms(1) by (simp add: ble_wf_def)
  show ?thesis
    using assms(2-4) len
    by (cases attr)
      (auto simp: write_chr_handler_def cred_copy_def obind_Inr_iff Let_def overwrite_over split: if_splits)
qed

lemma access_password:
  assumes "ble_wf st" "default_chr_access_cb env drv attr op st = Inr (rc, out, st', evs)" "attr \<noteq> CHR_PASS"
  shows "cr_password (bl_credentials st') = overwrite (cr_password (bl_credentials st)) 0 (ble_overrun env attr op)"
proof (cases op)
  case BLE_GATT_ACCESS_OP_READ_CHR
  then show ?thesis
    using assms(2) by (auto simp: default_chr_access_cb_def ble_overrun_def obind_Inr_iff Let_def split: if_splits)
next
  case (BLE_GATT_ACCESS_OP_WRITE_CHR om)
  let ?buf = "overwrite (bl_chr_op_buffer st) 0 om"
  have len: "length (bl_chr_op_buffer st) = 128" using assms(1) by (simp add: ble_wf_def)
  show ?thesis
  proof (cases "1 \<le> length om \<and> length om \<le> 128 \<and> be_mbuf_to_flat env = 0")
    case False
    then show ?thesis
      using assms(2) BLE_GATT_ACCESS_OP_WRITE_CHR
      by (auto simp: default_chr_access_cb_def gatt_svr_chr_write_def ble_overrun_def obind_Inr_iff Let_def not_le
          split: if_splits)
  next
    case True
    then have buf: "length ?buf = 128" "take (length om) ?buf = om" using len by (simp_all add: take_overwrite_0)
    have wf: "ble_wf (st\<lparr>bl_chr_op_buffer := ?buf\<rparr>)" using assms(1) buf(1) by (simp add: ble_wf_def)
    obtain err evs' where w: "write_chr_handler drv attr ?buf (length om) (st\<lparr>bl_chr_op_buffer := ?buf\<rparr>) = Inr (err, st', evs')"
      using assms(2) True BLE_GATT_ACCESS_OP_WRITE_CHR len
      by (auto simp: default_chr_access_cb_def gatt_svr_chr_write_def c_memcpy_def obind_Inr_iff Let_def not_less split: if_splits)
    have "attr = CHR_SSID \<Longrightarrow> length om \<le> 96"
      using w assms(1) buf True
      by (auto simp: write_chr_handler_def cred_copy_def ble_wf_def obind_Inr_iff Let_def split: if_splits)
    then show ?thesis
      using write_chr_password [OF wf w assms(3)] buf True BLE_GATT_ACCESS_OP_WRITE_CHR by (auto simp: ble_overrun_def)
  qed
qed (use assms(2) in \<open>simp add: default_chr_access_cb_def\<close>)

lemma access_fault_iff:
  assumes "ble_wf st" "wifi_drv_ok drv conf"
  shows "if ble_faults env attr op st then \<exists>f. default_chr_access_cb env drv attr op st = Inl f
    else \<exists>rc out st' evs. default_chr_access_cb env drv attr op st = Inr (rc, out, st', evs) \<and> ble_wf st' \<and>
      (\<forall>om. op = BLE_GATT_ACCESS_OP_WRITE_CHR om \<and> 1 \<le> length om \<and> length om \<le> 128 \<and> be_mbuf_to_flat env = 0 \<longrightarrow> rc = 0)"
proof (cases op)
  case BLE_GATT_ACCESS_OP_READ_CHR
  show ?thesis
  proof (cases "ble_faults env attr op st")
    case True
    then show ?thesis
      using BLE_GATT_ACCESS_OP_READ_CHR read_chr_ok [OF assms(1), of attr] assms(1)
      by (auto simp: ble_faults_def default_chr_access_cb_def ble_wf_def)
  next
    case False
    then obtain r buf where r: "read_chr_handler attr (bl_chr_op_buffer st) st = Inr (r, buf)" "r \<le> 128" "length buf = 128"
      using BLE_GATT_ACCESS_OP_READ_CHR read_chr_ok [OF assms(1), of attr] by (auto simp: ble_faults_def split: if_splits)
    have "ble_wf (st\<lparr>bl_chr_op_buffer := buf\<rparr>)" using assms(1) r(3) by (simp add: ble_wf_def)
    then show ?thesis
      using False BLE_GATT_ACCESS_OP_READ_CHR r(1,2) assms(1)
      by (simp add: default_chr_access_cb_def ble_wf_def Let_def)
  qed
next
  case (BLE_GATT_ACCESS_OP_WRITE_CHR om)
  have cb: "bl_write_cb st" using assms(1) by (simp add: ble_wf_def)
  show ?thesis
  proof (cases "1 \<le> length om \<and> length om \<le> 128 \<and> be_mbuf_to_flat env = 0")
    case True
    have ne: "om \<noteq> []" using True by auto
    define buf where "buf = overwrite (bl_chr_op_buffer st) 0 om"
    define st1 where "st1 = st\<lparr>bl_chr_op_buffer := buf\<rparr>"
    have buf: "length buf = 128" using True assms(1) by (simp add: buf_def ble_wf_def)
    then have wf: "ble_wf st1" using assms(1) by (simp add: ble_wf_def st1_def)
    have eq: "default_chr_access_cb env drv attr op st = obind (write_chr_handler drv attr buf (length om) st1) (\<lambda>(err, st, evs).
        if err < 0 then Inr (BLE_ATT_ERR_UNLIKELY, [], st, evs) else Inr (0, [], st, evs))"
      using True cb assms(1) BLE_GATT_ACCESS_OP_WRITE_CHR ne
      by (simp add: default_chr_access_cb_def gatt_svr_chr_write_def c_memcpy_def ble_wf_def buf_def st1_def not_less)
    have cr: "bl_credentials st1 = bl_credentials st" by (simp add: st1_def)
    show ?thesis
      using write_chr_ok [OF wf assms(2) _ buf, of "length om" attr] True BLE_GATT_ACCESS_OP_WRITE_CHR
      unfolding eq ble_faults_def cr by (auto split: if_splits)
  next
    case False
    then show ?thesis
      using cb assms(1) BLE_GATT_ACCESS_OP_WRITE_CHR
      by (auto simp: ble_faults_def default_chr_access_cb_def gatt_svr_chr_write_def ble_wf_def not_le Let_def)
  qed
qed (simp add: ble_faults_def default_chr_access_cb_def)

text \<open>C18. In every state with the arrays of the service in place, an access of a phone to a characteristic ends in a failed
  assertion or a write outside the objects of the service exactly when it writes a network name of more than 96 or a password of more
  than 64 bytes, asks to connect with a name or password that fills its array, or reads the record of an access point whose name does not
  end within the list or is too long for the buffer. Every other access leaves the arrays in place, and no write that is well formed is
  ever answered with an error. A name of 33 to 96 bytes is such an access, but it overruns its array of 32 bytes: the bytes from the
  33rd on replace the beginning of the password. No other access except the write of the password changes the password.\<close>

theorem ble_access_fault_iff:
  assumes "ble_wf st" "wifi_drv_ok drv conf"
  shows "if ble_faults env attr op st then \<exists>f. default_chr_access_cb env drv attr op st = Inl f
    else \<exists>rc out st' evs. default_chr_access_cb env drv attr op st = Inr (rc, out, st', evs) \<and> ble_wf st' \<and>
      (\<forall>om. op = BLE_GATT_ACCESS_OP_WRITE_CHR om \<and> 1 \<le> length om \<and> length om \<le> 128 \<and> be_mbuf_to_flat env = 0 \<longrightarrow> rc = 0) \<and>
      (attr \<noteq> CHR_PASS \<longrightarrow>
        cr_password (bl_credentials st') = overwrite (cr_password (bl_credentials st)) 0 (ble_overrun env attr op))"
  using access_fault_iff [OF assms, of env attr op] access_password [OF assms(1), of env drv attr op]
  by (cases "ble_faults env attr op st"; simp only: if_True if_False not_True_eq_False not_False_eq_True) blast+

definition ble_env0 :: ble_env where
  "ble_env0 =
     \<lparr>be_port_init = 0, be_count_cfg = 0, be_add_svcs = 0, be_name_set = 0, be_port_stop = 0, be_adv_fields = 0, be_adv_start = 0,
      be_conn_find = 0, be_ensure_addr = 0, be_infer_auto = (0, 0), be_post = 0, be_mbuf_append = 0, be_mbuf_to_flat = 0\<rparr>"

definition ble_ready :: "(bytes \<times> bytes) ble" where
  "ble_ready = (ble_start wifi_blank)\<lparr>bl_initialized := True, bl_read_cb := True, bl_write_cb := True\<rparr>"

lemma ble_ready_wf: "ble_wf ble_ready"
  by (simp add: ble_wf_def ble_ready_def ble_start_def credentials_zero_def in_array_def ascii_def)

theorem ble_access_fault_iff_witness:
  "(\<exists>f. default_chr_access_cb ble_env0 drv0 CHR_SSID (BLE_GATT_ACCESS_OP_WRITE_CHR (replicate 97 65)) ble_ready = Inl f) \<and>
   (\<exists>out st' evs. default_chr_access_cb ble_env0 drv0 CHR_SSID (BLE_GATT_ACCESS_OP_WRITE_CHR (replicate 40 65)) ble_ready =
      Inr (0, out, st', evs) \<and> cr_password (bl_credentials st') = replicate 8 65 @ replicate 56 0)"
proof -
  have p: "overwrite (cr_password (bl_credentials ble_ready)) 0 (replicate 8 65) = replicate 8 65 @ replicate 56 0"
    by (simp add: ble_ready_def ble_start_def credentials_zero_def overwrite_def)
  have o: "ble_overrun ble_env0 CHR_SSID (BLE_GATT_ACCESS_OP_WRITE_CHR (replicate 40 65)) = replicate 8 65"
    by (simp add: ble_overrun_def ble_env0_def)
  show ?thesis
    using ble_access_fault_iff [OF ble_ready_wf drv0_ok, of ble_env0 CHR_SSID "BLE_GATT_ACCESS_OP_WRITE_CHR (replicate 97 65)"]
      ble_access_fault_iff [OF ble_ready_wf drv0_ok, of ble_env0 CHR_SSID "BLE_GATT_ACCESS_OP_WRITE_CHR (replicate 40 65)"]
    unfolding o p by (auto simp: ble_faults_def ble_env0_def)
qed

subsection \<open>A complete provisioning\<close>

lemma write_access:
  assumes "ble_wf st" "1 \<le> length om" "length om \<le> 128" "be_mbuf_to_flat env = 0"
    and "write_chr_handler drv attr (overwrite (bl_chr_op_buffer st) 0 om) (length om)
      (st\<lparr>bl_chr_op_buffer := overwrite (bl_chr_op_buffer st) 0 om\<rparr>) = Inr (err, st', evs)" "0 \<le> err"
  shows "default_chr_access_cb env drv attr (BLE_GATT_ACCESS_OP_WRITE_CHR om) st = Inr (0, [], st', evs)"
  using assms by (auto simp: default_chr_access_cb_def gatt_svr_chr_write_def c_memcpy_def ble_wf_def Let_def not_less)

lemma write_ssid:
  assumes "ble_wf st" "1 \<le> length s" "length s \<le> 32" "be_mbuf_to_flat env = 0"
  shows "\<exists>st'. default_chr_access_cb env drv CHR_SSID (BLE_GATT_ACCESS_OP_WRITE_CHR s) st = Inr (0, [], st', []) \<and> ble_wf st' \<and>
    bl_credentials st' = (bl_credentials st)\<lparr>cr_ssid := in_array 32 s, cr_ssid_set := True\<rparr> \<and> bl_wifi st' = bl_wifi st"
proof -
  let ?buf = "overwrite (bl_chr_op_buffer st) 0 s"
  have buf: "take (length s) ?buf = s" "length ?buf = 128"
    using assms(1-3) by (simp_all add: take_overwrite_0 ble_wf_def)
  have "overwrite (replicate 32 0 @ cr_password (bl_credentials st)) 0 s = in_array 32 s @ cr_password (bl_credentials st)"
    using assms(3) by (simp add: overwrite_def in_array_def)
  moreover have "length (in_array 32 s) = 32" using assms(3) by (simp add: in_array_def)
  ultimately have "cred_copy 0 s ((bl_credentials st)\<lparr>cr_ssid := replicate 32 0\<rparr>) =
      Inr ((bl_credentials st)\<lparr>cr_ssid := in_array 32 s\<rparr>)"
    using assms(1,3) by (simp add: cred_copy_def ble_wf_def)
  then have "write_chr_handler drv CHR_SSID ?buf (length s) (st\<lparr>bl_chr_op_buffer := ?buf\<rparr>) =
      Inr (0, st\<lparr>bl_chr_op_buffer := ?buf, bl_credentials := (bl_credentials st)\<lparr>cr_ssid := in_array 32 s, cr_ssid_set := True\<rparr>\<rparr>, [])"
    using buf assms(3) by (simp add: write_chr_handler_def)
  from write_access [OF assms(1,2) _ assms(4) this] show ?thesis
    using assms buf by (simp add: ble_wf_def in_array_def)
qed

lemma write_pass:
  assumes "ble_wf st" "1 \<le> length s" "length s \<le> 64" "be_mbuf_to_flat env = 0"
  shows "\<exists>st'. default_chr_access_cb env drv CHR_PASS (BLE_GATT_ACCESS_OP_WRITE_CHR s) st = Inr (0, [], st', []) \<and> ble_wf st' \<and>
    bl_credentials st' = (bl_credentials st)\<lparr>cr_password := in_array 64 s, cr_password_set := True\<rparr> \<and> bl_wifi st' = bl_wifi st \<and>
    bl_selected_ap_id st' = bl_selected_ap_id st \<and> bl_chr_op_buffer st' = overwrite (bl_chr_op_buffer st) 0 s"
proof -
  let ?buf = "overwrite (bl_chr_op_buffer st) 0 s"
  have buf: "take (length s) ?buf = s" "length ?buf = 128"
    using assms(1-3) by (simp_all add: take_overwrite_0 ble_wf_def)
  have "overwrite (cr_ssid (bl_credentials st) @ replicate 64 0) 32 s = cr_ssid (bl_credentials st) @ in_array 64 s"
    using assms(1,3) by (simp add: overwrite_def in_array_def ble_wf_def)
  then have "cred_copy 32 s ((bl_credentials st)\<lparr>cr_password := replicate 64 0\<rparr>) =
      Inr ((bl_credentials st)\<lparr>cr_password := in_array 64 s\<rparr>)"
    using assms(1,3) by (simp add: cred_copy_def ble_wf_def)
  then have "write_chr_handler drv CHR_PASS ?buf (length s) (st\<lparr>bl_chr_op_buffer := ?buf\<rparr>) =
      Inr (0, st\<lparr>bl_chr_op_buffer := ?buf, bl_credentials := (bl_credentials st)\<lparr>cr_password := in_array 64 s, cr_password_set := True\<rparr>\<rparr>, [])"
    using buf assms(3) by (simp add: write_chr_handler_def)
  from write_access [OF assms(1,2) _ assms(4) this] show ?thesis
    using assms buf by (simp add: ble_wf_def in_array_def)
qed

lemma in_array_string:
  assumes "0 \<notin> set s" "length s < n"
  shows "takeWhile (\<lambda>c. c \<noteq> 0) (in_array n s) = s" "0 \<in> set (in_array n s)" "length (in_array n s) = n"
    "c_strnlen (in_array n s) n = Inr (length s)"
proof -
  have eq: "in_array n s = s @ replicate (n - length s) 0" using assms(2) by (simp add: in_array_def overwrite_def)
  have t: "takeWhile (\<lambda>c. c \<noteq> 0) s = s" using assms(1) by (auto simp: takeWhile_eq_all_conv)
  obtain m where m: "n - length s = Suc m" using assms(2) by (metis Suc_diff_Suc)
  show w: "takeWhile (\<lambda>c. c \<noteq> 0) (in_array n s) = s"
    using assms(1) by (simp add: eq m takeWhile_append t)
  show "0 \<in> set (in_array n s)" "length (in_array n s) = n" using assms(2) by (simp_all add: eq)
  then show "c_strnlen (in_array n s) n = Inr (length s)"
    using w assms(2) by (simp add: c_strnlen_def Let_def)
qed

lemma connect_stores:
  assumes "wifi_drv_ok drv conf" "0 \<notin> set s" "length s < 32" "0 \<notin> set p" "length p < 64"
  shows "\<exists>w' evs. em_wifi_sta_connect drv (in_array 32 s) (in_array 64 p) w = Inr (w', evs) \<and>
    conf (wf_drv w') = (in_array 32 s, in_array 64 p) \<and> evs = [Wifi_set_config (in_array 32 s) (in_array 64 p),
      if {PROVISIONED_BIT, CONNECTED_BIT} \<subseteq> wf_bits w then Wifi_disconnect else Wifi_connect] \<and>
    DISCONNECT_DEMAND_BIT \<notin> wf_bits w'"
proof -
  have arr: "overwrite (replicate n 0) 0 (take (length x) (in_array n x)) = in_array n x" if "length x < n" for n and x :: bytes
    using that by (simp add: in_array_def overwrite_def)
  have len: "length (in_array 32 s) = 32" "length (in_array 64 p) = 64" using in_array_string assms by auto
  have str: "c_strnlen (in_array 32 s) 32 = Inr (length s)" "c_strnlen (in_array 64 p) 64 = Inr (length p)"
    using in_array_string(4) assms by auto
  have drv: "\<And>s. fst (wd_disconnect drv s) = ESP_OK \<and> conf (snd (wd_disconnect drv s)) = conf s"
    "\<And>s. fst (wd_set_storage drv s) = ESP_OK"
    "\<And>s a b. fst (wd_set_config drv s a b) = ESP_OK \<and> conf (snd (wd_set_config drv s a b)) = (a, b)"
    "\<And>s. fst (wd_connect drv s) \<in> {ESP_OK, ESP_ERR_WIFI_CONN} \<and> conf (snd (wd_connect drv s)) = conf s"
    using assms(1) by (simp_all add: wifi_drv_ok_def)
  have "\<exists>w'. set_credentials drv (in_array 32 s) (in_array 64 p) u = Inr (w', [Wifi_set_config (in_array 32 s) (in_array 64 p)]) \<and>
      conf (wf_drv w') = (in_array 32 s, in_array 64 p) \<and> wf_bits w' = insert PROVISIONED_BIT (wf_bits u)" for u
    using assms(3,5) str len drv
    by (simp add: set_credentials_def c_memcpy_def arr drv_check_def set_bit_of_def split_beta)
  then obtain w1 where w1: "set_credentials drv (in_array 32 s) (in_array 64 p) (clear_bit_of DISCONNECT_DEMAND_BIT w) =
      Inr (w1, [Wifi_set_config (in_array 32 s) (in_array 64 p)])" "conf (wf_drv w1) = (in_array 32 s, in_array 64 p)"
      "wf_bits w1 = insert PROVISIONED_BIT (wf_bits (clear_bit_of DISCONNECT_DEMAND_BIT w))"
    by blast
  have c: "em_wifi_sta_is_provisioned (clear_bit_of DISCONNECT_DEMAND_BIT w) \<and> em_wifi_sta_is_connected w1 \<longleftrightarrow>
      {PROVISIONED_BIT, CONNECTED_BIT} \<subseteq> wf_bits w" "DISCONNECT_DEMAND_BIT \<notin> wf_bits w1"
    using w1(3) by (auto simp: em_wifi_sta_is_provisioned_def em_wifi_sta_is_connected_def clear_bit_of_def)
  show ?thesis
    using drv w1(1,2) c
    by (cases "{PROVISIONED_BIT, CONNECTED_BIT} \<subseteq> wf_bits w")
      (auto simp: em_wifi_sta_connect_def Let_def drv_check_def wifi_connect_def split_beta)
qed

text \<open>C20. A phone that writes a name of 1 to 31 and a password of 1 to 63 characters and then asks to connect gets no error;
  the device stores exactly this name and this password in its flash and asks the driver to connect, or, when it is provisioned and
  connected already, to disconnect without the mark that the disconnection is wanted, so that its event connects again; and it shows
  the name when it is read. Whatever was written before does not matter.\<close>

theorem ble_provisioning:
  assumes "ble_wf st" "wifi_drv_ok drv conf" "be_mbuf_to_flat env = 0" "be_mbuf_append env = 0"
    and "0 \<notin> set s" "1 \<le> length s" "length s < 32" "0 \<notin> set p" "1 \<le> length p" "length p < 64" "1 \<le> length x" "length x \<le> 128"
  shows "\<exists>st1 st2 st3 evs. default_chr_access_cb env drv CHR_SSID (BLE_GATT_ACCESS_OP_WRITE_CHR s) st = Inr (0, [], st1, []) \<and>
    default_chr_access_cb env drv CHR_PASS (BLE_GATT_ACCESS_OP_WRITE_CHR p) st1 = Inr (0, [], st2, []) \<and>
    default_chr_access_cb env drv CHR_CONNECTION (BLE_GATT_ACCESS_OP_WRITE_CHR x) st2 = Inr (0, [], st3, evs) \<and>
    conf (wf_drv (bl_wifi st3)) = (in_array 32 s, in_array 64 p) \<and>
    evs = [Ble_wifi (Wifi_set_config (in_array 32 s) (in_array 64 p)),
      Ble_wifi (if {PROVISIONED_BIT, CONNECTED_BIT} \<subseteq> wf_bits (bl_wifi st) then Wifi_disconnect else Wifi_connect)] \<and>
    DISCONNECT_DEMAND_BIT \<notin> wf_bits (bl_wifi st3) \<and>
    (\<exists>st4. default_chr_access_cb env drv CHR_SSID BLE_GATT_ACCESS_OP_READ_CHR st3 = Inr (0, s, st4, []))"
proof -
  obtain st1 where 1: "default_chr_access_cb env drv CHR_SSID (BLE_GATT_ACCESS_OP_WRITE_CHR s) st = Inr (0, [], st1, [])" "ble_wf st1"
    "bl_credentials st1 = (bl_credentials st)\<lparr>cr_ssid := in_array 32 s, cr_ssid_set := True\<rparr>" "bl_wifi st1 = bl_wifi st"
    using write_ssid [OF assms(1), of s env drv] assms by auto
  obtain st2 where 2: "default_chr_access_cb env drv CHR_PASS (BLE_GATT_ACCESS_OP_WRITE_CHR p) st1 = Inr (0, [], st2, [])" "ble_wf st2"
    "bl_credentials st2 = (bl_credentials st1)\<lparr>cr_password := in_array 64 p, cr_password_set := True\<rparr>" "bl_wifi st2 = bl_wifi st"
    using write_pass [OF 1(2), of p env drv] assms 1(4) by auto
  have cr: "cr_ssid_set (bl_credentials st2)" "cr_password_set (bl_credentials st2)"
    "cr_ssid (bl_credentials st2) = in_array 32 s" "cr_password (bl_credentials st2) = in_array 64 p"
    using 1(3) 2(3) by simp_all
  let ?buf = "overwrite (bl_chr_op_buffer st2) 0 x"
  define st2' where "st2' = st2\<lparr>bl_chr_op_buffer := ?buf\<rparr>"
  have buf: "length ?buf = 128" using 2(2) assms(12) by (simp add: ble_wf_def)
  have wf': "ble_wf st2'" using 2(2) buf by (simp add: ble_wf_def st2'_def)
  obtain w evs where w: "em_wifi_sta_connect drv (in_array 32 s) (in_array 64 p) (bl_wifi st2) = Inr (w, evs)"
    "conf (wf_drv w) = (in_array 32 s, in_array 64 p)" "DISCONNECT_DEMAND_BIT \<notin> wf_bits w"
    "evs = [Wifi_set_config (in_array 32 s) (in_array 64 p),
       if {PROVISIONED_BIT, CONNECTED_BIT} \<subseteq> wf_bits (bl_wifi st) then Wifi_disconnect else Wifi_connect]"
    using connect_stores [OF assms(2,5,7,8,10), of "bl_wifi st2"] unfolding 2(4) by blast
  define st3 where "st3 = st2'\<lparr>bl_conn_result := CONNECTION_IN_PROGRESS, bl_wifi := w,
      bl_conn_status := in_array 36 (ascii ''Connecting...'')\<rparr>"
  have "write_chr_handler drv CHR_CONNECTION ?buf (length x) st2' = Inr (0, st3, map Ble_wifi evs)"
    using cr w(1) buf assms(12) by (simp add: write_chr_handler_def st3_def st2'_def Let_def)
  then have 3: "default_chr_access_cb env drv CHR_CONNECTION (BLE_GATT_ACCESS_OP_WRITE_CHR x) st2 = Inr (0, [], st3, map Ble_wifi evs)"
    unfolding st2'_def by (intro write_access [where err = 0, OF 2(2) assms(11,12,3)]) simp_all
  have "read_chr_handler CHR_SSID (bl_chr_op_buffer st3) st3 = Inr (int (length s), overwrite ?buf 0 s)"
    using cr(3) assms(5,6,7) buf in_array_string(4) [OF assms(5,7)]
    by (auto simp: read_chr_handler_def st3_def st2'_def c_memcpy_def in_array_def overwrite_def)
  moreover have "bl_read_cb st3" using wf' by (simp add: st3_def ble_wf_def)
  ultimately have "\<exists>st4. default_chr_access_cb env drv CHR_SSID BLE_GATT_ACCESS_OP_READ_CHR st3 = Inr (0, s, st4, [])"
    using assms(4,6,7) by (auto simp: default_chr_access_cb_def take_overwrite_0 Let_def)
  moreover have "conf (wf_drv (bl_wifi st3)) = (in_array 32 s, in_array 64 p)" by (simp add: st3_def w(2))
  moreover have "DISCONNECT_DEMAND_BIT \<notin> wf_bits (bl_wifi st3)" by (simp add: st3_def w(3))
  moreover have "map Ble_wifi evs = [Ble_wifi (Wifi_set_config (in_array 32 s) (in_array 64 p)),
      Ble_wifi (if {PROVISIONED_BIT, CONNECTED_BIT} \<subseteq> wf_bits (bl_wifi st) then Wifi_disconnect else Wifi_connect)]"
    by (simp add: w(4))
  ultimately show ?thesis using 1(1) 2(1) 3 by metis
qed

theorem ble_provisioning_witness:
  "\<exists>st1 st2 st3 evs. default_chr_access_cb ble_env0 drv0 CHR_SSID (BLE_GATT_ACCESS_OP_WRITE_CHR [65, 66]) ble_ready = Inr (0, [], st1, []) \<and>
    default_chr_access_cb ble_env0 drv0 CHR_PASS (BLE_GATT_ACCESS_OP_WRITE_CHR [67]) st1 = Inr (0, [], st2, []) \<and>
    default_chr_access_cb ble_env0 drv0 CHR_CONNECTION (BLE_GATT_ACCESS_OP_WRITE_CHR [1]) st2 = Inr (0, [], st3, evs) \<and>
    wf_drv (bl_wifi st3) = (in_array 32 [65, 66], in_array 64 [67]) \<and> Ble_wifi Wifi_connect \<in> set evs"
proof -
  have "be_mbuf_to_flat ble_env0 = 0" "be_mbuf_append ble_env0 = 0" by (simp_all add: ble_env0_def)
  from ble_provisioning [OF ble_ready_wf drv0_ok this, of "[65, 66]" "[67]" "[1]"] show ?thesis
    by (auto simp: ble_ready_def ble_start_def wifi_blank_def)
qed

subsection \<open>What the shared buffer and the neighbouring arrays give away\<close>

text \<open>C40. Two writes that the device accepts without an error: the read of the selected access point then answers with the first
  two bytes of the password, since the error code of the refused read is taken for a length and the buffer still holds what was written
  last; and a name of 33 to 96 characters overwrites the start of the password.\<close>

theorem ble_password_leak:
  assumes "ble_wf st" "be_mbuf_to_flat env = 0" "be_mbuf_append env = 0" "8 \<le> i" "2 \<le> length p" "length p \<le> 64"
    and "32 < length s" "length s \<le> 96"
  shows "\<exists>st1 st2 st3. default_chr_access_cb env drv CHR_AP_ID (BLE_GATT_ACCESS_OP_WRITE_CHR [i]) st = Inr (0, [], st1, []) \<and>
    default_chr_access_cb env drv CHR_PASS (BLE_GATT_ACCESS_OP_WRITE_CHR p) st1 = Inr (0, [], st2, []) \<and>
    default_chr_access_cb env drv CHR_AP_ID BLE_GATT_ACCESS_OP_READ_CHR st2 = Inr (0, take 2 p, st2, []) \<and>
    default_chr_access_cb env drv CHR_SSID (BLE_GATT_ACCESS_OP_WRITE_CHR s) st2 = Inr (0, [], st3, []) \<and>
    cr_ssid (bl_credentials st3) = take 32 s \<and>
    cr_password (bl_credentials st3) = drop 32 s @ drop (length s - 32) (in_array 64 p)"
proof -
  let ?buf = "overwrite (bl_chr_op_buffer st) 0 [i]"
  define st1 where "st1 = st\<lparr>bl_chr_op_buffer := ?buf, bl_selected_ap_id := i\<rparr>"
  have buf: "length ?buf = 128" "hd ?buf = i"
    using assms(1) by (cases "bl_chr_op_buffer st"; simp add: ble_wf_def overwrite_def)+
  then have "write_chr_handler drv CHR_AP_ID ?buf (length [i]) (st\<lparr>bl_chr_op_buffer := ?buf\<rparr>) = Inr (0, st1, [])"
    by (simp add: write_chr_handler_def st1_def)
  then have 1: "default_chr_access_cb env drv CHR_AP_ID (BLE_GATT_ACCESS_OP_WRITE_CHR [i]) st = Inr (0, [], st1, [])"
    by (intro write_access [where err = 0, OF assms(1) _ _ assms(2)]) simp_all
  have wf1: "ble_wf st1" using assms(1) buf(1) by (simp add: ble_wf_def st1_def)
  obtain st2 where 2: "default_chr_access_cb env drv CHR_PASS (BLE_GATT_ACCESS_OP_WRITE_CHR p) st1 = Inr (0, [], st2, [])" "ble_wf st2"
    "bl_selected_ap_id st2 = i" "bl_chr_op_buffer st2 = overwrite (bl_chr_op_buffer st1) 0 p"
    "cr_password (bl_credentials st2) = in_array 64 p"
    using write_pass [OF wf1, of p env drv] assms by (auto simp: st1_def)
  have "take 2 (bl_chr_op_buffer st2) = take 2 p"
    using assms(5) by (simp add: 2(4) overwrite_def)
  moreover have "8 \<le> unat i" using assms(4) by (simp add: word_le_nat_alt)
  ultimately have 3: "default_chr_access_cb env drv CHR_AP_ID BLE_GATT_ACCESS_OP_READ_CHR st2 = Inr (0, take 2 p, st2, [])"
    using 2(2,3) assms(3) by (simp add: default_chr_access_cb_def read_chr_handler_def ble_wf_def)
  let ?buf2 = "overwrite (bl_chr_op_buffer st2) 0 s"
  have buf2: "length ?buf2 = 128" "take (length s) ?buf2 = s"
    using 2(2) assms(8) by (simp_all add: ble_wf_def take_overwrite_0)
  define cr where "cr = (bl_credentials st2)\<lparr>cr_ssid := take 32 s, cr_password := drop 32 s @ drop (length s - 32) (in_array 64 p)\<rparr>"
  have "overwrite (replicate 32 0 @ in_array 64 p) 0 s = s @ drop (length s - 32) (in_array 64 p)"
    using assms(7) by (simp add: overwrite_def)
  then have "cred_copy 0 s ((bl_credentials st2)\<lparr>cr_ssid := replicate 32 0\<rparr>) = Inr cr"
    using assms(6,7,8) 2(5) by (simp add: cred_copy_def cr_def in_array_def)
  then have "write_chr_handler drv CHR_SSID ?buf2 (length s) (st2\<lparr>bl_chr_op_buffer := ?buf2\<rparr>) =
      Inr (0, st2\<lparr>bl_chr_op_buffer := ?buf2, bl_credentials := cr\<lparr>cr_ssid_set := True\<rparr>\<rparr>, [])"
    using buf2 assms(8) by (simp add: write_chr_handler_def)
  then have "default_chr_access_cb env drv CHR_SSID (BLE_GATT_ACCESS_OP_WRITE_CHR s) st2 =
      Inr (0, [], st2\<lparr>bl_chr_op_buffer := ?buf2, bl_credentials := cr\<lparr>cr_ssid_set := True\<rparr>\<rparr>, [])"
    using assms(7,8) by (intro write_access [where err = 0, OF 2(2) _ _ assms(2)]) simp_all
  moreover have "cr_ssid cr = take 32 s" "cr_password cr = drop 32 s @ drop (length s - 32) (in_array 64 p)"
    by (simp_all add: cr_def)
  ultimately show ?thesis using 1 2(1) 3 by auto
qed

theorem ble_password_leak_witness:
  "\<exists>st1 st2. default_chr_access_cb ble_env0 drv0 CHR_AP_ID (BLE_GATT_ACCESS_OP_WRITE_CHR [255]) ble_ready = Inr (0, [], st1, []) \<and>
    default_chr_access_cb ble_env0 drv0 CHR_PASS (BLE_GATT_ACCESS_OP_WRITE_CHR [115, 101, 99]) st1 = Inr (0, [], st2, []) \<and>
    default_chr_access_cb ble_env0 drv0 CHR_AP_ID BLE_GATT_ACCESS_OP_READ_CHR st2 = Inr (0, [115, 101], st2, [])"
proof -
  have "be_mbuf_to_flat ble_env0 = 0" "be_mbuf_append ble_env0 = 0" by (simp_all add: ble_env0_def)
  from ble_password_leak [OF ble_ready_wf this, of 255 "[115, 101, 99]" "replicate 40 65" drv0] show ?thesis by auto
qed

subsection \<open>The name that is advertised\<close>

lemma digit_char_val: "d < 16 \<Longrightarrow> digit_val (digit_char d) = d"
  and digit_char_nonzero: "d < 16 \<Longrightarrow> digit_char d \<noteq> 0"
proof -
  have r: "[0..<16] = [0, 1, 2, 3, 4, 5, 6, 7, 8, 9, 10, 11, 12, 13, 14, 15]" by code_simp
  have "list_all (\<lambda>d. digit_val (digit_char d) = d \<and> digit_char d \<noteq> 0) [0..<16]"
    unfolding r by (simp add: digit_char_def digit_val_def c_digit_def c_lower_def)
  then have all: "\<forall>d < 16. digit_val (digit_char d) = d \<and> digit_char d \<noteq> 0" by (simp add: list_all_iff)
  show "d < 16 \<Longrightarrow> digit_val (digit_char d) = d" "d < 16 \<Longrightarrow> digit_char d \<noteq> 0" using all by auto
qed

lemma num_text_facts:
  assumes "2 \<le> base" "base \<le> 16"
  shows "text_value base (num_text base n) = n" "0 \<notin> set (num_text base n)"
    "n < base ^ k \<Longrightarrow> 0 < k \<Longrightarrow> length (num_text base n) \<le> k"
proof -
  have "text_value base (num_text base n) = n \<and> 0 \<notin> set (num_text base n)"
    using assms
  proof (induction base n rule: num_text.induct)
    case (1 base n)
    show ?case
    proof (cases "n < base")
      case True
      then show ?thesis using 1(2,3) digit_char_val [of n] digit_char_nonzero [of n]
        by (simp add: num_text.simps [of base n] text_value_def)
    next
      case False
      have "n mod base < 16" using 1(2,3) mod_less_divisor [of base n] by linarith
      then show ?thesis using False 1 digit_char_val [of "n mod base"] digit_char_nonzero [of "n mod base"]
        by (simp add: num_text.simps [of base n] text_value_def)
    qed
  qed
  then show "text_value base (num_text base n) = n" "0 \<notin> set (num_text base n)" by simp_all
  show "n < base ^ k \<Longrightarrow> 0 < k \<Longrightarrow> length (num_text base n) \<le> k"
  proof (induction k arbitrary: n)
    case (Suc k)
    show ?case
    proof (cases "n < base")
      case True
      then show ?thesis using Suc by (simp add: num_text.simps [of base n])
    next
      case False
      then have "0 < k" using Suc.prems by (cases k) auto
      moreover have "n div base < base ^ k" using Suc.prems assms by (simp add: less_mult_imp_div_less mult.commute)
      ultimately show ?thesis using Suc.IH [of "n div base"] False by (simp add: num_text.simps [of base n])
    qed
  qed simp
qed

lemma hex_text2_facts:
  assumes "n < 16 ^ 15"
  shows "text_value 16 (hex_text2 n) = n" "0 \<notin> set (hex_text2 n)" "length (hex_text2 n) \<le> 15"
proof -
  note f = num_text_facts [of 16 n]
  have z: "text_value 16 (replicate m 48 @ s) = text_value 16 s" for m s
    by (induction m) (simp_all add: text_value_def digit_val_def c_digit_def)
  show "text_value 16 (hex_text2 n) = n" using f(1) by (simp add: hex_text2_def Let_def z)
  show "0 \<notin> set (hex_text2 n)" using f(2) by (auto simp: hex_text2_def Let_def)
  show "length (hex_text2 n) \<le> 15" using f(3) [of 15] assms by (simp add: hex_text2_def Let_def)
qed

lemma byte_sum_bound: "length bs * 255 < 2 ^ 16 \<Longrightarrow> unat (fold (\<lambda>b s. s + ucast b) (bs :: bytes) (0 :: u16)) \<le> length bs * 255"
proof (induction bs rule: rev_induct)
  case (snoc b bs)
  have b: "unat (ucast (b :: u8) :: u16) \<le> 255" using unsigned_less [of b, where 'a = nat] by (simp add: unat_ucast_up)
  have IH: "unat (fold (\<lambda>b s. s + ucast b) bs (0 :: u16)) \<le> length bs * 255" using snoc by simp
  have "unat (fold (\<lambda>b s. s + ucast b) bs (0 :: u16) + ucast b) \<le>
      unat (fold (\<lambda>b s. s + ucast b) bs (0 :: u16)) + unat (ucast b :: u16)"
    by (simp add: unat_word_ariths)
  then show ?case using b IH by simp
qed simp

lemma not_bit_above: "unat (w :: 'a::len word) < 2 ^ n \<Longrightarrow> n \<le> i \<Longrightarrow> \<not> bit w i"
proof -
  assume a: "unat w < 2 ^ n" "n \<le> i"
  have "take_bit n w = w" using a(1) by (simp add: word_unat_eq_iff unsigned_take_bit_eq take_bit_nat_eq_self)
  then show "\<not> bit w i" using a(2) by (metis bit_take_bit_iff leD)
qed

lemma dev_id_bound:
  assumes "length mac = 6" "length efuse = 16" "em_utils_dev_id (Some mac) (Some efuse) = Inr ident"
  shows "unat ident < 16 ^ 15"
proof -
  define s where "s = fold (\<lambda>b s. s + ucast b) efuse (0 :: u16)"
  have "unat s < 2 ^ 12" using byte_sum_bound [of efuse] assms(2) by (simp add: s_def)
  then have hi: "12 \<le> i \<Longrightarrow> \<not> bit s i" for i by (rule not_bit_above)
  have by8: "8 \<le> m \<Longrightarrow> \<not> bit (b :: u8) m" for b m using bit_imp_le_length [of b m] by auto
  have "\<not> bit ident n" if "60 \<le> n" for n
    using assms(3) hi [of "n - 48"] that
    by (auto simp: em_utils_dev_id_def s_def [symmetric] Let_def bit_simps by8)
  then have "take_bit 60 ident = ident" by (intro bit_word_eqI) (metis bit_take_bit_iff not_less)
  then have "unat ident = take_bit 60 (unat ident)" by (metis unsigned_take_bit_eq)
  then show ?thesis using take_bit_nat_less_exp [of 60 "unat ident"] by simp
qed

text \<open>The advertised name is the first 14 characters of the device name, an underscore and the whole device identifier in
  hexadecimal: for every address and every chip the number behind the underscore is the identifier that
  \<open>em_utils_dev_id\<close> gives, so different devices have different names.\<close>

lemma ble_name_identifies:
  assumes "length mac = 6" "length efuse = 16" "em_utils_dev_id (Some mac) (Some efuse) = Inr ident"
    and "0 \<notin> set name" "registered = [0, 0, 0, 0, 0]"
  shows "\<exists>st' hex. em_ble_prov_init (name @ 0 # rest) ident registered st = Inr st' \<and>
    c_string (bl_name st') = Inr (take 14 name @ [95] @ hex) \<and> text_value 16 hex = unat ident \<and> bl_dev_id st' = ident"
proof -
  let ?hex = "hex_text2 (unat ident)" and ?n = "take 14 name"
  note h = hex_text2_facts [OF dev_id_bound [OF assms(1-3)]]
  have "c_strnlen (name @ 0 # rest) 14 = Inr (length ?n)"
  proof (cases "14 \<le> length name")
    case True
    then have "0 \<notin> set (take 14 (name @ 0 # rest))" using assms(4) by (auto dest: in_set_takeD)
    then show ?thesis using c_strnlen_bad [of 14 "name @ 0 # rest"] True by simp
  next
    case False
    have "takeWhile (\<lambda>c. c \<noteq> 0) name = name" using assms(4) by (auto simp: takeWhile_eq_all_conv)
    then have "takeWhile (\<lambda>c. c \<noteq> 0) (name @ 0 # rest) = name" using assms(4) by (simp add: takeWhile_append)
    then show ?thesis using c_strnlen_ok [of 14 "name @ 0 # rest"] False by (auto simp: take_Cons')
  qed
  moreover have "take (length ?n) (name @ 0 # rest) = ?n" by (cases "14 \<le> length name") simp_all
  moreover have "overwrite ((overwrite (replicate 32 0) 0 ?n)[length ?n := 95]) (length ?n + 1) (c_snprintf 16 ?hex) =
      ?n @ 95 # ?hex @ 0 # replicate (30 - length ?n - length ?hex) 0"
  proof -
    have "32 - length ?n = Suc (31 - length ?n)" by simp
    then have "overwrite (replicate 32 0) 0 ?n = ?n @ 0 # replicate (31 - length ?n) 0"
      by (simp only: overwrite_def) simp
    then have "(overwrite (replicate 32 0) 0 ?n)[length ?n := 95] = (?n @ [95]) @ replicate (31 - length ?n) 0"
      by (simp only: list_update_length) simp
    moreover have "c_snprintf 16 ?hex = ?hex @ [0]" using h(3) by (simp add: c_snprintf_def)
    moreover have "overwrite (xs @ replicate m 0) (length xs) ys = xs @ ys @ replicate (m - length ys) 0" for xs ys and m
      by (simp add: overwrite_def)
    from this [of "?n @ [95]" "31 - length ?n" "?hex @ [0]"]
    have "overwrite ((?n @ [95]) @ replicate (31 - length ?n) 0) (length ?n + 1) (?hex @ [0]) =
        (?n @ [95]) @ (?hex @ [0]) @ replicate (30 - length ?n - length ?hex) 0" by simp
    ultimately show ?thesis by simp
  qed
  ultimately have eq: "em_ble_prov_init (name @ 0 # rest) ident registered st =
      Inr (st\<lparr>bl_dev_id := ident, bl_name := ?n @ 95 # ?hex @ 0 # replicate (30 - length ?n - length ?hex) 0\<rparr>)"
    using assms(5) by (simp add: em_ble_prov_init_def Let_def)
  have "0 \<notin> set (?n @ 95 # ?hex)" using h(2) assms(4) by (auto dest: in_set_takeD)
  then have "takeWhile (\<lambda>b. b \<noteq> 0) (?n @ 95 # ?hex) = ?n @ 95 # ?hex" by (auto simp: takeWhile_eq_all_conv)
  then have "takeWhile (\<lambda>b. b \<noteq> 0) ((?n @ 95 # ?hex) @ 0 # zs) = ?n @ 95 # ?hex" for zs
    using \<open>0 \<notin> set (?n @ 95 # ?hex)\<close> by (subst takeWhile_append2) auto
  then have "c_string (?n @ 95 # ?hex @ 0 # zs) = Inr (?n @ [95] @ ?hex)" for zs by (simp add: c_string_def)
  then show ?thesis using eq h(1) by auto
qed

end
