(* ===== verification/EM_Dispatcher.thy ===== *)
theory EM_Dispatcher
  imports EM_Receiver EM_Update EM_Storage EM_Led_Evt EM_Coredump EM_Ble_Prov
begin

section \<open>The message dispatcher (main/modules/dispatcher/dispatcher.c)\<close>

text \<open>
  Every message that is received goes through the table \<open>mapper\<close> to a handler, which acts on the modules of the
  application: their states are the members of \<open>app\<close>, and what a handler does beyond them (messages it sends,
  calls it schedules, events it posts) is the list of \<open>app_event\<close>s of its result. The parameters of the modules, and what
  the WiFi driver and the chip answer, are the members of \<open>app_env\<close>. A handler casts the message buffer to the
  structure of its message; a buffer that holds another structure is the fault \<open>Undefined\<close>.
\<close>

abbreviation PROTOCOL_BLE :: u8 where "PROTOCOL_BLE \<equiv> 1"
abbreviation PROTOCOL_WIFI :: u8 where "PROTOCOL_WIFI \<equiv> 2"
abbreviation REBOOT_ON_MSG_DELAY_MS :: nat where "REBOOT_ON_MSG_DELAY_MS \<equiv> 1000"
abbreviation COORDINATES_FIXED_FACTOR :: int where "COORDINATES_FIXED_FACTOR \<equiv> - 5"

record ('n, 'w) app =
  ap_update :: update_state_t
  ap_storage :: "'n storage"
  ap_led :: led_sys
  ap_ble :: "'w ble"
  ap_coredump :: coredump_s

record ('n, 'w) app_env =
  ae_net :: net_env
  ae_nvs :: "'n nvs_api"
  ae_drv :: "'w wifi_drv"
  ae_ble :: ble_env
  ae_coredump :: cd_env
  ae_version :: bytes
  ae_compile_time :: i64
  ae_random :: u32
  ae_ota_start :: int
  ae_post :: int
  ae_rssi :: "int \<times> i32"
  ae_ip :: "int \<times> u32"
  ae_tx_power :: "int \<times> i8"
  ae_channel :: "int \<times> u8"
  ae_set_tx_power :: "i8 \<Rightarrow> int"
  ae_set_channel :: "u8 \<Rightarrow> int"

datatype delayed_cb = Authentication_delayed_handler | Delayed_esp_reboot | Delayed_esp_factory_reset

datatype app_event =
    App_tx "tx_event list"
  | App_update update_event
  | App_storage storage_event
  | App_ble ble_call
  | App_coredump coredump_event
  | App_schedule delayed_cb nat
  | App_auth u32
  | App_long_reconnecting_delay
  | App_register_tx bool
  | App_confirm
  | App_restart

type_synonym ('n, 'w) handled = "(int \<times> ('n, 'w) app \<times> app_event list) outcome"

definition wifi_of :: "('n, 'w) app \<Rightarrow> 'w wifi" where
  "wifi_of app = bl_wifi (ap_ble app)"

definition set_wifi :: "'w wifi \<Rightarrow> ('n, 'w) app \<Rightarrow> ('n, 'w) app" where
  "set_wifi w app = app\<lparr>ap_ble := (ap_ble app)\<lparr>bl_wifi := w\<rparr>\<rparr>"

definition app_send :: "send_result \<Rightarrow> ('n, 'w) app \<Rightarrow> ('n, 'w) handled" where
  "app_send r app = obind r (\<lambda>(ret, evs). Inr (ESP_OK, app, [App_tx evs]))"

subsection \<open>Delayed calls\<close>

definition authentication_delayed_handler :: "('n, 'w) app_env \<Rightarrow> ('n, 'w) app \<Rightarrow> (('n, 'w) app \<times> app_event list) outcome" where
  "authentication_delayed_handler env app =
     obind (coredump_start (ae_coredump env) (firmware_coredump_api (ae_net env)) (ap_coredump app)) (\<lambda>(ret, cd, evs).
       Inr (app\<lparr>ap_coredump := cd\<rparr>, map App_coredump evs @ [App_confirm]))"

definition delayed_esp_reboot :: "app_event list" where
  "delayed_esp_reboot = [App_restart]"

definition delayed_esp_factory_reset :: "('n, 'w) app_env \<Rightarrow> ('n, 'w) app \<Rightarrow> (('n, 'w) app \<times> app_event list) outcome" where
  "delayed_esp_factory_reset env app =
     obind (storage_set_factory_config (ae_nvs env) (ap_storage app)) (\<lambda>st.
     obind (em_wifi_factory_reset (ae_drv env) (wifi_of app)) (\<lambda>(w, evs).
       Inr (set_wifi w (app\<lparr>ap_storage := st\<rparr>), map (App_ble \<circ> Ble_wifi) evs @ [App_restart])))"

subsection \<open>Handlers\<close>

definition set_unique_id :: "('n, 'w) app_env \<Rightarrow> u32 \<Rightarrow> ('n, 'w) app \<Rightarrow> (('n, 'w) app \<times> app_event list) outcome" where
  "set_unique_id env u app =
     obind (storage_set_device_unique_id (ae_nvs env) (ap_storage app) u) (\<lambda>(st, evs).
       Inr (app\<lparr>ap_storage := st\<rparr>, map App_storage evs))"

definition connection_status_handler ::
  "('n, 'w) app_env \<Rightarrow> connection_status_msg_t \<Rightarrow> ('n, 'w) app \<Rightarrow> ('n, 'w) handled" where
  "connection_status_handler env msg app =
     c_assert (ae_post env = ESP_OK)
       (let delay_ms = (ae_random env AND 0x7FFF) + 10000 in
        obind (set_unique_id env (connection_status_unique_id msg) app) (\<lambda>(app, evs).
          Inr (ESP_OK, app, [App_auth (connection_status_unique_id msg),
            App_schedule Authentication_delayed_handler (unat delay_ms)] @ evs)))"

definition reboot_handler :: "('n, 'w) app \<Rightarrow> ('n, 'w) handled" where
  "reboot_handler app = Inr (ESP_OK, app, [App_schedule Delayed_esp_reboot REBOOT_ON_MSG_DELAY_MS])"

definition factory_reset_handler :: "('n, 'w) app \<Rightarrow> ('n, 'w) handled" where
  "factory_reset_handler app = Inr (ESP_OK, app, [App_schedule Delayed_esp_factory_reset REBOOT_ON_MSG_DELAY_MS])"

definition identify_handler :: "identify_msg_t \<Rightarrow> ('n, 'w) app \<Rightarrow> ('n, 'w) handled" where
  "identify_handler msg app =
     obind (led_evt_identify_msg_handler msg (ap_led app)) (\<lambda>(led, ret). Inr (ret, app\<lparr>ap_led := led\<rparr>, []))"

definition update_start_handler :: "('n, 'w) app_env \<Rightarrow> update_start_msg_t \<Rightarrow> ('n, 'w) app \<Rightarrow> ('n, 'w) handled" where
  "update_start_handler env msg app =
     obind (em_ble_prov_stop (ae_ble env) (ap_ble app)) (\<lambda>(ble, ble_evs).
     obind (update_start (ae_ota_start env) (ae_version env) (update_start_dev_type msg) (update_start_fw_ver msg)
         (update_start_hw_ver msg) (update_start_img_url msg) (update_start_img_url_len msg)
         (update_start_update_policy msg) (ap_update app)) (\<lambda>(ret, us, evs).
       Inr (uint ret, app\<lparr>ap_ble := ble, ap_update := us\<rparr>, map App_ble ble_evs @ map App_update evs)))"

definition update_apply_handler :: "update_install_msg_t \<Rightarrow> ('n, 'w) app \<Rightarrow> ('n, 'w) handled" where
  "update_apply_handler msg app =
     (let (us, evs) = update_apply (update_install_delay msg) (ap_update app) in
      Inr (ESP_OK, app\<lparr>ap_update := us\<rparr>, map App_update evs))"

definition environment_cloud_cover_handler :: "('n, 'w) app \<Rightarrow> ('n, 'w) handled" where
  "environment_cloud_cover_handler app = Inr (ESP_OK, app, [])"

text \<open>The quotient of two 64-bit integers, cut towards zero; the product before it must not overflow.\<close>

definition scaled :: "i64 \<Rightarrow> int \<Rightarrow> int \<Rightarrow> int outcome" where
  "scaled v multiplier divisor =
     (let p = sint v * multiplier in
      if p < - (2 ^ 63) \<or> 2 ^ 63 \<le> p \<or> divisor = 0 then Inl Undefined
      else Inr (if p < 0 then - (- p div divisor) else p div divisor))"

definition environment_set_position_handler ::
  "('n, 'w) app_env \<Rightarrow> environment_position_msg_t \<Rightarrow> ('n, 'w) app \<Rightarrow> ('n, 'w) handled" where
  "environment_set_position_handler env msg app =
     obind (em_utils_decode_scaler COORDINATES_FIXED_FACTOR) (\<lambda>(multiplier, divisor).
     obind (scaled (environment_position_latitude msg) multiplier divisor) (\<lambda>lati.
     obind (scaled (environment_position_longitude msg) multiplier divisor) (\<lambda>longi.
       if lati < - 90 \<or> 90 < lati \<or> longi < - 180 \<or> 180 < longi then Inr (ESP_ERR_INVALID_ARG, app, [])
       else
         obind (storage_set_coordinates (ae_nvs env) (ap_storage app) (environment_position_latitude msg)
             (environment_position_longitude msg)) (\<lambda>(st, evs).
           Inr (ESP_OK, app\<lparr>ap_storage := st\<rparr>, map App_storage evs)))))"

definition coredump_confirmed_handler :: "('n, 'w) app_env \<Rightarrow> ('n, 'w) app \<Rightarrow> ('n, 'w) handled" where
  "coredump_confirmed_handler env app =
     (let (ret, evs) = coredump_erase (ae_coredump env) in Inr (ESP_OK, app, map App_coredump evs))"

definition status_handler :: "('n, 'w) app_env \<Rightarrow> status_msg_t \<Rightarrow> ('n, 'w) app \<Rightarrow> ('n, 'w) handled" where
  "status_handler env msg app =
     (if status_rq_type msg = MSGTYPE_CLIENT_INFO then
        if status_error msg = 3 then
          obind (set_unique_id env 0 app) (\<lambda>(app, evs). Inr (ESP_OK, app, App_long_reconnecting_delay # evs))
        else Inr (ESP_OK, app, [App_long_reconnecting_delay])
      else Inr (ESP_OK, app, []))"

definition update_sends :: "update_event list outcome \<Rightarrow> ('n, 'w) app \<Rightarrow> ('n, 'w) handled" where
  "update_sends r app = obind r (\<lambda>evs. Inr (ESP_OK, app, map App_update evs))"

definition get_wireless :: "('n, 'w) app_env \<Rightarrow> u16 \<Rightarrow> ('n, 'w) app \<Rightarrow> ('n, 'w) handled option" where
  "get_wireless env rq app =
     (let net = ae_net env in
      if rq = MSGTYPE_WIRELESS_STATUS then
        Some (let (err, rssi) = ae_rssi env in
          if err \<noteq> ESP_OK then Inr (- 2, app, [])
          else app_send (protocol_send_wireless_status net PROTOCOL_WIFI 1 (em_wifi_local_ip_addr (ae_ip env)) (ucast rssi) 0xFF) app)
      else if rq = MSGTYPE_WIRELESS_CREDENTIALS then
        Some (obind (em_wifi_sta_ssid (ae_drv env) (wifi_of app) (replicate 33 0)) (\<lambda>(err, ssid).
          if err \<noteq> ESP_OK then Inr (ESP_FAIL, app, [])
          else app_send (protocol_send_wireless_credentials net PROTOCOL_WIFI ssid [0]) app))
      else if rq = MSGTYPE_WIRELESS_TX_POWER then
        Some (let (err, tx_power) = ae_tx_power env in
          if err \<noteq> ESP_OK then Inr (ESP_FAIL, app, [])
          else app_send (protocol_send_wireless_tx_power net PROTOCOL_WIFI (4 * scast tx_power)) app)
      else if rq = MSGTYPE_WIRELESS_CHANNEL then
        Some (let (err, chan) = ae_channel env in
          if err \<noteq> ESP_OK then Inr (ESP_FAIL, app, [])
          else app_send (protocol_send_wireless_channel net PROTOCOL_WIFI chan) app)
      else None)"

definition get_handler :: "('n, 'w) app_env \<Rightarrow> get_msg_t \<Rightarrow> ('n, 'w) app \<Rightarrow> ('n, 'w) handled" where
  "get_handler env msg app =
     (let net = ae_net env; rq = get_rq_type msg in
      if rq = MSGTYPE_UPDATE_INSTALLEDFW then
        update_sends (update_send_installed_fw net (ae_version env) (ae_compile_time env) (ap_update app)) app
      else if rq = MSGTYPE_UPDATE_STATUS then update_sends (send_update_status net (ae_version env) (ap_update app)) app
      else
        case get_wireless env rq app of
          Some r \<Rightarrow> r
        | None \<Rightarrow>
            if rq = MSGTYPE_ENVIRONMENT_POSITION then
              let coord = storage_device (ap_storage app) in
              app_send (protocol_send_environment_position net (ucast (dev_latitude coord)) (ucast (dev_longitude coord))) app
            else if rq = MSGTYPE_METER_MEASUREMENT_HISTORY then
              if get_param msg = ucast MEASTYPE_VOLTAGE_RMS \<or> get_param msg = ucast MEASTYPE_POWER_ACTIVE
              then Inr (ESP_OK, app, []) else Inr (- 2, app, [])
            else if rq = MSGTYPE_METER_MEASUREMENT \<or> rq = MSGTYPE_METER_CURRENT_LIMIT \<or>
              rq = MSGTYPE_ENERGY_ACCUMULATED \<or> rq = MSGTYPE_ENERGY_HISTORY then Inr (ESP_OK, app, [])
            else if rq = MSGTYPE_DIAG_LOGS_SETTINGS then
              app_send (protocol_send_diag_logs_settings net 1 (replicate 6 0)) app
            else Inr (ESP_ERR_NOT_FOUND, app, []))"

definition wireless_enable_handle ::
  "('n, 'w) app_env \<Rightarrow> wireless_enable_msg_t \<Rightarrow> ('n, 'w) app \<Rightarrow> ('n, 'w) handled" where
  "wireless_enable_handle env msg app =
     (if wireless_enable_protocol msg \<noteq> PROTOCOL_BLE then Inr (ESP_ERR_INVALID_ARG, app, [])
      else if wireless_enable_enabled msg \<noteq> 0 then
        obind (em_ble_prov_start (ae_ble env) 60000 (ap_ble app)) (\<lambda>(ret, ble, evs).
          Inr (ret, app\<lparr>ap_ble := ble\<rparr>, map App_ble evs))
      else
        obind (em_ble_prov_stop (ae_ble env) (ap_ble app)) (\<lambda>(ble, evs).
          Inr (ESP_OK, app\<lparr>ap_ble := ble\<rparr>, map App_ble evs)))"

definition wireless_set_credentials_handle ::
  "('n, 'w) app_env \<Rightarrow> wireless_credentials_msg_t \<Rightarrow> ('n, 'w) app \<Rightarrow> ('n, 'w) handled" where
  "wireless_set_credentials_handle env msg app =
     (if wireless_credentials_protocol msg \<noteq> PROTOCOL_WIFI then Inr (ESP_ERR_INVALID_ARG, app, [])
      else
        obind (em_wifi_sta_connect (ae_drv env) (wireless_credentials_network msg) (wireless_credentials_password msg)
            (wifi_of app)) (\<lambda>(w, evs).
          Inr (ESP_OK, set_wifi w app, map (App_ble \<circ> Ble_wifi) evs)))"

definition wireless_set_tx_power_handle ::
  "('n, 'w) app_env \<Rightarrow> wireless_tx_power_msg_t \<Rightarrow> ('n, 'w) app \<Rightarrow> ('n, 'w) handled" where
  "wireless_set_tx_power_handle env msg app =
     (let p = sint (wireless_tx_power_tx_power msg) in
      if wireless_tx_power_protocol msg \<noteq> PROTOCOL_WIFI then Inr (ESP_ERR_INVALID_ARG, app, [])
      else if p < 20 \<or> 210 < p then Inr (ESP_ERR_INVALID_ARG, app, [])
      else Inr (ae_set_tx_power env (word_of_int (4 * p div 10)), app, []))"

definition wireless_set_channel_handle ::
  "('n, 'w) app_env \<Rightarrow> wireless_channel_msg_t \<Rightarrow> ('n, 'w) app \<Rightarrow> ('n, 'w) handled" where
  "wireless_set_channel_handle env msg app =
     (if wireless_channel_protocol msg \<noteq> PROTOCOL_WIFI then Inr (ESP_ERR_INVALID_ARG, app, [])
      else Inr (ae_set_channel env (wireless_channel_channel msg), app, []))"

subsection \<open>The table\<close>

datatype disp_cb_t =
    Connection_status_handler | Reboot_handler | Factory_reset_handler | Led_evt_identify_msg_handler
  | Update_start_handler | Update_apply_handler | Wireless_enable_handle | Wireless_set_credentials_handle
  | Wireless_set_tx_power_handle | Wireless_set_channel_handle | Environment_cloud_cover_handler
  | Environment_set_position_handler | Coredump_confirmed_handler | Status_handler | Get_handler

record tcp_mapper_t =
  mp_cb :: disp_cb_t
  mp_type :: u16

definition mapper :: "tcp_mapper_t list" where
  "mapper =
     [\<lparr>mp_cb = Connection_status_handler, mp_type = MSGTYPE_CONNECTION_STATUS\<rparr>,
      \<lparr>mp_cb = Reboot_handler, mp_type = MSGTYPE_REBOOT\<rparr>,
      \<lparr>mp_cb = Factory_reset_handler, mp_type = MSGTYPE_FACTORY_RESET\<rparr>,
      \<lparr>mp_cb = Led_evt_identify_msg_handler, mp_type = MSGTYPE_IDENTIFY\<rparr>,
      \<lparr>mp_cb = Update_start_handler, mp_type = MSGTYPE_UPDATE_START\<rparr>,
      \<lparr>mp_cb = Update_apply_handler, mp_type = MSGTYPE_UPDATE_INSTALL\<rparr>,
      \<lparr>mp_cb = Wireless_enable_handle, mp_type = MSGTYPE_WIRELESS_ENABLE\<rparr>,
      \<lparr>mp_cb = Wireless_set_credentials_handle, mp_type = MSGTYPE_WIRELESS_SET_CREDENTIALS\<rparr>,
      \<lparr>mp_cb = Wireless_set_tx_power_handle, mp_type = MSGTYPE_WIRELESS_SET_TX_POWER\<rparr>,
      \<lparr>mp_cb = Wireless_set_channel_handle, mp_type = MSGTYPE_WIRELESS_SET_CHANNEL\<rparr>,
      \<lparr>mp_cb = Environment_cloud_cover_handler, mp_type = MSGTYPE_ENVIRONMENT_CLOUD_COVER\<rparr>,
      \<lparr>mp_cb = Environment_set_position_handler, mp_type = MSGTYPE_ENVIRONMENT_SET_POSITION\<rparr>,
      \<lparr>mp_cb = Coredump_confirmed_handler, mp_type = MSGTYPE_DIAG_COREDUMP_CONFIRMED\<rparr>,
      \<lparr>mp_cb = Status_handler, mp_type = MSGTYPE_STATUS\<rparr>,
      \<lparr>mp_cb = Get_handler, mp_type = MSGTYPE_GET\<rparr>]"

text \<open>A call through the table: the handler reads the buffer as the structure of its message.\<close>

definition run_cb :: "('n, 'w) app_env \<Rightarrow> disp_cb_t \<Rightarrow> rx_msg \<Rightarrow> ('n, 'w) app \<Rightarrow> ('n, 'w) handled" where
  "run_cb env cb x app =
     (case cb of
        Connection_status_handler \<Rightarrow> (case x of RxConnectionStatus m \<Rightarrow> connection_status_handler env m app | _ \<Rightarrow> Inl Undefined)
      | Reboot_handler \<Rightarrow> reboot_handler app
      | Factory_reset_handler \<Rightarrow> factory_reset_handler app
      | Led_evt_identify_msg_handler \<Rightarrow> (case x of RxIdentify m \<Rightarrow> identify_handler m app | _ \<Rightarrow> Inl Undefined)
      | Update_start_handler \<Rightarrow> (case x of RxUpdateStart m \<Rightarrow> update_start_handler env m app | _ \<Rightarrow> Inl Undefined)
      | Update_apply_handler \<Rightarrow> (case x of RxUpdateInstall m \<Rightarrow> update_apply_handler m app | _ \<Rightarrow> Inl Undefined)
      | Wireless_enable_handle \<Rightarrow> (case x of RxWirelessEnable m \<Rightarrow> wireless_enable_handle env m app | _ \<Rightarrow> Inl Undefined)
      | Wireless_set_credentials_handle \<Rightarrow> (case x of RxWirelessCredentials m \<Rightarrow> wireless_set_credentials_handle env m app | _ \<Rightarrow> Inl Undefined)
      | Wireless_set_tx_power_handle \<Rightarrow> (case x of RxWirelessTxPower m \<Rightarrow> wireless_set_tx_power_handle env m app | _ \<Rightarrow> Inl Undefined)
      | Wireless_set_channel_handle \<Rightarrow> (case x of RxWirelessChannel m \<Rightarrow> wireless_set_channel_handle env m app | _ \<Rightarrow> Inl Undefined)
      | Environment_cloud_cover_handler \<Rightarrow> environment_cloud_cover_handler app
      | Environment_set_position_handler \<Rightarrow> (case x of RxPosition m \<Rightarrow> environment_set_position_handler env m app | _ \<Rightarrow> Inl Undefined)
      | Coredump_confirmed_handler \<Rightarrow> coredump_confirmed_handler env app
      | Status_handler \<Rightarrow> (case x of RxStatus m \<Rightarrow> status_handler env m app | _ \<Rightarrow> Inl Undefined)
      | Get_handler \<Rightarrow> (case x of RxGet m \<Rightarrow> get_handler env m app | _ \<Rightarrow> Inl Undefined))"

fun mapper_loop :: "tcp_mapper_t list \<Rightarrow> u16 \<Rightarrow> disp_cb_t option" where
  "mapper_loop [] ty = None"
| "mapper_loop (e # es) ty = (if ty = mp_type e then Some (mp_cb e) else mapper_loop es ty)"

definition dispatcher_handler :: "('n, 'w) app_env \<Rightarrow> u16 \<Rightarrow> rx_msg \<Rightarrow> ('n, 'w) app \<Rightarrow> ('n, 'w) handled" where
  "dispatcher_handler env ty data app =
     (case mapper_loop mapper ty of
        None \<Rightarrow> Inr (ESP_ERR_NOT_SUPPORTED, app, [])
      | Some cb \<Rightarrow> run_cb env cb data app)"

subsection \<open>A received message from the wire to the reply\<close>

definition device_receive ::
  "('n, 'w) app_env \<Rightarrow> bytes \<Rightarrow> ('n, 'w) app \<Rightarrow> (('n, 'w) app \<times> app_event list \<times> rx_event list) outcome" where
  "device_receive env data app =
     obind (parse_message data (length data)) (\<lambda>(ret, ty, m).
       case m of
         None \<Rightarrow> Inr (app, [], [])
       | Some x \<Rightarrow>
           obind (dispatcher_handler env ty x app) (\<lambda>(ret, app, evs).
           obind (protocol_receiver_dispatcher (ae_net env) (Some (\<lambda>ty x. ret)) data (length data)) (\<lambda>(r, rx).
             Inr (app, evs, rx))))"

end
