(* ===== verification/EM_Dispatcher_Props.thy ===== *)
theory EM_Dispatcher_Props
  imports EM_Dispatcher EM_Storage_Props EM_Ble_Props
begin

section \<open>What a remote peer can do\<close>

text \<open>
  With working libraries and drivers (\<open>app_env_ok\<close>) the application keeps its invariants (\<open>app_ok\<close>) over every message it
  receives, and the messages that restart it or corrupt its memory are exactly those of \<open>remote_bad\<close>.
\<close>

definition app_env_ok ::
  "('n, 'w) app_env \<Rightarrow> ('n \<Rightarrow> nvs_view) \<Rightarrow> ('n \<Rightarrow> nvs_view) \<Rightarrow> (nat \<Rightarrow> bool) \<Rightarrow> ('w \<Rightarrow> bytes \<times> bytes) \<Rightarrow> bool" where
  "app_env_ok env view pers valid conf \<longleftrightarrow>
     net_ok (ae_net env) \<and> nvs_ok (ae_nvs env) view pers valid \<and> wifi_drv_ok (ae_drv env) conf \<and>
     be_post (ae_ble env) = ESP_OK \<and> ae_post env = ESP_OK \<and> (\<exists>v. update_numeric_fw_ver (ae_version env) = Inr v)"

definition app_ok :: "('n \<Rightarrow> nvs_view) \<Rightarrow> ('w \<Rightarrow> bytes \<times> bytes) \<Rightarrow> ('n, 'w) app \<Rightarrow> bool" where
  "app_ok view conf app \<longleftrightarrow>
     storage_inv view (ap_storage app) \<and> led_reach (ap_led app) \<and> conf_ok (conf (wf_drv (wifi_of app)))"

definition identify_bad :: "u8 \<Rightarrow> u8 \<Rightarrow> bool" where
  "identify_bad mode count \<longleftrightarrow> (mode = 1 \<or> mode = 2) \<and> count = 0 \<or> mode = 2 \<and> 16 < count"

definition handler_bad :: "('n, 'w) app_env \<Rightarrow> rx_msg \<Rightarrow> bool" where
  "handler_bad env x \<longleftrightarrow>
     (\<exists>m. x = RxIdentify m \<and> identify_bad (identify_mode m) (identify_count m)) \<or>
     (\<exists>m. x = RxGet m \<and> get_rq_type m = MSGTYPE_WIRELESS_CHANNEL \<and> fst (ae_channel env) = ESP_OK)"

definition done_ok :: "('n \<Rightarrow> nvs_view) \<Rightarrow> ('w \<Rightarrow> bytes \<times> bytes) \<Rightarrow> ('n, 'w) handled \<Rightarrow> bool" where
  "done_ok view conf r \<longleftrightarrow> (\<exists>ret app evs. r = Inr (ret, app, evs) \<and> app_ok view conf app)"

lemma done_okI [simp]: "done_ok view conf (Inr (ret, app, evs)) \<longleftrightarrow> app_ok view conf app"
  by (simp add: done_ok_def)

lemma app_send_ok: "sends net r bs \<Longrightarrow> app_ok view conf app \<Longrightarrow> done_ok view conf (app_send r app)"
  using sends_Inr [of net r bs] by (auto simp: app_send_def)

lemma update_sends_ok: "\<exists>evs. r = Inr evs \<Longrightarrow> app_ok view conf app \<Longrightarrow> done_ok view conf (update_sends r app)"
  by (auto simp: update_sends_def)

lemma app_tx_ok: "sends net r bs \<Longrightarrow> \<exists>evs. app_tx r = Inr evs"
  using sends_Inr [of net r bs] by (auto simp: app_tx_def)

lemma update_status_ok:
  assumes "app_env_ok env view pers valid conf"
  shows "\<exists>evs. send_update_status (ae_net env) (ae_version env) us = Inr evs"
    and "\<exists>evs. update_send_installed_fw (ae_net env) (ae_version env) t us = Inr evs"
proof -
  obtain v where v: "update_numeric_fw_ver (ae_version env) = Inr v" and net: "net_ok (ae_net env)"
    using assms by (auto simp: app_env_ok_def)
  show "\<exists>evs. send_update_status (ae_net env) (ae_version env) us = Inr evs"
    using v app_tx_ok [OF update_status_sends [OF net]] by (simp add: send_update_status_def)
  show "\<exists>evs. update_send_installed_fw (ae_net env) (ae_version env) t us = Inr evs"
    using v app_tx_ok [OF installed_fw_sends [OF net]] by (simp add: update_send_installed_fw_def Let_def)
qed

lemma update_start_total:
  assumes "update_numeric_fw_ver app = Inr v" "length url = 129" "unat url_len < 128"
  shows "\<exists>r us' evs. update_start start app dev_type fw hw url url_len policy us = Inr (r, us', evs)"
  using assms by (auto simp: update_start_def set_new_fw_url_def em_utils_dev_type_def em_utils_hw_ver_def Let_def)

lemma set_unique_id_app_ok:
  assumes "app_env_ok env view pers valid conf" "app_ok view conf app"
  shows "\<exists>app' evs. EM_Dispatcher.set_unique_id env u app = Inr (app', evs) \<and> app_ok view conf app'"
  using set_unique_id_ok [of "ae_nvs env" view pers valid "ap_storage app" u] assms
  by (auto simp: app_env_ok_def app_ok_def EM_Dispatcher.set_unique_id_def wifi_of_def)

lemma position_ok:
  assumes "app_env_ok env view pers valid conf" "app_ok view conf app"
  shows "done_ok view conf (environment_set_position_handler env m app)"
proof -
  have "scaled v 1 100000 = Inr (if sint v < 0 then - (- sint v div 100000) else sint v div 100000)" for v :: i64
    using sint_greater_eq [of v] sint_less [of v] by (simp add: scaled_def)
  moreover have "em_utils_decode_scaler (- 5) = Inr (1, 100000)" by (simp add: decode_scaler_correct)
  ultimately show ?thesis
    using set_coordinates_ok [of "ae_nvs env" view pers valid "ap_storage app" "environment_position_latitude m" "environment_position_longitude m"] assms
    by (auto simp: environment_set_position_handler_def app_env_ok_def app_ok_def wifi_of_def done_ok_def)
qed

lemma credentials_sends:
  assumes "net_ok net" "length ssid = 33" "ssid ! 31 = 0"
  shows "\<exists>bs. sends net (protocol_send_wireless_credentials net p ssid [0]) bs"
proof -
  have "0 \<in> set (take 32 ssid)" using assms(2,3) by (auto simp: in_set_conv_nth intro!: exI [of _ 31])
  then obtain k where k: "c_strnlen ssid 32 = Inr k" "k < 32" "k < length ssid" using c_strnlen_ok [of 32 ssid] by blast
  let ?m = "wireless_credentials_msg_zero\<lparr>wireless_credentials_type := MSGTYPE_WIRELESS_SET_CREDENTIALS,
    wireless_credentials_protocol := p, wireless_credentials_network_len := word_of_nat k,
    wireless_credentials_password_len := 0,
    wireless_credentials_network := overwrite (replicate 32 0) 0 (take k ssid), wireless_credentials_password := replicate 64 0\<rparr>"
  have u: "unat (word_of_nat k :: u16) = k" using k(2) by (simp add: unat_word_of_nat)
  have "c_strnlen [0] 64 = Inr 0" by (simp add: c_strnlen_def)
  then have eq: "protocol_send_wireless_credentials net p ssid [0] = send_serialized net (7 + k) (serialize_wireless_credentials_msg ?m)"
    using k by (simp add: protocol_send_wireless_credentials_def c_memcpy_def wireless_credentials_msg_zero_def overwrite_def)
  have w: "unat (wireless_credentials_network_len ?m) < 32" "unat (wireless_credentials_password_len ?m) < 64"
    "unat (wireless_credentials_network_len ?m) \<le> length (wireless_credentials_network ?m)"
    "unat (wireless_credentials_password_len ?m) \<le> length (wireless_credentials_password ?m)"
    using k u by simp_all
  show ?thesis unfolding eq
    by (intro exI, rule send_serialized_ok [OF assms(1)], rule serialize_wireless_credentials_msg_def,
        (rule writes_intros w)+, rule refl) (use k u in simp_all)
qed

lemma logs_settings_sends:
  assumes "net_ok net"
  shows "\<exists>bs. sends net (protocol_send_diag_logs_settings net 1 (replicate 6 0)) bs"
proof -
  let ?m = "\<lparr>diag_logs_settings_type = MSGTYPE_DIAG_LOGS_SETTINGS, diag_logs_settings_medium = 0,
           diag_logs_settings_level_modules = take 6 (replicate 6 0)\<rparr>"
  have w: "6 \<le> length (diag_logs_settings_level_modules ?m)" by simp
  have eq: "protocol_send_diag_logs_settings net 1 (replicate 6 0) =
      send_serialized net (2 + 1 + 6 * (6 * 8)) (serialize_diag_logs_settings_msg ?m)"
    by (simp add: protocol_send_diag_logs_settings_def)
  show ?thesis unfolding eq
    by (intro exI, rule send_serialized_ok [OF assms], rule serialize_diag_logs_settings_msg_def,
        (rule writes_intros w)+, rule refl) (simp_all add: length_concat sum_list_replicate)
qed

lemma get_wireless_ok:
  assumes "app_env_ok env view pers valid conf" "app_ok view conf app" "get_wireless env rq app = Some r"
  shows "if rq = MSGTYPE_WIRELESS_CHANNEL \<and> fst (ae_channel env) = ESP_OK then \<exists>f. r = Inl f else done_ok view conf r"
proof -
  have net: "net_ok (ae_net env)" using assms(1) by (simp add: app_env_ok_def)
  have drv: "wd_get_config (ae_drv env) s = (ESP_OK, conf s)" for s using assms(1) by (simp add: app_env_ok_def wifi_drv_ok_def)
  obtain a b where c: "conf (wf_drv (wifi_of app)) = (a, b)" by fastforce
  then have len: "length a = 32" using assms(2) by (simp add: app_ok_def conf_ok_def)
  consider "rq = MSGTYPE_WIRELESS_STATUS" | "rq = MSGTYPE_WIRELESS_CREDENTIALS" | "rq = MSGTYPE_WIRELESS_TX_POWER"
    | "rq = MSGTYPE_WIRELESS_CHANNEL"
    using assms(3) by (auto simp: get_wireless_def Let_def split: if_splits)
  then show ?thesis
  proof cases
    case 1
    then show ?thesis
      using assms(2,3) app_send_ok [OF wireless_status_sends [OF net]]
      by (auto simp: get_wireless_def Let_def split_beta)
  next
    case 2
    obtain k where "c_strnlen a 32 = Inr k" using c_strnlen_total [of 32 a] len by auto
    then have "em_wifi_sta_ssid (ae_drv env) (wifi_of app) (replicate 33 0) =
        (if k = 0 then Inr (ESP_ERR_NOT_FOUND, replicate 33 0) else Inr (ESP_OK, (overwrite (replicate 33 0) 0 a)[31 := 0]))"
      using len by (simp add: em_wifi_sta_ssid_def drv c c_memcpy_def)
    moreover have "length ((overwrite (replicate 33 0) 0 a)[31 := 0]) = 33" "((overwrite (replicate 33 0) 0 a)[31 := 0]) ! 31 = 0"
      using len by simp_all
    then obtain bs where "sends (ae_net env) (protocol_send_wireless_credentials (ae_net env) 2
        ((overwrite (replicate 33 0) 0 a)[31 := 0]) [0]) bs"
      using credentials_sends [OF net] by blast
    ultimately show ?thesis
      using 2 assms(2,3) app_send_ok by (auto simp: get_wireless_def Let_def split: if_splits)
  next
    case 3
    then show ?thesis
      using assms(2,3) app_send_ok [OF tx_power_sends [OF net]]
      by (auto simp: get_wireless_def Let_def split_beta)
  next
    case 4
    then show ?thesis
      using assms(2,3) by (auto simp: get_wireless_def Let_def split_beta app_send_def wireless_channel_overflow [OF net])
  qed
qed

lemma get_handler_ok:
  assumes "app_env_ok env view pers valid conf" "app_ok view conf app"
  shows "if get_rq_type m = MSGTYPE_WIRELESS_CHANNEL \<and> fst (ae_channel env) = ESP_OK
    then \<exists>f. get_handler env m app = Inl f else done_ok view conf (get_handler env m app)"
proof -
  have net: "net_ok (ae_net env)" using assms(1) by (simp add: app_env_ok_def)
  obtain bs where logs: "sends (ae_net env) (protocol_send_diag_logs_settings (ae_net env) 1 (replicate 6 0)) bs"
    using logs_settings_sends [OF net] by blast
  show ?thesis
  proof (cases "get_rq_type m = MSGTYPE_UPDATE_INSTALLEDFW \<or> get_rq_type m = MSGTYPE_UPDATE_STATUS")
    case True
    then show ?thesis
      using update_sends_ok [OF _ assms(2)] update_status_ok [OF assms(1)] by (auto simp: get_handler_def Let_def)
  next
    case no: False
    show ?thesis
    proof (cases "get_wireless env (get_rq_type m) app")
      case None
      then have "get_rq_type m \<noteq> MSGTYPE_WIRELESS_CHANNEL" by (auto simp: get_wireless_def Let_def)
      then show ?thesis
        using None no assms(2) app_send_ok [OF position_sends [OF net] assms(2)] app_send_ok [OF logs assms(2)]
        by (simp add: get_handler_def Let_def)
    next
      case (Some r)
      then have "get_handler env m app = r" using no by (simp add: get_handler_def Let_def)
      then show ?thesis using get_wireless_ok [OF assms Some] by simp
    qed
  qed
qed

lemma deinit_ok: "be_post env = ESP_OK \<Longrightarrow> \<exists>b evs. em_ble_prov_stop env ble = Inr (b, evs) \<and> bl_wifi b = bl_wifi ble"
  by (simp add: em_ble_prov_stop_def em_ble_deinit_def Let_def)

lemma update_start_handler_ok:
  assumes "app_env_ok env view pers valid conf" "app_ok view conf app"
    and "length (update_start_img_url m) = 129" "unat (update_start_img_url_len m) < 128"
  shows "done_ok view conf (update_start_handler env m app)"
proof -
  obtain v where v: "update_numeric_fw_ver (ae_version env) = Inr v" and post: "be_post (ae_ble env) = ESP_OK"
    using assms(1) by (auto simp: app_env_ok_def)
  obtain b evs where b: "em_ble_prov_stop (ae_ble env) (ap_ble app) = Inr (b, evs)" "bl_wifi b = bl_wifi (ap_ble app)"
    using deinit_ok [OF post] by blast
  obtain r us evs' where "update_start (ae_ota_start env) (ae_version env) (update_start_dev_type m) (update_start_fw_ver m)
      (update_start_hw_ver m) (update_start_img_url m) (update_start_img_url_len m) (update_start_update_policy m)
      (ap_update app) = Inr (r, us, evs')"
    using update_start_total [OF v assms(3,4)] by blast
  then show ?thesis using b assms(2) by (simp add: update_start_handler_def app_ok_def wifi_of_def)
qed

lemma identify_handler_ok:
  assumes "app_ok view conf app"
  shows "if identify_bad (identify_mode m) (identify_count m) then \<exists>f. identify_handler m app = Inl f
    else done_ok view conf (identify_handler m app)"
proof -
  have reach: "led_reach (ap_led app)" using assms by (simp add: app_ok_def)
  have iff: "(\<exists>f. led_evt_identify_msg_handler m (ap_led app) = Inl f) \<longleftrightarrow> identify_bad (identify_mode m) (identify_count m)"
    using identify_faults [OF reach] by (simp add: identify_bad_def)
  show ?thesis
  proof (cases "led_evt_identify_msg_handler m (ap_led app)")
    case (Inl f)
    then show ?thesis using iff by (auto simp: identify_handler_def)
  next
    case (Inr r)
    then obtain led where "led_scene_trigger (identify_scene m) (ap_led app) = Inr led" "r = (led, ESP_OK)"
      by (auto simp: led_evt_identify_msg_handler_def obind_Inr_iff)
    moreover from this have "led_reach led" using reach reach_trigger by blast
    ultimately show ?thesis using iff Inr assms by (auto simp: identify_handler_def app_ok_def wifi_of_def)
  qed
qed

lemma dispatcher_ok:
  assumes "app_env_ok env view pers valid conf" "app_ok view conf app" "rx_matches ty x"
  shows "if handler_bad env x then \<exists>f. dispatcher_handler env ty x app = Inl f
    else done_ok view conf (dispatcher_handler env ty x app)"
proof -
  have unused: "dispatcher_handler env ty x app = Inr (ESP_ERR_NOT_SUPPORTED, app, [])" if "mapper_loop mapper ty = None"
    using that by (simp add: dispatcher_handler_def)
  have id: "\<exists>app' evs. EM_Dispatcher.set_unique_id env u app = Inr (app', evs) \<and> app_ok view conf app'" for u
    using set_unique_id_app_ok [OF assms(1,2)] by blast
  show ?thesis
  proof (cases x)
    case (RxConnectionStatus m)
    then show ?thesis using assms id [of "connection_status_unique_id m"]
      by (auto simp: handler_bad_def dispatcher_handler_def mapper_def run_cb_def connection_status_handler_def app_env_ok_def Let_def)
  next
    case (RxIdentify m)
    then show ?thesis using assms identify_handler_ok [OF assms(2), of m]
      by (simp add: handler_bad_def dispatcher_handler_def mapper_def run_cb_def)
  next
    case (RxUpdateStart m)
    then show ?thesis using assms update_start_handler_ok [OF assms(1,2), of m]
      by (simp add: handler_bad_def dispatcher_handler_def mapper_def run_cb_def)
  next
    case (RxUpdateInstall m)
    then show ?thesis using assms
      by (simp add: handler_bad_def dispatcher_handler_def mapper_def run_cb_def update_apply_handler_def split_beta
          app_ok_def wifi_of_def)
  next
    case (RxPosition m)
    then show ?thesis using assms position_ok [OF assms(1,2), of m]
      by (simp add: handler_bad_def dispatcher_handler_def mapper_def run_cb_def)
  next
    case (RxStatus m)
    then show ?thesis using assms id [of 0]
      by (auto simp: handler_bad_def dispatcher_handler_def mapper_def run_cb_def status_handler_def)
  next
    case (RxGet m)
    then show ?thesis using assms get_handler_ok [OF assms(1,2), of m]
      by (simp add: handler_bad_def dispatcher_handler_def mapper_def run_cb_def)
  qed (use assms in \<open>auto simp: handler_bad_def dispatcher_handler_def mapper_def run_cb_def reboot_handler_def
      factory_reset_handler_def coredump_confirmed_handler_def coredump_erase_def environment_cloud_cover_handler_def
      wireless_set_channel_handle_def\<close>)
qed

subsection \<open>From the wire\<close>

lemma parse_identify:
  assumes "wire_type data = MSGTYPE_IDENTIFY" "2 \<le> length data" "length data \<le> 216"
  shows "parse_message data (length data) = (if length data = 4
    then Inr (ESP_OK, MSGTYPE_IDENTIFY,
      Some (RxIdentify \<lparr>identify_type = MSGTYPE_IDENTIFY, identify_mode = data ! 2, identify_count = data ! 3\<rparr>))
    else Inr (ESP_ERR_INVALID_RESPONSE, MSGTYPE_IDENTIFY, None))"
  using assms
  by (auto simp: parse_message_eq first_case_Cons rx_case_def receive_system_def receive_update_def receive_wireless_def
      receive_energy_def receive_relay_def receive_environment_def receive_meter_def parse_identify_msg_def rd_eval
      BIGGEST_RECV_MESSAGE_SIZE_def identify_msg_zero_def numeral_3_eq_3)

lemma parse_get:
  assumes "wire_type data = MSGTYPE_GET" "2 \<le> length data" "length data \<le> 216"
  shows "parse_message data (length data) = (if length data = 8
    then Inr (ESP_OK, MSGTYPE_GET,
      Some (RxGet \<lparr>get_type = MSGTYPE_GET, get_rq_type = wire_type (drop 2 data), get_param = wire32 (drop 4 data)\<rparr>))
    else Inr (ESP_ERR_INVALID_RESPONSE, MSGTYPE_GET, None))"
  using assms
  by (auto simp: parse_message_eq first_case_Cons rx_case_def receive_system_def receive_update_def receive_wireless_def
      receive_energy_def receive_relay_def receive_environment_def receive_meter_def parse_get_msg_def rd_eval
      BIGGEST_RECV_MESSAGE_SIZE_def get_msg_zero_def)

text \<open>The messages that a peer must not send: those that \<open>rx_safe\<close> excludes, an identify message that asks for an impossible
  blink, and the request for the channel.\<close>

definition remote_bad :: "('n, 'w) app_env \<Rightarrow> bytes \<Rightarrow> bool" where
  "remote_bad env data \<longleftrightarrow> \<not> rx_safe data \<or>
     length data = 4 \<and> wire_type data = MSGTYPE_IDENTIFY \<and> identify_bad (data ! 2) (data ! 3) \<or>
     length data = 8 \<and> wire_type data = MSGTYPE_GET \<and> wire_type (drop 2 data) = MSGTYPE_WIRELESS_CHANNEL \<and>
       fst (ae_channel env) = ESP_OK"

lemma handler_bad_iff:
  assumes "rx_safe data" "parse_message data (length data) = Inr (ESP_OK, ty, Some x)" "rx_matches ty x" "ty = wire_type data"
    "2 \<le> length data" "length data \<le> 216"
  shows "handler_bad env x \<longleftrightarrow> remote_bad env data"
proof -
  have "x \<noteq> RxIdentify m" if "ty \<noteq> MSGTYPE_IDENTIFY" for m using assms(3) that by auto
  moreover have "x \<noteq> RxGet m" if "ty \<noteq> MSGTYPE_GET" for m using assms(3) that by auto
  moreover have "handler_bad env x \<longleftrightarrow> remote_bad env data" if "ty = MSGTYPE_IDENTIFY"
    using parse_identify [OF _ assms(5,6)] that assms by (auto simp: handler_bad_def remote_bad_def split: if_splits)
  moreover have "handler_bad env x \<longleftrightarrow> remote_bad env data" if "ty = MSGTYPE_GET"
    using parse_get [OF _ assms(5,6)] that assms by (auto simp: handler_bad_def remote_bad_def split: if_splits)
  ultimately show ?thesis using assms by (auto simp: handler_bad_def remote_bad_def)
qed

lemma dispatcher_status_ok:
  assumes "net_ok net" "parse_message data (length data) = Inr (ESP_OK, ty, Some x)" "length data \<le> 216"
  shows "\<exists>r rx. protocol_receiver_dispatcher net (Some (\<lambda>ty x. ret)) data (length data) = Inr (r, rx) \<and>
    (ty \<noteq> MSGTYPE_GET \<or> ret \<noteq> ESP_OK \<longrightarrow> (\<exists>s tx. rx = [RxDispatched ty x, RxReplied tx] \<and>
      sends net (Inr (s, tx)) (wire_u16 MSGTYPE_STATUS @ [word_of_int ret] @ wire_u16 ty)))"
proof -
  note s = send_status_payload [OF assms(1), of ty "word_of_int ret"]
  then obtain a where a: "protocol_send_status net ty (word_of_int ret) = Inr a" using sends_Inr by blast
  then show ?thesis using s assms(2,3)
    by (cases a) (auto simp: protocol_receiver_dispatcher_def BIGGEST_RECV_MESSAGE_SIZE_def Let_def)
qed

lemma device_receive_ok:
  assumes "app_env_ok env view pers valid conf" "app_ok view conf app"
  shows "if remote_bad env data then \<exists>f. device_receive env data app = Inl f
    else \<exists>app' evs rx. device_receive env data app = Inr (app', evs, rx) \<and> app_ok view conf app'"
proof (cases "rx_safe data")
  case False
  then show ?thesis using parse_message_faults [OF refl False] by (auto simp: remote_bad_def device_receive_def)
next
  case True
  have len: "length data \<le> 216" using True by (simp add: rx_safe_def Let_def)
  show ?thesis
  proof (cases "length data < 2")
    case short: True
    then show ?thesis using True assms(2) by (auto simp: remote_bad_def device_receive_def parse_message_short)
  next
    case False
    then have two: "2 \<le> length data" by simp
    obtain ret m where p: "parse_message data (length data) = Inr (ret, wire_type data, m)"
      "ret = ESP_OK \<longleftrightarrow> m \<noteq> None" "\<forall>x. m = Some x \<longrightarrow> rx_matches (wire_type data) x"
      using parse_message_good [OF refl True] two by auto
    show ?thesis
    proof (cases m)
      case None
      have "\<not> remote_bad env data"
        using p None True parse_identify [OF _ two len] parse_get [OF _ two len] by (auto simp: remote_bad_def)
      then show ?thesis using p None assms(2) by (simp add: device_receive_def)
    next
      case (Some x)
      then have ok: "parse_message data (length data) = Inr (ESP_OK, wire_type data, Some x)" "rx_matches (wire_type data) x"
        using p by auto
      have bad: "handler_bad env x \<longleftrightarrow> remote_bad env data"
        by (rule handler_bad_iff [OF True ok refl two len])
      have net: "net_ok (ae_net env)" using assms(1) by (simp add: app_env_ok_def)
      have rep: "\<exists>r rx. protocol_receiver_dispatcher (ae_net env) (Some (\<lambda>ty x. ret)) data (length data) = Inr (r, rx)" for ret
        using dispatcher_status_ok [OF net ok(1) len, of ret] by blast
      show ?thesis
      proof (cases "remote_bad env data")
        case True
        then show ?thesis using dispatcher_ok [OF assms ok(2)] bad ok(1) by (auto simp: device_receive_def)
      next
        case False
        then obtain ret app' evs where d: "dispatcher_handler env (wire_type data) x app = Inr (ret, app', evs)" "app_ok view conf app'"
          using dispatcher_ok [OF assms ok(2)] bad by (auto simp: done_ok_def)
        obtain r rx where "protocol_receiver_dispatcher (ae_net env) (Some (\<lambda>ty x. ret)) data (length data) = Inr (r, rx)"
          using rep by blast
        then show ?thesis using d ok(1) False by (simp add: device_receive_def)
      qed
    qed
  qed
qed

text \<open>A device with a blank flash, working libraries and the release 1.2.3.\<close>

definition env0 :: "(nvs_view \<times> nvs_view, bytes \<times> bytes) app_env" where
  "env0 =
     \<lparr>ae_net = net0, ae_nvs = map_nvs, ae_drv = drv0, ae_ble = ble_env0, ae_coredump = env_2000,
      ae_version = version_text [49] [50] [51] 0 [], ae_compile_time = 0, ae_random = 5, ae_ota_start = 0, ae_post = 0,
      ae_rssi = (0, - 50), ae_ip = (0, 0x0100007F), ae_tx_power = (0, 80), ae_channel = (0, 11),
      ae_set_tx_power = (\<lambda>p. 0), ae_set_channel = (\<lambda>c. 0)\<rparr>"

definition app0 :: "(nvs_view \<times> nvs_view, bytes \<times> bytes) app" where
  "app0 = \<lparr>ap_update = update_state_init, ap_storage = blank_storage, ap_led = led_start, ap_ble = ble_start wifi_blank,
     ap_coredump = coredump_zero\<rparr>"

lemma env0_ok: "app_env_ok env0 fst snd (\<lambda>h. h = 1) (\<lambda>s. s)"
proof -
  have "update_numeric_fw_ver (version_text [49] [50] [51] 0 []) = Inr 0x010203"
    by (simp add: update_numeric_fw_ver_def get_fw_version_string_def version_text_def c_strtoul_def c_space_def c_sign_def
        c_digit_def digit_val_def)
  then show ?thesis
    using net_ok_net0 map_nvs_ok drv0_ok by (simp add: app_env_ok_def env0_def ble_env0_def)
qed

lemma app0_ok: "app_ok fst (\<lambda>s. s) app0"
  using led_start_reach
  by (simp add: app_ok_def app0_def wifi_of_def ble_start_def wifi_blank_def conf_ok_def storage_inv_def blank_storage_def
      stored_def entry_stored_def)

subsection \<open>The position check\<close>

text \<open>A position is stored exactly when the latitude is closer to zero than 91 degrees and the longitude than 181 degrees, in units
  of a hundred-thousandth of a degree: the division that turns them into degrees cuts the fraction off before they are compared
  with 90 and 180, so latitudes up to 90.99999 and longitudes up to 180.99999 pass. Every other position is answered with
  \<open>ESP_ERR_INVALID_ARG\<close> and changes nothing.\<close>

lemma position_check_truncates:
  assumes "app_env_ok env view pers valid conf" "app_ok view conf app"
  shows "let lat = environment_position_latitude m; long = environment_position_longitude m in
    if \<bar>sint lat\<bar> < 9100000 \<and> \<bar>sint long\<bar> < 18100000
    then \<exists>st evs. storage_set_coordinates (ae_nvs env) (ap_storage app) lat long = Inr (st, evs) \<and>
      environment_set_position_handler env m app = Inr (ESP_OK, app\<lparr>ap_storage := st\<rparr>, map App_storage evs)
    else environment_set_position_handler env m app = Inr (ESP_ERR_INVALID_ARG, app, [])"
proof -
  define lat where "lat = environment_position_latitude m"
  define long where "long = environment_position_longitude m"
  define q where "q = (\<lambda>v :: int. if v < 0 then - (- v div 100000) else v div 100000)"
  have sc: "scaled v 1 100000 = Inr (q (sint v))" for v :: i64
    using sint_greater_eq [of v] sint_less [of v] by (simp add: scaled_def q_def)
  have dec: "em_utils_decode_scaler (- 5) = Inr (1, 100000)" by (simp add: decode_scaler_correct)
  have q: "(q v < - 90 \<or> 90 < q v) \<longleftrightarrow> \<not> \<bar>v\<bar> < 9100000" "(q v < - 180 \<or> 180 < q v) \<longleftrightarrow> \<not> \<bar>v\<bar> < 18100000" for v
  proof -
    have d: "100000 * (w div 100000) \<le> w" "w < 100000 * (w div 100000) + 100000" for w :: int by linarith+
    show "(q v < - 90 \<or> 90 < q v) \<longleftrightarrow> \<not> \<bar>v\<bar> < 9100000" "(q v < - 180 \<or> 180 < q v) \<longleftrightarrow> \<not> \<bar>v\<bar> < 18100000"
      using d [of v] d [of "- v"] unfolding q_def abs_if by (cases "v < 0"; simp; linarith)+
  qed
  obtain st evs where st: "storage_set_coordinates (ae_nvs env) (ap_storage app) lat long = Inr (st, evs)"
    using set_coordinates_ok [of "ae_nvs env" view pers valid "ap_storage app" lat long] assms
    by (auto simp: app_env_ok_def app_ok_def)
  have eq: "environment_set_position_handler env m app =
      (if (q (sint lat) < - 90 \<or> 90 < q (sint lat)) \<or> (q (sint long) < - 180 \<or> 180 < q (sint long))
       then Inr (ESP_ERR_INVALID_ARG, app, []) else Inr (ESP_OK, app\<lparr>ap_storage := st\<rparr>, map App_storage evs))"
    by (simp add: environment_set_position_handler_def dec sc st flip: lat_def long_def)
  show ?thesis unfolding Let_def lat_def [symmetric] long_def [symmetric] eq
    using st q [of "sint lat"] q [of "sint long"] by auto
qed

end
