(* ===== verification/EM_Button.thy ===== *)
theory EM_Button
  imports EM_Prelude
begin

section \<open>Button sequences (em_button/button.c)\<close>

text \<open>
  The button driver reports presses and clicks; the handler turns them into the events of the application and follows one
  sequence across reports: three clicks, a break, and a press of more than eight seconds, which resets the device to
  its factory state. The state is the three static variables of the handler; times are milliseconds, modulo 2 ^ 32.
\<close>

abbreviation BREAK_TIME_MAX_MS :: u32 where "BREAK_TIME_MAX_MS \<equiv> 2000"
abbreviation VERY_LONG_PRESS_TIME_MS :: u32 where "VERY_LONG_PRESS_TIME_MS \<equiv> 8000"

datatype button_event_t =
    BUTTON_PRESS_DOWN | BUTTON_SINGLE_CLICK | BUTTON_DOUBLE_CLICK | BUTTON_MULTIPLE_CLICK
  | BUTTON_LONG_PRESS_START | BUTTON_LONG_PRESS_HOLD | BUTTON_NONE_PRESS

datatype button_event_action_t =
    EM_BUTTON_NOPRESS | EM_BUTTON_1X_CLICK_EVENT | EM_BUTTON_1X_LONG_PRESS_EVENT | EM_BUTTON_2X_CLICK_EVENT
  | EM_BUTTON_3X_CLICK_EVENT | EM_BUTTON_3X_SHORT_1X_LONG_CLICK_EVENT | EM_BUTTON_3X_SHORT_1X_VERY_LONG_CLICK_EVENT

record button_state =
  bt_evt_previous :: button_event_t
  bt_ts_pressed :: u32
  bt_ts_break :: u32

definition button_start :: button_state where
  "button_start = \<lparr>bt_evt_previous = BUTTON_NONE_PRESS, bt_ts_pressed = 0, bt_ts_break = 0\<rparr>"

text \<open>\<open>post\<close>: the result of posting an event, which must be \<open>ESP_OK\<close>.\<close>

definition post_button :: "int \<Rightarrow> button_event_action_t \<Rightarrow> button_state \<Rightarrow> (button_state \<times> button_event_action_t list) outcome" where
  "post_button post a st = c_assert (post = ESP_OK) (Inr (st, [a]))"

definition button_handler ::
  "int \<Rightarrow> button_event_t \<Rightarrow> u32 \<Rightarrow> button_state \<Rightarrow> (button_state \<times> button_event_action_t list) outcome" where
  "button_handler post evt ts st =
     (let prev = bt_evt_previous st; overwritten = st\<lparr>bt_evt_previous := evt\<rparr> in
      if evt = BUTTON_PRESS_DOWN then
        let st = st\<lparr>bt_ts_pressed := ts\<rparr> in
        Inr (if prev = BUTTON_MULTIPLE_CLICK \<and> BREAK_TIME_MAX_MS < ts - bt_ts_break st
             then st\<lparr>bt_evt_previous := BUTTON_NONE_PRESS\<rparr> else st, [])
      else if evt = BUTTON_SINGLE_CLICK then post_button post EM_BUTTON_1X_CLICK_EVENT overwritten
      else if evt = BUTTON_DOUBLE_CLICK then post_button post EM_BUTTON_2X_CLICK_EVENT overwritten
      else if evt = BUTTON_MULTIPLE_CLICK then
        post_button post EM_BUTTON_3X_CLICK_EVENT (overwritten\<lparr>bt_ts_break := ts\<rparr>)
      else if prev = BUTTON_MULTIPLE_CLICK \<and> evt = BUTTON_LONG_PRESS_START then
        post_button post EM_BUTTON_3X_SHORT_1X_LONG_CLICK_EVENT st
      else if prev = BUTTON_MULTIPLE_CLICK \<and> evt = BUTTON_LONG_PRESS_HOLD then
        if bt_ts_pressed st + VERY_LONG_PRESS_TIME_MS < ts
        then post_button post EM_BUTTON_3X_SHORT_1X_VERY_LONG_CLICK_EVENT overwritten
        else Inr (st, [])
      else if prev \<noteq> BUTTON_MULTIPLE_CLICK \<and> evt = BUTTON_LONG_PRESS_START then
        post_button post EM_BUTTON_1X_LONG_PRESS_EVENT overwritten
      else Inr (overwritten, []))"

fun button_run :: "int \<Rightarrow> (button_event_t \<times> u32) list \<Rightarrow> button_state \<Rightarrow> (button_state \<times> button_event_action_t list) outcome" where
  "button_run post [] st = Inr (st, [])"
| "button_run post ((evt, ts) # es) st =
     obind (button_handler post evt ts st) (\<lambda>(st, as). obind (button_run post es st) (\<lambda>(st, bs). Inr (st, as @ bs)))"

subsection \<open>The factory reset sequence\<close>

text \<open>The reports after the three clicks that keep the sequence alive: presses within the break time, the start of a long
  press and its holding.\<close>

definition keeps_sequence :: "u32 \<Rightarrow> (button_event_t \<times> u32) list \<Rightarrow> bool" where
  "keeps_sequence t0 rest \<longleftrightarrow>
     (\<forall>(evt, ts) \<in> set rest. evt \<in> {BUTTON_PRESS_DOWN, BUTTON_LONG_PRESS_START, BUTTON_LONG_PRESS_HOLD} \<and>
        (evt = BUTTON_PRESS_DOWN \<longrightarrow> ts - t0 \<le> BREAK_TIME_MAX_MS))"

text \<open>The time of the last press.\<close>

fun last_press :: "(button_event_t \<times> u32) list \<Rightarrow> u32 \<Rightarrow> u32" where
  "last_press [] t = t"
| "last_press ((evt, ts) # es) t = last_press es (if evt = BUTTON_PRESS_DOWN then ts else t)"

lemma last_press_append: "last_press (es @ [(evt, ts)]) t = (if evt = BUTTON_PRESS_DOWN then ts else last_press es t)"
  by (induction es arbitrary: t) auto

lemma keeps_sequence_append:
  "keeps_sequence t0 (rest @ [(evt, ts)]) \<longleftrightarrow> keeps_sequence t0 rest \<and>
     evt \<in> {BUTTON_PRESS_DOWN, BUTTON_LONG_PRESS_START, BUTTON_LONG_PRESS_HOLD} \<and>
     (evt = BUTTON_PRESS_DOWN \<longrightarrow> ts - t0 \<le> BREAK_TIME_MAX_MS)"
  by (auto simp: keeps_sequence_def)

lemma button_run_append:
  "button_run post (es @ fs) st =
     obind (button_run post es st) (\<lambda>(st, as). obind (button_run post fs st) (\<lambda>(st, bs). Inr (st, as @ bs)))"
proof (induction es arbitrary: st)
  case (Cons e es)
  then show ?case by (cases e) (auto simp: obind_assoc obind_def split: sum.split prod.split)
qed (auto simp: obind_def split: sum.split)

lemma button_total: "\<exists>st' as. button_handler ESP_OK evt ts st = Inr (st', as)"
  by (cases evt) (simp_all add: button_handler_def post_button_def Let_def)

lemma button_step_facts:
  assumes "button_handler ESP_OK evt ts st = Inr (st', as)"
  shows "bt_ts_pressed st' = (if evt = BUTTON_PRESS_DOWN then ts else bt_ts_pressed st)"
    "bt_evt_previous st' = BUTTON_MULTIPLE_CLICK \<Longrightarrow>
       evt = BUTTON_MULTIPLE_CLICK \<and> bt_ts_break st' = ts \<or>
       bt_evt_previous st = BUTTON_MULTIPLE_CLICK \<and> bt_ts_break st' = bt_ts_break st \<and>
         evt \<in> {BUTTON_PRESS_DOWN, BUTTON_LONG_PRESS_START, BUTTON_LONG_PRESS_HOLD} \<and>
         (evt = BUTTON_PRESS_DOWN \<longrightarrow> ts - bt_ts_break st \<le> BREAK_TIME_MAX_MS)"
    "EM_BUTTON_3X_SHORT_1X_VERY_LONG_CLICK_EVENT \<in> set as \<longleftrightarrow>
       bt_evt_previous st = BUTTON_MULTIPLE_CLICK \<and> evt = BUTTON_LONG_PRESS_HOLD \<and> bt_ts_pressed st + VERY_LONG_PRESS_TIME_MS < ts"
    "EM_BUTTON_3X_SHORT_1X_VERY_LONG_CLICK_EVENT \<in> set as \<Longrightarrow> bt_evt_previous st' = BUTTON_LONG_PRESS_HOLD"
  using assms by (cases evt; auto simp: button_handler_def post_button_def Let_def not_less split: if_splits)+

lemma button_run_facts:
  assumes "button_run ESP_OK es button_start = Inr (st, as)"
  shows "bt_ts_pressed st = last_press es 0 \<and> (bt_evt_previous st = BUTTON_MULTIPLE_CLICK \<longrightarrow>
     (\<exists>pre rest. es = pre @ (BUTTON_MULTIPLE_CLICK, bt_ts_break st) # rest \<and> keeps_sequence (bt_ts_break st) rest))"
  using assms
proof (induction es arbitrary: st as rule: rev_induct)
  case Nil
  then show ?case by (auto simp: button_start_def)
next
  case (snoc e es)
  obtain evt ts where e: "e = (evt, ts)" by fastforce
  from snoc.prems obtain st1 as1 bs where 1: "button_run ESP_OK es button_start = Inr (st1, as1)"
    and 2: "button_handler ESP_OK evt ts st1 = Inr (st, bs)"
    by (auto simp: button_run_append e obind_Inr_iff)
  note IH = snoc.IH [OF 1] and facts = button_step_facts [OF 2]
  have "\<exists>pre rest. es @ [e] = pre @ (BUTTON_MULTIPLE_CLICK, bt_ts_break st) # rest \<and> keeps_sequence (bt_ts_break st) rest"
    if multi: "bt_evt_previous st = BUTTON_MULTIPLE_CLICK"
    using facts(2) [OF multi]
  proof (elim disjE conjE)
    assume "evt = BUTTON_MULTIPLE_CLICK" "bt_ts_break st = ts"
    then have "es @ [e] = es @ (BUTTON_MULTIPLE_CLICK, bt_ts_break st) # []" "keeps_sequence (bt_ts_break st) []"
      by (simp_all add: e keeps_sequence_def)
    then show ?thesis by blast
  next
    assume a: "bt_evt_previous st1 = BUTTON_MULTIPLE_CLICK" "bt_ts_break st = bt_ts_break st1"
      "evt \<in> {BUTTON_PRESS_DOWN, BUTTON_LONG_PRESS_START, BUTTON_LONG_PRESS_HOLD}"
      "evt = BUTTON_PRESS_DOWN \<longrightarrow> ts - bt_ts_break st1 \<le> BREAK_TIME_MAX_MS"
    then obtain pre rest where "es = pre @ (BUTTON_MULTIPLE_CLICK, bt_ts_break st) # rest" "keeps_sequence (bt_ts_break st) rest"
      using IH by auto
    then have "es @ [e] = pre @ (BUTTON_MULTIPLE_CLICK, bt_ts_break st) # (rest @ [e]) \<and> keeps_sequence (bt_ts_break st) (rest @ [e])"
      using a by (simp add: e keeps_sequence_append)
    then show ?thesis by blast
  qed
  then show ?case using IH facts(1) by (simp add: e last_press_append)
qed

text \<open>The last press after the three clicks, if one was reported.\<close>

lemma last_press_kept:
  assumes "keeps_sequence t0 rest"
  shows "if \<exists>t. (BUTTON_PRESS_DOWN, t) \<in> set rest then last_press (pre @ (BUTTON_MULTIPLE_CLICK, t0) # rest) t1 - t0 \<le> BREAK_TIME_MAX_MS
    else last_press (pre @ (BUTTON_MULTIPLE_CLICK, t0) # rest) t1 = last_press pre t1"
  using assms
proof (induction rest rule: rev_induct)
  case Nil
  then show ?case using last_press_append [of pre BUTTON_MULTIPLE_CLICK t0 t1] by simp
next
  case (snoc e rest)
  obtain evt ts where e: "e = (evt, ts)" by fastforce
  have "pre @ (BUTTON_MULTIPLE_CLICK, t0) # rest @ [e] = (pre @ (BUTTON_MULTIPLE_CLICK, t0) # rest) @ [(evt, ts)]" by (simp add: e)
  then show ?case using snoc last_press_append [of "pre @ (BUTTON_MULTIPLE_CLICK, t0) # rest" evt ts t1]
    by (auto simp: e keeps_sequence_append split: if_splits)
qed

text \<open>The comparison of the code in 32 bits: the sum wraps for a press in the last eight seconds before the overflow.\<close>

lemma held_long_enough:
  "p + VERY_LONG_PRESS_TIME_MS < (ts :: u32) \<longleftrightarrow>
     (if unat p + 8000 < 2 ^ 32 then unat p + 8000 < unat ts else unat p + 8000 < unat ts + 2 ^ 32)"
proof -
  have "unat (p + VERY_LONG_PRESS_TIME_MS) = (unat p + 8000) mod 2 ^ 32" by (simp add: unat_word_ariths)
  moreover have "(unat p + 8000) mod 2 ^ 32 = (if unat p + 8000 < 2 ^ 32 then unat p + 8000 else unat p + 8000 - 2 ^ 32)"
    using unsigned_less [of p, where ?'a = nat] by (simp add: le_mod_geq)
  ultimately show ?thesis by (auto simp: word_less_nat_alt)
qed

text \<open>C22. Whatever the button driver reported before, the event that resets the device to its factory state is posted only for a
  holding report, after three clicks with no other click since, when the last press lies more than eight seconds back. This press came
  within two seconds after the three clicks, or, when none was reported after them, is the last one before them. The eight seconds are
  compared in the 32-bit millisecond counter: for a press in the last eight seconds before its overflow every time up to the
  overflow counts as more than eight seconds. After the event the next holding report posts nothing. The sequence
  of three clicks, a press within two seconds and a holding report after eight more does post the event.\<close>

theorem factory_reset_sequence:
  assumes "button_run ESP_OK es button_start = Inr (st, as)" "button_handler ESP_OK evt ts st = Inr (st', bs)"
  shows "(EM_BUTTON_3X_SHORT_1X_VERY_LONG_CLICK_EVENT \<in> set bs \<longrightarrow>
      evt = BUTTON_LONG_PRESS_HOLD \<and>
      (let p = last_press es 0 in
       (if unat p + 8000 < 2 ^ 32 then unat p + 8000 < unat ts else unat p + 8000 < unat ts + 2 ^ 32) \<and>
       (\<exists>pre t0 rest. es = pre @ (BUTTON_MULTIPLE_CLICK, t0) # rest \<and> keeps_sequence t0 rest \<and>
          (if \<exists>t. (BUTTON_PRESS_DOWN, t) \<in> set rest then p - t0 \<le> BREAK_TIME_MAX_MS else p = last_press pre 0))) \<and>
      (\<forall>ts'. button_handler ESP_OK BUTTON_LONG_PRESS_HOLD ts' st' = Inr (st', []))) \<and>
    (t1 - t0 \<le> BREAK_TIME_MAX_MS \<and> unat t1 + 8000 < unat t3 \<longrightarrow>
      (\<exists>st'' cs. button_run ESP_OK [(BUTTON_MULTIPLE_CLICK, t0), (BUTTON_PRESS_DOWN, t1), (BUTTON_LONG_PRESS_START, t2),
         (BUTTON_LONG_PRESS_HOLD, t3)] st = Inr (st'', cs) \<and> last cs = EM_BUTTON_3X_SHORT_1X_VERY_LONG_CLICK_EVENT))"
proof (intro conjI impI)
  assume "EM_BUTTON_3X_SHORT_1X_VERY_LONG_CLICK_EVENT \<in> set bs"
  then have facts: "bt_evt_previous st = BUTTON_MULTIPLE_CLICK" "evt = BUTTON_LONG_PRESS_HOLD"
    "bt_ts_pressed st + VERY_LONG_PRESS_TIME_MS < ts" "bt_evt_previous st' = BUTTON_LONG_PRESS_HOLD"
    using button_step_facts(3,4) [OF assms(2)] by blast+
  have run: "bt_ts_pressed st = last_press es 0"
    "\<exists>pre rest. es = pre @ (BUTTON_MULTIPLE_CLICK, bt_ts_break st) # rest \<and> keeps_sequence (bt_ts_break st) rest"
    using button_run_facts [OF assms(1)] facts(1) by auto
  show "evt = BUTTON_LONG_PRESS_HOLD" by (rule facts(2))
  show "let p = last_press es 0 in
       (if unat p + 8000 < 2 ^ 32 then unat p + 8000 < unat ts else unat p + 8000 < unat ts + 2 ^ 32) \<and>
       (\<exists>pre t0 rest. es = pre @ (BUTTON_MULTIPLE_CLICK, t0) # rest \<and> keeps_sequence t0 rest \<and>
          (if \<exists>t. (BUTTON_PRESS_DOWN, t) \<in> set rest then p - t0 \<le> BREAK_TIME_MAX_MS else p = last_press pre 0))"
    unfolding Let_def
    using facts(3) [unfolded held_long_enough run(1)] run(2) last_press_kept by blast
  show "\<forall>ts'. button_handler ESP_OK BUTTON_LONG_PRESS_HOLD ts' st' = Inr (st', [])"
    using facts(4) by (simp add: button_handler_def Let_def)
next
  assume a: "t1 - t0 \<le> BREAK_TIME_MAX_MS \<and> unat t1 + 8000 < unat t3"
  then have "t1 + VERY_LONG_PRESS_TIME_MS < t3" using held_long_enough [of t1 t3] unsigned_less [of t3, where ?'a = nat] by auto
  with a show "\<exists>st'' cs. button_run ESP_OK [(BUTTON_MULTIPLE_CLICK, t0), (BUTTON_PRESS_DOWN, t1), (BUTTON_LONG_PRESS_START, t2),
      (BUTTON_LONG_PRESS_HOLD, t3)] st = Inr (st'', cs) \<and> last cs = EM_BUTTON_3X_SHORT_1X_VERY_LONG_CLICK_EVENT"
    by (simp add: button_handler_def post_button_def Let_def not_less)
qed

theorem factory_reset_sequence_witness:
  "\<exists>st as bs st'. button_run ESP_OK [(BUTTON_MULTIPLE_CLICK, 100), (BUTTON_PRESS_DOWN, 600), (BUTTON_LONG_PRESS_START, 3600)] button_start =
      Inr (st, as) \<and> button_handler ESP_OK BUTTON_LONG_PRESS_HOLD 8601 st = Inr (st', bs) \<and>
    button_handler ESP_OK BUTTON_LONG_PRESS_HOLD 8621 st' = Inr (st', [])"
proof -
  obtain st as where st: "button_run ESP_OK [(BUTTON_MULTIPLE_CLICK, 100), (BUTTON_PRESS_DOWN, 600), (BUTTON_LONG_PRESS_START, 3600)] button_start =
      Inr (st, as)" and s: "st = \<lparr>bt_evt_previous = BUTTON_MULTIPLE_CLICK, bt_ts_pressed = 600, bt_ts_break = 100\<rparr>"
    by (simp add: button_handler_def post_button_def Let_def button_start_def)
  obtain st' bs where h: "button_handler ESP_OK BUTTON_LONG_PRESS_HOLD 8601 st = Inr (st', bs)"
    and "EM_BUTTON_3X_SHORT_1X_VERY_LONG_CLICK_EVENT \<in> set bs"
    by (auto simp: s button_handler_def post_button_def Let_def)
  with factory_reset_sequence [OF st h] st show ?thesis by blast
qed

end
