(* ===== verification/EM_Compile_Time.thy ===== *)
theory EM_Compile_Time
  imports EM_Utils EM_Cscan
begin

section \<open>The compile time (em_utils_get_compile_time of em_utils/time.c)\<close>

text \<open>
  The texts of \<open>__DATE__\<close> (\<open>Mmm dd yyyy\<close>) and \<open>__TIME__\<close> (\<open>hh:mm:ss\<close>) are parsed to a
  \<open>struct tm\<close>, which \<open>mktime\<close>, a parameter, turns into seconds. The firmware compares measurement times
  with the result and reports it to the server.
\<close>

record tm_t =
  tm_sec :: int
  tm_min :: int
  tm_hour :: int
  tm_mday :: int
  tm_mon :: int
  tm_year :: int

definition months :: bytes where
  "months = map (\<lambda>c. word_of_nat (of_char c)) ''JanFebMarAprMayJunJulAugSepOctNovDec''"

text \<open>The offset of the first occurrence, \<open>None\<close> for \<open>NULL\<close>.\<close>

fun c_strstr :: "bytes \<Rightarrow> bytes \<Rightarrow> nat option" where
  "c_strstr [] needle = (if needle = [] then Some 0 else None)"
| "c_strstr (b # bs) needle =
     (if take (length needle) (b # bs) = needle then Some 0 else map_option Suc (c_strstr bs needle))"

text \<open>\<open>%d:%d:%d\<close>: a field that does not match leaves the rest at zero.\<close>

fun colon_fields :: "nat \<Rightarrow> bytes \<Rightarrow> int list outcome" where
  "colon_fields 0 s = Inr []"
| "colon_fields (Suc n) s =
     (case scan_item dec_next None I_start (dropWhile c_space s) of (item, q, rest) \<Rightarrow>
        if int_accept q
        then obind (conv_value (Sc_d None) (item_int 10 item)) (\<lambda>i.
          if rest \<noteq> [] \<and> hd rest = 58 then obind (colon_fields n (tl rest)) (\<lambda>is. Inr (i # is)) else Inr [i])
        else Inr [])"

definition nth_or_zero :: "int list \<Rightarrow> nat \<Rightarrow> int" where
  "nth_or_zero is i = (if i < length is then is ! i else 0)"

definition scan_int :: "scan_val \<Rightarrow> int" where
  "scan_int v = (case v of V_i i \<Rightarrow> i | V_f item \<Rightarrow> 0)"

definition em_utils_get_compile_time :: "(tm_t \<Rightarrow> int) \<Rightarrow> bytes \<Rightarrow> bytes \<Rightarrow> int outcome" where
  "em_utils_get_compile_time mktime date time =
     obind (c_string date) (\<lambda>s.
       let s = dropWhile c_space s; month_str = take 3 (takeWhile (\<lambda>b. \<not> c_space b) s) in
       if month_str = [] then Inl Undefined
       else
         obind (scan_fields [Sc_d None, Sc_d None] (drop (length month_str) s)) (\<lambda>vs.
           let is = map scan_int vs in
           case c_strstr months month_str of
             None \<Rightarrow> Inl Undefined
           | Some offset \<Rightarrow>
               obind (c_string time) (\<lambda>t.
               obind (colon_fields 3 t) (\<lambda>hms.
                 Inr (mktime \<lparr>tm_sec = nth_or_zero hms 2, tm_min = nth_or_zero hms 1, tm_hour = nth_or_zero hms 0,
                   tm_mday = nth_or_zero is 0, tm_mon = int (offset div 3), tm_year = nth_or_zero is 1 - 1970\<rparr>)))))"

subsection \<open>What the compiler writes\<close>

definition month_name :: "nat \<Rightarrow> bytes" where
  "month_name m = take 3 (drop (3 * m) months)"

definition date_text :: "nat \<Rightarrow> bytes \<Rightarrow> bytes \<Rightarrow> bytes" where
  "date_text m day year = month_name m @ [32] @ replicate (2 - length day) 32 @ day @ [32] @ year @ [0]"

definition time_text :: "bytes \<Rightarrow> bytes \<Rightarrow> bytes \<Rightarrow> bytes" where
  "time_text h mi s = h @ [58] @ mi @ [58] @ s @ [0]"

definition digits_text :: "bytes \<Rightarrow> bool" where
  "digits_text ds \<longleftrightarrow> list_all c_digit ds \<and> ds \<noteq> [] \<and> length ds \<le> 9"

lemma digits_value:
  assumes "digits_text ds"
  shows "conv_value (Sc_d w) (item_int 10 ds) = Inr (int (text_value 10 ds))"
proof -
  have "text_value 10 ds < 10 ^ length ds" using assms by (intro text_value_bound) (simp add: digits_text_def)
  also have "(10 :: nat) ^ length ds \<le> 10 ^ 9" using assms by (intro power_increasing) (simp_all add: digits_text_def)
  finally show ?thesis using assms by (simp add: digits_text_def item_int_digits)
qed

lemma digits_blanks:
  assumes "digits_text ds"
  shows "dropWhile c_space (replicate n 32 @ ds @ r) = ds @ r"
proof -
  obtain d ds' where "ds = d # ds'" "\<not> c_space d" using assms by (cases ds) (auto simp: digits_text_def)
  moreover have "c_space 32" by (simp add: c_space_def)
  ultimately show ?thesis by (induction n) simp_all
qed

lemma scan_two:
  assumes "digits_text d" "digits_text y"
  shows "scan_fields [Sc_d None, Sc_d None] (32 # replicate n 32 @ d @ 32 # y) =
    Inr [V_i (int (text_value 10 d)), V_i (int (text_value 10 y))]"
proof -
  have b: "\<not> c_digit 32" by (simp add: c_digit_def)
  have "dropWhile c_space (32 # replicate n 32 @ d @ 32 # y) = d @ 32 # y"
    using digits_blanks [OF assms(1), of "Suc n" "32 # y"] by simp
  moreover have "dropWhile c_space (32 # y) = y" using digits_blanks [OF assms(2), of 1 "[]"] by simp
  ultimately show ?thesis
    using assms scan_int_digits(1) [of d 32 y] scan_int_digits(2) [of y 32] digits_value b
    by (simp add: digits_text_def int_accept_def)
qed

lemma colon_step:
  assumes "digits_text d"
  shows "colon_fields (Suc n) (d @ 58 # s) = obind (colon_fields n s) (\<lambda>is. Inr (int (text_value 10 d) # is))"
    "colon_fields (Suc n) d = Inr [int (text_value 10 d)]"
proof -
  have b: "\<not> c_digit 58" by (simp add: c_digit_def)
  have "dropWhile c_space (d @ r) = d @ r" for r using digits_blanks [OF assms, of 0 r] by simp
  from this [of "58 # s"] this [of "[]"] show "colon_fields (Suc n) (d @ 58 # s) = obind (colon_fields n s) (\<lambda>is. Inr (int (text_value 10 d) # is))"
    "colon_fields (Suc n) d = Inr [int (text_value 10 d)]"
    using assms scan_int_digits(1) [of d 58 s] scan_int_digits(2) [of d 58] digits_value [OF assms] b
    by (simp_all add: digits_text_def int_accept_def)
qed

lemma month_facts:
  assumes "m < 12"
  shows "length (month_name m) = 3" "list_all (\<lambda>b. \<not> c_space b \<and> b \<noteq> 0) (month_name m)"
    "c_strstr months (month_name m) = Some (3 * m)"
proof -
  have "\<forall>m \<in> set [0..<12]. length (month_name m) = 3 \<and> list_all (\<lambda>b. \<not> c_space b \<and> b \<noteq> 0) (month_name m) \<and>
      c_strstr months (month_name m) = Some (3 * m)"
    by code_simp
  then show "length (month_name m) = 3" "list_all (\<lambda>b. \<not> c_space b \<and> b \<noteq> 0) (month_name m)"
    "c_strstr months (month_name m) = Some (3 * m)" using assms by auto
qed

lemma c_string_terminated: "0 \<notin> set s \<Longrightarrow> c_string (s @ [0]) = Inr s"
  by (simp add: c_string_def takeWhile_tail takeWhile_eq_all_conv takeWhile_append)

text \<open>For every build date and time the fields are those of the text, but the year counts from 1970, where \<open>mktime\<close> counts
  from 1900: the compile time is the time of the same day seventy years earlier.\<close>

lemma compile_time_fields:
  assumes "m < 12" "digits_text d" "digits_text y" "digits_text h" "digits_text mi" "digits_text s"
  shows "em_utils_get_compile_time mktime (date_text m d y) (time_text h mi s) =
    Inr (mktime \<lparr>tm_sec = int (text_value 10 s), tm_min = int (text_value 10 mi), tm_hour = int (text_value 10 h),
      tm_mday = int (text_value 10 d), tm_mon = int m, tm_year = (int (text_value 10 y) - 1900) - 70\<rparr>)"
proof -
  note mf = month_facts [OF assms(1)]
  let ?blanks = "replicate (2 - length d) 32"
  have nz: "0 \<notin> set ds" if "digits_text ds" for ds
    using that by (auto simp: digits_text_def list_all_iff dest: c_digit_not(3))
  have m0: "0 \<notin> set (month_name m)" using mf(2) by (auto simp: list_all_iff)
  have 1: "c_string (date_text m d y) = Inr (month_name m @ 32 # ?blanks @ d @ 32 # y)"
    using c_string_terminated [of "month_name m @ 32 # ?blanks @ d @ 32 # y"] nz [OF assms(2)] nz [OF assms(3)] m0
    by (simp add: date_text_def)
  have 2: "c_string (time_text h mi s) = Inr (h @ 58 # mi @ 58 # s)"
    using c_string_terminated [of "h @ 58 # mi @ 58 # s"] nz [OF assms(4)] nz [OF assms(5)] nz [OF assms(6)]
    by (simp add: time_text_def)
  have 3: "takeWhile (\<lambda>b. \<not> c_space b) (month_name m @ 32 # r) = month_name m" for r
    using mf(2) by (subst takeWhile_append2) (auto simp: list_all_iff c_space_def)
  have "month_name m \<noteq> []" using mf(1) by auto
  then have 4: "dropWhile c_space (month_name m @ r) = month_name m @ r" for r
    using mf(2) by (cases "month_name m") auto
  have 5: "colon_fields 3 (h @ 58 # mi @ 58 # s) =
      Inr [int (text_value 10 h), int (text_value 10 mi), int (text_value 10 s)]"
    using colon_step(1) [OF assms(4), of 2] colon_step(1) [OF assms(5), of 1] colon_step(2) [OF assms(6), of 0]
    by (simp add: eval_nat_numeral)
  show ?thesis
    using 1 2 3 4 5 scan_two [OF assms(2,3), of "2 - length d"] mf(1,3) \<open>month_name m \<noteq> []\<close>
    by (simp add: em_utils_get_compile_time_def Let_def nth_or_zero_def scan_int_def)
qed

end
