(* ===== verification/EM_Sys_Evt.thy ===== *)
theory EM_Sys_Evt
  imports EM_Dispatcher_Props EM_Button EM_Tcp_Client EM_Http_Ota
begin

section \<open>System events and the main task (main/modules/evt/sys_evt.c, main/main.c)\<close>

text \<open>
  The handlers of the events of the button, of the download and of the TCP client, the confirmation of a new image, and the
  runs of the whole application over messages and events. An event carries its data; the events of \<open>EM_Http_Ota\<close> and
  \<open>EM_Tcp_Client\<close> are those of their modules.
\<close>

record ('n, 'w) sys_env =
  se_app :: "('n, 'w) app_env"
  se_dev_id :: u64
  se_reset_reason :: u8

definition sys_factory_reset :: "('n, 'w) app_env \<Rightarrow> ('n, 'w) app \<Rightarrow> (('n, 'w) app \<times> app_event list) outcome" where
  "sys_factory_reset env app =
     obind (storage_set_factory_config (ae_nvs env) (ap_storage app)) (\<lambda>st.
     obind (em_wifi_factory_reset (ae_drv env) (wifi_of app)) (\<lambda>(w, evs).
       Inr (set_wifi w (app\<lparr>ap_storage := st\<rparr>), map (App_ble \<circ> Ble_wifi) evs @ [App_restart])))"

definition button_event_handler ::
  "('n, 'w) app_env \<Rightarrow> button_event_action_t \<Rightarrow> ('n, 'w) app \<Rightarrow> (('n, 'w) app \<times> app_event list) outcome" where
  "button_event_handler env ev app =
     (if ev = EM_BUTTON_3X_SHORT_1X_VERY_LONG_CLICK_EVENT then
        obind (protocol_send_status (ae_net env) MSGTYPE_FACTORY_RESET 0) (\<lambda>(ret, tx).
          Inr (app, [App_schedule Delayed_esp_factory_reset REBOOT_ON_MSG_DELAY_MS, App_tx tx]))
      else if ev = EM_BUTTON_2X_CLICK_EVENT then Inr (app, [])
      else if ev = EM_BUTTON_3X_CLICK_EVENT then
        if update_in_progress (ap_update app) then Inr (app, [])
        else obind (em_ble_prov_start (ae_ble env) 60000 (ap_ble app)) (\<lambda>(ret, ble, evs).
          c_assert (ret = ESP_OK) (Inr (app\<lparr>ap_ble := ble\<rparr>, map App_ble evs)))
      else Inr (app, []))"

text \<open>The data of a download event: the version of the new image, the progress and the error code.\<close>

definition http_ota_event_handler ::
  "('n, 'w) app_env \<Rightarrow> em_http_ota_event_t \<Rightarrow> bytes \<Rightarrow> u8 \<Rightarrow> ('n, 'w) app \<Rightarrow> (('n, 'w) app \<times> app_event list) outcome" where
  "http_ota_event_handler env ev version data app =
     (let net = ae_net env; ver = ae_version env; us = ap_update app;
          done = (\<lambda>r. obind r (\<lambda>(us, evs). Inr (app\<lparr>ap_update := us\<rparr>, map App_update evs))) in
      case ev of
        OTA_EVENT_BEGIN \<Rightarrow> Inr (app, [])
      | OTA_EVENT_VALIDATED \<Rightarrow> done (update_started_handler net ver version us)
      | OTA_EVENT_TRANSFER \<Rightarrow> done (update_new_progress_handler net ver data us)
      | OTA_EVENT_DOWNLOADED \<Rightarrow> done (update_downloaded_handler net ver us)
      | OTA_EVENT_VERIFIED \<Rightarrow> done (update_ready_handler net ver us)
      | OTA_EVENT_FINISHED \<Rightarrow> done (Inr (update_apply 0 us))
      | OTA_EVENT_ABORT \<Rightarrow> done (update_error_handler net ver data us))"

definition tcp_client_event_handler ::
  "('n, 'w) sys_env \<Rightarrow> em_evt_tcp_client_t \<Rightarrow> int \<Rightarrow> ('n, 'w) app \<Rightarrow> (('n, 'w) app \<times> app_event list) outcome" where
  "tcp_client_event_handler senv ev err_code app =
     (let env = se_app senv in
      case ev of
        EVENT_ONLINE \<Rightarrow>
          let unique_id = dev_unique_id (storage_device (ap_storage app));
              unique_id = (if unique_id = 0xFFFFFFFF then 0 else unique_id) in
          obind (update_numeric_fw_ver (ae_version env)) (\<lambda>v.
          obind (protocol_send_client_info (ae_net env) unique_id (se_dev_id senv) em_utils_hw_ver v 0 (ucast em_utils_dev_type)
              (em_wifi_local_ip_addr (ae_ip env)) (se_reset_reason senv) (ucast (ae_random env))) (\<lambda>(ret, tx).
            Inr (app, [App_register_tx True, App_tx tx])))
      | EVENT_OFFLINE \<Rightarrow> Inr (app, [App_register_tx False])
      | EVENT_TX_STATUS \<Rightarrow>
          obind (coredump_on_data_sent_callback (ae_coredump env) (err_code = 0) (ap_coredump app)) (\<lambda>(ret, cd, evs).
            Inr (app\<lparr>ap_coredump := cd\<rparr>, map App_coredump evs))
      | _ \<Rightarrow> Inr (app, []))"

subsection \<open>The confirmation of a new image (main.c)\<close>

datatype confirm_result = Confirm_none | Confirm_valid "app_event list" | Confirm_failed "app_event list" | Confirm_rollback int

text \<open>\<open>pending_verify\<close>: the image waits for its confirmation; \<open>auth\<close>: the bit \<open>TCP_AUTH_EVT_BIT\<close> was set within
  the time; then the results of the two calls of the library.\<close>

definition app_confirm_wait ::
  "('n, 'w) app_env \<Rightarrow> int \<Rightarrow> bool \<Rightarrow> bool \<Rightarrow> int \<Rightarrow> int \<Rightarrow> ('n, 'w) app \<Rightarrow> (('n, 'w) app \<times> confirm_result) outcome" where
  "app_confirm_wait env state_err pending_verify auth mark_valid rollback app =
     c_assert (state_err = ESP_OK)
      (if \<not> pending_verify then Inr (app, Confirm_none)
       else if auth then
         if mark_valid \<noteq> 0 then
           obind (update_error_handler (ae_net env) (ae_version env) 7 (ap_update app)) (\<lambda>(us, evs).
             Inr (app\<lparr>ap_update := us\<rparr>, Confirm_failed (map App_update evs)))
         else
           obind (update_send_installed_fw (ae_net env) (ae_version env) (ae_compile_time env) (ap_update app)) (\<lambda>evs.
             Inr (app, Confirm_valid (map App_update evs)))
       else Inr (app, Confirm_rollback rollback))"

definition app_shutdown_handlers ::
  "('n, 'w) app_env \<Rightarrow> 'd tcp_client \<Rightarrow> ('n, 'w) app \<Rightarrow> (('n, 'w) app \<times> 'd tcp_client \<times> 'e tcp_event list) outcome" where
  "app_shutdown_handlers env tcp app =
     obind (storage_force_dump_panic (ae_nvs env) (ap_storage app)) (\<lambda>st.
       let (tcp, evs) = em_tcp_client_disconnect_panic tcp in
       Inr (set_wifi (em_wifi_stop_reconnecting (wifi_of app)) (app\<lparr>ap_storage := st\<rparr>), tcp, evs))"

definition app_confirm_handler :: "app_event list" where
  "app_confirm_handler = [App_confirm]"

subsection \<open>Runs of the application\<close>

datatype app_op =
    A_message bytes
  | A_button button_event_action_t
  | A_ota em_http_ota_event_t bytes u8
  | A_tcp em_evt_tcp_client_t int
  | A_authenticated

fun app_step :: "('n, 'w) sys_env \<Rightarrow> app_op \<Rightarrow> ('n, 'w) app \<Rightarrow> (('n, 'w) app \<times> app_event list) outcome" where
  "app_step senv (A_message data) app =
     obind (device_receive (se_app senv) data app) (\<lambda>(app, evs, rx). Inr (app, evs))"
| "app_step senv (A_button ev) app = button_event_handler (se_app senv) ev app"
| "app_step senv (A_ota ev version data) app = http_ota_event_handler (se_app senv) ev version data app"
| "app_step senv (A_tcp ev err) app = tcp_client_event_handler senv ev err app"
| "app_step senv A_authenticated app = authentication_delayed_handler (se_app senv) app"

fun app_run :: "('n, 'w) sys_env \<Rightarrow> app_op list \<Rightarrow> ('n, 'w) app \<Rightarrow> (('n, 'w) app \<times> app_event list) outcome" where
  "app_run senv [] app = Inr (app, [])"
| "app_run senv (op # ops) app =
     obind (app_step senv op app) (\<lambda>(app, evs). obind (app_run senv ops app) (\<lambda>(app, evs'). Inr (app, evs @ evs')))"

end
