(* ===== verification/EM_Sys_Props.thy ===== *)
theory EM_Sys_Props
  imports EM_Sys_Evt
begin

section \<open>Runs of the whole application\<close>

text \<open>
  The application as a whole: over every sequence of messages and events it keeps the invariants of its modules, and only a
  message or an image version that is named here brings it down. A run that has started an update never finds its way back to
  the idle phase.
\<close>

text \<open>What the library of core dumps answers: no dump, a damaged one that it erases, or an intact one.\<close>

definition cd_env_ok :: "cd_env \<Rightarrow> bool" where
  "cd_env_ok cd \<longleftrightarrow>
     cd_image_check cd = ESP_ERR_NOT_FOUND \<or>
     cd_image_check cd \<in> {ESP_ERR_INVALID_SIZE, ESP_ERR_INVALID_CRC} \<and> cd_image_erase cd = ESP_OK \<or>
     (\<exists>addr img. image_in_flash cd addr img)"

definition sys_ok ::
  "('n, 'w) sys_env \<Rightarrow> ('n \<Rightarrow> nvs_view) \<Rightarrow> ('n \<Rightarrow> nvs_view) \<Rightarrow> (nat \<Rightarrow> bool) \<Rightarrow> ('w \<Rightarrow> bytes \<times> bytes) \<Rightarrow> bool" where
  "sys_ok senv view pers valid conf \<longleftrightarrow>
     (let env = se_app senv; b = ae_ble env in
      app_env_ok env view pers valid conf \<and>
      be_port_init b = 0 \<and> be_count_cfg b = 0 \<and> be_add_svcs b = 0 \<and> be_name_set b = 0 \<and> cd_env_ok (ae_coredump env))"

text \<open>A transfer that runs is a state of the transfer of the dump in the flash.\<close>

definition cd_inv :: "net_env \<Rightarrow> cd_env \<Rightarrow> coredump_s \<Rightarrow> bool" where
  "cd_inv net env cd \<longleftrightarrow>
     (cd_ready cd \<longrightarrow>
      (\<exists>ver addr img m. image_in_flash env addr img \<and> m \<le> cd_blocks img \<and> cd = cd_at net ver addr img m))"

definition device_inv ::
  "('n, 'w) sys_env \<Rightarrow> ('n \<Rightarrow> nvs_view) \<Rightarrow> ('w \<Rightarrow> bytes \<times> bytes) \<Rightarrow> ('n, 'w) app \<Rightarrow> bool" where
  "device_inv senv view conf app \<longleftrightarrow>
     app_ok view conf app \<and> cd_inv (ae_net (se_app senv)) (ae_coredump (se_app senv)) (ap_coredump app)"

fun op_bad :: "('n, 'w) sys_env \<Rightarrow> app_op \<Rightarrow> bool" where
  "op_bad senv (A_message data) \<longleftrightarrow> remote_bad (se_app senv) data"
| "op_bad senv (A_ota ev version data) \<longleftrightarrow> ev = OTA_EVENT_VALIDATED \<and> isl (get_fw_version_string version)"
| "op_bad senv op \<longleftrightarrow> False"

text \<open>What the handlers of messages leave alone.\<close>

lemma obind_frame: "obind r f = Inr y \<Longrightarrow> (\<And>a. r = Inr a \<Longrightarrow> f a = Inr y \<Longrightarrow> P) \<Longrightarrow> P"
  by (auto simp: obind_Inr_iff)

lemma app_send_frame: "app_send r app = Inr (ret, app', evs) \<Longrightarrow> app' = app"
  by (auto simp: app_send_def obind_Inr_iff)

lemma update_sends_frame: "update_sends r app = Inr (ret, app', evs) \<Longrightarrow> app' = app"
  by (auto simp: update_sends_def obind_Inr_iff)

lemma if_send_frame: "(if c then Inr (e, app, []) else app_send r app) = Inr (ret, app', evs) \<Longrightarrow> app' = app"
  by (cases c) (auto dest: app_send_frame)

lemma get_wireless_frame:
  assumes "get_wireless env rq app = Some (Inr (ret, app', evs))"
  shows "app' = app"
proof -
  consider "rq = MSGTYPE_WIRELESS_STATUS" | "rq = MSGTYPE_WIRELESS_CREDENTIALS" | "rq = MSGTYPE_WIRELESS_TX_POWER"
    | "rq = MSGTYPE_WIRELESS_CHANNEL"
    using assms by (auto simp: get_wireless_def Let_def split: if_splits)
  then show ?thesis
  proof cases
    case 2
    then obtain x where "(case x of (err, ssid) \<Rightarrow> if err \<noteq> ESP_OK then Inr (ESP_FAIL, app, [])
        else app_send (protocol_send_wireless_credentials (ae_net env) PROTOCOL_WIFI ssid [0]) app) = Inr (ret, app', evs)"
      using assms by (auto simp: get_wireless_def Let_def obind_Inr_iff simp del: split_paired_Ex)
    then show ?thesis by (cases x) (simp add: if_send_frame)
  qed (use assms in \<open>simp add: get_wireless_def Let_def split_beta if_send_frame\<close>)+
qed

lemma get_frame:
  assumes "get_handler env m app = Inr (ret, app', evs)"
  shows "app' = app"
proof (cases "get_wireless env (get_rq_type m) app")
  case None
  then show ?thesis using assms
    by (auto simp: get_handler_def Let_def split: if_splits dest: app_send_frame update_sends_frame)
next
  case (Some r)
  then show ?thesis using assms get_wireless_frame [of env "get_rq_type m" app]
    by (auto simp: get_handler_def Let_def split: if_splits dest: update_sends_frame)
qed

lemma set_new_fw_url_phase: "set_new_fw_url u n us = Inr (ok, us') \<Longrightarrow> us_phase us' = us_phase us"
  unfolding set_new_fw_url_def by (simp split: if_split_asm, auto)

lemma start_url_phase:
  assumes "obind (set_new_fw_url url n us) (\<lambda>(ok, us). if \<not> ok then Inr (e, us\<lparr>us_error := e\<rparr>, [])
      else let us = us\<lparr>us_new_fw_ver := fw, us_policy := pol\<rparr> in
        if start \<noteq> ESP_OK then Inr (f, us\<lparr>us_error := f\<rparr>, [Ev_ota_start (us_url us)])
        else Inr (g, us\<lparr>us_error := g\<rparr>, [Ev_ota_start (us_url us)])) = Inr (r, us', evs)"
  shows "us_phase us' = us_phase us"
proof (cases "set_new_fw_url url n us")
  case (Inr x)
  then obtain ok us1 where x: "set_new_fw_url url n us = Inr (ok, us1)" by (cases x) simp
  from set_new_fw_url_phase [OF this] show ?thesis
    using assms x by (cases ok; cases "start = ESP_OK") (auto simp: Let_def)
qed (use assms in simp)

lemma update_start_phase:
  assumes "update_start start app dt fw hw url n pol us = Inr (r, us', evs)"
  shows "us_phase us' = us_phase us"
proof (cases "update_numeric_fw_ver app")
  case (Inr v)
  then show ?thesis
    using assms unfolding update_start_def
    by (cases "dt = ucast em_utils_dev_type"; cases "hw = em_utils_hw_ver"; cases "fw = v") (auto dest!: start_url_phase)
next
  case (Inl f)
  then show ?thesis
    using assms unfolding update_start_def
    by (cases "dt = ucast em_utils_dev_type"; cases "hw = em_utils_hw_ver") auto
qed

lemma dispatcher_frame:
  assumes "dispatcher_handler env ty x app = Inr (ret, app', evs)"
  shows "ap_coredump app' = ap_coredump app \<and>
    (us_phase (ap_update app') = us_phase (ap_update app) \<or> us_phase (ap_update app') = UPDATE_PHASE_APPLY)"
proof (cases "mapper_loop mapper ty")
  case None
  then show ?thesis using assms by (simp add: dispatcher_handler_def)
next
  case (Some cb)
  then have r: "run_cb env cb x app = Inr (ret, app', evs)" using assms by (simp add: dispatcher_handler_def)
  have u: "\<And>u ap ap' e. set_unique_id env u ap = Inr (ap', e) \<Longrightarrow> ap_coredump ap' = ap_coredump ap \<and> ap_update ap' = ap_update ap"
    by (auto simp: EM_Dispatcher.set_unique_id_def obind_Inr_iff)
  show ?thesis
  proof (cases cb)
    case Connection_status_handler
    then show ?thesis using r
      by (cases x) (auto simp: run_cb_def connection_status_handler_def obind_Inr_iff Let_def dest!: u)
  next
    case Led_evt_identify_msg_handler
    then show ?thesis using r by (cases x) (auto simp: run_cb_def identify_handler_def obind_Inr_iff)
  next
    case Update_start_handler
    then show ?thesis using r
      by (cases x) (auto simp: run_cb_def update_start_handler_def obind_Inr_iff dest!: update_start_phase)
  next
    case Update_apply_handler
    then show ?thesis using r
      by (cases x) (auto simp: run_cb_def update_apply_handler_def update_apply_def Let_def split: if_splits)
  next
    case Wireless_enable_handle
    then show ?thesis using r
      by (cases x) (auto simp: run_cb_def wireless_enable_handle_def obind_Inr_iff split: if_splits)
  next
    case Wireless_set_credentials_handle
    then show ?thesis using r
      by (cases x) (auto simp: run_cb_def wireless_set_credentials_handle_def set_wifi_def obind_Inr_iff split: if_splits)
  next
    case Wireless_set_tx_power_handle
    then show ?thesis using r
      by (cases x) (auto simp: run_cb_def wireless_set_tx_power_handle_def Let_def split: if_splits)
  next
    case Wireless_set_channel_handle
    then show ?thesis using r
      by (cases x) (auto simp: run_cb_def wireless_set_channel_handle_def split: if_splits)
  next
    case Environment_set_position_handler
    then show ?thesis using r
      by (cases x) (auto simp: run_cb_def environment_set_position_handler_def obind_Inr_iff split: if_splits)
  next
    case Status_handler
    then show ?thesis using r
      by (cases x) (auto simp: run_cb_def status_handler_def obind_Inr_iff split: if_splits dest!: u)
  next
    case Get_handler
    then show ?thesis using r by (cases x) (auto simp: run_cb_def dest!: get_frame)
  qed (use r in \<open>auto simp: run_cb_def reboot_handler_def factory_reset_handler_def environment_cloud_cover_handler_def
      coredump_confirmed_handler_def split_beta\<close>)
qed

lemma device_receive_frame:
  assumes "device_receive env data app = Inr (app', evs, rx)"
  shows "ap_coredump app' = ap_coredump app \<and>
    (us_phase (ap_update app') = us_phase (ap_update app) \<or> us_phase (ap_update app') = UPDATE_PHASE_APPLY)"
proof -
  obtain ret ty m where p: "parse_message data (length data) = Inr (ret, ty, m)"
    using assms by (auto simp: device_receive_def obind_Inr_iff)
  show ?thesis
  proof (cases m)
    case None
    then show ?thesis using assms p by (simp add: device_receive_def)
  next
    case (Some x)
    then obtain ret' evs' where "dispatcher_handler env ty x app = Inr (ret', app', evs')"
      using assms p by (auto simp: device_receive_def obind_Inr_iff)
    then show ?thesis by (rule dispatcher_frame)
  qed
qed

subsection \<open>Survival of the whole application\<close>

lemma cd_start_inv:
  assumes "net_ok net" "cd_env_ok env" "cd_inv net env cd"
  shows "\<exists>ret cd' evs. coredump_start env (firmware_coredump_api net) cd = Inr (ret, cd', evs) \<and> cd_inv net env cd'"
proof (cases "\<exists>addr img. image_in_flash env addr img")
  case True
  then obtain addr img where im: "image_in_flash env addr img" by blast
  then show ?thesis using coredump_start_image [OF assms(1) im, of cd] by (fastforce simp: cd_inv_def)
next
  case False
  then show ?thesis
    using assms(2,3) by (auto simp: cd_env_ok_def coredump_start_def is_coredump_present_def)
qed

lemma cd_report_inv:
  assumes "net_ok net" "cd_inv net env cd"
  shows "\<exists>ret cd' evs. coredump_on_data_sent_callback env success cd = Inr (ret, cd', evs) \<and> cd_inv net env cd'"
proof (cases "cd_ready cd \<and> success \<and> cd_size_left cd \<noteq> 0")
  case True
  then obtain ver addr img m where cd: "image_in_flash env addr img" "m \<le> cd_blocks img" "cd = cd_at net ver addr img m"
    using assms(2) by (auto simp: cd_inv_def)
  have "m \<noteq> cd_blocks img"
    using True cd(3) cd_blocks_less [of m img] by (auto simp: cd_at_def Let_def)
  then have "m < cd_blocks img" using cd(2) by simp
  from cd_report_block [OF assms(1) cd(1) this, of ver] True cd show ?thesis
    by (fastforce simp: cd_inv_def intro: exI [of _ "Suc m"] Suc_leI [OF \<open>m < cd_blocks img\<close>])
next
  case False
  then show ?thesis using assms(2) by (auto simp: coredump_on_data_sent_callback_def cd_inv_def)
qed

lemma prov_start_ok:
  assumes "be_port_init env = 0" "be_count_cfg env = 0" "be_add_svcs env = 0" "be_name_set env = 0"
  shows "\<exists>ble' evs. em_ble_prov_start env d ble = Inr (ESP_OK, ble', evs) \<and> bl_wifi ble' = bl_wifi ble"
  using assms by (simp add: em_ble_prov_start_def em_ble_init_def gatt_svr_init_def Let_def)

lemma update_handlers_ok:
  assumes "app_env_ok env view pers valid conf"
  shows "\<exists>x. update_error_handler (ae_net env) (ae_version env) c us = Inr x"
    and "\<exists>x. update_new_progress_handler (ae_net env) (ae_version env) c us = Inr x"
    and "\<exists>x. update_downloaded_handler (ae_net env) (ae_version env) us = Inr x"
    and "\<exists>x. update_ready_handler (ae_net env) (ae_version env) us = Inr x"
    and "(\<exists>f. update_started_handler (ae_net env) (ae_version env) version us = Inl f) \<longleftrightarrow> isl (get_fw_version_string version)"
proof -
  have st: "\<exists>evs. send_update_status (ae_net env) (ae_version env) us = Inr evs" for us
    by (rule update_status_ok(1) [OF assms])
  show "\<exists>x. update_error_handler (ae_net env) (ae_version env) c us = Inr x"
    using st [of "us\<lparr>us_error := c\<rparr>"] by (auto simp: update_error_handler_def)
  show "\<exists>x. update_new_progress_handler (ae_net env) (ae_version env) c us = Inr x"
    using st [of "us\<lparr>us_progress := c, us_phase := UPDATE_PHASE_TRANSFER\<rparr>"] by (auto simp: update_new_progress_handler_def)
  show "\<exists>x. update_downloaded_handler (ae_net env) (ae_version env) us = Inr x"
    using st [of "us\<lparr>us_phase := UPDATE_PHASE_DOWNLOADED, us_progress := 100\<rparr>"] by (auto simp: update_downloaded_handler_def)
  show "\<exists>x. update_ready_handler (ae_net env) (ae_version env) us = Inr x"
    using st [of "us\<lparr>us_phase := UPDATE_PHASE_READY\<rparr>"] by (auto simp: update_ready_handler_def)
  show "(\<exists>f. update_started_handler (ae_net env) (ae_version env) version us = Inl f) \<longleftrightarrow> isl (get_fw_version_string version)"
  proof (cases "get_fw_version_string version")
    case (Inr v)
    then show ?thesis
      using st [of "us\<lparr>us_phase := UPDATE_PHASE_STARTED, us_new_fw_ver := v, us_progress := 0, us_error := UPDATE_ERROR_NONE\<rparr>"]
      by (auto simp: update_started_handler_def)
  qed (simp add: update_started_handler_def)
qed

definition step_ok ::
  "('n, 'w) sys_env \<Rightarrow> ('n \<Rightarrow> nvs_view) \<Rightarrow> ('w \<Rightarrow> bytes \<times> bytes) \<Rightarrow> bool \<Rightarrow> (('n, 'w) app \<times> app_event list) outcome \<Rightarrow> bool" where
  "step_ok senv view conf bad r \<longleftrightarrow>
     (if bad then \<exists>f. r = Inl f else \<exists>app evs. r = Inr (app, evs) \<and> device_inv senv view conf app)"

lemma step_ok_Inr [simp]: "step_ok senv view conf False (Inr (app, evs)) \<longleftrightarrow> device_inv senv view conf app"
  by (simp add: step_ok_def)

lemma device_inv_frame:
  "device_inv senv view conf (app\<lparr>ap_update := us\<rparr>) = device_inv senv view conf app"
  "bl_wifi ble = bl_wifi (ap_ble app) \<Longrightarrow> device_inv senv view conf (app\<lparr>ap_ble := ble\<rparr>) = device_inv senv view conf app"
  by (simp_all add: device_inv_def app_ok_def wifi_of_def)

lemma button_event_ok:
  assumes "sys_ok senv view pers valid conf" "device_inv senv view conf app"
  shows "step_ok senv view conf False (button_event_handler (se_app senv) ev app)"
proof -
  let ?env = "se_app senv"
  have net: "net_ok (ae_net ?env)" using assms(1) by (simp add: sys_ok_def app_env_ok_def Let_def)
  obtain x where "protocol_send_status (ae_net ?env) MSGTYPE_FACTORY_RESET 0 = Inr x"
    using protocol_status_sends [OF net, of MSGTYPE_FACTORY_RESET 0] sends_Inr by blast
  then obtain ret tx where tx: "protocol_send_status (ae_net ?env) MSGTYPE_FACTORY_RESET 0 = Inr (ret, tx)" by (cases x) simp
  obtain ble evs where "em_ble_prov_start (ae_ble ?env) 60000 (ap_ble app) = Inr (ESP_OK, ble, evs)"
    "bl_wifi ble = bl_wifi (ap_ble app)"
    using prov_start_ok [of "ae_ble ?env" 60000 "ap_ble app"] assms(1) by (auto simp: sys_ok_def Let_def)
  with tx assms(2) show ?thesis by (simp add: button_event_handler_def device_inv_frame)
qed

lemma http_ota_event_ok:
  assumes "sys_ok senv view pers valid conf" "device_inv senv view conf app"
  shows "step_ok senv view conf (ev = OTA_EVENT_VALIDATED \<and> isl (get_fw_version_string version))
    (http_ota_event_handler (se_app senv) ev version data app)"
proof -
  have env: "app_env_ok (se_app senv) view pers valid conf" using assms(1) by (simp add: sys_ok_def Let_def)
  show ?thesis
    using update_handlers_ok(1) [OF env, of data "ap_update app"] update_handlers_ok(2) [OF env, of data "ap_update app"]
      update_handlers_ok(3) [OF env, of "ap_update app"] update_handlers_ok(4) [OF env, of "ap_update app"]
      update_handlers_ok(5) [OF env, of version "ap_update app"] assms(2)
    by (cases ev; cases "update_started_handler (ae_net (se_app senv)) (ae_version (se_app senv)) version (ap_update app)")
      (auto simp: http_ota_event_handler_def Let_def step_ok_def device_inv_frame split: prod.splits)
qed

lemma tcp_client_event_ok:
  assumes "sys_ok senv view pers valid conf" "device_inv senv view conf app"
  shows "step_ok senv view conf False (tcp_client_event_handler senv ev err app)"
proof -
  let ?env = "se_app senv"
  have net: "net_ok (ae_net ?env)" using assms(1) by (simp add: sys_ok_def app_env_ok_def Let_def)
  obtain v where v: "update_numeric_fw_ver (ae_version ?env) = Inr v"
    using assms(1) by (auto simp: sys_ok_def app_env_ok_def Let_def)
  obtain ret cd evs where "coredump_on_data_sent_callback (ae_coredump ?env) (err = 0) (ap_coredump app) = Inr (ret, cd, evs)"
    "cd_inv (ae_net ?env) (ae_coredump ?env) cd"
    using cd_report_inv [OF net] assms(2) by (force simp: device_inv_def)
  then show ?thesis
  proof (cases "ev = EVENT_ONLINE")
    case True
    let ?id = "dev_unique_id (storage_device (ap_storage app))"
    obtain x where "protocol_send_client_info (ae_net ?env) (if ?id = 0xFFFFFFFF then 0 else ?id) (se_dev_id senv) em_utils_hw_ver v 0
        (ucast em_utils_dev_type) (em_wifi_local_ip_addr (ae_ip ?env)) (se_reset_reason senv) (ucast (ae_random ?env)) = Inr x"
      using client_info_sends [OF net] sends_Inr by blast
    then show ?thesis
      using True v assms(2) by (cases x) (simp add: tcp_client_event_handler_def Let_def)
  qed (use assms(2) in \<open>cases ev; simp add: tcp_client_event_handler_def Let_def device_inv_def app_ok_def wifi_of_def\<close>)
qed

lemma app_step_ok:
  assumes "sys_ok senv view pers valid conf" "device_inv senv view conf app"
  shows "step_ok senv view conf (op_bad senv op) (app_step senv op app)"
proof (cases op)
  case (A_message data)
  have env: "app_env_ok (se_app senv) view pers valid conf" and app: "app_ok view conf app"
    using assms by (simp_all add: sys_ok_def device_inv_def Let_def)
  show ?thesis
  proof (cases "remote_bad (se_app senv) data")
    case True
    then show ?thesis using device_receive_ok [OF env app, of data] A_message by (auto simp: step_ok_def)
  next
    case False
    then obtain app' evs rx where r: "device_receive (se_app senv) data app = Inr (app', evs, rx)" "app_ok view conf app'"
      using device_receive_ok [OF env app, of data] by auto
    then show ?thesis
      using device_receive_frame [OF r(1)] assms(2) False A_message by (simp add: device_inv_def)
  qed
next
  case A_authenticated
  obtain ret cd evs where "coredump_start (ae_coredump (se_app senv)) (firmware_coredump_api (ae_net (se_app senv)))
      (ap_coredump app) = Inr (ret, cd, evs)" "cd_inv (ae_net (se_app senv)) (ae_coredump (se_app senv)) cd"
    using cd_start_inv [of "ae_net (se_app senv)" "ae_coredump (se_app senv)" "ap_coredump app"] assms
    by (auto simp: sys_ok_def device_inv_def app_env_ok_def Let_def)
  then show ?thesis
    using assms(2) A_authenticated by (simp add: authentication_delayed_handler_def device_inv_def app_ok_def wifi_of_def)
qed (use assms button_event_ok http_ota_event_ok tcp_client_event_ok in simp_all)

interpretation app_runs: guarded_runs "app_step senv" "app_run senv"
    "\<lambda>app. sys_ok senv view pers valid conf \<and> device_inv senv view conf app" "op_bad senv" for senv view pers valid conf
  by unfold_locales (simp, simp, metis app_step_ok step_ok_def, metis app_step_ok step_ok_def)

text \<open>From every state of the application in which the invariants of its modules hold, it survives a sequence of
  received messages, button events, download events, connection events and delayed authentications, in any order, and keeps the
  invariants, exactly when no operation is one that \<open>op_bad\<close> names: a message of \<open>remote_bad\<close>, or a downloaded image
  whose version string cannot be read.\<close>

lemma app_survives_iff:
  assumes "sys_ok senv view pers valid conf" "device_inv senv view conf app"
  shows "if \<exists>op \<in> set ops. op_bad senv op then \<exists>f. app_run senv ops app = Inl f
    else \<exists>app' evs. app_run senv ops app = Inr (app', evs) \<and> device_inv senv view conf app'"
  using app_runs.run_iff [of senv view pers valid conf app ops] assms by (auto split: if_splits)

definition senv0 :: "(nvs_view \<times> nvs_view, bytes \<times> bytes) sys_env" where
  "senv0 = \<lparr>se_app = env0, se_dev_id = 0x0001010203040506, se_reset_reason = 1\<rparr>"

lemma env_2000_image: "image_in_flash env_2000 0x110000 (replicate 2000 1)"
proof -
  have "unat (word_of_nat off :: u32) = off" if "off + k \<le> 2000" for off k :: nat
    using that by (intro unat_word_of_nat) simp
  then show ?thesis by (auto simp: image_in_flash_def env_2000_def)
qed

lemma senv0_ok: "sys_ok senv0 fst snd (\<lambda>h. h = 1) (\<lambda>s. s)"
  using env0_ok env_2000_image by (auto simp: sys_ok_def senv0_def env0_def ble_env0_def cd_env_ok_def)

lemma app0_inv: "device_inv senv0 fst (\<lambda>s. s) app0"
  using app0_ok by (simp add: device_inv_def cd_inv_def app0_def coredump_zero_def)

subsection \<open>The phase of the update\<close>

lemma app_step_phase:
  assumes "app_step senv op app = Inr (app', evs)" "update_in_progress (ap_update app)"
  shows "update_in_progress (ap_update app')"
proof (cases op)
  case (A_message data)
  then obtain rx where "device_receive (se_app senv) data app = Inr (app', evs, rx)" using assms(1) by (auto simp: obind_Inr_iff)
  from device_receive_frame [OF this] assms(2) show ?thesis by (auto simp: update_in_progress_def)
next
  case (A_button ev)
  then show ?thesis using assms
    by (auto simp: button_event_handler_def obind_Inr_iff split: if_splits)
next
  case (A_ota ev version data)
  then show ?thesis using assms
    by (cases ev) (auto simp: http_ota_event_handler_def update_started_handler_def update_new_progress_handler_def
        update_downloaded_handler_def update_ready_handler_def update_error_handler_def update_apply_def
        update_in_progress_def obind_Inr_iff Let_def split: if_splits)
next
  case (A_tcp ev err)
  then show ?thesis using assms
    by (cases ev) (auto simp: tcp_client_event_handler_def obind_Inr_iff Let_def)
next
  case A_authenticated
  then show ?thesis using assms by (auto simp: authentication_delayed_handler_def obind_Inr_iff)
qed

text \<open>C39. Once the phase of the update has left \<open>UPDATE_PHASE_IDLE\<close> it never comes back, whatever messages and events
  follow, a failed download and a rejected image included: the phase stays an update in progress, and a triple click of the button
  then starts no provisioning any more.\<close>

theorem update_never_idle:
  assumes "app_run senv ops app = Inr (app', evs)" "us_phase (ap_update app) \<noteq> UPDATE_PHASE_IDLE"
  shows "us_phase (ap_update app') \<noteq> UPDATE_PHASE_IDLE \<and>
    app_step senv (A_button EM_BUTTON_3X_CLICK_EVENT) app' = Inr (app', [])"
proof -
  have "update_in_progress (ap_update app')"
    by (rule app_runs.run_keeps [OF app_step_phase assms(1)]) (use assms(2) in \<open>simp_all add: update_in_progress_def\<close>)
  then show ?thesis by (simp add: button_event_handler_def update_in_progress_def)
qed

theorem update_never_idle_witness:
  "\<exists>app' evs. app_run senv0 [A_ota OTA_EVENT_ABORT [] 3] (app0\<lparr>ap_update := update_state_init\<lparr>us_phase := UPDATE_PHASE_TRANSFER\<rparr>\<rparr>) =
      Inr (app', evs) \<and>
    us_phase (ap_update app') \<noteq> UPDATE_PHASE_IDLE \<and>
    app_step senv0 (A_button EM_BUTTON_3X_CLICK_EVENT) app' = Inr (app', [])"
proof -
  let ?app = "app0\<lparr>ap_update := update_state_init\<lparr>us_phase := UPDATE_PHASE_TRANSFER\<rparr>\<rparr>"
  have "device_inv senv0 fst (\<lambda>s. s) ?app" using app0_inv by (simp add: device_inv_frame)
  from app_step_ok [OF senv0_ok this, of "A_ota OTA_EVENT_ABORT [] 3"]
  obtain app' evs where "app_step senv0 (A_ota OTA_EVENT_ABORT [] 3) ?app = Inr (app', evs)" by (auto simp: step_ok_def)
  then have "app_run senv0 [A_ota OTA_EVENT_ABORT [] 3] ?app = Inr (app', evs)" by simp
  from update_never_idle [OF this] this show ?thesis by fastforce
qed

end
