(* ===== verification/EM_Main.thy ===== *)
theory EM_Main
  imports EM_Sys_Props
begin

section \<open>The start of the device (app_main of main/main.c)\<close>



definition checked :: "int list \<Rightarrow> 'a outcome \<Rightarrow> 'a outcome" where
  "checked rets r = c_assert (\<forall>ret \<in> set rets. ret = ESP_OK) r"






subsection \<open>From the start on\<close>


lemma checked_ok [simp]: "(\<forall>ret \<in> set rets. ret = ESP_OK) \<Longrightarrow> checked rets r = r"
  by (simp add: checked_def)










end
